(* ===== verification/Prelude.thy ===== *)
theory Prelude
  imports Main "HOL-Library.AList" "HOL-Library.Word" "HOL-Library.Multiset"
begin

section \<open>Prelude: Go values and shared lemmas\<close>

text \<open>
  What the components share: the reading of Go's machine integers, of Go maps as
  association lists with distinct keys, of variadic optional arguments
  (\<^verbatim>\<open>pkg/utils/optional_arg.go\<close>), of the \<^verbatim>\<open>Optional\<close> struct
  (\<^verbatim>\<open>pkg/utils/optional.go\<close>), of the map helpers (\<^verbatim>\<open>pkg/utils/map_utils.go\<close>)
  and of the string helpers (\<^verbatim>\<open>pkg/utils/concatenate.go\<close>, \<^verbatim>\<open>card.go\<close>,
  \<^verbatim>\<open>phone.go\<close>), with the lemmas the component theories rest on.
  The collections: \<open>gomap\<close> holds the equations of map operations through
  \<open>map_of\<close>, \<open>goint\<close> those of machine integers.
\<close>

named_theorems gomap \<open>equations of Go maps seen through map_of\<close>
named_theorems goint \<open>equations of Go machine integers\<close>

unbundle bit_operations_syntax

subsection \<open>Machine integers\<close>

text \<open>
  A Go \<open>int\<close> or \<open>int64\<close> is a 64-bit two's complement value. Where the code only adds and
  multiplies, the value is kept as a mathematical integer and \<open>i64\<close> writes the
  wrap-around out; where it shifts and masks, the value is a \<open>64 word\<close>.
  Go's \<open>/\<close> and \<open>%\<close> truncate towards zero: \<open>go_quot\<close> and \<open>go_rem\<close>.
\<close>

type_synonym int64 = "64 word"
type_synonym uint64 = "64 word"
type_synonym uint32 = "32 word"

definition i64 :: "int \<Rightarrow> int" where
  "i64 x = (x + 2 ^ 63) mod 2 ^ 64 - 2 ^ 63"

definition in64 :: "int \<Rightarrow> bool" where
  "in64 x \<longleftrightarrow> - (2 ^ 63) \<le> x \<and> x < 2 ^ 63"

definition go_quot :: "int \<Rightarrow> int \<Rightarrow> int" where
  "go_quot a b = sgn a * sgn b * (\<bar>a\<bar> div \<bar>b\<bar>)"

definition go_rem :: "int \<Rightarrow> int \<Rightarrow> int" where
  "go_rem a b = a - b * go_quot a b"

lemma i64_id [goint]: "in64 x \<Longrightarrow> i64 x = x"
  by (simp add: i64_def in64_def)

lemma in64_i64 [simp]: "in64 (i64 x)"
proof -
  have "0 \<le> (x + 2 ^ 63) mod 2 ^ 64" and "(x + 2 ^ 63) mod 2 ^ 64 < (2 ^ 64 :: int)"
    by simp_all
  then show ?thesis by (simp add: i64_def in64_def)
qed

lemma go_quot_nonneg [goint]: "0 \<le> a \<Longrightarrow> 0 < b \<Longrightarrow> go_quot a b = a div b"
  by (cases "a = 0") (simp_all add: go_quot_def)

lemma go_rem_nonneg [goint]: "0 \<le> a \<Longrightarrow> 0 < b \<Longrightarrow> go_rem a b = a mod b"
  by (simp add: go_rem_def go_quot_nonneg minus_mult_div_eq_mod)

subsection \<open>Optional arguments and optional values\<close>

definition OptionalArg :: "'a \<Rightarrow> 'a list \<Rightarrow> 'a" where
  "OptionalArg defaultArg opt = (case opt of [] \<Rightarrow> defaultArg | x # _ \<Rightarrow> x)"

definition OptionalString :: "string \<Rightarrow> string list \<Rightarrow> string" where
  "OptionalString defaultVal opt =
     (case opt of [] \<Rightarrow> defaultVal | x # _ \<Rightarrow> if x = '''' then defaultVal else x)"

lemma OptionalArg_simps [simp]:
  "OptionalArg d [] = d" "OptionalArg d (x # xs) = x"
  by (simp_all add: OptionalArg_def)

text \<open>
  The struct keeps \<open>Value\<close> when \<open>IsSet\<close> is false, and a Go map compares both fields:
  an unset optional with a stray value is a key of its own.
\<close>

record 'a Optional =
  Value :: 'a
  IsSet :: bool

type_synonym OptString = "string Optional"

definition Opt :: "'a \<Rightarrow> 'a Optional" where
  "Opt v = \<lparr>Value = v, IsSet = True\<rparr>"

definition NullString :: OptString where
  "NullString = \<lparr>Value = '''', IsSet = False\<rparr>"

lemma Opt_sel [simp]: "Value (Opt v) = v" "IsSet (Opt v)"
  by (simp_all add: Opt_def)

lemma NullString_sel [simp]: "Value NullString = ''''" "\<not> IsSet NullString"
  by (simp_all add: NullString_def)

lemma Opt_inject [simp]: "Opt a = Opt b \<longleftrightarrow> a = b"
  by (simp add: Opt_def)

lemma Opt_neq_NullString [simp]: "Opt a \<noteq> NullString" "NullString \<noteq> Opt a"
  by (simp_all add: Opt_def NullString_def)

subsection \<open>Go maps\<close>

text \<open>
  A Go map whose size or keys the code reads is an association list with distinct keys;
  \<open>AList.update\<close> assigns, \<open>AList.delete\<close> deletes and \<open>map_of\<close> looks up. Go leaves the
  iteration order open, so statements about lists collected from a map are about their
  multisets.
\<close>

type_synonym ('k, 'v) gomap = "('k \<times> 'v) list"

definition gomap_wf :: "('k, 'v) gomap \<Rightarrow> bool" where
  "gomap_wf m \<longleftrightarrow> distinct (map fst m)"

lemma gomap_wf_Nil [simp]: "gomap_wf []"
  by (simp add: gomap_wf_def)

lemma gomap_wf_update [simp]: "gomap_wf m \<Longrightarrow> gomap_wf (AList.update k v m)"
  by (simp add: gomap_wf_def distinct_update)

lemma gomap_wf_delete [simp]: "gomap_wf m \<Longrightarrow> gomap_wf (AList.delete k m)"
  by (simp add: gomap_wf_def distinct_delete)

lemma map_of_update [gomap]: "map_of (AList.update k v m) = (map_of m)(k \<mapsto> v)"
  by (rule ext) (simp add: update_conv)

lemma map_of_delete [gomap]: "map_of (AList.delete k m) = (map_of m)(k := None)"
  by (rule ext) (simp add: delete_conv')

lemma mset_update_new:
  "map_of m k = None \<Longrightarrow> mset (AList.update k v m) = mset m + {#(k, v)#}"
  by (induction m) (auto split: if_splits)

lemma mset_delete:
  "gomap_wf m \<Longrightarrow> map_of m k = Some v \<Longrightarrow> mset m = mset (AList.delete k m) + {#(k, v)#}"
proof (induction m)
  case Nil
  then show ?case by simp
next
  case (Cons a m)
  obtain k' v' where a: "a = (k', v')" by (cases a)
  from Cons.prems(1) have wf: "gomap_wf m" and new: "k' \<notin> fst ` set m"
    by (simp_all add: gomap_wf_def a)
  show ?case
  proof (cases "k' = k")
    case True
    with new have "AList.delete k m = m"
      by (simp add: delete_id)
    with True Cons.prems(2) show ?thesis by (simp add: a)
  next
    case False
    with Cons.prems(2) wf show ?thesis by (simp add: a Cons.IH)
  qed
qed

lemma mset_update_old:
  assumes "gomap_wf m" and "map_of m k = Some v"
  shows "mset (AList.update k w m) = mset (AList.delete k m) + {#(k, w)#}"
  using assms
proof (induction m)
  case Nil
  then show ?case by simp
next
  case (Cons a m)
  obtain k' v' where a: "a = (k', v')" by (cases a)
  from Cons.prems(1) have wf: "gomap_wf m" and new: "k' \<notin> fst ` set m"
    by (simp_all add: gomap_wf_def a)
  show ?case
  proof (cases "k' = k")
    case True
    with new have "AList.delete k m = m"
      by (simp add: delete_id)
    with True show ?thesis by (simp add: a)
  next
    case False
    with Cons.prems(2) wf show ?thesis by (simp add: a Cons.IH)
  qed
qed

lemma delete_eq_Nil_iff: "AList.delete k m = [] \<longleftrightarrow> fst ` set m \<subseteq> {k}"
  by (induction m) auto

lemma length_update_new: "map_of m k = None \<Longrightarrow> length (AList.update k v m) = Suc (length m)"
  by (induction m) (auto split: if_splits)

lemma length_update_old: "map_of m k \<noteq> None \<Longrightarrow> length (AList.update k v m) = length m"
  by (induction m) (auto split: if_splits)

lemma update_append: "map_of m k = None \<Longrightarrow> AList.update k v m = m @ [(k, v)]"
  by (induction m) (auto split: if_splits)

lemma snd_update [simp]: "v \<in> snd ` set (AList.update k v m)"
  by (induction m) auto

text \<open>\<open>utils.AppendMap\<close>: every pair of the second map is assigned into the first.\<close>

fun AppendMap :: "('k, 'v) gomap \<Rightarrow> ('k, 'v) gomap \<Rightarrow> ('k, 'v) gomap" where
  "AppendMap m1 [] = m1"
| "AppendMap m1 ((k, v) # m2) = AppendMap (AList.update k v m1) m2"

lemma gomap_wf_AppendMap [simp]: "gomap_wf m1 \<Longrightarrow> gomap_wf (AppendMap m1 m2)"
  by (induction m1 m2 rule: AppendMap.induct) auto

lemma map_of_AppendMap [gomap]:
  "gomap_wf m2 \<Longrightarrow> map_of (AppendMap m1 m2) = map_of m1 ++ map_of m2"
proof (induction m1 m2 rule: AppendMap.induct)
  case (1 m1)
  then show ?case by simp
next
  case (2 m1 k v m2)
  then have "gomap_wf m2" and "k \<notin> fst ` set m2"
    by (simp_all add: gomap_wf_def)
  then have "map_of m2 k = None"
    by (simp add: map_of_eq_None_iff)
  with 2 \<open>gomap_wf m2\<close> show ?case
    by (auto simp: map_of_update map_add_def fun_eq_iff split: option.splits)
qed

subsection \<open>Errors and panics as sums\<close>

text \<open>A fallible call is a value of a sum type, \<open>Inl\<close> for the error or the panic.\<close>

lemma map_sum_Inr_iff [simp]: "map_sum id f r = Inr y \<longleftrightarrow> (\<exists>x. r = Inr x \<and> y = f x)"
  by (cases r) auto

lemma map_sum_Inl_iff [simp]: "map_sum id f r = Inl e \<longleftrightarrow> r = Inl e"
  by (cases r) auto

text \<open>Characters are bytes.\<close>

lemma of_char_less: "of_char c < (256 :: nat)"
  by (metis of_char_of nat_of_char_less_256)

end
