(* ===== verification/SelectorTries.thy ===== *)
theory SelectorTries
  imports Prelude
begin

section \<open>Attribute registries: selector trie and level trie\<close>

text \<open>
  Models \<^verbatim>\<open>pkg/message_queue/attribute_registry.go\<close>, \<^verbatim>\<open>selector_trie.go\<close> and
  \<^verbatim>\<open>level_trie.go\<close>. A trie node owns its children (no node is shared), so the pointer
  structure is a tree value; the children and objects maps are association lists with
  distinct keys. The mutex makes every operation atomic. The locale
  \<open>attribute_registry\<close> is the contract of the Go interface \<^verbatim>\<open>AttributeRegistry\<close>;
  both tries are interpreted in it, the level trie also in \<open>subsuming_registry\<close>, whose
  \<open>Find\<close> is exact.
\<close>

subsection \<open>Data and operations\<close>

type_synonym selectors = "OptString list"

record RegistrySubscription =
  sub_index :: uint64
  sub_path :: selectors

datatype 'a node = Node (children: "(OptString, 'a node) gomap") (objects: "(uint64, 'a) gomap")

definition newNode :: "'a node" where
  "newNode = Node [] []"

record 'a SelectorTrie =
  maxSelectors :: int
  root :: "'a node"
  indexCounter :: uint64

definition NewSelectorTrie :: "int \<Rightarrow> 'a SelectorTrie" where
  "NewSelectorTrie m = \<lparr>maxSelectors = m, root = newNode, indexCounter = 0\<rparr>"

definition anyRemainingSet :: "selectors \<Rightarrow> nat \<Rightarrow> bool" where
  "anyRemainingSet s start = list_ex IsSet (drop start s)"

text \<open>
  The loop of \<open>Register\<close>: \<open>i\<close> counts the levels descended; the walk stops at
  \<open>maxSelectors\<close>, at the end of the selectors, or where no set selector remains.
  The loop's two effects are separated: the path it records, and the descent that creates
  missing children and stores the object at the last node.
\<close>

function register_path :: "int \<Rightarrow> selectors \<Rightarrow> nat \<Rightarrow> selectors" where
  "register_path m s i =
     (if int i < m \<and> i < length s
      then if \<not> anyRemainingSet s i then [] else s ! i # register_path m s (Suc i)
      else [])"
  by pat_completeness auto
termination
  by (relation "measure (\<lambda>(m, s, i). length s - i)") auto

declare register_path.simps [simp del]

fun insert_at :: "selectors \<Rightarrow> uint64 \<Rightarrow> 'a \<Rightarrow> 'a node \<Rightarrow> 'a node" where
  "insert_at [] idx obj (Node ch os) = Node ch (AList.update idx obj os)"
| "insert_at (s # ss) idx obj (Node ch os) =
     (let child = (case map_of ch s of None \<Rightarrow> newNode | Some c \<Rightarrow> c)
      in Node (AList.update s (insert_at ss idx obj child) ch) os)"

definition Register ::
    "'a SelectorTrie \<Rightarrow> selectors \<Rightarrow> 'a \<Rightarrow> 'a SelectorTrie \<times> RegistrySubscription" where
  "Register st selectors obj =
     (let index = indexCounter st + 1;
          path = register_path (maxSelectors st) selectors 0
      in (st\<lparr>indexCounter := index, root := insert_at path index obj (root st)\<rparr>,
          \<lparr>sub_index = index, sub_path = path\<rparr>))"

text \<open>
  \<open>Unregister\<close> walks down the recorded path; \<open>None\<close> is the early return of the zero value,
  with the trie unchanged. On the way back up a child left with no objects and no children
  is deleted from its parent; once a node is kept its ancestors are not empty, which is
  where the Go loop breaks.
\<close>

definition node_empty :: "'a node \<Rightarrow> bool" where
  "node_empty n \<longleftrightarrow> objects n = [] \<and> children n = []"

fun remove_at :: "selectors \<Rightarrow> uint64 \<Rightarrow> 'a node \<Rightarrow> ('a node \<times> 'a) option" where
  "remove_at [] idx (Node ch os) =
     (case map_of os idx of None \<Rightarrow> None | Some found \<Rightarrow> Some (Node ch (AList.delete idx os), found))"
| "remove_at (s # ss) idx (Node ch os) =
     (case map_of ch s of
        None \<Rightarrow> None
      | Some next \<Rightarrow>
          (case remove_at ss idx next of
             None \<Rightarrow> None
           | Some (nd, found) \<Rightarrow>
               Some (Node (if node_empty nd then AList.delete s ch
                           else AList.update s nd ch) os, found)))"

definition Unregister ::
    "'a SelectorTrie \<Rightarrow> RegistrySubscription option \<Rightarrow> 'a SelectorTrie \<times> 'a option" where
  "Unregister st subscription =
     (case subscription of
        None \<Rightarrow> (st, None)
      | Some sub \<Rightarrow>
          (case remove_at (sub_path sub) (sub_index sub) (root st) of
             None \<Rightarrow> (st, None)
           | Some (r, found) \<Rightarrow> (st\<lparr>root := r\<rparr>, Some found)))"

definition appendValues :: "'a list \<Rightarrow> (uint64, 'a) gomap \<Rightarrow> 'a list" where
  "appendValues results m = results @ map snd m"

text \<open>
  The loop of \<open>SelectorTrie.Find\<close> from level \<open>i\<close> at node \<open>n\<close>: the specific child first,
  the unset child otherwise, and the loop breaks where neither exists.
\<close>

function find_loop :: "int \<Rightarrow> selectors \<Rightarrow> nat \<Rightarrow> 'a node \<Rightarrow> 'a list \<Rightarrow> 'a list" where
  "find_loop m s i n results =
     (if int i < m \<and> i < length s
      then (case (if IsSet (s ! i) then map_of (children n) (s ! i) else None) of
              Some next \<Rightarrow> find_loop m s (Suc i) next (appendValues results (objects next))
            | None \<Rightarrow>
                (case map_of (children n) NullString of
                   Some next \<Rightarrow> find_loop m s (Suc i) next (appendValues results (objects next))
                 | None \<Rightarrow> results))
      else results)"
  by pat_completeness auto
termination
  by (relation "measure (\<lambda>(m, s, i, c, r). length s - i)") auto

declare find_loop.simps [simp del]

definition SelectorTrie_Find :: "'a SelectorTrie \<Rightarrow> selectors \<Rightarrow> 'a list" where
  "SelectorTrie_Find st key =
     find_loop (maxSelectors st) key 0 (root st) (appendValues [] (objects (root st)))"

text \<open>
  \<open>LevelTrie.Find\<close>: the recursive closure \<open>search\<close> collects the node's objects, then takes
  the specific branch and the unset branch both.
\<close>

function search :: "int \<Rightarrow> selectors \<Rightarrow> 'a node \<Rightarrow> nat \<Rightarrow> 'a list" where
  "search m s n depth =
     appendValues [] (objects n) @
     (if m \<le> int depth \<or> length s \<le> depth then []
      else (if IsSet (s ! depth)
            then (case map_of (children n) (s ! depth) of
                    Some next \<Rightarrow> search m s next (Suc depth)
                  | None \<Rightarrow> [])
            else []) @
           (case map_of (children n) NullString of
              Some next \<Rightarrow> search m s next (Suc depth)
            | None \<Rightarrow> []))"
  by pat_completeness auto
termination
  by (relation "measure (\<lambda>(m, s, n, d). length s - d)") auto

declare search.simps [simp del]

definition LevelTrie_Find :: "'a SelectorTrie \<Rightarrow> selectors \<Rightarrow> 'a list" where
  "LevelTrie_Find lt key = search (maxSelectors lt) key (root lt) 0"

subsection \<open>Abstraction: the registered entries\<close>

text \<open>
  The content of a node is the multiset of its entries: the path from the node, the index
  and the object. \<open>node_wf\<close> is the invariant the operations keep: map keys are distinct
  and pruning leaves no empty child behind.
\<close>

type_synonym 'a content = "(selectors \<times> uint64 \<times> 'a) multiset"

definition push_sel :: "OptString \<Rightarrow> selectors \<times> uint64 \<times> 'a \<Rightarrow> selectors \<times> uint64 \<times> 'a" where
  "push_sel s e = (case e of (p, i, v) \<Rightarrow> (s # p, i, v))"

fun node_content :: "'a node \<Rightarrow> 'a content" where
  "node_content (Node ch os) =
     mset (map (Pair []) os) +
     sum_list (map (\<lambda>(s, c). image_mset (push_sel s) (node_content c)) ch)"

fun node_wf :: "'a node \<Rightarrow> bool" where
  "node_wf (Node ch os) \<longleftrightarrow>
     gomap_wf ch \<and> gomap_wf os \<and> list_all (\<lambda>(s, c). node_wf c \<and> \<not> node_empty c) ch"

definition entry_obj :: "selectors \<times> uint64 \<times> 'a \<Rightarrow> 'a" where
  "entry_obj e = snd (snd e)"

definition entry_index :: "selectors \<times> uint64 \<times> 'a \<Rightarrow> uint64" where
  "entry_index e = fst (snd e)"

definition entry_path :: "selectors \<times> uint64 \<times> 'a \<Rightarrow> selectors" where
  "entry_path e = fst e"

lemma entry_simps [simp]:
  "entry_obj (p, i, v) = v" "entry_index (p, i, v) = i" "entry_path (p, i, v) = p"
  "entry_obj (push_sel s e) = entry_obj e" "entry_index (push_sel s e) = entry_index e"
  "entry_path (push_sel s e) = s # entry_path e" "push_sel s (p, i, v) = (s # p, i, v)"
  by (simp_all add: entry_obj_def entry_index_def entry_path_def push_sel_def split: prod.splits)

lemma push_sel_eq_iff: "push_sel s e = (p, i, v) \<longleftrightarrow> (\<exists>q. p = s # q \<and> e = (q, i, v))"
  by (auto simp: push_sel_def split: prod.splits)

lemma node_empty_iff [simp]: "node_empty (Node ch os) \<longleftrightarrow> ch = [] \<and> os = []"
  by (auto simp: node_empty_def)

lemma newNode_facts [simp]:
  "node_content newNode = {#}" "node_wf newNode" "node_empty newNode"
  by (simp_all add: newNode_def)

text \<open>The content of the children as a sum over the multiset of the map's pairs.\<close>

definition branch :: "OptString \<times> 'a node \<Rightarrow> 'a content" where
  "branch b = image_mset (push_sel (fst b)) (node_content (snd b))"

lemma node_content_sum:
  "node_content (Node ch os) =
     image_mset (Pair []) (mset os) + (\<Sum>b \<in># mset ch. branch b)"
proof -
  have eq: "(\<lambda>(s, c). image_mset (push_sel s) (node_content c)) = branch"
    by (rule ext) (simp add: branch_def split: prod.splits)
  show ?thesis
    unfolding node_content.simps eq by (simp add: sum_mset_sum_list flip: mset_map)
qed

declare node_content.simps [simp del]

lemma map_of_child:
  "node_wf (Node ch os) \<Longrightarrow> map_of ch s = Some c \<Longrightarrow> node_wf c \<and> \<not> node_empty c"
  by (auto simp: list_all_iff dest: map_of_SomeD)

lemma insert_at_not_empty: "\<not> node_empty (insert_at p i v n)"
  by (cases "(p, i, v, n)" rule: insert_at.cases) (auto simp: Let_def)

lemma list_all_update:
  "list_all P m \<Longrightarrow> P (k, v) \<Longrightarrow> list_all P (AList.update k v m)"
  by (induction m) auto

lemma list_all_delete: "list_all P m \<Longrightarrow> list_all P (AList.delete k m)"
  by (induction m) auto

lemma insert_at_wf: "node_wf n \<Longrightarrow> node_wf (insert_at p i v n)"
proof (induction p i v n rule: insert_at.induct)
  case (1 idx obj ch os)
  then show ?case by simp
next
  case (2 s ss idx obj ch os)
  define child where "child = (case map_of ch s of None \<Rightarrow> newNode | Some c \<Rightarrow> c)"
  have "node_wf child"
    by (cases "map_of ch s") (simp_all add: child_def map_of_child [OF "2.prems"])
  then have "node_wf (insert_at ss idx obj child)"
    using "2.IH" by (simp add: child_def)
  with "2.prems" show ?case
    by (auto simp: Let_def insert_at_not_empty intro!: list_all_update simp flip: child_def)
qed

lemma insert_at_content:
  assumes "node_wf n" and "\<And>e. e \<in># node_content n \<Longrightarrow> entry_index e \<noteq> i"
  shows "node_content (insert_at p i v n) = node_content n + {#(p, i, v)#}"
  using assms
proof (induction p i v n rule: insert_at.induct)
  case (1 idx obj ch os)
  have "map_of os idx = None"
  proof (rule ccontr)
    assume "map_of os idx \<noteq> None"
    then obtain w where "(idx, w) \<in> set os"
      by (auto dest: map_of_SomeD)
    then have "([], idx, w) \<in># node_content (Node ch os)"
      by (force simp: node_content_sum)
    then show False using "1.prems"(2) by fastforce
  qed
  then show ?case
    by (simp add: node_content_sum mset_update_new)
next
  case (2 s ss idx obj ch os)
  show ?case
  proof (cases "map_of ch s")
    case None
    have "node_content (insert_at ss idx obj newNode) = {#(ss, idx, obj)#}"
      using "2.IH" None by simp
    with None show ?thesis
      by (simp add: node_content_sum mset_update_new branch_def)
  next
    case (Some c)
    from "2.prems"(1) have wf: "gomap_wf ch" by simp
    have ch: "mset ch = mset (AList.delete s ch) + {#(s, c)#}"
      by (rule mset_delete [OF wf Some])
    have "entry_index e \<noteq> idx" if "e \<in># node_content c" for e
    proof -
      from that have "push_sel s e \<in># node_content (Node ch os)"
        by (simp add: node_content_sum ch branch_def)
      from "2.prems"(2) [OF this] show ?thesis by simp
    qed
    then have "node_content (insert_at ss idx obj c) = node_content c + {#(ss, idx, obj)#}"
      using "2.IH" "2.prems"(1) Some map_of_child [of ch os s c] by simp
    then show ?thesis
      by (simp add: Some node_content_sum mset_update_old [OF wf Some] ch branch_def)
  qed
qed

text \<open>Removal: what is returned is the entry taken out, and a miss means no such entry.\<close>

lemma node_content_empty: "node_empty n \<Longrightarrow> node_content n = {#}"
  by (cases n) (simp add: node_content_sum)

lemma node_content_nonempty: "node_wf n \<Longrightarrow> \<not> node_empty n \<Longrightarrow> node_content n \<noteq> {#}"
proof (induction n rule: node_wf.induct)
  case (1 ch os)
  show ?case
  proof (cases ch)
    case Nil
    with 1 show ?thesis by (cases os) (auto simp: node_content_sum)
  next
    case (Cons b bs)
    then have "node_wf (snd b)" and "\<not> node_empty (snd b)"
      using "1.prems"(1) by (auto split: prod.splits)
    then have "branch b \<noteq> {#}"
      using "1.IH" [of b "fst b" "snd b"] Cons by (simp add: branch_def)
    then show ?thesis by (simp add: node_content_sum Cons)
  qed
qed

lemma remove_at_wf: "node_wf n \<Longrightarrow> remove_at p i n = Some (n', v) \<Longrightarrow> node_wf n'"
proof (induction p i n arbitrary: n' v rule: remove_at.induct)
  case (1 idx ch os)
  then show ?case by (auto split: option.splits)
next
  case (2 s ss idx ch os)
  from "2.prems"(2) obtain c c' where c: "map_of ch s = Some c"
    and c': "remove_at ss idx c = Some (c', v)"
    and n': "n' = Node (if node_empty c' then AList.delete s ch else AList.update s c' ch) os"
    by (auto split: option.splits)
  have "node_wf c'"
    using "2.IH" [OF c _ c'] map_of_child [OF "2.prems"(1) c] by simp
  with "2.prems"(1) show ?case
    by (simp add: n' list_all_update list_all_delete)
qed

lemma remove_at_content:
  "node_wf n \<Longrightarrow> remove_at p i n = Some (n', v) \<Longrightarrow> node_content n = node_content n' + {#(p, i, v)#}"
proof (induction p i n arbitrary: n' v rule: remove_at.induct)
  case (1 idx ch os)
  then have "map_of os idx = Some v" and "n' = Node ch (AList.delete idx os)" and wf: "gomap_wf os"
    by (auto split: option.splits)
  then show ?case
    by (simp add: node_content_sum mset_delete [OF wf])
next
  case (2 s ss idx ch os)
  from "2.prems"(1) have wf: "gomap_wf ch" by simp
  from "2.prems"(2) obtain c c' where c: "map_of ch s = Some c"
    and c': "remove_at ss idx c = Some (c', v)"
    and n': "n' = Node (if node_empty c' then AList.delete s ch else AList.update s c' ch) os"
    by (auto split: option.splits)
  have "node_content c = node_content c' + {#(ss, idx, v)#}"
    using "2.IH" [OF c _ c'] map_of_child [OF "2.prems"(1) c] by simp
  then show ?case
    by (simp add: n' node_content_sum mset_delete [OF wf c] mset_update_old [OF wf c] branch_def
        node_content_empty)
qed

lemma remove_at_miss:
  "remove_at p i n = None \<Longrightarrow> node_wf n \<Longrightarrow> (p, i, v) \<notin># node_content n"
proof (induction p i n rule: remove_at.induct)
  case (1 idx ch os)
  then have "map_of os idx = None" by (simp split: option.splits)
  then have "(idx, v) \<notin> set os" by (force simp: map_of_eq_None_iff)
  then show ?case by (auto simp: node_content_sum branch_def push_sel_eq_iff)
next
  case (2 s ss idx ch os)
  have "(ss, idx, v) \<notin># node_content c" if c: "(s, c) \<in> set ch" for c
  proof -
    from c "2.prems"(2) have "map_of ch s = Some c" by (simp add: gomap_wf_def)
    with 2 show ?thesis
      using map_of_child [of ch os s c] by (auto split: option.splits)
  qed
  then show ?case
    by (auto simp: node_content_sum branch_def push_sel_eq_iff)
qed

subsection \<open>What Find returns\<close>

text \<open>
  A registered path subsumes a lookup key when it is no longer than the key and at every
  level is unset or equal to the key's set selector: the rule stated in the comments of
  \<open>Find\<close>. Only the first \<open>maxSelectors\<close> selectors of a key are read.
\<close>

fun subsumes :: "selectors \<Rightarrow> selectors \<Rightarrow> bool" where
  "subsumes [] ks = True"
| "subsumes (p # ps) [] = False"
| "subsumes (p # ps) (k # ks) = ((p = NullString \<or> IsSet k \<and> p = k) \<and> subsumes ps ks)"

definition matching :: "selectors \<Rightarrow> 'a content \<Rightarrow> 'a multiset" where
  "matching ks c = image_mset entry_obj (filter_mset (\<lambda>e. subsumes (entry_path e) ks) c)"

definition key_prefix :: "int \<Rightarrow> selectors \<Rightarrow> selectors" where
  "key_prefix m s = take (nat m) s"

text \<open>The two loops, restated as recursions over the part of the key still to be read.\<close>

definition specific_child :: "OptString \<Rightarrow> 'a node \<Rightarrow> 'a node option" where
  "specific_child k n = (if IsSet k then map_of (children n) k else None)"

definition unset_child :: "'a node \<Rightarrow> 'a node option" where
  "unset_child n = map_of (children n) NullString"

fun search_rest :: "selectors \<Rightarrow> 'a node \<Rightarrow> 'a multiset" where
  "search_rest [] n = mset (map snd (objects n))"
| "search_rest (k # ks) n =
     mset (map snd (objects n)) +
     (case specific_child k n of None \<Rightarrow> {#} | Some c \<Rightarrow> search_rest ks c) +
     (case unset_child n of None \<Rightarrow> {#} | Some c \<Rightarrow> search_rest ks c)"

fun find_rest :: "selectors \<Rightarrow> 'a node \<Rightarrow> 'a multiset" where
  "find_rest [] n = mset (map snd (objects n))"
| "find_rest (k # ks) n =
     mset (map snd (objects n)) +
     (case specific_child k n of
        Some c \<Rightarrow> find_rest ks c
      | None \<Rightarrow> (case unset_child n of None \<Rightarrow> {#} | Some c \<Rightarrow> find_rest ks c))"

lemma drop_key_prefix:
  "int i < m \<and> i < length s \<Longrightarrow> drop i (key_prefix m s) = s ! i # drop (Suc i) (key_prefix m s)"
proof -
  assume a: "int i < m \<and> i < length s"
  then have "i < length (key_prefix m s)" and "key_prefix m s ! i = s ! i"
    by (auto simp: key_prefix_def)
  then show ?thesis by (simp add: Cons_nth_drop_Suc [symmetric])
qed

lemma drop_key_prefix_Nil: "\<not> (int i < m \<and> i < length s) \<Longrightarrow> drop i (key_prefix m s) = []"
  by (auto simp: key_prefix_def)

lemma search_search_rest: "mset (search m s n i) = search_rest (drop i (key_prefix m s)) n"
proof (induction m s n i rule: search.induct)
  case (1 m s n i)
  show ?case
  proof (cases "int i < m \<and> i < length s")
    case True
    then show ?thesis
      using "1.IH" unfolding search.simps [of m s n i] drop_key_prefix [OF True]
      by (auto simp: appendValues_def specific_child_def unset_child_def split: option.splits)
  next
    case False
    then show ?thesis
      unfolding search.simps [of m s n i] drop_key_prefix_Nil [OF False]
      by (auto simp: appendValues_def)
  qed
qed

lemma find_loop_stop: "\<not> (int i < m \<and> i < length s) \<Longrightarrow> find_loop m s i n rs = rs"
  by (subst find_loop.simps) (simp only: if_False)

lemma find_loop_find_rest:
  "mset (find_loop m s i n (results @ map snd (objects n))) =
     mset results + find_rest (drop i (key_prefix m s)) n"
proof (induction "length s - i" arbitrary: i n results)
  case 0
  then have "\<not> (int i < m \<and> i < length s)" by simp
  then show ?case by (simp add: find_loop_stop drop_key_prefix_Nil)
next
  case (Suc d)
  then have IH: "mset (find_loop m s (Suc i) c (results' @ map snd (objects c))) =
      mset results' + find_rest (drop (Suc i) (key_prefix m s)) c" for c :: "'a node" and results'
    by simp
  have IH: "mset (find_loop m s (Suc i) c (results @ map snd (objects n) @ map snd (objects c))) =
      mset results + (image_mset snd (mset (objects n)) +
        find_rest (drop (Suc i) (key_prefix m s)) c)" for c :: "'a node"
    using IH [of c "results @ map snd (objects n)"] by simp
  show ?case
  proof (cases "int i < m \<and> i < length s")
    case True
    then show ?thesis
      unfolding find_loop.simps [of m s i n] drop_key_prefix [OF True]
      by (auto simp: appendValues_def specific_child_def unset_child_def IH split: option.splits)
  next
    case False
    then show ?thesis by (simp add: drop_key_prefix_Nil [OF False] find_loop_stop [OF False])
  qed
qed

lemma LevelTrie_Find_rest:
  "mset (LevelTrie_Find lt key) = search_rest (key_prefix (maxSelectors lt) key) (root lt)"
  by (simp add: LevelTrie_Find_def search_search_rest)

lemma SelectorTrie_Find_rest:
  "mset (SelectorTrie_Find st key) = find_rest (key_prefix (maxSelectors st) key) (root st)"
  using find_loop_find_rest [of "maxSelectors st" key 0 "root st" "[]"]
  by (simp add: SelectorTrie_Find_def appendValues_def)

text \<open>Splitting the content of a node by the first selector.\<close>

lemma matching_push_sel:
  "matching (k # ks) (image_mset (push_sel s) c) =
     (if s = NullString \<or> IsSet k \<and> s = k then matching ks c else {#})"
  by (auto simp: matching_def filter_mset_image_mset image_mset.compositionality comp_def)

lemma matching_Nil_push_sel [simp]: "matching [] (image_mset (push_sel s) c) = {#}"
  by (simp add: matching_def filter_mset_image_mset)

lemma matching_add [simp]: "matching ks (c + d) = matching ks c + matching ks d"
  by (simp add: matching_def)

lemma matching_empty [simp]: "matching ks {#} = {#}"
  by (simp add: matching_def)

lemma matching_sum: "matching ks (\<Sum>b \<in># M. f b) = (\<Sum>b \<in># M. matching ks (f b))"
  by (induction M) simp_all

lemma matching_own: "matching ks (image_mset (Pair []) (mset os)) = image_mset snd (mset os)"
  by (induction os) (auto simp: matching_def split: prod.splits)

lemma sum_at_key:
  fixes f :: "'b \<Rightarrow> 'c multiset"
  assumes "gomap_wf m"
  shows "(\<Sum>(k, v) \<in># mset m. if k = x then f v else {#}) =
           (case map_of m x of None \<Rightarrow> {#} | Some v \<Rightarrow> f v)"
  using assms
proof (induction m)
  case Nil
  then show ?case by simp
next
  case (Cons a m)
  then have "fst a = x \<Longrightarrow> map_of m x = None"
    by (auto simp: gomap_wf_def map_of_eq_None_iff)
  with Cons show ?case by (cases a) (auto simp: gomap_wf_def)
qed

lemma matching_node:
  assumes "node_wf n"
  shows "matching (k # ks) (node_content n) =
    mset (map snd (objects n)) +
    (case specific_child k n of None \<Rightarrow> {#} | Some c \<Rightarrow> matching ks (node_content c)) +
    (case unset_child n of None \<Rightarrow> {#} | Some c \<Rightarrow> matching ks (node_content c))"
proof -
  obtain ch os where n: "n = Node ch os" by (cases n)
  from assms have wf: "gomap_wf ch" by (simp add: n)
  let ?f = "\<lambda>c. matching ks (node_content c)"
  have split: "matching (k # ks) (branch b) =
      (case b of (s, c) \<Rightarrow> if s = k then (if IsSet k then ?f c else {#}) else {#}) +
      (case b of (s, c) \<Rightarrow> if s = NullString then ?f c else {#})" for b
    by (cases b) (auto simp: branch_def matching_push_sel)
  have "(\<Sum>b \<in># mset ch. matching (k # ks) (branch b)) =
      (case map_of ch k of None \<Rightarrow> {#} | Some c \<Rightarrow> if IsSet k then ?f c else {#}) +
      (case map_of ch NullString of None \<Rightarrow> {#} | Some c \<Rightarrow> ?f c)"
    unfolding split sum_mset.distrib sum_at_key [OF wf] ..
  then show ?thesis
    by (auto simp: n node_content_sum matching_sum matching_own specific_child_def unset_child_def
        split: option.splits)
qed

lemma matching_node_Nil: "matching [] (node_content n) = mset (map snd (objects n))"
  by (cases n) (simp add: node_content_sum matching_sum matching_own branch_def)

lemma child_wf:
  assumes "node_wf n" and "specific_child k n = Some c \<or> unset_child n = Some c"
  shows "node_wf c \<and> \<not> node_empty c"
proof -
  obtain ch os where n: "n = Node ch os" by (cases n)
  with assms(2) obtain s where "map_of ch s = Some c"
    by (auto simp: specific_child_def unset_child_def split: if_splits)
  with assms(1) show ?thesis unfolding n by (rule map_of_child)
qed

lemma search_rest_matching: "node_wf n \<Longrightarrow> search_rest ks n = matching ks (node_content n)"
proof (induction ks arbitrary: n)
  case Nil
  then show ?case by (simp add: matching_node_Nil)
next
  case (Cons k ks)
  have "search_rest ks c = matching ks (node_content c)"
    if "specific_child k n = Some c \<or> unset_child n = Some c" for c
    using Cons.IH child_wf [OF Cons.prems that] by simp
  then show ?case
    by (simp add: matching_node [OF Cons.prems] split: option.splits)
qed

lemma find_rest_search_rest: "find_rest ks n \<subseteq># search_rest ks n"
proof (induction ks arbitrary: n)
  case Nil
  then show ?case by simp
next
  case (Cons k ks)
  then show ?case
    by (auto split: option.splits intro: subset_mset.order_trans [OF _ mset_subset_eq_add_left])
qed

text \<open>
  The use of a selector trie that its comment prescribes: where the key has a set selector,
  no registered path has an unset one. Then following one branch loses nothing, because a
  pruned trie has no child without entries below it.
\<close>

definition unset_aligned :: "selectors \<Rightarrow> 'a content \<Rightarrow> bool" where
  "unset_aligned ks c \<longleftrightarrow>
     (\<forall>e \<in># c. \<forall>j. j < length (entry_path e) \<and> j < length ks \<and> IsSet (ks ! j)
                \<longrightarrow> entry_path e ! j \<noteq> NullString)"

lemma child_content:
  assumes "map_of (children n) s = Some c" and "e \<in># node_content c"
  shows "push_sel s e \<in># node_content n"
proof -
  obtain ch os where n: "n = Node ch os" by (cases n)
  from assms(1) have "(s, c) \<in> set ch" by (auto simp: n dest: map_of_SomeD)
  with assms(2) show ?thesis
    by (auto simp: n node_content_sum branch_def intro!: bexI [of _ "(s, c)"])
qed

lemma unset_aligned_child:
  assumes "unset_aligned (k # ks) (node_content n)" and "map_of (children n) s = Some c"
  shows "unset_aligned ks (node_content c)"
  unfolding unset_aligned_def
proof (intro ballI allI impI)
  fix e j
  assume "e \<in># node_content c"
    and j: "j < length (entry_path e) \<and> j < length ks \<and> IsSet (ks ! j)"
  then have "push_sel s e \<in># node_content n" using child_content [OF assms(2)] by simp
  with assms(1) j show "entry_path e ! j \<noteq> NullString"
    unfolding unset_aligned_def by (force dest: spec [of _ "Suc j"])
qed

lemma unset_aligned_no_unset_child:
  assumes "node_wf n" and "unset_aligned (k # ks) (node_content n)" and "IsSet k"
  shows "unset_child n = None"
proof (rule ccontr)
  assume "unset_child n \<noteq> None"
  then obtain c where c: "unset_child n = Some c" by blast
  then have "node_content c \<noteq> {#}"
    using child_wf [OF assms(1), of _ c] node_content_nonempty by blast
  then obtain e where "e \<in># node_content c" by blast
  then have "push_sel NullString e \<in># node_content n"
    using c by (auto simp: unset_child_def intro: child_content)
  with assms(2,3) show False
    unfolding unset_aligned_def by (force dest: spec [of _ 0])
qed

lemma find_rest_aligned:
  "node_wf n \<Longrightarrow> unset_aligned ks (node_content n) \<Longrightarrow> find_rest ks n = search_rest ks n"
proof (induction ks arbitrary: n)
  case Nil
  then show ?case by simp
next
  case (Cons k ks)
  have IH: "find_rest ks c = search_rest ks c"
    if "specific_child k n = Some c \<or> unset_child n = Some c" for c
  proof (rule Cons.IH)
    show "node_wf c" using child_wf [OF Cons.prems(1) that] by simp
    show "unset_aligned ks (node_content c)"
      using that unset_aligned_child [OF Cons.prems(2)]
      by (auto simp: specific_child_def unset_child_def split: if_splits)
  qed
  show ?case
  proof (cases "IsSet k")
    case True
    then have "unset_child n = None" by (rule unset_aligned_no_unset_child [OF Cons.prems])
    with IH show ?thesis by (simp split: option.splits)
  next
    case False
    then have "specific_child k n = None" by (simp add: specific_child_def)
    with IH show ?thesis by (simp split: option.splits)
  qed
qed

subsection \<open>The interface and its implementations\<close>

text \<open>
  The contract of \<open>AttributeRegistry\<close>: \<open>content\<close> is the abstract value, \<open>room\<close> says that
  the index counter has not reached its last value.
\<close>

locale attribute_registry =
  fixes inv :: "'r \<Rightarrow> bool"
    and room :: "'r \<Rightarrow> bool"
    and content :: "'r \<Rightarrow> 't content"
    and register :: "'r \<Rightarrow> selectors \<Rightarrow> 't \<Rightarrow> 'r \<times> RegistrySubscription"
    and unregister :: "'r \<Rightarrow> RegistrySubscription option \<Rightarrow> 'r \<times> 't option"
    and find_all :: "'r \<Rightarrow> selectors \<Rightarrow> 't list"
  assumes reg_inv: "inv r \<Longrightarrow> room r \<Longrightarrow> register r s t = (r', sub) \<Longrightarrow> inv r'"
    and reg_content: "inv r \<Longrightarrow> room r \<Longrightarrow> register r s t = (r', sub) \<Longrightarrow>
          content r' = content r + {#(sub_path sub, sub_index sub, t)#}"
    and reg_fresh: "inv r \<Longrightarrow> room r \<Longrightarrow> register r s t = (r', sub) \<Longrightarrow>
          e \<in># content r \<Longrightarrow> entry_index e \<noteq> sub_index sub"
    and index_unique: "inv r \<Longrightarrow> size (filter_mset (\<lambda>e. entry_index e = i) (content r)) \<le> 1"
    and unreg_inv: "inv r \<Longrightarrow> unregister r so = (r', ot) \<Longrightarrow> inv r'"
    and unreg_hit: "inv r \<Longrightarrow> unregister r (Some sub) = (r', Some t) \<Longrightarrow>
          content r = content r' + {#(sub_path sub, sub_index sub, t)#}"
    and unreg_miss: "inv r \<Longrightarrow> unregister r so = (r', None) \<Longrightarrow>
          r' = r \<and> (\<forall>sub t. so = Some sub \<longrightarrow> (sub_path sub, sub_index sub, t) \<notin># content r)"
    and find_registered: "inv r \<Longrightarrow> mset (find_all r key) \<subseteq># image_mset entry_obj (content r)"
begin

lemma unregister_present:
  assumes "inv r" and e: "(sub_path sub, sub_index sub, t) \<in># content r"
  shows "\<exists>r'. unregister r (Some sub) = (r', Some t) \<and>
              content r = content r' + {#(sub_path sub, sub_index sub, t)#}"
proof -
  obtain r' ot where u: "unregister r (Some sub) = (r', ot)" by fastforce
  obtain t' where ot: "ot = Some t'"
    using unreg_miss [OF assms(1)] u e by (cases ot) auto
  have c: "content r = content r' + {#(sub_path sub, sub_index sub, t')#}"
    using unreg_hit assms(1) u ot by blast
  have "t' = t"
  proof (rule ccontr)
    assume "t' \<noteq> t"
    with e c have "(sub_path sub, sub_index sub, t) \<in># content r'" by auto
    then obtain A where "content r' = add_mset (sub_path sub, sub_index sub, t) A"
      by (blast dest: multi_member_split)
    with c have "size (filter_mset (\<lambda>e. entry_index e = sub_index sub) (content r)) \<ge> 2"
      by simp
    with index_unique [OF assms(1), of "sub_index sub"] show False by linarith
  qed
  with u ot c show ?thesis by blast
qed

lemma register_unregister:
  assumes "inv r" and "room r" and reg: "register r s t = (r1, sub)"
  shows "\<exists>r2. unregister r1 (Some sub) = (r2, Some t) \<and> content r2 = content r"
proof -
  have "inv r1" and c: "content r1 = content r + {#(sub_path sub, sub_index sub, t)#}"
    using assms reg_inv reg_content by blast+
  then obtain r2 where "unregister r1 (Some sub) = (r2, Some t)"
    and "content r1 = content r2 + {#(sub_path sub, sub_index sub, t)#}"
    using unregister_present by fastforce
  with c show ?thesis by simp
qed

lemma unregister_again:
  assumes "inv r" and u: "unregister r (Some sub) = (r', Some t)"
  shows "unregister r' (Some sub) = (r', None)"
proof -
  have inv': "inv r'" by (rule unreg_inv [OF assms])
  have c: "content r = content r' + {#(sub_path sub, sub_index sub, t)#}"
    by (rule unreg_hit [OF assms])
  obtain r2 ot where u2: "unregister r' (Some sub) = (r2, ot)" by fastforce
  have "ot = None"
  proof (rule ccontr)
    assume "ot \<noteq> None"
    then obtain t2 where "unregister r' (Some sub) = (r2, Some t2)" using u2 by auto
    then have "content r' = content r2 + {#(sub_path sub, sub_index sub, t2)#}"
      by (rule unreg_hit [OF inv'])
    with c have "size (filter_mset (\<lambda>e. entry_index e = sub_index sub) (content r)) \<ge> 2"
      by simp
    with index_unique [OF assms(1), of "sub_index sub"] show False by linarith
  qed
  with u2 unreg_miss [OF inv', of "Some sub" r2] show ?thesis by auto
qed

end

locale subsuming_registry = attribute_registry +
  fixes width :: "'r \<Rightarrow> int"
  assumes find_exact: "inv r \<Longrightarrow> mset (find_all r key) = matching (key_prefix (width r) key) (content r)"

definition trie_inv :: "'a SelectorTrie \<Rightarrow> bool" where
  "trie_inv st \<longleftrightarrow>
     node_wf (root st) \<and>
     (\<forall>e \<in># node_content (root st). unat (entry_index e) \<le> unat (indexCounter st)) \<and>
     (\<forall>i. size (filter_mset (\<lambda>e. entry_index e = i) (node_content (root st))) \<le> 1)"

definition trie_room :: "'a SelectorTrie \<Rightarrow> bool" where
  "trie_room st \<longleftrightarrow> unat (indexCounter st) < 2 ^ 64 - 1"

definition trie_content :: "'a SelectorTrie \<Rightarrow> 'a content" where
  "trie_content st = node_content (root st)"

lemma next_index: "trie_room st \<Longrightarrow> unat (indexCounter st + 1) = Suc (unat (indexCounter st))"
  by (simp add: trie_room_def unat_word_ariths)

lemma NewSelectorTrie_inv [simp]: "trie_inv (NewSelectorTrie m)" "trie_room (NewSelectorTrie m)"
  "indexCounter (NewSelectorTrie m) = 0"
  by (simp_all add: trie_inv_def trie_room_def NewSelectorTrie_def)

lemma Register_content:
  assumes "trie_inv st" and "trie_room st" and "Register st s t = (st', sub)"
  shows "trie_content st' = trie_content st + {#(sub_path sub, sub_index sub, t)#}"
    and "\<And>e. e \<in># trie_content st \<Longrightarrow> entry_index e \<noteq> sub_index sub"
proof -
  have sub: "sub_index sub = indexCounter st + 1"
    and root: "root st' = insert_at (sub_path sub) (sub_index sub) t (root st)"
    using assms(3) by (auto simp: Register_def Let_def)
  show new: "entry_index e \<noteq> sub_index sub" if "e \<in># trie_content st" for e
    using that assms(1,2) next_index [OF assms(2)]
    by (auto simp: trie_inv_def trie_content_def sub)
  then show "trie_content st' = trie_content st + {#(sub_path sub, sub_index sub, t)#}"
    using assms(1) by (simp add: trie_content_def root trie_inv_def insert_at_content)
qed

lemma Register_inv:
  assumes "trie_inv st" and "trie_room st" and reg: "Register st s t = (st', sub)"
  shows "trie_inv st'"
proof -
  note facts = Register_content [OF assms]
  have cnt: "indexCounter st' = indexCounter st + 1" and sub: "sub_index sub = indexCounter st + 1"
    and wf: "node_wf (root st')"
    using reg assms(1) by (auto simp: Register_def Let_def trie_inv_def insert_at_wf)
  have none: "filter_mset (\<lambda>e. entry_index e = sub_index sub) (trie_content st) = {#}"
    using facts(2) by (auto simp: filter_mset_eq_mempty_iff)
  have old: "size (filter_mset (\<lambda>e. entry_index e = i) (trie_content st)) \<le> 1" for i
    using assms(1) by (simp add: trie_inv_def trie_content_def)
  have "size (filter_mset (\<lambda>e. entry_index e = i) (trie_content st')) \<le> 1" for i
    using old [of i] none unfolding facts(1) by (cases "i = sub_index sub") simp_all
  moreover have "unat (entry_index e) \<le> unat (indexCounter st')" if "e \<in># trie_content st'" for e
  proof -
    from that have "e \<in># trie_content st \<or> entry_index e = sub_index sub"
      unfolding facts(1) by auto
    then show ?thesis
      using assms(1) next_index [OF assms(2)]
      by (auto simp: cnt sub trie_inv_def trie_content_def intro: le_SucI)
  qed
  ultimately show ?thesis using wf by (simp add: trie_inv_def trie_content_def)
qed

lemma Unregister_hit:
  assumes "trie_inv st" and "Unregister st (Some sub) = (st', Some t)"
  shows "trie_content st = trie_content st' + {#(sub_path sub, sub_index sub, t)#}"
    and "node_wf (root st')" and "indexCounter st' = indexCounter st"
  using assms remove_at_content [of "root st" "sub_path sub" "sub_index sub" "root st'" t]
    remove_at_wf [of "root st" "sub_path sub" "sub_index sub" "root st'" t]
  by (auto simp: Unregister_def trie_inv_def trie_content_def split: option.splits)

lemma Unregister_miss:
  assumes "trie_inv st" and "Unregister st so = (st', None)"
  shows "st' = st \<and> (\<forall>sub t. so = Some sub \<longrightarrow> (sub_path sub, sub_index sub, t) \<notin># trie_content st)"
  using assms by (auto simp: Unregister_def trie_inv_def trie_content_def remove_at_miss
      split: option.splits)

lemma Unregister_inv:
  assumes "trie_inv st" and u: "Unregister st so = (st', ot)"
  shows "trie_inv st'"
proof (cases ot)
  case None
  with Unregister_miss [OF assms(1)] u assms(1) show ?thesis by blast
next
  case (Some t)
  with u obtain sub where so: "so = Some sub"
    by (cases so) (auto simp: Unregister_def)
  from u Some so have "Unregister st (Some sub) = (st', Some t)" by simp
  note facts = Unregister_hit [OF assms(1) this]
  have "size (filter_mset (\<lambda>e. entry_index e = i) (trie_content st')) \<le> 1" for i
  proof -
    have "size (filter_mset (\<lambda>e. entry_index e = i) (trie_content st)) \<le> 1"
      using assms(1) by (simp add: trie_inv_def trie_content_def)
    moreover have "size (filter_mset (\<lambda>e. entry_index e = i) (trie_content st')) \<le>
        size (filter_mset (\<lambda>e. entry_index e = i) (trie_content st))"
      unfolding facts(1) by simp
    ultimately show ?thesis by linarith
  qed
  with assms(1) facts show ?thesis
    by (auto simp: trie_inv_def trie_content_def)
qed

lemma SelectorTrie_Find_subset: "mset (SelectorTrie_Find st key) \<subseteq># mset (LevelTrie_Find st key)"
  by (simp add: SelectorTrie_Find_rest LevelTrie_Find_rest find_rest_search_rest)

lemma LevelTrie_Find_matching:
  "trie_inv st \<Longrightarrow>
     mset (LevelTrie_Find st key) = matching (key_prefix (maxSelectors st) key) (trie_content st)"
  by (simp add: LevelTrie_Find_rest search_rest_matching trie_inv_def trie_content_def)

lemma matching_subset: "matching ks c \<subseteq># image_mset entry_obj c"
  by (simp add: matching_def image_mset_subseteq_mono)

interpretation level_trie: subsuming_registry trie_inv trie_room trie_content
    Register Unregister LevelTrie_Find maxSelectors
proof unfold_locales
  fix st :: "'a SelectorTrie" and s t st' sub e
  assume a: "trie_inv st" "trie_room st" "Register st s t = (st', sub)"
  show "trie_inv st'" by (rule Register_inv [OF a])
  show "trie_content st' = trie_content st + {#(sub_path sub, sub_index sub, t)#}"
    by (rule Register_content(1) [OF a])
  show "e \<in># trie_content st \<Longrightarrow> entry_index e \<noteq> sub_index sub"
    by (rule Register_content(2) [OF a])
next
  fix st :: "'a SelectorTrie" and so st' ot key sub t i
  assume a: "trie_inv st"
  show "size (filter_mset (\<lambda>e. entry_index e = i) (trie_content st)) \<le> 1"
    using a by (simp add: trie_inv_def trie_content_def)
  show "Unregister st so = (st', ot) \<Longrightarrow> trie_inv st'" by (rule Unregister_inv [OF a])
  show "Unregister st (Some sub) = (st', Some t) \<Longrightarrow>
      trie_content st = trie_content st' + {#(sub_path sub, sub_index sub, t)#}"
    by (rule Unregister_hit(1) [OF a])
  show "Unregister st so = (st', None) \<Longrightarrow> st' = st \<and>
      (\<forall>sub t. so = Some sub \<longrightarrow> (sub_path sub, sub_index sub, t) \<notin># trie_content st)"
    by (rule Unregister_miss [OF a])
  show "mset (LevelTrie_Find st key) = matching (key_prefix (maxSelectors st) key) (trie_content st)"
    by (rule LevelTrie_Find_matching [OF a])
  then show "mset (LevelTrie_Find st key) \<subseteq># image_mset entry_obj (trie_content st)"
    by (simp add: matching_subset)
qed

interpretation selector_trie: attribute_registry trie_inv trie_room trie_content
    Register Unregister SelectorTrie_Find
proof unfold_locales
  fix st :: "'a SelectorTrie" and key
  assume "trie_inv st"
  then show "mset (SelectorTrie_Find st key) \<subseteq># image_mset entry_obj (trie_content st)"
    using level_trie.find_registered SelectorTrie_Find_subset subset_mset.order_trans by blast
qed (fact level_trie.reg_inv level_trie.reg_content level_trie.reg_fresh level_trie.index_unique
      level_trie.unreg_inv level_trie.unreg_hit level_trie.unreg_miss)+

subsection \<open>What was registered is found\<close>

definition canonical :: "selectors \<Rightarrow> bool" where
  "canonical s \<longleftrightarrow> list_all (\<lambda>x. IsSet x \<or> x = NullString) s"

lemma register_path_prefix: "\<exists>k. register_path m s i = take k (drop i (key_prefix m s))"
proof (induction m s i rule: register_path.induct)
  case (1 m s i)
  show ?case
  proof (cases "int i < m \<and> i < length s \<and> anyRemainingSet s i")
    case True
    with 1 obtain k where "register_path m s (Suc i) = take k (drop (Suc i) (key_prefix m s))"
      by auto
    with True have "register_path m s i = take (Suc k) (drop i (key_prefix m s))"
      by (subst register_path.simps) (simp add: drop_key_prefix)
    then show ?thesis ..
  next
    case False
    then have "register_path m s i = take 0 (drop i (key_prefix m s))"
      by (subst register_path.simps) auto
    then show ?thesis ..
  qed
qed

lemma find_rest_insert_at:
  "canonical ks \<Longrightarrow> obj \<in># find_rest ks (insert_at (take k ks) idx obj n)"
proof (induction ks arbitrary: k n)
  case Nil
  then show ?case by (cases n) simp
next
  case (Cons s ks)
  obtain ch os where n: "n = Node ch os" by (cases n)
  show ?case
  proof (cases k)
    case 0
    then show ?thesis by (simp add: n)
  next
    case (Suc k')
    define c where
      "c = insert_at (take k' ks) idx obj (case map_of ch s of None \<Rightarrow> newNode | Some c \<Rightarrow> c)"
    have "obj \<in># find_rest ks c"
      unfolding c_def using Cons by (auto simp: canonical_def)
    moreover have "insert_at (take k (s # ks)) idx obj n = Node (AList.update s c ch) os"
      by (simp add: Suc n Let_def c_def)
    moreover have "IsSet s \<or> s = NullString"
      using Cons.prems by (simp add: canonical_def)
    ultimately show ?thesis
      by (auto simp: specific_child_def unset_child_def map_of_update)
  qed
qed

lemma find_after_register:
  assumes "canonical s" and "Register st s obj = (st', sub)"
  shows "obj \<in># mset (SelectorTrie_Find st' s)" and "obj \<in># mset (LevelTrie_Find st' s)"
proof -
  define ks where "ks = key_prefix (maxSelectors st) s"
  obtain k where path: "register_path (maxSelectors st) s 0 = take k ks"
    using register_path_prefix [of "maxSelectors st" s 0] by (auto simp: ks_def)
  have st': "root st' = insert_at (take k ks) (indexCounter st + 1) obj (root st)"
    and max: "maxSelectors st' = maxSelectors st"
    using assms(2) path by (auto simp: Register_def Let_def)
  have "canonical ks"
    using assms(1) by (auto simp: ks_def canonical_def key_prefix_def list_all_iff dest: in_set_takeD)
  then show 1: "obj \<in># mset (SelectorTrie_Find st' s)"
    unfolding SelectorTrie_Find_rest max ks_def [symmetric] st' by (rule find_rest_insert_at)
  then show "obj \<in># mset (LevelTrie_Find st' s)"
    by (rule mset_subset_eqD [OF SelectorTrie_Find_subset])
qed

text \<open>Runs of registry operations, for statements about every trie a program can build.\<close>

datatype 'a trie_op = RegisterOp selectors 'a | UnregisterOp "RegistrySubscription option"

fun trie_step :: "'a SelectorTrie \<Rightarrow> 'a trie_op \<Rightarrow> 'a SelectorTrie" where
  "trie_step st (RegisterOp s v) = fst (Register st s v)"
| "trie_step st (UnregisterOp sub) = fst (Unregister st sub)"

fun trie_run :: "'a SelectorTrie \<Rightarrow> 'a trie_op list \<Rightarrow> 'a SelectorTrie" where
  "trie_run st [] = st"
| "trie_run st (op # ops) = trie_run (trie_step st op) ops"

lemma trie_step_inv:
  assumes "trie_inv st" and "trie_room st"
  shows "trie_inv (trie_step st op)"
    and "unat (indexCounter (trie_step st op)) \<le> Suc (unat (indexCounter st))"
proof -
  show "trie_inv (trie_step st op)"
    using Register_inv [OF assms prod.collapse [symmetric]]
      Unregister_inv [OF assms(1) prod.collapse [symmetric]] by (cases op) simp_all
  show "unat (indexCounter (trie_step st op)) \<le> Suc (unat (indexCounter st))"
    using next_index [OF assms(2)]
    by (cases op) (auto simp: Register_def Unregister_def Let_def split: option.splits)
qed

lemma trie_run_inv:
  "trie_inv st \<Longrightarrow> unat (indexCounter st) + length ops < 2 ^ 64 \<Longrightarrow> trie_inv (trie_run st ops)"
proof (induction ops arbitrary: st)
  case Nil
  then show ?case by simp
next
  case (Cons op ops)
  from Cons.prems(2) have "trie_room st" by (simp add: trie_room_def)
  note step = trie_step_inv [OF Cons.prems(1) this, of op]
  with Cons show ?case by simp
qed

subsection \<open>Properties\<close>

text \<open>A concrete trie for the witnesses: the three examples of the comment of \<open>LevelTrie\<close>.\<close>

definition example_trie :: "nat SelectorTrie" where
  "example_trie = trie_run (NewSelectorTrie 3)
     [RegisterOp [Opt ''A'', NullString, Opt ''C''] 1,
      RegisterOp [NullString, NullString, Opt ''C''] 2,
      RegisterOp [Opt ''A'', Opt ''B''] 3]"

lemma example_trie_inv: "trie_inv example_trie"
  unfolding example_trie_def by (rule trie_run_inv) simp_all

lemma example_content:
  "trie_content example_trie =
     {#([Opt ''A'', NullString, Opt ''C''], 1, 1), ([NullString, NullString, Opt ''C''], 2, 2),
       ([Opt ''A'', Opt ''B''], 3, 3)#}"
  by code_simp

text \<open>
  C1: \<open>LevelTrie.Find\<close> returns exactly the registered objects whose path subsumes the lookup
  key, each once per registration, for every trie built by the operations.
\<close>

theorem level_find_exact:
  assumes "trie_inv lt"
  shows "mset (LevelTrie_Find lt key) = matching (key_prefix (maxSelectors lt) key) (trie_content lt)"
  using assms by (rule level_trie.find_exact)

theorem level_find_exact_witness:
  "mset (LevelTrie_Find example_trie [Opt ''A'', Opt ''B'', Opt ''C'']) =
     matching (key_prefix (maxSelectors example_trie) [Opt ''A'', Opt ''B'', Opt ''C''])
       (trie_content example_trie) \<and>
   LevelTrie_Find example_trie [Opt ''A'', Opt ''B'', Opt ''C''] = [3, 1, 2]"
  using level_find_exact [OF example_trie_inv] by (simp, code_simp)

text \<open>
  \<open>SelectorTrie.Find\<close>, which follows a single branch, still returns exactly the subsumed
  objects when the trie is used as its comment prescribes (no registered path is unset at a
  level where the key is set).
\<close>

theorem selector_find_aligned:
  assumes "trie_inv st" and "unset_aligned (key_prefix (maxSelectors st) key) (trie_content st)"
  shows "mset (SelectorTrie_Find st key) = matching (key_prefix (maxSelectors st) key) (trie_content st)"
proof -
  have "find_rest (key_prefix (maxSelectors st) key) (root st) =
      search_rest (key_prefix (maxSelectors st) key) (root st)"
    using assms by (intro find_rest_aligned) (simp_all add: trie_inv_def trie_content_def)
  then show ?thesis
    by (simp add: SelectorTrie_Find_rest flip: LevelTrie_Find_matching [OF assms(1)] LevelTrie_Find_rest)
qed

theorem selector_find_aligned_witness:
  "unset_aligned (key_prefix 3 [NullString, NullString, Opt ''C'']) (trie_content example_trie) \<and>
   mset (SelectorTrie_Find example_trie [NullString, NullString, Opt ''C'']) = {#2#}"
proof -
  have max: "maxSelectors example_trie = 3" by code_simp
  have al: "unset_aligned (key_prefix (maxSelectors example_trie) [NullString, NullString, Opt ''C''])
      (trie_content example_trie)"
    by (auto simp: max example_content unset_aligned_def key_prefix_def nth_Cons less_Suc_eq
        split: nat.splits)
  have "matching (key_prefix 3 [NullString, NullString, Opt ''C'']) (trie_content example_trie) = {#2#}"
    by (simp add: example_content matching_def key_prefix_def)
  with al selector_find_aligned [OF example_trie_inv al] show ?thesis
    by (simp add: max)
qed

text \<open>
  What \<open>Register\<close> stores under canonical selectors is found by a lookup with the same
  selectors, in both tries.
\<close>

theorem registered_is_found:
  assumes "canonical s" and "Register st s obj = (st', sub)"
  shows "obj \<in> set (SelectorTrie_Find st' s) \<and> obj \<in> set (LevelTrie_Find st' s)"
  using find_after_register [OF assms] by simp

theorem registered_is_found_witness:
  "canonical [Opt ''A'', NullString] \<and>
   7 \<in> set (SelectorTrie_Find (fst (Register example_trie [Opt ''A'', NullString] 7)) [Opt ''A'', NullString])"
proof -
  have c: "canonical [Opt ''A'', NullString]" by (simp add: canonical_def)
  from registered_is_found [OF c prod.collapse [symmetric], of 7 example_trie] c show ?thesis by simp
qed

text \<open>
  C9: \<open>Unregister\<close> undoes \<open>Register\<close>: it returns the registered object, leaves exactly the
  entries that were there before, and a second call with the same subscription returns the
  zero value and changes nothing.
\<close>

theorem unregister_undoes_register:
  assumes "trie_inv st" and "trie_room st" and "Register st s obj = (st1, sub)"
  shows "\<exists>st2. Unregister st1 (Some sub) = (st2, Some obj) \<and> trie_content st2 = trie_content st \<and>
               trie_inv st2 \<and> Unregister st2 (Some sub) = (st2, None)"
proof -
  have inv1: "trie_inv st1" by (rule selector_trie.reg_inv [OF assms])
  obtain st2 where u: "Unregister st1 (Some sub) = (st2, Some obj)"
    and c: "trie_content st2 = trie_content st"
    using selector_trie.register_unregister [OF assms] by blast
  have "trie_inv st2" by (rule selector_trie.unreg_inv [OF inv1 u])
  moreover have "Unregister st2 (Some sub) = (st2, None)"
    by (rule selector_trie.unregister_again [OF inv1 u])
  ultimately show ?thesis using u c by blast
qed

theorem unregister_undoes_register_witness:
  "\<exists>st2. Unregister (fst (Register example_trie [Opt ''A''] 7))
            (Some (snd (Register example_trie [Opt ''A''] 7))) = (st2, Some 7) \<and>
         trie_content st2 = trie_content example_trie"
proof -
  have "indexCounter example_trie = 3" by code_simp
  then have "trie_room example_trie" by (simp add: trie_room_def)
  from unregister_undoes_register [OF example_trie_inv this prod.collapse [symmetric]]
  show ?thesis by blast
qed

text \<open>
  Every trie built from an empty one by fewer than \<open>2^64\<close> operations is well formed:
  map keys are distinct, no dead branch is left after pruning, indices are unique and at
  most the counter.
\<close>

theorem trie_runs_keep_invariant:
  assumes "length ops < 2 ^ 64"
  shows "trie_inv (trie_run (NewSelectorTrie m) ops)"
  using assms by (intro trie_run_inv) simp_all

theorem trie_runs_keep_invariant_witness:
  "let ops = [RegisterOp [Opt ''A'', Opt ''B''] (1::nat),
              UnregisterOp (Some \<lparr>sub_index = 1, sub_path = [Opt ''A'', Opt ''B'']\<rparr>)]
   in trie_inv (trie_run (NewSelectorTrie 2) ops) \<and>
      node_empty (root (trie_run (NewSelectorTrie 2) ops))"
  unfolding Let_def
proof (rule conjI, goal_cases)
  case 1
  show ?case by (rule trie_runs_keep_invariant) simp
next
  case 2
  show ?case by code_simp
qed

text \<open>
  The usage example at the end of \<^verbatim>\<open>selector_trie.go\<close> promises that a specific lookup
  finds both the exact and the subsuming registration; \<open>SelectorTrie.Find\<close> returns the exact
  one only, while \<open>LevelTrie.Find\<close> returns both.
\<close>

theorem selector_find_misses_subsumed:
  "let st = trie_run (NewSelectorTrie 3)
        [RegisterOp [Opt ''US'', Opt ''Auth'', Opt ''Prod''] ''Sub-1'',
         RegisterOp [Opt ''US'', NullString, Opt ''Prod''] ''Sub-2''];
       key = [Opt ''US'', Opt ''Auth'', Opt ''Prod'']
   in SelectorTrie_Find st key = [''Sub-1''] \<and> LevelTrie_Find st key = [''Sub-1'', ''Sub-2'']"
  by code_simp

end
