(* ===== verification/ReplacingQueues.thy ===== *)
theory ReplacingQueues
  imports Prelude
begin

section \<open>Random-access queues: the replacing queue\<close>

text \<open>
  Models \<^verbatim>\<open>pkg/message_queue/random_access_queue.go\<close> and \<^verbatim>\<open>replacing_queue.go\<close>.
  The doubly linked list of \<^verbatim>\<open>container/list\<close> is the list of its element addresses with
  a store of their values; the table maps a key to an element address, as the Go map holds
  element pointers. The locale \<open>random_access_queue\<close> is the contract of the Go interface,
  stated over the list of key/value pairs in queue order; the replacing queue is
  interpreted in it.
\<close>

subsection \<open>Data and operations\<close>

record ('k, 'v) ReplacingQueue =
  elements :: "nat list"
  cells :: "nat \<Rightarrow> 'k \<times> 'v"
  table :: "('k, nat) gomap"
  next_addr :: nat

definition NewReplacingQueue :: "('k, 'v) ReplacingQueue" where
  "NewReplacingQueue = \<lparr>elements = [], cells = (\<lambda>_. undefined), table = [], next_addr = 0\<rparr>"

definition Enqueue :: "('k, 'v) ReplacingQueue \<Rightarrow> 'k \<Rightarrow> 'v \<Rightarrow> ('k, 'v) ReplacingQueue \<times> bool \<times> nat" where
  "Enqueue q key val =
     (case map_of (table q) key of
        Some el \<Rightarrow> (q\<lparr>cells := (cells q)(el := (key, val))\<rparr>, True, length (table q))
      | None \<Rightarrow>
          (let el = next_addr q;
               q1 = q\<lparr>elements := elements q @ [el], cells := (cells q)(el := (key, val)),
                      next_addr := Suc el\<rparr>;
               q2 = q1\<lparr>table := AList.update key el (table q1)\<rparr>
           in (q2, False, length (table q2))))"

definition Dequeue :: "('k, 'v) ReplacingQueue \<Rightarrow> ('k, 'v) ReplacingQueue \<times> 'v option" where
  "Dequeue q =
     (case elements q of
        [] \<Rightarrow> (q, None)
      | front # _ \<Rightarrow>
          (let e = cells q front;
               q1 = q\<lparr>elements := remove1 front (elements q)\<rparr>
           in (q1\<lparr>table := AList.delete (fst e) (table q1)\<rparr>, Some (snd e))))"

definition Front :: "('k, 'v) ReplacingQueue \<Rightarrow> 'v option" where
  "Front q = (case elements q of [] \<Rightarrow> None | front # _ \<Rightarrow> Some (snd (cells q front)))"

definition Get :: "('k, 'v) ReplacingQueue \<Rightarrow> 'k \<Rightarrow> 'v option" where
  "Get q key = (case map_of (table q) key of Some el \<Rightarrow> Some (snd (cells q el)) | None \<Rightarrow> None)"

definition Update :: "('k, 'v) ReplacingQueue \<Rightarrow> 'k \<Rightarrow> 'v \<Rightarrow> ('k, 'v) ReplacingQueue \<times> bool" where
  "Update q key val =
     (case map_of (table q) key of
        Some el \<Rightarrow> (q\<lparr>cells := (cells q)(el := (key, val))\<rparr>, True)
      | None \<Rightarrow> (q, False))"

definition Remove :: "('k, 'v) ReplacingQueue \<Rightarrow> 'k \<Rightarrow> ('k, 'v) ReplacingQueue \<times> bool" where
  "Remove q key =
     (case map_of (table q) key of
        Some el \<Rightarrow> (q\<lparr>elements := remove1 el (elements q), table := AList.delete key (table q)\<rparr>, True)
      | None \<Rightarrow> (q, False))"

definition Clear :: "('k, 'v) ReplacingQueue \<Rightarrow> ('k, 'v) ReplacingQueue" where
  "Clear q = q\<lparr>elements := [], table := []\<rparr>"

definition Depth :: "('k, 'v) ReplacingQueue \<Rightarrow> nat" where
  "Depth q = length (table q)"

definition DropFront :: "('k, 'v) ReplacingQueue \<Rightarrow> ('k, 'v) ReplacingQueue" where
  "DropFront q =
     (case elements q of
        [] \<Rightarrow> q
      | front # _ \<Rightarrow>
          (let e = cells q front;
               q1 = q\<lparr>table := AList.delete (fst e) (table q)\<rparr>
           in q1\<lparr>elements := remove1 front (elements q1)\<rparr>))"

subsection \<open>The interface\<close>

text \<open>
  \<open>items q\<close> is the queue as the client sees it: the pairs from front to back. Enqueueing a
  present key replaces its value in place, which is what \<open>AList.update\<close> does on a list with
  distinct keys.
\<close>

locale random_access_queue =
  fixes inv :: "'q \<Rightarrow> bool"
    and items :: "'q \<Rightarrow> ('k \<times> 'v) list"
    and enqueue :: "'q \<Rightarrow> 'k \<Rightarrow> 'v \<Rightarrow> 'q \<times> bool \<times> nat"
    and dequeue :: "'q \<Rightarrow> 'q \<times> 'v option"
    and get :: "'q \<Rightarrow> 'k \<Rightarrow> 'v option"
    and upd :: "'q \<Rightarrow> 'k \<Rightarrow> 'v \<Rightarrow> 'q \<times> bool"
    and rem :: "'q \<Rightarrow> 'k \<Rightarrow> 'q \<times> bool"
    and clear :: "'q \<Rightarrow> 'q"
    and depth :: "'q \<Rightarrow> nat"
    and front :: "'q \<Rightarrow> 'v option"
    and drop_front :: "'q \<Rightarrow> 'q"
  assumes keys_distinct: "inv q \<Longrightarrow> gomap_wf (items q)"
    and enqueue_items: "inv q \<Longrightarrow> enqueue q k v = (q', replaced, d) \<Longrightarrow>
          inv q' \<and> items q' = AList.update k v (items q) \<and>
          replaced = (map_of (items q) k \<noteq> None) \<and> d = length (items q')"
    and dequeue_items: "inv q \<Longrightarrow> dequeue q = (q', r) \<Longrightarrow>
          inv q' \<and> items q' = tl (items q) \<and> r = map_option snd (case items q of [] \<Rightarrow> None | x # _ \<Rightarrow> Some x)"
    and get_items: "inv q \<Longrightarrow> get q k = map_of (items q) k"
    and upd_items: "inv q \<Longrightarrow> upd q k v = (q', ok) \<Longrightarrow>
          inv q' \<and> ok = (map_of (items q) k \<noteq> None) \<and>
          items q' = (if ok then AList.update k v (items q) else items q)"
    and rem_items: "inv q \<Longrightarrow> rem q k = (q', ok) \<Longrightarrow>
          inv q' \<and> ok = (map_of (items q) k \<noteq> None) \<and> items q' = AList.delete k (items q)"
    and clear_items: "inv q \<Longrightarrow> inv (clear q) \<and> items (clear q) = []"
    and depth_items: "inv q \<Longrightarrow> depth q = length (items q)"
    and front_items: "inv q \<Longrightarrow> front q = map_option snd (case items q of [] \<Rightarrow> None | x # _ \<Rightarrow> Some x)"
    and drop_front_items: "inv q \<Longrightarrow> inv (drop_front q) \<and> items (drop_front q) = tl (items q)"
begin

lemma front_None_iff: "inv q \<Longrightarrow> front q = None \<longleftrightarrow> items q = []"
  by (simp add: front_items split: list.splits)

lemma front_SomeD: "inv q \<Longrightarrow> front q = Some v \<Longrightarrow> \<exists>k xs. items q = (k, v) # xs"
  by (auto simp: front_items split: list.splits)

lemma get_after_enqueue:
  assumes "inv q" and "enqueue q k v = (q', r, d)"
  shows "get q' k' = (if k' = k then Some v else get q k')"
  using enqueue_items [OF assms] by (simp add: get_items assms(1) map_of_update)

text \<open>A key enqueued once and never again leaves the queue in the order of arrival.\<close>

lemma enqueue_fresh_back:
  assumes "inv q" and "enqueue q k v = (q', r, d)" and "get q k = None"
  shows "items q' = items q @ [(k, v)]"
  using enqueue_items [OF assms(1,2)] assms(1,3) by (simp add: get_items update_append)

end

subsection \<open>The replacing queue implements it\<close>

definition queue_items :: "('k, 'v) ReplacingQueue \<Rightarrow> ('k \<times> 'v) list" where
  "queue_items q = map (cells q) (elements q)"

text \<open>
  The table holds exactly the elements of the list, each under the key of its entry; keys
  and addresses are distinct, and addresses were handed out by the allocator.
\<close>

definition queue_inv :: "('k, 'v) ReplacingQueue \<Rightarrow> bool" where
  "queue_inv q \<longleftrightarrow>
     distinct (elements q) \<and> gomap_wf (queue_items q) \<and> gomap_wf (table q) \<and>
     set (table q) = (\<lambda>a. (fst (cells q a), a)) ` set (elements q) \<and>
     (\<forall>a \<in> set (elements q). a < next_addr q)"

lemma map_fun_upd_update:
  "distinct as \<Longrightarrow> gomap_wf (map f as) \<Longrightarrow> a \<in> set as \<Longrightarrow> fst (f a) = k \<Longrightarrow>
     map (f(a := (k, v))) as = AList.update k v (map f as)"
proof (induction as)
  case Nil
  then show ?case by simp
next
  case (Cons b as)
  show ?case
  proof (cases "b = a")
    case True
    with Cons.prems have "a \<notin> set as" by simp
    then have "map (f(a := (k, v))) as = map f as" by simp
    with True Cons.prems(4) show ?thesis by (cases "f b") auto
  next
    case False
    with Cons.prems have "a \<in> set as" and "fst (f b) \<noteq> k"
      by (auto simp: gomap_wf_def)
    with Cons False show ?thesis by (cases "f b") (auto simp: gomap_wf_def)
  qed
qed

lemma map_remove1_delete:
  "distinct as \<Longrightarrow> gomap_wf (map f as) \<Longrightarrow> a \<in> set as \<Longrightarrow> fst (f a) = k \<Longrightarrow>
     map f (remove1 a as) = AList.delete k (map f as)"
proof (induction as)
  case Nil
  then show ?case by simp
next
  case (Cons b as)
  show ?case
  proof (cases "b = a")
    case True
    with Cons.prems have "k \<notin> fst ` set (map f as)" by (auto simp: gomap_wf_def)
    then have "AList.delete k (map f as) = map f as" by (rule delete_id)
    with True Cons.prems(4) show ?thesis by (cases "f b") auto
  next
    case False
    with Cons.prems have "a \<in> set as" and "fst (f b) \<noteq> k"
      by (auto simp: gomap_wf_def)
    with Cons False show ?thesis by (cases "f b") (auto simp: gomap_wf_def)
  qed
qed

lemma table_lookup:
  assumes "queue_inv q"
  shows "map_of (table q) k = Some a \<longleftrightarrow> a \<in> set (elements q) \<and> fst (cells q a) = k"
proof -
  have "map_of (table q) k = Some a \<longleftrightarrow> (k, a) \<in> set (table q)"
    using assms by (simp add: queue_inv_def gomap_wf_def)
  then show ?thesis using assms by (auto simp: queue_inv_def)
qed

lemma items_lookup:
  assumes "queue_inv q"
  shows "map_of (queue_items q) k = map_option (\<lambda>a. snd (cells q a)) (map_of (table q) k)"
proof (cases "map_of (table q) k")
  case None
  have "fst (cells q a) \<noteq> k" if "a \<in> set (elements q)" for a
    using None table_lookup [OF assms, of k a] that by simp
  then have "k \<notin> fst ` set (queue_items q)"
    unfolding queue_items_def set_map image_image by blast
  then have "map_of (queue_items q) k = None" by (simp add: map_of_eq_None_iff)
  with None show ?thesis by simp
next
  case (Some a)
  then have "(k, snd (cells q a)) \<in> set (queue_items q)"
    using table_lookup [OF assms] by (force simp: queue_items_def image_iff)
  with assms Some show ?thesis by (simp add: queue_inv_def gomap_wf_def)
qed

lemma table_length: "queue_inv q \<Longrightarrow> length (table q) = length (queue_items q)"
proof -
  assume a: "queue_inv q"
  then have "distinct (table q)" by (auto simp: queue_inv_def gomap_wf_def distinct_map)
  then have "length (table q) = card (set (table q))" by (simp add: distinct_card)
  also have "\<dots> = card (set (elements q))"
    using a by (simp add: queue_inv_def card_image inj_on_def)
  also have "\<dots> = length (queue_items q)"
    using a by (simp add: queue_inv_def distinct_card queue_items_def)
  finally show ?thesis .
qed

lemma set_delete_table:
  assumes "queue_inv q" and "a \<in> set (elements q)"
  shows "set (AList.delete (fst (cells q a)) (table q)) =
     (\<lambda>b. (fst (cells q b), b)) ` (set (elements q) - {a})"
proof -
  have eq: "fst (cells q a) = fst (cells q b) \<longleftrightarrow> b = a" if "b \<in> set (elements q)" for b
    using assms that by (auto simp: queue_inv_def gomap_wf_def queue_items_def distinct_map inj_on_def)
  have "set (AList.delete (fst (cells q a)) (table q)) =
      {x \<in> (\<lambda>b. (fst (cells q b), b)) ` set (elements q). fst (cells q a) \<noteq> fst x}"
    using assms(1) by (auto simp: queue_inv_def AList.delete_eq)
  also have "\<dots> = (\<lambda>b. (fst (cells q b), b)) ` {b \<in> set (elements q). fst (cells q a) \<noteq> fst (cells q b)}"
    by auto
  also have "{b \<in> set (elements q). fst (cells q a) \<noteq> fst (cells q b)} = set (elements q) - {a}"
    using eq by blast
  finally show ?thesis .
qed

lemma replace_cell:
  assumes "queue_inv q" and "map_of (table q) k = Some a"
  shows "queue_inv (q\<lparr>cells := (cells q)(a := (k, v))\<rparr>)"
    and "queue_items (q\<lparr>cells := (cells q)(a := (k, v))\<rparr>) = AList.update k v (queue_items q)"
proof -
  have a: "a \<in> set (elements q)" "fst (cells q a) = k"
    using assms(2) table_lookup [OF assms(1)] by simp_all
  show items: "queue_items (q\<lparr>cells := (cells q)(a := (k, v))\<rparr>) = AList.update k v (queue_items q)"
    using assms(1) a map_fun_upd_update [of "elements q" "cells q" a k v]
    by (simp add: queue_items_def queue_inv_def)
  have "(\<lambda>b. (fst (((cells q)(a := (k, v))) b), b)) ` set (elements q) =
      (\<lambda>b. (fst (cells q b), b)) ` set (elements q)"
    using a(2) by (auto simp: image_iff)
  with assms(1) items show "queue_inv (q\<lparr>cells := (cells q)(a := (k, v))\<rparr>)"
    by (simp add: queue_inv_def)
qed

lemma remove_cell:
  assumes "queue_inv q" and "a \<in> set (elements q)"
    and q': "q' = q\<lparr>elements := remove1 a (elements q),
                   table := AList.delete (fst (cells q a)) (table q)\<rparr>"
  shows "queue_inv q'" and "queue_items q' = AList.delete (fst (cells q a)) (queue_items q)"
proof -
  show items: "queue_items q' = AList.delete (fst (cells q a)) (queue_items q)"
    using assms map_remove1_delete [of "elements q" "cells q" a]
    by (simp add: queue_items_def queue_inv_def)
  then show "queue_inv q'"
    using assms set_delete_table [OF assms(1,2)]
    by (auto simp: queue_inv_def set_remove1_eq)
qed

lemma add_cell:
  assumes "queue_inv q" and "map_of (table q) k = None"
    and q': "q' = q\<lparr>elements := elements q @ [next_addr q], cells := (cells q)(next_addr q := (k, v)),
                   next_addr := Suc (next_addr q), table := AList.update k (next_addr q) (table q)\<rparr>"
  shows "queue_inv q'" and "queue_items q' = AList.update k v (queue_items q)"
proof -
  have fresh: "next_addr q \<notin> set (elements q)" using assms(1) by (auto simp: queue_inv_def)
  have none: "map_of (queue_items q) k = None" using items_lookup assms(1,2) by force
  have "map ((cells q)(next_addr q := (k, v))) (elements q) = map (cells q) (elements q)"
    using fresh by simp
  then show items: "queue_items q' = AList.update k v (queue_items q)"
    using none by (simp add: q' queue_items_def update_append)
  have "set (table q') = (\<lambda>b. (fst (cells q' b), b)) ` set (elements q')"
    using assms(1) fresh by (auto simp: q' update_append [OF assms(2)] queue_inv_def image_iff)
  with assms(1) items fresh show "queue_inv q'"
    by (auto simp: queue_inv_def q' less_SucI)
qed

lemma items_front: "queue_items q = [] \<longleftrightarrow> elements q = []"
  by (simp add: queue_items_def)

lemma delete_front:
  assumes "queue_inv q" and "elements q = a # as"
  shows "AList.delete (fst (cells q a)) (queue_items q) = tl (queue_items q)"
proof -
  have "queue_items q = cells q a # map (cells q) as"
    using assms(2) by (simp add: queue_items_def)
  moreover have "fst (cells q a) \<notin> fst ` set (map (cells q) as)"
    using assms by (auto simp: queue_inv_def gomap_wf_def queue_items_def)
  ultimately show ?thesis by (cases "cells q a") (simp add: delete_id)
qed

lemma Enqueue_correct:
  assumes "queue_inv q" and "Enqueue q k v = (q', replaced, d)"
  shows "queue_inv q' \<and> queue_items q' = AList.update k v (queue_items q) \<and>
         replaced = (map_of (queue_items q) k \<noteq> None) \<and> d = length (queue_items q')"
proof (cases "map_of (table q) k")
  case None
  note add = add_cell [OF assms(1) None refl, of v]
  from assms(2) None add table_length [OF add(1)] show ?thesis
    by (auto simp: Enqueue_def Let_def items_lookup [OF assms(1)])
next
  case (Some a)
  note rep = replace_cell [OF assms(1) Some, of v]
  from assms(2) Some rep table_length [OF rep(1)] show ?thesis
    by (auto simp: Enqueue_def items_lookup [OF assms(1)])
qed

lemma Dequeue_correct:
  assumes "queue_inv q" and "Dequeue q = (q', r)"
  shows "queue_inv q' \<and> queue_items q' = tl (queue_items q) \<and>
         r = map_option snd (case queue_items q of [] \<Rightarrow> None | x # _ \<Rightarrow> Some x)"
proof (cases "elements q")
  case Nil
  with assms show ?thesis by (auto simp: Dequeue_def queue_items_def)
next
  case (Cons a as)
  note rem = remove_cell [OF assms(1) _ refl, of a]
  from assms(2) Cons rem delete_front [OF assms(1) Cons] show ?thesis
    by (auto simp: Dequeue_def Let_def) (simp add: queue_items_def Cons)
qed

lemma DropFront_correct:
  assumes "queue_inv q"
  shows "queue_inv (DropFront q) \<and> queue_items (DropFront q) = tl (queue_items q)"
proof (cases "elements q")
  case Nil
  with assms show ?thesis by (simp add: DropFront_def queue_items_def)
next
  case (Cons a as)
  note rem = remove_cell [OF assms(1) _ refl, of a]
  have "DropFront q = q\<lparr>elements := remove1 a (elements q),
      table := AList.delete (fst (cells q a)) (table q)\<rparr>"
    using Cons by (cases q) (simp add: DropFront_def Let_def)
  with Cons rem delete_front [OF assms(1) Cons] show ?thesis by simp
qed

lemma Update_correct:
  assumes "queue_inv q" and "Update q k v = (q', ok)"
  shows "queue_inv q' \<and> ok = (map_of (queue_items q) k \<noteq> None) \<and>
         queue_items q' = (if ok then AList.update k v (queue_items q) else queue_items q)"
  using assms replace_cell [OF assms(1), of k _ v]
  by (auto simp: Update_def items_lookup [OF assms(1)] split: option.splits)

lemma Remove_correct:
  assumes "queue_inv q" and "Remove q k = (q', ok)"
  shows "queue_inv q' \<and> ok = (map_of (queue_items q) k \<noteq> None) \<and>
         queue_items q' = AList.delete k (queue_items q)"
proof (cases "map_of (table q) k")
  case None
  with items_lookup [OF assms(1), of k] have "map_of (queue_items q) k = None" by simp
  then have "AList.delete k (queue_items q) = queue_items q"
    by (simp add: delete_id map_of_eq_None_iff)
  with None assms \<open>map_of (queue_items q) k = None\<close> show ?thesis by (simp add: Remove_def)
next
  case (Some a)
  then have a: "a \<in> set (elements q)" "fst (cells q a) = k"
    using table_lookup [OF assms(1)] by simp_all
  note rem = remove_cell [OF assms(1) a(1) refl, unfolded a(2)]
  from assms(2) Some rem show ?thesis
    by (auto simp: Remove_def items_lookup [OF assms(1)])
qed

lemma NewReplacingQueue_inv [simp]:
  "queue_inv NewReplacingQueue" "queue_items NewReplacingQueue = []"
  by (simp_all add: queue_inv_def queue_items_def NewReplacingQueue_def)

interpretation rq: random_access_queue queue_inv queue_items
    Enqueue Dequeue Get Update Remove Clear Depth Front DropFront
proof unfold_locales
  fix q :: "('a, 'b) ReplacingQueue" and k v q' r d
  assume a: "queue_inv q"
  show "gomap_wf (queue_items q)" using a by (simp add: queue_inv_def)
  show "Get q k = map_of (queue_items q) k"
    by (simp add: Get_def items_lookup [OF a] split: option.splits)
  show "queue_inv (Clear q) \<and> queue_items (Clear q) = []"
    by (simp add: Clear_def queue_inv_def queue_items_def)
  show "Depth q = length (queue_items q)" by (simp add: Depth_def table_length [OF a])
  show "Front q = map_option snd (case queue_items q of [] \<Rightarrow> None | x # _ \<Rightarrow> Some x)"
    by (simp add: Front_def queue_items_def split: list.splits)
qed (fact Enqueue_correct Dequeue_correct Update_correct Remove_correct DropFront_correct)+

subsection \<open>Refinement over whole runs\<close>

text \<open>
  Every method of the interface as an operation with its result, run on the replacing queue
  and on the specification, a list of pairs.
\<close>

datatype ('k, 'v) queue_op =
    OpEnqueue 'k 'v | OpDequeue | OpFront | OpGet 'k | OpUpdate 'k 'v | OpRemove 'k
  | OpClear | OpDepth | OpDropFront

datatype 'v queue_out = OutEnqueued bool nat | OutValue "'v option" | OutFlag bool | OutDepth nat | OutUnit

fun queue_step :: "('k, 'v) ReplacingQueue \<Rightarrow> ('k, 'v) queue_op \<Rightarrow> ('k, 'v) ReplacingQueue \<times> 'v queue_out" where
  "queue_step q (OpEnqueue k v) = (case Enqueue q k v of (q', r, d) \<Rightarrow> (q', OutEnqueued r d))"
| "queue_step q OpDequeue = (case Dequeue q of (q', r) \<Rightarrow> (q', OutValue r))"
| "queue_step q OpFront = (q, OutValue (Front q))"
| "queue_step q (OpGet k) = (q, OutValue (Get q k))"
| "queue_step q (OpUpdate k v) = (case Update q k v of (q', ok) \<Rightarrow> (q', OutFlag ok))"
| "queue_step q (OpRemove k) = (case Remove q k of (q', ok) \<Rightarrow> (q', OutFlag ok))"
| "queue_step q OpClear = (Clear q, OutUnit)"
| "queue_step q OpDepth = (q, OutDepth (Depth q))"
| "queue_step q OpDropFront = (DropFront q, OutUnit)"

definition list_front :: "('k \<times> 'v) list \<Rightarrow> 'v option" where
  "list_front xs = map_option snd (case xs of [] \<Rightarrow> None | x # _ \<Rightarrow> Some x)"

fun list_step :: "('k \<times> 'v) list \<Rightarrow> ('k, 'v) queue_op \<Rightarrow> ('k \<times> 'v) list \<times> 'v queue_out" where
  "list_step xs (OpEnqueue k v) =
     (let ys = AList.update k v xs in (ys, OutEnqueued (map_of xs k \<noteq> None) (length ys)))"
| "list_step xs OpDequeue = (tl xs, OutValue (list_front xs))"
| "list_step xs OpFront = (xs, OutValue (list_front xs))"
| "list_step xs (OpGet k) = (xs, OutValue (map_of xs k))"
| "list_step xs (OpUpdate k v) =
     (if map_of xs k \<noteq> None then (AList.update k v xs, OutFlag True) else (xs, OutFlag False))"
| "list_step xs (OpRemove k) = (AList.delete k xs, OutFlag (map_of xs k \<noteq> None))"
| "list_step xs OpClear = ([], OutUnit)"
| "list_step xs OpDepth = (xs, OutDepth (length xs))"
| "list_step xs OpDropFront = (tl xs, OutUnit)"

fun run_ops :: "('s \<Rightarrow> 'o \<Rightarrow> 's \<times> 'r) \<Rightarrow> 's \<Rightarrow> 'o list \<Rightarrow> 's \<times> 'r list" where
  "run_ops step s [] = (s, [])"
| "run_ops step s (op # ops) =
     (case step s op of (s', r) \<Rightarrow> case run_ops step s' ops of (s'', rs) \<Rightarrow> (s'', r # rs))"

lemmas rq_laws = rq.enqueue_items rq.dequeue_items rq.upd_items rq.rem_items rq.clear_items
  rq.drop_front_items

lemma queue_step_refines:
  assumes "queue_inv q" and "queue_step q op = (q', r)"
  shows "queue_inv q' \<and> list_step (queue_items q) op = (queue_items q', r)"
  using assms rq_laws [OF assms(1)] rq.get_items [OF assms(1)] rq.depth_items [OF assms(1)]
    rq.front_items [OF assms(1)]
  by (cases op) (fastforce simp: list_front_def Let_def split: prod.splits)+

lemma run_refines:
  assumes "\<And>q op q' r. I q \<Longrightarrow> step q op = (q', r) \<Longrightarrow> I q' \<and> astep (view q) op = (view q', r)"
    and "I q" and "run_ops step q ops = (q', rs)"
  shows "I q' \<and> run_ops astep (view q) ops = (view q', rs)"
  using assms(2,3)
proof (induction ops arbitrary: q rs)
  case Nil
  then show ?case by simp
next
  case (Cons op ops)
  then obtain q1 r rs' where q1: "step q op = (q1, r)" and "run_ops step q1 ops = (q', rs')" and "rs = r # rs'"
    by (auto split: prod.splits)
  with Cons assms(1) [OF Cons.prems(1) q1] show ?case by auto
qed

text \<open>
  C5: the replacing queue refines a plain list of key/value pairs: over any sequence of
  interface calls on a new queue every result is the one the list gives, in particular
  enqueueing a present key replaces its value without moving it.
\<close>

theorem replacing_queue_refines_list:
  "snd (run_ops queue_step NewReplacingQueue ops) = snd (run_ops list_step [] ops)"
proof -
  obtain q rs where r: "run_ops queue_step NewReplacingQueue ops = (q, rs)" by fastforce
  have "queue_inv q \<and> run_ops list_step (queue_items NewReplacingQueue) ops = (queue_items q, rs)"
    by (rule run_refines [where step = queue_step and I = queue_inv, OF _ _ r])
      (simp_all add: queue_step_refines)
  with r show ?thesis by simp
qed

end
