(* ===== verification/Feeders.thy ===== *)
theory Feeders
  imports Prelude
begin

section \<open>Channels and feeders\<close>

text \<open>
  Models \<^verbatim>\<open>pkg/message_queue/feeder.go\<close> over a model of Go channels. A channel has a
  capacity, a buffer, a closed flag, the number of receivers blocked on it (they are served
  before the buffer fills, which is how an unbuffered channel can accept a value) and the
  values receivers have obtained so far. \<open>accepted\<close> is everything the channel took, in
  order. A send on a closed channel, a second close and a negative capacity panic.
\<close>

subsection \<open>Channels\<close>

datatype go_panic = SendOnClosedChannel | CloseOfClosedChannel | MakeChanSizeOutOfRange | NilDereference | ExplicitPanic string

record 'a chan =
  chan_cap :: nat
  chan_buf :: "'a list"
  chan_closed :: bool
  chan_waiting :: nat
  chan_received :: "'a list"

definition make_chan :: "int \<Rightarrow> go_panic + 'a chan" where
  "make_chan n =
     (if n < 0 then Inl MakeChanSizeOutOfRange
      else Inr \<lparr>chan_cap = nat n, chan_buf = [], chan_closed = False, chan_waiting = 0,
                chan_received = []\<rparr>)"

text \<open>A send inside a \<^verbatim>\<open>select\<close> with a \<^verbatim>\<open>default\<close> case: it never blocks.\<close>

definition try_send :: "'a chan \<Rightarrow> 'a \<Rightarrow> go_panic + 'a chan \<times> bool" where
  "try_send c v =
     (if chan_closed c then Inl SendOnClosedChannel
      else if 0 < chan_waiting c
      then Inr (c\<lparr>chan_waiting := chan_waiting c - 1, chan_received := chan_received c @ [v]\<rparr>, True)
      else if length (chan_buf c) < chan_cap c
      then Inr (c\<lparr>chan_buf := chan_buf c @ [v]\<rparr>, True)
      else Inr (c, False))"

definition close_chan :: "'a chan \<Rightarrow> go_panic + 'a chan" where
  "close_chan c =
     (if chan_closed c then Inl CloseOfClosedChannel else Inr (c\<lparr>chan_closed := True, chan_waiting := 0\<rparr>))"

text \<open>A receiver: it takes the oldest buffered value, or blocks while the channel is open.\<close>

definition receive :: "'a chan \<Rightarrow> 'a chan" where
  "receive c =
     (case chan_buf c of
        v # vs \<Rightarrow> c\<lparr>chan_buf := vs, chan_received := chan_received c @ [v]\<rparr>
      | [] \<Rightarrow> if chan_closed c then c else c\<lparr>chan_waiting := Suc (chan_waiting c)\<rparr>)"

definition accepted :: "'a chan \<Rightarrow> 'a list" where
  "accepted c = chan_received c @ chan_buf c"

text \<open>Receivers wait on an empty buffer only, and the buffer keeps to its capacity.\<close>

definition chan_inv :: "'a chan \<Rightarrow> bool" where
  "chan_inv c \<longleftrightarrow> length (chan_buf c) \<le> chan_cap c \<and> (0 < chan_waiting c \<longrightarrow> chan_buf c = [])"

lemma make_chan_inv: "make_chan n = Inr c \<Longrightarrow> chan_inv c \<and> accepted c = [] \<and> \<not> chan_closed c"
  by (auto simp: make_chan_def chan_inv_def accepted_def split: if_splits)

lemma try_send_ok:
  assumes "chan_inv c" and "try_send c v = Inr (c', True)"
  shows "chan_inv c' \<and> accepted c' = accepted c @ [v] \<and> chan_closed c' = chan_closed c"
  using assms by (auto simp: try_send_def chan_inv_def accepted_def split: if_splits)

lemma try_send_full: "try_send c v = Inr (c', False) \<Longrightarrow> c' = c"
  by (auto simp: try_send_def split: if_splits)

lemma try_send_panic: "try_send c v = Inl e \<longleftrightarrow> chan_closed c \<and> e = SendOnClosedChannel"
  by (auto simp: try_send_def)

lemma receive_facts:
  assumes "chan_inv c"
  shows "chan_inv (receive c)" and "accepted (receive c) = accepted c"
    and "chan_closed (receive c) = chan_closed c"
  using assms by (auto simp: receive_def chan_inv_def accepted_def split: list.splits)

subsection \<open>Feeders\<close>

record FeederConfig =
  FEEDER_TYPED_CHANNEL :: bool
  FEEDER_CHANNEL_DEPTH :: int

definition DEFAULT_FEEDER_CHANNEL_DEPTH :: int where
  "DEFAULT_FEEDER_CHANNEL_DEPTH = 10"

record 'v FeederBase =
  feeder_ch :: "'v chan option"
  feeder_chV :: "'v chan option"
  feeder_once :: bool

definition NewFeeder :: "FeederConfig list \<Rightarrow> go_panic + 'v FeederBase" where
  "NewFeeder config =
     (let q = \<lparr>feeder_ch = None, feeder_chV = None, feeder_once = False\<rparr> in
      case config of
        cfg # _ \<Rightarrow>
          if FEEDER_TYPED_CHANNEL cfg
          then map_sum id (\<lambda>c. q\<lparr>feeder_chV := Some c\<rparr>) (make_chan (FEEDER_CHANNEL_DEPTH cfg))
          else map_sum id (\<lambda>c. q\<lparr>feeder_ch := Some c\<rparr>) (make_chan (FEEDER_CHANNEL_DEPTH cfg))
      | [] \<Rightarrow> map_sum id (\<lambda>c. q\<lparr>feeder_ch := Some c\<rparr>) (make_chan DEFAULT_FEEDER_CHANNEL_DEPTH))"

definition Push :: "'v FeederBase \<Rightarrow> 'v \<Rightarrow> go_panic + 'v FeederBase \<times> bool" where
  "Push p obj =
     (case feeder_ch p of
        Some c \<Rightarrow> map_sum id (\<lambda>(c', ok). (p\<lparr>feeder_ch := Some c'\<rparr>, ok)) (try_send c obj)
      | None \<Rightarrow>
          (case feeder_chV p of
             Some c \<Rightarrow> map_sum id (\<lambda>(c', ok). (p\<lparr>feeder_chV := Some c'\<rparr>, ok)) (try_send c obj)
           | None \<Rightarrow> Inr (p, False)))"

text \<open>\<open>Close\<close> runs its body once (\<^verbatim>\<open>sync.Once\<close>); later calls do nothing.\<close>

definition Feeder_Close :: "'v FeederBase \<Rightarrow> go_panic + 'v FeederBase" where
  "Feeder_Close p =
     (if feeder_once p then Inr p
      else let p0 = p\<lparr>feeder_once := True\<rparr> in
        (case (case feeder_ch p0 of
                 None \<Rightarrow> Inr p0
               | Some c \<Rightarrow> map_sum id (\<lambda>c'. p0\<lparr>feeder_ch := Some c'\<rparr>) (close_chan c)) of
           Inl e \<Rightarrow> Inl e
         | Inr p1 \<Rightarrow>
             (case feeder_chV p1 of
                None \<Rightarrow> Inr p1
              | Some c \<Rightarrow> map_sum id (\<lambda>c'. p1\<lparr>feeder_chV := Some c'\<rparr>) (close_chan c))))"

text \<open>The channel in use: exactly one of the two is made by \<open>NewFeeder\<close>.\<close>

definition feeder_chan :: "'v FeederBase \<Rightarrow> 'v chan option" where
  "feeder_chan p = (case feeder_ch p of Some c \<Rightarrow> Some c | None \<Rightarrow> feeder_chV p)"

definition feeder_inv :: "'v FeederBase \<Rightarrow> bool" where
  "feeder_inv p \<longleftrightarrow>
     (case (feeder_ch p, feeder_chV p) of
        (Some c, None) \<Rightarrow> chan_inv c \<and> chan_closed c = feeder_once p
      | (None, Some c) \<Rightarrow> chan_inv c \<and> chan_closed c = feeder_once p
      | _ \<Rightarrow> False)"

definition feeder_accepted :: "'v FeederBase \<Rightarrow> 'v list" where
  "feeder_accepted p = (case feeder_chan p of None \<Rightarrow> [] | Some c \<Rightarrow> accepted c)"

lemmas feeder_defs = feeder_inv_def feeder_chan_def feeder_accepted_def

lemma NewFeeder_inv: "NewFeeder config = Inr p \<Longrightarrow> feeder_inv p \<and> \<not> feeder_once p \<and> feeder_accepted p = []"
  by (cases config)
    (auto simp: NewFeeder_def Let_def make_chan_def chan_inv_def accepted_def feeder_defs split: if_splits)

lemma Push_panic: "feeder_inv p \<Longrightarrow> Push p v = Inl e \<longleftrightarrow> feeder_once p \<and> e = SendOnClosedChannel"
  by (cases "feeder_ch p"; cases "feeder_chV p")
    (auto simp: Push_def feeder_defs try_send_panic)

lemma Push_ok:
  assumes "feeder_inv p" and "Push p v = Inr (p', True)"
  shows "feeder_inv p' \<and> feeder_once p' = feeder_once p \<and> feeder_accepted p' = feeder_accepted p @ [v]"
  using assms
  by (cases "feeder_ch p"; cases "feeder_chV p")
    (auto simp: Push_def feeder_defs dest!: try_send_ok [rotated])

lemma Push_full: "Push p v = Inr (p', False) \<Longrightarrow> p' = p"
  by (cases "feeder_ch p"; cases "feeder_chV p")
    (auto simp: Push_def dest!: try_send_full)

lemma Push_cases:
  assumes "feeder_inv p" and "\<not> feeder_once p"
  obtains (pushed) p' where "Push p v = Inr (p', True)" "feeder_inv p'" "\<not> feeder_once p'"
      "feeder_accepted p' = feeder_accepted p @ [v]"
    | (full) "Push p v = Inr (p, False)"
proof (cases "Push p v")
  case (Inl e)
  with Push_panic [OF assms(1), of v e] assms(2) show thesis by simp
next
  case (Inr r)
  obtain p' ok where r: "r = (p', ok)" by (cases r)
  show thesis
  proof (cases ok)
    case True
    then have "Push p v = Inr (p', True)" using Inr r by simp
    with Push_ok [OF assms(1) this] assms(2) pushed [of p'] show thesis by simp
  next
    case False
    then have "Push p v = Inr (p', False)" using Inr r by simp
    with Push_full [OF this] full show thesis by simp
  qed
qed

lemma Feeder_Close_facts:
  assumes "feeder_inv p"
  shows "\<exists>p'. Feeder_Close p = Inr p' \<and> feeder_inv p' \<and> feeder_once p' \<and>
              feeder_accepted p' = feeder_accepted p"
  using assms
  by (cases "feeder_ch p"; cases "feeder_chV p"; cases "feeder_once p")
    (auto simp: Feeder_Close_def feeder_defs close_chan_def chan_inv_def accepted_def)

text \<open>A receiver on the feeder's channel.\<close>

definition feeder_receive :: "'v FeederBase \<Rightarrow> 'v FeederBase" where
  "feeder_receive p =
     (case feeder_ch p of
        Some c \<Rightarrow> p\<lparr>feeder_ch := Some (receive c)\<rparr>
      | None \<Rightarrow> p\<lparr>feeder_chV := map_option receive (feeder_chV p)\<rparr>)"

lemma feeder_receive_facts:
  assumes "feeder_inv p"
  shows "feeder_inv (feeder_receive p) \<and> feeder_once (feeder_receive p) = feeder_once p \<and>
         feeder_accepted (feeder_receive p) = feeder_accepted p"
  using assms
  by (cases "feeder_ch p"; cases "feeder_chV p")
    (auto simp: feeder_receive_def feeder_defs receive_facts)

end
