(* ===== verification/Consumers.thy ===== *)
theory Consumers
  imports ReplacingQueues Feeders "HOL-Library.Sublist"
begin

section \<open>Consumers\<close>

text \<open>
  Models \<^verbatim>\<open>pkg/message_queue/consumer.go\<close>: a consumer owns a backlog queue and a feeder,
  and one goroutine (\<open>process\<close>) that moves messages from the work channel to the feeder.
  The goroutine is a state machine: its program counter says whether it waits in the
  \<^verbatim>\<open>select\<close>, is in the drain loop of \<open>tryNext\<close>, or is past it. \<open>consumer_step\<close> interleaves
  its steps with those of the other goroutines: senders (\<open>Consume\<close>, \<open>Next\<close>), receivers
  on the feeder's channel, \<open>Close\<close> and the cancellation of the context. A message is any
  value with a key, \<open>key m\<close>.
\<close>

subsection \<open>Data\<close>

text \<open>A wrapper without a message (\<open>hasMessage\<close> false) is \<open>None\<close>.\<close>

type_synonym 'm messageWrapper = "'m option"

record ConsumerConfig =
  consumer_feeder_config :: FeederConfig
  MAX_QUEUE_DEPTH :: int
  WORK_CHANNEL_DEPTH :: int
  SHUTDOWN_TIMEOUT :: int

definition DefaultConsumerConfig :: ConsumerConfig where
  "DefaultConsumerConfig =
     \<lparr>consumer_feeder_config = \<lparr>FEEDER_TYPED_CHANNEL = False,
                                FEEDER_CHANNEL_DEPTH = DEFAULT_FEEDER_CHANNEL_DEPTH\<rparr>,
      MAX_QUEUE_DEPTH = 0, WORK_CHANNEL_DEPTH = 100, SHUTDOWN_TIMEOUT = 1\<rparr>"

datatype 'm process_pc =
    NotStarted | Selecting | Draining "'m messageWrapper" bool | Offering "'m messageWrapper" bool | Exited

text \<open>
  \<open>close_pending\<close> marks the caller of \<open>Close\<close> that won the compare-and-swap and has not closed
  \<open>closeChannel\<close> yet. \<open>taken\<close> is an observation: the messages the goroutine took from the
  work channel, in order; the code has no such field.
\<close>

record ('k, 'm) ConsumerBase =
  consumer_config :: ConsumerConfig
  queue :: "('k, 'm) ReplacingQueue option"
  feeder :: "'m FeederBase option"
  workChannel :: "'m messageWrapper chan"
  closeChannel :: bool
  doneChannel :: bool
  closed :: bool
  ctx_done :: bool
  close_pending :: bool
  pc :: "'m process_pc"
  taken :: "'m list"

definition NewConsumer :: "ConsumerConfig list \<Rightarrow> go_panic + ('k, 'm) ConsumerBase" where
  "NewConsumer config =
     (let cfg = (case config of [] \<Rightarrow> DefaultConsumerConfig | c # _ \<Rightarrow> c) in
      map_sum id
        (\<lambda>w. \<lparr>consumer_config = cfg, queue = None, feeder = None, workChannel = w,
              closeChannel = False, doneChannel = False, closed = False, ctx_done = False,
              close_pending = False, pc = NotStarted, taken = []\<rparr>)
        (make_chan (WORK_CHANNEL_DEPTH cfg)))"

subsection \<open>Operations\<close>

definition SetFeeder :: "('k, 'm) ConsumerBase \<Rightarrow> 'm FeederBase \<Rightarrow> ('k, 'm) ConsumerBase" where
  "SetFeeder s f = s\<lparr>feeder := Some f\<rparr>"

definition SetQueue :: "('k, 'm) ConsumerBase \<Rightarrow> ('k, 'm) ReplacingQueue \<Rightarrow> ('k, 'm) ConsumerBase" where
  "SetQueue s q = s\<lparr>queue := Some q\<rparr>"

definition Feeder :: "('k, 'm) ConsumerBase \<Rightarrow> go_panic + ('k, 'm) ConsumerBase \<times> 'm FeederBase" where
  "Feeder s =
     (case feeder s of
        Some f \<Rightarrow> Inr (s, f)
      | None \<Rightarrow> map_sum id (\<lambda>f. (s\<lparr>feeder := Some f\<rparr>, f))
                  (NewFeeder [consumer_feeder_config (consumer_config s)]))"

definition Run :: "('k, 'm) ConsumerBase \<Rightarrow> bool \<Rightarrow> go_panic + ('k, 'm) ConsumerBase" where
  "Run s cancelled =
     map_sum id
       (\<lambda>(s1, _). s1\<lparr>queue := Some (case queue s1 of None \<Rightarrow> NewReplacingQueue | Some q \<Rightarrow> q),
                     ctx_done := cancelled, pc := Selecting\<rparr>)
       (Feeder s)"

text \<open>The deferred function of \<open>process\<close>.\<close>

definition exit_process :: "('k, 'm) ConsumerBase \<Rightarrow> go_panic + ('k, 'm) ConsumerBase" where
  "exit_process s =
     (case (queue s, feeder s) of
        (Some q, Some f) \<Rightarrow>
          (case Feeder_Close f of
             Inl e \<Rightarrow> Inl e
           | Inr f' \<Rightarrow>
               if doneChannel s then Inl CloseOfClosedChannel
               else Inr (s\<lparr>queue := Some (Clear q), feeder := Some f', doneChannel := True, pc := Exited\<rparr>))
      | _ \<Rightarrow> Inl NilDereference)"

text \<open>One iteration of the drain loop in \<open>tryNext\<close>.\<close>

definition drain_iteration ::
    "('k, 'm) ConsumerBase \<Rightarrow> 'm messageWrapper \<Rightarrow> bool \<Rightarrow> go_panic + ('k, 'm) ConsumerBase" where
  "drain_iteration s wrapper feederReady =
     (if closed s then Inr (s\<lparr>pc := Offering wrapper feederReady\<rparr>)
      else case (queue s, feeder s) of
        (Some q, Some f) \<Rightarrow>
          (case Front q of
             None \<Rightarrow> Inr (s\<lparr>pc := Offering wrapper feederReady\<rparr>)
           | Some message \<Rightarrow>
               (case Push f message of
                  Inl e \<Rightarrow> Inl e
                | Inr (f', ready) \<Rightarrow>
                    if \<not> ready then Inr (s\<lparr>feeder := Some f', pc := Offering wrapper False\<rparr>)
                    else Inr (s\<lparr>feeder := Some f', queue := Some (DropFront q), pc := Draining wrapper True\<rparr>)))
      | _ \<Rightarrow> Inl NilDereference)"

text \<open>The part of \<open>tryNext\<close> after the drain loop.\<close>

definition offer_message ::
    "('m \<Rightarrow> 'k) \<Rightarrow> ('k, 'm) ConsumerBase \<Rightarrow> 'm messageWrapper \<Rightarrow> bool \<Rightarrow> go_panic + ('k, 'm) ConsumerBase" where
  "offer_message key s wrapper feederReady =
     (case wrapper of
        None \<Rightarrow> Inr (s\<lparr>pc := Selecting\<rparr>)
      | Some message \<Rightarrow>
          if closed s then Inr (s\<lparr>pc := Selecting\<rparr>)
          else case (queue s, feeder s) of
            (Some q, Some f) \<Rightarrow>
              (case (if feederReady then Push f message else Inr (f, False)) of
                 Inl e \<Rightarrow> Inl e
               | Inr (f', ready) \<Rightarrow>
                   if ready then Inr (s\<lparr>feeder := Some f', pc := Selecting\<rparr>)
                   else let m = MAX_QUEUE_DEPTH (consumer_config s);
                            q1 = (if m \<noteq> 0 \<and> m \<le> int (Depth q) then DropFront q else q)
                        in Inr (s\<lparr>feeder := Some f', queue := Some (fst (Enqueue q1 (key message) message)),
                                  pc := Selecting\<rparr>))
          | _ \<Rightarrow> Inl NilDereference)"

definition take_work :: "('k, 'm) ConsumerBase \<Rightarrow> 'm messageWrapper \<Rightarrow> ('k, 'm) ConsumerBase" where
  "take_work s w =
     s\<lparr>pc := Draining w True, taken := taken s @ (case w of None \<Rightarrow> [] | Some m \<Rightarrow> [m])\<rparr>"

inductive consumer_step ::
    "('m \<Rightarrow> 'k) \<Rightarrow> ('k, 'm) ConsumerBase \<Rightarrow> go_panic + ('k, 'm) ConsumerBase \<Rightarrow> bool" for key where
  on_ctx_done: "pc s = Selecting \<Longrightarrow> ctx_done s \<Longrightarrow> consumer_step key s (exit_process s)"
| on_close: "pc s = Selecting \<Longrightarrow> closeChannel s \<Longrightarrow> consumer_step key s (exit_process s)"
| on_work: "pc s = Selecting \<Longrightarrow> chan_buf (workChannel s) = w # ws \<Longrightarrow>
     consumer_step key s (Inr (take_work (s\<lparr>workChannel := (workChannel s)\<lparr>chan_buf := ws\<rparr>\<rparr>) w))"
| drain: "pc s = Draining w ready \<Longrightarrow> consumer_step key s (drain_iteration s w ready)"
| offer: "pc s = Offering w ready \<Longrightarrow> consumer_step key s (offer_message key s w ready)"
| send: "length (chan_buf (workChannel s)) < chan_cap (workChannel s) \<Longrightarrow>
     consumer_step key s (Inr (s\<lparr>workChannel := (workChannel s)\<lparr>chan_buf := chan_buf (workChannel s) @ [w]\<rparr>\<rparr>))"
| send_direct: "pc s = Selecting \<Longrightarrow> chan_buf (workChannel s) = [] \<Longrightarrow>
     consumer_step key s (Inr (take_work s w))"
| send_dropped: "ctx_done s \<or> closeChannel s \<Longrightarrow> consumer_step key s (Inr s)"
| feeder_received: "feeder s = Some f \<Longrightarrow> consumer_step key s (Inr (s\<lparr>feeder := Some (feeder_receive f)\<rparr>))"
| close_won: "\<not> closed s \<Longrightarrow> consumer_step key s (Inr (s\<lparr>closed := True, close_pending := True\<rparr>))"
| close_signalled: "close_pending s \<Longrightarrow>
     consumer_step key s (if closeChannel s then Inl CloseOfClosedChannel
                          else Inr (s\<lparr>closeChannel := True, close_pending := False\<rparr>))"
| cancel: "consumer_step key s (Inr (s\<lparr>ctx_done := True\<rparr>))"

inductive consumer_reachable :: "('m \<Rightarrow> 'k) \<Rightarrow> ('k, 'm) ConsumerBase \<Rightarrow> ('k, 'm) ConsumerBase \<Rightarrow> bool"
  for key s0 where
  start: "consumer_reachable key s0 s0"
| step: "consumer_reachable key s0 s \<Longrightarrow> consumer_step key s (Inr s') \<Longrightarrow> consumer_reachable key s0 s'"

subsection \<open>Invariants\<close>

definition consumer_inv :: "('k, 'm) ConsumerBase \<Rightarrow> bool" where
  "consumer_inv s \<longleftrightarrow>
     (\<exists>q f. queue s = Some q \<and> queue_inv q \<and> feeder s = Some f \<and> feeder_inv f \<and>
            (feeder_once f \<longrightarrow> pc s = Exited)) \<and>
     (doneChannel s \<longleftrightarrow> pc s = Exited) \<and> pc s \<noteq> NotStarted \<and>
     (close_pending s \<longrightarrow> \<not> closeChannel s) \<and> (closeChannel s \<longrightarrow> closed s) \<and> (close_pending s \<longrightarrow> closed s)"

lemma consumer_invE:
  assumes "consumer_inv s"
  obtains q f where "queue s = Some q" "queue_inv q" "feeder s = Some f" "feeder_inv f"
    "feeder_once f \<Longrightarrow> pc s = Exited" "doneChannel s \<longleftrightarrow> pc s = Exited"
  using assms by (auto simp: consumer_inv_def)

lemma Enqueue_facts:
  assumes "queue_inv q"
  shows "queue_inv (fst (Enqueue q k v))" and "queue_items (fst (Enqueue q k v)) = AList.update k v (queue_items q)"
  using rq.enqueue_items [OF assms] by (metis prod.collapse)+

lemmas queue_facts = Enqueue_facts rq.drop_front_items rq.clear_items

lemma exit_process_inv:
  assumes "consumer_inv s" and "pc s = Selecting"
  shows "\<exists>s'. exit_process s = Inr s' \<and> consumer_inv s'"
  using assms(1)
proof (rule consumer_invE)
  fix q f
  assume a: "queue s = Some q" "queue_inv q" "feeder s = Some f" "feeder_inv f"
    "doneChannel s \<longleftrightarrow> pc s = Exited"
  obtain f' where "Feeder_Close f = Inr f'" and "feeder_inv f'"
    using Feeder_Close_facts [OF a(4)] by blast
  with a assms show ?thesis
    by (auto simp: exit_process_def consumer_inv_def queue_facts)
qed

lemma drain_iteration_inv:
  assumes "consumer_inv s" and "pc s = Draining w ready"
  shows "\<exists>s'. drain_iteration s w ready = Inr s' \<and> consumer_inv s'"
  using assms(1)
proof (rule consumer_invE)
  fix q f
  assume a: "queue s = Some q" "queue_inv q" "feeder s = Some f" "feeder_inv f"
    "feeder_once f \<Longrightarrow> pc s = Exited" "doneChannel s \<longleftrightarrow> pc s = Exited"
  have opn: "\<not> feeder_once f" using a(5) assms(2) by auto
  show ?thesis
  proof (cases "Front q")
    case None
    with a assms show ?thesis by (auto simp: drain_iteration_def consumer_inv_def)
  next
    case (Some m)
    show ?thesis
      by (rule Push_cases [OF a(4) opn, of m])
        (use a assms Some in \<open>auto simp: drain_iteration_def consumer_inv_def queue_facts\<close>)
  qed
qed

lemma offer_message_inv:
  assumes "consumer_inv s" and "pc s = Offering w ready"
  shows "\<exists>s'. offer_message key s w ready = Inr s' \<and> consumer_inv s'"
  using assms(1)
proof (rule consumer_invE)
  fix q f
  assume a: "queue s = Some q" "queue_inv q" "feeder s = Some f" "feeder_inv f"
    "feeder_once f \<Longrightarrow> pc s = Exited" "doneChannel s \<longleftrightarrow> pc s = Exited"
  have opn: "\<not> feeder_once f" using a(5) assms(2) by auto
  show ?thesis
  proof (cases w)
    case None
    with a assms show ?thesis by (auto simp: offer_message_def consumer_inv_def)
  next
    case (Some m)
    show ?thesis
      by (rule Push_cases [OF a(4) opn, of m])
        (use a assms Some in \<open>auto simp: offer_message_def consumer_inv_def Let_def queue_facts\<close>)
  qed
qed

lemma take_work_inv: "consumer_inv s \<Longrightarrow> pc s = Selecting \<Longrightarrow> consumer_inv (take_work s w)"
  by (auto simp: take_work_def consumer_inv_def)

lemma consumer_step_inv:
  assumes "consumer_step key s r" and "consumer_inv s"
  shows "\<exists>s'. r = Inr s' \<and> consumer_inv s'"
  using assms
proof (cases rule: consumer_step.cases)
  case (on_work w ws)
  have "consumer_inv (s\<lparr>workChannel := (workChannel s)\<lparr>chan_buf := ws\<rparr>\<rparr>)"
    using assms(2) by (simp add: consumer_inv_def)
  with on_work show ?thesis using take_work_inv by fastforce
next
  case send_direct
  with assms(2) take_work_inv show ?thesis by blast
next
  case (feeder_received f)
  with assms(2) feeder_receive_facts [of f] show ?thesis by (auto simp: consumer_inv_def)
next
  case close_signalled
  with assms(2) show ?thesis by (auto simp: consumer_inv_def)
next
  case on_ctx_done
  with assms(2) exit_process_inv show ?thesis by blast
next
  case on_close
  with assms(2) exit_process_inv show ?thesis by blast
next
  case drain
  with assms(2) drain_iteration_inv show ?thesis by blast
next
  case offer
  with assms(2) offer_message_inv show ?thesis by blast
qed (use assms(2) in \<open>auto simp: consumer_inv_def\<close>)

subsection \<open>Order and loss\<close>

definition backlog :: "('k, 'm) ConsumerBase \<Rightarrow> 'm list" where
  "backlog s = (case queue s of None \<Rightarrow> [] | Some q \<Rightarrow> map snd (queue_items q))"

definition delivered :: "('k, 'm) ConsumerBase \<Rightarrow> 'm list" where
  "delivered s = (case feeder s of None \<Rightarrow> [] | Some f \<Rightarrow> feeder_accepted f)"

definition in_flight :: "('k, 'm) ConsumerBase \<Rightarrow> 'm list" where
  "in_flight s = (case pc s of Draining (Some m) _ \<Rightarrow> [m] | Offering (Some m) _ \<Rightarrow> [m] | _ \<Rightarrow> [])"

text \<open>
  While the consumer is open and its backlog unbounded, what was delivered, what waits in
  the backlog and what is in the goroutine's hands is what was taken, in that order. A
  successful drain leaves the backlog empty, so that the new message may be pushed past it.
\<close>

definition fifo :: "('m \<Rightarrow> 'k) \<Rightarrow> ('k, 'm) ConsumerBase \<Rightarrow> bool" where
  "fifo key s \<longleftrightarrow>
     delivered s @ backlog s @ in_flight s = taken s \<and>
     (\<forall>q. queue s = Some q \<longrightarrow> (\<forall>(k, m) \<in> set (queue_items q). k = key m)) \<and>
     (\<forall>w q. pc s = Offering w True \<and> queue s = Some q \<longrightarrow> queue_items q = [])"

definition running_open :: "('m \<Rightarrow> 'k) \<Rightarrow> ('k, 'm) ConsumerBase \<Rightarrow> bool" where
  "running_open key s \<longleftrightarrow>
     \<not> closed s \<and> pc s \<noteq> Exited \<and> MAX_QUEUE_DEPTH (consumer_config s) = 0 \<and> distinct (map key (taken s))"

lemmas fifo_defs = fifo_def delivered_def backlog_def in_flight_def

lemma drain_fifo:
  assumes "consumer_inv s" and pc: "pc s = Draining w ready" and "\<not> closed s" and fifo: "fifo key s"
    and s': "drain_iteration s w ready = Inr s'"
  shows "fifo key s'"
  using assms(1)
proof (rule consumer_invE)
  fix q f
  assume a: "queue s = Some q" "queue_inv q" "feeder s = Some f" "feeder_inv f"
    "feeder_once f \<Longrightarrow> pc s = Exited"
  have opn: "\<not> feeder_once f" using a(5) pc by auto
  show ?thesis
  proof (cases "Front q")
    case None
    then have "queue_items q = []" using rq.front_None_iff [OF a(2)] by simp
    with None a s' assms(3) fifo pc show ?thesis
      by (auto simp: drain_iteration_def fifo_defs split: option.splits)
  next
    case (Some m)
    then obtain k xs where items: "queue_items q = (k, m) # xs"
      using rq.front_SomeD [OF a(2)] by blast
    show ?thesis
    proof (cases rule: Push_cases [OF a(4) opn, of m])
      case (1 f')
      with Some a s' assms(3) fifo pc items rq.drop_front_items [OF a(2)] show ?thesis
        by (auto simp: drain_iteration_def fifo_defs split: option.splits)
    next
      case 2
      with Some a s' assms(3) fifo pc items show ?thesis
        by (auto simp: drain_iteration_def fifo_defs split: option.splits)
    qed
  qed
qed

lemma offer_fifo:
  assumes "consumer_inv s" and pc: "pc s = Offering w ready" and run: "running_open key s"
    and fifo: "fifo key s" and s': "offer_message key s w ready = Inr s'"
  shows "fifo key s'"
  using assms(1)
proof (rule consumer_invE)
  fix q f
  assume a: "queue s = Some q" "queue_inv q" "feeder s = Some f" "feeder_inv f"
    "feeder_once f \<Longrightarrow> pc s = Exited"
  have opn: "\<not> feeder_once f" and cl: "\<not> closed s" and max: "MAX_QUEUE_DEPTH (consumer_config s) = 0"
    using a(5) pc run by (auto simp: running_open_def)
  show ?thesis
  proof (cases w)
    case None
    with s' fifo pc show ?thesis by (auto simp: offer_message_def fifo_defs)
  next
    case (Some m)
    have tk: "taken s = feeder_accepted f @ map snd (queue_items q) @ [m]"
      and keys: "\<forall>(k, m) \<in> set (queue_items q). k = key m"
      using fifo a Some pc by (auto simp: fifo_defs)
    have "key m \<notin> fst ` set (queue_items q)"
    proof
      assume "key m \<in> fst ` set (queue_items q)"
      with keys have "key m \<in> (key \<circ> snd) ` set (queue_items q)" by force
      with run tk show False by (auto simp: running_open_def)
    qed
    then have fresh: "AList.update (key m) m (queue_items q) = queue_items q @ [(key m, m)]"
      by (intro update_append) (simp add: map_of_eq_None_iff)
    have enq: "fifo key (s\<lparr>feeder := Some f, queue := Some (fst (Enqueue q (key m) m)), pc := Selecting\<rparr>)"
      using a tk keys fresh by (auto simp: fifo_defs queue_facts)
    show ?thesis
    proof (cases ready)
      case False
      with s' enq Some a cl max show ?thesis by (auto simp: offer_message_def)
    next
      case True
      then have nil: "queue_items q = []" using fifo pc a by (auto simp: fifo_defs)
      show ?thesis
      proof (cases rule: Push_cases [OF a(4) opn, of m])
        case (1 f')
        with True s' Some a cl tk keys nil show ?thesis
          by (auto simp: offer_message_def fifo_defs)
      next
        case 2
        with True s' enq Some a cl max show ?thesis by (auto simp: offer_message_def)
      qed
    qed
  qed
qed

text \<open>What a step keeps: the configuration, the closed flag once set, and the taken prefix.\<close>

lemma step_config:
  assumes "consumer_step key s (Inr s')"
  shows "consumer_config s' = consumer_config s" and "closed s \<Longrightarrow> closed s'"
    and "\<exists>xs. taken s' = taken s @ xs" and "pc s = Exited \<Longrightarrow> pc s' = Exited"
  using assms
  by (cases rule: consumer_step.cases;
      auto simp: exit_process_def drain_iteration_def offer_message_def take_work_def Let_def
        split: option.splits sum.splits prod.splits if_splits)+

lemma running_open_step:
  assumes "consumer_step key s (Inr s')" and "running_open key s'"
  shows "running_open key s"
  using step_config [OF assms(1)] assms(2) by (auto simp: running_open_def)

lemma take_work_fifo:
  "fifo key s \<Longrightarrow> pc s = Selecting \<Longrightarrow> fifo key (take_work s w)"
  by (auto simp: fifo_defs take_work_def split: option.splits)

lemma consumer_step_fifo:
  assumes "consumer_step key s (Inr s')" and inv: "consumer_inv s" and run: "running_open key s'"
    and fifo: "fifo key s"
  shows "fifo key s'"
  using assms(1)
proof (cases rule: consumer_step.cases)
  case (on_work w ws)
  have "fifo key (s\<lparr>workChannel := (workChannel s)\<lparr>chan_buf := ws\<rparr>\<rparr>)"
    using fifo by (simp add: fifo_defs)
  with on_work show ?thesis by (simp add: take_work_fifo)
next
  case send_direct
  with fifo take_work_fifo show ?thesis by blast
next
  case (drain w ready)
  moreover have "\<not> closed s" using running_open_step [OF assms(1) run] by (simp add: running_open_def)
  ultimately show ?thesis using drain_fifo [OF inv _ _ fifo] by auto
next
  case (offer w ready)
  then show ?thesis using offer_fifo [OF inv _ running_open_step [OF assms(1) run] fifo] by auto
next
  case (feeder_received f)
  with inv have "feeder_inv f" by (auto simp: consumer_inv_def)
  with feeder_received feeder_receive_facts [of f] fifo show ?thesis by (simp add: fifo_defs)
next
  case on_ctx_done
  with run show ?thesis
    by (auto simp: exit_process_def running_open_def split: option.splits sum.splits if_splits)
next
  case on_close
  with run show ?thesis
    by (auto simp: exit_process_def running_open_def split: option.splits sum.splits if_splits)
qed (use fifo in \<open>auto simp: fifo_defs split: if_splits\<close>)

lemma reachable_inv: "consumer_reachable key s0 s \<Longrightarrow> consumer_inv s0 \<Longrightarrow> consumer_inv s"
proof (induction rule: consumer_reachable.induct)
  case (step s s')
  then show ?case using consumer_step_inv [OF step.hyps(2)] by blast
qed

lemma reachable_fifo:
  "consumer_reachable key s0 s \<Longrightarrow> consumer_inv s0 \<Longrightarrow> fifo key s0 \<Longrightarrow> running_open key s \<Longrightarrow> fifo key s"
proof (induction rule: consumer_reachable.induct)
  case (step s s')
  have "running_open key s" by (rule running_open_step [OF step.hyps(2) step.prems(3)])
  with step have "fifo key s" by blast
  with step show ?case
    using consumer_step_fifo [OF step.hyps(2) reachable_inv [OF step.hyps(1)]] by blast
qed

text \<open>
  Per key, in every state: the messages with a key that were handed on or are still held are
  among those taken with that key, in their order; and as long as nothing is discarded by a
  bound or by closing, the latest of them is the latest taken.
\<close>

definition of_key :: "('m \<Rightarrow> 'k) \<Rightarrow> 'k \<Rightarrow> 'm list \<Rightarrow> 'm list" where
  "of_key key k ms = filter (\<lambda>m. key m = k) ms"

definition latest :: "('m \<Rightarrow> 'k) \<Rightarrow> 'k \<Rightarrow> 'm list \<Rightarrow> 'm option" where
  "latest key k ms = (let xs = of_key key k ms in if xs = [] then None else Some (last xs))"

definition held :: "('k, 'm) ConsumerBase \<Rightarrow> 'm list" where
  "held s = delivered s @ backlog s @ in_flight s"

definition discarding :: "('k, 'm) ConsumerBase \<Rightarrow> bool" where
  "discarding s \<longleftrightarrow> closed s \<or> pc s = Exited \<or> MAX_QUEUE_DEPTH (consumer_config s) \<noteq> 0"

definition key_order :: "('m \<Rightarrow> 'k) \<Rightarrow> ('k, 'm) ConsumerBase \<Rightarrow> bool" where
  "key_order key s \<longleftrightarrow>
     (\<forall>k. subseq (of_key key k (held s)) (of_key key k (taken s))) \<and>
     (\<not> discarding s \<longrightarrow> (\<forall>k. latest key k (held s) = latest key k (taken s))) \<and>
     (\<forall>q. queue s = Some q \<longrightarrow> (\<forall>(k, m) \<in> set (queue_items q). k = key m)) \<and>
     (\<forall>w q. pc s = Offering w True \<and> queue s = Some q \<and> \<not> closed s \<longrightarrow> queue_items q = [])"

lemmas key_order_defs = key_order_def held_def delivered_def backlog_def in_flight_def discarding_def

lemma of_key_simps [simp]:
  "of_key key k [] = []" "of_key key k (xs @ ys) = of_key key k xs @ of_key key k ys"
  "of_key key k (m # ms) = (if key m = k then m # of_key key k ms else of_key key k ms)"
  by (simp_all add: of_key_def)

lemma latest_cong: "of_key key k xs = of_key key k ys \<Longrightarrow> latest key k xs = latest key k ys"
  by (simp add: latest_def)

lemma latest_snoc: "latest key k (xs @ [m]) = (if key m = k then Some m else latest key k xs)"
  by (simp add: latest_def)

lemma of_key_items:
  assumes "\<forall>(k, m) \<in> set xs. k = key m"
  shows "of_key key k (map snd xs) = map snd (filter (\<lambda>e. fst e = k) xs)"
  using assms by (induction xs) auto

lemma filter_key_update: "k \<noteq> k0 \<Longrightarrow> filter (\<lambda>e. fst e = k) (AList.update k0 v xs) = filter (\<lambda>e. fst e = k) xs"
  by (induction xs) auto

lemma filter_update_same:
  "gomap_wf xs \<Longrightarrow> filter (\<lambda>e. fst e = k) (AList.update k v xs) = [(k, v)]"
  by (induction xs) (auto simp: gomap_wf_def filter_empty_conv rev_image_eqI)

lemma keys_update: "\<forall>(k, m) \<in> set xs. k = key m \<Longrightarrow> \<forall>(k, m') \<in> set (AList.update (key m) m xs). k = key m'"
  by (induction xs) auto

lemma of_key_update:
  assumes "\<forall>(k, m) \<in> set xs. k = key m" "gomap_wf xs"
  shows "of_key key k (map snd (AList.update (key m) m xs)) = (if key m = k then [m] else of_key key k (map snd xs))"
  using assms keys_update [OF assms(1), of m] by (auto simp: of_key_items filter_key_update filter_update_same)

text \<open>A message takes the place of its key, after the front was dropped if the backlog is full.\<close>

lemma enqueued_order:
  assumes keys: "\<forall>(k, m) \<in> set xs. k = key m" and wf: "gomap_wf xs" and ys: "ys = xs \<or> ys = tl xs"
    and sub: "subseq (of_key key k (ds @ map snd xs @ [m])) ts"
  shows "subseq (of_key key k (ds @ map snd (AList.update (key m) m ys))) ts"
    and "\<forall>(k, m) \<in> set (AList.update (key m) m ys). k = key m"
    and "ys = xs \<Longrightarrow> latest key k (ds @ map snd (AList.update (key m) m ys)) = latest key k (ds @ map snd xs @ [m])"
proof -
  have y: "\<forall>(k, m) \<in> set ys. k = key m" "gomap_wf ys"
    using ys keys wf by (auto simp: gomap_wf_def map_tl distinct_tl dest: list.set_sel(2) [rotated])
      (cases xs; auto)+
  have t: "subseq (of_key key k (map snd ys)) (of_key key k (map snd xs))"
    using ys by (cases xs) (auto simp: list_emb_Cons)
  have "subseq (of_key key k (ds @ map snd (AList.update (key m) m ys))) (of_key key k (ds @ map snd xs @ [m]))"
    using t by (auto simp: of_key_update [OF y] intro!: list_emb_append_mono)
  then show "subseq (of_key key k (ds @ map snd (AList.update (key m) m ys))) ts"
    using sub by (rule subseq_order.trans)
  show "\<forall>(k, m) \<in> set (AList.update (key m) m ys). k = key m" by (rule keys_update [OF y(1)])
  show "latest key k (ds @ map snd (AList.update (key m) m ys)) = latest key k (ds @ map snd xs @ [m])" if "ys = xs"
    unfolding that by (auto simp: latest_def of_key_update [OF keys wf])
qed

lemma subseq_cut: "subseq (xs @ ys) ts \<Longrightarrow> subseq xs ts"
  by (rule subseq_order.trans [of xs "xs @ ys"]) (simp_all add: subseq_rev_drop_many)

lemma key_order_cut:
  assumes "key_order key s"
  shows "subseq (of_key key k (delivered s)) (of_key key k (taken s))"
    and "subseq (of_key key k (delivered s @ backlog s)) (of_key key k (taken s))"
proof -
  have "subseq (of_key key k (delivered s @ backlog s) @ of_key key k (in_flight s)) (of_key key k (taken s))"
    using assms by (simp add: key_order_def held_def)
  then show "subseq (of_key key k (delivered s @ backlog s)) (of_key key k (taken s))" by (rule subseq_cut)
  then have "subseq (of_key key k (delivered s) @ of_key key k (backlog s)) (of_key key k (taken s))" by simp
  then show "subseq (of_key key k (delivered s)) (of_key key k (taken s))" by (rule subseq_cut)
qed

lemma drain_key_order:
  assumes "consumer_inv s" and pc: "pc s = Draining w ready" and ko: "key_order key s"
    and s': "drain_iteration s w ready = Inr s'"
  shows "key_order key s'"
  using assms(1)
proof (rule consumer_invE)
  fix q f
  assume a: "queue s = Some q" "queue_inv q" "feeder s = Some f" "feeder_inv f"
    "feeder_once f \<Longrightarrow> pc s = Exited"
  have opn: "\<not> feeder_once f" using a(5) pc by auto
  show ?thesis
  proof (cases "Front q")
    case None
    then have "queue_items q = []" using rq.front_None_iff [OF a(2)] by simp
    with None a s' ko pc show ?thesis
      by (auto simp: drain_iteration_def key_order_defs split: option.splits if_splits)
  next
    case (Some m)
    then obtain k xs where items: "queue_items q = (k, m) # xs"
      using rq.front_SomeD [OF a(2)] by blast
    show ?thesis
      by (cases rule: Push_cases [OF a(4) opn, of m])
        (use Some a s' ko pc items rq.drop_front_items [OF a(2)] in
          \<open>auto simp: drain_iteration_def key_order_defs split: option.splits if_splits\<close>)
  qed
qed

lemma offer_key_order:
  assumes "consumer_inv s" and pc: "pc s = Offering w ready" and ko: "key_order key s"
    and s': "offer_message key s w ready = Inr s'"
  shows "key_order key s'"
  using assms(1)
proof (rule consumer_invE)
  fix q f
  assume a: "queue s = Some q" "queue_inv q" "feeder s = Some f" "feeder_inv f"
    "feeder_once f \<Longrightarrow> pc s = Exited"
  have opn: "\<not> feeder_once f" using a(5) pc by auto
  have keys: "\<forall>(k, m) \<in> set (queue_items q). k = key m" using ko a by (auto simp: key_order_def)
  note wf = rq.keys_distinct [OF a(2)]
  let ?b = "MAX_QUEUE_DEPTH (consumer_config s) \<noteq> 0 \<and> MAX_QUEUE_DEPTH (consumer_config s) \<le> int (Depth q)"
  let ?q1 = "if ?b then DropFront q else q"
  have i1: "queue_inv ?q1" "queue_items ?q1 = (if ?b then tl (queue_items q) else queue_items q)"
    using a(2) by (simp_all add: queue_facts)
  consider (none) "w = None \<or> closed s" | (some) m where "w = Some m" "\<not> closed s" by (cases w) auto
  then show ?thesis
  proof cases
    case none
    then show ?thesis
      using s' ko pc a key_order_cut(2) [OF ko]
      by (auto simp: offer_message_def key_order_defs simp del: of_key_simps(2,3) split: option.splits)
  next
    case some
    have sub: "subseq (of_key key k (feeder_accepted f @ map snd (queue_items q) @ [m])) (of_key key k (taken s))" for k
      using ko a pc some by (simp add: key_order_defs del: of_key_simps)
    have lat: "latest key k (feeder_accepted f @ map snd (queue_items q) @ [m]) = latest key k (taken s)" if "\<not> discarding s" for k
      using ko a pc some that by (simp add: key_order_defs)
    have enq: "key_order key (s\<lparr>feeder := Some f, queue := Some (fst (Enqueue ?q1 (key m) m)), pc := Selecting\<rparr>)"
      using enqueued_order [OF keys wf _ sub, of "queue_items ?q1"] lat i1 pc
      by (auto simp: key_order_def held_def delivered_def backlog_def in_flight_def discarding_def queue_facts simp del: of_key_simps)
    show ?thesis
    proof (cases rule: Push_cases [OF a(4) opn, of m])
      case (1 f')
      then show ?thesis
        using s' enq some a ko pc sub lat by (cases ready) (auto simp: offer_message_def Let_def key_order_defs simp del: of_key_simps)
    next
      case 2
      then show ?thesis using s' enq some a by (cases ready) (auto simp: offer_message_def Let_def)
    qed
  qed
qed

lemma exit_key_order:
  assumes "consumer_inv s" and ko: "key_order key s" and s': "exit_process s = Inr s'"
  shows "key_order key s'"
  using assms(1)
proof (rule consumer_invE)
  fix q f
  assume a: "queue s = Some q" "queue_inv q" "feeder s = Some f" "feeder_inv f"
  obtain f' where "Feeder_Close f = Inr f'" "feeder_accepted f' = feeder_accepted f"
    using Feeder_Close_facts [OF a(4)] by blast
  then show ?thesis
    using a s' key_order_cut(1) [OF ko] by (auto simp: exit_process_def key_order_defs queue_facts split: if_splits)
qed

lemma take_work_key_order:
  assumes "key_order key s" "pc s = Selecting" shows "key_order key (take_work s w)"
proof -
  have h: "held (take_work s w) = held s @ (case w of None \<Rightarrow> [] | Some m \<Rightarrow> [m])"
    using assms(2) by (simp add: held_def delivered_def backlog_def in_flight_def take_work_def split: option.split)
  show ?thesis
    unfolding key_order_def h using assms
    by (cases w) (auto simp: take_work_def key_order_def discarding_def latest_snoc)
qed

lemma consumer_step_key_order:
  assumes "consumer_step key s (Inr s')" and inv: "consumer_inv s" and ko: "key_order key s"
  shows "key_order key s'"
  using assms(1)
proof (cases rule: consumer_step.cases)
  case (on_work w ws)
  have "key_order key (s\<lparr>workChannel := (workChannel s)\<lparr>chan_buf := ws\<rparr>\<rparr>)"
    using ko by (simp add: key_order_defs)
  with on_work show ?thesis by (simp add: take_work_key_order)
next
  case (feeder_received f)
  with inv have "feeder_inv f" by (auto simp: consumer_inv_def)
  with feeder_received feeder_receive_facts [of f] ko show ?thesis by (simp add: key_order_defs)
next
  case on_ctx_done
  then show ?thesis using exit_key_order [OF inv ko] by simp
next
  case on_close
  then show ?thesis using exit_key_order [OF inv ko] by simp
next
  case (drain w ready)
  then show ?thesis using drain_key_order [OF inv _ ko] by simp
next
  case (offer w ready)
  then show ?thesis using offer_key_order [OF inv _ ko] by simp
next
  case (send_direct w)
  then show ?thesis using take_work_key_order [OF ko] by simp
qed (use ko in \<open>simp_all add: key_order_defs split: if_splits\<close>)

lemma reachable_key_order:
  "consumer_reachable key s0 s \<Longrightarrow> consumer_inv s0 \<Longrightarrow> key_order key s0 \<Longrightarrow> key_order key s"
proof (induction rule: consumer_reachable.induct)
  case (step s s')
  then show ?case
    using consumer_step_key_order [OF step.hyps(2) reachable_inv [OF step.hyps(1)]] by blast
qed

text \<open>The bound on the backlog.\<close>

definition bounded_backlog :: "('k, 'm) ConsumerBase \<Rightarrow> bool" where
  "bounded_backlog s \<longleftrightarrow>
     0 < MAX_QUEUE_DEPTH (consumer_config s) \<longrightarrow> int (length (backlog s)) \<le> MAX_QUEUE_DEPTH (consumer_config s)"

lemma length_update_le: "length (AList.update k v xs) \<le> Suc (length xs)"
  by (cases "map_of xs k") (simp_all add: length_update_new length_update_old)

lemma offer_bounded:
  assumes "consumer_inv s" and "bounded_backlog s" and s': "offer_message key s w ready = Inr s'"
  shows "bounded_backlog s'"
  using assms(1)
proof (rule consumer_invE)
  fix q f
  assume a: "queue s = Some q" "queue_inv q" "feeder s = Some f"
  let ?max = "MAX_QUEUE_DEPTH (consumer_config s)"
  let ?q1 = "if ?max \<noteq> 0 \<and> ?max \<le> int (Depth q) then DropFront q else q"
  have "int (length (queue_items (fst (Enqueue ?q1 k m)))) \<le> ?max" if "0 < ?max" for k m
  proof -
    have "queue_inv ?q1" using a(2) by (simp add: queue_facts)
    then have "length (queue_items (fst (Enqueue ?q1 k m))) \<le> Suc (length (queue_items ?q1))"
      by (simp only: queue_facts length_update_le)
    moreover have "Suc (length (queue_items ?q1)) \<le> nat ?max"
      using that assms(2) a
      by (auto simp: bounded_backlog_def backlog_def queue_facts rq.depth_items split: if_splits)
    ultimately show ?thesis using that by linarith
  qed
  with s' a assms(2) show ?thesis
    by (auto simp: offer_message_def bounded_backlog_def backlog_def Let_def
        split: option.splits if_splits sum.splits prod.splits)
qed

lemma consumer_step_bounded:
  assumes "consumer_step key s (Inr s')" and inv: "consumer_inv s" and bnd: "bounded_backlog s"
  shows "bounded_backlog s'"
  using assms(1)
proof (cases rule: consumer_step.cases)
  case (offer w ready)
  then show ?thesis using offer_bounded [OF inv bnd] by metis
next
  case (drain w ready)
  with inv bnd show ?thesis
    by (auto simp: drain_iteration_def bounded_backlog_def backlog_def consumer_inv_def queue_facts
        split: option.splits if_splits sum.splits prod.splits)
qed (use inv bnd in \<open>auto simp: exit_process_def take_work_def bounded_backlog_def backlog_def
       consumer_inv_def queue_facts split: option.splits sum.splits if_splits\<close>)

lemma reachable_bounded:
  "consumer_reachable key s0 s \<Longrightarrow> consumer_inv s0 \<Longrightarrow> bounded_backlog s0 \<Longrightarrow> bounded_backlog s"
proof (induction rule: consumer_reachable.induct)
  case (step s s')
  then show ?case
    using consumer_step_bounded [OF step.hyps(2) reachable_inv [OF step.hyps(1)]] by blast
qed

lemma Run_start:
  assumes "NewConsumer config = Inr s" and "Run s cancelled = Inr s0"
  shows "consumer_inv s0 \<and> fifo key s0 \<and> bounded_backlog s0 \<and> key_order key s0"
  using assms
  by (auto simp: NewConsumer_def Run_def Feeder_def Let_def consumer_inv_def fifo_defs
      held_def key_order_def bounded_backlog_def dest!: NewFeeder_inv)

subsection \<open>Properties\<close>

text \<open>A concrete run for the witnesses: one message sent, drained and offered.\<close>

definition example_new :: "(nat, nat) ConsumerBase" where
  "example_new = projr (NewConsumer [])"

definition example_started :: "(nat, nat) ConsumerBase" where
  "example_started = projr (Run example_new False)"

definition example_taken :: "(nat, nat) ConsumerBase" where
  "example_taken = take_work example_started (Some 5)"

definition example_drained :: "(nat, nat) ConsumerBase" where
  "example_drained = projr (drain_iteration example_taken (Some 5) True)"

definition example_offered :: "(nat, nat) ConsumerBase" where
  "example_offered = projr (offer_message id example_drained (Some 5) True)"

lemmas example_defs = example_new_def example_started_def example_taken_def example_drained_def
  example_offered_def NewConsumer_def DefaultConsumerConfig_def make_chan_def Run_def Feeder_def
  NewFeeder_def DEFAULT_FEEDER_CHANNEL_DEPTH_def Let_def take_work_def drain_iteration_def
  offer_message_def Push_def try_send_def Front_def NewReplacingQueue_def

lemma example_run:
  "NewConsumer [] = Inr example_new" "Run example_new False = Inr example_started"
  "consumer_step id example_started (Inr example_taken)"
  "consumer_step id example_taken (Inr example_drained)"
  "consumer_step id example_drained (Inr example_offered)"
proof -
  show "NewConsumer [] = Inr example_new" "Run example_new False = Inr example_started"
    by (simp_all add: example_defs)
  show "consumer_step id example_started (Inr example_taken)"
    unfolding example_taken_def by (rule consumer_step.send_direct) (simp_all add: example_defs)
  have "drain_iteration example_taken (Some 5) True = Inr example_drained"
    by (simp add: example_defs)
  moreover have "pc example_taken = Draining (Some 5) True" by (simp add: example_taken_def take_work_def)
  ultimately show "consumer_step id example_taken (Inr example_drained)"
    using consumer_step.drain [of example_taken "Some 5" True id] by simp
  have "offer_message id example_drained (Some 5) True = Inr example_offered"
    by (simp add: example_defs)
  moreover have "pc example_drained = Offering (Some 5) True" by (simp add: example_defs)
  ultimately show "consumer_step id example_drained (Inr example_offered)"
    using consumer_step.offer [of example_drained "Some 5" True id] by simp
qed

lemma example_reachable:
  "consumer_reachable id example_started example_drained"
  "consumer_reachable id example_started example_offered"
  using consumer_reachable.intros example_run by metis+

text \<open>
  C28: a started consumer never panics: in every interleaving of the goroutine with senders,
  receivers, \<open>Close\<close> and cancellation, no message is pushed to a closed channel, no channel is
  closed twice and no nil queue or feeder is used.
\<close>

theorem consumer_never_panics:
  assumes "NewConsumer config = Inr s" and "Run s cancelled = Inr s0"
    and "consumer_reachable key s0 s1" and "consumer_step key s1 r"
  shows "\<exists>s2. r = Inr s2"
proof -
  have "consumer_inv s1" using Run_start [OF assms(1,2)] reachable_inv [OF assms(3)] by blast
  from consumer_step_inv [OF assms(4) this] show ?thesis by blast
qed

theorem consumer_never_panics_witness:
  "consumer_step id example_drained (Inr example_offered) \<and> (\<exists>s2. Inr example_offered = (Inr s2 :: go_panic + _))"
  using consumer_never_panics [OF example_run(1,2) example_reachable(1) example_run(5)] example_run(5)
  by simp

text \<open>
  C4: in every reachable state, closing and bounded backlogs included, what the feeder accepted,
  then the backlog, then the message in hand hold, for each key, a subsequence of the messages
  taken with that key: none is duplicated and none overtakes another of its key. While an
  unbounded consumer is open only older messages give way to newer ones: the latest message of
  each key is the latest taken, and if the keys are distinct all messages are held in order.
\<close>

theorem consumer_keeps_order:
  assumes "NewConsumer config = Inr s" and "Run s cancelled = Inr s0"
    and "consumer_reachable key s0 s1"
  shows "subseq (of_key key k (delivered s1 @ backlog s1 @ in_flight s1)) (of_key key k (taken s1)) \<and>
    (\<not> discarding s1 \<longrightarrow> latest key k (delivered s1 @ backlog s1 @ in_flight s1) = latest key k (taken s1)) \<and>
    (\<not> discarding s1 \<and> distinct (map key (taken s1)) \<longrightarrow> delivered s1 @ backlog s1 @ in_flight s1 = taken s1)"
proof -
  have "key_order key s1" using Run_start [OF assms(1,2)] reachable_key_order [OF assms(3)] by blast
  moreover have "fifo key s1" if "\<not> discarding s1" "distinct (map key (taken s1))"
    using that Run_start [OF assms(1,2)] reachable_fifo [OF assms(3)] by (auto simp: discarding_def running_open_def)
  ultimately show ?thesis by (simp add: key_order_def held_def fifo_def)
qed

theorem consumer_keeps_order_witness:
  "\<not> discarding example_offered \<and> delivered example_offered = [5] \<and> taken example_offered = [5] \<and>
   delivered example_offered @ backlog example_offered @ in_flight example_offered = taken example_offered"
proof -
  have r: "\<not> discarding example_offered" by (simp add: discarding_def example_defs)
  have d: "delivered example_offered = [5]" "taken example_offered = [5]"
    by (simp_all add: delivered_def feeder_accepted_def feeder_chan_def accepted_def example_defs)
  from r d consumer_keeps_order [OF example_run(1,2) example_reachable(2)] show ?thesis by simp
qed

text \<open>
  C29: the backlog never exceeds a positive \<open>MAX_QUEUE_DEPTH\<close>, in any reachable state.
\<close>

theorem consumer_backlog_bounded:
  assumes "NewConsumer config = Inr s" and "Run s cancelled = Inr s0"
    and "consumer_reachable key s0 s1" and "0 < MAX_QUEUE_DEPTH (consumer_config s1)"
  shows "int (length (backlog s1)) \<le> MAX_QUEUE_DEPTH (consumer_config s1)"
  using Run_start [OF assms(1,2)] reachable_bounded [OF assms(3)] assms(4)
  by (auto simp: bounded_backlog_def)

definition example_bounded_config :: ConsumerConfig where
  "example_bounded_config = DefaultConsumerConfig\<lparr>MAX_QUEUE_DEPTH := 2\<rparr>"

definition example_bounded :: "(nat, nat) ConsumerBase" where
  "example_bounded = projr (Run (projr (NewConsumer [example_bounded_config])) False)"

theorem consumer_backlog_bounded_witness:
  "0 < MAX_QUEUE_DEPTH (consumer_config example_bounded) \<and>
   int (length (backlog example_bounded)) \<le> MAX_QUEUE_DEPTH (consumer_config example_bounded)"
proof -
  have n: "NewConsumer [example_bounded_config] = Inr (projr (NewConsumer [example_bounded_config]) :: (nat, nat) ConsumerBase)"
    by (simp add: example_bounded_config_def example_defs)
  have r: "Run (projr (NewConsumer [example_bounded_config])) False = Inr example_bounded"
    by (simp add: example_bounded_def example_bounded_config_def example_defs)
  have m: "0 < MAX_QUEUE_DEPTH (consumer_config example_bounded)"
    by (simp add: example_bounded_def example_bounded_config_def example_defs)
  from m consumer_backlog_bounded [OF n r consumer_reachable.start [of id] m] show ?thesis by simp
qed

definition full_backlog :: "(nat, nat) ReplacingQueue" where
  "full_backlog = fst (Enqueue (fst (Enqueue NewReplacingQueue 1 11)) 2 12)"

text \<open>
  With a full bounded backlog, a message whose key is already queued still evicts the
  front message, although replacing in place needs no room: here message 11 with key 1 is
  lost when message 22 replaces message 12, both with key 2.
\<close>

theorem full_backlog_replacement_evicts_front:
  "queue_items full_backlog = [(1, 11), (2, 12)] \<and>
   map_sum id backlog
     (offer_message (\<lambda>m. m mod 10)
        (example_bounded\<lparr>queue := Some full_backlog, pc := Offering (Some 22) False\<rparr>) (Some 22) False)
   = Inr [22]"
  by (simp add: full_backlog_def queue_items_def backlog_def Enqueue_def DropFront_def Depth_def
      example_bounded_def example_bounded_config_def example_defs)

end
