(* ===== verification/MessageQueues.thy ===== *)
theory MessageQueues
  imports SelectorTries Consumers
begin

section \<open>The in-memory message queue, its subscribers and event keys\<close>

text \<open>
  Models \<^verbatim>\<open>pkg/message_queue/inmem_mq.go\<close>, \<^verbatim>\<open>subscriber.go\<close>, the sending side of
  \<^verbatim>\<open>consumer.go\<close> and \<^verbatim>\<open>pkg/event_dispatcher/event.go\<close>. Consumers are shared objects: the
  registry stores handles and \<open>store\<close> maps a handle to the consumer it points to. The
  registry is one of the two tries; \<open>Registry_Find\<close> is the dynamic dispatch on it.
\<close>

subsection \<open>Sending to a consumer\<close>

text \<open>
  The \<^verbatim>\<open>select\<close> of \<open>ConsumerBase.tryNext\<close>: send the wrapper, or return when the context is
  done or the consumer closed. When both are ready Go picks one at random: \<open>prefer_stop\<close>.
  \<open>None\<close> is a call that blocks.
\<close>

definition can_send :: "('k, 'm) ConsumerBase \<Rightarrow> bool" where
  "can_send s \<longleftrightarrow>
     length (chan_buf (workChannel s)) < chan_cap (workChannel s) \<or>
     pc s = Selecting \<and> chan_buf (workChannel s) = []"

definition send_work :: "('k, 'm) ConsumerBase \<Rightarrow> 'm messageWrapper \<Rightarrow> ('k, 'm) ConsumerBase" where
  "send_work s w =
     (if length (chan_buf (workChannel s)) < chan_cap (workChannel s)
      then s\<lparr>workChannel := (workChannel s)\<lparr>chan_buf := chan_buf (workChannel s) @ [w]\<rparr>\<rparr>
      else take_work s w)"

definition tryNext :: "bool \<Rightarrow> ('k, 'm) ConsumerBase \<Rightarrow> 'm list \<Rightarrow> ('k, 'm) ConsumerBase option" where
  "tryNext prefer_stop s msg =
     (let w = (case msg of [] \<Rightarrow> None | m # _ \<Rightarrow> Some m);
          can_stop = (ctx_done s \<or> closeChannel s)
      in if can_stop \<and> (prefer_stop \<or> \<not> can_send s) then Some s
         else if can_send s then Some (send_work s w)
         else None)"

definition Consume :: "bool \<Rightarrow> ('k, 'm) ConsumerBase \<Rightarrow> 'm \<Rightarrow> ('k, 'm) ConsumerBase option" where
  "Consume prefer_stop s message = tryNext prefer_stop s [message]"

definition Next :: "bool \<Rightarrow> ('k, 'm) ConsumerBase \<Rightarrow> ('k, 'm) ConsumerBase option" where
  "Next prefer_stop s = tryNext prefer_stop s []"

text \<open>
  \<open>Close\<close>: only the caller that wins the compare-and-swap acts. Waiting for \<open>doneChannel\<close> or
  the timeout changes nothing itself; the goroutine's exit is a step of its own.
\<close>

definition Consumer_Close :: "('k, 'm) ConsumerBase \<Rightarrow> ('k, 'm) ConsumerBase" where
  "Consumer_Close s = (if closed s then s else s\<lparr>closed := True, closeChannel := True\<rparr>)"

lemma tryNext_is_step:
  assumes "tryNext prefer_stop s msg = Some s'"
  shows "consumer_step key s (Inr s')"
proof (cases "(ctx_done s \<or> closeChannel s) \<and> (prefer_stop \<or> \<not> can_send s)")
  case True
  with assms have "s' = s" by (auto simp: tryNext_def Let_def)
  with True show ?thesis by (auto intro: consumer_step.send_dropped)
next
  case False
  with assms have c: "can_send s" and s': "s' = send_work s (case msg of [] \<Rightarrow> None | m # _ \<Rightarrow> Some m)"
    by (auto simp: tryNext_def Let_def split: if_splits)
  show ?thesis
  proof (cases "length (chan_buf (workChannel s)) < chan_cap (workChannel s)")
    case True
    with s' show ?thesis by (auto simp: send_work_def intro: consumer_step.send)
  next
    case False
    with c s' show ?thesis
      by (auto simp: send_work_def can_send_def intro: consumer_step.send_direct)
  qed
qed

subsection \<open>The message queue\<close>

datatype registry = SelectorRegistry "nat SelectorTrie" | LevelRegistry "nat SelectorTrie"

fun registry_trie :: "registry \<Rightarrow> nat SelectorTrie" where
  "registry_trie (SelectorRegistry t) = t"
| "registry_trie (LevelRegistry t) = t"

fun with_trie :: "registry \<Rightarrow> nat SelectorTrie \<Rightarrow> registry" where
  "with_trie (SelectorRegistry _) t = SelectorRegistry t"
| "with_trie (LevelRegistry _) t = LevelRegistry t"

fun Registry_Find :: "registry \<Rightarrow> selectors \<Rightarrow> nat list" where
  "Registry_Find (SelectorRegistry t) key = SelectorTrie_Find t key"
| "Registry_Find (LevelRegistry t) key = LevelTrie_Find t key"

record ('k, 'm) InmemMq =
  consumers :: registry
  store :: "nat \<Rightarrow> ('k, 'm) ConsumerBase"

definition NewInmemMq :: "int \<Rightarrow> registry option list \<Rightarrow> registry" where
  "NewInmemMq m given =
     (case given of Some r # _ \<Rightarrow> r | _ \<Rightarrow> SelectorRegistry (NewSelectorTrie m))"

text \<open>The loop of \<open>Publish\<close> over the consumers found; \<open>pick i\<close> is the choice of the \<open>i\<close>-th call.\<close>

fun deliver_all ::
    "(nat \<Rightarrow> bool) \<Rightarrow> 'm \<Rightarrow> nat list \<Rightarrow> (nat \<Rightarrow> ('k, 'm) ConsumerBase) \<Rightarrow> (nat \<Rightarrow> ('k, 'm) ConsumerBase) option" where
  "deliver_all pick message [] st = Some st"
| "deliver_all pick message (h # hs) st =
     (case Consume (pick 0) (st h) message of
        None \<Rightarrow> None
      | Some c \<Rightarrow> deliver_all (\<lambda>i. pick (Suc i)) message hs (st(h := c)))"

definition Publish ::
    "(nat \<Rightarrow> bool) \<Rightarrow> ('k, 'm) InmemMq \<Rightarrow> selectors \<Rightarrow> 'm \<Rightarrow> ('k, 'm) InmemMq option" where
  "Publish pick p key message =
     map_option (\<lambda>st. p\<lparr>store := st\<rparr>)
       (deliver_all pick message (Registry_Find (consumers p) key) (store p))"

definition Subscribe ::
    "('k, 'm) InmemMq \<Rightarrow> bool \<Rightarrow> selectors \<Rightarrow> nat \<Rightarrow> go_panic + ('k, 'm) InmemMq \<times> RegistrySubscription" where
  "Subscribe p cancelled key h =
     (case Run (store p h) cancelled of
        Inl e \<Rightarrow> Inl e
      | Inr c \<Rightarrow>
          (let (t, sub) = Register (registry_trie (consumers p)) key h
           in Inr (p\<lparr>store := (store p)(h := c), consumers := with_trie (consumers p) t\<rparr>, sub)))"

definition Unsubscribe :: "('k, 'm) InmemMq \<Rightarrow> RegistrySubscription option \<Rightarrow> ('k, 'm) InmemMq" where
  "Unsubscribe p subscription =
     (case subscription of
        None \<Rightarrow> p
      | Some sub \<Rightarrow>
          (let (t, existing) = Unregister (registry_trie (consumers p)) (Some sub);
               p1 = p\<lparr>consumers := with_trie (consumers p) t\<rparr>
           in case existing of
                None \<Rightarrow> p1
              | Some h \<Rightarrow> p1\<lparr>store := (store p1)(h := Consumer_Close (store p1 h))\<rparr>))"

subsection \<open>Subscribers\<close>

record SubscriberBase =
  subscriber_consumer :: nat
  subscription :: "RegistrySubscription option"
  subscriber_mq :: bool

definition NewSubscriber :: "nat \<Rightarrow> SubscriberBase" where
  "NewSubscriber h = \<lparr>subscriber_consumer = h, subscription = None, subscriber_mq = False\<rparr>"

text \<open>\<open>subscriber_mq\<close> says that the subscriber remembers the queue (\<open>s.mq\<close> is not nil).\<close>

definition Subscriber_Subscribe ::
    "SubscriberBase \<Rightarrow> ('k, 'm) InmemMq \<Rightarrow> bool \<Rightarrow> selectors \<Rightarrow> go_panic + SubscriberBase \<times> ('k, 'm) InmemMq" where
  "Subscriber_Subscribe s mq cancelled key =
     map_sum id (\<lambda>(mq', sub). (s\<lparr>subscription := Some sub, subscriber_mq := True\<rparr>, mq'))
       (Subscribe mq cancelled key (subscriber_consumer s))"

definition Subscriber_Unsubscribe :: "SubscriberBase \<Rightarrow> ('k, 'm) InmemMq \<Rightarrow> ('k, 'm) InmemMq" where
  "Subscriber_Unsubscribe s mq = (if subscriber_mq s then Unsubscribe mq (subscription s) else mq)"

subsection \<open>Event keys\<close>

definition MaxSelectors :: nat where
  "MaxSelectors = 6"

text \<open>The array of selectors of an event key is a list of that length.\<close>

type_synonym EventKey = "OptString list"

definition zeroEventKey :: EventKey where
  "zeroEventKey = replicate MaxSelectors NullString"

definition SetSelector :: "EventKey \<Rightarrow> int \<Rightarrow> string \<Rightarrow> EventKey option" where
  "SetSelector k i selector =
     (if 0 \<le> i \<and> i < int MaxSelectors then Some (k[nat i := Opt selector]) else None)"

definition UnsetSelector :: "EventKey \<Rightarrow> int \<Rightarrow> EventKey option" where
  "UnsetSelector k i =
     (if 0 \<le> i \<and> i < int MaxSelectors then Some (k[nat i := NullString]) else None)"

definition GetSelector :: "EventKey \<Rightarrow> int \<Rightarrow> string \<times> bool" where
  "GetSelector k i =
     (if i < 0 \<or> int MaxSelectors \<le> i then ('''', False)
      else let v = k ! nat i in (Value v, IsSet v))"

definition event_key_wf :: "EventKey \<Rightarrow> bool" where
  "event_key_wf k \<longleftrightarrow> length k = MaxSelectors \<and> canonical k"

lemma event_key_wf_ops:
  "event_key_wf zeroEventKey"
  "event_key_wf k \<Longrightarrow> SetSelector k i x = Some k' \<Longrightarrow> event_key_wf k'"
  "event_key_wf k \<Longrightarrow> UnsetSelector k i = Some k' \<Longrightarrow> event_key_wf k'"
  by (auto simp: event_key_wf_def zeroEventKey_def SetSelector_def UnsetSelector_def canonical_def
      list_all_iff MaxSelectors_def split: if_splits dest!: set_update_subset_insert [THEN subsetD])

subsection \<open>Delivery\<close>

text \<open>What a consumer goes through when the message is handed to it several times.\<close>

fun consume_all :: "bool list \<Rightarrow> 'm \<Rightarrow> ('k, 'm) ConsumerBase \<Rightarrow> ('k, 'm) ConsumerBase option" where
  "consume_all [] message s = Some s"
| "consume_all (b # bs) message s = (case Consume b s message of None \<Rightarrow> None | Some s' \<Rightarrow> consume_all bs message s')"

lemma deliver_all_consumes:
  "deliver_all pick m hs st = Some st' \<Longrightarrow>
     \<exists>picks. length picks = count (mset hs) h \<and> consume_all picks m (st h) = Some (st' h)"
proof (induction pick m hs st rule: deliver_all.induct)
  case (2 pick m h' hs st)
  then obtain c where c: "Consume (pick 0) (st h') m = Some c"
    and rest: "deliver_all (\<lambda>i. pick (Suc i)) m hs (st(h' := c)) = Some st'"
    by (auto split: option.splits)
  obtain picks where p: "length picks = count (mset hs) h" "consume_all picks m ((st(h' := c)) h) = Some (st' h)"
    using "2.IH" [OF c rest] by blast
  show ?case
  proof (cases "h = h'")
    case True
    then show ?thesis using p c by (intro exI [of _ "pick 0 # picks"]) simp
  qed (use p in auto)
qed simp

lemma deliver_all_total:
  "(\<And>h. h \<in> set hs \<Longrightarrow> ctx_done (st h) \<or> closeChannel (st h) \<or> can_send (st h)) \<Longrightarrow> distinct hs \<Longrightarrow>
     \<exists>st'. deliver_all pick m hs st = Some st'"
proof (induction pick m hs st rule: deliver_all.induct)
  case (1 pick m st)
  then show ?case by simp
next
  case (2 pick m h hs st)
  have "\<exists>c. Consume (pick 0) (st h) m = Some c"
    using "2.prems"(1) [of h] by (auto simp: Consume_def tryNext_def Let_def)
  then obtain c where c: "Consume (pick 0) (st h) m = Some c" by blast
  have "\<exists>st'. deliver_all (\<lambda>i. pick (Suc i)) m hs (st(h := c)) = Some st'"
  proof (rule "2.IH" [OF c])
    fix h'
    assume "h' \<in> set hs"
    with "2.prems" show "ctx_done ((st(h := c)) h') \<or> closeChannel ((st(h := c)) h') \<or> can_send ((st(h := c)) h')"
      by auto
  qed (use "2.prems"(2) in simp)
  with c show ?case by simp
qed

lemma Registry_Find_registered:
  assumes "canonical key" and "Register (registry_trie r) key h = (t, sub)"
  shows "h \<in> set (Registry_Find (with_trie r t) key)"
  using find_after_register [OF assms] by (cases r) auto

lemma Unregister_registered:
  assumes "trie_inv t" and "trie_room t" and "Register t key h = (t1, sub)"
  shows "\<exists>t2. Unregister t1 (Some sub) = (t2, Some h) \<and> trie_content t2 = trie_content t"
  by (rule selector_trie.register_unregister [OF assms])

lemma with_trie_simps [simp]:
  "registry_trie (with_trie r t) = t" "with_trie (with_trie r t) t' = with_trie r t'"
  by (cases r; simp)+

subsection \<open>Properties\<close>

definition example_store :: "nat \<Rightarrow> (nat, nat) ConsumerBase" where
  "example_store h = example_new"

definition example_mq :: "(nat, nat) InmemMq" where
  "example_mq = \<lparr>consumers = LevelRegistry example_trie, store = (\<lambda>_. example_started)\<rparr>"

text \<open>The lookup of a registry, as far as its comment promises it.\<close>

lemma Registry_Find_matching:
  assumes "trie_inv (registry_trie r)"
    and ms_def: "ms = matching (key_prefix (maxSelectors (registry_trie r)) key) (trie_content (registry_trie r))"
  shows "mset (Registry_Find r key) \<subseteq># ms"
    and "r = LevelRegistry t \<or> unset_aligned (key_prefix (maxSelectors (registry_trie r)) key) (trie_content (registry_trie r)) \<Longrightarrow>
      mset (Registry_Find r key) = ms"
proof -
  show "mset (Registry_Find r key) \<subseteq># ms"
    using SelectorTrie_Find_subset [of "registry_trie r" key] LevelTrie_Find_matching [OF assms(1)]
    by (cases r) (simp_all add: ms_def)
  show "mset (Registry_Find r key) = ms"
    if "r = LevelRegistry t \<or> unset_aligned (key_prefix (maxSelectors (registry_trie r)) key) (trie_content (registry_trie r))"
    using that LevelTrie_Find_matching [OF assms(1)] selector_find_aligned [OF assms(1)]
    by (cases r) (auto simp: ms_def)
qed

text \<open>
  C8: a published message is handed to a consumer once for each of its registrations whose path
  subsumes the key of the message, and never more often, so a consumer without such a
  registration is left as it was. With the default selector trie some of these registrations may
  be missed; with a level trie, or when no registered path is unset at a level where the key is
  set, none is.
\<close>

theorem publish_reaches_matching:
  assumes "trie_inv (registry_trie (consumers p))" and "Publish pick p key m = Some p'"
    and "n = count (matching (key_prefix (maxSelectors (registry_trie (consumers p))) key) (trie_content (registry_trie (consumers p)))) h"
  shows "\<exists>picks. consume_all picks m (store p h) = Some (store p' h) \<and> length picks \<le> n \<and>
    (consumers p = LevelRegistry t \<or>
     unset_aligned (key_prefix (maxSelectors (registry_trie (consumers p))) key) (trie_content (registry_trie (consumers p))) \<longrightarrow>
       length picks = n)"
proof -
  obtain st' where "deliver_all pick m (Registry_Find (consumers p) key) (store p) = Some st'" "p' = p\<lparr>store := st'\<rparr>"
    using assms(2) by (auto simp: Publish_def)
  then obtain picks where p: "length picks = count (mset (Registry_Find (consumers p) key)) h"
    "consume_all picks m (store p h) = Some (store p' h)"
    using deliver_all_consumes [of pick m _ "store p" st' h] by fastforce
  then show ?thesis
    using Registry_Find_matching(1) [OF assms(1) refl, where key = key] Registry_Find_matching(2) [OF assms(1) refl, where key = key and t = t] assms(3) by (metis mset_subset_eq_count)
qed

text \<open>
  \<open>Publish\<close> returns (it does not block) when every matching consumer has room in its work
  channel, or is closed or cancelled.
\<close>

theorem publish_returns:
  assumes "distinct (Registry_Find (consumers p) key)"
    and "\<And>h. h \<in> set (Registry_Find (consumers p) key) \<Longrightarrow>
           ctx_done (store p h) \<or> closeChannel (store p h) \<or> can_send (store p h)"
  shows "\<exists>p'. Publish pick p key m = Some p'"
  using deliver_all_total [OF assms(2,1), where pick = pick and m = m] by (auto simp: Publish_def)

lemma example_mq_find:
  "Registry_Find (consumers example_mq) [Opt ''A'', Opt ''B'', Opt ''C''] = [3, 1, 2]"
  unfolding example_mq_def by code_simp

lemma example_can_send: "can_send example_started"
  by (simp add: can_send_def example_defs)

theorem publish_returns_witness:
  "\<exists>p'. Publish (\<lambda>_. False) example_mq [Opt ''A'', Opt ''B'', Opt ''C''] 9 = Some p'"
  by (rule publish_returns) (simp_all add: example_mq_find, simp add: example_mq_def example_can_send)

theorem publish_reaches_matching_witness:
  "\<exists>p'. Publish (\<lambda>_. False) example_mq [Opt ''A'', Opt ''B'', Opt ''C''] 9 = Some p' \<and>
        (\<exists>b. Consume b example_started 9 = Some (store p' 1)) \<and> store p' 4 = example_started"
proof -
  let ?key = "[Opt ''A'', Opt ''B'', Opt ''C'']" and ?t = "registry_trie (consumers example_mq)"
  have c: "consumers example_mq = LevelRegistry example_trie" by (simp add: example_mq_def)
  have i: "trie_inv ?t" using example_trie_inv by (simp add: c)
  have d: "distinct (Registry_Find (consumers example_mq) ?key)" by (simp add: example_mq_find)
  have max: "maxSelectors example_trie = 3" by code_simp
  have m: "matching (key_prefix (maxSelectors ?t) ?key) (trie_content ?t) = {#1, 2, 3#}"
    by (simp add: c example_content max matching_def key_prefix_def)
  obtain p' where p': "Publish (\<lambda>_. False) example_mq ?key 9 = Some p'"
    using deliver_all_total [OF _ d, where st = "store example_mq" and pick = "\<lambda>_. False" and m = 9]
      example_can_send
    by (auto simp: Publish_def example_mq_def)
  obtain picks where "consume_all picks 9 example_started = Some (store p' 1)" "length picks = 1"
    using publish_reaches_matching [OF i p' refl, of 1 example_trie] m c by (auto simp: example_mq_def)
  moreover from this obtain b where "picks = [b]" by (cases picks) auto
  moreover have "store p' 4 = example_started"
    using publish_reaches_matching [OF i p' refl, of 4 example_trie] m c by (auto simp: example_mq_def)
  ultimately show ?thesis using p' by (auto split: option.splits)
qed

text \<open>
  A subscription takes effect: after \<open>Subscribe\<close> with a canonical key the consumer's
  goroutine runs, and a lookup with the same key finds the consumer, whichever trie is used.
\<close>

theorem subscribed_is_found:
  assumes "canonical key" and "Subscribe p cancelled key h = Inr (p', sub)"
  shows "h \<in> set (Registry_Find (consumers p') key) \<and> pc (store p' h) = Selecting"
  using assms Registry_Find_registered [OF assms(1), of "consumers p" h]
  by (auto simp: Subscribe_def Let_def Run_def split: sum.splits prod.splits)

lemma example_subscribe:
  "\<exists>p' sub. Subscribe \<lparr>consumers = NewInmemMq 6 [], store = example_store\<rparr> False [Opt ''A''] 1 = Inr (p', sub)"
  by (auto simp: Subscribe_def example_store_def example_run split: prod.splits)

theorem subscribed_is_found_witness:
  "\<exists>p' sub. Subscribe \<lparr>consumers = NewInmemMq 6 [], store = example_store\<rparr> False [Opt ''A''] 1 = Inr (p', sub) \<and>
      1 \<in> set (Registry_Find (consumers p') [Opt ''A''])"
proof -
  obtain p' sub where s:
    "Subscribe \<lparr>consumers = NewInmemMq 6 [], store = example_store\<rparr> False [Opt ''A''] 1 = Inr (p', sub)"
    using example_subscribe by blast
  have "canonical [Opt ''A'']" by (simp add: canonical_def)
  from s subscribed_is_found [OF this s] show ?thesis by blast
qed

text \<open>
  Unsubscribing undoes the subscription: with the subscription handle the registry holds
  the entries it held before, and the consumer is closed.
\<close>

theorem unsubscribe_undoes_subscribe:
  assumes "trie_inv (registry_trie (consumers p))" and "trie_room (registry_trie (consumers p))"
    and "Subscribe p cancelled key h = Inr (p1, sub)" and "p2 = Unsubscribe p1 (Some sub)"
  shows "trie_content (registry_trie (consumers p2)) = trie_content (registry_trie (consumers p)) \<and>
         closed (store p2 h)"
proof -
  obtain t c where reg: "Register (registry_trie (consumers p)) key h = (t, sub)"
    and p1: "p1 = p\<lparr>store := (store p)(h := c), consumers := with_trie (consumers p) t\<rparr>"
    using assms(3) by (auto simp: Subscribe_def Let_def split: sum.splits prod.splits)
  obtain t2 where "Unregister t (Some sub) = (t2, Some h)"
    and "trie_content t2 = trie_content (registry_trie (consumers p))"
    using Unregister_registered [OF assms(1,2) reg] by blast
  then show ?thesis
    by (simp add: assms(4) Unsubscribe_def p1 Consumer_Close_def Let_def)
qed

theorem unsubscribe_undoes_subscribe_witness:
  "\<exists>p1 sub. Subscribe \<lparr>consumers = NewInmemMq 6 [], store = example_store\<rparr> False [Opt ''A''] 1 = Inr (p1, sub) \<and>
      closed (store (Unsubscribe p1 (Some sub)) 1)"
proof -
  let ?p = "\<lparr>consumers = NewInmemMq 6 [], store = example_store\<rparr>"
  obtain p1 sub where s: "Subscribe ?p False [Opt ''A''] 1 = Inr (p1, sub)"
    using example_subscribe by blast
  have "trie_inv (registry_trie (consumers ?p))" "trie_room (registry_trie (consumers ?p))"
    by (simp_all add: NewInmemMq_def)
  from s unsubscribe_undoes_subscribe [OF this s refl] show ?thesis by blast
qed

end
