(* ===== verification/AccessControl.thy ===== *)
theory AccessControl
  imports Prelude
begin

section \<open>Access control\<close>

text \<open>
  Models \<^verbatim>\<open>pkg/access_control\<close>: access masks (\<^verbatim>\<open>access.go\<close>) as 32-bit words and the rule
  search of \<open>AccessControlBase.CheckAccess\<close> (\<^verbatim>\<open>access_control.go\<close>). The ACL, the resource
  manager, the resource and the subject are Go interfaces with no implementation in the
  repository: \<open>ResourceTags\<close> and \<open>FindRule\<close> are arguments that may fail, the resource and
  the subject are records of what their methods return.
\<close>

subsection \<open>Access masks\<close>

type_synonym AccessType = uint32

definition Read :: AccessType where "Read = 0x1"
definition Create :: AccessType where "Create = 0x2"
definition UpdateReplace :: AccessType where "UpdateReplace = 0x4"
definition UpdatePartial :: AccessType where "UpdatePartial = 0x8"
definition UpdateAny :: AccessType where "UpdateAny = UpdateReplace OR UpdatePartial"
definition Delete :: AccessType where "Delete = 0x10"
definition AllAccess :: AccessType where "AllAccess = 0xFFFFFFFF"

record AccessBase =
  mask :: uint32

definition NewAccess :: "uint32 \<Rightarrow> AccessBase" where
  "NewAccess m = \<lparr>mask = m\<rparr>"

definition Grant :: "AccessBase \<Rightarrow> AccessType \<Rightarrow> AccessBase" where
  "Grant a accessType = a\<lparr>mask := mask a OR accessType\<rparr>"

definition Revoke :: "AccessBase \<Rightarrow> AccessType \<Rightarrow> AccessBase" where
  "Revoke a accessType = a\<lparr>mask := mask a AND NOT accessType\<rparr>"

definition Check :: "AccessType \<Rightarrow> AccessType \<Rightarrow> bool" where
  "Check accessMask accessType \<longleftrightarrow> (accessMask AND accessType) \<noteq> 0"

definition AccessBase_Check :: "AccessBase \<Rightarrow> AccessType \<Rightarrow> bool" where
  "AccessBase_Check a accessType \<longleftrightarrow> (mask a AND accessType) \<noteq> 0"

definition httpMethods2AccessTypes :: "(string, AccessType) gomap" where
  "httpMethods2AccessTypes =
     [(''GET'', Read), (''POST'', Create), (''PUT'', UpdateReplace), (''PATCH'', UpdatePartial),
      (''DELETE'', Delete)]"

definition HttpMethod2Access :: "string \<Rightarrow> AccessType" where
  "HttpMethod2Access method =
     (case map_of httpMethods2AccessTypes method of None \<Rightarrow> 0 | Some at \<Rightarrow> at)"

definition Access2HttpMethod :: "AccessType \<Rightarrow> string" where
  "Access2HttpMethod access =
     (let a = NewAccess access in
      if AccessBase_Check a Read then ''GET''
      else if AccessBase_Check a Create then ''POST''
      else if AccessBase_Check a UpdateReplace then ''PUT''
      else if AccessBase_Check a UpdatePartial then ''PATCH''
      else if AccessBase_Check a Delete then ''DELETE''
      else '''')"

definition HttpContentInQuery :: "AccessType \<Rightarrow> bool" where
  "HttpContentInQuery accessType =
     (let a = NewAccess accessType in AccessBase_Check a Read \<or> AccessBase_Check a Delete)"

lemmas access_defs = Read_def Create_def UpdateReplace_def UpdatePartial_def UpdateAny_def Delete_def

subsection \<open>The rule search\<close>

record Resource =
  Paths :: "string list"
  IsOwner :: bool
  OwnerAccess :: AccessBase

text \<open>
  The first loop of \<open>CheckAccess\<close> asks for the tags of every path, from the most specific to
  the least; the tags of \<open>paths ! i\<close> end up at position \<open>i\<close>.
\<close>

fun collect_tags :: "(string \<Rightarrow> 'e + string list) \<Rightarrow> string list \<Rightarrow> string list list \<Rightarrow> 'e + string list list" where
  "collect_tags ResourceTags [] tags = Inr tags"
| "collect_tags ResourceTags (path # rest) tags =
     (case ResourceTags path of
        Inl err \<Rightarrow> Inl err
      | Inr resourceTags \<Rightarrow> collect_tags ResourceTags rest (resourceTags # tags))"

text \<open>The nested loops over paths, tag levels, tags and roles; a found rule ends them all.\<close>

type_synonym 'role find_rule = "string \<Rightarrow> string \<Rightarrow> 'role \<Rightarrow> string + AccessBase option"

fun role_loop :: "'role find_rule \<Rightarrow> string \<Rightarrow> string \<Rightarrow> 'role list \<Rightarrow> string + AccessBase option" where
  "role_loop FindRule path tag [] = Inr None"
| "role_loop FindRule path tag (role # roles) =
     (case FindRule path tag role of
        Inl err \<Rightarrow> Inl err
      | Inr (Some rule) \<Rightarrow> Inr (Some rule)
      | Inr None \<Rightarrow> role_loop FindRule path tag roles)"

fun tag_loop :: "'role find_rule \<Rightarrow> string \<Rightarrow> 'role list \<Rightarrow> string list \<Rightarrow> string + AccessBase option" where
  "tag_loop FindRule path roles [] = Inr None"
| "tag_loop FindRule path roles (tag # tags) =
     (case role_loop FindRule path tag roles of
        Inl err \<Rightarrow> Inl err
      | Inr (Some rule) \<Rightarrow> Inr (Some rule)
      | Inr None \<Rightarrow> tag_loop FindRule path roles tags)"

fun level_loop ::
    "'role find_rule \<Rightarrow> string \<Rightarrow> 'role list \<Rightarrow> string list list \<Rightarrow> nat \<Rightarrow> string + AccessBase option" where
  "level_loop FindRule path roles tags n =
     (case n of
        0 \<Rightarrow> Inr None
      | Suc j \<Rightarrow>
          (case tag_loop FindRule path roles (tags ! j @ ['''']) of
             Inl err \<Rightarrow> Inl err
           | Inr (Some rule) \<Rightarrow> Inr (Some rule)
           | Inr None \<Rightarrow> level_loop FindRule path roles tags j))"

fun path_loop ::
    "'role find_rule \<Rightarrow> string list \<Rightarrow> 'role list \<Rightarrow> string list list \<Rightarrow> nat \<Rightarrow> string + AccessBase option" where
  "path_loop FindRule paths roles tags n =
     (case n of
        0 \<Rightarrow> Inr None
      | Suc i \<Rightarrow>
          (case level_loop FindRule (paths ! i) roles tags (Suc i) of
             Inl err \<Rightarrow> Inl err
           | Inr (Some rule) \<Rightarrow> Inr (Some rule)
           | Inr None \<Rightarrow> path_loop FindRule paths roles tags i))"

definition CheckAccess ::
    "AccessBase \<Rightarrow> (string \<Rightarrow> string + string list) \<Rightarrow> 'role find_rule \<Rightarrow>
     Resource \<Rightarrow> 'role list \<Rightarrow> AccessType \<Rightarrow> string + bool" where
  "CheckAccess defaultAccess ResourceTags FindRule resource roles accessType =
     (if IsOwner resource \<and> AccessBase_Check (OwnerAccess resource) accessType then Inr True
      else let allow = AccessBase_Check defaultAccess accessType; paths = Paths resource in
        (case collect_tags ResourceTags (rev paths) [] of
           Inl err \<Rightarrow> Inl err
         | Inr tags \<Rightarrow>
             (case path_loop FindRule paths roles tags (length paths) of
                Inl err \<Rightarrow> Inl err
              | Inr (Some rule) \<Rightarrow> Inr (AccessBase_Check rule accessType)
              | Inr None \<Rightarrow> Inr allow)))"

declare level_loop.simps [simp del] path_loop.simps [simp del]

subsection \<open>Specification: the first rule in an order of precedence\<close>

text \<open>
  The lookups in the order of precedence: more specific paths first; for a path the tags of
  the path itself, then the path without a tag, then the same for each parent; for each of
  them the subject's roles in order. The decision is the first rule the ACL has.
\<close>

definition level_lookups :: "string list \<Rightarrow> string list list \<Rightarrow> 'role list \<Rightarrow> nat \<Rightarrow> (string \<times> string \<times> 'role) list" where
  "level_lookups paths tags roles i =
     concat (map (\<lambda>j. concat (map (\<lambda>tag. map (\<lambda>role. (paths ! i, tag, role)) roles) (tags ! j @ [''''])))
       (rev [0..<Suc i]))"

definition rule_lookups :: "string list \<Rightarrow> string list list \<Rightarrow> 'role list \<Rightarrow> (string \<times> string \<times> 'role) list" where
  "rule_lookups paths tags roles = concat (map (level_lookups paths tags roles) (rev [0..<length paths]))"

fun first_rule :: "'role find_rule \<Rightarrow> (string \<times> string \<times> 'role) list \<Rightarrow> string + AccessBase option" where
  "first_rule FindRule [] = Inr None"
| "first_rule FindRule ((path, tag, role) # rest) =
     (case FindRule path tag role of
        Inl err \<Rightarrow> Inl err
      | Inr (Some rule) \<Rightarrow> Inr (Some rule)
      | Inr None \<Rightarrow> first_rule FindRule rest)"

lemma first_rule_append:
  "first_rule f (xs @ ys) = (case first_rule f xs of Inr None \<Rightarrow> first_rule f ys | r \<Rightarrow> r)"
  by (induction f xs rule: first_rule.induct) (auto split: sum.splits option.splits)

lemma role_loop_first: "role_loop f path tag roles = first_rule f (map (\<lambda>role. (path, tag, role)) roles)"
  by (induction roles) (auto split: sum.splits option.splits)

lemma tag_loop_first:
  "tag_loop f path roles tags =
     first_rule f (concat (map (\<lambda>tag. map (\<lambda>role. (path, tag, role)) roles) tags))"
  by (induction tags) (auto simp: first_rule_append role_loop_first split: sum.splits option.splits)

lemma level_loop_first:
  "level_loop f path roles tags n =
     first_rule f (concat (map (\<lambda>j. concat (map (\<lambda>tag. map (\<lambda>role. (path, tag, role)) roles) (tags ! j @ [''''])))
       (rev [0..<n])))"
proof (induction n)
  case 0
  then show ?case by (simp add: level_loop.simps)
next
  case (Suc n)
  then show ?case
    by (subst level_loop.simps)
      (simp add: first_rule_append tag_loop_first split: sum.splits option.splits)
qed

lemma path_loop_first:
  "path_loop f paths roles tags n = first_rule f (concat (map (level_lookups paths tags roles) (rev [0..<n])))"
proof (induction n)
  case 0
  then show ?case by (simp add: path_loop.simps)
next
  case (Suc n)
  have "level_loop f (paths ! n) roles tags (Suc n) = first_rule f (level_lookups paths tags roles n)"
    by (simp only: level_loop_first level_lookups_def)
  with Suc show ?case
    by (subst path_loop.simps) (auto simp: first_rule_append split: sum.splits option.splits)
qed

lemma collect_tags_ok:
  "(\<And>p. p \<in> set ps \<Longrightarrow> ResourceTags p = Inr (tag_of p)) \<Longrightarrow>
     collect_tags ResourceTags ps acc = Inr (map tag_of (rev ps) @ acc)"
  by (induction ps arbitrary: acc) auto

lemma collect_tags_err:
  "collect_tags ResourceTags ps acc = Inl e \<Longrightarrow> \<exists>p \<in> set ps. ResourceTags p = Inl e"
  by (induction ResourceTags ps acc rule: collect_tags.induct) (auto split: sum.splits)

subsection \<open>Properties\<close>

lemma and_neq_0_iff: "(a AND b) \<noteq> 0 \<longleftrightarrow> (\<exists>n. bit a n \<and> bit b n)" for a b :: "'a::len word"
  by (auto simp: bit_eq_iff bit_and_iff dest: bit_imp_le_length)

lemma bit_not_word: "bit (NOT a) n \<longleftrightarrow> n < LENGTH('a) \<and> \<not> bit a n" for a :: "'a::len word"
  by (auto simp: bit_simps)

text \<open>
  A grant adds exactly the bits of the granted access and a revoke removes exactly them:
  a check after \<open>Grant\<close> succeeds if it did before or if the two accesses overlap, a check
  after \<open>Revoke\<close> is the check of the remaining bits, so the revoked access is refused. A check
  asks for any of the requested bits: the combined \<open>Update\<close> is allowed by a part of it.
\<close>

theorem grant_revoke_check:
  "AccessBase_Check (Grant a t) u = (AccessBase_Check a u \<or> Check t u) \<and>
   AccessBase_Check (Revoke a t) u = AccessBase_Check a (u AND NOT t) \<and>
   \<not> AccessBase_Check (Revoke a t) t \<and>
   AccessBase_Check (Grant (NewAccess 0) UpdatePartial) UpdateAny"
proof (intro conjI)
  show "AccessBase_Check (Grant a t) u = (AccessBase_Check a u \<or> Check t u)"
    unfolding AccessBase_Check_def Grant_def Check_def and_neq_0_iff
    by (auto simp: bit_or_iff)
  show "AccessBase_Check (Revoke a t) u = AccessBase_Check a (u AND NOT t)"
    unfolding AccessBase_Check_def Revoke_def and_neq_0_iff
    by (auto simp: bit_and_iff)
  show "\<not> AccessBase_Check (Revoke a t) t"
    unfolding AccessBase_Check_def Revoke_def and_neq_0_iff
    by (auto simp: bit_and_iff bit_not_word)
  show "AccessBase_Check (Grant (NewAccess 0) UpdatePartial) UpdateAny"
    by (simp add: AccessBase_Check_def Grant_def NewAccess_def access_defs)
qed

text \<open>
  The HTTP method of an access and the access of an HTTP method are inverse to each other on
  the five methods the table has; a method outside the table maps to an access that no
  check grants, whatever the mask.
\<close>

theorem http_method_roundtrip:
  "map (\<lambda>m. Access2HttpMethod (HttpMethod2Access m)) [''GET'', ''POST'', ''PUT'', ''PATCH'', ''DELETE''] =
     [''GET'', ''POST'', ''PUT'', ''PATCH'', ''DELETE''] \<and>
   map (\<lambda>a. HttpMethod2Access (Access2HttpMethod a)) [Read, Create, UpdateReplace, UpdatePartial, Delete] =
     [Read, Create, UpdateReplace, UpdatePartial, Delete] \<and>
   (\<forall>m. m \<in> fst ` set httpMethods2AccessTypes \<or>
      \<not> AccessBase_Check a (HttpMethod2Access m) \<and> Access2HttpMethod (HttpMethod2Access m) = '''')"
proof (intro conjI allI)
  fix m
  show "m \<in> fst ` set httpMethods2AccessTypes \<or>
      \<not> AccessBase_Check a (HttpMethod2Access m) \<and> Access2HttpMethod (HttpMethod2Access m) = ''''"
    by (cases "map_of httpMethods2AccessTypes m")
      (force simp: HttpMethod2Access_def AccessBase_Check_def Access2HttpMethod_def NewAccess_def
        dest: map_of_SomeD)+
qed code_simp+

text \<open>
  C10: unless the owner shortcut applies, the decision of \<open>CheckAccess\<close> is the access of the first
  rule the ACL has in the order of precedence: longer paths before shorter ones, for a
  path the tags of the nearer resource before those of its parents and before the untagged lookup,
  and the roles of the subject in their order; without a rule it is the default access, and
  a failing rule lookup before the first rule is the error of the check.
\<close>

theorem check_access_first_rule:
  assumes "\<And>p. p \<in> set (Paths resource) \<Longrightarrow> ResourceTags p = Inr (tag_of p)"
    and "\<not> (IsOwner resource \<and> AccessBase_Check (OwnerAccess resource) accessType)"
  shows "CheckAccess defaultAccess ResourceTags FindRule resource roles accessType =
    (case first_rule FindRule (rule_lookups (Paths resource) (map tag_of (Paths resource)) roles) of
       Inl err \<Rightarrow> Inl err
     | Inr None \<Rightarrow> Inr (AccessBase_Check defaultAccess accessType)
     | Inr (Some rule) \<Rightarrow> Inr (AccessBase_Check rule accessType))"
proof -
  have "collect_tags ResourceTags (rev (Paths resource)) [] = Inr (map tag_of (Paths resource))"
    using collect_tags_ok [of "rev (Paths resource)" ResourceTags tag_of "[]"] assms(1) by simp
  with assms(2) show ?thesis
    by (auto simp: CheckAccess_def Let_def path_loop_first rule_lookups_def
        split: sum.splits option.splits)
qed

text \<open>A resource \<open>/a\<close> below \<open>/\<close>; the ACL denies by the tag of the parent and allows by role.\<close>

definition example_resource :: Resource where
  "example_resource = \<lparr>Paths = [''/'', ''/a''], IsOwner = False, OwnerAccess = NewAccess 0\<rparr>"

definition example_tags :: "string \<Rightarrow> string list" where
  "example_tags p = (if p = ''/'' then [''root''] else [''leaf''])"

definition example_acl :: "string find_rule" where
  "example_acl path tag role =
     Inr (if path = ''/a'' \<and> tag = ''root'' \<and> role = ''guest'' then Some (NewAccess Read)
          else if path = ''/'' then Some (NewAccess AllAccess) else None)"

theorem check_access_first_rule_witness:
  "CheckAccess (NewAccess 0) (\<lambda>p. Inr (example_tags p)) example_acl example_resource [''admin'', ''guest''] Delete
     = Inr False \<and>
   CheckAccess (NewAccess 0) (\<lambda>p. Inr (example_tags p)) example_acl example_resource [''admin''] Delete = Inr True"
proof -
  have own: "\<not> (IsOwner example_resource \<and> AccessBase_Check (OwnerAccess example_resource) Delete)"
    by (simp add: example_resource_def)
  have "first_rule example_acl (rule_lookups (Paths example_resource)
      (map example_tags (Paths example_resource)) [''admin'', ''guest'']) = Inr (Some (NewAccess Read))"
    "first_rule example_acl (rule_lookups (Paths example_resource)
      (map example_tags (Paths example_resource)) [''admin'']) = Inr (Some (NewAccess AllAccess))"
    by code_simp+
  then show ?thesis
    using check_access_first_rule [of example_resource "\<lambda>p. Inr (example_tags p)" example_tags Delete
        "NewAccess 0" example_acl "[''admin'', ''guest'']", OF refl own]
      check_access_first_rule [of example_resource "\<lambda>p. Inr (example_tags p)" example_tags Delete
        "NewAccess 0" example_acl "[''admin'']", OF refl own]
    by (simp add: AccessBase_Check_def NewAccess_def access_defs AllAccess_def)
qed

end
