(* ===== verification/Caches.thy ===== *)
theory Caches
  imports Prelude
begin

section \<open>Caches and locks\<close>

text \<open>
  Models \<^verbatim>\<open>pkg/cache/cache.go\<close> (the serialising cache), \<^verbatim>\<open>pkg/cache/global_lock.go\<close> and
  \<^verbatim>\<open>pkg/cache/inmem_cache\<close> (the in-memory backend and its locker). The backend calls the
  third-party package ttlcache: its operations are the parameter record \<open>ttlcache\<close>, what the
  code relies on are the laws of the locale \<open>ttl_cache\<close>. The locale \<open>cache\<close> is the contract the
  authorization handlers use; it is proved of the in-memory cache and of the serialising cache
  over any backend that satisfies it. Times and durations are nanoseconds; a duration computed
  from seconds wraps around at 64 bits as in Go.
\<close>

subsection \<open>The interface of a cache\<close>

text \<open>
  A lookup that fails reports whether the key was found before the failure, as the Go
  result \<open>(bool, error)\<close> does.
\<close>

datatype 'v cache_reply = Miss | Hit 'v | Failed bool string

record ('c, 'v) Cache =
  Cache_Set :: "int \<Rightarrow> string \<Rightarrow> 'v \<Rightarrow> int list \<Rightarrow> 'c \<Rightarrow> string option \<times> 'c"
  Cache_Get :: "int \<Rightarrow> string \<Rightarrow> 'c \<Rightarrow> 'v cache_reply"
  Cache_Unset :: "int \<Rightarrow> string \<Rightarrow> 'c \<Rightarrow> string option \<times> 'c"
  Cache_GetUnset :: "int \<Rightarrow> string \<Rightarrow> 'c \<Rightarrow> 'v cache_reply \<times> 'c"
  Cache_Clear :: "int \<Rightarrow> 'c \<Rightarrow> string option \<times> 'c"

definition Second :: int where "Second = 1000000000"

subsection \<open>The in-memory cache\<close>

text \<open>
  The operations of ttlcache the code calls. An item is a value with its \<open>IsExpired\<close> at
  the time of the call; \<open>GetOrSet\<close> tells whether the key was there.
\<close>

record ('c, 'v) ttlcache =
  tc_Set :: "int \<Rightarrow> string \<Rightarrow> 'v \<Rightarrow> int \<Rightarrow> 'c \<Rightarrow> 'c"
  tc_Get :: "int \<Rightarrow> string \<Rightarrow> 'c \<Rightarrow> ('v \<times> bool) option"
  tc_GetAndDelete :: "int \<Rightarrow> string \<Rightarrow> 'c \<Rightarrow> ('v \<times> bool) option \<times> 'c"
  tc_GetOrSet :: "int \<Rightarrow> string \<Rightarrow> 'v \<Rightarrow> int \<Rightarrow> 'c \<Rightarrow> bool \<times> 'c"
  tc_Delete :: "string \<Rightarrow> 'c \<Rightarrow> 'c"
  tc_DeleteAll :: "'c \<Rightarrow> 'c"

definition NoTTL :: int where "NoTTL = - 1"

definition InmemCache_Set ::
    "('c, 'v) ttlcache \<Rightarrow> int \<Rightarrow> string \<Rightarrow> 'v \<Rightarrow> int list \<Rightarrow> 'c \<Rightarrow> string option \<times> 'c" where
  "InmemCache_Set tc now key v ttlSeconds c =
     (let ttl = (case ttlSeconds of [] \<Rightarrow> NoTTL | s # _ \<Rightarrow> i64 (Second * s))
      in (None, tc_Set tc now key v ttl c))"

definition InmemCache_Get :: "('c, 'v) ttlcache \<Rightarrow> int \<Rightarrow> string \<Rightarrow> 'c \<Rightarrow> 'v cache_reply" where
  "InmemCache_Get tc now key c =
     (case tc_Get tc now key c of
        None \<Rightarrow> Miss
      | Some (v, expired) \<Rightarrow> if expired then Miss else Hit v)"

definition InmemCache_GetUnset :: "('c, 'v) ttlcache \<Rightarrow> int \<Rightarrow> string \<Rightarrow> 'c \<Rightarrow> 'v cache_reply \<times> 'c" where
  "InmemCache_GetUnset tc now key c =
     (case tc_GetAndDelete tc now key c of
        (None, c') \<Rightarrow> (Miss, c')
      | (Some (v, expired), c') \<Rightarrow> (if expired then Miss else Hit v, c'))"

definition InmemCache_Unset :: "('c, 'v) ttlcache \<Rightarrow> int \<Rightarrow> string \<Rightarrow> 'c \<Rightarrow> string option \<times> 'c" where
  "InmemCache_Unset tc now key c = (None, tc_Delete tc key c)"

definition InmemCache_Clear :: "('c, 'v) ttlcache \<Rightarrow> int \<Rightarrow> 'c \<Rightarrow> string option \<times> 'c" where
  "InmemCache_Clear tc now c = (None, tc_DeleteAll tc c)"

definition InmemCache :: "('c, 'v) ttlcache \<Rightarrow> ('c, 'v) Cache" where
  "InmemCache tc = \<lparr>Cache_Set = InmemCache_Set tc, Cache_Get = InmemCache_Get tc,
     Cache_Unset = InmemCache_Unset tc, Cache_GetUnset = InmemCache_GetUnset tc,
     Cache_Clear = InmemCache_Clear tc\<rparr>"

lemma InmemCache_sel [simp]:
  "Cache_Set (InmemCache tc) = InmemCache_Set tc" "Cache_Get (InmemCache tc) = InmemCache_Get tc"
  "Cache_Unset (InmemCache tc) = InmemCache_Unset tc"
  "Cache_GetUnset (InmemCache tc) = InmemCache_GetUnset tc"
  "Cache_Clear (InmemCache tc) = InmemCache_Clear tc"
  by (simp_all add: InmemCache_def)

subsection \<open>The serialising cache\<close>

text \<open>
  \<open>SerializedObjectCache\<close> keeps objects as encoded strings in a string cache; the serializer
  and the string coding are its fields, here the record \<open>codec\<close>.
\<close>

record ('o, 'b) codec =
  SerializeMessage :: "'o \<Rightarrow> string + 'b"
  ParseMessage :: "'b \<Rightarrow> string + 'o"
  Encode :: "'b \<Rightarrow> string"
  Decode :: "string \<Rightarrow> string + 'b"

definition SerializedObjectCache_Set ::
    "('o, 'b) codec \<Rightarrow> ('c, string) Cache \<Rightarrow> int \<Rightarrow> string \<Rightarrow> 'o \<Rightarrow> int list \<Rightarrow> 'c \<Rightarrow> string option \<times> 'c" where
  "SerializedObjectCache_Set cd impl now key v ttlSeconds c =
     (case SerializeMessage cd v of
        Inl err \<Rightarrow> (Some err, c)
      | Inr b \<Rightarrow> Cache_Set impl now key (Encode cd b) ttlSeconds c)"

text \<open>What \<open>Get\<close> and \<open>GetUnset\<close> do with the reply of the backend.\<close>

definition decode_reply :: "('o, 'b) codec \<Rightarrow> string cache_reply \<Rightarrow> 'o cache_reply" where
  "decode_reply cd r =
     (case r of
        Miss \<Rightarrow> Miss
      | Failed found err \<Rightarrow> Failed False err
      | Hit val \<Rightarrow>
          (case Decode cd val of
             Inl err \<Rightarrow> Failed True err
           | Inr b \<Rightarrow>
               (case ParseMessage cd b of
                  Inl err \<Rightarrow> Failed True err
                | Inr obj \<Rightarrow> Hit obj)))"

definition SerializedObjectCache_Get ::
    "('o, 'b) codec \<Rightarrow> ('c, string) Cache \<Rightarrow> int \<Rightarrow> string \<Rightarrow> 'c \<Rightarrow> 'o cache_reply" where
  "SerializedObjectCache_Get cd impl now key c = decode_reply cd (Cache_Get impl now key c)"

definition SerializedObjectCache_GetUnset ::
    "('o, 'b) codec \<Rightarrow> ('c, string) Cache \<Rightarrow> int \<Rightarrow> string \<Rightarrow> 'c \<Rightarrow> 'o cache_reply \<times> 'c" where
  "SerializedObjectCache_GetUnset cd impl now key c =
     (case Cache_GetUnset impl now key c of (r, c') \<Rightarrow> (decode_reply cd r, c'))"

definition SerializedObjectCache :: "('o, 'b) codec \<Rightarrow> ('c, string) Cache \<Rightarrow> ('c, 'o) Cache" where
  "SerializedObjectCache cd impl =
     \<lparr>Cache_Set = SerializedObjectCache_Set cd impl, Cache_Get = SerializedObjectCache_Get cd impl,
      Cache_Unset = Cache_Unset impl, Cache_GetUnset = SerializedObjectCache_GetUnset cd impl,
      Cache_Clear = Cache_Clear impl\<rparr>"

lemma SerializedObjectCache_sel [simp]:
  "Cache_Set (SerializedObjectCache cd impl) = SerializedObjectCache_Set cd impl"
  "Cache_Get (SerializedObjectCache cd impl) = SerializedObjectCache_Get cd impl"
  "Cache_Unset (SerializedObjectCache cd impl) = Cache_Unset impl"
  "Cache_GetUnset (SerializedObjectCache cd impl) = SerializedObjectCache_GetUnset cd impl"
  "Cache_Clear (SerializedObjectCache cd impl) = Cache_Clear impl"
  by (simp_all add: SerializedObjectCache_def)

subsection \<open>Locks\<close>

record InmemLock =
  lock_key :: string
  notObtained :: bool

definition InmemLock_Release :: "('c, unit) ttlcache \<Rightarrow> InmemLock \<Rightarrow> 'c \<Rightarrow> string option \<times> 'c" where
  "InmemLock_Release tc l c = (None, tc_Delete tc (lock_key l) c)"

definition InmemLocker_Lock ::
    "('c, unit) ttlcache \<Rightarrow> int \<Rightarrow> string \<Rightarrow> int \<Rightarrow> 'c \<Rightarrow> (string + InmemLock) \<times> 'c" where
  "InmemLocker_Lock tc now key ttlSeconds c =
     (let ttl = (if ttlSeconds \<noteq> 0 then i64 (Second * ttlSeconds) else NoTTL)
      in case tc_GetOrSet tc now key () ttl c of
           (retrieved, c') \<Rightarrow> (Inr \<lparr>lock_key = key, notObtained = retrieved\<rparr>, c'))"

text \<open>\<open>LockObject\<close> returns no lock when another holder has the key.\<close>

definition LockObject ::
    "(string \<Rightarrow> int \<Rightarrow> 'c \<Rightarrow> (string + InmemLock) \<times> 'c) \<Rightarrow> string \<Rightarrow> string \<Rightarrow> int \<Rightarrow> 'c \<Rightarrow>
     (string + InmemLock option) \<times> 'c" where
  "LockObject locker keyPrefix objectId ttl c =
     (let key = keyPrefix @ ''_'' @ objectId
      in case locker key (i64 (Second * ttl)) c of
           (Inl err, c') \<Rightarrow> (Inl err, c')
         | (Inr l, c') \<Rightarrow> (Inr (if notObtained l then None else Some l), c'))"

subsection \<open>Contracts\<close>

text \<open>
  The documented behaviour of ttlcache: \<open>live now c k\<close> is the value that is not yet expired.
  An item set with a positive lifetime lives until the lifetime has passed, with \<open>NoTTL\<close>
  forever; a key set only when absent keeps the old item otherwise.
\<close>

locale ttl_cache =
  fixes tc :: "('c, 'v) ttlcache"
    and live :: "int \<Rightarrow> 'c \<Rightarrow> string \<Rightarrow> 'v option"
  assumes get: "(case tc_Get tc now k c of None \<Rightarrow> None | Some (v, e) \<Rightarrow> if e then None else Some v) = live now c k"
    and live_set: "now \<le> t \<Longrightarrow> 0 < ttl \<Longrightarrow>
      live t (tc_Set tc now k v ttl c) = (live t c)(k := if t \<le> now + ttl then Some v else None)"
    and live_set_forever: "now \<le> t \<Longrightarrow> live t (tc_Set tc now k v NoTTL c) = (live t c)(k \<mapsto> v)"
    and live_delete: "live t (tc_Delete tc k c) = (live t c)(k := None)"
    and live_delete_all: "live t (tc_DeleteAll tc c) = (\<lambda>_. None)"
    and get_and_delete: "now \<le> t \<Longrightarrow> tc_GetAndDelete tc now k c = (r, c') \<Longrightarrow>
      (case r of None \<Rightarrow> None | Some (v, e) \<Rightarrow> if e then None else Some v) = live now c k \<and>
      live t c' = (live t c)(k := None)"
    and get_or_set_old: "now \<le> t \<Longrightarrow> live now c k \<noteq> None \<Longrightarrow>
      fst (tc_GetOrSet tc now k v ttl c) \<and> live t (snd (tc_GetOrSet tc now k v ttl c)) = live t c"
    and get_or_set_new: "live now c k = None \<Longrightarrow> tc_GetOrSet tc now k v ttl c = (False, tc_Set tc now k v ttl c)"

text \<open>What a client of a cache relies on, on the states its operations produce (\<open>ok\<close>).\<close>

locale cache =
  fixes K :: "('c, 'v) Cache"
    and live :: "int \<Rightarrow> 'c \<Rightarrow> string \<Rightarrow> 'v option"
    and ok :: "'c \<Rightarrow> bool"
  assumes cache_get: "ok c \<Longrightarrow> Cache_Get K now k c = (case live now c k of None \<Rightarrow> Miss | Some v \<Rightarrow> Hit v)"
    and cache_set: "ok c \<Longrightarrow> now \<le> t \<Longrightarrow> 0 < ttl \<Longrightarrow> in64 (Second * ttl) \<Longrightarrow>
      Cache_Set K now k v [ttl] c = (e, c') \<Longrightarrow>
      e = None \<and> ok c' \<and> live t c' = (live t c)(k := if t \<le> now + Second * ttl then Some v else None)"
    and cache_unset: "ok c \<Longrightarrow> Cache_Unset K now k c = (e, c') \<Longrightarrow>
      e = None \<and> ok c' \<and> live t c' = (live t c)(k := None)"
    and cache_get_unset: "ok c \<Longrightarrow> now \<le> t \<Longrightarrow> Cache_GetUnset K now k c = (r, c') \<Longrightarrow>
      r = (case live now c k of None \<Rightarrow> Miss | Some v \<Rightarrow> Hit v) \<and> ok c' \<and> live t c' = (live t c)(k := None)"
begin

lemma set_then_get:
  assumes "ok c" and "now \<le> t" and "t \<le> now + Second * ttl" and "0 < ttl" and "in64 (Second * ttl)"
  shows "Cache_Get K t k (snd (Cache_Set K now k v [ttl] c)) = Hit v"
proof -
  obtain e c' where s: "Cache_Set K now k v [ttl] c = (e, c')"
    by (cases "Cache_Set K now k v [ttl] c")
  from cache_set [OF assms(1,2,4,5) s] assms(3) show ?thesis
    by (simp add: s cache_get)
qed

lemma unset_then_get:
  assumes "ok c"
  shows "Cache_Get K t k (snd (Cache_Unset K now k c)) = Miss"
proof -
  obtain e c' where s: "Cache_Unset K now k c = (e, c')"
    by (cases "Cache_Unset K now k c")
  from cache_unset [OF assms s, of t] show ?thesis
    by (simp add: s cache_get)
qed

lemma get_unset_once:
  assumes "ok c" and "now \<le> t"
  shows "Cache_Get K t k (snd (Cache_GetUnset K now k c)) = Miss"
proof -
  obtain r c' where s: "Cache_GetUnset K now k c = (r, c')"
    by (cases "Cache_GetUnset K now k c")
  from cache_get_unset [OF assms s] show ?thesis
    by (simp add: s cache_get)
qed

end

text \<open>The in-memory cache satisfies the contract over every ttlcache.\<close>

sublocale ttl_cache \<subseteq> inmem: cache "InmemCache tc" live "\<lambda>_. True"
proof
  fix c now k
  show "Cache_Get (InmemCache tc) now k c = (case live now c k of None \<Rightarrow> Miss | Some v \<Rightarrow> Hit v)"
    by (simp add: InmemCache_Get_def get [symmetric] split: option.splits)
next
  fix c :: 'c and now t ttl :: int and k v e c'
  assume "now \<le> t" "0 < ttl" "in64 (Second * ttl)" "Cache_Set (InmemCache tc) now k v [ttl] c = (e, c')"
  then show "e = None \<and> True \<and>
      live t c' = (live t c)(k := if t \<le> now + Second * ttl then Some v else None)"
    using live_set [of now t "Second * ttl" k v c]
    by (auto simp: InmemCache_Set_def i64_id Second_def)
next
  fix c now k e c' t
  assume "Cache_Unset (InmemCache tc) now k c = (e, c')"
  then show "e = None \<and> True \<and> live t c' = (live t c)(k := None)"
    by (auto simp: InmemCache_Unset_def live_delete)
next
  fix c now t k r c'
  assume t: "now \<le> t" and "Cache_GetUnset (InmemCache tc) now k c = (r, c')"
  then obtain i where i: "tc_GetAndDelete tc now k c = (i, c')"
    and r: "r = (case i of None \<Rightarrow> Miss | Some (v, e) \<Rightarrow> if e then Miss else Hit v)"
    by (auto simp: InmemCache_GetUnset_def split: prod.splits option.splits)
  from get_and_delete [OF t i] r
  show "r = (case live now c k of None \<Rightarrow> Miss | Some v \<Rightarrow> Hit v) \<and> True \<and> live t c' = (live t c)(k := None)"
    by (cases "live now c k") (auto split: option.splits if_splits)
qed
subsection \<open>A table that satisfies the contract of ttlcache\<close>

text \<open>
  A table of values with their deadlines. It shows that the laws of \<open>ttl_cache\<close> can hold, and
  it is the instance on which witnesses of properties over a cache are computed.
\<close>

type_synonym 'v ttl_table = "(string, 'v \<times> int option) gomap"

definition tt_expired :: "int \<Rightarrow> int option \<Rightarrow> bool" where
  "tt_expired now deadline = (case deadline of None \<Rightarrow> False | Some d \<Rightarrow> d < now)"

definition tt_live :: "int \<Rightarrow> 'v ttl_table \<Rightarrow> string \<Rightarrow> 'v option" where
  "tt_live now c k =
     (case map_of c k of None \<Rightarrow> None | Some (v, d) \<Rightarrow> if tt_expired now d then None else Some v)"

definition tt_set :: "int \<Rightarrow> string \<Rightarrow> 'v \<Rightarrow> int \<Rightarrow> 'v ttl_table \<Rightarrow> 'v ttl_table" where
  "tt_set now k v ttl c = AList.update k (v, if ttl \<le> 0 then None else Some (now + ttl)) c"

definition tt_item :: "int \<Rightarrow> 'v ttl_table \<Rightarrow> string \<Rightarrow> ('v \<times> bool) option" where
  "tt_item now c k = map_option (\<lambda>(v, d). (v, tt_expired now d)) (map_of c k)"

definition ttl_table_ops :: "('v ttl_table, 'v) ttlcache" where
  "ttl_table_ops = \<lparr>
     tc_Set = tt_set,
     tc_Get = (\<lambda>now k c. tt_item now c k),
     tc_GetAndDelete = (\<lambda>now k c. (tt_item now c k, AList.delete k c)),
     tc_GetOrSet = (\<lambda>now k v ttl c.
       case tt_live now c k of None \<Rightarrow> (False, tt_set now k v ttl c) | Some _ \<Rightarrow> (True, c)),
     tc_Delete = AList.delete,
     tc_DeleteAll = (\<lambda>c. [])\<rparr>"

lemma tt_live_set:
  "now \<le> t \<Longrightarrow> tt_live t (tt_set now k v ttl c) =
     (tt_live t c)(k := if ttl \<le> 0 \<or> t \<le> now + ttl then Some v else None)"
  by (rule ext) (auto simp: tt_live_def tt_set_def tt_expired_def gomap)

lemma tt_live_delete: "tt_live t (AList.delete k c) = (tt_live t c)(k := None)"
  by (rule ext) (auto simp: tt_live_def gomap)

lemma tt_item_live:
  "(case tt_item now c k of None \<Rightarrow> None | Some (v, e) \<Rightarrow> if e then None else Some v) = tt_live now c k"
  by (simp add: tt_item_def tt_live_def split: option.splits prod.splits)

interpretation tt: ttl_cache ttl_table_ops tt_live
proof
  show "(case tc_Get ttl_table_ops now k c of None \<Rightarrow> None | Some (v, e) \<Rightarrow> if e then None else Some v)
      = tt_live now c k" for now k and c :: "'v ttl_table"
    by (simp add: ttl_table_ops_def tt_item_live)
  show "now \<le> t \<Longrightarrow> 0 < ttl \<Longrightarrow> tt_live t (tc_Set ttl_table_ops now k v ttl c) =
      (tt_live t c)(k := if t \<le> now + ttl then Some v else None)" for now t ttl k v and c :: "'v ttl_table"
    by (simp add: ttl_table_ops_def tt_live_set)
  show "now \<le> t \<Longrightarrow> tt_live t (tc_Set ttl_table_ops now k v NoTTL c) = (tt_live t c)(k \<mapsto> v)"
    for now t k v and c :: "'v ttl_table"
    by (simp add: ttl_table_ops_def tt_live_set NoTTL_def)
  show "tt_live t (tc_Delete ttl_table_ops k c) = (tt_live t c)(k := None)" for t k and c :: "'v ttl_table"
    by (simp add: ttl_table_ops_def tt_live_delete)
  show "tt_live t (tc_DeleteAll ttl_table_ops c) = (\<lambda>_. None)" for t and c :: "'v ttl_table"
    by (simp add: ttl_table_ops_def tt_live_def fun_eq_iff)
  show "now \<le> t \<Longrightarrow> tc_GetAndDelete ttl_table_ops now k c = (r, c') \<Longrightarrow>
      (case r of None \<Rightarrow> None | Some (v, e) \<Rightarrow> if e then None else Some v) = tt_live now c k \<and>
      tt_live t c' = (tt_live t c)(k := None)" for now t k r and c c' :: "'v ttl_table"
    by (auto simp: ttl_table_ops_def tt_item_live tt_live_delete)
  show "now \<le> t \<Longrightarrow> tt_live now c k \<noteq> None \<Longrightarrow> fst (tc_GetOrSet ttl_table_ops now k v ttl c) \<and>
      tt_live t (snd (tc_GetOrSet ttl_table_ops now k v ttl c)) = tt_live t c"
    for now t k v ttl and c :: "'v ttl_table"
    by (auto simp: ttl_table_ops_def)
  show "tt_live now c k = None \<Longrightarrow>
      tc_GetOrSet ttl_table_ops now k v ttl c = (False, tc_Set ttl_table_ops now k v ttl c)"
    for now k v ttl and c :: "'v ttl_table"
    by (simp add: ttl_table_ops_def)
qed

subsection \<open>The serialising cache reads back what it stored\<close>

definition codec_roundtrip :: "('o, 'b) codec \<Rightarrow> bool" where
  "codec_roundtrip cd \<longleftrightarrow>
     (\<forall>v. \<exists>b. SerializeMessage cd v = Inr b \<and> Decode cd (Encode cd b) = Inr b \<and> ParseMessage cd b = Inr v)"

lemma serialize_then_decode:
  assumes "codec_roundtrip cd"
  obtains b where "SerializeMessage cd v = Inr b" and "decode_reply cd (Hit (Encode cd b)) = Hit v"
  using assms by (force simp: codec_roundtrip_def decode_reply_def)

text \<open>
  Over a string cache that satisfies the cache contract and with a serializer and string coding
  that read back what they write, an object set with a lifetime is found with its value until
  the lifetime has passed, \<open>GetUnset\<close> returns it the same way and the next lookup misses, and so
  does a lookup after \<open>Unset\<close>.
\<close>

theorem serialized_cache_roundtrip:
  assumes "cache impl live ok" and "codec_roundtrip cd" and "ok c"
    and "0 < ttl" and "in64 (Second * ttl)" and "now \<le> t" and "t \<le> now + Second * ttl" and "t \<le> u"
    and "snd (Cache_Set (SerializedObjectCache cd impl) now k v [ttl] c) = c'"
  shows "Cache_Get (SerializedObjectCache cd impl) t k c' = Hit v \<and>
    fst (Cache_GetUnset (SerializedObjectCache cd impl) t k c') = Hit v \<and>
    Cache_Get (SerializedObjectCache cd impl) u k (snd (Cache_GetUnset (SerializedObjectCache cd impl) t k c')) = Miss \<and>
    Cache_Get (SerializedObjectCache cd impl) u k (snd (Cache_Unset (SerializedObjectCache cd impl) t k c')) = Miss"
proof -
  note cache = assms(1)
  obtain b where b: "SerializeMessage cd v = Inr b" "decode_reply cd (Hit (Encode cd b)) = Hit v"
    using serialize_then_decode [OF assms(2)] by metis
  obtain e where s: "Cache_Set impl now k (Encode cd b) [ttl] c = (e, c')"
    using assms(9) b by (cases "Cache_Set impl now k (Encode cd b) [ttl] c") (simp add: SerializedObjectCache_Set_def)
  have ok: "ok c'" and live: "live t c' k = Some (Encode cd b)"
    using cache.cache_set [OF cache assms(3,6,4,5) s] assms(7) by simp_all
  obtain r c'' where u: "Cache_GetUnset impl t k c' = (r, c'')"
    by (cases "Cache_GetUnset impl t k c'")
  have "r = Hit (Encode cd b)"
    using cache.cache_get_unset [OF cache ok order.refl u] live by simp
  moreover have "Cache_Get impl u k c'' = Miss"
    using cache.get_unset_once [OF cache ok assms(8), of k] u by simp
  moreover have "Cache_Get impl u k (snd (Cache_Unset impl t k c')) = Miss"
    by (rule cache.unset_then_get [OF cache ok])
  moreover have "Cache_Get impl t k c' = Hit (Encode cd b)"
    using cache.cache_get [OF cache ok] live by simp
  ultimately show ?thesis
    using b(2) by (simp add: SerializedObjectCache_Get_def SerializedObjectCache_GetUnset_def u)
      (simp add: decode_reply_def)
qed

definition plain_codec :: "(string, string) codec" where
  "plain_codec = \<lparr>SerializeMessage = Inr, ParseMessage = Inr, Encode = (\<lambda>s. CHR ''~'' # s),
     Decode = (\<lambda>s. case s of [] \<Rightarrow> Inl ''empty'' | _ # r \<Rightarrow> Inr r)\<rparr>"

theorem serialized_cache_roundtrip_witness:
  "Cache_Get (SerializedObjectCache plain_codec (InmemCache ttl_table_ops)) (Second * 5) ''k''
     (snd (Cache_Set (SerializedObjectCache plain_codec (InmemCache ttl_table_ops)) 0 ''k'' ''value'' [10] [])) =
   Hit ''value''"
proof -
  have "codec_roundtrip plain_codec"
    by (simp add: codec_roundtrip_def plain_codec_def)
  from serialized_cache_roundtrip [OF tt.inmem.cache_axioms this _ _ _ _ _ _ refl, of 10 0 "Second * 5" "Second * 5"]
  show ?thesis by (simp add: Second_def in64_def)
qed

subsection \<open>Exclusive locks\<close>

definition lock_lifetime :: "int \<Rightarrow> int" where
  "lock_lifetime ttl = (if i64 (Second * ttl) \<noteq> 0 then i64 (Second * i64 (Second * ttl)) else NoTTL)"

lemma LockObject_inmem:
  "LockObject (InmemLocker_Lock tc now) prefix objectId ttl c =
     (Inr (if fst (tc_GetOrSet tc now (prefix @ ''_'' @ objectId) () (lock_lifetime ttl) c) then None
           else Some \<lparr>lock_key = prefix @ ''_'' @ objectId, notObtained = False\<rparr>),
      snd (tc_GetOrSet tc now (prefix @ ''_'' @ objectId) () (lock_lifetime ttl) c))"
  by (simp add: LockObject_def InmemLocker_Lock_def lock_lifetime_def Let_def split: prod.splits)

lemma lock_lifetime_small: "0 < ttl \<Longrightarrow> ttl \<le> 9 \<Longrightarrow> lock_lifetime ttl = Second * (Second * ttl)"
  by (simp add: lock_lifetime_def i64_id in64_def Second_def)

text \<open>
  While a lock obtained for one to nine seconds is alive, no second attempt on the same
  object obtains it, and after its holder releases it the next attempt does. The
  lifetime of the lock is the one the code passes to the backend: \<open>LockObject\<close> turns the
  seconds into nanoseconds and the locker multiplies by a second once more.
\<close>

theorem lock_object_exclusive:
  assumes "ttl_cache tc live" and "0 < ttl" and "ttl \<le> 9"
    and "LockObject (InmemLocker_Lock tc now) prefix objectId ttl c = (Inr (Some l), c')"
    and "now \<le> t" and "t \<le> now + Second * (Second * ttl)"
  shows "fst (LockObject (InmemLocker_Lock tc t) prefix objectId ttl' c') = Inr None \<and>
    fst (LockObject (InmemLocker_Lock tc t) prefix objectId ttl' (snd (InmemLock_Release tc l c'))) = Inr (Some l)"
proof -
  define key where "key = prefix @ ''_'' @ objectId"
  define d where "d = lock_lifetime ttl"
  have d: "d = Second * (Second * ttl)" "0 < d"
    using assms(2,3) by (simp_all add: d_def lock_lifetime_small Second_def)
  note lock = LockObject_inmem [of tc _ prefix objectId, folded key_def]
  have free: "live now c key = None"
  proof (rule ccontr)
    assume "live now c key \<noteq> None"
    from ttl_cache.get_or_set_old [OF assms(1) order.refl this, of "()" d] assms(4) show False
      by (simp add: lock d_def)
  qed
  have c': "c' = tc_Set tc now key () d c" and l: "l = \<lparr>lock_key = key, notObtained = False\<rparr>"
    using assms(4) ttl_cache.get_or_set_new [OF assms(1) free, of "()" d]
    by (simp_all add: lock d_def)
  have held: "live t c' key \<noteq> None"
    using ttl_cache.live_set [OF assms(1,5) d(2), of key "()" c] assms(6) by (simp add: c' d(1))
  have released: "live t (tc_Delete tc key c') key = None"
    using ttl_cache.live_delete [OF assms(1), of t key c'] by simp
  show ?thesis
    using ttl_cache.get_or_set_old [OF assms(1) order.refl held, of "()"]
      ttl_cache.get_or_set_new [OF assms(1) released, of "()"]
    by (simp add: lock InmemLock_Release_def l)
qed

theorem lock_object_exclusive_witness:
  "fst (LockObject (InmemLocker_Lock ttl_table_ops 5) ''work'' ''1'' 2
     (snd (LockObject (InmemLocker_Lock ttl_table_ops 0) ''work'' ''1'' 2 []))) = Inr None"
proof -
  have "LockObject (InmemLocker_Lock ttl_table_ops 0) ''work'' ''1'' 2 [] =
      (Inr (Some \<lparr>lock_key = ''work_1'', notObtained = False\<rparr>),
       snd (LockObject (InmemLocker_Lock ttl_table_ops 0) ''work'' ''1'' 2 []))"
    by (simp add: LockObject_inmem ttl_table_ops_def tt_live_def)
  from lock_object_exclusive [OF tt.ttl_cache_axioms _ _ this, of 5 2]
  show ?thesis by (simp add: Second_def)
qed

text \<open>
  The lifetime that reaches the backend is not the requested number of seconds: a lock
  requested for one second lives for a billion seconds, and a request for ten
  seconds overflows 64 bits and becomes a negative lifetime.
\<close>

theorem lock_lifetime_scaled_twice:
  "snd (LockObject (InmemLocker_Lock tc now) prefix objectId 1 c) =
     snd (tc_GetOrSet tc now (prefix @ ''_'' @ objectId) () (Second * Second) c) \<and>
   snd (LockObject (InmemLocker_Lock tc now) prefix objectId 10 c) =
     snd (tc_GetOrSet tc now (prefix @ ''_'' @ objectId) () (- 8446744073709551616) c)"
  by (simp add: LockObject_inmem lock_lifetime_def Second_def i64_def)

end
