(* ===== verification/Crypto.thy ===== *)
theory Crypto
  imports Prelude
begin

section \<open>Cryptographic helpers\<close>

text \<open>
  Models \<^verbatim>\<open>pkg/crypt_utils/aead.go\<close>, \<^verbatim>\<open>hmac.go\<close> and \<^verbatim>\<open>hash.go\<close>: how the code frames nonces
  and ciphertexts and which bytes it feeds to the digests. The primitives themselves (key derivation, the AEAD
  cipher, SHA-256, base64, the random source) are parameters: the cipher is the record
  \<open>aead_cipher\<close> with the laws of the locale \<open>aead\<close>, a digest is a function on the bytes written so
  far. Bytes are characters.
\<close>

type_synonym bytes = string

subsection \<open>Authenticated encryption\<close>

record aead_cipher =
  NonceSize :: nat
  Seal :: "bytes \<Rightarrow> bytes \<Rightarrow> bytes \<Rightarrow> bytes"
  Open :: "bytes \<Rightarrow> bytes \<Rightarrow> bytes \<Rightarrow> string + bytes"

record AEADConfig =
  MakeAead :: "bytes \<Rightarrow> string + aead_cipher"
  DeriveKey :: "bytes \<Rightarrow> bytes \<Rightarrow> nat \<Rightarrow> bytes"
  KeySize :: nat

definition NewAEAD :: "AEADConfig \<Rightarrow> bytes \<Rightarrow> bytes \<Rightarrow> string + aead_cipher" where
  "NewAEAD cfg secret salt = MakeAead cfg (DeriveKey cfg secret salt (KeySize cfg))"

text \<open>\<open>Seal\<close> appends to the nonce buffer; \<open>nonce\<close> is what the random source delivered.\<close>

definition AEAD_Encrypt :: "aead_cipher \<Rightarrow> string + bytes \<Rightarrow> bytes \<Rightarrow> bytes list \<Rightarrow> string + bytes" where
  "AEAD_Encrypt C nonce plaintext additionalData =
     (case nonce of
        Inl err \<Rightarrow> Inl err
      | Inr n \<Rightarrow> Inr (n @ Seal C n plaintext (OptionalArg [] additionalData)))"

definition AEAD_Decrypt :: "aead_cipher \<Rightarrow> bytes \<Rightarrow> bytes list \<Rightarrow> string + bytes" where
  "AEAD_Decrypt C ciphertext additionalData =
     (if length ciphertext < NonceSize C then Inl ''ciphertext too short''
      else Open C (take (NonceSize C) ciphertext) (drop (NonceSize C) ciphertext) (OptionalArg [] additionalData))"

locale aead =
  fixes C :: aead_cipher
  assumes open_seal: "length n = NonceSize C \<Longrightarrow> Open C n (Seal C n p x) x = Inr p"
    and open_authentic: "length n = NonceSize C \<Longrightarrow> Open C n ct x = Inr p \<Longrightarrow> ct = Seal C n p x"
begin

lemma decrypt_encrypt:
  assumes "length n = NonceSize C" and "AEAD_Encrypt C (Inr n) p x = Inr ct"
  shows "AEAD_Decrypt C ct x = Inr p"
  using assms by (auto simp: AEAD_Encrypt_def AEAD_Decrypt_def open_seal)

lemma decrypt_only_encrypted:
  assumes "AEAD_Decrypt C ct x = Inr p"
  shows "\<exists>n. length n = NonceSize C \<and> AEAD_Encrypt C (Inr n) p x = Inr ct"
proof (intro exI conjI)
  from assms have len: "NonceSize C \<le> length ct"
    by (auto simp: AEAD_Decrypt_def split: if_splits)
  then show n: "length (take (NonceSize C) ct) = NonceSize C" by simp
  from assms len have "drop (NonceSize C) ct = Seal C (take (NonceSize C) ct) p (OptionalArg [] x)"
    using open_authentic [OF n] by (simp add: AEAD_Decrypt_def)
  then have "AEAD_Encrypt C (Inr (take (NonceSize C) ct)) p x = Inr (take (NonceSize C) ct @ drop (NonceSize C) ct)"
    by (simp add: AEAD_Encrypt_def)
  then show "AEAD_Encrypt C (Inr (take (NonceSize C) ct)) p x = Inr ct" by simp
qed

end

subsection \<open>Digests\<close>

text \<open>
  An \<open>Hmac\<close> keeps what was written to its hash; \<open>mac\<close> is the keyed digest and \<open>decode\<close> the
  string coding.
\<close>

record Hmac =
  hmac_secret :: bytes
  written :: bytes

definition NewHmac :: "bytes \<Rightarrow> Hmac" where
  "NewHmac secret = \<lparr>hmac_secret = secret, written = []\<rparr>"

definition Hmac_Sum :: "(bytes \<Rightarrow> bytes \<Rightarrow> bytes) \<Rightarrow> Hmac \<Rightarrow> bytes" where
  "Hmac_Sum mac h = mac (hmac_secret h) (written h)"

fun Hmac_Calc :: "bytes list \<Rightarrow> Hmac \<Rightarrow> Hmac" where
  "Hmac_Calc [] h = h"
| "Hmac_Calc (block # data) h = Hmac_Calc data (h\<lparr>written := written h @ block\<rparr>)"

definition Hmac_SumStr :: "(bytes \<Rightarrow> bytes \<Rightarrow> bytes) \<Rightarrow> (bytes \<Rightarrow> string) \<Rightarrow> Hmac \<Rightarrow> string" where
  "Hmac_SumStr mac encode h = encode (Hmac_Sum mac h)"

definition Hmac_CheckStr ::
    "(bytes \<Rightarrow> bytes \<Rightarrow> bytes) \<Rightarrow> (string \<Rightarrow> string + bytes) \<Rightarrow> Hmac \<Rightarrow> string \<Rightarrow> string option" where
  "Hmac_CheckStr mac decode h sumStr =
     (case decode sumStr of
        Inl err \<Rightarrow> Some (''failed to decode sum: '' @ err)
      | Inr sumB \<Rightarrow> if Hmac_Sum mac h = sumB then None else Some ''invalid HMAC'')"

definition HashEqual :: "string \<Rightarrow> string \<Rightarrow> bool" where
  "HashEqual hash1 hash2 \<longleftrightarrow> hash1 = hash2"

lemma Hmac_Calc_concat: "Hmac_Calc data h = h\<lparr>written := written h @ concat data\<rparr>"
  by (induction data h rule: Hmac_Calc.induct) simp_all

lemma Hmac_check_sum:
  assumes "\<And>b. decode (encode b) = Inr b"
  shows "Hmac_CheckStr mac decode h (Hmac_SumStr mac encode h) = None"
  by (simp add: Hmac_CheckStr_def Hmac_SumStr_def assms)

subsection \<open>Properties\<close>

text \<open>
  With a cipher that opens what it sealed and nothing else, \<open>Decrypt\<close> of a byte string
  returns a plaintext exactly when the string is an encryption of that plaintext under the
  same key and additional data.
\<close>

theorem aead_decrypt_iff:
  assumes "aead C"
  shows "AEAD_Decrypt C ct x = Inr p \<longleftrightarrow>
    (\<exists>n. length n = NonceSize C \<and> AEAD_Encrypt C (Inr n) p x = Inr ct)"
  using aead.decrypt_encrypt [OF assms] aead.decrypt_only_encrypted [OF assms] by blast

text \<open>A cipher with a one-byte nonce whose tag is the nonce and the additional data.\<close>

definition toy_cipher :: aead_cipher where
  "toy_cipher = \<lparr>NonceSize = 1, Seal = (\<lambda>n p x. n @ CHR ''|'' # p @ CHR ''|'' # x),
     Open = (\<lambda>n ct x. let p = take (length ct - length n - 2 - length x) (drop (Suc (length n)) ct) in
       if ct = n @ CHR ''|'' # p @ CHR ''|'' # x then Inr p else Inl ''open failed'')\<rparr>"

interpretation toy: aead toy_cipher
  by unfold_locales (auto simp: toy_cipher_def Let_def split: if_splits)

theorem aead_decrypt_iff_witness:
  "AEAD_Decrypt toy_cipher ''nn|text|ad'' [''ad''] = Inr ''text'' \<and>
   \<not> (\<exists>n. length n = NonceSize toy_cipher \<and> AEAD_Encrypt toy_cipher (Inr n) ''text'' [''ad''] = Inr ''nn|tExt|ad'')"
proof -
  have "AEAD_Decrypt toy_cipher ''nn|text|ad'' [''ad''] = Inr ''text''"
    "AEAD_Decrypt toy_cipher ''nn|tExt|ad'' [''ad''] \<noteq> Inr ''text''"
    by (simp_all add: AEAD_Decrypt_def toy_cipher_def)
  then show ?thesis
    using aead_decrypt_iff [OF toy.aead_axioms, of "''nn|tExt|ad''" "[''ad'']" "''text''"] by simp
qed

end
