(* ===== verification/Strings.thy ===== *)
theory Strings
  imports Prelude
begin

section \<open>Strings and numbers\<close>

text \<open>
  Models the string helpers of \<^verbatim>\<open>pkg/utils\<close>: masking of phones and card numbers (\<^verbatim>\<open>phone.go\<close>,
  \<^verbatim>\<open>card.go\<close>), concatenation (\<^verbatim>\<open>concatenate.go\<close>) and the conversions of \<^verbatim>\<open>conversions.go\<close> that the
  other components use, with the decimal printing and parsing of the Go library they rest on.
  Strings are byte strings.
\<close>

subsection \<open>Decimal numbers\<close>

definition digit_char :: "nat \<Rightarrow> char" where
  "digit_char d = char_of (48 + d)"

definition digit_val :: "char \<Rightarrow> nat option" where
  "digit_val c = (let n = of_char c :: nat in if 48 \<le> n \<and> n \<le> 57 then Some (n - 48) else None)"

fun decimal :: "nat \<Rightarrow> string" where
  "decimal n = (if n < 10 then [digit_char n] else decimal (n div 10) @ [digit_char (n mod 10)])"

declare decimal.simps [simp del]

text \<open>The verb \<open>%0wd\<close> for a number that is not negative, and \<open>%d\<close> for any.\<close>

definition zero_padded :: "nat \<Rightarrow> nat \<Rightarrow> string" where
  "zero_padded w n = replicate (w - length (decimal n)) (digit_char 0) @ decimal n"

definition decimal_int :: "int \<Rightarrow> string" where
  "decimal_int i = (if i < 0 then CHR ''-'' # decimal (nat (- i)) else decimal (nat i))"

fun parse_digits :: "nat \<Rightarrow> string \<Rightarrow> nat option" where
  "parse_digits acc [] = Some acc"
| "parse_digits acc (c # cs) =
     (case digit_val c of None \<Rightarrow> None | Some d \<Rightarrow> parse_digits (10 * acc + d) cs)"

text \<open>\<open>strconv.ParseUint\<close> in base ten: an empty string is a syntax error, a value over the bit size out of range.\<close>

definition ParseUint :: "nat \<Rightarrow> string \<Rightarrow> string + nat" where
  "ParseUint bits s =
     (if s = [] then Inl ''invalid syntax''
      else case parse_digits 0 s of
             None \<Rightarrow> Inl ''invalid syntax''
           | Some n \<Rightarrow> if n < 2 ^ bits then Inr n else Inl ''value out of range'')"

definition ParseInt :: "nat \<Rightarrow> string \<Rightarrow> string + int" where
  "ParseInt bits s =
     (let neg = (case s of c # _ \<Rightarrow> c = CHR ''-'' | [] \<Rightarrow> False);
          body = (case s of c # cs \<Rightarrow> if c = CHR ''-'' \<or> c = CHR ''+'' then cs else s | [] \<Rightarrow> [])
      in if body = [] then Inl ''invalid syntax''
         else case parse_digits 0 body of
                None \<Rightarrow> Inl ''invalid syntax''
              | Some n \<Rightarrow>
                  if neg then (if n \<le> 2 ^ (bits - 1) then Inr (- int n) else Inl ''value out of range'')
                  else (if n < 2 ^ (bits - 1) then Inr (int n) else Inl ''value out of range''))"

lemma digit_val_char: "d < 10 \<Longrightarrow> digit_val (digit_char d) = Some d"
  by (simp add: digit_val_def digit_char_def)

lemma decimal_nonempty [simp]: "decimal n \<noteq> []"
  by (subst decimal.simps) simp

lemma parse_digits_append:
  "parse_digits acc (xs @ ys) = (case parse_digits acc xs of None \<Rightarrow> None | Some n \<Rightarrow> parse_digits n ys)"
  by (induction acc xs rule: parse_digits.induct) (auto split: option.splits)

lemma parse_decimal: "parse_digits 0 (decimal n) = Some n"
proof (induction n rule: decimal.induct)
  case (1 n)
  show ?case
  proof (cases "n < 10")
    case True
    then show ?thesis by (simp add: decimal.simps digit_val_char)
  next
    case False
    with 1 show ?thesis
      by (subst decimal.simps) (simp add: parse_digits_append digit_val_char mult_div_mod_eq)
  qed
qed

lemma parse_zeros: "parse_digits 0 (replicate k (digit_char 0) @ s) = parse_digits 0 s"
  by (induction k) (simp_all add: digit_val_char)

lemma parse_zero_padded: "parse_digits 0 (zero_padded w n) = Some n"
  by (simp add: zero_padded_def parse_zeros parse_decimal)

lemma length_decimal: "0 < w \<Longrightarrow> n < 10 ^ w \<Longrightarrow> length (decimal n) \<le> w"
proof (induction n arbitrary: w rule: decimal.induct)
  case (1 n)
  show ?case
  proof (cases "n < 10")
    case True
    with 1 show ?thesis by (subst decimal.simps) simp
  next
    case False
    with 1(3) have "1 < w" by (cases w; cases "w - 1") auto
    then obtain v where w: "w = Suc v" "0 < v" by (cases w) auto
    with 1(3) have "n div 10 < 10 ^ v" by (intro less_mult_imp_div_less) simp
    with 1(1) [OF False w(2)] False w show ?thesis by (subst decimal.simps) simp
  qed
qed

lemma length_zero_padded: "0 < w \<Longrightarrow> n < 10 ^ w \<Longrightarrow> length (zero_padded w n) = w"
  using length_decimal by (auto simp: zero_padded_def)

lemma digits_of_decimal: "c \<in> set (decimal n) \<Longrightarrow> digit_val c \<noteq> None"
proof (induction n rule: decimal.induct)
  case (1 n)
  then show ?case
    by (subst (asm) (2) decimal.simps) (auto simp: digit_val_char split: if_splits)
qed

lemma decimal_head: "\<exists>c cs. decimal n = c # cs \<and> c \<noteq> CHR ''-'' \<and> c \<noteq> CHR ''+''"
proof -
  obtain c cs where c: "decimal n = c # cs" by (cases "decimal n") simp_all
  then have "digit_val c \<noteq> None" using digits_of_decimal [of c n] by simp
  then have "c \<noteq> CHR ''-'' \<and> c \<noteq> CHR ''+''" by (auto simp: digit_val_def)
  then show ?thesis using c by blast
qed

lemma ParseInt_decimal: "in64 i \<Longrightarrow> ParseInt 64 (decimal_int i) = Inr i"
proof (cases "i < 0")
  case True
  assume "in64 i"
  then have "nat (- i) \<le> 2 ^ 63" by (simp add: in64_def nat_le_iff)
  then show ?thesis using True by (simp add: decimal_int_def ParseInt_def Let_def parse_decimal)
next
  case False
  assume "in64 i"
  then have "nat i < 2 ^ 63" using False by (simp add: in64_def)
  moreover obtain c cs where "decimal (nat i) = c # cs" "c \<noteq> CHR ''-''" "c \<noteq> CHR ''+''" using decimal_head by blast
  moreover have "parse_digits 0 (decimal (nat i)) = Some (nat i)" by (rule parse_decimal)
  ultimately show ?thesis using False by (simp add: decimal_int_def ParseInt_def Let_def)
qed

lemma decimal_int_nonempty [simp]: "decimal_int i \<noteq> []"
  by (simp add: decimal_int_def)

subsection \<open>Splitting\<close>

function split_on :: "string \<Rightarrow> string \<Rightarrow> string \<Rightarrow> string list" where
  "split_on sep acc s =
     (case s of
        [] \<Rightarrow> [rev acc]
      | c # cs \<Rightarrow>
          if sep \<noteq> [] \<and> take (length sep) s = sep then rev acc # split_on sep [] (drop (length sep) s)
          else split_on sep (c # acc) cs)"
  by pat_completeness auto
termination by (relation "measure (\<lambda>(sep, acc, s). length s)") (auto simp: Suc_le_eq diff_less_Suc)

declare split_on.simps [simp del]

text \<open>\<open>strings.Split\<close>: an empty separator splits into characters.\<close>

definition Split :: "string \<Rightarrow> string \<Rightarrow> string list" where
  "Split s sep = (if sep = [] then map (\<lambda>c. [c]) s else split_on sep [] s)"

lemma split_on_not_Nil [simp]: "split_on sep acc s \<noteq> []"
  by (induction sep acc s rule: split_on.induct) (subst split_on.simps, auto split: list.splits)

subsection \<open>Letters\<close>

text \<open>\<open>strings.ToLower\<close> on ASCII text.\<close>

definition go_lower :: "char \<Rightarrow> char" where
  "go_lower c = (let n = of_char c :: nat in if 65 \<le> n \<and> n \<le> 90 then char_of (n + 32) else c)"

definition ConcatStrings :: "string list \<Rightarrow> string" where
  "ConcatStrings parts = concat parts"

subsection \<open>Masking\<close>

definition MaskPhone :: "string \<Rightarrow> string" where
  "MaskPhone phone =
     (if phone = '''' then ''''
      else if length phone \<le> 4 then ''****''
      else replicate (length phone - 4) (CHR ''*'') @ drop (length phone - 4) phone)"

text \<open>The loop over the indices of the card number; the comparison with \<open>size-5\<close> is one of Go ints.\<close>

definition MaskCard :: "string \<Rightarrow> bool list \<Rightarrow> string" where
  "MaskCard pan maskPrefix =
     (let size = length pan; noPrefix = OptionalArg False maskPrefix
      in map (\<lambda>i. if \<not> noPrefix \<and> i < 6 \<or> int i > int size - 5 then pan ! i else CHR ''*'') [0..<size])"

definition FormatCard :: "string \<Rightarrow> string" where
  "FormatCard pan =
     concat (map (\<lambda>i. (if i \<noteq> 0 \<and> i mod 4 = 0 then '' '' else '''') @ [pan ! i]) [0..<length pan])"

definition BoolToStr :: "bool \<Rightarrow> string" where
  "BoolToStr val = (if val then ''true'' else ''false'')"

definition StrToBool :: "string \<Rightarrow> string + bool" where
  "StrToBool s =
     (let str = map go_lower s
      in if str = ''true'' then Inr True
         else if str = ''false'' then Inr True
         else Inl ''invalid format'')"

definition StrToUint32 :: "string \<Rightarrow> string + nat" where
  "StrToUint32 s = (if s = '''' then Inr 0 else ParseUint 32 s)"

definition StrToUint64 :: "string \<Rightarrow> string + nat" where
  "StrToUint64 s = (if s = '''' then Inr 0 else ParseUint 64 s)"

definition StrToInt64 :: "string \<Rightarrow> string + int" where
  "StrToInt64 s = (if s = '''' then Inr 0 else ParseInt 64 s)"

definition StrToInt :: "string \<Rightarrow> string + int" where
  "StrToInt s = (if s = '''' then Inr 0 else ParseInt 32 s)"

subsection \<open>Properties\<close>

text \<open>
  A masked phone number keeps its length when it has more than four digits, shows its last four
  and nothing else; a shorter one is replaced by four asterisks.
\<close>

theorem mask_phone_shows_last_four:
  "length (MaskPhone phone) = (if phone = '''' then 0 else max 4 (length phone)) \<and>
   (length phone \<le> 4 \<or> drop (length phone - 4) (MaskPhone phone) = drop (length phone - 4) phone) \<and>
   set (take (length (MaskPhone phone) - 4) (MaskPhone phone)) \<subseteq> {CHR ''*''}"
  by (auto simp: MaskPhone_def)

lemma length_MaskCard [simp]: "length (MaskCard pan p) = length pan"
  by (simp add: MaskCard_def Let_def)

lemma nth_MaskCard:
  "i < length pan \<Longrightarrow> MaskCard pan p ! i =
     (if \<not> OptionalArg False p \<and> i < 6 \<or> length pan - 4 \<le> i then pan ! i else CHR ''*'')"
  by (auto simp: MaskCard_def Let_def)

text \<open>
  Of a card number with more than ten digits the mask shows the first six and the last four
  digits and hides every digit between them; a number of at most ten digits is
  shown in full. With the prefix masked only the last four are shown.
\<close>

theorem mask_card_shows:
  "length (MaskCard pan p) = length pan \<and>
   (i < length pan \<longrightarrow> MaskCard pan [] ! i =
      (if i < 6 \<or> length pan - 4 \<le> i then pan ! i else CHR ''*'')) \<and>
   (i < length pan \<longrightarrow> MaskCard pan [True] ! i = (if length pan - 4 \<le> i then pan ! i else CHR ''*'')) \<and>
   (length pan \<le> 10 \<longrightarrow> MaskCard pan [] = pan)"
proof (intro conjI)
  show "length pan \<le> 10 \<longrightarrow> MaskCard pan [] = pan"
    by (cases "10 < length pan") (auto simp: nth_MaskCard intro!: nth_equalityI)
  show "length (MaskCard pan p) = length pan" by (rule length_MaskCard)
qed (auto simp: nth_MaskCard not_le)

theorem mask_card_shows_witness:
  "MaskCard ''4111111111111234'' [] ! 6 = CHR ''*'' \<and> MaskCard ''4111111111111234'' [True] ! 15 = CHR ''4'' \<and>
   MaskCard ''1234567890'' [] = ''1234567890''"
  using mask_card_shows [of "''4111111111111234''" "[]" 6] mask_card_shows [of "''4111111111111234''" "[]" 15]
    mask_card_shows [of "''1234567890''" "[]" 0]
  by simp

lemma FormatCard_snoc:
  "FormatCard (pan @ [c]) = FormatCard pan @ (if pan \<noteq> [] \<and> length pan mod 4 = 0 then '' '' else '''') @ [c]"
  by (auto simp: FormatCard_def nth_append intro!: arg_cong [where f = concat])

text \<open>Grouping a card number only inserts spaces: without spaces it is the number again.\<close>

theorem format_card_roundtrip:
  "filter (\<lambda>c. c \<noteq> CHR '' '') (FormatCard pan) = filter (\<lambda>c. c \<noteq> CHR '' '') pan \<and>
   length (FormatCard pan) = length pan + (length pan - 1) div 4"
proof (induction pan rule: rev_induct)
  case Nil
  then show ?case by (simp add: FormatCard_def)
next
  case (snoc c pan)
  have "(length pan) div 4 = (length pan - 1) div 4 + (if pan \<noteq> [] \<and> length pan mod 4 = 0 then 1 else 0)"
    by (cases "length pan") (auto simp: div_Suc)
  with snoc show ?case by (simp add: FormatCard_snoc)
qed

text \<open>
  Parsing the text of a boolean does not give it back: both \<open>true\<close> and \<open>false\<close> are read as
  true, in any case of their letters.
\<close>

theorem str_to_bool_never_false:
  "StrToBool (BoolToStr b) = Inr True \<and> StrToBool s \<noteq> Inr False"
  by (simp add: StrToBool_def BoolToStr_def go_lower_def Let_def)

end
