(* ===== verification/AuthContexts.thy ===== *)
theory AuthContexts
  imports Caches Crypto Strings
begin

section \<open>Request contexts and encrypted authorization parameters\<close>

text \<open>
  Models what the authorization handlers see of a request: the generic error of
  \<^verbatim>\<open>pkg/op_context/default_op_context/default_op_context.go\<close>, the users and the session of
  \<^verbatim>\<open>pkg/auth/auth_user.go\<close>, the authorization headers and session parameters of
  \<^verbatim>\<open>pkg/api/api_server/request.go\<close>, the tokens of \<^verbatim>\<open>pkg/auth/expire_token.go\<close>, bearer headers
  (\<^verbatim>\<open>pkg/auth/auth_handler.go\<close>) and the encrypted parameters of
  \<^verbatim>\<open>pkg/auth/parameter_encryption.go\<close>. A Go error is its message; a handler's result is
  the pair of its flag and its error. The field \<open>backend\<close> is the state of what the handler talks to,
  a cache or a database. Logging and tracing are not modelled.
\<close>

subsection \<open>Users\<close>

text \<open>
  The fields the user interfaces read. The optional interfaces of a user
  (a phone, a password, an HMAC secret) are options: \<open>None\<close> when the Go type assertion fails.
\<close>

record User =
  UserId :: string
  UserLogin :: string
  UserDisplay :: string
  UserBlocked :: bool
  Phone :: "string option"
  PasswordOf :: "(string \<times> string) option"
  HmacSecret :: "string option"

definition NewAuthUser :: "string \<Rightarrow> string \<Rightarrow> string \<Rightarrow> bool list \<Rightarrow> User" where
  "NewAuthUser i login display blocked =
     (let userLogin = (if login = '''' then i else login);
          userDisplay = (if display = '''' then userLogin else display)
      in \<lparr>UserId = i, UserLogin = userLogin, UserDisplay = userDisplay,
          UserBlocked = OptionalArg False blocked, Phone = None, PasswordOf = None, HmacSecret = None\<rparr>)"

definition AuthUserDisplay :: "User option \<Rightarrow> string" where
  "AuthUserDisplay u =
     (case u of
        None \<Rightarrow> ''''
      | Some u \<Rightarrow>
          if UserDisplay u \<noteq> '''' then UserDisplay u
          else if UserLogin u \<noteq> '''' then UserLogin u
          else if UserId u \<noteq> '''' then UserId u
          else '''')"

subsection \<open>The context of a request\<close>

record 'c AuthContext =
  requestHeaders :: "(string, string) gomap"
  responseHeaders :: "(string \<times> string) list"
  requestPath :: string
  requestMethod :: string
  requestContent :: bytes
  clientIp :: string
  userAgent :: string
  tenancy :: "string option"
  authUser :: "User option"
  sessionId :: string
  clientId :: string
  sessionParameters :: "(string, string) gomap"
  genericError :: "string option"
  authTimer :: "int option"
  backend :: 'c

definition ErrorCodeInternalServerError :: string where "ErrorCodeInternalServerError = ''internal_server_error''"
definition ErrorCodeFormat :: string where "ErrorCodeFormat = ''invalid_format''"

text \<open>A generic error is kept by its code; only an overriding call replaces an earlier one.\<close>

definition SetGenericErrorCode :: "string \<Rightarrow> bool list \<Rightarrow> 'c AuthContext \<Rightarrow> 'c AuthContext" where
  "SetGenericErrorCode code override ctx =
     (if genericError ctx = None \<or> OptionalArg False override then ctx\<lparr>genericError := Some code\<rparr> else ctx)"

text \<open>How a handler refuses a request: it sets the generic error and returns an error.\<close>

definition refuse :: "bool \<Rightarrow> string \<Rightarrow> string \<Rightarrow> 'c AuthContext \<Rightarrow> (bool \<times> string option) \<times> 'c AuthContext" where
  "refuse found code err ctx = ((found, Some err), SetGenericErrorCode code [] ctx)"

definition ClearError :: "'c AuthContext \<Rightarrow> 'c AuthContext" where
  "ClearError ctx = ctx\<lparr>genericError := None\<rparr>"

definition AuthKey :: "string \<Rightarrow> string \<Rightarrow> bool list \<Rightarrow> string" where
  "AuthKey authProtocol key directKeyName =
     (if OptionalArg False directKeyName then key
      else if authProtocol \<noteq> '''' then ''x-'' @ authProtocol @ ''-'' @ key
      else ''x-auth-'' @ key)"

definition GetAuthParameter :: "string \<Rightarrow> string \<Rightarrow> bool list \<Rightarrow> 'c AuthContext \<Rightarrow> string" where
  "GetAuthParameter protocol key direct ctx =
     (case map_of (requestHeaders ctx) (AuthKey protocol key direct) of None \<Rightarrow> '''' | Some v \<Rightarrow> v)"

definition SetAuthParameter :: "string \<Rightarrow> string \<Rightarrow> string \<Rightarrow> bool list \<Rightarrow> 'c AuthContext \<Rightarrow> 'c AuthContext" where
  "SetAuthParameter protocol key v direct ctx =
     ctx\<lparr>responseHeaders := responseHeaders ctx @ [(AuthKey protocol key direct, v)]\<rparr>"

definition IsLoggedIn :: "'c AuthContext \<Rightarrow> bool" where
  "IsLoggedIn ctx \<longleftrightarrow> sessionId ctx \<noteq> ''''"

definition LoadSessionParameters :: "(string, string) gomap \<Rightarrow> 'c AuthContext \<Rightarrow> 'c AuthContext" where
  "LoadSessionParameters parameters ctx = ctx\<lparr>sessionParameters := parameters\<rparr>"

definition GetSessionParameter :: "string \<Rightarrow> 'c AuthContext \<Rightarrow> string" where
  "GetSessionParameter key ctx = (case map_of (sessionParameters ctx) key of None \<Rightarrow> '''' | Some v \<Rightarrow> v)"

definition SetSessionParameter :: "string \<Rightarrow> string \<Rightarrow> 'c AuthContext \<Rightarrow> 'c AuthContext" where
  "SetSessionParameter key v ctx = ctx\<lparr>sessionParameters := AList.update key v (sessionParameters ctx)\<rparr>"

text \<open>The expiration time of a token that lives for a number of seconds from now.\<close>

definition SetTTL :: "int \<Rightarrow> int \<Rightarrow> int" where
  "SetTTL now seconds = now + i64 (Second * seconds)"

definition Expired :: "int \<Rightarrow> int \<Rightarrow> bool" where
  "Expired now expiration \<longleftrightarrow> expiration < now"

lemma SetGenericErrorCode_frame [simp]:
  "requestHeaders (SetGenericErrorCode code ov ctx) = requestHeaders ctx"
  "responseHeaders (SetGenericErrorCode code ov ctx) = responseHeaders ctx"
  "requestPath (SetGenericErrorCode code ov ctx) = requestPath ctx"
  "requestMethod (SetGenericErrorCode code ov ctx) = requestMethod ctx"
  "requestContent (SetGenericErrorCode code ov ctx) = requestContent ctx"
  "tenancy (SetGenericErrorCode code ov ctx) = tenancy ctx"
  "authUser (SetGenericErrorCode code ov ctx) = authUser ctx"
  "sessionId (SetGenericErrorCode code ov ctx) = sessionId ctx"
  "sessionParameters (SetGenericErrorCode code ov ctx) = sessionParameters ctx"
  "backend (SetGenericErrorCode code ov ctx) = backend ctx"
  "authTimer (SetGenericErrorCode code ov ctx) = authTimer ctx"
  by (simp_all add: SetGenericErrorCode_def)

lemma SetGenericErrorCode_set [simp]: "genericError (SetGenericErrorCode code ov ctx) \<noteq> None"
  by (simp add: SetGenericErrorCode_def)

lemma SetGenericErrorCode_first [simp]:
  "genericError ctx = None \<Longrightarrow> genericError (SetGenericErrorCode code ov ctx) = Some code"
  "genericError ctx \<noteq> None \<Longrightarrow> SetGenericErrorCode code [] ctx = ctx"
  by (simp_all add: SetGenericErrorCode_def)

lemma refuse_sel [simp]:
  "fst (refuse found code err ctx) = (found, Some err)"
  "snd (refuse found code err ctx) = SetGenericErrorCode code [] ctx"
  by (simp_all add: refuse_def)

lemma refuse_no_success [simp]:
  "refuse found code err ctx \<noteq> ((f, None), ctx')" "((f, None), ctx') \<noteq> refuse found code err ctx"
  by (simp_all add: refuse_def)

lemma SetAuthParameter_frame [simp]:
  "requestHeaders (SetAuthParameter p k v d ctx) = requestHeaders ctx"
  "requestPath (SetAuthParameter p k v d ctx) = requestPath ctx"
  "tenancy (SetAuthParameter p k v d ctx) = tenancy ctx"
  "authUser (SetAuthParameter p k v d ctx) = authUser ctx"
  "sessionId (SetAuthParameter p k v d ctx) = sessionId ctx"
  "genericError (SetAuthParameter p k v d ctx) = genericError ctx"
  "sessionParameters (SetAuthParameter p k v d ctx) = sessionParameters ctx"
  "backend (SetAuthParameter p k v d ctx) = backend ctx"
  "responseHeaders (SetAuthParameter p k v d ctx) = responseHeaders ctx @ [(AuthKey p k d, v)]"
  by (simp_all add: SetAuthParameter_def)

subsection \<open>Bearer tokens\<close>

text \<open>
  \<open>strings.Fields\<close> on ASCII text: maximal runs of characters other than the six ASCII spaces.
\<close>

definition go_space :: "char \<Rightarrow> bool" where
  "go_space c \<longleftrightarrow> of_char c \<in> {9, 10, 11, 12, 13, 32 :: nat}"

fun go_fields_from :: "string \<Rightarrow> string \<Rightarrow> string list" where
  "go_fields_from word [] = (if word = [] then [] else [word])"
| "go_fields_from word (c # cs) =
     (if go_space c then (if word = [] then go_fields_from [] cs else word # go_fields_from [] cs)
      else go_fields_from (word @ [c]) cs)"

definition AuthorizationHeader :: string where "AuthorizationHeader = ''authorization''"
definition AuthorizationBearer :: string where "AuthorizationBearer = ''bearer''"

definition extractToken :: "string \<Rightarrow> string" where
  "extractToken header =
     (let fields = go_fields_from [] header
      in if length fields \<noteq> 2 \<or> map go_lower (fields ! 0) \<noteq> AuthorizationBearer then ''''
         else fields ! 1)"

definition SetAuthBearer :: "string \<Rightarrow> 'c AuthContext \<Rightarrow> 'c AuthContext" where
  "SetAuthBearer v ctx = SetAuthParameter '''' AuthorizationHeader (AuthorizationBearer @ '' '' @ v) [True] ctx"

definition GetAuthBearer :: "'c AuthContext \<Rightarrow> string" where
  "GetAuthBearer ctx = extractToken (GetAuthParameter '''' AuthorizationHeader [True] ctx)"

lemma go_fields_word: "\<forall>c \<in> set v. \<not> go_space c \<Longrightarrow> go_fields_from w v = (if w @ v = [] then [] else [w @ v])"
  by (induction v arbitrary: w) auto

lemma extractToken_bearer:
  assumes "v \<noteq> []" and "\<forall>c \<in> set v. \<not> go_space c"
  shows "extractToken (AuthorizationBearer @ '' '' @ v) = v"
proof -
  have "go_fields_from [] (AuthorizationBearer @ '' '' @ v) = ''bearer'' # go_fields_from [] v"
    by (simp add: AuthorizationBearer_def go_space_def of_char_def)
  moreover have "map go_lower ''bearer'' = AuthorizationBearer"
    by (simp add: AuthorizationBearer_def go_lower_def of_char_def)
  ultimately show ?thesis
    using assms by (simp add: extractToken_def go_fields_word)
qed

subsection \<open>Encrypted parameters\<close>

text \<open>
  The configuration of the encryption with the AEAD construction and the message codec it
  uses. The random source appears as the pair of the salt and the nonce it delivers,
  either of which may be an error.
\<close>

record 'o ParameterEncryption =
  SECRET :: bytes
  SALT_SIZE :: nat
  TAG :: string
  aeadConfig :: AEADConfig
  codecOf :: "('o, bytes) codec"

type_synonym random = "(string + bytes) \<times> (string + bytes)"

datatype 'o param_reply = Absent | Present "string + 'o"

definition createCipher :: "'o ParameterEncryption \<Rightarrow> bytes \<Rightarrow> string + aead_cipher" where
  "createCipher a salt = NewAEAD (aeadConfig a) (SECRET a) salt"

definition Encrypt :: "'o ParameterEncryption \<Rightarrow> random \<Rightarrow> 'o \<Rightarrow> string + string" where
  "Encrypt a rnd obj =
     (case SerializeMessage (codecOf a) obj of
        Inl err \<Rightarrow> Inl err
      | Inr plaintext \<Rightarrow>
          (case fst rnd of
             Inl err \<Rightarrow> Inl err
           | Inr salt \<Rightarrow>
               (case createCipher a salt of
                  Inl err \<Rightarrow> Inl err
                | Inr cipher \<Rightarrow>
                    (case AEAD_Encrypt cipher (snd rnd) plaintext [] of
                       Inl err \<Rightarrow> Inl err
                     | Inr ciphertext \<Rightarrow> Inr (Encode (codecOf a) (ciphertext @ salt))))))"

definition EncodeAuthParameter :: "'o ParameterEncryption \<Rightarrow> random \<Rightarrow> 'o \<Rightarrow> string + string" where
  "EncodeAuthParameter a rnd obj = Encrypt a rnd obj"

definition Encryption_SetAuthParameter ::
    "'o ParameterEncryption \<Rightarrow> random \<Rightarrow> string \<Rightarrow> string \<Rightarrow> 'o \<Rightarrow> bool list \<Rightarrow> 'c AuthContext \<Rightarrow>
     string option \<times> 'c AuthContext" where
  "Encryption_SetAuthParameter a rnd protocol name obj direct ctx =
     (case EncodeAuthParameter a rnd obj of
        Inl err \<Rightarrow> (Some err, ctx)
      | Inr data \<Rightarrow> (None, SetAuthParameter protocol name data direct ctx))"

definition DecodeAuthParameter :: "'o ParameterEncryption \<Rightarrow> string \<Rightarrow> string + 'o" where
  "DecodeAuthParameter a v =
     (case Decode (codecOf a) v of
        Inl err \<Rightarrow> Inl err
      | Inr ciphertext \<Rightarrow>
          if length ciphertext < SALT_SIZE a then Inl ''ciphertext too short for salt''
          else
            let salt = drop (length ciphertext - SALT_SIZE a) ciphertext;
                ciphertext' = take (length ciphertext - length salt) ciphertext
            in case createCipher a salt of
                 Inl err \<Rightarrow> Inl err
               | Inr cipher \<Rightarrow>
                   (case AEAD_Decrypt cipher ciphertext' [] of
                      Inl err \<Rightarrow> Inl err
                    | Inr plaintext \<Rightarrow> ParseMessage (codecOf a) plaintext))"

definition Encryption_GetAuthParameter ::
    "'o ParameterEncryption \<Rightarrow> string \<Rightarrow> string \<Rightarrow> bool list \<Rightarrow> 'c AuthContext \<Rightarrow> 'o param_reply" where
  "Encryption_GetAuthParameter a protocol name direct ctx =
     (let data = GetAuthParameter protocol name direct ctx
      in if data = '''' then Absent else Present (DecodeAuthParameter a data))"

definition EncodeAndSetBearer ::
    "'o ParameterEncryption \<Rightarrow> random \<Rightarrow> 'o \<Rightarrow> 'c AuthContext \<Rightarrow> string option \<times> 'c AuthContext" where
  "EncodeAndSetBearer a rnd obj ctx =
     (case EncodeAuthParameter a rnd obj of
        Inl err \<Rightarrow> (Some err, ctx)
      | Inr v \<Rightarrow> (None, SetAuthBearer v ctx))"

definition GetAndDecodeBearer :: "'o ParameterEncryption \<Rightarrow> 'c AuthContext \<Rightarrow> 'o param_reply" where
  "GetAndDecodeBearer a ctx =
     (let v = GetAuthBearer ctx
      in if v = '''' then Absent else Present (DecodeAuthParameter a v))"

text \<open>
  What the round trips need of the primitives: every key makes an AEAD cipher, and the codec
  reads back what it wrote, never as an empty string.
\<close>

locale parameter_encryption =
  fixes a :: "'o ParameterEncryption"
    and nonceSize :: nat
  assumes ciphers: "\<exists>C. MakeAead (aeadConfig a) key = Inr C \<and> aead C \<and> NonceSize C = nonceSize"
    and codec: "codec_roundtrip (codecOf a)"
    and base: "Decode (codecOf a) (Encode (codecOf a) b) = Inr b"
    and encode_nonempty: "b \<noteq> [] \<Longrightarrow> Encode (codecOf a) b \<noteq> ''''"
begin

lemma decode_encrypt:
  assumes "length salt = SALT_SIZE a" and "0 < SALT_SIZE a" and "length nonce = nonceSize"
  shows "\<exists>v. Encrypt a (Inr salt, Inr nonce) obj = Inr v \<and> v \<noteq> '''' \<and> DecodeAuthParameter a v = Inr obj"
proof -
  obtain b where b: "SerializeMessage (codecOf a) obj = Inr b" "ParseMessage (codecOf a) b = Inr obj"
    using codec by (auto simp: codec_roundtrip_def)
  obtain C where C: "createCipher a salt = Inr C" "aead C" "NonceSize C = nonceSize"
    using ciphers by (auto simp: createCipher_def NewAEAD_def)
  obtain ct where ct: "AEAD_Encrypt C (Inr nonce) b [] = Inr ct"
    by (simp add: AEAD_Encrypt_def)
  have "AEAD_Decrypt C ct [] = Inr b"
    using aead.decrypt_encrypt [OF C(2) _ ct] assms(3) C(3) by simp
  moreover have "Encode (codecOf a) (ct @ salt) \<noteq> ''''"
    using assms(1,2) by (intro encode_nonempty) auto
  ultimately show ?thesis
    using b C(1) ct assms(1) by (simp add: Encrypt_def DecodeAuthParameter_def base Let_def)
qed

lemma set_then_get_parameter:
  assumes "length salt = SALT_SIZE a" and "0 < SALT_SIZE a" and "length nonce = nonceSize"
    and "Encryption_SetAuthParameter a (Inr salt, Inr nonce) protocol name obj direct ctx = (e, ctx')"
  shows "e = None \<and> (map_of (requestHeaders next) (AuthKey protocol name direct) =
      Some (snd (last (responseHeaders ctx'))) \<longrightarrow>
      Encryption_GetAuthParameter a protocol name direct next = Present (Inr obj))"
proof -
  obtain v where v: "Encrypt a (Inr salt, Inr nonce) obj = Inr v" "v \<noteq> ''''" "DecodeAuthParameter a v = Inr obj"
    using decode_encrypt [OF assms(1-3)] by blast
  then show ?thesis
    using assms(4)
    by (auto simp: Encryption_SetAuthParameter_def EncodeAuthParameter_def
        Encryption_GetAuthParameter_def GetAuthParameter_def)
qed

lemma set_then_get_bearer:
  assumes "length salt = SALT_SIZE a" and "0 < SALT_SIZE a" and "length nonce = nonceSize"
    and "EncodeAndSetBearer a (Inr salt, Inr nonce) obj ctx = (e, ctx')"
    and "\<And>b. \<forall>c \<in> set (Encode (codecOf a) b). \<not> go_space c"
    and "map_of (requestHeaders next) AuthorizationHeader = Some (snd (last (responseHeaders ctx')))"
  shows "e = None \<and> GetAndDecodeBearer a next = Present (Inr obj)"
proof -
  obtain v where v: "Encrypt a (Inr salt, Inr nonce) obj = Inr v" "v \<noteq> ''''" "DecodeAuthParameter a v = Inr obj"
    using decode_encrypt [OF assms(1-3)] by blast
  have "\<forall>c \<in> set v. \<not> go_space c"
    using v(1) assms(5) by (auto simp: Encrypt_def split: sum.splits)
  with v assms(4,6) extractToken_bearer [of v] show ?thesis
    by (auto simp: EncodeAndSetBearer_def EncodeAuthParameter_def SetAuthBearer_def GetAuthBearer_def
        GetAndDecodeBearer_def GetAuthParameter_def AuthKey_def)
qed

end

text \<open>
  What \<open>SetAuthParameter\<close> writes to the response, sent back by a client under the same header
  name, is read by \<open>GetAuthParameter\<close> as the object that was set; the same holds of the
  bearer header. The salt has the configured size and the cipher and the coding are
  inverse to themselves.
\<close>

theorem auth_parameter_roundtrip:
  assumes "parameter_encryption a nonceSize"
    and "length salt = SALT_SIZE a" and "0 < SALT_SIZE a" and "length nonce = nonceSize"
    and "Encryption_SetAuthParameter a (Inr salt, Inr nonce) protocol name obj direct ctx = (e, ctx1)"
    and "map_of (requestHeaders next) (AuthKey protocol name direct) = Some (snd (last (responseHeaders ctx1)))"
    and "EncodeAndSetBearer a (Inr salt, Inr nonce) obj ctx = (e', ctx2)"
    and "\<And>b. \<forall>c \<in> set (Encode (codecOf a) b). \<not> go_space c"
    and "map_of (requestHeaders next') AuthorizationHeader = Some (snd (last (responseHeaders ctx2)))"
  shows "e = None \<and> Encryption_GetAuthParameter a protocol name direct next = Present (Inr obj) \<and>
    e' = None \<and> GetAndDecodeBearer a next' = Present (Inr obj)"
  using parameter_encryption.set_then_get_parameter [OF assms(1-5), of "next"] assms(6)
    parameter_encryption.set_then_get_bearer [OF assms(1-4,7,8,9)] by simp

text \<open>An encryption over the one-byte-nonce cipher and a coding of a byte as two letters.\<close>

definition letter :: "nat \<Rightarrow> char" where "letter n = char_of (97 + n)"
definition unletter :: "char \<Rightarrow> nat" where "unletter c = of_char c - 97"

fun letters :: "bytes \<Rightarrow> string" where
  "letters [] = []"
| "letters (c # cs) = letter (of_char c div 16) # letter (of_char c mod 16) # letters cs"

fun unletters :: "string \<Rightarrow> bytes" where
  "unletters (x # y # cs) = char_of (16 * unletter x + unletter y) # unletters cs"
| "unletters _ = []"

lemma unletter_letter: "n < 16 \<Longrightarrow> unletter (letter n) = n"
  by (simp add: letter_def unletter_def)

lemma unletters_letters: "unletters (letters b) = b"
proof (induction b)
  case (Cons c cs)
  have "of_char c div 16 < (16 :: nat)"
    using of_char_less [of c] by (intro less_mult_imp_div_less) simp
  with Cons show ?case by (simp add: unletter_letter mult_div_mod_eq)
qed simp

lemma letters_no_space: "c \<in> set (letters b) \<Longrightarrow> \<not> go_space c"
proof (induction b)
  case (Cons x xs)
  have "\<not> go_space (letter n)" if "n < 16" for n
    using that by (simp add: letter_def go_space_def)
  moreover have "of_char x div 16 < (16 :: nat)"
    using of_char_less [of x] by (intro less_mult_imp_div_less) simp
  ultimately show ?case using Cons by auto
qed simp

definition example_encryption :: "(string \<Rightarrow> 'o) \<Rightarrow> ('o \<Rightarrow> string) \<Rightarrow> 'o ParameterEncryption" where
  "example_encryption parse ser = \<lparr>SECRET = ''secret'', SALT_SIZE = 2, TAG = '''',
     aeadConfig = \<lparr>MakeAead = (\<lambda>key. Inr toy_cipher), DeriveKey = (\<lambda>s salt n. s @ salt), KeySize = 8\<rparr>,
     codecOf = \<lparr>SerializeMessage = (\<lambda>v. Inr (ser v)), ParseMessage = (\<lambda>b. Inr (parse b)),
       Encode = letters, Decode = (\<lambda>s. Inr (unletters s))\<rparr>\<rparr>"

interpretation example_enc: parameter_encryption "example_encryption id id" 1
proof
  show "\<exists>C. MakeAead (aeadConfig (example_encryption id id)) key = Inr C \<and> aead C \<and> NonceSize C = 1" for key
    using toy.aead_axioms by (simp add: example_encryption_def) (simp add: toy_cipher_def)
  show "codec_roundtrip (codecOf (example_encryption id id))"
    by (simp add: codec_roundtrip_def example_encryption_def unletters_letters)
  show "Decode (codecOf (example_encryption id id)) (Encode (codecOf (example_encryption id id)) b) = Inr b" for b
    by (simp add: example_encryption_def unletters_letters)
  show "b \<noteq> [] \<Longrightarrow> Encode (codecOf (example_encryption id id)) b \<noteq> ''''" for b
    by (cases b) (simp_all add: example_encryption_def)
qed

definition empty_context :: "'c \<Rightarrow> 'c AuthContext" where
  "empty_context c = \<lparr>requestHeaders = [], responseHeaders = [], requestPath = '''', requestMethod = '''',
     requestContent = '''', clientIp = '''', userAgent = '''', tenancy = None, authUser = None,
     sessionId = '''', clientId = '''', sessionParameters = [], genericError = None, authTimer = None,
     backend = c\<rparr>"

theorem auth_parameter_roundtrip_witness:
  "let a = example_encryption id id; rnd = (Inr ''sa'', Inr ''n'');
       ctx1 = snd (Encryption_SetAuthParameter a rnd ''sms'' ''token'' ''payload'' [] (empty_context ()));
       ctx2 = snd (EncodeAndSetBearer a rnd ''payload'' (empty_context ()))
   in Encryption_GetAuthParameter a ''sms'' ''token'' [] ((empty_context ())\<lparr>requestHeaders := responseHeaders ctx1\<rparr>)
        = Present (Inr ''payload'') \<and>
      GetAndDecodeBearer a ((empty_context ())\<lparr>requestHeaders := responseHeaders ctx2\<rparr>) = Present (Inr ''payload'')"
proof -
  define a where "a = example_encryption id (id :: string \<Rightarrow> string)"
  define ctx1 where "ctx1 = snd (Encryption_SetAuthParameter a (Inr ''sa'', Inr ''n'') ''sms'' ''token'' ''payload'' [] (empty_context ()))"
  define ctx2 where "ctx2 = snd (EncodeAndSetBearer a (Inr ''sa'', Inr ''n'') ''payload'' (empty_context ()))"
  have spaces: "\<forall>c \<in> set (Encode (codecOf a) b). \<not> go_space c" for b
    using letters_no_space by (auto simp: a_def example_encryption_def)
  have "map_of (responseHeaders ctx1) (AuthKey ''sms'' ''token'' []) = Some (snd (last (responseHeaders ctx1)))"
    "map_of (responseHeaders ctx2) AuthorizationHeader = Some (snd (last (responseHeaders ctx2)))"
    unfolding a_def ctx1_def ctx2_def by code_simp+
  then show ?thesis
    using auth_parameter_roundtrip [OF example_enc.parameter_encryption_axioms, folded a_def,
        of "''sa''" "''n''" "''sms''" "''token''" "''payload''" "[]" "empty_context ()" _ ctx1
          "(empty_context ())\<lparr>requestHeaders := responseHeaders ctx1\<rparr>" _ ctx2
          "(empty_context ())\<lparr>requestHeaders := responseHeaders ctx2\<rparr>"] spaces
    by (simp add: Let_def ctx1_def ctx2_def a_def [symmetric])
      (simp add: a_def example_encryption_def prod_eq_iff)
qed

end
