(* ===== verification/AuthSchemas.thy ===== *)
theory AuthSchemas
  imports AuthContexts AccessControl
begin

section \<open>Authorization schemas, manager and endpoints\<close>

text \<open>
  Models \<^verbatim>\<open>pkg/auth/auth_schema.go\<close> (aggregation of handlers), \<^verbatim>\<open>auth_manager.go\<close> (handler
  stores and dispatch by schema name), \<^verbatim>\<open>endpoint_config.go\<close> (which schema protects which
  access to which path), \<^verbatim>\<open>auth.go\<close> (\<open>AuthBase.HandleRequest\<close>) and \<^verbatim>\<open>noauth.go\<close>. A handler is a
  method, known by its name and by what its \<open>Handle\<close> does to the request context, or a
  schema over handlers. Loading the configuration is not modelled, the operations it calls are.
\<close>

definition ErrorCodeUnauthorized :: string where "ErrorCodeUnauthorized = ''unauthorized''"
definition ErrorCodeInvalidAuthSchema :: string where "ErrorCodeInvalidAuthSchema = ''invalid_auth_schema''"

definition AggAnd :: string where "AggAnd = ''and''"
definition AggOr :: string where "AggOr = ''or''"

subsection \<open>Handlers and schemas\<close>

type_synonym 'c handle = "'c AuthContext \<Rightarrow> (bool \<times> string option) \<times> 'c AuthContext"

datatype 'c AuthHandler =
    Method string "'c handle"
  | AuthSchema string string "'c AuthHandler list"

fun handler_Name :: "'c AuthHandler \<Rightarrow> string" where
  "handler_Name (Method n h) = n"
| "handler_Name (AuthSchema n agg hs) = n"

text \<open>
  \<open>schema_loop\<close> is the loop of \<open>AuthSchema.Handle\<close> over the remaining handlers; \<open>len\<close> is the
  number of handlers of the schema, which the return after the loop looks at.
\<close>

fun Handle :: "'c AuthHandler \<Rightarrow> 'c handle"
  and schema_loop :: "string \<Rightarrow> nat \<Rightarrow> 'c AuthHandler list \<Rightarrow> 'c handle" where
  "Handle (Method n h) ctx = h ctx"
| "Handle (AuthSchema n agg hs) ctx = schema_loop agg (length hs) hs ctx"
| "schema_loop agg len [] ctx = ((len = 0, None), ctx)"
| "schema_loop agg len (h # hs) ctx =
     (case Handle h ctx of
        ((authMethodFound, err), ctx1) \<Rightarrow>
          if \<not> authMethodFound then
            if agg = AggOr then schema_loop agg len hs ctx1
            else ((False, Some (case err of None \<Rightarrow> ''auth method not found in request'' | Some e \<Rightarrow> e)),
                  SetGenericErrorCode ErrorCodeUnauthorized [] ctx1)
          else if err \<noteq> None then ((True, err), SetGenericErrorCode ErrorCodeUnauthorized [] ctx1)
          else if agg = AggOr then ((True, None), ctx1)
          else schema_loop agg len hs ctx1)"

definition NoAuth_Handle :: "'c handle" where
  "NoAuth_Handle ctx =
     ((True, None), ctx\<lparr>authUser := Some \<lparr>UserId = '''', UserLogin = '''', UserDisplay = '''',
        UserBlocked = False, Phone = None, PasswordOf = None, HmacSecret = None\<rparr>\<rparr>)"

definition NoAuth_HandleRequest :: "string \<Rightarrow> AccessType \<Rightarrow> 'c AuthContext \<Rightarrow> string option \<times> 'c AuthContext" where
  "NoAuth_HandleRequest path access ctx = (None, snd (NoAuth_Handle ctx))"

subsection \<open>Handler stores and the manager\<close>

type_synonym 'c HandlerStoreBase = "(string, 'c AuthHandler) gomap"

definition NewHandlerStore :: "'c HandlerStoreBase" where
  "NewHandlerStore = []"

definition Handler :: "'c HandlerStoreBase \<Rightarrow> string \<Rightarrow> string + 'c AuthHandler" where
  "Handler h name =
     (case map_of h name of None \<Rightarrow> Inl ''unknown authorization handler'' | Some handler \<Rightarrow> Inr handler)"

definition HandlerNames :: "'c HandlerStoreBase \<Rightarrow> string list" where
  "HandlerNames h = map fst h"

definition AddHandler :: "'c HandlerStoreBase \<Rightarrow> 'c AuthHandler \<Rightarrow> 'c HandlerStoreBase" where
  "AddHandler h handler =
     (if map_of h (handler_Name handler) = None then AList.update (handler_Name handler) handler h else h)"

record 'c AuthManagerBase =
  manager_handlers :: "'c HandlerStoreBase"
  manager_schemas :: "'c HandlerStoreBase"

definition AuthManager_Handle ::
    "'c AuthManagerBase \<Rightarrow> string \<Rightarrow> 'c AuthContext \<Rightarrow> string option \<times> 'c AuthContext" where
  "AuthManager_Handle a schema ctx =
     (case (case Handler (manager_schemas a) schema of
              Inl err \<Rightarrow> Handler (manager_handlers a) schema
            | Inr handler \<Rightarrow> Inr handler) of
        Inl err \<Rightarrow> (Some err, SetGenericErrorCode ErrorCodeInvalidAuthSchema [] ctx)
      | Inr handler \<Rightarrow> (case Handle handler ctx of ((_, err), ctx') \<Rightarrow> (err, ctx')))"

subsection \<open>Endpoints\<close>

record EndpointSchema =
  ACCESS :: AccessType
  HTTP_METHOD :: string
  SCHEMA :: string

type_synonym EndpointsAuthConfigBase = "(string, EndpointSchema list) gomap"

definition AddSchema :: "string \<Rightarrow> AccessType \<Rightarrow> string \<Rightarrow> EndpointsAuthConfigBase \<Rightarrow> EndpointsAuthConfigBase" where
  "AddSchema path access schema e =
     (let schemas = (case map_of e path of None \<Rightarrow> [] | Some schemas \<Rightarrow> schemas)
      in AList.update path (schemas @ [\<lparr>ACCESS = access, HTTP_METHOD = '''', SCHEMA = schema\<rparr>]) e)"

fun first_schema :: "EndpointSchema list \<Rightarrow> AccessType \<Rightarrow> string option" where
  "first_schema [] access = None"
| "first_schema (epSchema # ep) access =
     (if Check (ACCESS epSchema) access then Some (SCHEMA epSchema) else first_schema ep access)"

definition Schema :: "string \<Rightarrow> AccessType \<Rightarrow> EndpointsAuthConfigBase \<Rightarrow> string option" where
  "Schema path access e = (case map_of e path of None \<Rightarrow> None | Some ep \<Rightarrow> first_schema ep access)"

text \<open>What \<open>Init\<close> does with a loaded item of an endpoint.\<close>

definition resolve_access :: "EndpointSchema \<Rightarrow> EndpointSchema" where
  "resolve_access epSchema =
     (if HTTP_METHOD epSchema \<noteq> '''' then epSchema\<lparr>ACCESS := HttpMethod2Access (HTTP_METHOD epSchema)\<rparr>
      else epSchema)"

definition init_endpoint :: "string \<Rightarrow> EndpointSchema list \<Rightarrow> EndpointsAuthConfigBase \<Rightarrow> EndpointsAuthConfigBase" where
  "init_endpoint endpoint items e = AList.update endpoint (map resolve_access items) e"

record 'c AuthBase =
  DEFAULT_SCHEMA :: string
  manager :: "'c AuthManagerBase"
  endpointsConfig :: EndpointsAuthConfigBase

definition HandleRequest ::
    "'c AuthBase \<Rightarrow> string \<Rightarrow> AccessType \<Rightarrow> 'c AuthContext \<Rightarrow> string option \<times> 'c AuthContext" where
  "HandleRequest a path access ctx =
     (let schema = (case Schema path access (endpointsConfig a) of None \<Rightarrow> DEFAULT_SCHEMA a | Some s \<Rightarrow> s)
      in AuthManager_Handle (manager a) schema ctx)"

subsection \<open>What aggregation decides\<close>

text \<open>
  Specification: \<open>passed hs ctx\<close> runs handlers in order as long as each finds its method and
  accepts it; \<open>chosen hs ctx\<close> is the verdict of the first handler that finds its method.
\<close>

fun passed :: "'c AuthHandler list \<Rightarrow> 'c AuthContext \<Rightarrow> 'c AuthContext option" where
  "passed [] ctx = Some ctx"
| "passed (h # hs) ctx = (case Handle h ctx of ((True, None), ctx1) \<Rightarrow> passed hs ctx1 | _ \<Rightarrow> None)"

fun chosen :: "'c AuthHandler list \<Rightarrow> 'c AuthContext \<Rightarrow> (string option \<times> 'c AuthContext) option" where
  "chosen [] ctx = None"
| "chosen (h # hs) ctx =
     (case Handle h ctx of ((found, err), ctx1) \<Rightarrow> if found then Some (err, ctx1) else chosen hs ctx1)"

lemma and_loop:
  assumes "agg \<noteq> AggOr"
  shows "case passed hs ctx of
      Some ctx' \<Rightarrow> schema_loop agg len hs ctx = ((len = 0, None), ctx')
    | None \<Rightarrow> (\<exists>found e ctx'. schema_loop agg len hs ctx = ((found, Some e), ctx') \<and> genericError ctx' \<noteq> None)"
  using assms
proof (induction hs arbitrary: ctx)
  case Nil
  then show ?case by simp
next
  case (Cons h hs)
  obtain found err ctx1 where h: "Handle h ctx = ((found, err), ctx1)"
    by (metis prod.exhaust_sel)
  show ?case
  proof (cases "found \<and> err = None")
    case True
    with Cons.IH [OF Cons.prems, of ctx1] Cons.prems h show ?thesis
      by (cases "passed hs ctx1") auto
  next
    case False
    then have "passed (h # hs) ctx = None"
      using h by (auto split: bool.splits option.splits)
    moreover have "\<exists>found e ctx'. schema_loop agg len (h # hs) ctx = ((found, Some e), ctx') \<and> genericError ctx' \<noteq> None"
      using False Cons.prems h
      by (cases found) (auto simp: SetGenericErrorCode_def split: option.splits)
    ultimately show ?thesis by simp
  qed
qed

lemma or_loop:
  "snd (fst (schema_loop AggOr len hs ctx)) = (case chosen hs ctx of None \<Rightarrow> None | Some (err, _) \<Rightarrow> err) \<and>
   fst (fst (schema_loop AggOr len hs ctx)) = (if chosen hs ctx = None then len = 0 else True)"
  by (induction hs arbitrary: ctx) (auto split: prod.splits option.splits)

lemma Handler_AddHandler:
  "Handler (AddHandler s h) n =
     (case Handler s n of Inr h' \<Rightarrow> Inr h' | Inl e \<Rightarrow> if n = handler_Name h then Inr h else Inl e)"
  by (auto simp: Handler_def AddHandler_def gomap split: option.splits)

subsection \<open>Properties\<close>

text \<open>
  A schema that aggregates with AND succeeds exactly when all of its handlers, run in order on
  the context the previous ones left, find their method and accept it; otherwise it
  returns an error and the context carries a generic error. On success the flag it returns
  says that no method was found, unless the schema has no handlers.
\<close>

theorem and_schema_requires_all:
  assumes "agg \<noteq> AggOr"
  shows "case passed hs ctx of
      Some ctx' \<Rightarrow> Handle (AuthSchema n agg hs) ctx = ((hs = [], None), ctx')
    | None \<Rightarrow> (\<exists>found e ctx'. Handle (AuthSchema n agg hs) ctx = ((found, Some e), ctx') \<and> genericError ctx' \<noteq> None)"
  using and_loop [where len = "length hs" and hs = hs and ctx = ctx, OF assms]
  by (cases "passed hs ctx") simp_all

theorem and_schema_requires_all_witness:
  "Handle (AuthSchema ''s'' AggAnd [Method ''noauth'' NoAuth_Handle, Method ''noauth2'' NoAuth_Handle]) (empty_context ()) =
     ((False, None), snd (NoAuth_Handle (empty_context ())))"
proof -
  have "AggAnd \<noteq> AggOr" by (simp add: AggAnd_def AggOr_def)
  from and_schema_requires_all [OF this, where hs = "[Method ''noauth'' NoAuth_Handle, Method ''noauth2'' NoAuth_Handle]"
      and ctx = "empty_context ()" and n = "''s''"]
  show ?thesis by (simp add: NoAuth_Handle_def)
qed

text \<open>
  A schema that aggregates with OR reports the verdict of the first handler that finds its
  method; handlers that do not find theirs are passed over with their errors. When no handler
  finds its method there is no error, and the flag is false unless the schema is empty.
\<close>

theorem or_schema_first_found:
  "snd (fst (Handle (AuthSchema n AggOr hs) ctx)) = (case chosen hs ctx of None \<Rightarrow> None | Some (err, _) \<Rightarrow> err) \<and>
   fst (fst (Handle (AuthSchema n AggOr hs) ctx)) = (if chosen hs ctx = None then hs = [] else True)"
  using or_loop [of "length hs" hs ctx] by simp

text \<open>
  The manager looks at the error only. A request in which no handler of an OR schema finds
  its method, because it carries no credentials at all, is therefore admitted.
\<close>

theorem or_schema_admits_without_method:
  assumes "chosen hs ctx = None"
  shows "fst (AuthManager_Handle \<lparr>manager_handlers = NewHandlerStore,
      manager_schemas = AddHandler NewHandlerStore (AuthSchema n AggOr hs)\<rparr> n ctx) = None"
proof -
  have "snd (fst (Handle (AuthSchema n AggOr hs) ctx)) = None"
    using or_loop [of "length hs" hs ctx] assms by simp
  then show ?thesis
    by (simp add: AuthManager_Handle_def Handler_AddHandler) (auto simp: Handler_def NewHandlerStore_def split: prod.splits)
qed

definition absent_method :: "string \<Rightarrow> 'c AuthHandler" where
  "absent_method n = Method n (\<lambda>ctx. ((False, Some ''no credentials''), ctx))"

theorem or_schema_admits_without_method_witness:
  "fst (AuthManager_Handle \<lparr>manager_handlers = NewHandlerStore,
      manager_schemas = AddHandler NewHandlerStore (AuthSchema ''any'' AggOr [absent_method ''login'', absent_method ''token''])\<rparr>
      ''any'' (empty_context ())) = None"
proof -
  have "chosen [absent_method ''login'', absent_method ''token''] (empty_context ()) = None"
    by (simp add: absent_method_def)
  from or_schema_admits_without_method [OF this] show ?thesis .
qed

text \<open>
  An AND schema nested in an AND schema is refused even when every handler of the inner one
  accepts the request, because the inner schema reports that no method was found.
\<close>

theorem nested_and_schema_refused:
  "Handle (AuthSchema outer AggAnd [AuthSchema inner AggAnd [Method ''noauth'' NoAuth_Handle]]) ctx =
     ((False, Some ''auth method not found in request''),
      SetGenericErrorCode ErrorCodeUnauthorized [] (snd (NoAuth_Handle ctx)))"
  by (simp add: NoAuth_Handle_def AggAnd_def AggOr_def)

lemma first_schema_append:
  "first_schema (xs @ ys) access = (case first_schema xs access of None \<Rightarrow> first_schema ys access | Some s \<Rightarrow> Some s)"
  by (induction xs access rule: first_schema.induct) auto

text \<open>
  Adding a schema for a path extends its lookups and nothing else: schemas added earlier for
  an overlapping access win, other accesses and other paths are as before.
\<close>

theorem endpoint_schema_lookup:
  "Schema path access (AddSchema p a s e) =
     (case Schema path access e of
        Some s' \<Rightarrow> Some s'
      | None \<Rightarrow> if path = p \<and> Check a access then Some s else None)"
  by (auto simp: Schema_def AddSchema_def gomap first_schema_append Let_def split: option.splits)

text \<open>
  An endpoint configured by an HTTP method applies to the accesses of that method
  alone: for two of the five known methods the schema is found exactly when they are the same,
  and a method outside the table, such as one in lower case, is never found, so
  that such an endpoint is left to the default schema.
\<close>

theorem endpoint_method_schema:
  assumes "m' \<in> fst ` set httpMethods2AccessTypes"
  shows "Schema p (HttpMethod2Access m') (init_endpoint p [\<lparr>ACCESS = x, HTTP_METHOD = m, SCHEMA = s\<rparr>] e) =
    (if m = '''' then (if Check x (HttpMethod2Access m') then Some s else None)
     else if m = m' then Some s else None)"
proof -
  have "Check (HttpMethod2Access m) (HttpMethod2Access m') \<longleftrightarrow> m = m'"
    using assms
    by (auto simp: httpMethods2AccessTypes_def HttpMethod2Access_def Check_def access_defs)
  then show ?thesis
    by (simp add: Schema_def init_endpoint_def resolve_access_def gomap)
qed

theorem endpoint_method_schema_witness:
  "Schema ''/a'' (HttpMethod2Access ''GET'') (init_endpoint ''/a'' [\<lparr>ACCESS = 0, HTTP_METHOD = ''GET'', SCHEMA = ''token''\<rparr>] []) =
     Some ''token'' \<and>
   Schema ''/a'' (HttpMethod2Access ''GET'') (init_endpoint ''/a'' [\<lparr>ACCESS = 0, HTTP_METHOD = ''get'', SCHEMA = ''token''\<rparr>] []) =
     None"
proof -
  have "''GET'' \<in> fst ` set httpMethods2AccessTypes" by (simp add: httpMethods2AccessTypes_def)
  from endpoint_method_schema [OF this, of "''/a''" 0 "''GET''" "''token''" "[]"]
    endpoint_method_schema [OF this, of "''/a''" 0 "''get''" "''token''" "[]"]
  show ?thesis by simp
qed

end
