(* ===== verification/AuthSms.thy ===== *)
theory AuthSms
  imports AuthSchemas
begin

section \<open>Confirmation by SMS code\<close>

text \<open>
  Models \<^verbatim>\<open>pkg/auth/auth_methods/auth_sms/auth_sms.go\<close>: a request is answered with an encrypted
  token and an SMS, and is let through when it comes back with the token and the code. The tries
  and the code live in the cache under the identifier of the token, a resend delay under the
  identifier of the user. The cache, the encryption, the digest, the SMS
  provider and the check of the request content are fields of the handler; the random source
  and the clock are arguments. A call reads the clock once. A run-time panic is \<open>Inl\<close>.
\<close>

subsection \<open>State\<close>

record SmsCacheToken =
  Try :: int
  Code :: string
  Checksum :: string
  SmsId :: string

record SmsToken =
  Exp :: int
  ID :: string

text \<open>
  What the cache holds; an object read as the other type has the zero fields of the type, as JSON
  decoding leaves them.
\<close>

datatype sms_item = SmsDelayItem int | SmsTokenItem SmsCacheToken

fun as_token :: "sms_item \<Rightarrow> SmsCacheToken" where
  "as_token (SmsTokenItem tok) = tok"
| "as_token (SmsDelayItem t) = \<lparr>Try = 0, Code = '''', Checksum = '''', SmsId = ''''\<rparr>"

fun as_delay :: "sms_item \<Rightarrow> int" where
  "as_delay (SmsDelayItem t) = t"
| "as_delay (SmsTokenItem tok) = 0"

record 'c AuthSms =
  TOKEN_TTL_SECONDS :: int
  SMS_DELAY_SECONDS :: int
  SMS_SECRET :: bytes
  MAX_TRIES :: int
  CODE_LENGTH :: nat
  TESTING :: bool
  testCodes :: "(string, string) gomap"
  Encryption :: "SmsToken ParameterEncryption"
  smsCache :: "('c, sms_item) Cache"
  digest :: "bytes \<Rightarrow> bytes \<Rightarrow> bytes"
  encodeSum :: "bytes \<Rightarrow> string"
  decodeSum :: "string \<Rightarrow> string + bytes"
  CheckRequestContent :: "'c AuthContext \<Rightarrow> string option \<times> string \<times> bool"
  Send :: "string \<Rightarrow> string \<Rightarrow> string + string"

record sms_random =
  newId :: string
  randUint32 :: nat
  encRandom :: random

text \<open>The messages handed to the provider, and the code a testing build publishes.\<close>

record sms_effects =
  sent :: "(string \<times> string) list"
  LastSmsCode :: "string option"

definition no_effects :: sms_effects where
  "no_effects = \<lparr>sent = [], LastSmsCode = None\<rparr>"

definition SmsProtocol :: string where "SmsProtocol = ''sms''"
definition TokenName :: string where "TokenName = ''sms-token''"
definition PhoneName :: string where "PhoneName = ''sms-phone''"
definition DelayName :: string where "DelayName = ''sms-delay''"
definition CodeName :: string where "CodeName = ''sms-code''"

definition ErrorCodeSmsConfirmationRequired :: string where "ErrorCodeSmsConfirmationRequired = ''sms_confirmation_required''"
definition ErrorCodeSmsTokenRequired :: string where "ErrorCodeSmsTokenRequired = ''sms_token_required''"
definition ErrorCodeTokenExpired :: string where "ErrorCodeTokenExpired = ''sms_token_expired''"
definition ErrorCodeInvalidToken :: string where "ErrorCodeInvalidToken = ''sms_token_invalid''"
definition ErrorCodeInvalidSmsCode :: string where "ErrorCodeInvalidSmsCode = ''sms_code_invalid''"
definition ErrorCodeWaitDelay :: string where "ErrorCodeWaitDelay = ''sms_wait_delay''"
definition ErrorCodeContentMismatch :: string where "ErrorCodeContentMismatch = ''sms_content_mismatch''"
definition ErrorCodeInvalidPhone :: string where "ErrorCodeInvalidPhone = ''sms_invalid_phone''"
definition ErrorCodeTooManyTries :: string where "ErrorCodeTooManyTries = ''sms_too_many_tries''"

subsection \<open>Helpers of the handler\<close>

definition hmacOfRequest :: "'c AuthSms \<Rightarrow> 'c AuthContext \<Rightarrow> string \<Rightarrow> Hmac" where
  "hmacOfRequest a ctx userId =
     Hmac_Calc [userId, requestMethod ctx, requestPath ctx, requestContent ctx] (NewHmac (SMS_SECRET a))"

definition smsDelayCacheKey :: "string \<Rightarrow> string" where
  "smsDelayCacheKey userId = ''sms-delay/'' @ userId"

definition smsTokenCacheKey :: "string \<Rightarrow> string" where
  "smsTokenCacheKey tokenId = ''sms-token/'' @ tokenId"

text \<open>\<open>None\<close> is the panic of a slice whose start is negative.\<close>

definition genCode :: "'c AuthSms \<Rightarrow> nat \<Rightarrow> string \<Rightarrow> string option" where
  "genCode a r phone =
     (case (if TESTING a then map_of (testCodes a) phone else None) of
        Some code \<Rightarrow> Some code
      | None \<Rightarrow>
          let str = zero_padded 8 r
          in if length str < CODE_LENGTH a then None else Some (drop (length str - CODE_LENGTH a) str))"

definition unset :: "'c AuthSms \<Rightarrow> int \<Rightarrow> string \<Rightarrow> 'c AuthContext \<Rightarrow> 'c AuthContext" where
  "unset a now key ctx = ctx\<lparr>backend := snd (Cache_Unset (smsCache a) now key (backend ctx))\<rparr>"

definition setToken ::
    "'c AuthSms \<Rightarrow> int \<Rightarrow> random \<Rightarrow> SmsCacheToken \<Rightarrow> SmsToken \<Rightarrow> 'c AuthContext \<Rightarrow> string option \<times> 'c AuthContext" where
  "setToken a now rnd cacheToken requestToken ctx =
     (case Cache_Set (smsCache a) now (smsTokenCacheKey (ID requestToken)) (SmsTokenItem cacheToken)
             [TOKEN_TTL_SECONDS a] (backend ctx) of
        (Some err, c) \<Rightarrow> (Some err, SetGenericErrorCode ErrorCodeInternalServerError [] (ctx\<lparr>backend := c\<rparr>))
      | (None, c) \<Rightarrow>
          (case Encryption_SetAuthParameter (Encryption a) rnd SmsProtocol TokenName
                  (requestToken\<lparr>Exp := SetTTL now (TOKEN_TTL_SECONDS a)\<rparr>) [] (ctx\<lparr>backend := c\<rparr>) of
             (Some err, ctx') \<Rightarrow> (Some err, SetGenericErrorCode ErrorCodeInternalServerError [] ctx')
           | (None, ctx') \<Rightarrow> (None, ctx')))"

text \<open>\<open>fmt.Sprintf\<close> of a template with the verb \<open>%s\<close> and one string argument.\<close>

fun sprintf_s :: "string \<Rightarrow> string \<Rightarrow> string" where
  "sprintf_s (CHR ''%'' # CHR ''s'' # rest) arg = arg @ rest"
| "sprintf_s (c # rest) arg = c # sprintf_s rest arg"
| "sprintf_s [] arg = ''%!(EXTRA string='' @ arg @ '')''"

subsection \<open>The handler\<close>

text \<open>The request carries a code: the part from the check of the tries on.\<close>

definition check_cache_token ::
    "'c AuthSms \<Rightarrow> int \<Rightarrow> sms_random \<Rightarrow> string \<Rightarrow> string \<Rightarrow> SmsToken \<Rightarrow> SmsCacheToken \<Rightarrow> 'c handle" where
  "check_cache_token a now rnd userId code token cacheToken ctx =
     (let oldCacheKey = smsTokenCacheKey (ID token) in
      if Try cacheToken \<ge> MAX_TRIES a then
        refuse True ErrorCodeTooManyTries ''too many tries'' (unset a now oldCacheKey ctx)
      else
        case Hmac_CheckStr (digest a) (decodeSum a) (hmacOfRequest a ctx userId) (Checksum cacheToken) of
          Some err \<Rightarrow> refuse False ErrorCodeContentMismatch err ctx
        | None \<Rightarrow>
            if code \<noteq> Code cacheToken then
              (case setToken a now (encRandom rnd) (cacheToken\<lparr>Try := i64 (Try cacheToken + 1)\<rparr>)
                      (token\<lparr>ID := newId rnd, Exp := SetTTL now (TOKEN_TTL_SECONDS a)\<rparr>) (unset a now oldCacheKey ctx) of
                 (Some err, ctx') \<Rightarrow> ((True, Some err), ctx')
               | (None, ctx') \<Rightarrow> refuse True ErrorCodeInvalidSmsCode ''invalid SMS code'' ctx')
            else ((True, None), unset a now (smsDelayCacheKey userId) (unset a now oldCacheKey ctx)))"

definition check_code :: "'c AuthSms \<Rightarrow> int \<Rightarrow> sms_random \<Rightarrow> string \<Rightarrow> string \<Rightarrow> 'c handle" where
  "check_code a now rnd userId code ctx =
     (case Encryption_GetAuthParameter (Encryption a) SmsProtocol TokenName [] ctx of
        Absent \<Rightarrow> refuse False ErrorCodeSmsTokenRequired ''SMS token not found'' ctx
      | Present (Inl err) \<Rightarrow> refuse True ErrorCodeInvalidToken err ctx
      | Present (Inr token) \<Rightarrow>
          if Expired now (Exp token) then refuse True ErrorCodeTokenExpired ''token expired'' ctx
          else
            case Cache_Get (smsCache a) now (smsTokenCacheKey (ID token)) (backend ctx) of
              Failed found err \<Rightarrow> refuse True ErrorCodeInternalServerError err ctx
            | Miss \<Rightarrow> refuse True ErrorCodeTokenExpired ''cache token expired'' ctx
            | Hit item \<Rightarrow> check_cache_token a now rnd userId code token (as_token item) ctx)"

text \<open>The request carries no code: from the check of the phone on.\<close>

definition send_code ::
    "'c AuthSms \<Rightarrow> int \<Rightarrow> sms_random \<Rightarrow> User \<Rightarrow> string \<Rightarrow> 'c AuthContext \<Rightarrow>
     string + (((bool \<times> string option) \<times> 'c AuthContext) \<times> sms_effects)" where
  "send_code a now rnd user message ctx =
     (case Phone user of
        None \<Rightarrow> Inr (refuse True ErrorCodeInternalServerError ''user must be of UserWithPhone interface'' ctx, no_effects)
      | Some phone \<Rightarrow>
          if phone = '''' then Inr (refuse True ErrorCodeInvalidPhone ''unknown phone number'' ctx, no_effects)
          else
            let ctx1 = SetAuthParameter SmsProtocol PhoneName (MaskPhone phone) [] ctx in
            case genCode a (randUint32 rnd) phone of
              None \<Rightarrow> Inl ''slice bounds out of range''
            | Some code \<Rightarrow>
                let checksum = Hmac_SumStr (digest a) (encodeSum a) (hmacOfRequest a ctx1 (UserId user));
                    last = (if TESTING a then Some code else None);
                    text = sprintf_s (if message = '''' then ''code %s'' else message) code
                in case Send a text phone of
                     Inl err \<Rightarrow> Inr (refuse True ErrorCodeInternalServerError err ctx1,
                                  \<lparr>sent = [(text, phone)], LastSmsCode = last\<rparr>)
                   | Inr smsId \<Rightarrow>
                       (case setToken a now (encRandom rnd)
                               \<lparr>Try = 1, Code = code, Checksum = checksum, SmsId = smsId\<rparr>
                               \<lparr>Exp = 0, ID = newId rnd\<rparr> ctx1 of
                          (Some err, ctx2) \<Rightarrow> Inr (((True, Some err), ctx2), \<lparr>sent = [(text, phone)], LastSmsCode = last\<rparr>)
                        | (None, ctx2) \<Rightarrow>
                            let c = snd (Cache_Set (smsCache a) now (smsDelayCacheKey (UserId user)) (SmsDelayItem now)
                                          [SMS_DELAY_SECONDS a] (backend ctx2));
                                ctx3 = SetAuthParameter SmsProtocol DelayName (decimal_int (SMS_DELAY_SECONDS a)) []
                                         (ctx2\<lparr>backend := c\<rparr>)
                            in Inr (refuse True ErrorCodeSmsConfirmationRequired ''sms code not found'' ctx3,
                                    \<lparr>sent = [(text, phone)], LastSmsCode = last\<rparr>)))"

definition request_code ::
    "'c AuthSms \<Rightarrow> int \<Rightarrow> sms_random \<Rightarrow> User \<Rightarrow> string \<Rightarrow> 'c AuthContext \<Rightarrow>
     string + (((bool \<times> string option) \<times> 'c AuthContext) \<times> sms_effects)" where
  "request_code a now rnd user message ctx =
     (case Cache_Get (smsCache a) now (smsDelayCacheKey (UserId user)) (backend ctx) of
        Failed found err \<Rightarrow> Inr (refuse True ErrorCodeInternalServerError err ctx, no_effects)
      | Hit item \<Rightarrow>
          let passed = go_quot (now - as_delay item) Second;
              delay = (if passed > SMS_DELAY_SECONDS a then 0 else SMS_DELAY_SECONDS a - passed)
          in Inr (refuse True ErrorCodeWaitDelay ''wait for delay''
                    (SetAuthParameter SmsProtocol DelayName (decimal_int delay) [] ctx), no_effects)
      | Miss \<Rightarrow> send_code a now rnd user message ctx)"

definition AuthSms_Handle ::
    "'c AuthSms \<Rightarrow> int \<Rightarrow> sms_random \<Rightarrow> 'c AuthContext \<Rightarrow>
     string + (((bool \<times> string option) \<times> 'c AuthContext) \<times> sms_effects)" where
  "AuthSms_Handle a now rnd ctx =
     (case CheckRequestContent a ctx of
        (Some err, _, _) \<Rightarrow> Inr (refuse True ErrorCodeFormat err ctx, no_effects)
      | (None, message, skip) \<Rightarrow>
          if skip then Inr (((True, None), ctx), no_effects)
          else
            case authUser ctx of
              None \<Rightarrow> Inr (refuse True ErrorCodeUnauthorized ''unknown user'' ctx, no_effects)
            | Some user \<Rightarrow>
                let code = GetAuthParameter SmsProtocol CodeName [] ctx
                in if code \<noteq> '''' then Inr (check_code a now rnd (UserId user) code ctx, no_effects)
                   else request_code a now rnd user message ctx)"

subsection \<open>Lemmas\<close>

lemma setToken_ok:
  assumes "setToken a now rnd tok rtok ctx = (None, ctx')"
  shows "Cache_Set (smsCache a) now (smsTokenCacheKey (ID rtok)) (SmsTokenItem tok) [TOKEN_TTL_SECONDS a] (backend ctx)
      = (None, backend ctx') \<and> genericError ctx' = genericError ctx"
  using assms
  by (auto simp: setToken_def Encryption_SetAuthParameter_def split: prod.splits option.splits sum.splits)

lemma unset_frame [simp]:
  "requestHeaders (unset a now k ctx) = requestHeaders ctx" "requestPath (unset a now k ctx) = requestPath ctx"
  "requestMethod (unset a now k ctx) = requestMethod ctx" "requestContent (unset a now k ctx) = requestContent ctx"
  "genericError (unset a now k ctx) = genericError ctx" "authUser (unset a now k ctx) = authUser ctx"
  "backend (unset a now k ctx) = snd (Cache_Unset (smsCache a) now k (backend ctx))"
  by (simp_all add: unset_def)

lemma check_cache_token_success:
  assumes "check_cache_token a now rnd userId code token tok ctx = ((found, None), ctx')"
  shows "found \<and> Try tok < MAX_TRIES a \<and> code = Code tok \<and>
    Hmac_CheckStr (digest a) (decodeSum a) (hmacOfRequest a ctx userId) (Checksum tok) = None \<and>
    ctx' = unset a now (smsDelayCacheKey userId) (unset a now (smsTokenCacheKey (ID token)) ctx)"
  using assms
  by (auto simp: check_cache_token_def Let_def split: option.splits prod.splits if_splits)

lemma check_code_success:
  assumes "check_code a now rnd userId code ctx = ((found, None), ctx')"
  shows "\<exists>token item. found \<and>
    Encryption_GetAuthParameter (Encryption a) SmsProtocol TokenName [] ctx = Present (Inr token) \<and>
    \<not> Expired now (Exp token) \<and>
    Cache_Get (smsCache a) now (smsTokenCacheKey (ID token)) (backend ctx) = Hit item \<and>
    Try (as_token item) < MAX_TRIES a \<and> code = Code (as_token item) \<and>
    Hmac_CheckStr (digest a) (decodeSum a) (hmacOfRequest a ctx userId) (Checksum (as_token item)) = None \<and>
    ctx' = unset a now (smsDelayCacheKey userId) (unset a now (smsTokenCacheKey (ID token)) ctx)"
  using assms
  by (auto simp: check_code_def split: param_reply.splits sum.splits if_splits cache_reply.splits
      dest!: check_cache_token_success)

lemma request_code_no_success:
  "request_code a now rnd user message ctx \<noteq> Inr (((found, None), ctx'), eff)"
  by (auto simp: request_code_def send_code_def Let_def
      split: cache_reply.splits option.splits sum.splits prod.splits)

subsection \<open>Properties\<close>

text \<open>
  C27: a request is admitted only if the check of its content exempts it from confirmation, and
  then nothing is changed, or if it was confirmed: it carries a code and a valid, unexpired
  token, the cache holds an entry for that token with tries left, the code is the one of the
  entry, and the entry was made by the same user for the same method, path and content up to the
  digest. Then both cache entries are removed. In either case no SMS is sent.
\<close>

theorem sms_success_was_confirmed:
  assumes "AuthSms_Handle a now rnd ctx = Inr (((found, None), ctx'), eff)"
  shows "found \<and> eff = no_effects \<and>
    ((\<exists>message. CheckRequestContent a ctx = (None, message, True)) \<and> ctx' = ctx \<or>
     (\<exists>message user token item. CheckRequestContent a ctx = (None, message, False) \<and> authUser ctx = Some user \<and>
       Encryption_GetAuthParameter (Encryption a) SmsProtocol TokenName [] ctx = Present (Inr token) \<and>
       \<not> Expired now (Exp token) \<and>
       Cache_Get (smsCache a) now (smsTokenCacheKey (ID token)) (backend ctx) = Hit item \<and>
       Try (as_token item) < MAX_TRIES a \<and>
       GetAuthParameter SmsProtocol CodeName [] ctx = Code (as_token item) \<and> Code (as_token item) \<noteq> '''' \<and>
       Hmac_CheckStr (digest a) (decodeSum a) (hmacOfRequest a ctx (UserId user)) (Checksum (as_token item)) = None \<and>
       ctx' = unset a now (smsDelayCacheKey (UserId user)) (unset a now (smsTokenCacheKey (ID token)) ctx)))"
proof -
  obtain message skip where c: "CheckRequestContent a ctx = (None, message, skip)"
    using assms by (auto simp: AuthSms_Handle_def split: prod.splits option.splits)
  show ?thesis
  proof (cases skip)
    case True
    then show ?thesis using assms c by (auto simp: AuthSms_Handle_def)
  next
    case False
    then obtain user where u: "authUser ctx = Some user"
      and code: "GetAuthParameter SmsProtocol CodeName [] ctx \<noteq> ''''"
      and run: "check_code a now rnd (UserId user) (GetAuthParameter SmsProtocol CodeName [] ctx) ctx = ((found, None), ctx')"
      and eff: "eff = no_effects"
      using assms c
      by (auto simp: AuthSms_Handle_def Let_def request_code_no_success split: option.splits if_splits)
    have c': "CheckRequestContent a ctx = (None, message, False)" using c False by simp
    from check_code_success [OF run] obtain token item where
      "found" "Encryption_GetAuthParameter (Encryption a) SmsProtocol TokenName [] ctx = Present (Inr token)"
      "\<not> Expired now (Exp token)" "Cache_Get (smsCache a) now (smsTokenCacheKey (ID token)) (backend ctx) = Hit item"
      "Try (as_token item) < MAX_TRIES a" "GetAuthParameter SmsProtocol CodeName [] ctx = Code (as_token item)"
      "Hmac_CheckStr (digest a) (decodeSum a) (hmacOfRequest a ctx (UserId user)) (Checksum (as_token item)) = None"
      "ctx' = unset a now (smsDelayCacheKey (UserId user)) (unset a now (smsTokenCacheKey (ID token)) ctx)"
      by (elim exE conjE)
    moreover from this code have "Code (as_token item) \<noteq> ''''" by simp
    ultimately show ?thesis using c' u eff by (intro conjI disjI2 exI) assumption+
  qed
qed

text \<open>
  Specification of the check of a code against the entry of a token: what becomes of the entry
  the client can use next.
\<close>

datatype sms_verdict = Confirmed | WrongCode | TooManyTries | ContentMismatch

definition sms_attempt ::
    "int \<Rightarrow> bool \<Rightarrow> string \<Rightarrow> SmsCacheToken \<Rightarrow> sms_verdict \<times> SmsCacheToken option" where
  "sms_attempt maxTries sameRequest code tok =
     (if maxTries \<le> Try tok then (TooManyTries, None)
      else if \<not> sameRequest then (ContentMismatch, Some tok)
      else if code \<noteq> Code tok then (WrongCode, Some (tok\<lparr>Try := Try tok + 1\<rparr>))
      else (Confirmed, None))"

fun verdict_reply :: "sms_verdict \<Rightarrow> bool \<times> string option" where
  "verdict_reply Confirmed = (True, None)"
| "verdict_reply WrongCode = (True, Some ErrorCodeInvalidSmsCode)"
| "verdict_reply TooManyTries = (True, Some ErrorCodeTooManyTries)"
| "verdict_reply ContentMismatch = (False, Some ErrorCodeContentMismatch)"

lemma sms_keys [simp]:
  "smsTokenCacheKey x = smsTokenCacheKey y \<longleftrightarrow> x = y" "smsTokenCacheKey x \<noteq> smsDelayCacheKey u"
  "smsDelayCacheKey u \<noteq> smsTokenCacheKey x"
  by (simp_all add: smsTokenCacheKey_def smsDelayCacheKey_def)

lemma unset_live:
  assumes "cache (smsCache a) live ok" and "ok (backend ctx)"
  shows "ok (backend (unset a now k ctx)) \<and>
    live t (backend (unset a now k ctx)) = (live t (backend ctx))(k := None)"
  using cache.cache_unset [OF assms, of now k _ _ t] by (cases "Cache_Unset (smsCache a) now k (backend ctx)") simp

lemma setToken_live:
  assumes "cache (smsCache a) live ok" and "ok (backend ctx)" and "0 < TOKEN_TTL_SECONDS a"
    and "in64 (Second * TOKEN_TTL_SECONDS a)" and "now \<le> t" and "t \<le> now + Second * TOKEN_TTL_SECONDS a"
    and "\<And>obj. \<exists>v. Encrypt (Encryption a) rnd obj = Inr v"
  shows "\<exists>ctx'. setToken a now rnd tok rtok ctx = (None, ctx') \<and> ok (backend ctx') \<and>
    genericError ctx' = genericError ctx \<and>
    live t (backend ctx') = (live t (backend ctx))(smsTokenCacheKey (ID rtok) \<mapsto> SmsTokenItem tok)"
proof -
  obtain e c where s: "Cache_Set (smsCache a) now (smsTokenCacheKey (ID rtok)) (SmsTokenItem tok) [TOKEN_TTL_SECONDS a]
      (backend ctx) = (e, c)"
    by (cases "Cache_Set (smsCache a) now (smsTokenCacheKey (ID rtok)) (SmsTokenItem tok) [TOKEN_TTL_SECONDS a]
      (backend ctx)")
  note set = cache.cache_set [OF assms(1,2,5,3,4) s]
  obtain v where v: "Encrypt (Encryption a) rnd (rtok\<lparr>Exp := SetTTL now (TOKEN_TTL_SECONDS a)\<rparr>) = Inr v"
    using assms(7) by blast
  show ?thesis
    using set s v assms(6)
    by (simp add: setToken_def Encryption_SetAuthParameter_def EncodeAuthParameter_def)
qed

text \<open>
  C3: the handler implements the specification \<open>sms_attempt\<close> on every branch: it answers with the
  error code of the verdict, a wrong code moves the entry under a new token identifier with
  one try more and makes the old token useless, exhausted tries and a confirmation
  remove the entry, and a confirmation also ends the resend delay.
\<close>

theorem sms_check_refines:
  assumes "cache (smsCache a) live ok" and "ok (backend ctx)" and "0 < TOKEN_TTL_SECONDS a"
    and "in64 (Second * TOKEN_TTL_SECONDS a)" and "now \<le> t" and "t \<le> now + Second * TOKEN_TTL_SECONDS a"
    and "\<And>obj. \<exists>v. Encrypt (Encryption a) (encRandom rnd) obj = Inr v"
    and "genericError ctx = None" and "in64 (Try tok + 1)" and "newId rnd \<noteq> ID token"
    and "live t (backend ctx) (smsTokenCacheKey (ID token)) = Some (SmsTokenItem tok)"
    and "check_cache_token a now rnd userId code token tok ctx = ((found, err), ctx')"
    and "sms_attempt (MAX_TRIES a)
      (Hmac_CheckStr (digest a) (decodeSum a) (hmacOfRequest a ctx userId) (Checksum tok) = None) code tok = (v, tok')"
  shows "verdict_reply v = (found, genericError ctx') \<and> (err = None \<longleftrightarrow> v = Confirmed) \<and> ok (backend ctx') \<and>
    live t (backend ctx') (smsTokenCacheKey (if v = WrongCode then newId rnd else ID token)) = map_option SmsTokenItem tok' \<and>
    (v = WrongCode \<longrightarrow> live t (backend ctx') (smsTokenCacheKey (ID token)) = None) \<and>
    (v = Confirmed \<longrightarrow> live t (backend ctx') (smsDelayCacheKey userId) = None)"
proof -
  define c1 where "c1 = unset a now (smsTokenCacheKey (ID token)) ctx"
  have c1: "ok (backend c1)" "live t (backend c1) = (live t (backend ctx))(smsTokenCacheKey (ID token) := None)"
    "genericError c1 = None"
    using unset_live [OF assms(1,2)] assms(8) by (simp_all add: c1_def del: unset_frame(7))
  show ?thesis
  proof (cases "Try tok \<ge> MAX_TRIES a")
    case True
    then have "v = TooManyTries" "tok' = None" "((found, err), ctx') = refuse True ErrorCodeTooManyTries ''too many tries'' c1"
      using assms(12,13) by (auto simp: sms_attempt_def check_cache_token_def c1_def)
    with c1 show ?thesis by (simp add: refuse_def)
  next
    case False
    show ?thesis
    proof (cases "Hmac_CheckStr (digest a) (decodeSum a) (hmacOfRequest a ctx userId) (Checksum tok)")
      case (Some e)
      then have "v = ContentMismatch" "tok' = Some tok" "((found, err), ctx') = refuse False ErrorCodeContentMismatch e ctx"
        using assms(12,13) False by (auto simp: sms_attempt_def check_cache_token_def)
      with assms(2,8,11) show ?thesis by (simp add: refuse_def)
    next
      case None
      show ?thesis
      proof (cases "code = Code tok")
        case True
        then have "v = Confirmed" "tok' = None" "found" "err = None" and ctx': "ctx' = unset a now (smsDelayCacheKey userId) c1"
          using assms(12,13) False None by (auto simp: sms_attempt_def check_cache_token_def c1_def)
        moreover have "ok (backend ctx')" "live t (backend ctx') = (live t (backend c1))(smsDelayCacheKey userId := None)"
          using unset_live [OF assms(1) c1(1)] by (simp_all add: ctx' del: unset_frame(7))
        ultimately show ?thesis using c1 by (simp del: unset_frame(7))
      next
        case wrong: False
        then have v: "v = WrongCode" "tok' = Some (tok\<lparr>Try := Try tok + 1\<rparr>)"
          using assms(13) False None by (auto simp: sms_attempt_def)
        obtain c2 where c2: "setToken a now (encRandom rnd) (tok\<lparr>Try := Try tok + 1\<rparr>)
            (token\<lparr>ID := newId rnd, Exp := SetTTL now (TOKEN_TTL_SECONDS a)\<rparr>) c1 = (None, c2)" "ok (backend c2)"
          "genericError c2 = None"
          "live t (backend c2) = (live t (backend c1))(smsTokenCacheKey (newId rnd) \<mapsto> SmsTokenItem (tok\<lparr>Try := Try tok + 1\<rparr>))"
          using setToken_live [OF assms(1) c1(1) assms(3-7), of "tok\<lparr>Try := Try tok + 1\<rparr>"
              "token\<lparr>ID := newId rnd, Exp := SetTTL now (TOKEN_TTL_SECONDS a)\<rparr>"] c1(3) by auto
        have "((found, err), ctx') = refuse True ErrorCodeInvalidSmsCode ''invalid SMS code'' c2"
          using assms(12) False None wrong c2(1) assms(9) by (simp add: check_cache_token_def c1_def Let_def i64_id)
        with v c1 c2 assms(10) show ?thesis by (simp add: refuse_def)
      qed
    qed
  qed
qed












lemma error_codes_distinct [simp]:
  "ErrorCodeInternalServerError \<noteq> ErrorCodeSmsConfirmationRequired" "ErrorCodeInvalidPhone \<noteq> ErrorCodeSmsConfirmationRequired"
  "ErrorCodeWaitDelay \<noteq> ErrorCodeSmsConfirmationRequired" "ErrorCodeFormat \<noteq> ErrorCodeSmsConfirmationRequired"
  "ErrorCodeUnauthorized \<noteq> ErrorCodeSmsConfirmationRequired"
  by (simp_all add: ErrorCodeInternalServerError_def ErrorCodeInvalidPhone_def ErrorCodeWaitDelay_def
      ErrorCodeFormat_def ErrorCodeUnauthorized_def ErrorCodeSmsConfirmationRequired_def)

lemma setToken_error:
  assumes "setToken a now rnd tok rtok ctx = (Some e, ctx')" and "genericError ctx = None"
  shows "genericError ctx' = Some ErrorCodeInternalServerError"
  using assms
  by (auto simp: setToken_def Encryption_SetAuthParameter_def split: prod.splits option.splits sum.splits)

lemma send_code_confirmation:
  assumes "send_code a now rnd user message ctx = Inr ((r, ctx'), eff)" and "genericError ctx = None"
    and "genericError ctx' = Some ErrorCodeSmsConfirmationRequired"
  shows "\<exists>tok rtok ctx1 ctx2. setToken a now (encRandom rnd) tok rtok ctx1 = (None, ctx2) \<and> backend ctx1 = backend ctx \<and>
    backend ctx' = snd (Cache_Set (smsCache a) now (smsDelayCacheKey (UserId user)) (SmsDelayItem now)
      [SMS_DELAY_SECONDS a] (backend ctx2)) \<and> length (sent eff) = 1"
  using assms
  by (auto simp: send_code_def Let_def refuse_def dest!: setToken_error
      split: option.splits sum.splits prod.splits if_splits)
    (intro exI conjI, assumption, simp, rule refl)+

lemma handle_confirmation:
  assumes "AuthSms_Handle a now rnd ctx = Inr ((r, ctx'), eff)" and "genericError ctx = None"
    and "genericError ctx' = Some ErrorCodeSmsConfirmationRequired"
    and "GetAuthParameter SmsProtocol CodeName [] ctx = ''''" and "authUser ctx = Some user"
  shows "\<exists>message. send_code a now rnd user message ctx = Inr ((r, ctx'), eff)"
  using assms
  by (auto simp: AuthSms_Handle_def request_code_def Let_def refuse_def
      split: option.splits prod.splits if_splits cache_reply.splits)

text \<open>
  Once an SMS was sent and the client was asked for its code, further requests of the same
  user without a code are told to wait and send no SMS, until the delay has passed.
\<close>

theorem sms_resend_throttled:
  assumes "cache (smsCache a) live ok" and "ok (backend ctx)"
    and "0 < TOKEN_TTL_SECONDS a" and "in64 (Second * TOKEN_TTL_SECONDS a)"
    and "0 < SMS_DELAY_SECONDS a" and "in64 (Second * SMS_DELAY_SECONDS a)"
    and "AuthSms_Handle a now rnd ctx = Inr ((r, ctx'), eff)" and "genericError ctx = None"
    and "genericError ctx' = Some ErrorCodeSmsConfirmationRequired"
    and "GetAuthParameter SmsProtocol CodeName [] ctx = ''''" and "authUser ctx = Some user"
    and "now \<le> t" and "t \<le> now + Second * SMS_DELAY_SECONDS a"
    and "backend ctx2 = backend ctx'" and "authUser ctx2 = Some user2" and "UserId user2 = UserId user"
    and "GetAuthParameter SmsProtocol CodeName [] ctx2 = ''''" and "CheckRequestContent a ctx2 = (None, message, False)"
  shows "length (sent eff) = 1 \<and>
    (\<exists>ctx3. AuthSms_Handle a t rnd2 ctx2 = Inr (((True, Some ''wait for delay''), ctx3), no_effects))"
proof -
  obtain m where "send_code a now rnd user m ctx = Inr ((r, ctx'), eff)"
    using handle_confirmation [OF assms(7-11)] by blast
  from send_code_confirmation [OF this assms(8,9)]
  obtain tok rtok ctx1 c2 where tok: "setToken a now (encRandom rnd) tok rtok ctx1 = (None, c2)" "backend ctx1 = backend ctx"
    and delay: "backend ctx' = snd (Cache_Set (smsCache a) now (smsDelayCacheKey (UserId user)) (SmsDelayItem now)
      [SMS_DELAY_SECONDS a] (backend c2))" and one: "length (sent eff) = 1" by blast
  have "ok (backend c2)"
    using setToken_ok [OF tok(1)] cache.cache_set [OF assms(1,2) order.refl assms(3,4)] tok(2) by metis
  then have "Cache_Get (smsCache a) t (smsDelayCacheKey (UserId user)) (backend ctx') = Hit (SmsDelayItem now)"
    unfolding delay by (rule cache.set_then_get [OF assms(1) _ assms(12,13,5,6)])
  with one assms(14-18) show ?thesis
    by (simp add: AuthSms_Handle_def request_code_def Let_def refuse_def)
qed

text \<open>
  A generated code has the configured length, and a configured length of more than eight makes
  the handler panic on some random numbers: the length is validated from below only, and a
  number is padded to eight digits.
\<close>

theorem sms_code_length:
  "map_option length (genCode (a\<lparr>TESTING := False\<rparr>) r phone) \<in> {None, Some (CODE_LENGTH a)} \<and>
   ((\<exists>r. r < 2 ^ 32 \<and> genCode (a\<lparr>TESTING := False\<rparr>) r phone = None) \<longleftrightarrow> 8 < CODE_LENGTH a)"
proof
  show "map_option length (genCode (a\<lparr>TESTING := False\<rparr>) r phone) \<in> {None, Some (CODE_LENGTH a)}"
    by (auto simp: genCode_def Let_def)
  have "8 \<le> length (zero_padded 8 n)" for n
    by (simp add: zero_padded_def)
  moreover have "length (zero_padded 8 0) = 8"
    by (simp add: length_zero_padded)
  ultimately show "(\<exists>r. r < 2 ^ 32 \<and> genCode (a\<lparr>TESTING := False\<rparr>) r phone = None) \<longleftrightarrow> 8 < CODE_LENGTH a"
    by (auto simp: genCode_def Let_def dest: le_less_trans intro!: exI [of _ 0])
qed

subsection \<open>A worked session\<close>

text \<open>
  A handler over the table of deadlines with readable primitives: a request of user \<open>u1\<close> is
  answered with a token, a first guess is wrong and the second is right. All tokens of the
  example expire at the same time.
\<close>

definition example_sms_encryption :: "SmsToken ParameterEncryption" where
  "example_sms_encryption = \<lparr>SECRET = ''secret'', SALT_SIZE = 2, TAG = '''',
     aeadConfig = \<lparr>MakeAead = (\<lambda>key. Inr toy_cipher), DeriveKey = (\<lambda>s salt n. s @ salt), KeySize = 8\<rparr>,
     codecOf = \<lparr>SerializeMessage = (\<lambda>token. Inr (ID token)), ParseMessage = (\<lambda>b. Inr \<lparr>Exp = 300 * Second, ID = b\<rparr>),
       Encode = id, Decode = Inr\<rparr>\<rparr>"

definition example_sms :: "sms_item ttl_table AuthSms" where
  "example_sms = \<lparr>TOKEN_TTL_SECONDS = 300, SMS_DELAY_SECONDS = 30, SMS_SECRET = ''s'', MAX_TRIES = 3,
     CODE_LENGTH = 5, TESTING = True, testCodes = [(''5550001234'', ''31415'')],
     Encryption = example_sms_encryption, smsCache = InmemCache ttl_table_ops,
     digest = (\<lambda>k d. k @ d), encodeSum = id, decodeSum = Inr,
     CheckRequestContent = (\<lambda>ctx. (None, '''', False)), Send = (\<lambda>text phone. Inr ''id'')\<rparr>"

definition example_user :: User where
  "example_user = (NewAuthUser ''u1'' ''alice'' '''' [])\<lparr>Phone := Some ''5550001234''\<rparr>"

definition example_request :: "(string, string) gomap \<Rightarrow> sms_item ttl_table \<Rightarrow> sms_item ttl_table AuthContext" where
  "example_request headers c = (empty_context c)\<lparr>authUser := Some example_user, requestPath := ''/pay'',
     requestMethod := ''POST'', requestHeaders := headers\<rparr>"

definition example_random :: "string \<Rightarrow> sms_random" where
  "example_random tokenId = \<lparr>newId = tokenId, randUint32 = 7, encRandom = (Inr ''sa'', Inr ''n'')\<rparr>"

definition example_token :: "string \<Rightarrow> string" where
  "example_token tokenId =
     (case Encrypt (Encryption example_sms) (encRandom (example_random tokenId)) \<lparr>Exp = 300 * Second, ID = tokenId\<rparr> of
        Inl e \<Rightarrow> e | Inr v \<Rightarrow> v)"

definition example_entry :: SmsCacheToken where
  "example_entry = \<lparr>Try = 1, Code = ''31415'', Checksum = ''su1POST/pay'', SmsId = ''id''\<rparr>"

definition example_cache :: "sms_item ttl_table" where
  "example_cache = [(smsTokenCacheKey ''t1'', (SmsTokenItem example_entry, Some (300 * Second)))]"

lemma example_encrypt: "\<exists>v. Encrypt (Encryption example_sms) (encRandom (example_random i)) obj = Inr v"
  by (simp add: example_sms_def example_random_def Encrypt_def example_sms_encryption_def createCipher_def NewAEAD_def
      AEAD_Encrypt_def)

theorem sms_success_was_confirmed_witness:
  "let ctx = example_request [(''x-sms-sms-code'', ''31415''), (''x-sms-sms-token'', example_token ''t1'')] example_cache
   in AuthSms_Handle example_sms 5 (example_random ''t2'') ctx = Inr (((True, None), ctx\<lparr>backend := []\<rparr>), no_effects) \<and>
      (\<exists>(token :: SmsToken) item. Cache_Get (smsCache example_sms) 5 (smsTokenCacheKey (ID token)) (backend ctx) = Hit item \<and>
        Code (as_token item) = ''31415'')"
proof -
  define ctx where
    "ctx = example_request [(''x-sms-sms-code'', ''31415''), (''x-sms-sms-token'', example_token ''t1'')] example_cache"
  have run: "AuthSms_Handle example_sms 5 (example_random ''t2'') ctx = Inr (((True, None), ctx\<lparr>backend := []\<rparr>), no_effects)"
    unfolding ctx_def by code_simp
  have "\<nexists>message. CheckRequestContent example_sms ctx = (None, message, True)"
    by (simp add: example_sms_def)
  with sms_success_was_confirmed [OF run] obtain token :: SmsToken and item where
    item: "Cache_Get (smsCache example_sms) 5 (smsTokenCacheKey (ID token)) (backend ctx) = Hit item"
      "GetAuthParameter SmsProtocol CodeName [] ctx = Code (as_token item)" by blast
  have "GetAuthParameter SmsProtocol CodeName [] ctx = ''31415''"
    unfolding ctx_def by code_simp
  with item(2) have "Code (as_token item) = ''31415''" by simp
  with item(1) run show ?thesis
    unfolding ctx_def [symmetric] Let_def by blast
qed


theorem sms_check_refines_witness:
  "let c = backend (snd (check_cache_token example_sms 5 (example_random ''t2'') ''u1'' ''00000''
      \<lparr>Exp = 300 * Second, ID = ''t1''\<rparr> example_entry (example_request [] example_cache)))
   in tt_live 9 c (smsTokenCacheKey ''t1'') = None \<and>
      tt_live 9 c (smsTokenCacheKey ''t2'') = Some (SmsTokenItem (example_entry\<lparr>Try := 2\<rparr>))"
proof -
  define ctx where "ctx = example_request [] example_cache"
  obtain found err ctx' where run: "check_cache_token example_sms 5 (example_random ''t2'') ''u1'' ''00000''
      \<lparr>Exp = 300 * Second, ID = ''t1''\<rparr> example_entry ctx = ((found, err), ctx')"
    by (metis prod.exhaust_sel)
  have K: "cache (smsCache example_sms) tt_live (\<lambda>_. True)"
    using tt.inmem.cache_axioms by (simp add: example_sms_def)
  have spec: "sms_attempt (MAX_TRIES example_sms) (Hmac_CheckStr (digest example_sms) (decodeSum example_sms)
      (hmacOfRequest example_sms ctx ''u1'') (Checksum example_entry) = None) ''00000'' example_entry =
      (WrongCode, Some (example_entry\<lparr>Try := 2\<rparr>))"
    unfolding ctx_def by code_simp
  have facts: "0 < TOKEN_TTL_SECONDS example_sms" "in64 (Second * TOKEN_TTL_SECONDS example_sms)"
    "(5 :: int) \<le> 9" "9 \<le> 5 + Second * TOKEN_TTL_SECONDS example_sms" "genericError ctx = None"
    "in64 (Try example_entry + 1)" "newId (example_random ''t2'') \<noteq> ID \<lparr>Exp = 300 * Second, ID = ''t1''\<rparr>"
    "tt_live 9 (backend ctx) (smsTokenCacheKey (ID \<lparr>Exp = 300 * Second, ID = ''t1''\<rparr>)) = Some (SmsTokenItem example_entry)"
    by (simp_all add: example_sms_def Second_def in64_def ctx_def example_request_def empty_context_def example_entry_def
        example_random_def example_cache_def tt_live_def tt_expired_def)
  from sms_check_refines [OF K TrueI facts(1-4) example_encrypt facts(5-8) run spec]
  show ?thesis by (simp add: ctx_def [symmetric] run Let_def) (simp add: example_random_def)
qed

theorem sms_resend_throttled_witness:
  "\<exists>ctx' ctx3. AuthSms_Handle example_sms 5 (example_random ''t1'') (example_request [] []) =
       Inr (((True, Some ''sms code not found''), ctx'), \<lparr>sent = [(''code 31415'', ''5550001234'')], LastSmsCode = Some ''31415''\<rparr>) \<and>
     AuthSms_Handle example_sms 7 (example_random ''t2'') (example_request [] (backend ctx')) =
       Inr (((True, Some ''wait for delay''), ctx3), no_effects)"
proof -
  define ctx where "ctx = example_request [] []"
  define res where "res = AuthSms_Handle example_sms 5 (example_random ''t1'') ctx"
  define ctx' where "ctx' = (case res of Inr ((r, ctx'), eff) \<Rightarrow> ctx' | Inl e \<Rightarrow> ctx)"
  have run: "res = Inr (((True, Some ''sms code not found''), ctx'),
      \<lparr>sent = [(''code 31415'', ''5550001234'')], LastSmsCode = Some ''31415''\<rparr>)"
    and err: "genericError ctx' = Some ErrorCodeSmsConfirmationRequired"
    unfolding ctx'_def res_def ctx_def by code_simp+
  have K: "cache (smsCache example_sms) tt_live (\<lambda>_. True)"
    using tt.inmem.cache_axioms by (simp add: example_sms_def)
  have facts: "0 < TOKEN_TTL_SECONDS example_sms" "in64 (Second * TOKEN_TTL_SECONDS example_sms)"
    "0 < SMS_DELAY_SECONDS example_sms" "in64 (Second * SMS_DELAY_SECONDS example_sms)"
    "genericError ctx = None" "GetAuthParameter SmsProtocol CodeName [] (example_request [] c) = ''''"
    "authUser (example_request [] c) = Some example_user" "(5 :: int) \<le> 7" "7 \<le> 5 + Second * SMS_DELAY_SECONDS example_sms"
    "backend (example_request [] c) = c"
    "CheckRequestContent example_sms (example_request [] c) = (None, '''', False)" for c
    by (simp_all add: example_sms_def Second_def in64_def ctx_def example_request_def empty_context_def GetAuthParameter_def)
  from sms_resend_throttled [OF K TrueI facts(1-4) run [unfolded res_def] facts(5) err facts(6) [of "[]", folded ctx_def] facts(7) [of "[]", folded ctx_def]
      facts(8,9) facts(10) facts(7) refl facts(6) facts(11)]
  show ?thesis using run by (auto simp: res_def ctx_def)
qed

end
