(* ===== verification/AuthLogin.thy ===== *)
theory AuthLogin
  imports AuthSchemas
begin

section \<open>Login by password hash, HMAC and anti-CSRF tokens\<close>

text \<open>
  Models \<^verbatim>\<open>pkg/auth/auth_methods/auth_login_phash/auth_login_phash.go\<close> (two-step login with a
  throttle in the cache), \<^verbatim>\<open>auth_hmac/auth_hmac.go\<close> (a digest over the request) and
  \<^verbatim>\<open>auth_csrf/auth_csrf.go\<close> (expiring tokens on every request). The user manager, the cache,
  the digest and the encryption are fields of the handlers, random salts and the clock
  are arguments; a call reads the clock once.
\<close>

subsection \<open>Login\<close>

definition LoginProtocol :: string where "LoginProtocol = ''evgo-login''"
definition XLoginName :: string where "XLoginName = ''x-evgo-login''"
definition SaltName :: string where "SaltName = ''salt''"
definition PasswordHashName :: string where "PasswordHashName = ''phash''"

definition ErrorCodeLoginFailed :: string where "ErrorCodeLoginFailed = ''login_failed''"
definition ErrorCodeCredentialsRequired :: string where "ErrorCodeCredentialsRequired = ''login_credentials_required''"
definition ErrorCodeWaitRetry :: string where "ErrorCodeWaitRetry = ''wait_retry''"

text \<open>The cache of delays holds the creation times of its items.\<close>

record 'c LoginHandler =
  THROTTLE_DELAY_SECONDS :: int
  NEGOTIATE_PATH :: string
  loginCache :: "('c, int) Cache"
  ValidateLogin :: "string \<Rightarrow> string option"
  FindAuthUser :: "string \<Rightarrow> string + User option"
  FillAuthUser :: "'c AuthContext \<Rightarrow> string option \<times> 'c AuthContext"

definition delayCacheKey :: "string \<Rightarrow> string" where
  "delayCacheKey login = ''login-delay/'' @ login"

definition setDelay :: "'c LoginHandler \<Rightarrow> int \<Rightarrow> string \<Rightarrow> 'c AuthContext \<Rightarrow> 'c AuthContext" where
  "setDelay l now key ctx =
     (if THROTTLE_DELAY_SECONDS l \<noteq> 0 then
        ctx\<lparr>backend := snd (Cache_Set (loginCache l) now key now [THROTTLE_DELAY_SECONDS l] (backend ctx))\<rparr>
      else ctx)"

definition CheckPasswordHash :: "string \<Rightarrow> string \<Rightarrow> string option" where
  "CheckPasswordHash passwordHash phash = (if \<not> HashEqual passwordHash phash then Some ''invalid password'' else None)"

text \<open>The second step is offered with a salt of the random source, so that the client goes on anyway.\<close>

definition fake_salt_step :: "'c LoginHandler \<Rightarrow> string \<Rightarrow> string \<Rightarrow> 'c handle" where
  "fake_salt_step l fakeSalt err ctx =
     (let ctx1 = SetAuthParameter LoginProtocol SaltName fakeSalt [] ctx
      in if requestPath ctx \<noteq> NEGOTIATE_PATH l then refuse True ErrorCodeCredentialsRequired err ctx1
         else ((True, None), ctx1))"

text \<open>The user was loaded.\<close>

definition login_user :: "'c LoginHandler \<Rightarrow> int \<Rightarrow> string \<Rightarrow> string \<Rightarrow> User \<Rightarrow> 'c handle" where
  "login_user l now key phash dbUser ctx =
     (if UserBlocked dbUser then refuse True ErrorCodeLoginFailed ''login blocked'' (setDelay l now key ctx)
      else
        case PasswordOf dbUser of
          None \<Rightarrow> refuse True ErrorCodeInternalServerError ''user must be of auth_login_phash.User interface'' ctx
        | Some (passwordHash, salt) \<Rightarrow>
            if phash \<noteq> '''' then
              (case CheckPasswordHash passwordHash phash of
                 Some _ \<Rightarrow> refuse True ErrorCodeLoginFailed ''invalid password'' (setDelay l now key ctx)
               | None \<Rightarrow>
                   (case FillAuthUser l (ctx\<lparr>authUser := Some dbUser\<rparr>) of
                      (err, ctx1) \<Rightarrow> ((True, err), ctx1)))
            else
              let ctx1 = SetAuthParameter LoginProtocol SaltName salt [] ctx
              in if requestPath ctx \<noteq> NEGOTIATE_PATH l
                 then refuse True ErrorCodeCredentialsRequired ''credentials not provided'' ctx1
                 else ((True, None), ctx1))"

definition LoginHandler_Handle :: "'c LoginHandler \<Rightarrow> int \<Rightarrow> string \<Rightarrow> 'c handle" where
  "LoginHandler_Handle l now fakeSalt ctx =
     (let phash = GetAuthParameter LoginProtocol PasswordHashName [] ctx;
          login = GetAuthParameter LoginProtocol XLoginName [True] ctx
      in if login = '''' then ((False, None), ctx)
         else
           case ValidateLogin l login of
             Some _ \<Rightarrow>
               if phash \<noteq> '''' then refuse True ErrorCodeLoginFailed ''invalid login format'' ctx
               else fake_salt_step l fakeSalt ''invalid login format'' ctx
           | None \<Rightarrow>
               (case Cache_Get (loginCache l) now (delayCacheKey login) (backend ctx) of
                  Failed found err \<Rightarrow> refuse True ErrorCodeInternalServerError err ctx
                | Hit _ \<Rightarrow> refuse True ErrorCodeWaitRetry ''wait for delay'' ctx
                | Miss \<Rightarrow>
                    (case FindAuthUser l login of
                       Inl _ \<Rightarrow> refuse True ErrorCodeInternalServerError ''failed to load user'' ctx
                     | Inr None \<Rightarrow>
                         if phash \<noteq> '''' then
                           refuse True ErrorCodeLoginFailed ''user not found'' (setDelay l now (delayCacheKey login) ctx)
                         else fake_salt_step l fakeSalt ''user not found'' ctx
                     | Inr (Some dbUser) \<Rightarrow> login_user l now (delayCacheKey login) phash dbUser ctx)))"

definition PasswordHash :: "(bytes \<Rightarrow> bytes \<Rightarrow> bytes) \<Rightarrow> (bytes \<Rightarrow> string) \<Rightarrow> string \<Rightarrow> string \<Rightarrow> string" where
  "PasswordHash mac encode password salt = Hmac_SumStr mac encode (Hmac_Calc [salt] (NewHmac password))"

subsection \<open>HMAC of the request\<close>

definition HmacProtocol :: string where "HmacProtocol = ''hmac''"
definition HmacParameter :: string where "HmacParameter = ''hmac''"
definition ErrorCodeInvalidHmac :: string where "ErrorCodeInvalidHmac = ''hmac_invalid''"

definition AuthHmac_Handle ::
    "(bytes \<Rightarrow> bytes \<Rightarrow> bytes) \<Rightarrow> (string \<Rightarrow> string + bytes) \<Rightarrow> 'c handle" where
  "AuthHmac_Handle mac decode ctx =
     (let requestHmac = GetAuthParameter HmacProtocol HmacParameter [] ctx
      in if requestHmac = '''' then ((False, None), ctx)
         else
           case authUser ctx of
             None \<Rightarrow> refuse True ErrorCodeUnauthorized ''unknown user'' ctx
           | Some user \<Rightarrow>
               (case HmacSecret user of
                  None \<Rightarrow> refuse True ErrorCodeInternalServerError ''user must be of UserWithHmacSecret interface'' ctx
                | Some secret \<Rightarrow>
                    if secret = '''' then refuse True ErrorCodeUnauthorized ''hmac secret is not set for user'' ctx
                    else
                      case Hmac_CheckStr mac decode
                             (Hmac_Calc [requestMethod ctx, requestPath ctx, requestContent ctx] (NewHmac secret)) requestHmac of
                        Some err \<Rightarrow> refuse True ErrorCodeInvalidHmac err ctx
                      | None \<Rightarrow> ((True, None), ctx)))"

subsection \<open>Anti-CSRF tokens\<close>

definition AntiCsrfProtocol :: string where "AntiCsrfProtocol = ''csrf''"
definition AntiCsrfTokenName :: string where "AntiCsrfTokenName = ''token''"
definition ErrorCodeAntiCsrfRequired :: string where "ErrorCodeAntiCsrfRequired = ''anti_csrf_token_required''"
definition ErrorCodeTokenExpired :: string where "ErrorCodeTokenExpired = ''anti_csrf_token_expired''"
definition ErrorCodeInvalidToken :: string where "ErrorCodeInvalidToken = ''anti_csrf_token_invalid''"

text \<open>A token is its expiration time.\<close>

record AuthCsrf =
  CSRF_TTL_SECONDS :: int
  IGNORE_PATHS :: "string list"
  skipPaths :: "(string, bool) gomap"
  csrfEncryption :: "int ParameterEncryption"

definition init_skipPaths :: "string list \<Rightarrow> (string, bool) gomap" where
  "init_skipPaths ignore =
     fold (\<lambda>path m. AList.update path True m) ignore (if ignore = [] then [(''/status/check'', True)] else [])"

definition csrf_next :: "AuthCsrf \<Rightarrow> int \<Rightarrow> random \<Rightarrow> 'c handle" where
  "csrf_next a now rnd ctx =
     (case Encryption_SetAuthParameter (csrfEncryption a) rnd AntiCsrfProtocol AntiCsrfTokenName
             (SetTTL now (CSRF_TTL_SECONDS a)) [] ctx of
        (Some err, ctx1) \<Rightarrow> refuse True ErrorCodeInternalServerError err ctx1
      | (None, ctx1) \<Rightarrow> ((True, None), ctx1))"

definition AuthCsrf_Handle :: "AuthCsrf \<Rightarrow> int \<Rightarrow> random \<Rightarrow> 'c handle" where
  "AuthCsrf_Handle a now rnd ctx =
     (if map_of (skipPaths a) (requestPath ctx) = None then
        (case Encryption_GetAuthParameter (csrfEncryption a) AntiCsrfProtocol AntiCsrfTokenName [] ctx of
           Absent \<Rightarrow> refuse False ErrorCodeAntiCsrfRequired ''CSRF token not found'' ctx
         | Present (Inl err) \<Rightarrow> refuse True ErrorCodeInvalidToken err ctx
         | Present (Inr prev) \<Rightarrow>
             if Expired now prev then refuse True ErrorCodeTokenExpired ''token expired'' ctx
             else csrf_next a now rnd ctx)
      else csrf_next a now rnd ctx)"

subsection \<open>Properties of the login\<close>

lemma setDelay_frame [simp]:
  "genericError (setDelay l now k ctx) = genericError ctx" "authUser (setDelay l now k ctx) = authUser ctx"
  "responseHeaders (setDelay l now k ctx) = responseHeaders ctx"
  by (simp_all add: setDelay_def)

text \<open>
  C18: the login handler lets a request through in two cases only: at the negotiation path without
  a password hash, and then it authenticates nobody; or with a password hash that equals the
  stored one of an existing user who is not blocked and whose login is valid and not
  throttled.
\<close>

theorem login_success_means_password:
  assumes "LoginHandler_Handle l now fakeSalt ctx = ((True, None), ctx')"
    and "GetAuthParameter LoginProtocol XLoginName [True] ctx = login"
    and "GetAuthParameter LoginProtocol PasswordHashName [] ctx = phash"
  shows "(phash = '''' \<and> requestPath ctx = NEGOTIATE_PATH l \<and> authUser ctx' = authUser ctx) \<or>
    (\<exists>user salt. phash \<noteq> '''' \<and> ValidateLogin l login = None \<and> FindAuthUser l login = Inr (Some user) \<and>
       \<not> UserBlocked user \<and> PasswordOf user = Some (phash, salt) \<and>
       Cache_Get (loginCache l) now (delayCacheKey login) (backend ctx) = Miss \<and>
       FillAuthUser l (ctx\<lparr>authUser := Some user\<rparr>) = (None, ctx'))"
  using assms
  by (auto simp: LoginHandler_Handle_def Let_def fake_salt_step_def login_user_def CheckPasswordHash_def HashEqual_def
      split: if_splits option.splits cache_reply.splits sum.splits prod.splits)

definition example_login :: "int ttl_table LoginHandler" where
  "example_login = \<lparr>THROTTLE_DELAY_SECONDS = 2, NEGOTIATE_PATH = ''/auth/negotiate'', loginCache = InmemCache ttl_table_ops,
     ValidateLogin = (\<lambda>login. None),
     FindAuthUser = (\<lambda>login. Inr (if login = ''alice'' then
       Some ((NewAuthUser ''u1'' ''alice'' '''' [])\<lparr>PasswordOf := Some (''hash'', ''salt'')\<rparr>) else None)),
     FillAuthUser = (\<lambda>ctx. (None, ctx))\<rparr>"

definition example_login_request :: "string \<Rightarrow> string \<Rightarrow> int ttl_table \<Rightarrow> int ttl_table AuthContext" where
  "example_login_request login phash c = (empty_context c)\<lparr>requestPath := ''/auth/negotiate'',
     requestHeaders := [(''x-evgo-login'', login), (''x-evgo-login-phash'', phash)]\<rparr>"

lemma example_login_headers [simp]:
  "GetAuthParameter LoginProtocol XLoginName [True] (example_login_request login phash c) = login"
  "GetAuthParameter LoginProtocol PasswordHashName [] (example_login_request login phash c) = phash"
  "requestPath (example_login_request login phash c) = ''/auth/negotiate''"
  "genericError (example_login_request login phash c) = None"
  "backend (example_login_request login phash c) = c"
  by (simp_all add: GetAuthParameter_def AuthKey_def LoginProtocol_def XLoginName_def PasswordHashName_def
      example_login_request_def empty_context_def)

lemma example_login_sel [simp]:
  "loginCache example_login = InmemCache ttl_table_ops" "ValidateLogin example_login login = None"
  "THROTTLE_DELAY_SECONDS example_login = 2" "FillAuthUser example_login ctx = (None, ctx)"
  "NEGOTIATE_PATH example_login = ''/auth/negotiate''"
  "FindAuthUser example_login login = Inr (if login = ''alice'' then
     Some ((NewAuthUser ''u1'' ''alice'' '''' [])\<lparr>PasswordOf := Some (''hash'', ''salt'')\<rparr>) else None)"
  by (simp_all add: example_login_def)

lemma example_login_miss: "InmemCache_Get ttl_table_ops now k [] = Miss"
  by (simp add: InmemCache_Get_def ttl_table_ops_def tt_item_def)

theorem login_success_means_password_witness:
  "LoginHandler_Handle example_login 0 ''f'' (example_login_request ''alice'' ''hash'' []) =
     ((True, None), (example_login_request ''alice'' ''hash'' [])
       \<lparr>authUser := Some ((NewAuthUser ''u1'' ''alice'' '''' [])\<lparr>PasswordOf := Some (''hash'', ''salt'')\<rparr>)\<rparr>)"
proof -
  obtain r ctx' where run: "LoginHandler_Handle example_login 0 ''f'' (example_login_request ''alice'' ''hash'' []) = (r, ctx')"
    by (cases "LoginHandler_Handle example_login 0 ''f'' (example_login_request ''alice'' ''hash'' [])")
  moreover have "r = (True, None)"
    using run by (simp add: LoginHandler_Handle_def Let_def example_login_miss login_user_def CheckPasswordHash_def
        HashEqual_def NewAuthUser_def)
  ultimately show ?thesis
    using login_success_means_password [of example_login 0 "''f''" "example_login_request ''alice'' ''hash'' []" ctx' "''alice''" "''hash''"]
    by auto
qed

lemma login_failed_delays:
  assumes "LoginHandler_Handle l now f ctx = (r, ctx')" and "genericError ctx = None"
    and "genericError ctx' = Some ErrorCodeLoginFailed" and "THROTTLE_DELAY_SECONDS l \<noteq> 0"
    and "ValidateLogin l login = None" and "GetAuthParameter LoginProtocol XLoginName [True] ctx = login"
    and "\<And>c. genericError (snd (FillAuthUser l c)) = genericError c"
  shows "login \<noteq> '''' \<and> backend ctx' =
    snd (Cache_Set (loginCache l) now (delayCacheKey login) now [THROTTLE_DELAY_SECONDS l] (backend ctx))"
proof -
  have codes: "ErrorCodeInternalServerError \<noteq> ErrorCodeLoginFailed" "ErrorCodeWaitRetry \<noteq> ErrorCodeLoginFailed"
    "ErrorCodeCredentialsRequired \<noteq> ErrorCodeLoginFailed"
    by (simp_all add: ErrorCodeInternalServerError_def ErrorCodeLoginFailed_def ErrorCodeWaitRetry_def
        ErrorCodeCredentialsRequired_def)
  have fill: "genericError c' = genericError c" if "FillAuthUser l c = (e, c')" for c e c'
    using assms(7) [of c] that by simp
  show ?thesis
    using assms(1-6) codes
    by (auto simp: LoginHandler_Handle_def Let_def fake_salt_step_def login_user_def refuse_def setDelay_def
        dest!: fill split: if_splits option.splits cache_reply.splits sum.splits prod.splits)
qed

text \<open>
  After a failed attempt with a password hash every further attempt for the same login,
  with the right password too, is answered with \<open>wait_retry\<close> until the throttle
  delay has passed.
\<close>

theorem login_throttled:
  assumes "cache (loginCache l) live ok" and "ok (backend ctx)"
    and "0 < THROTTLE_DELAY_SECONDS l" and "in64 (Second * THROTTLE_DELAY_SECONDS l)"
    and "LoginHandler_Handle l now f ctx = (r, ctx')" and "genericError ctx = None"
    and "genericError ctx' = Some ErrorCodeLoginFailed" and "ValidateLogin l login = None"
    and "GetAuthParameter LoginProtocol XLoginName [True] ctx = login"
    and "\<And>c. genericError (snd (FillAuthUser l c)) = genericError c"
    and "backend ctx2 = backend ctx'" and "GetAuthParameter LoginProtocol XLoginName [True] ctx2 = login"
    and "now \<le> t" and "t \<le> now + Second * THROTTLE_DELAY_SECONDS l"
  shows "LoginHandler_Handle l t f2 ctx2 = refuse True ErrorCodeWaitRetry ''wait for delay'' ctx2"
proof -
  have delay: "login \<noteq> ''''" "backend ctx' =
      snd (Cache_Set (loginCache l) now (delayCacheKey login) now [THROTTLE_DELAY_SECONDS l] (backend ctx))"
    using login_failed_delays [OF assms(5-7) _ assms(8-10)] assms(3) by auto
  have "Cache_Get (loginCache l) t (delayCacheKey login) (backend ctx') = Hit now"
    unfolding delay(2) by (rule cache.set_then_get [OF assms(1,2,13,14,3,4)])
  with delay(1) assms(8,11,12) show ?thesis
    by (simp add: LoginHandler_Handle_def Let_def)
qed

theorem login_throttled_witness:
  "LoginHandler_Handle example_login 1 ''f'' (example_login_request ''alice'' ''hash''
     (backend (snd (LoginHandler_Handle example_login 0 ''f'' (example_login_request ''alice'' ''guess'' []))))) =
   refuse True ErrorCodeWaitRetry ''wait for delay'' (example_login_request ''alice'' ''hash''
     (backend (snd (LoginHandler_Handle example_login 0 ''f'' (example_login_request ''alice'' ''guess'' [])))))"
proof -
  let ?ctx = "example_login_request ''alice'' ''guess'' []"
  obtain r ctx' where run: "LoginHandler_Handle example_login 0 ''f'' ?ctx = (r, ctx')"
    by (cases "LoginHandler_Handle example_login 0 ''f'' ?ctx")
  have "genericError ctx' = Some ErrorCodeLoginFailed"
    using run by (auto simp: LoginHandler_Handle_def Let_def example_login_miss login_user_def CheckPasswordHash_def
        HashEqual_def NewAuthUser_def refuse_def)
  with login_throttled [of example_login tt_live "\<lambda>_. True" ?ctx 0 "''f''" r ctx' "''alice''"
      "example_login_request ''alice'' ''hash'' (backend ctx')" 1 "''f''"] run
  show ?thesis
    using tt.inmem.cache_axioms by (simp add: Second_def in64_def)
qed

text \<open>
  The salt offered in the first step tells whether a login exists: for an unknown login it
  is what the random source delivered for this request, for an existing one it is the stored
  salt, the same in every request.
\<close>

theorem login_salt_reveals_user:
  assumes "GetAuthParameter LoginProtocol XLoginName [True] ctx = login" and "login \<noteq> ''''"
    and "GetAuthParameter LoginProtocol PasswordHashName [] ctx = ''''" and "ValidateLogin l login = None"
    and "Cache_Get (loginCache l) now (delayCacheKey login) (backend ctx) = Miss"
    and "FindAuthUser l login = Inr found"
    and "found = None \<or> (\<exists>user hash. found = Some user \<and> \<not> UserBlocked user \<and> PasswordOf user = Some (hash, salt))"
  shows "snd (last (responseHeaders (snd (LoginHandler_Handle l now fakeSalt ctx)))) =
    (if found = None then fakeSalt else salt)"
  using assms
  by (auto simp: LoginHandler_Handle_def Let_def fake_salt_step_def login_user_def refuse_def)

theorem login_salt_reveals_user_witness:
  "snd (last (responseHeaders (snd (LoginHandler_Handle example_login 0 ''f1'' (example_login_request ''bob'' '''' []))))) = ''f1'' \<and>
   snd (last (responseHeaders (snd (LoginHandler_Handle example_login 0 ''f1'' (example_login_request ''alice'' '''' []))))) = ''salt''"
  using login_salt_reveals_user [of "example_login_request ''bob'' '''' []" "''bob''" example_login 0 None "''salt''" "''f1''"]
    login_salt_reveals_user [of "example_login_request ''alice'' '''' []" "''alice''" example_login 0
      "Some ((NewAuthUser ''u1'' ''alice'' '''' [])\<lparr>PasswordOf := Some (''hash'', ''salt'')\<rparr>)" "''salt''" "''f1''"]
  by (simp add: example_login_miss NewAuthUser_def Let_def)

subsection \<open>Properties of the HMAC\<close>

text \<open>
  The digest covers the concatenation of method, path and content and not their boundaries:
  two requests with the same user and header whose concatenations agree get the same verdict, so
  a digest made for content \<open>b\<close> at path \<open>/a\<close> is accepted for no content at path \<open>/ab\<close>.
\<close>

theorem hmac_ignores_boundaries:
  assumes "authUser ctx2 = authUser ctx1"
    and "GetAuthParameter HmacProtocol HmacParameter [] ctx2 = GetAuthParameter HmacProtocol HmacParameter [] ctx1"
    and "requestMethod ctx2 @ requestPath ctx2 @ requestContent ctx2 = requestMethod ctx1 @ requestPath ctx1 @ requestContent ctx1"
  shows "fst (AuthHmac_Handle mac decode ctx2) = fst (AuthHmac_Handle mac decode ctx1)"
  using assms
  by (simp add: AuthHmac_Handle_def Let_def Hmac_Calc_concat split: option.splits)

definition example_hmac_request :: "string \<Rightarrow> string \<Rightarrow> unit AuthContext" where
  "example_hmac_request path content = (empty_context ())\<lparr>
     authUser := Some ((NewAuthUser ''u1'' '''' '''' [])\<lparr>HmacSecret := Some ''k''\<rparr>),
     requestHeaders := [(''x-hmac-hmac'', ''kPOST/ab'')], requestMethod := ''POST'', requestPath := path,
     requestContent := content\<rparr>"

theorem hmac_ignores_boundaries_witness:
  "AuthHmac_Handle (\<lambda>k d. k @ d) Inr (example_hmac_request ''/a'' ''b'') = ((True, None), example_hmac_request ''/a'' ''b'') \<and>
   fst (AuthHmac_Handle (\<lambda>k d. k @ d) Inr (example_hmac_request ''/ab'' '''')) = (True, None)"
proof -
  have "AuthHmac_Handle (\<lambda>k d. k @ d) Inr (example_hmac_request ''/a'' ''b'') = ((True, None), example_hmac_request ''/a'' ''b'')"
    by (simp add: AuthHmac_Handle_def example_hmac_request_def NewAuthUser_def empty_context_def GetAuthParameter_def
        AuthKey_def HmacProtocol_def HmacParameter_def Hmac_CheckStr_def Hmac_Sum_def NewHmac_def)
  then show ?thesis
    using hmac_ignores_boundaries [of "example_hmac_request ''/ab'' ''''" "example_hmac_request ''/a'' ''b''" "\<lambda>k d. k @ d" Inr]
    by (simp add: example_hmac_request_def GetAuthParameter_def)
qed

subsection \<open>Properties of anti-CSRF tokens\<close>

text \<open>
  Outside the ignored paths a request passes the anti-CSRF check only with a token that
  decrypts and has not expired, and every request that passes is answered with a fresh
  token that expires after the configured time.
\<close>

theorem csrf_requires_token:
  assumes "AuthCsrf_Handle a now rnd ctx = ((found, None), ctx')"
  shows "(map_of (skipPaths a) (requestPath ctx) \<noteq> None \<or>
      (\<exists>prev. Encryption_GetAuthParameter (csrfEncryption a) AntiCsrfProtocol AntiCsrfTokenName [] ctx = Present (Inr prev) \<and> now \<le> prev)) \<and>
    (\<exists>v. Encrypt (csrfEncryption a) rnd (now + i64 (Second * CSRF_TTL_SECONDS a)) = Inr v \<and>
      responseHeaders ctx' = responseHeaders ctx @ [(''x-csrf-token'', v)])"
proof
  have next': "\<exists>v. Encrypt (csrfEncryption a) rnd (now + i64 (Second * CSRF_TTL_SECONDS a)) = Inr v \<and>
      responseHeaders ctx' = responseHeaders ctx @ [(''x-csrf-token'', v)]"
    if "csrf_next a now rnd ctx = ((found, None), ctx')"
    using that
    by (auto simp: csrf_next_def Encryption_SetAuthParameter_def EncodeAuthParameter_def SetTTL_def AuthKey_def
        AntiCsrfProtocol_def AntiCsrfTokenName_def split: prod.splits option.splits sum.splits)
  then show "\<exists>v. Encrypt (csrfEncryption a) rnd (now + i64 (Second * CSRF_TTL_SECONDS a)) = Inr v \<and>
      responseHeaders ctx' = responseHeaders ctx @ [(''x-csrf-token'', v)]"
    using assms by (auto simp: AuthCsrf_Handle_def split: if_splits param_reply.splits sum.splits)
  show "map_of (skipPaths a) (requestPath ctx) \<noteq> None \<or>
      (\<exists>prev. Encryption_GetAuthParameter (csrfEncryption a) AntiCsrfProtocol AntiCsrfTokenName [] ctx = Present (Inr prev) \<and> now \<le> prev)"
    using assms by (auto simp: AuthCsrf_Handle_def Expired_def split: if_splits param_reply.splits sum.splits)
qed

definition example_csrf :: AuthCsrf where
  "example_csrf = \<lparr>CSRF_TTL_SECONDS = 300, IGNORE_PATHS = [], skipPaths = init_skipPaths [],
     csrfEncryption = example_encryption (\<lambda>s. 0) (\<lambda>t. '''')\<rparr>"

theorem csrf_requires_token_witness:
  "\<exists>v. Encrypt (csrfEncryption example_csrf) (Inr ''sa'', Inr ''n'') (0 + i64 (Second * 300)) = Inr v \<and>
     responseHeaders (snd (AuthCsrf_Handle example_csrf 0 (Inr ''sa'', Inr ''n'')
       ((empty_context ())\<lparr>requestPath := ''/status/check''\<rparr>))) = [(''x-csrf-token'', v)]"
proof -
  let ?ctx = "(empty_context ())\<lparr>requestPath := ''/status/check''\<rparr>"
  obtain r ctx' where run: "AuthCsrf_Handle example_csrf 0 (Inr ''sa'', Inr ''n'') ?ctx = (r, ctx')"
    by (cases "AuthCsrf_Handle example_csrf 0 (Inr ''sa'', Inr ''n'') ?ctx")
  have r: "r = (True, None)"
    using run by (auto simp: AuthCsrf_Handle_def example_csrf_def init_skipPaths_def csrf_next_def
        Encryption_SetAuthParameter_def EncodeAuthParameter_def Encrypt_def example_encryption_def createCipher_def
        NewAEAD_def AEAD_Encrypt_def)
  from csrf_requires_token [OF run [unfolded r]] show ?thesis
    unfolding run snd_conv by (simp add: empty_context_def) (simp add: example_csrf_def)
qed

text \<open>
  An OR schema that passed over a handler keeps the generic error this handler
  set: a request without an anti-CSRF token that the next handler accepts is admitted, and its
  context still carries \<open>anti_csrf_token_required\<close>, which the servers turn into an error response.
\<close>

theorem or_schema_keeps_generic_error:
  "let ctx = (empty_context c)\<lparr>requestPath := ''/pay''\<rparr>;
       schema = AuthSchema n AggOr [Method AntiCsrfProtocol (AuthCsrf_Handle (a\<lparr>skipPaths := init_skipPaths []\<rparr>) now rnd),
                                    Method ''noauth'' NoAuth_Handle]
   in fst (Handle schema ctx) = (True, None) \<and>
      genericError (snd (Handle schema ctx)) = Some ErrorCodeAntiCsrfRequired"
  by (simp add: Let_def AuthCsrf_Handle_def init_skipPaths_def Encryption_GetAuthParameter_def GetAuthParameter_def
      empty_context_def refuse_def NoAuth_Handle_def SetGenericErrorCode_def AggOr_def)

end
