(* ===== verification/AuthTokens.thy ===== *)
theory AuthTokens
  imports AuthSchemas
begin

section \<open>Access and refresh tokens over sessions\<close>

text \<open>
  Models \<^verbatim>\<open>pkg/auth/auth_methods/auth_token/auth_token.go\<close> and \<^verbatim>\<open>auth_new_token.go\<close> and the
  sessions they rest on, \<^verbatim>\<open>pkg/auth/auth_session/session.go\<close> and \<^verbatim>\<open>session_controller.go\<close>. The
  database behind the session controller is the record \<open>session_crud\<close> of the CRUD calls the controller makes,
  the contract on them is the locale \<open>session_store\<close>. The user manager, the encryption, the
  client digest and the printing of times are fields of the handler; random values
  and the clock are arguments, and a call reads the clock once.
\<close>

subsection \<open>Sessions\<close>

record SessionBase =
  SessionID :: string
  SessionUserId :: string
  SessionUserLogin :: string
  SessionUserDisplay :: string
  Valid :: bool
  Expiration :: int

record SessionClientBase =
  ClientID :: string
  ClientSessionId :: string
  ClientIp :: string
  UserAgent :: string
  ClientHash :: string
  ClientUserId :: string

text \<open>
  The CRUD calls of the controller. \<open>updateMulti_valid\<close> is the update of all sessions that match
  the given identifier and user (each when given) to \<open>valid = false\<close>.
\<close>

record 'd session_crud =
  create_session :: "SessionBase \<Rightarrow> 'd \<Rightarrow> string option \<times> 'd"
  read_session :: "string \<Rightarrow> 'd \<Rightarrow> string + SessionBase option"
  update_expiration :: "string \<Rightarrow> int \<Rightarrow> 'd \<Rightarrow> string option \<times> 'd"
  updateMulti_valid :: "string option \<Rightarrow> string option \<Rightarrow> 'd \<Rightarrow> string option \<times> 'd"
  read_client :: "string \<Rightarrow> string \<Rightarrow> 'd \<Rightarrow> string + SessionClientBase option"
  create_client :: "SessionClientBase \<Rightarrow> 'd \<Rightarrow> string option \<times> 'd"
  touch_client :: "string \<Rightarrow> int \<Rightarrow> 'd \<Rightarrow> string option \<times> 'd"

definition CreateSession ::
    "'d session_crud \<Rightarrow> string \<Rightarrow> int \<Rightarrow> User \<Rightarrow> 'd AuthContext \<Rightarrow> (string + SessionBase) \<times> 'd AuthContext" where
  "CreateSession crud newId expiration user ctx =
     (let session = \<lparr>SessionID = newId, SessionUserId = UserId user, SessionUserLogin = UserLogin user,
            SessionUserDisplay = UserDisplay user, Valid = True, Expiration = expiration\<rparr>
      in case create_session crud session (backend ctx) of
           (Some err, d) \<Rightarrow> (Inl err, ctx\<lparr>backend := d\<rparr>)
         | (None, d) \<Rightarrow> (Inr session, ctx\<lparr>backend := d\<rparr>))"

text \<open>The flag of the read is dropped: a session that does not exist is the zero session.\<close>

definition zero_session :: SessionBase where
  "zero_session = \<lparr>SessionID = '''', SessionUserId = '''', SessionUserLogin = '''', SessionUserDisplay = '''',
     Valid = False, Expiration = 0\<rparr>"

definition FindSession ::
    "'d session_crud \<Rightarrow> string \<Rightarrow> 'd AuthContext \<Rightarrow> (string + SessionBase) \<times> 'd AuthContext" where
  "FindSession crud sid ctx =
     (case read_session crud sid (backend ctx) of
        Inl err \<Rightarrow> (Inl err, SetGenericErrorCode ErrorCodeInternalServerError [] ctx)
      | Inr None \<Rightarrow> (Inr zero_session, ctx)
      | Inr (Some session) \<Rightarrow> (Inr session, ctx))"

definition UpdateSessionClient ::
    "'d session_crud \<Rightarrow> (string \<Rightarrow> string \<Rightarrow> string) \<Rightarrow> string \<Rightarrow> int \<Rightarrow> 'd AuthContext \<Rightarrow> string option \<times> 'd AuthContext" where
  "UpdateSessionClient crud clientDigest newId now ctx =
     (let hash = clientDigest (clientIp ctx) (userAgent ctx) in
      case read_client crud (sessionId ctx) hash (backend ctx) of
        Inl err \<Rightarrow> (Some err, SetGenericErrorCode ErrorCodeInternalServerError [] ctx)
      | Inr found \<Rightarrow>
          let fresh = \<lparr>ClientID = newId, ClientSessionId = sessionId ctx, ClientIp = clientIp ctx,
                UserAgent = userAgent ctx, ClientHash = hash,
                ClientUserId = (case authUser ctx of None \<Rightarrow> '''' | Some u \<Rightarrow> UserId u)\<rparr>;
              client = (case found of Some c \<Rightarrow> c | None \<Rightarrow> fresh);
              (err1, d1) = (if found = None then create_client crud fresh (backend ctx) else (None, backend ctx));
              tryUpdate = (found \<noteq> None \<or> err1 \<noteq> None);
              (err2, d2) = (if tryUpdate then touch_client crud (ClientID client) now d1 else (None, d1));
              ctx1 = ctx\<lparr>backend := d2\<rparr>
          in case err2 of
               Some err \<Rightarrow> (Some err, SetGenericErrorCode ErrorCodeInternalServerError [] ctx1)
             | None \<Rightarrow> (None, ctx1\<lparr>clientId := ClientID client\<rparr>))"

definition UpdateSessionExpiration ::
    "'d session_crud \<Rightarrow> SessionBase \<Rightarrow> 'd AuthContext \<Rightarrow> string option \<times> 'd AuthContext" where
  "UpdateSessionExpiration crud session ctx =
     (case update_expiration crud (SessionID session) (Expiration session) (backend ctx) of
        (Some err, d) \<Rightarrow> (Some err, SetGenericErrorCode ErrorCodeInternalServerError [] (ctx\<lparr>backend := d\<rparr>))
      | (None, d) \<Rightarrow> (None, ctx\<lparr>backend := d\<rparr>))"

definition invalidate ::
    "'d session_crud \<Rightarrow> string option \<Rightarrow> string option \<Rightarrow> 'd AuthContext \<Rightarrow> string option \<times> 'd AuthContext" where
  "invalidate crud sid uid ctx =
     (case updateMulti_valid crud sid uid (backend ctx) of
        (Some err, d) \<Rightarrow> (Some err, SetGenericErrorCode ErrorCodeInternalServerError [] (ctx\<lparr>backend := d\<rparr>))
      | (None, d) \<Rightarrow> (None, ctx\<lparr>backend := d\<rparr>))"

definition InvalidateSession :: "'d session_crud \<Rightarrow> string \<Rightarrow> string \<Rightarrow> 'd AuthContext \<Rightarrow> string option \<times> 'd AuthContext" where
  "InvalidateSession crud uid sid ctx = invalidate crud (Some sid) (Some uid) ctx"

definition InvalidateUserSessions :: "'d session_crud \<Rightarrow> string \<Rightarrow> 'd AuthContext \<Rightarrow> string option \<times> 'd AuthContext" where
  "InvalidateUserSessions crud uid ctx = invalidate crud None (Some uid) ctx"

definition InvalidateAllSessions :: "'d session_crud \<Rightarrow> 'd AuthContext \<Rightarrow> string option \<times> 'd AuthContext" where
  "InvalidateAllSessions crud ctx = invalidate crud None None ctx"

subsection \<open>Tokens\<close>

record Token =
  TokenExp :: int
  TokenId :: string
  TokenUserId :: string
  TokenUserDisplay :: string
  TokenSessionId :: string
  TokenTenancy :: string
  TokenType :: string
  TokenParameters :: "(string, string) gomap"

record 'd AuthTokenHandler =
  ACCESS_TOKEN_TTL_SECONDS :: int
  REFRESH_TOKEN_TTL_SECONDS :: int
  ACCESS_TOKEN_GEN_BEFORE_SECONDS :: int
  AUTO_PROLONGATE_ACCESS :: bool
  AUTO_PROLONGATE_REFRESH :: bool
  REFRESH_PATH :: string
  LOGOUT_PATH :: string
  AUTH_BEARER_HEADER :: bool
  ACCESS_TOKEN_NAME :: string
  DIRECT_TOKEN_NAME :: bool
  DISABLE_REFRESH :: bool
  baseProtocolName :: string
  tokenEncryption :: "Token ParameterEncryption"
  sessions :: "'d session_crud"
  FindAuthUser :: "string \<Rightarrow> (string, string) gomap \<Rightarrow> string + User option"
  FillAuthUser :: "'d AuthContext \<Rightarrow> string option \<times> 'd AuthContext"
  clientDigest :: "string \<Rightarrow> string \<Rightarrow> string"
  SerializeTime :: "int \<Rightarrow> string"

text \<open>Identifiers and randomness of one call.\<close>

record token_random =
  accessTokenId :: string
  accessRandom :: random
  refreshTokenId :: string
  refreshRandom :: random
  newSessionId :: string
  newClientId :: string

definition TokenProtocol :: string where "TokenProtocol = ''evgo-token''"
definition RefreshTokenName :: string where "RefreshTokenName = ''refresh''"
definition TagName :: string where "TagName = ''tag''"
definition AccessTokenExpireName :: string where "AccessTokenExpireName = ''access-expire''"
definition RefreshTokenExpireName :: string where "RefreshTokenExpireName = ''refresh-expire''"

definition ErrorCodeTokenExpired :: string where "ErrorCodeTokenExpired = ''auth_token_expired''"
definition ErrorCodeInvalidToken :: string where "ErrorCodeInvalidToken = ''auth_token_invalid''"
definition ErrorCodeSessionExpired :: string where "ErrorCodeSessionExpired = ''session_expired''"
definition ErrorCodeUnknownUser :: string where "ErrorCodeUnknownUser = ''unknown_user''"
definition ErrorCodeRefreshDisabled :: string where "ErrorCodeRefreshDisabled = ''refresh_disabled''"

definition SessionExpiration :: "'d AuthTokenHandler \<Rightarrow> int \<Rightarrow> int" where
  "SessionExpiration a now = now + i64 (Second * REFRESH_TOKEN_TTL_SECONDS a)"

text \<open>Without an authenticated user the code dereferences a nil interface.\<close>

definition GenToken ::
    "'d AuthTokenHandler \<Rightarrow> int \<Rightarrow> string \<times> random \<Rightarrow> string \<Rightarrow> int \<Rightarrow> string \<Rightarrow> bool list \<Rightarrow> 'd AuthContext \<Rightarrow>
     (string + Token) \<times> 'd AuthContext" where
  "GenToken a now rnd paramName expirationSeconds expireParamName appendTag ctx =
     (case authUser ctx of
        None \<Rightarrow> (Inl ''panic: nil user'', ctx)
      | Some user \<Rightarrow>
          let token = \<lparr>TokenExp = SetTTL now expirationSeconds, TokenId = fst rnd, TokenUserId = UserId user,
                TokenUserDisplay = UserDisplay user, TokenSessionId = sessionId ctx,
                TokenTenancy = (case tenancy ctx of None \<Rightarrow> '''' | Some t \<Rightarrow> t), TokenType = paramName,
                TokenParameters = sessionParameters ctx\<rparr>;
              ctx1 = (if OptionalArg True appendTag
                      then SetAuthParameter (baseProtocolName a) TagName (TAG (tokenEncryption a)) [] ctx else ctx);
              ctx2 = SetAuthParameter (baseProtocolName a) expireParamName (SerializeTime a (TokenExp token)) [] ctx1
          in case Encryption_SetAuthParameter (tokenEncryption a) (snd rnd) (baseProtocolName a) paramName token
                    [DIRECT_TOKEN_NAME a] ctx2 of
               (Some err, ctx3) \<Rightarrow> (Inl err, ctx3)
             | (None, ctx3) \<Rightarrow> (Inr token, ctx3))"

definition GenAccessToken ::
    "'d AuthTokenHandler \<Rightarrow> int \<Rightarrow> token_random \<Rightarrow> 'd AuthContext \<Rightarrow> (string + Token) \<times> 'd AuthContext" where
  "GenAccessToken a now rnd ctx =
     GenToken a now (accessTokenId rnd, accessRandom rnd) (ACCESS_TOKEN_NAME a) (ACCESS_TOKEN_TTL_SECONDS a)
       AccessTokenExpireName [] ctx"

text \<open>The session object gets its new expiration even when the update of the database fails.\<close>

definition GenRefreshToken ::
    "'d AuthTokenHandler \<Rightarrow> int \<Rightarrow> token_random \<Rightarrow> SessionBase \<Rightarrow> 'd AuthContext \<Rightarrow>
     (string + Token option) \<times> SessionBase \<times> 'd AuthContext" where
  "GenRefreshToken a now rnd session ctx =
     (if DISABLE_REFRESH a then (Inr None, session, ctx)
      else
        let session1 = session\<lparr>Expiration := SessionExpiration a now\<rparr>
        in case UpdateSessionExpiration (sessions a) session1 ctx of
             (Some err, ctx1) \<Rightarrow> (Inl err, session1, ctx1)
           | (None, ctx1) \<Rightarrow>
               (case GenToken a now (refreshTokenId rnd, refreshRandom rnd) RefreshTokenName
                       (REFRESH_TOKEN_TTL_SECONDS a) RefreshTokenExpireName [False] ctx1 of
                  (Inl err, ctx2) \<Rightarrow> (Inl err, session1, ctx2)
                | (Inr token, ctx2) \<Rightarrow> (Inr (Some token), session1, ctx2)))"

subsection \<open>The handler\<close>

text \<open>
  \<open>Handle\<close> in its three parts: the token of the request, the session and the user, and the new
  tokens with the timer. \<open>Inl\<close> is an early return.
\<close>

definition token_of_request ::
    "'d AuthTokenHandler \<Rightarrow> int \<Rightarrow> 'd AuthContext \<Rightarrow> ((bool \<times> string option) \<times> 'd AuthContext) + Token" where
  "token_of_request a now ctx =
     (let refresh = (requestPath ctx = REFRESH_PATH a);
          tokenName = (if refresh then RefreshTokenName else ACCESS_TOKEN_NAME a)
      in if refresh \<and> DISABLE_REFRESH a then Inl (refuse True ErrorCodeRefreshDisabled ''refresh disabled'' ctx)
         else
           case (if AUTH_BEARER_HEADER a then GetAndDecodeBearer (tokenEncryption a) ctx
                 else Encryption_GetAuthParameter (tokenEncryption a) (baseProtocolName a) tokenName [DIRECT_TOKEN_NAME a] ctx) of
             Present (Inl err) \<Rightarrow> Inl (refuse True ErrorCodeInvalidToken err ctx)
           | Absent \<Rightarrow> Inl ((True, Some ''token missing''), ctx)
           | Present (Inr prevToken) \<Rightarrow>
               if Expired now (TokenExp prevToken) then
                 Inl (refuse True (if refresh then ErrorCodeSessionExpired else ErrorCodeTokenExpired) ''token expired'' ctx)
               else if TokenType prevToken \<noteq> tokenName then
                 Inl (refuse True ErrorCodeInvalidToken ''token types mismatch'' ctx)
               else if (tenancy ctx \<noteq> None \<or> TokenTenancy prevToken \<noteq> '''') \<and>
                       (case tenancy ctx of None \<Rightarrow> True | Some t \<Rightarrow> TokenTenancy prevToken \<noteq> t) then
                 Inl (refuse True ErrorCodeSessionExpired ''invalid tenancy'' ctx)
               else Inr prevToken)"

definition session_of_token ::
    "'d AuthTokenHandler \<Rightarrow> int \<Rightarrow> Token \<Rightarrow> 'd AuthContext \<Rightarrow>
     ((bool \<times> string option) \<times> 'd AuthContext) + (SessionBase \<times> User)" where
  "session_of_token a now prevToken ctx =
     (case FindSession (sessions a) (TokenSessionId prevToken) ctx of
        (Inl err, ctx1) \<Rightarrow> Inl (refuse True ErrorCodeSessionExpired err ctx1)
      | (Inr session, ctx1) \<Rightarrow>
          if \<not> Valid session then Inl (refuse True ErrorCodeSessionExpired ''session invalidated'' ctx1)
          else if Expiration session < now then Inl (refuse True ErrorCodeSessionExpired ''session expired'' ctx1)
          else
            case FindAuthUser a (SessionUserLogin session) (TokenParameters prevToken) of
              Inl err \<Rightarrow> Inl (refuse True ErrorCodeInternalServerError err ctx1)
            | Inr None \<Rightarrow> Inl (refuse True ErrorCodeUnknownUser ''user not found'' ctx1)
            | Inr (Some user) \<Rightarrow>
                if UserBlocked user then Inl (refuse True ErrorCodeSessionExpired ''login blocked'' ctx1)
                else Inr (session, user))"

definition prolong_tokens ::
    "'d AuthTokenHandler \<Rightarrow> int \<Rightarrow> token_random \<Rightarrow> string \<Rightarrow> Token \<Rightarrow> SessionBase \<Rightarrow> 'd AuthContext \<Rightarrow>
     string option \<times> SessionBase \<times> 'd AuthContext" where
  "prolong_tokens a now rnd path prevToken session ctx =
     (let refresh = (path = REFRESH_PATH a);
          regenerateAccess = (refresh \<or> AUTO_PROLONGATE_ACCESS a) \<and>
            (refresh \<or> now + i64 (Second * ACCESS_TOKEN_GEN_BEFORE_SECONDS a) > TokenExp prevToken);
          (err1, ctx1) = (if regenerateAccess then
                            (case GenAccessToken a now rnd ctx of
                               (Inl err, c) \<Rightarrow> (Some err, SetGenericErrorCode ErrorCodeInternalServerError [] c)
                             | (Inr _, c) \<Rightarrow> (None, c))
                          else (None, ctx))
      in case err1 of
           Some err \<Rightarrow> (Some err, session, ctx1)
         | None \<Rightarrow>
             let regenerateRefresh = AUTO_PROLONGATE_REFRESH a \<and>
                   (refresh \<or> now + i64 (Second * ACCESS_TOKEN_TTL_SECONDS a) > Expiration session)
             in if regenerateRefresh then
                  (case GenRefreshToken a now rnd session ctx1 of
                     (Inl err, session1, c) \<Rightarrow> (Some err, session1, SetGenericErrorCode ErrorCodeInternalServerError [] c)
                   | (Inr _, session1, c) \<Rightarrow> (None, session1, c))
                else (None, session, ctx1))"

definition enter_session ::
    "'d AuthTokenHandler \<Rightarrow> int \<Rightarrow> token_random \<Rightarrow> Token \<Rightarrow> SessionBase \<Rightarrow> User \<Rightarrow> 'd handle" where
  "enter_session a now rnd prevToken session user ctx =
     (case FillAuthUser a (ctx\<lparr>authUser := Some user\<rparr>) of
        (Some err, ctx1) \<Rightarrow> ((True, Some err), ctx1)
      | (None, ctx1) \<Rightarrow>
          let ctx2 = LoadSessionParameters (TokenParameters prevToken) (ctx1\<lparr>sessionId := SessionID session\<rparr>)
          in case UpdateSessionClient (sessions a) (clientDigest a) (newClientId rnd) now ctx2 of
               (Some err, ctx3) \<Rightarrow> refuse True ErrorCodeInternalServerError err ctx3
             | (None, ctx3) \<Rightarrow>
                 let (err, session', ctx4) =
                       (if requestPath ctx \<noteq> LOGOUT_PATH a then prolong_tokens a now rnd (requestPath ctx) prevToken session ctx3
                        else
                          case InvalidateSession (sessions a) (SessionUserId session) (SessionID session) (ctx3\<lparr>authUser := None\<rparr>) of
                            (Some err, c) \<Rightarrow> (Some err, session, SetGenericErrorCode ErrorCodeInternalServerError [] c)
                          | (None, c) \<Rightarrow> (None, session, c))
                 in case err of
                      Some err \<Rightarrow> ((True, Some err), ctx4)
                    | None \<Rightarrow>
                        ((True, None), ctx4\<lparr>authTimer := Some (min (Expiration session') (TokenExp prevToken) - now)\<rparr>))"

definition AuthToken_Handle :: "'d AuthTokenHandler \<Rightarrow> int \<Rightarrow> token_random \<Rightarrow> 'd handle" where
  "AuthToken_Handle a now rnd ctx =
     (case token_of_request a now ctx of
        Inl reply \<Rightarrow> reply
      | Inr prevToken \<Rightarrow>
          (case session_of_token a now prevToken ctx of
             Inl reply \<Rightarrow> reply
           | Inr (session, user) \<Rightarrow> enter_session a now rnd prevToken session user ctx))"

text \<open>\<open>AuthNewTokenHandler\<close>: tokens for a user another handler has authenticated.\<close>

definition Process ::
    "'d AuthTokenHandler \<Rightarrow> int \<Rightarrow> token_random \<Rightarrow> 'd AuthContext \<Rightarrow>
     (bool \<times> Token option \<times> string option) \<times> 'd AuthContext" where
  "Process a now rnd ctx =
     (case authUser ctx of
        None \<Rightarrow> ((False, None, None), ctx)
      | Some user \<Rightarrow>
          (case (if sessionId ctx = '''' then
                   (case CreateSession (sessions a) (newSessionId rnd) (SessionExpiration a now) user ctx of
                      (Inl err, c) \<Rightarrow> (Inl err, SetGenericErrorCode ErrorCodeInternalServerError [] c)
                    | (Inr session, c) \<Rightarrow> (Inr session, c\<lparr>sessionId := SessionID session\<rparr>))
                 else
                   (case FindSession (sessions a) (sessionId ctx) ctx of
                      (Inl err, c) \<Rightarrow> (Inl err, SetGenericErrorCode ErrorCodeSessionExpired [] c)
                    | (Inr session, c) \<Rightarrow> (Inr session, c))) of
             (Inl err, ctx1) \<Rightarrow> ((True, None, Some err), ctx1)
           | (Inr session, ctx1) \<Rightarrow>
               (case UpdateSessionClient (sessions a) (clientDigest a) (newClientId rnd) now ctx1 of
                  (Some err, ctx2) \<Rightarrow> ((True, None, Some err), SetGenericErrorCode ErrorCodeInternalServerError [] ctx2)
                | (None, ctx2) \<Rightarrow>
                    (case GenRefreshToken a now rnd session ctx2 of
                       (Inl err, _, ctx3) \<Rightarrow> ((True, None, Some err), SetGenericErrorCode ErrorCodeInternalServerError [] ctx3)
                     | (Inr _, _, ctx3) \<Rightarrow>
                         (case GenAccessToken a now rnd ctx3 of
                            (Inl err, ctx4) \<Rightarrow> ((True, None, Some err), SetGenericErrorCode ErrorCodeInternalServerError [] ctx4)
                          | (Inr token, ctx4) \<Rightarrow> ((True, Some token, None), ctx4))))))"

definition AuthNewToken_Handle :: "'d AuthTokenHandler \<Rightarrow> int \<Rightarrow> token_random \<Rightarrow> 'd handle" where
  "AuthNewToken_Handle a now rnd ctx =
     (case Process a now rnd ctx of ((found, _, err), ctx') \<Rightarrow> ((found, err), ctx'))"

definition GenManualToken ::
    "Token ParameterEncryption option \<Rightarrow> int \<Rightarrow> string \<times> random \<Rightarrow> string \<Rightarrow> User \<Rightarrow> string \<Rightarrow> int \<Rightarrow> string \<Rightarrow>
     (string, string) gomap list \<Rightarrow> string + string" where
  "GenManualToken cipher now rnd tenancyID user sid expirationSeconds tokenType parameters =
     (case cipher of
        None \<Rightarrow> Inl ''nil cipher passed to GenManualToken''
      | Some enc \<Rightarrow>
          Encrypt enc (snd rnd) \<lparr>TokenExp = SetTTL now expirationSeconds, TokenId = fst rnd, TokenUserId = UserId user,
            TokenUserDisplay = UserDisplay user, TokenSessionId = sid, TokenTenancy = tenancyID, TokenType = tokenType,
            TokenParameters = (case parameters of [] \<Rightarrow> [] | p # _ \<Rightarrow> p)\<rparr>)"

definition ReloginRequired :: "string \<Rightarrow> bool" where
  "ReloginRequired code \<longleftrightarrow> code = ErrorCodeInvalidToken \<or> code = ErrorCodeSessionExpired \<or> code = ErrorCodeUnknownUser"

definition RefreshRequired :: "string \<Rightarrow> bool" where
  "RefreshRequired code \<longleftrightarrow> code = ErrorCodeTokenExpired"

subsection \<open>The contract of the session database\<close>

text \<open>\<open>view d i\<close> is the session stored under the identifier \<open>i\<close>.\<close>

locale session_store =
  fixes C :: "'d session_crud"
    and view :: "'d \<Rightarrow> string \<Rightarrow> SessionBase option"
  assumes read: "read_session C i d = Inr (view d i)"
    and keyed: "view d i = Some s \<Longrightarrow> SessionID s = i"
    and create: "create_session C s d = (None, d') \<Longrightarrow> view d' = (view d)(SessionID s \<mapsto> s)"
    and expiration: "update_expiration C i e d = (None, d') \<Longrightarrow>
      view d' = (view d)(i := map_option (\<lambda>s. s\<lparr>Expiration := e\<rparr>) (view d i))"
    and invalidated: "updateMulti_valid C sid uid d = (None, d') \<Longrightarrow>
      view d' i = map_option (\<lambda>s. if sid \<in> {None, Some (SessionID s)} \<and> uid \<in> {None, Some (SessionUserId s)}
        then s\<lparr>Valid := False\<rparr> else s) (view d i)"
    and clients: "create_client C c d = (err, d') \<Longrightarrow> view d' = view d" "touch_client C i now d = (err, d') \<Longrightarrow> view d' = view d"
begin

lemma update_client_view:
  assumes "UpdateSessionClient C dig newId now ctx = (e, ctx')"
  shows "view (backend ctx') = view (backend ctx) \<and> authUser ctx' = authUser ctx \<and> sessionId ctx' = sessionId ctx \<and>
    tenancy ctx' = tenancy ctx \<and> sessionParameters ctx' = sessionParameters ctx"
  using assms
  by (auto simp: UpdateSessionClient_def Let_def dest!: clients split: sum.splits option.splits prod.splits if_splits)

lemma session_invalidated:
  assumes "InvalidateSession C uid sid ctx = (None, ctx')" and "view (backend ctx) sid = Some s" and "SessionUserId s = uid"
  shows "view (backend ctx') sid = Some (s\<lparr>Valid := False\<rparr>) \<and> authUser ctx' = authUser ctx"
  using assms keyed [OF assms(2)] invalidated
  by (auto simp: InvalidateSession_def invalidate_def split: prod.splits option.splits)

end

subsection \<open>Lemmas\<close>

lemma GenToken_ok:
  assumes "GenToken a now rnd paramName seconds expireName tag ctx = (Inr token, ctx')"
  shows "backend ctx' = backend ctx \<and> authUser ctx' = authUser ctx \<and> sessionId ctx' = sessionId ctx \<and>
    tenancy ctx' = tenancy ctx \<and> sessionParameters ctx' = sessionParameters ctx \<and>
    TokenExp token = now + i64 (Second * seconds) \<and> TokenSessionId token = sessionId ctx \<and> TokenType token = paramName \<and>
    TokenTenancy token = (case tenancy ctx of None \<Rightarrow> '''' | Some t \<Rightarrow> t) \<and>
    TokenParameters token = sessionParameters ctx"
  using assms
  by (auto simp: GenToken_def Let_def Encryption_SetAuthParameter_def SetTTL_def
      split: option.splits sum.splits prod.splits if_splits)

lemma token_of_request_ok:
  assumes "token_of_request a now ctx = Inr prev"
  shows "(if AUTH_BEARER_HEADER a then GetAndDecodeBearer (tokenEncryption a) ctx
      else Encryption_GetAuthParameter (tokenEncryption a) (baseProtocolName a)
        (if requestPath ctx = REFRESH_PATH a then RefreshTokenName else ACCESS_TOKEN_NAME a) [DIRECT_TOKEN_NAME a] ctx)
      = Present (Inr prev) \<and>
    now \<le> TokenExp prev \<and> TokenType prev = (if requestPath ctx = REFRESH_PATH a then RefreshTokenName else ACCESS_TOKEN_NAME a) \<and>
    (requestPath ctx = REFRESH_PATH a \<longrightarrow> \<not> DISABLE_REFRESH a) \<and>
    (tenancy ctx = None \<and> TokenTenancy prev = '''' \<or> tenancy ctx = Some (TokenTenancy prev))"
  using assms
  by (auto simp: token_of_request_def Let_def Expired_def split: if_splits param_reply.splits sum.splits option.splits)

lemma session_of_token_ok:
  assumes "session_of_token a now prev ctx = Inr (session, user)"
  shows "read_session (sessions a) (TokenSessionId prev) (backend ctx) = Inr (Some session) \<and>
    Valid session \<and> now \<le> Expiration session \<and>
    FindAuthUser a (SessionUserLogin session) (TokenParameters prev) = Inr (Some user) \<and> \<not> UserBlocked user"
  using assms
  by (auto simp: session_of_token_def FindSession_def zero_session_def
      split: sum.splits option.splits if_splits prod.splits)

lemma early_returns:
  "token_of_request a now ctx = Inl reply \<Longrightarrow> fst (fst reply) \<and> snd (fst reply) \<noteq> None"
  "session_of_token a now prev ctx = Inl reply \<Longrightarrow> fst (fst reply) \<and> snd (fst reply) \<noteq> None"
  by (auto simp: token_of_request_def session_of_token_def Let_def
      split: if_splits param_reply.splits sum.splits option.splits prod.splits)

lemma enter_session_found: "fst (fst (enter_session a now rnd prev session user ctx))"
  by (simp add: enter_session_def Let_def case_prod_beta split: option.split)

lemma AuthToken_Handle_ok:
  assumes "AuthToken_Handle a now rnd ctx = ((found, None), ctx')"
  obtains prev session user where "token_of_request a now ctx = Inr prev"
    and "session_of_token a now prev ctx = Inr (session, user)"
    and "enter_session a now rnd prev session user ctx = ((found, None), ctx')"
proof -
  obtain prev where prev: "token_of_request a now ctx = Inr prev"
    using assms early_returns(1) [of a now ctx] by (fastforce simp: AuthToken_Handle_def split: sum.splits)
  obtain session user where "session_of_token a now prev ctx = Inr (session, user)"
    using assms early_returns(2) [of a now prev ctx] prev
    by (fastforce simp: AuthToken_Handle_def split: sum.splits)
  with prev assms show thesis by (intro that) (simp_all add: AuthToken_Handle_def)
qed

subsection \<open>Properties\<close>

text \<open>
  C2: the token handler lets a request through only with a token that decrypts, has not expired and
  has the type the path asks for (refresh at the refresh path, access elsewhere), whose tenancy is
  the one of the request, and whose session is stored, valid and not expired and belongs to an existing
  user who is not blocked.
\<close>

theorem token_success_means_valid_session:
  assumes "AuthToken_Handle a now rnd ctx = ((found, None), ctx')"
    and "requestPath ctx = REFRESH_PATH a \<longleftrightarrow> refresh" and "(if refresh then RefreshTokenName else ACCESS_TOKEN_NAME a) = tokenName"
  shows "\<exists>prev session user.
    (if AUTH_BEARER_HEADER a then GetAndDecodeBearer (tokenEncryption a) ctx
     else Encryption_GetAuthParameter (tokenEncryption a) (baseProtocolName a) tokenName [DIRECT_TOKEN_NAME a] ctx)
      = Present (Inr prev) \<and>
    now \<le> TokenExp prev \<and> TokenType prev = tokenName \<and> \<not> (refresh \<and> DISABLE_REFRESH a) \<and>
    (tenancy ctx = None \<and> TokenTenancy prev = '''' \<or> tenancy ctx = Some (TokenTenancy prev)) \<and>
    read_session (sessions a) (TokenSessionId prev) (backend ctx) = Inr (Some session) \<and>
    Valid session \<and> now \<le> Expiration session \<and>
    FindAuthUser a (SessionUserLogin session) (TokenParameters prev) = Inr (Some user) \<and> \<not> UserBlocked user"
proof -
  obtain prev session user where "token_of_request a now ctx = Inr prev"
    "session_of_token a now prev ctx = Inr (session, user)"
    using AuthToken_Handle_ok [OF assms(1)] by metis
  from token_of_request_ok [OF this(1)] session_of_token_ok [OF this(2)] assms(2,3)
  show ?thesis by auto
qed

lemma always_found:
  "fst (fst (AuthToken_Handle a now rnd ctx))"
  using early_returns [of a now] enter_session_found [of a now rnd]
  by (auto simp: AuthToken_Handle_def split: sum.splits prod.splits)

text \<open>
  The token handler always reports that its method was found, a missing token included. In
  an OR schema it therefore decides alone: no handler after it is ever asked.
\<close>

theorem or_schema_stops_at_token:
  "fst (fst (AuthToken_Handle a now rnd ctx)) \<and>
   snd (fst (Handle (AuthSchema n AggOr (Method m (AuthToken_Handle a now rnd) # hs)) ctx)) = snd (fst (AuthToken_Handle a now rnd ctx))"
  using always_found [of a now rnd ctx] by (auto split: prod.splits)

lemma enter_session_logout:
  assumes "enter_session a now rnd prev session user ctx = ((found, None), ctx')" and "requestPath ctx = LOGOUT_PATH a"
  shows "\<exists>ctx1 ctx3 ctx4. FillAuthUser a (ctx\<lparr>authUser := Some user\<rparr>) = (None, ctx1) \<and>
    UpdateSessionClient (sessions a) (clientDigest a) (newClientId rnd) now
      (LoadSessionParameters (TokenParameters prev) (ctx1\<lparr>sessionId := SessionID session\<rparr>)) = (None, ctx3) \<and>
    InvalidateSession (sessions a) (SessionUserId session) (SessionID session) (ctx3\<lparr>authUser := None\<rparr>) = (None, ctx4) \<and>
    backend ctx' = backend ctx4 \<and> authUser ctx' = authUser ctx4"
  using assms
  by (auto simp: enter_session_def Let_def split: prod.splits option.splits)

text \<open>
  C6: logging out ends the session for all of its tokens: after a successful request at the
  logout path the context has no user, and every later request whose token names the same
  session is refused as an invalidated session, whatever the type and the lifetime of the token.
\<close>

theorem logout_revokes_session:
  assumes "session_store (sessions a) view" and "\<And>c. backend (snd (FillAuthUser a c)) = backend c"
    and "AuthToken_Handle a now rnd ctx = ((found, None), ctx')" and "requestPath ctx = LOGOUT_PATH a"
    and "token_of_request a now ctx = Inr prev" and "token_of_request a t ctx2 = Inr tok"
    and "TokenSessionId tok = TokenSessionId prev" and "backend ctx2 = backend ctx'"
  shows "authUser ctx' = None \<and>
    AuthToken_Handle a t rnd2 ctx2 = refuse True ErrorCodeSessionExpired ''session invalidated'' ctx2"
proof -
  note store = assms(1)
  obtain session user where s: "session_of_token a now prev ctx = Inr (session, user)"
    "enter_session a now rnd prev session user ctx = ((found, None), ctx')"
    using AuthToken_Handle_ok [OF assms(3)] assms(5) by (metis sum.inject(2))
  have v: "view (backend ctx) (TokenSessionId prev) = Some session"
    using session_of_token_ok [OF s(1)] session_store.read [OF store] by simp
  note sid = session_store.keyed [OF store v]
  from enter_session_logout [OF s(2) assms(4)] obtain ctx1 c3 c4 where
    steps: "FillAuthUser a (ctx\<lparr>authUser := Some user\<rparr>) = (None, ctx1)"
      "UpdateSessionClient (sessions a) (clientDigest a) (newClientId rnd) now
        (LoadSessionParameters (TokenParameters prev) (ctx1\<lparr>sessionId := SessionID session\<rparr>)) = (None, c3)"
      "InvalidateSession (sessions a) (SessionUserId session) (SessionID session) (c3\<lparr>authUser := None\<rparr>) = (None, c4)"
      "backend ctx' = backend c4" "authUser ctx' = authUser c4" by blast
  have "view (backend (c3\<lparr>authUser := None\<rparr>)) (SessionID session) = Some session"
    using session_store.update_client_view [OF store steps(2)] steps(1) assms(2) [of "ctx\<lparr>authUser := Some user\<rparr>"] v sid
    by (simp add: LoadSessionParameters_def)
  from session_store.session_invalidated [OF store steps(3) this refl]
  have "authUser ctx' = None" "view (backend ctx2) (TokenSessionId tok) = Some (session\<lparr>Valid := False\<rparr>)"
    using steps(4,5) assms(7,8) sid by auto
  then show ?thesis
    using assms(6) session_store.read [OF store]
    by (simp add: AuthToken_Handle_def session_of_token_def FindSession_def)
qed

lemma gen_refresh_view:
  assumes "session_store (sessions a) view" and "GenRefreshToken a now rnd session ctx = (Inr tok, session', ctx')"
    and "view (backend ctx) (SessionID session) = Some session" and "Expiration session = SessionExpiration a now"
  shows "view (backend ctx') (SessionID session) = Some session \<and> authUser ctx' = authUser ctx \<and>
    sessionId ctx' = sessionId ctx \<and> tenancy ctx' = tenancy ctx \<and> sessionParameters ctx' = sessionParameters ctx"
proof (cases "DISABLE_REFRESH a")
  case True
  with assms show ?thesis by (simp add: GenRefreshToken_def)
next
  case False
  then obtain ctx1 t where g: "UpdateSessionExpiration (sessions a) (session\<lparr>Expiration := SessionExpiration a now\<rparr>) ctx = (None, ctx1)"
    "GenToken a now (refreshTokenId rnd, refreshRandom rnd) RefreshTokenName (REFRESH_TOKEN_TTL_SECONDS a)
       RefreshTokenExpireName [False] ctx1 = (Inr t, ctx')"
    using assms(2) by (auto simp: GenRefreshToken_def Let_def split: prod.splits option.splits sum.splits)
  have "view (backend ctx1) = (view (backend ctx))(SessionID session \<mapsto> session) \<and> authUser ctx1 = authUser ctx \<and>
      sessionId ctx1 = sessionId ctx \<and> tenancy ctx1 = tenancy ctx \<and> sessionParameters ctx1 = sessionParameters ctx"
    using g(1) session_store.expiration [OF assms(1)] assms(3,4)
    by (cases session) (auto simp: UpdateSessionExpiration_def split: prod.splits option.splits)
  with GenToken_ok [OF g(2)] show ?thesis by simp
qed

text \<open>
  C7: tokens that are issued work: when a user without a session is given tokens, a later request
  that carries the access token, within the lifetimes of the token and of the session, passes the
  checks of the token and of the session and is the request of that user.
\<close>

theorem issued_token_opens_session:
  assumes "session_store (sessions a) view" and "Process a now rnd ctx = ((True, Some token, None), ctx1)"
    and "authUser ctx = Some u" and "sessionId ctx = ''''" and "\<not> AUTH_BEARER_HEADER a"
    and "requestPath ctx2 \<noteq> REFRESH_PATH a" and "tenancy ctx2 = tenancy ctx" and "backend ctx2 = backend ctx1"
    and "Encryption_GetAuthParameter (tokenEncryption a) (baseProtocolName a) (ACCESS_TOKEN_NAME a) [DIRECT_TOKEN_NAME a] ctx2
      = Present (Inr token)"
    and "t \<le> now + i64 (Second * ACCESS_TOKEN_TTL_SECONDS a)" and "t \<le> SessionExpiration a now"
    and "FindAuthUser a (UserLogin u) (sessionParameters ctx) = Inr (Some u')" and "\<not> UserBlocked u'"
  shows "\<exists>session. token_of_request a t ctx2 = Inr token \<and> session_of_token a t token ctx2 = Inr (session, u') \<and>
    SessionUserId session = UserId u"
proof -
  note store = assms(1)
  define s where "s = \<lparr>SessionID = newSessionId rnd, SessionUserId = UserId u, SessionUserLogin = UserLogin u,
    SessionUserDisplay = UserDisplay u, Valid = True, Expiration = SessionExpiration a now\<rparr>"
  obtain d c2 c3 r s' where
    created: "create_session (sessions a) s (backend ctx) = (None, d)"
    and client: "UpdateSessionClient (sessions a) (clientDigest a) (newClientId rnd) now
      (ctx\<lparr>backend := d, sessionId := newSessionId rnd\<rparr>) = (None, c2)"
    and refresh: "GenRefreshToken a now rnd s c2 = (Inr r, s', c3)"
    and access: "GenAccessToken a now rnd c3 = (Inr token, ctx1)"
    using assms(2-4)
    by (auto simp: Process_def CreateSession_def Let_def s_def split: prod.splits option.splits sum.splits)
  have v2: "view (backend c2) (SessionID s) = Some s" and c2: "sessionId c2 = SessionID s" "tenancy c2 = tenancy ctx"
      "sessionParameters c2 = sessionParameters ctx"
    using session_store.create [OF store created] session_store.update_client_view [OF store client]
    by (simp_all add: s_def)
  note v3 = gen_refresh_view [OF store refresh v2]
  note tok = GenToken_ok [OF access [unfolded GenAccessToken_def]]
  have v: "view (backend ctx2) (SessionID s) = Some s" "TokenSessionId token = SessionID s"
      "TokenTenancy token = (case tenancy ctx of None \<Rightarrow> '''' | Some t \<Rightarrow> t)" "TokenParameters token = sessionParameters ctx"
    using v3 tok c2 assms(8) by (simp_all add: s_def)
  have "token_of_request a t ctx2 = Inr token"
    using assms(5-7,9,10) tok v(3) by (auto simp: token_of_request_def Let_def Expired_def split: option.splits)
  moreover have "session_of_token a t token ctx2 = Inr (s, u')"
    using v assms(11-13) session_store.read [OF store]
    by (simp add: session_of_token_def FindSession_def s_def)
  ultimately show ?thesis by (simp add: s_def)
qed

subsection \<open>A table of sessions\<close>

text \<open>
  A table keyed by session identifiers that ignores clients: it satisfies the contract, and
  the witnesses run on it.
\<close>

type_synonym session_db = "(string, SessionBase) gomap"

definition db_view :: "session_db \<Rightarrow> string \<Rightarrow> SessionBase option" where
  "db_view d i = (case map_of d i of None \<Rightarrow> None | Some s \<Rightarrow> if SessionID s = i then Some s else None)"

definition session_table :: "session_db session_crud" where
  "session_table = \<lparr>
     create_session = (\<lambda>s d. (None, AList.update (SessionID s) s d)),
     read_session = (\<lambda>i d. Inr (db_view d i)),
     update_expiration = (\<lambda>i e d. (None, map (\<lambda>(k, s). (k, if k = i then s\<lparr>Expiration := e\<rparr> else s)) d)),
     updateMulti_valid = (\<lambda>sid uid d. (None, map (\<lambda>(k, s). (k,
       if sid \<in> {None, Some (SessionID s)} \<and> uid \<in> {None, Some (SessionUserId s)} then s\<lparr>Valid := False\<rparr> else s)) d)),
     read_client = (\<lambda>sid h d. Inr None),
     create_client = (\<lambda>c d. (None, d)),
     touch_client = (\<lambda>i now d. (None, d))\<rparr>"

lemma map_of_map_key: "map_of (map (\<lambda>(k, s). (k, f k s)) d) i = map_option (f i) (map_of d i)"
  by (induction d) auto

interpretation st: session_store session_table db_view
proof
  show "read_session session_table i d = Inr (db_view d i)" for i d
    by (simp add: session_table_def)
  show "db_view d i = Some s \<Longrightarrow> SessionID s = i" for d i s
    by (auto simp: db_view_def split: option.splits if_splits)
  show "create_session session_table s d = (None, d') \<Longrightarrow> db_view d' = (db_view d)(SessionID s \<mapsto> s)" for s d d'
    by (auto simp: session_table_def db_view_def gomap fun_eq_iff)
  show "update_expiration session_table i e d = (None, d') \<Longrightarrow>
      db_view d' = (db_view d)(i := map_option (\<lambda>s. s\<lparr>Expiration := e\<rparr>) (db_view d i))" for i e d d'
  proof (rule ext)
    fix j
    assume "update_expiration session_table i e d = (None, d')"
    then show "db_view d' j = ((db_view d)(i := map_option (\<lambda>s. s\<lparr>Expiration := e\<rparr>) (db_view d i))) j"
      by (cases "map_of d j"; cases "j = i") (auto simp: session_table_def db_view_def map_of_map_key)
  qed
  show "updateMulti_valid session_table sid uid d = (None, d') \<Longrightarrow>
      db_view d' i = map_option (\<lambda>s. if sid \<in> {None, Some (SessionID s)} \<and> uid \<in> {None, Some (SessionUserId s)}
        then s\<lparr>Valid := False\<rparr> else s) (db_view d i)" for sid uid d d' i
  proof -
    assume "updateMulti_valid session_table sid uid d = (None, d')"
    then have d': "d' = map (\<lambda>(k, s). (k, if sid \<in> {None, Some (SessionID s)} \<and> uid \<in> {None, Some (SessionUserId s)}
        then s\<lparr>Valid := False\<rparr> else s)) d"
      by (simp add: session_table_def)
    have "map_of d' i = map_option (\<lambda>s. if sid \<in> {None, Some (SessionID s)} \<and> uid \<in> {None, Some (SessionUserId s)}
        then s\<lparr>Valid := False\<rparr> else s) (map_of d i)"
      unfolding d' by (rule map_of_map_key)
    then show ?thesis by (cases "map_of d i") (simp_all add: db_view_def del: insert_iff)
  qed
  show "create_client session_table c d = (err, d') \<Longrightarrow> db_view d' = db_view d" for c d err d'
    by (auto simp: session_table_def)
  show "touch_client session_table i now d = (err, d') \<Longrightarrow> db_view d' = db_view d" for i now d err d'
    by (auto simp: session_table_def)
qed

definition example_token :: Token where
  "example_token = \<lparr>TokenExp = 900 * Second, TokenId = ''id'', TokenUserId = ''u1'', TokenUserDisplay = ''alice'',
     TokenSessionId = ''s1'', TokenTenancy = '''', TokenType = ''access'', TokenParameters = []\<rparr>"

definition example_session :: SessionBase where
  "example_session = \<lparr>SessionID = ''s1'', SessionUserId = ''u1'', SessionUserLogin = ''alice'',
     SessionUserDisplay = ''alice'', Valid = True, Expiration = 43200 * Second\<rparr>"

text \<open>The codec of the example reads every plaintext as the example token.\<close>

definition example_tokens :: "session_db AuthTokenHandler" where
  "example_tokens = \<lparr>ACCESS_TOKEN_TTL_SECONDS = 900, REFRESH_TOKEN_TTL_SECONDS = 43200,
     ACCESS_TOKEN_GEN_BEFORE_SECONDS = 60, AUTO_PROLONGATE_ACCESS = True, AUTO_PROLONGATE_REFRESH = True,
     REFRESH_PATH = ''/auth/refresh'', LOGOUT_PATH = ''/auth/logout'', AUTH_BEARER_HEADER = False,
     ACCESS_TOKEN_NAME = ''access'', DIRECT_TOKEN_NAME = False, DISABLE_REFRESH = False,
     baseProtocolName = TokenProtocol,
     tokenEncryption = \<lparr>SECRET = ''secret'', SALT_SIZE = 2, TAG = '''',
       aeadConfig = \<lparr>MakeAead = (\<lambda>key. Inr toy_cipher), DeriveKey = (\<lambda>s salt n. s @ salt), KeySize = 8\<rparr>,
       codecOf = \<lparr>SerializeMessage = (\<lambda>token. Inr (TokenId token)), ParseMessage = (\<lambda>b. Inr example_token),
         Encode = id, Decode = Inr\<rparr>\<rparr>,
     sessions = session_table,
     FindAuthUser = (\<lambda>login params. Inr (if login = ''alice'' then Some (NewAuthUser ''u1'' ''alice'' '''' []) else None)),
     FillAuthUser = (\<lambda>ctx. (None, ctx)), clientDigest = (\<lambda>ip ua. ip @ ua), SerializeTime = (\<lambda>t. '''')\<rparr>"

definition example_random :: token_random where
  "example_random = \<lparr>accessTokenId = ''id'', accessRandom = (Inr ''sa'', Inr ''n''), refreshTokenId = ''r'',
     refreshRandom = (Inr ''sa'', Inr ''n''), newSessionId = ''s1'', newClientId = ''c1''\<rparr>"

definition example_call :: "string \<Rightarrow> session_db \<Rightarrow> session_db AuthContext" where
  "example_call path d = (empty_context d)\<lparr>requestPath := path,
     requestHeaders := [(''x-evgo-token-access'', ''nn|id|sa'')]\<rparr>"

lemma example_reply:
  "Encryption_GetAuthParameter (tokenEncryption example_tokens) (baseProtocolName example_tokens)
     (ACCESS_TOKEN_NAME example_tokens) [DIRECT_TOKEN_NAME example_tokens] (example_call path d) = Present (Inr example_token)"
  by (simp add: example_tokens_def example_call_def Encryption_GetAuthParameter_def GetAuthParameter_def AuthKey_def
      TokenProtocol_def empty_context_def DecodeAuthParameter_def createCipher_def NewAEAD_def AEAD_Decrypt_def toy_cipher_def)

lemma example_token_of_request:
  "now \<le> 900 * Second \<Longrightarrow> path \<noteq> ''/auth/refresh'' \<Longrightarrow> token_of_request example_tokens now (example_call path d) = Inr example_token"
proof -
  assume "now \<le> 900 * Second" "path \<noteq> ''/auth/refresh''"
  moreover have "tenancy (example_call path d) = None" "requestPath (example_call path d) = path"
    "REFRESH_PATH example_tokens = ''/auth/refresh''" "\<not> AUTH_BEARER_HEADER example_tokens"
    "ACCESS_TOKEN_NAME example_tokens = ''access''" "TokenTenancy example_token = ''''" "TokenType example_token = ''access''"
    "TokenExp example_token = 900 * Second"
    by (simp_all add: example_tokens_def example_call_def empty_context_def example_token_def)
  ultimately show ?thesis
    using example_reply [of path d] by (simp add: token_of_request_def Expired_def Let_def)
qed

definition example_sessions :: session_db where
  "example_sessions = [(''s1'', example_session)]"

theorem token_success_means_valid_session_witness:
  "fst (AuthToken_Handle example_tokens 5 example_random (example_call ''/pay'' example_sessions)) = (True, None) \<and>
   (\<exists>(prev :: Token) session. TokenType prev = ''access'' \<and>
     read_session session_table (TokenSessionId prev) example_sessions = Inr (Some session) \<and> Valid session)"
proof -
  let ?ctx = "example_call ''/pay'' example_sessions"
  obtain r ctx' where run: "AuthToken_Handle example_tokens 5 example_random ?ctx = (r, ctx')"
    by (cases "AuthToken_Handle example_tokens 5 example_random ?ctx")
  have "fst (AuthToken_Handle example_tokens 5 example_random ?ctx) = (True, None)" by code_simp
  then have r: "r = (True, None)" using run by simp
  have facts: "requestPath ?ctx = REFRESH_PATH example_tokens \<longleftrightarrow> False"
    "(if False then RefreshTokenName else ACCESS_TOKEN_NAME example_tokens) = ''access''"
    "sessions example_tokens = session_table" "backend ?ctx = example_sessions"
    by (simp_all add: example_call_def empty_context_def example_tokens_def)
  from token_success_means_valid_session [OF run [unfolded r] facts(1,2)] show ?thesis
    unfolding run r fst_conv facts(3,4) by blast
qed

theorem logout_revokes_session_witness:
  "let d = backend (snd (AuthToken_Handle example_tokens 5 example_random (example_call ''/auth/logout'' example_sessions)))
   in AuthToken_Handle example_tokens 6 example_random (example_call ''/pay'' d) =
        refuse True ErrorCodeSessionExpired ''session invalidated'' (example_call ''/pay'' d)"
proof -
  let ?ctx = "example_call ''/auth/logout'' example_sessions"
  obtain r ctx' where run: "AuthToken_Handle example_tokens 5 example_random ?ctx = (r, ctx')"
    by (cases "AuthToken_Handle example_tokens 5 example_random ?ctx")
  have "fst (AuthToken_Handle example_tokens 5 example_random ?ctx) = (True, None)" by code_simp
  then have r: "r = (True, None)" using run by simp
  have store: "session_store (sessions example_tokens) db_view"
    using st.session_store_axioms by (simp add: example_tokens_def)
  have facts: "backend (snd (FillAuthUser example_tokens c)) = backend c" "requestPath ?ctx = LOGOUT_PATH example_tokens"
    "backend (example_call p d) = d" for c p d
    by (simp_all add: example_call_def empty_context_def example_tokens_def)
  have tok: "token_of_request example_tokens 5 ?ctx = Inr example_token"
    "token_of_request example_tokens 6 (example_call ''/pay'' (backend ctx')) = Inr example_token"
    by (simp_all add: example_token_of_request Second_def)
  from logout_revokes_session [OF store facts(1) run [unfolded r] facts(2) tok refl facts(3)] show ?thesis
    by (simp add: run Let_def)
qed

theorem issued_token_opens_session_witness:
  "\<exists>ctx1 session. Process example_tokens 0 example_random
       ((empty_context [])\<lparr>authUser := Some (NewAuthUser ''u1'' ''alice'' '''' [])\<rparr>) = ((True, Some example_token, None), ctx1) \<and>
     session_of_token example_tokens 5 example_token (example_call ''/pay'' (backend ctx1)) =
       Inr (session, NewAuthUser ''u1'' ''alice'' '''' [])"
proof -
  let ?ctx = "(empty_context [])\<lparr>authUser := Some (NewAuthUser ''u1'' ''alice'' '''' [])\<rparr> :: session_db AuthContext"
  obtain r ctx1 where run: "Process example_tokens 0 example_random ?ctx = (r, ctx1)"
    by (cases "Process example_tokens 0 example_random ?ctx")
  have "fst (Process example_tokens 0 example_random ?ctx) = (True, Some example_token, None)" by code_simp
  then have r: "r = (True, Some example_token, None)" using run by simp
  have store: "session_store (sessions example_tokens) db_view"
    using st.session_store_axioms by (simp add: example_tokens_def)
  have facts: "authUser ?ctx = Some (NewAuthUser ''u1'' ''alice'' '''' [])" "sessionId ?ctx = ''''" "\<not> AUTH_BEARER_HEADER example_tokens"
    "requestPath (example_call ''/pay'' (backend ctx1)) \<noteq> REFRESH_PATH example_tokens"
    "tenancy (example_call ''/pay'' (backend ctx1)) = tenancy ?ctx" "backend (example_call ''/pay'' (backend ctx1)) = backend ctx1"
    "5 \<le> 0 + i64 (Second * ACCESS_TOKEN_TTL_SECONDS example_tokens)" "5 \<le> SessionExpiration example_tokens 0"
    "FindAuthUser example_tokens (UserLogin (NewAuthUser ''u1'' ''alice'' '''' [])) (sessionParameters ?ctx) =
      Inr (Some (NewAuthUser ''u1'' ''alice'' '''' []))" "\<not> UserBlocked (NewAuthUser ''u1'' ''alice'' '''' [])"
    by (simp_all add: empty_context_def example_call_def example_tokens_def NewAuthUser_def SessionExpiration_def i64_def Second_def Let_def)
  from issued_token_opens_session [OF store run [unfolded r] facts(1-6) example_reply facts(7-10)] show ?thesis
    using run r by blast
qed

end
