(* ===== verification/GenericErrors.thy ===== *)
theory GenericErrors
  imports Prelude
begin

section \<open>Generic errors\<close>

text \<open>
  Models \<^verbatim>\<open>pkg/generic_error\<close>: generic errors and what is read of them (\<^verbatim>\<open>generic_error.go\<close>),
  the common codes (\<^verbatim>\<open>common_errors.go\<close>), the error manager with its dispositions and the
  extenders through which packages declare their errors (\<^verbatim>\<open>error_manager.go\<close>). The maps of
  descriptions and protocol codes of an extender are Go maps that packages share, so they
  live in a store and an extender holds their addresses; a nil map is \<open>None\<close>.
\<close>

subsection \<open>Errors\<close>

type_synonym Disposition = string

definition DispositionUnknown :: Disposition where "DispositionUnknown = ''''"
definition DispositionPermanent :: Disposition where "DispositionPermanent = ''permanent''"
definition DispositionUnsupported :: Disposition where "DispositionUnsupported = ''unsupported''"
definition DispositionRetry :: Disposition where "DispositionRetry = ''retry''"
definition DispositionRetryAfter :: Disposition where "DispositionRetryAfter = ''retry_after''"
definition DispositionUserAction :: Disposition where "DispositionUserAction = ''user_action''"

lemmas disposition_defs = DispositionUnknown_def DispositionPermanent_def DispositionUnsupported_def
  DispositionRetry_def DispositionRetryAfter_def DispositionUserAction_def

definition IsTerminal :: "Disposition \<Rightarrow> bool" where
  "IsTerminal d \<longleftrightarrow> d = DispositionPermanent \<or> d = DispositionUnsupported"

definition IsStated :: "Disposition \<Rightarrow> bool" where
  "IsStated d \<longleftrightarrow> d \<noteq> DispositionUnknown"

text \<open>A Go error is a native error with its text or a generic error, which may hold an original one.
  The opaque data a generic error carries for its reader are left out.\<close>

datatype go_error =
    Native string
  | ErrorBase (holder_code: string) (holder_message: string) (holder_details: string) (holder_family: string)
      (holder_disposition: Disposition) (holder_retryAfter: int) (holder_original: "go_error option")

definition ErrorCodeUnknown :: string where "ErrorCodeUnknown = ''unknown_error''"

fun Error :: "go_error \<Rightarrow> string" where
  "Error (Native s) = s"
| "Error (ErrorBase code message details family disposition retryAfter original) =
     (case original of None \<Rightarrow> message | Some err \<Rightarrow> message @ '': '' @ Error err)"

definition New :: "string \<Rightarrow> string list \<Rightarrow> go_error" where
  "New code message = ErrorBase code (OptionalArg '''' message) '''' '''' DispositionUnknown 0 None"

definition NewFromErr :: "go_error \<Rightarrow> string list \<Rightarrow> go_error" where
  "NewFromErr err code = New (OptionalArg ErrorCodeUnknown code) [Error err]"

definition NewFromOriginal :: "string \<Rightarrow> string \<Rightarrow> go_error option \<Rightarrow> go_error" where
  "NewFromOriginal code message original = ErrorBase code message '''' '''' DispositionUnknown 0 original"

definition NewFromMessage :: "string \<Rightarrow> go_error" where
  "NewFromMessage message = ErrorBase ErrorCodeUnknown message '''' '''' DispositionUnknown 0 None"

definition Code :: "go_error option \<Rightarrow> string" where
  "Code e = (case e of None \<Rightarrow> '''' | Some (Native s) \<Rightarrow> ErrorCodeUnknown | Some err \<Rightarrow> holder_code err)"

definition Message :: "go_error option \<Rightarrow> string" where
  "Message e = (case e of None \<Rightarrow> '''' | Some err \<Rightarrow> Error err)"

definition Details :: "go_error option \<Rightarrow> string" where
  "Details e = (case e of None \<Rightarrow> '''' | Some (Native s) \<Rightarrow> '''' | Some err \<Rightarrow> holder_details err)"

definition Original :: "go_error option \<Rightarrow> go_error option" where
  "Original e = (case e of None \<Rightarrow> None | Some (Native s) \<Rightarrow> Some (Native s) | Some err \<Rightarrow> holder_original err)"

subsection \<open>Common codes\<close>

definition CommonErrorDispositions :: "(string, Disposition) gomap" where
  "CommonErrorDispositions = [(''operation_expired'', DispositionRetry)]"

definition CommonErrorHttpCodes :: "(string, int) gomap" where
  "CommonErrorHttpCodes =
     [(''unknown_error'', 500), (''internal_server_error'', 500), (''forbidden'', 403), (''resource_not_found'', 404),
      (''external_service_unavailable'', 500), (''external_service_error'', 500), (''retry_later'', 503),
      (''operation_not_permitteds'', 403), (''resource_busyr'', 503), (''unimplemented'', 501),
      (''foreign_unavailable'', 404), (''conflict'', 409), (''io_aborted'', 499), (''unavailable'', 503)]"

definition CommonErrorDescriptions :: "(string, string) gomap" where
  "CommonErrorDescriptions =
     [(''unknown_error'', ''Unknown error''), (''internal_server_error'', ''Internal server error''),
      (''invalid_format'', ''Invalid format of request''), (''invalid_field_value'', ''Invalid value of request field''),
      (''validation_failed'', ''Validation failed''), (''forbidden'', ''Access denied''),
      (''resource_not_found'', ''Resource not found''),
      (''external_service_unavailable'', ''External service is temporarily unavailable''),
      (''external_service_error'', ''External service reported error''),
      (''operation_unsupported'', ''Operation unsupported''), (''operation_expired'', ''Operation expired''),
      (''operation_not_permitteds'', ''Operation not permitted''),
      (''retry_later'', ''Service is temporarily unavailable, please retry later''),
      (''resource_busyr'', ''Resource is busy, please retry later''),
      (''unimplemented'', ''Method or operation not implemeted''), (''bad_request'', ''Bad request''),
      (''foreign_unavailable'', ''Unavailable object at foreign server''),
      (''io_aborted'', ''Client closed request''), (''conflict'', ''Duplicate object or resource''),
      (''unavailable'', ''Service or operation unavailable'')]"

subsection \<open>The error manager\<close>

record ErrorManagerBase =
  descriptions :: "(string, string) gomap"
  protocolCodes :: "(string, int) gomap"
  families :: "(string, string) gomap"
  dispositions :: "(string, Disposition) gomap"
  defaultProtocolCode :: int

definition AddErrorDescriptions :: "(string, string) gomap \<Rightarrow> ErrorManagerBase \<Rightarrow> ErrorManagerBase" where
  "AddErrorDescriptions m e = e\<lparr>descriptions := AppendMap (descriptions e) m\<rparr>"

definition AddErrorProtocolCodes :: "(string, int) gomap \<Rightarrow> ErrorManagerBase \<Rightarrow> ErrorManagerBase" where
  "AddErrorProtocolCodes m e = e\<lparr>protocolCodes := AppendMap (protocolCodes e) m\<rparr>"

definition AddErrorFamilies :: "(string, string) gomap \<Rightarrow> ErrorManagerBase \<Rightarrow> ErrorManagerBase" where
  "AddErrorFamilies m e = e\<lparr>families := AppendMap (families e) m\<rparr>"

definition Manager_AddErrorDispositions :: "(string, Disposition) gomap \<Rightarrow> ErrorManagerBase \<Rightarrow> ErrorManagerBase" where
  "Manager_AddErrorDispositions m e = e\<lparr>dispositions := AppendMap (dispositions e) m\<rparr>"

definition Manager_Init :: "int \<Rightarrow> ErrorManagerBase" where
  "Manager_Init defaultCode =
     AddErrorDescriptions CommonErrorDescriptions
       \<lparr>descriptions = [], protocolCodes = [], families = [], dispositions = [], defaultProtocolCode = defaultCode\<rparr>"

definition ErrorDescription :: "string \<Rightarrow> (string \<Rightarrow> string) list \<Rightarrow> ErrorManagerBase \<Rightarrow> string" where
  "ErrorDescription code tr e =
     (let description = (case map_of (descriptions e) code of None \<Rightarrow> code | Some d \<Rightarrow> d)
      in OptionalArg id tr description)"

definition ErrorProtocolCode :: "string \<Rightarrow> ErrorManagerBase \<Rightarrow> int" where
  "ErrorProtocolCode code e =
     (case map_of (protocolCodes e) code of None \<Rightarrow> defaultProtocolCode e | Some c \<Rightarrow> c)"

definition ErrorFamily :: "string \<Rightarrow> ErrorManagerBase \<Rightarrow> string" where
  "ErrorFamily code e = (case map_of (families e) code of None \<Rightarrow> '''' | Some f \<Rightarrow> f)"

definition HttpStatusClientAborted :: int where "HttpStatusClientAborted = 499"

definition dispositionFromHttpStatus :: "int \<Rightarrow> Disposition" where
  "dispositionFromHttpStatus status =
     (if status = 501 then DispositionUnsupported
      else if status = 401 then DispositionUserAction
      else if status = 408 \<or> status = 425 \<or> status = 429 then DispositionRetryAfter
      else if status \<ge> 400 \<and> status < 500 \<or> status = HttpStatusClientAborted then DispositionPermanent
      else if status \<ge> 500 then DispositionRetry
      else DispositionUnknown)"

definition ErrorDisposition :: "string \<Rightarrow> ErrorManagerBase \<Rightarrow> Disposition" where
  "ErrorDisposition code e =
     (case map_of (dispositions e) code of
        Some d \<Rightarrow> d
      | None \<Rightarrow>
          (case map_of (protocolCodes e) code of
             None \<Rightarrow> DispositionUnknown
           | Some protocolCode \<Rightarrow> dispositionFromHttpStatus protocolCode))"

definition MakeGenericError :: "string \<Rightarrow> (string \<Rightarrow> string) list \<Rightarrow> ErrorManagerBase \<Rightarrow> go_error" where
  "MakeGenericError code tr e =
     ErrorBase code (ErrorDescription code tr e) '''' (ErrorFamily code e) (ErrorDisposition code e) 0 None"

definition ManagerHttp_Init :: ErrorManagerBase where
  "ManagerHttp_Init =
     Manager_AddErrorDispositions CommonErrorDispositions
       (AddErrorProtocolCodes CommonErrorHttpCodes
         (AddErrorDescriptions CommonErrorDescriptions (Manager_Init 400)))"

subsection \<open>Extenders\<close>

record error_store =
  descriptionMaps :: "nat \<Rightarrow> (string, string) gomap"
  codeMaps :: "nat \<Rightarrow> (string, int) gomap"

record ErrorsExtenderBase =
  errorDescriptions :: "nat option"
  errorProtocolCodes :: "nat option"
  errorFamilies :: "(string, string) gomap option"
  errorDispositions :: "(string, Disposition) gomap option"

definition zeroExtender :: ErrorsExtenderBase where
  "zeroExtender = \<lparr>errorDescriptions = None, errorProtocolCodes = None, errorFamilies = None, errorDispositions = None\<rparr>"

text \<open>A map argument is an address or nil; a nil map reads as empty.\<close>

definition descriptions_of :: "error_store \<Rightarrow> nat option \<Rightarrow> (string, string) gomap" where
  "descriptions_of s m = (case m of None \<Rightarrow> [] | Some i \<Rightarrow> descriptionMaps s i)"

definition codes_of :: "error_store \<Rightarrow> nat option \<Rightarrow> (string, int) gomap" where
  "codes_of s m = (case m of None \<Rightarrow> [] | Some i \<Rightarrow> codeMaps s i)"

definition Extender_Init :: "nat option \<Rightarrow> nat option list \<Rightarrow> ErrorsExtenderBase \<Rightarrow> ErrorsExtenderBase" where
  "Extender_Init descs codes e =
     (let e1 = e\<lparr>errorDescriptions := descs\<rparr>
      in case codes of [] \<Rightarrow> e1 | c # _ \<Rightarrow> e1\<lparr>errorProtocolCodes := c\<rparr>)"

text \<open>Appending a non-empty map to a nil map panics.\<close>

definition AddErrors ::
    "nat option \<Rightarrow> nat option list \<Rightarrow> ErrorsExtenderBase \<Rightarrow> error_store \<Rightarrow> string + (ErrorsExtenderBase \<times> error_store)" where
  "AddErrors descs codes e s =
     (case errorDescriptions e of
        None \<Rightarrow> Inr (Extender_Init descs codes e, s)
      | Some i \<Rightarrow>
          let s1 = s\<lparr>descriptionMaps := (descriptionMaps s)(i := AppendMap (descriptionMaps s i) (descriptions_of s descs))\<rparr>
          in case codes of
               [] \<Rightarrow> Inr (e, s1)
             | c # _ \<Rightarrow>
                 (case errorProtocolCodes e of
                    None \<Rightarrow> if codes_of s1 c = [] then Inr (e, s1) else Inl ''assignment to entry in nil map''
                  | Some j \<Rightarrow>
                      Inr (e, s1\<lparr>codeMaps := (codeMaps s1)(j := AppendMap (codeMaps s1 j) (codes_of s1 c))\<rparr>)))"

definition AttachToErrorManager :: "ErrorsExtenderBase \<Rightarrow> error_store \<Rightarrow> ErrorManagerBase \<Rightarrow> ErrorManagerBase" where
  "AttachToErrorManager e s m =
     Manager_AddErrorDispositions (case errorDispositions e of None \<Rightarrow> [] | Some d \<Rightarrow> d)
       (AddErrorFamilies (case errorFamilies e of None \<Rightarrow> [] | Some f \<Rightarrow> f)
         (AddErrorProtocolCodes (codes_of s (errorProtocolCodes e))
           (AddErrorDescriptions (descriptions_of s (errorDescriptions e)) m)))"

definition SetFamily :: "string \<Rightarrow> error_store \<Rightarrow> ErrorsExtenderBase \<Rightarrow> ErrorsExtenderBase" where
  "SetFamily family s e =
     e\<lparr>errorFamilies := Some (AppendMap (case errorFamilies e of None \<Rightarrow> [] | Some f \<Rightarrow> f)
        (map (\<lambda>(code, _). (code, family)) (descriptions_of s (errorDescriptions e))))\<rparr>"

definition Extender_AddErrorDispositions :: "(string, Disposition) gomap \<Rightarrow> ErrorsExtenderBase \<Rightarrow> ErrorsExtenderBase" where
  "Extender_AddErrorDispositions m e =
     e\<lparr>errorDispositions := Some (AppendMap (case errorDispositions e of None \<Rightarrow> [] | Some d \<Rightarrow> d) m)\<rparr>"

definition AppendErrorExtender ::
    "ErrorsExtenderBase \<Rightarrow> ErrorsExtenderBase \<Rightarrow> error_store \<Rightarrow> string + (ErrorsExtenderBase \<times> error_store)" where
  "AppendErrorExtender extender e s =
     (case AddErrors (errorDescriptions extender) [errorProtocolCodes extender] e s of
        Inl p \<Rightarrow> Inl p
      | Inr (e1, s1) \<Rightarrow>
          let e2 = (case errorFamilies extender of
                      None \<Rightarrow> e1
                    | Some f \<Rightarrow> if f = [] then e1
                        else e1\<lparr>errorFamilies := Some (AppendMap (case errorFamilies e1 of None \<Rightarrow> [] | Some g \<Rightarrow> g) f)\<rparr>);
              e3 = (case errorDispositions extender of
                      None \<Rightarrow> e2
                    | Some d \<Rightarrow> if d = [] then e2 else Extender_AddErrorDispositions d e2)
          in Inr (e3, s1))"

subsection \<open>Properties\<close>

text \<open>
  The disposition a manager reports is the explicit override if there is one, else it is derived
  from the registered status alone, and a code without either is unknown; in particular the
  default status of the manager never makes a code terminal. The generic error made for a
  code carries that disposition.
\<close>

theorem disposition_never_from_default:
  "ErrorDisposition code (e\<lparr>defaultProtocolCode := d\<rparr>) = ErrorDisposition code e \<and>
   \<not> IsStated (ErrorDisposition code
      (e\<lparr>dispositions := AList.delete code (dispositions e), protocolCodes := AList.delete code (protocolCodes e)\<rparr>)) \<and>
   ErrorDisposition code (e\<lparr>dispositions := AList.update code d' (dispositions e)\<rparr>) = d' \<and>
   (IsTerminal (dispositionFromHttpStatus status) \<longleftrightarrow>
     status = 501 \<or> 400 \<le> status \<and> status < 500 \<and> status \<notin> {401, 408, 425, 429}) \<and>
   holder_disposition (MakeGenericError code tr e) = ErrorDisposition code e"
  by (auto simp: ErrorDisposition_def ErrorProtocolCode_def IsStated_def IsTerminal_def dispositionFromHttpStatus_def
      HttpStatusClientAborted_def disposition_defs MakeGenericError_def gomap split: option.splits)

lemma http_maps:
  "map_of (dispositions ManagerHttp_Init) = map_of CommonErrorDispositions"
  "map_of (protocolCodes ManagerHttp_Init) = map_of CommonErrorHttpCodes"
  by (simp_all add: ManagerHttp_Init_def Manager_AddErrorDispositions_def AddErrorProtocolCodes_def AddErrorDescriptions_def
      Manager_Init_def CommonErrorDispositions_def CommonErrorHttpCodes_def)

text \<open>
  The dispositions of the common codes under the HTTP manager, as the audit of the package
  lists them, and the codes it leaves unknown because they have no registered status.
\<close>

theorem common_error_dispositions:
  "map (\<lambda>c. ErrorDisposition c ManagerHttp_Init)
     [''unknown_error'', ''internal_server_error'', ''external_service_unavailable'', ''external_service_error'',
      ''operation_expired'', ''retry_later'', ''resource_busyr'', ''unavailable''] = replicate 8 DispositionRetry \<and>
   map (\<lambda>c. ErrorDisposition c ManagerHttp_Init)
     [''forbidden'', ''resource_not_found'', ''operation_not_permitteds'', ''foreign_unavailable'', ''io_aborted'', ''conflict''] =
     replicate 6 DispositionPermanent \<and>
   ErrorDisposition ''unimplemented'' ManagerHttp_Init = DispositionUnsupported \<and>
   map (\<lambda>c. ErrorDisposition c ManagerHttp_Init)
     [''success'', ''invalid_format'', ''invalid_field_value'', ''validation_failed'', ''operation_unsupported'', ''bad_request''] =
     replicate 6 DispositionUnknown"
  by (simp add: ErrorDisposition_def http_maps CommonErrorDispositions_def CommonErrorHttpCodes_def
      dispositionFromHttpStatus_def HttpStatusClientAborted_def numeral_eq_Suc)

text \<open>
  An extender that was initialised with descriptions only cannot take protocol codes: adding
  errors with codes, or appending an extender that has codes, writes into a nil map and panics.
\<close>

theorem extender_without_codes_panics:
  "let e = Extender_Init (Some i) [] zeroExtender in
   AddErrors descs [Some j] e (s\<lparr>codeMaps := (codeMaps s)(j := [(code, status)])\<rparr>) = Inl ''assignment to entry in nil map'' \<and>
   AppendErrorExtender (Extender_Init (Some k) [Some j] zeroExtender) e (s\<lparr>codeMaps := (codeMaps s)(j := [(code, status)])\<rparr>) =
     Inl ''assignment to entry in nil map''"
  by (simp add: Let_def AddErrors_def AppendErrorExtender_def Extender_Init_def zeroExtender_def codes_of_def)

text \<open>
  A fresh extender that two extenders are appended to takes the maps of the first one over
  instead of copying them: the codes of the second are then declared by the first, and by the
  package that owns its maps, and a family set on the first is stamped on them too.
\<close>

theorem append_pollutes_first_child:
  "let A = Extender_Init (Some 0) [Some 0] zeroExtender; B = Extender_Init (Some 1) [Some 1] zeroExtender in
   \<exists>parent s1 s2. AppendErrorExtender A zeroExtender s = Inr (parent, s1) \<and>
     AppendErrorExtender B parent s1 = Inr (parent, s2) \<and>
     descriptions_of s2 (errorDescriptions A) = AppendMap (descriptionMaps s 0) (descriptionMaps s 1) \<and>
     codes_of s2 (errorProtocolCodes A) = AppendMap (codeMaps s 0) (codeMaps s 1) \<and>
     errorFamilies (SetFamily family s2 A) =
       Some (AppendMap [] (map (\<lambda>(code, _). (code, family)) (AppendMap (descriptionMaps s 0) (descriptionMaps s 1))))"
  by (simp add: Let_def AppendErrorExtender_def AddErrors_def Extender_Init_def zeroExtender_def descriptions_of_def
      codes_of_def SetFamily_def)

text \<open>
  The code, message and original error read of a wrapped error: the code is the one of the
  wrapper, the message joins the messages along the chain, and a native error is its own
  original with an unknown code.
\<close>

theorem wrapped_error_reads:
  "Code (Some (NewFromOriginal code message (Some err))) = code \<and>
   Message (Some (NewFromOriginal code message (Some err))) = message @ '': '' @ Message (Some err) \<and>
   Original (Some (NewFromOriginal code message (Some err))) = Some err \<and>
   Message (Some (NewFromErr err [])) = Message (Some err) \<and>
   Code (Some (Native s)) = ErrorCodeUnknown \<and> Original (Some (Native s)) = Some (Native s) \<and>
   Code (Some (NewFromErr err [])) = ErrorCodeUnknown"
  by (simp add: Code_def Message_def Original_def NewFromOriginal_def NewFromErr_def New_def)

end
