(* ===== verification/Timestamps.thy ===== *)
theory Timestamps
  imports Dates
begin

section \<open>Timestamps packed into 64 bits\<close>

text \<open>
  Models \<open>PackDatetime\<close> and \<open>UnpackDatetime\<close> of \<^verbatim>\<open>pkg/utils/date.go\<close> on 64-bit words: the
  milliseconds in the upper 56 bits, the epoch bit and the zone in quarters of an hour in
  the low byte. The lemmas on words compute the three fields; the property is the round trip.
\<close>

subsection \<open>Packing\<close>

definition msPerDay :: int where "msPerDay = 24 * 60 * 60 * 1000"

definition epochBit :: int64 where "epochBit = push_bit 7 1"

definition tzMask :: int64 where "tzMask = 0x7F"

text \<open>\<open>UnixMilli\<close> is the floor of the instant in milliseconds, as a 64-bit value.\<close>

definition UnixMilli :: "Time \<Rightarrow> int" where
  "UnixMilli t = i64 (instant t div 10 ^ 6)"

definition tz_of :: "Time \<Rightarrow> int" where
  "tz_of t = go_quot (go_quot (offset t) 60) 15"

text \<open>The time of day is midnight in the zone of the value.\<close>

definition at_midnight :: "int \<Rightarrow> int \<Rightarrow> bool" where
  "at_midnight milli tzValue \<longleftrightarrow>
     go_rem (go_rem (i64 (milli + tzValue * 15 * 60 * 1000)) msPerDay + msPerDay) msPerDay = 0"

definition PackDatetime :: "Time \<Rightarrow> int64" where
  "PackDatetime t =
     (if IsZero t then 0
      else let milli = UnixMilli t;
               tzValue = tz_of t;
               epoch = (if milli = 0 \<and> tzValue = 0 then epochBit else 0);
               milli' = (if milli = 0 \<and> tzValue = 0 then milli
                         else if at_midnight milli tzValue then i64 (milli + 1) else milli)
           in push_bit 8 (word_of_int milli') OR epoch OR (word_of_int tzValue AND tzMask))"

definition UnpackDatetime :: "int64 \<Rightarrow> Time" where
  "UnpackDatetime packed =
     (if packed = 0 then TimeNil
      else let milli = sint (signed_drop_bit 8 packed);
               low = sint (packed AND tzMask);
               tzValue = (if low > 63 then low - 128 else low)
           in \<lparr>instant = milli * 10 ^ 6, offset = tzValue * 15 * 60\<rparr>)"

lemma sint_word_of_int64 [goint]: "sint (word_of_int x :: int64) = i64 x"
  by (simp add: int_word_sint i64_def)

lemma push_bit_or_low:
  fixes a k :: int
  assumes "0 \<le> k" "k < 2 ^ n"
  shows "push_bit n a OR k = a * 2 ^ n + k"
proof -
  have k: "take_bit n k = k" using assms by (rule take_bit_int_eq_self)
  have "push_bit n a AND take_bit n k = 0" by (auto simp: bit_eq_iff bit_simps)
  then have "push_bit n a + k = push_bit n a OR k" unfolding k by (rule disjunctive_add_eq_or)
  then show ?thesis by (simp add: push_bit_eq_mult)
qed

lemma and_tz: "x AND 127 = x mod (128 :: int)"
  using take_bit_eq_mask [of 7 x] by (simp add: take_bit_eq_mod mask_eq_exp_minus_1)

lemma low_byte_bounds:
  "0 \<le> (if ep then 128 else 0) + z mod (128 :: int)" "(if ep then 128 else 0) + z mod (128 :: int) < 256"
proof -
  have "0 \<le> (if ep then 128 else (0 :: int))" "(if ep then 128 else (0 :: int)) \<le> 128" by simp_all
  moreover have "0 \<le> z mod 128" by (rule pos_mod_sign) simp
  moreover have "z mod 128 < 128" by (rule pos_mod_bound) simp
  ultimately show "0 \<le> (if ep then 128 else 0) + z mod 128" "(if ep then 128 else 0) + z mod 128 < 256" by linarith+
qed

lemma packed_word_val:
  "push_bit 8 (word_of_int M) OR (if ep then epochBit else 0) OR (word_of_int z AND tzMask) =
     (word_of_int (M * 256 + ((if ep then 128 else 0) + z mod 128)) :: int64)"
proof -
  have z: "0 \<le> z mod 128" "z mod 128 < 2 ^ 7" by simp_all
  have "(if ep then 128 else 0) OR (z mod 128) = (if ep then 128 else 0) + z mod 128"
    using push_bit_or_low [OF z, of 1] by (simp add: push_bit_eq_mult)
  moreover have "push_bit 8 M OR ((if ep then 128 else 0) + z mod 128) = M * 256 + ((if ep then 128 else 0) + z mod 128)"
    using push_bit_or_low [of "(if ep then 128 else 0) + z mod 128" 8 M] low_byte_bounds [where ep = ep and z = z] by simp
  moreover have "(if ep then epochBit else 0) = (word_of_int (if ep then 128 else 0) :: int64)"
    by (simp add: epochBit_def push_bit_eq_mult)
  moreover have "(word_of_int z AND tzMask :: int64) = word_of_int (z mod 128)"
    by (simp add: tzMask_def and_tz [symmetric] of_int_and_eq)
  ultimately show ?thesis
    by (simp only: push_bit_of_int of_int_or_eq [symmetric] or.assoc)
qed

lemma packed_word:
  assumes M: "- (2 ^ 55) \<le> M" "M < 2 ^ 55" and z: "- 64 \<le> z" "z \<le> 63"
    and w: "w = push_bit 8 (word_of_int M) OR (if ep then epochBit else 0) OR (word_of_int z AND tzMask)"
  shows "sint (signed_drop_bit 8 w) = M" "sint (w AND tzMask) = z mod 128" "w = 0 \<longleftrightarrow> M = 0 \<and> \<not> ep \<and> z = 0"
proof -
  define L where "L = (if ep then 128 else 0) + z mod 128"
  have L: "0 \<le> L" "L < 256" unfolding L_def by (rule low_byte_bounds)+
  have wv: "w = word_of_int (M * 256 + L)" unfolding w packed_word_val L_def ..
  have s: "sint w = M * 256 + L" using M L unfolding wv sint_word_of_int64 by (intro i64_id) (simp add: in64_def)
  have "(M * 256 + L) div 256 = M" using L by (intro int_div_pos_eq [where r = L]) simp_all
  then show "sint (signed_drop_bit 8 w) = M" by (simp add: sint_signed_drop_bit_eq s drop_bit_eq_div)
  have "(M * 256 + L) mod 128 = L mod 128" using mod_mult_self1 [of L "M * 2" 128] by (simp add: ac_simps)
  also have "\<dots> = z mod 128" by (simp add: L_def)
  finally have mod: "(M * 256 + L) mod 128 = z mod 128" .
  have "w AND tzMask = word_of_int ((M * 256 + L) AND 127)"
    unfolding wv tzMask_def of_int_and_eq by (simp only: of_int_numeral)
  then have "w AND tzMask = word_of_int (z mod 128)" unfolding and_tz mod .
  moreover have "i64 (z mod 128) = z mod 128"
    using low_byte_bounds [of False z] by (intro i64_id) (simp add: in64_def)
  ultimately show "sint (w AND tzMask) = z mod 128" by (simp add: sint_word_of_int64)
  have "w = 0 \<longleftrightarrow> M * 256 + L = 0" using s by (metis sint_0 signed_word_eqI)
  also have "\<dots> \<longleftrightarrow> M = 0 \<and> L = 0" using L by presburger
  also have "L = 0 \<longleftrightarrow> \<not> ep \<and> z = 0" using z pos_mod_sign [of 128 z] unfolding L_def by (auto; presburger)
  finally show "w = 0 \<longleftrightarrow> M = 0 \<and> \<not> ep \<and> z = 0" .
qed

lemma go_quot_exact: "0 < b \<Longrightarrow> go_quot (b * z) b = z"
  by (simp add: go_quot_def abs_mult sgn_mult mult_sgn_abs)

lemma go_rem_bounds:
  assumes "0 < n"
  shows "- n < go_rem x n" "go_rem x n < n" "go_rem x n mod n = x mod n"
proof -
  have e: "go_rem x n = (if 0 \<le> x then x mod n else - ((- x) mod n))"
    using assms by (cases "x = 0") (auto simp: go_rem_def go_quot_def minus_mult_div_eq_mod [symmetric])
  show "- n < go_rem x n" "go_rem x n < n"
    using assms pos_mod_bound [OF assms, of x] pos_mod_bound [OF assms, of "- x"]
      pos_mod_sign [OF assms, of x] pos_mod_sign [OF assms, of "- x"]
    unfolding e by (cases "0 \<le> x"; simp only: if_True if_False; linarith)+
  show "go_rem x n mod n = x mod n"
    using mod_mult_self2 [of x n "- go_quot x n"] by (simp add: go_rem_def)
qed

lemma at_midnight_iff:
  assumes "in64 (milli + 900000 * tz)"
  shows "at_midnight milli tz \<longleftrightarrow> (milli + 900000 * tz) mod msPerDay = 0"
proof -
  have p: "0 < msPerDay" by (simp add: msPerDay_def)
  let ?x = "milli + tz * 15 * 60 * 1000"
  have i: "i64 ?x = milli + 900000 * tz" using assms i64_id [of ?x] by simp
  have "go_rem (go_rem (i64 ?x) msPerDay + msPerDay) msPerDay = (go_rem (i64 ?x) msPerDay + msPerDay) mod msPerDay"
    using go_rem_bounds(1) [OF p, of "i64 ?x"] p by (intro go_rem_nonneg) simp_all
  also have "\<dots> = i64 ?x mod msPerDay" using go_rem_bounds(3) [OF p, of "i64 ?x"] by simp
  finally show ?thesis unfolding at_midnight_def i by simp
qed

lemma midnight_once:
  assumes "(milli + 900000 * z) mod msPerDay = 0"
  shows "milli + 1 \<noteq> 0" "(milli + 1 + 900000 * z) mod msPerDay \<noteq> 0"
proof -
  have d: "msPerDay dvd milli + 900000 * z" using assms by (simp add: mod_eq_0_iff_dvd)
  have one: "\<not> msPerDay dvd 1" "\<not> 900000 dvd (1 :: int)" by (simp_all add: msPerDay_def zdvd1_eq)
  have "900000 dvd msPerDay" by (rule dvdI [of _ _ 96]) (simp add: msPerDay_def)
  with d have "900000 dvd milli" using dvd_add_left_iff [of 900000 "900000 * z" milli] dvd_trans by auto
  then show "milli + 1 \<noteq> 0" using one(2) dvd_minus_iff [of 900000 milli] by (auto simp: add_eq_0_iff)
  show "(milli + 1 + 900000 * z) mod msPerDay \<noteq> 0"
    using d one(1) dvd_add_right_iff [OF d, of 1] by (simp add: mod_eq_0_iff_dvd add.assoc add.commute add.left_commute)
qed

text \<open>
  Packing a timestamp keeps its instant to the millisecond and its zone, for zones in steps of a
  quarter of an hour and instants of a million years around the epoch: unpacking gives the
  instant in milliseconds and the same offset. A value at midnight of its zone is moved by one millisecond,
  except the epoch in UTC, which is marked. No such value is packed as \<open>not set\<close>, and packing
  again what was unpacked gives the same 64 bits.
\<close>

theorem pack_unpack_roundtrip:
  assumes "\<not> IsZero t" "offset t = 900 * z" "- 64 \<le> z" "z \<le> 63" "\<bar>instant t div 10 ^ 6\<bar> < 2 ^ 55 - 1"
  defines "milli \<equiv> instant t div 10 ^ 6"
  defines "shift \<equiv> (if (milli, z) \<noteq> (0, 0) \<and> (milli + 900000 * z) mod msPerDay = 0 then 1 else 0)"
  shows "UnpackDatetime (PackDatetime t) = \<lparr>instant = (milli + shift) * 10 ^ 6, offset = offset t\<rparr> \<and>
    PackDatetime t \<noteq> 0 \<and>
    (IsZero (UnpackDatetime (PackDatetime t)) \<or>
      PackDatetime (UnpackDatetime (PackDatetime t)) = PackDatetime t)"
proof -
  define w :: int64 where "w = push_bit 8 (word_of_int (milli + shift)) OR
      (if milli = 0 \<and> z = 0 then epochBit else 0) OR (word_of_int z AND tzMask)"
  have b: "- (2 ^ 55 - 1) < milli" "milli < 2 ^ 55 - 1" using assms(5) unfolding milli_def by linarith+
  have s: "0 \<le> shift" "shift \<le> 1" by (simp_all add: shift_def)
  have r: "- (2 ^ 55) \<le> milli + shift" "milli + shift < 2 ^ 55" using b s by linarith+
  have pack: "PackDatetime u = w"
    if u: "\<not> IsZero u" "offset u = 900 * z" "instant u div 10 ^ 6 = m" and m: "m = milli \<or> m = milli + shift" for u m
  proof -
    have mb: "- (2 ^ 55) \<le> m" "m < 2 ^ 55" using m r b by auto
    have mil: "UnixMilli u = m" using u(3) mb i64_id [of m] by (simp add: UnixMilli_def in64_def)
    have tz: "tz_of u = z" using go_quot_exact [of 60 "15 * z"] go_quot_exact [of 15 z] by (simp add: tz_of_def u(2))
    have mid: "at_midnight m z \<longleftrightarrow> (m + 900000 * z) mod msPerDay = 0"
      using mb assms(3,4) by (intro at_midnight_iff) (simp add: in64_def)
    have "(if m = 0 \<and> z = 0 then m else if at_midnight m z then i64 (m + 1) else m) = milli + shift"
      "m = 0 \<and> z = 0 \<longleftrightarrow> milli = 0 \<and> z = 0"
      using m mid midnight_once [of milli z] i64_id [of "milli + 1"] b
      by (auto simp: shift_def in64_def split: if_splits)
    then show ?thesis unfolding PackDatetime_def Let_def mil tz w_def using u(1) by (simp only: if_False if_True)
  qed
  note pw = packed_word [OF r assms(3,4) w_def]
  have pt: "PackDatetime t = w" using assms by (intro pack [of t milli]) simp_all
  have nz: "w \<noteq> 0"
    using pw(3) midnight_once [of milli z] by (auto simp: shift_def split: if_splits)
  have "(if z mod 128 > 63 then z mod 128 - 128 else z mod 128) = z"
    using assms(3,4) int_mod_pos_eq [of z 128 "- 1" "z + 128"] by (cases "0 \<le> z") (auto simp: zmod_trivial_iff)
  then have un: "UnpackDatetime w = \<lparr>instant = (milli + shift) * 10 ^ 6, offset = offset t\<rparr>"
    using nz pw(1,2) by (simp add: UnpackDatetime_def Let_def assms(2))
  have "IsZero (UnpackDatetime w) \<or> PackDatetime (UnpackDatetime w) = w"
    unfolding un using pack [of "\<lparr>instant = (milli + shift) * 10 ^ 6, offset = offset t\<rparr>" "milli + shift"] assms(2) by auto
  with pt nz un show ?thesis by simp
qed

theorem pack_unpack_roundtrip_witness:
  "UnpackDatetime (PackDatetime \<lparr>instant = 1709164800000 * 10 ^ 6, offset = 7200\<rparr>) =
     \<lparr>instant = 1709164800000 * 10 ^ 6, offset = 7200\<rparr> \<and>
   UnpackDatetime (PackDatetime \<lparr>instant = 1709157600000 * 10 ^ 6, offset = 7200\<rparr>) =
     \<lparr>instant = 1709157600001 * 10 ^ 6, offset = 7200\<rparr>"
  using pack_unpack_roundtrip [of "\<lparr>instant = 1709164800000 * 10 ^ 6, offset = 7200\<rparr>" 8]
    pack_unpack_roundtrip [of "\<lparr>instant = 1709157600000 * 10 ^ 6, offset = 7200\<rparr>" 8]
  by (simp add: IsZero_def msPerDay_def)

end
