(* ===== verification/WorkSchedules.thy ===== *)
theory WorkSchedules
  imports Caches
begin

section \<open>Scheduling of durable works\<close>

text \<open>
  Models \<^verbatim>\<open>pkg/work_schedule/work_schedule.go\<close>: works with their next time, acquiring and releasing
  a work under a lock, posting, claiming of due works with a lease, and running a work. The database
  is the record \<open>work_crud\<close> of the CRUD calls the scheduler makes, the contract on them is the locale
  \<open>work_db\<close>; the locker is the one of \<open>Caches\<close>, the runner and the invoker are arguments. Logging
  and tracing are left out. The goroutines of the scheduler are the subject of \<open>WorkPools\<close>.
  Times are nanoseconds; a call reads the clock once, \<open>DoWork\<close> again after the run.
\<close>

subsection \<open>Works\<close>

datatype PostMode = SCHEDULE | DIRECT | QUEUED

definition Mode :: "string \<Rightarrow> PostMode" where
  "Mode m = (if m = ''schedule'' then SCHEDULE
             else if m = ''direct'' then DIRECT
             else if m = ''queued'' then QUEUED
             else SCHEDULE)"

datatype work_error = ErrWorkLocked | WorkError string

record WorkBase =
  WorkID :: string
  ReferenceId :: string
  ReferenceType :: string
  NextTime :: int
  NextTimeSet :: bool
  work_lock :: "InmemLock option"
  initialDelay :: int
  noDb :: bool

text \<open>The zero time of Go, 1 January of the year 1, stands for a time that is not set.\<close>

definition ZeroTime :: int where "ZeroTime = - 62135596800 * 1000000000"

definition ResetNextTime :: "WorkBase \<Rightarrow> WorkBase" where
  "ResetNextTime w = w\<lparr>NextTime := ZeroTime\<rparr>"

record WorkScheduleConfig =
  BUCKET_SIZE :: int
  INVOKATION_INTERVAL_SECONDS :: int
  HOLD_WORK_SECONDS :: int
  LOCK_TTL_SECONDS :: int

definition NewWork :: "(unit \<Rightarrow> WorkBase) \<Rightarrow> string \<Rightarrow> string \<Rightarrow> string \<Rightarrow> WorkBase" where
  "NewWork workBuilder newId referenceId referenceType =
     (workBuilder ())\<lparr>WorkID := newId, ReferenceId := referenceId, ReferenceType := referenceType\<rparr>"

text \<open>A time some seconds from now; the duration wraps around at 64 bits.\<close>

definition after_seconds :: "int \<Rightarrow> int \<Rightarrow> int" where
  "after_seconds now s = now + i64 (Second * s)"

definition SetNextWorkTime :: "WorkScheduleConfig \<Rightarrow> int \<Rightarrow> bool list \<Rightarrow> WorkBase \<Rightarrow> WorkBase" where
  "SetNextWorkTime cfg now reset work =
     (if OptionalArg False reset \<or> initialDelay work = 0 \<and> NextTime work = ZeroTime
      then work\<lparr>NextTime := after_seconds now (INVOKATION_INTERVAL_SECONDS cfg)\<rparr>
      else if NextTime work = ZeroTime \<and> initialDelay work \<noteq> 0
      then work\<lparr>NextTime := after_seconds now (initialDelay work)\<rparr>
      else work)"

subsection \<open>The scheduler and its database\<close>

text \<open>
  The CRUD calls: \<open>update_work\<close> sets the next time when one is given and the flag of the row with
  the identifier, \<open>list_due\<close> lists the rows with a next time not after now in ascending order up to a limit,
  \<open>update_unset\<close> sets the next time and the flag of the row if its flag is not set,
  \<open>transaction\<close> runs a handler in a database transaction.
\<close>

record 'd work_crud =
  read_work :: "string \<Rightarrow> 'd \<Rightarrow> string + WorkBase option"
  read_for_update :: "string \<Rightarrow> 'd \<Rightarrow> string + WorkBase option"
  update_work :: "string \<Rightarrow> int option \<times> bool \<Rightarrow> 'd \<Rightarrow> string option \<times> 'd"
  create_dup :: "WorkBase \<Rightarrow> 'd \<Rightarrow> string option \<times> 'd"
  list_due :: "int \<Rightarrow> int \<Rightarrow> 'd \<Rightarrow> string + WorkBase list"
  list_ids :: "string list \<Rightarrow> 'd \<Rightarrow> string + WorkBase list"
  delete_work :: "string \<Rightarrow> 'd \<Rightarrow> string option \<times> 'd"
  delete_by_ref :: "string \<Rightarrow> string \<Rightarrow> 'd \<Rightarrow> string option \<times> 'd"
  update_unset :: "string \<Rightarrow> int \<Rightarrow> 'd \<Rightarrow> string option \<times> 'd"
  transaction :: "('d \<Rightarrow> (string + WorkBase list) \<times> 'd) \<Rightarrow> 'd \<Rightarrow> (string + WorkBase list) \<times> 'd"

record ('d, 'c) WorkSchedule =
  runningWorkCount :: int
  workQueueSize :: int
  work_queue :: "WorkBase list"
  readNextWorks :: bool
  work_rows :: 'd
  work_locks :: 'c

text \<open>The collaborators of a scheduler: CRUD, locker with release, and the optional runner.\<close>

record ('d, 'c) work_env =
  work_CRUD :: "'d work_crud"
  locker :: "int \<Rightarrow> string \<Rightarrow> int \<Rightarrow> 'c \<Rightarrow> (string + InmemLock) \<times> 'c"
  release :: "InmemLock \<Rightarrow> 'c \<Rightarrow> string option \<times> 'c"
  workRunner :: "(WorkBase \<Rightarrow> 'd \<Rightarrow> (bool \<times> string option) \<times> WorkBase \<times> 'd) option"

text \<open>\<open>ExecDbTransaction\<close> refuses to nest.\<close>

definition ExecDbTransaction ::
    "'d work_crud \<Rightarrow> bool \<Rightarrow> ('d \<Rightarrow> (string + WorkBase list) \<times> 'd) \<Rightarrow> 'd \<Rightarrow> (string + WorkBase list) \<times> 'd" where
  "ExecDbTransaction crud inTransaction handler d =
     (if inTransaction then (Inl ''nested transactions not supported'', d) else transaction crud handler d)"

definition Wake :: "('d, 'c) WorkSchedule \<Rightarrow> ('d, 'c) WorkSchedule" where
  "Wake s = s\<lparr>readNextWorks := True\<rparr>"

subsection \<open>Acquiring and releasing\<close>

definition releaseLock ::
    "('d, 'c) work_env \<Rightarrow> InmemLock \<Rightarrow> WorkBase \<Rightarrow> ('d, 'c) WorkSchedule \<Rightarrow> WorkBase \<times> ('d, 'c) WorkSchedule" where
  "releaseLock env l work s =
     (work\<lparr>work_lock := None\<rparr>,
      s\<lparr>runningWorkCount := runningWorkCount s - 1, work_locks := snd (release env l (work_locks s))\<rparr>)"

definition AcquireWork ::
    "('d, 'c) work_env \<Rightarrow> WorkScheduleConfig \<Rightarrow> int \<Rightarrow> WorkBase \<Rightarrow> ('d, 'c) WorkSchedule \<Rightarrow>
     work_error option \<times> WorkBase \<times> ('d, 'c) WorkSchedule" where
  "AcquireWork env cfg now work s =
     (case LockObject (locker env now) ''work_lock'' (ReferenceId work) (LOCK_TTL_SECONDS cfg) (work_locks s) of
        (Inl err, c) \<Rightarrow> (Some (WorkError err), work, s\<lparr>work_locks := c\<rparr>)
      | (Inr None, c) \<Rightarrow> (Some ErrWorkLocked, work, s\<lparr>work_locks := c\<rparr>)
      | (Inr (Some l), c) \<Rightarrow>
          let s1 = s\<lparr>runningWorkCount := runningWorkCount s + 1, work_locks := c\<rparr>;
              work1 = work\<lparr>work_lock := Some l\<rparr>;
              probe = (if noDb work then Inr True
                       else map_sum id (\<lambda>r. r \<noteq> None) (read_work (work_CRUD env) (WorkID work) (work_rows s1)))
          in case probe of
               Inl err \<Rightarrow> (Some (WorkError err), releaseLock env l work1 s1)
             | Inr False \<Rightarrow> (Some ErrWorkLocked, releaseLock env l work1 s1)
             | Inr True \<Rightarrow>
                 (case update_work (work_CRUD env) (WorkID work) (None, False) (work_rows s1) of
                    (Some err, d) \<Rightarrow> (Some (WorkError err), releaseLock env l work1 (s1\<lparr>work_rows := d\<rparr>))
                  | (None, d) \<Rightarrow> (None, work1, s1\<lparr>work_rows := d\<rparr>)))"

definition ReleaseWork ::
    "('d, 'c) work_env \<Rightarrow> WorkBase \<Rightarrow> ('d, 'c) WorkSchedule \<Rightarrow> work_error option \<times> ('d, 'c) WorkSchedule" where
  "ReleaseWork env work s =
     (case work_lock work of
        None \<Rightarrow> (None, s)
      | Some l \<Rightarrow>
          (case release env l (work_locks s) of
             (err, c) \<Rightarrow>
               (map_option WorkError err, s\<lparr>runningWorkCount := runningWorkCount s - 1, work_locks := c\<rparr>)))"

subsection \<open>Running\<close>

definition updateProcessedWork ::
    "'d work_crud \<Rightarrow> bool \<Rightarrow> WorkBase \<Rightarrow> 'd \<Rightarrow> (string + WorkBase list) \<times> 'd" where
  "updateProcessedWork crud finished work d =
     (case read_for_update crud (WorkID work) d of
        Inl err \<Rightarrow> (Inl err, d)
      | Inr None \<Rightarrow> (Inr [], d)
      | Inr (Some dbWork) \<Rightarrow>
          if finished then
            (case delete_work crud (WorkID dbWork) d of (Some err, d') \<Rightarrow> (Inl err, d') | (None, d') \<Rightarrow> (Inr [], d'))
          else
            (case update_unset crud (WorkID work) (NextTime work) d of
               (Some err, d') \<Rightarrow> (Inl err, d') | (None, d') \<Rightarrow> (Inr [], d')))"

text \<open>
  The error of the runner reaches the context only: after a successful update the call
  returns no error, after a failed one the error of the runner if there is one.
\<close>

definition DoWork ::
    "('d, 'c) work_env \<Rightarrow> WorkScheduleConfig \<Rightarrow> bool \<Rightarrow> int \<Rightarrow> int \<Rightarrow> WorkBase \<Rightarrow> ('d, 'c) WorkSchedule \<Rightarrow>
     work_error option \<times> ('d, 'c) WorkSchedule" where
  "DoWork env cfg inTransaction now later work s =
     (case workRunner env of
        None \<Rightarrow> (Some (WorkError ''invalid work runner''), s)
      | Some run \<Rightarrow>
          (case AcquireWork env cfg now work s of
             (Some ErrWorkLocked, _, s1) \<Rightarrow> (None, s1)
           | (Some err, _, s1) \<Rightarrow> (Some err, s1)
           | (None, work1, s1) \<Rightarrow>
               (case run (ResetNextTime work1) (work_rows s1) of
                  ((finished, err), work2, d) \<Rightarrow>
                    let work3 = SetNextWorkTime cfg later [] work2;
                        (r, d') = ExecDbTransaction (work_CRUD env) inTransaction
                          (updateProcessedWork (work_CRUD env) finished work3) d;
                        s2 = s1\<lparr>work_rows := d'\<rparr>
                    in (case r of
                          Inl err1 \<Rightarrow> Some (WorkError (case err of Some e \<Rightarrow> e | None \<Rightarrow> err1))
                        | Inr _ \<Rightarrow> None,
                        snd (ReleaseWork env work3 s2)))))"

definition UpdateWorkNextTime ::
    "('d, 'c) work_env \<Rightarrow> WorkBase \<Rightarrow> ('d, 'c) WorkSchedule \<Rightarrow> work_error option \<times> ('d, 'c) WorkSchedule" where
  "UpdateWorkNextTime env work s =
     (case update_work (work_CRUD env) (WorkID work) (Some (NextTime work), True) (work_rows s) of
        (err, d) \<Rightarrow> (map_option WorkError err, s\<lparr>work_rows := d\<rparr>))"

definition RemoveWork ::
    "('d, 'c) work_env \<Rightarrow> string \<Rightarrow> string \<Rightarrow> ('d, 'c) WorkSchedule \<Rightarrow> work_error option \<times> ('d, 'c) WorkSchedule" where
  "RemoveWork env referenceId referenceType s =
     (case delete_by_ref (work_CRUD env) referenceId referenceType (work_rows s) of
        (err, d) \<Rightarrow> (map_option WorkError err, s\<lparr>work_rows := d\<rparr>))"

subsection \<open>Posting\<close>

text \<open>
  Sending to the work queue ends in one of three ways: the item is sent, the context of the
  caller is done, or the scheduler is stopped. The counter is raised before and stays raised.
\<close>

datatype enqueue_end = Sent | CtxDone | Stopped

definition enqueuWork ::
    "enqueue_end \<Rightarrow> WorkBase \<Rightarrow> ('d, 'c) WorkSchedule \<Rightarrow> bool \<times> ('d, 'c) WorkSchedule" where
  "enqueuWork outcome work s =
     (let s1 = s\<lparr>workQueueSize := workQueueSize s + 1\<rparr>
      in case outcome of
           Sent \<Rightarrow> (True, s1\<lparr>work_queue := work_queue s @ [work]\<rparr>)
         | _ \<Rightarrow> (False, s1))"

definition InvokeWork ::
    "('d, 'c) work_env \<Rightarrow> WorkScheduleConfig \<Rightarrow> bool \<Rightarrow> int \<Rightarrow> int \<Rightarrow> enqueue_end \<Rightarrow> WorkBase \<Rightarrow> PostMode \<Rightarrow>
     ('d, 'c) WorkSchedule \<Rightarrow> work_error option \<times> ('d, 'c) WorkSchedule" where
  "InvokeWork env cfg inTransaction now later outcome work postMode s =
     (case postMode of
        DIRECT \<Rightarrow> DoWork env cfg inTransaction now later work s
      | QUEUED \<Rightarrow> (None, snd (enqueuWork outcome work s))
      | SCHEDULE \<Rightarrow> (None, s))"

definition PostWork ::
    "('d, 'c) work_env \<Rightarrow> WorkScheduleConfig \<Rightarrow>
     (WorkBase \<Rightarrow> PostMode \<Rightarrow> ('d, 'c) WorkSchedule \<Rightarrow> work_error option \<times> ('d, 'c) WorkSchedule) \<Rightarrow>
     bool \<Rightarrow> int \<Rightarrow> string \<Rightarrow> WorkBase \<Rightarrow> PostMode \<Rightarrow> ('d, 'c) WorkSchedule \<Rightarrow> work_error option \<times> ('d, 'c) WorkSchedule" where
  "PostWork env cfg invoker inTransaction now newId work postMode s =
     (let work1 = (if postMode = SCHEDULE then SetNextWorkTime cfg now [] work
                   else if \<not> noDb work then work\<lparr>NextTime := now\<rparr>
                   else work)
      in if noDb work1 then invoker work1 postMode s
         else
           let work2 = (if WorkID work1 = '''' then work1\<lparr>WorkID := newId\<rparr> else work1)
           in case create_dup (work_CRUD env) work2 (work_rows s) of
                (Some err, d) \<Rightarrow> (Some (WorkError err), s\<lparr>work_rows := d\<rparr>)
              | (None, d) \<Rightarrow>
                  let s1 = s\<lparr>work_rows := d\<rparr>
                  in if postMode \<noteq> SCHEDULE
                     then (if inTransaction then (None, s1) else invoker work2 postMode s1)
                     else (None, Wake s1))"

subsection \<open>Claiming\<close>

fun hold_works ::
    "'d work_crud \<Rightarrow> int \<Rightarrow> int \<Rightarrow> WorkBase list \<Rightarrow> string list \<Rightarrow> 'd \<Rightarrow> (string + string list) \<times> 'd" where
  "hold_works crud now nextTime [] workIds d = (Inr workIds, d)"
| "hold_works crud now nextTime (w # ws) workIds d =
     (case read_for_update crud (WorkID w) d of
        Inl err \<Rightarrow> (Inl err, d)
      | Inr None \<Rightarrow> hold_works crud now nextTime ws workIds d
      | Inr (Some dbWork) \<Rightarrow>
          if NextTime dbWork > now then hold_works crud now nextTime ws workIds d
          else (case update_work crud (WorkID dbWork) (Some nextTime, False) d of
                  (Some err, d') \<Rightarrow> (Inl err, d')
                | (None, d') \<Rightarrow> hold_works crud now nextTime ws (workIds @ [WorkID dbWork]) d'))"

definition claim_handler ::
    "'d work_crud \<Rightarrow> int \<Rightarrow> int \<Rightarrow> int \<Rightarrow> 'd \<Rightarrow> (string + WorkBase list) \<times> 'd" where
  "claim_handler crud now limit nextTime d =
     (case list_due crud now limit d of
        Inl err \<Rightarrow> (Inl err, d)
      | Inr works1 \<Rightarrow>
          (case hold_works crud now nextTime works1 [] d of
             (Inl err, d') \<Rightarrow> (Inl err, d')
           | (Inr workIds, d') \<Rightarrow>
               if workIds = [] then (Inr [], d') else (list_ids crud workIds d', d')))"

definition claim_limit :: "WorkScheduleConfig \<Rightarrow> ('d, 'c, 'z) WorkSchedule_scheme \<Rightarrow> int" where
  "claim_limit cfg s = BUCKET_SIZE cfg - runningWorkCount s - workQueueSize s"

definition ClaimDueWorks ::
    "('d, 'c) work_env \<Rightarrow> WorkScheduleConfig \<Rightarrow> bool \<Rightarrow> int \<Rightarrow> ('d, 'c) WorkSchedule \<Rightarrow>
     (string + WorkBase list) \<times> ('d, 'c) WorkSchedule" where
  "ClaimDueWorks env cfg inTransaction now s =
     (if claim_limit cfg s \<le> 0 then (Inr [], s)
      else case ExecDbTransaction (work_CRUD env) inTransaction
                  (claim_handler (work_CRUD env) now (claim_limit cfg s) (after_seconds now (HOLD_WORK_SECONDS cfg)))
                  (work_rows s) of
             (r, d) \<Rightarrow> (r, s\<lparr>work_rows := d\<rparr>))"

subsection \<open>The contract of the database\<close>

text \<open>
  \<open>rows d i\<close> is the row with identifier \<open>i\<close>. Every call may fail; a call that succeeds does what it says.
  The list of due works may be stale: only its length is relied upon. A transaction that
  succeeds is the run of its handler, one that fails leaves the rows as they were. An insert that
  ignores conflicts keeps the row with the same identifier or reference.
\<close>

definition set_row :: "int option \<times> bool \<Rightarrow> WorkBase \<Rightarrow> WorkBase" where
  "set_row f w = (case f of (None, b) \<Rightarrow> w\<lparr>NextTimeSet := b\<rparr> | (Some t, b) \<Rightarrow> w\<lparr>NextTime := t, NextTimeSet := b\<rparr>)"

definition set_unset_row :: "int \<Rightarrow> WorkBase \<Rightarrow> WorkBase" where
  "set_unset_row t w = (if NextTimeSet w then w else w\<lparr>NextTime := t, NextTimeSet := True\<rparr>)"

definition same_reference :: "WorkBase \<Rightarrow> WorkBase \<Rightarrow> bool" where
  "same_reference v w \<longleftrightarrow> ReferenceId v = ReferenceId w \<and> ReferenceType v = ReferenceType w"

lemma set_row_sel [simp]:
  "WorkID (set_row f w) = WorkID w" "NextTime (set_row (Some t, b) w) = t" "NextTime (set_row (None, b) w) = NextTime w"
  "WorkID (set_unset_row t w) = WorkID w"
  by (auto simp: set_row_def set_unset_row_def split: prod.splits option.splits)

locale work_db =
  fixes C :: "'d work_crud"
    and rows :: "'d \<Rightarrow> string \<Rightarrow> WorkBase option"
  assumes row_id: "rows d i = Some w \<Longrightarrow> WorkID w = i"
    and read_ok: "read_work C i d = Inr r \<Longrightarrow> r = rows d i"
    and read_for_update_ok: "read_for_update C i d = Inr r \<Longrightarrow> r = rows d i"
    and update_ok: "update_work C i f d = (None, d') \<Longrightarrow> rows d' = (rows d)(i := map_option (set_row f) (rows d i))"
    and update_failed: "update_work C i f d = (Some e, d') \<Longrightarrow> rows d' = rows d"
    and create_ok: "create_dup C w d = (None, d') \<Longrightarrow>
      rows d' = (if rows d (WorkID w) \<noteq> None \<or> (\<exists>v \<in> ran (rows d). same_reference v w) then rows d
                 else (rows d)(WorkID w \<mapsto> w))"
    and list_due_ok: "0 < limit \<Longrightarrow> list_due C now limit d = Inr ws \<Longrightarrow> int (length ws) \<le> limit"
    and list_ids_ok: "list_ids C ids d = Inr ws \<Longrightarrow>
      distinct (map WorkID ws) \<and> set ws = {w. \<exists>i \<in> set ids. rows d i = Some w}"
    and delete_ok: "delete_work C i d = (None, d') \<Longrightarrow> rows d' = (rows d)(i := None)"
    and update_unset_ok: "update_unset C i t d = (None, d') \<Longrightarrow>
      rows d' = (rows d)(i := map_option (set_unset_row t) (rows d i))"
    and transaction_ok: "transaction C h d = (Inr ws, d') \<Longrightarrow> h d = (Inr ws, d')"
    and transaction_failed: "transaction C h d = (Inl e, d') \<Longrightarrow> rows d' = rows d"
begin

lemma hold_works_spec:
  assumes "hold_works C now nextTime ws ids d = (Inr ids', d')" and "now < nextTime"
  shows "\<exists>new. ids' = ids @ new \<and> distinct new \<and> length new \<le> length ws \<and>
    (\<forall>i \<in> set new. \<exists>w. rows d i = Some w \<and> NextTime w \<le> now) \<and>
    rows d' = (\<lambda>i. if i \<in> set new then map_option (set_row (Some nextTime, False)) (rows d i) else rows d i)"
  using assms(1)
proof (induction ws arbitrary: ids d)
  case Nil
  then show ?case by simp
next
  case (Cons w ws)
  let ?hold = "set_row (Some nextTime, False)"
  have skip: ?case if "hold_works C now nextTime ws ids d = (Inr ids', d')"
    using Cons.IH [OF that] by force
  obtain r where r: "read_for_update C (WorkID w) d = Inr r"
    using Cons.prems by (cases "read_for_update C (WorkID w) d") auto
  show ?case
  proof (cases "\<exists>dbWork. r = Some dbWork \<and> NextTime dbWork \<le> now")
    case True
    then obtain dbWork where db: "r = Some dbWork" "NextTime dbWork \<le> now" by blast
    define i where "i = WorkID dbWork"
    have ri: "rows d i = Some dbWork" using read_for_update_ok [OF r] row_id db(1) by (metis i_def)
    obtain d1 where u: "update_work C i (Some nextTime, False) d = (None, d1)"
      and rest: "hold_works C now nextTime ws (ids @ [i]) d1 = (Inr ids', d')"
      using Cons.prems r db by (auto simp: i_def split: prod.splits option.splits)
    have d1: "rows d1 = (rows d)(i := Some (?hold dbWork))" using update_ok [OF u] ri by simp
    from Cons.IH [OF rest] obtain new where new: "ids' = (ids @ [i]) @ new" "distinct new" "length new \<le> length ws"
      "\<forall>j \<in> set new. \<exists>v. rows d1 j = Some v \<and> NextTime v \<le> now"
      "rows d' = (\<lambda>j. if j \<in> set new then map_option ?hold (rows d1 j) else rows d1 j)" by blast
    have "i \<notin> set new" using new(4) assms(2) by (force simp: d1)
    then show ?thesis
      using new ri db(2) by (intro exI [of _ "i # new"]) (auto simp: d1 fun_eq_iff split: if_splits)
  next
    case False
    then show ?thesis using Cons.prems r skip by (cases r) (auto simp: not_le)
  qed
qed

lemma claim_spec:
  assumes "ExecDbTransaction C False (claim_handler C now limit nextTime) d = (Inr ws, d')"
    and "now < nextTime" and "0 < limit"
  shows "int (length ws) \<le> limit \<and> distinct (map WorkID ws) \<and>
    (\<forall>w \<in> set ws. \<exists>old. rows d (WorkID w) = Some old \<and> NextTime old \<le> now \<and> w = set_row (Some nextTime, False) old) \<and>
    rows d' = (\<lambda>i. if i \<in> WorkID ` set ws then map_option (set_row (Some nextTime, False)) (rows d i) else rows d i)"
proof -
  let ?hold = "set_row (Some nextTime, False)"
  have h: "claim_handler C now limit nextTime d = (Inr ws, d')"
    using assms(1) transaction_ok by (simp add: ExecDbTransaction_def)
  then obtain works1 where l: "list_due C now limit d = Inr works1"
    by (cases "list_due C now limit d") (auto simp: claim_handler_def)
  with h obtain ids where ids: "hold_works C now nextTime works1 [] d = (Inr ids, d')"
    and ws: "if ids = [] then ws = [] else list_ids C ids d' = Inr ws"
    by (auto simp: claim_handler_def split: prod.splits sum.splits if_splits)
  from hold_works_spec [OF ids assms(2)] have new: "distinct ids" "length ids \<le> length works1"
      "\<forall>i \<in> set ids. \<exists>w. rows d i = Some w \<and> NextTime w \<le> now"
      "rows d' = (\<lambda>i. if i \<in> set ids then map_option ?hold (rows d i) else rows d i)"
    by auto
  have set_ws: "set ws = {w. \<exists>i \<in> set ids. rows d' i = Some w}" and dist: "distinct (map WorkID ws)"
    using ws list_ids_ok [of ids d' ws] by (auto split: if_splits)
  have claimed: "\<exists>old. rows d (WorkID w) = Some old \<and> NextTime old \<le> now \<and> w = ?hold old \<and> WorkID w \<in> set ids"
    if "w \<in> set ws" for w
    using that new(3) unfolding set_ws by (fastforce simp: new(4) dest: row_id)
  have ids_eq: "WorkID ` set ws = set ids"
  proof
    show "WorkID ` set ws \<subseteq> set ids" using claimed by blast
    show "set ids \<subseteq> WorkID ` set ws"
    proof
      fix i assume i: "i \<in> set ids"
      with new(3) obtain old where old: "rows d i = Some old" by blast
      with i have "rows d' i = Some (?hold old)" by (simp add: new(4))
      with i have "?hold old \<in> set ws" unfolding set_ws by blast
      then show "i \<in> WorkID ` set ws" using row_id [OF old] by (metis image_eqI set_row_sel(1))
    qed
  qed
  have "length ws = card (set ids)"
    using dist ids_eq distinct_card [of "map WorkID ws"] by simp
  with new(1,2) list_due_ok [OF assms(3) l] have "int (length ws) \<le> limit" by (simp add: distinct_card)
  with claimed dist show ?thesis unfolding new(4) ids_eq by blast
qed

end

subsection \<open>A table that satisfies the contract\<close>

definition wt_rows :: "WorkBase list \<Rightarrow> string \<Rightarrow> WorkBase option" where
  "wt_rows d i = List.find (\<lambda>w. WorkID w = i) d"

definition wt_update :: "string \<Rightarrow> (WorkBase \<Rightarrow> WorkBase) \<Rightarrow> WorkBase list \<Rightarrow> WorkBase list" where
  "wt_update i f d = map (\<lambda>w. if WorkID w = i then f w else w) d"

definition wt_conflict :: "WorkBase \<Rightarrow> WorkBase list \<Rightarrow> bool" where
  "wt_conflict w d \<longleftrightarrow> wt_rows d (WorkID w) \<noteq> None \<or>
     list_ex (\<lambda>v. wt_rows d (WorkID v) = Some v \<and> same_reference v w) d"

definition work_table :: "WorkBase list work_crud" where
  "work_table = \<lparr>
     read_work = (\<lambda>i d. Inr (wt_rows d i)),
     read_for_update = (\<lambda>i d. Inr (wt_rows d i)),
     update_work = (\<lambda>i f d. (None, wt_update i (set_row f) d)),
     create_dup = (\<lambda>w d. (None, if wt_conflict w d then d else d @ [w])),
     list_due = (\<lambda>now limit d. Inr (take (nat limit) (sort_key NextTime (filter (\<lambda>w. NextTime w \<le> now) d)))),
     list_ids = (\<lambda>ids d. Inr (List.map_filter (wt_rows d) (remdups ids))),
     delete_work = (\<lambda>i d. (None, filter (\<lambda>w. WorkID w \<noteq> i) d)),
     delete_by_ref = (\<lambda>r t d. (None, filter (\<lambda>w. \<not> (ReferenceId w = r \<and> ReferenceType w = t)) d)),
     update_unset = (\<lambda>i t d. (None, wt_update i (set_unset_row t) d)),
     transaction = (\<lambda>h d. case h d of (Inl e, _) \<Rightarrow> (Inl e, d) | r \<Rightarrow> r)\<rparr>"

lemma wt_rows_simps [simp]:
  "wt_rows [] i = None" "wt_rows (w # d) i = (if WorkID w = i then Some w else wt_rows d i)"
  by (simp_all add: wt_rows_def)

lemma wt_rows_id: "wt_rows d i = Some w \<Longrightarrow> WorkID w = i \<and> w \<in> set d"
  by (induction d) (auto split: if_splits)

lemma wt_rows_update:
  assumes "\<And>w. WorkID (f w) = WorkID w"
  shows "wt_rows (wt_update i f d) = (wt_rows d)(i := map_option f (wt_rows d i))"
  by (rule ext, induction d) (auto simp: wt_update_def assms)

lemma wt_rows_delete: "wt_rows (filter (\<lambda>w. WorkID w \<noteq> i) d) = (wt_rows d)(i := None)"
  by (rule ext, induction d) auto

lemma wt_rows_snoc: "wt_rows d (WorkID w) = None \<Longrightarrow> wt_rows (d @ [w]) = (wt_rows d)(WorkID w \<mapsto> w)"
  by (rule ext, induction d) (auto split: if_splits)

lemma wt_conflict_iff:
  "wt_conflict w d \<longleftrightarrow> wt_rows d (WorkID w) \<noteq> None \<or> (\<exists>v \<in> ran (wt_rows d). same_reference v w)"
  by (auto simp: wt_conflict_def list_ex_iff ran_def dest: wt_rows_id)

lemma set_map_filter: "set (List.map_filter f xs) = {y. \<exists>x \<in> set xs. f x = Some y}"
  by (induction xs) (auto simp: map_filter_simps split: option.splits)

lemma distinct_map_filter_rows:
  "distinct ids \<Longrightarrow> distinct (map WorkID (List.map_filter (wt_rows d) ids))"
  by (induction ids) (fastforce simp: map_filter_simps set_map_filter split: option.splits dest: wt_rows_id)+

interpretation wt: work_db work_table wt_rows
proof
  show "wt_rows d i = Some w \<Longrightarrow> WorkID w = i" for d i w by (simp add: wt_rows_id)
  show "create_dup work_table w d = (None, d') \<Longrightarrow>
      wt_rows d' = (if wt_rows d (WorkID w) \<noteq> None \<or> (\<exists>v \<in> ran (wt_rows d). same_reference v w) then wt_rows d
                    else (wt_rows d)(WorkID w \<mapsto> w))" for w d d'
    using wt_conflict_iff [of w d] wt_rows_snoc [of d w] by (auto simp: work_table_def)
  show "list_ids work_table ids d = Inr ws \<Longrightarrow>
      distinct (map WorkID ws) \<and> set ws = {w. \<exists>i \<in> set ids. wt_rows d i = Some w}" for ids d ws
    using distinct_map_filter_rows [of "remdups ids" d] by (auto simp: work_table_def set_map_filter)
qed (auto simp: work_table_def wt_rows_update wt_rows_delete split: prod.splits sum.splits)

subsection \<open>Properties\<close>

lemma claim_works_spec:
  assumes "work_db (work_CRUD env) rows" and "0 < HOLD_WORK_SECONDS cfg" "in64 (Second * HOLD_WORK_SECONDS cfg)"
    and "ClaimDueWorks env cfg False now s = (Inr ws, s')"
  shows "int (length ws) \<le> max 0 (claim_limit cfg s)"
    and "\<forall>w \<in> set ws. \<exists>old. rows (work_rows s) (WorkID w) = Some old \<and> NextTime old \<le> now \<and>
         w = set_row (Some (now + Second * HOLD_WORK_SECONDS cfg), False) old"
    and "rows (work_rows s') = (\<lambda>i. if i \<in> WorkID ` set ws
         then map_option (set_row (Some (now + Second * HOLD_WORK_SECONDS cfg), False)) (rows (work_rows s) i)
         else rows (work_rows s) i)"
proof -
  define nextTime where "nextTime = now + Second * HOLD_WORK_SECONDS cfg"
  have n: "after_seconds now (HOLD_WORK_SECONDS cfg) = nextTime" "now < nextTime"
    using assms(2,3) by (simp_all add: nextTime_def after_seconds_def i64_id Second_def)
  have "int (length ws) \<le> max 0 (claim_limit cfg s) \<and>
      (\<forall>w \<in> set ws. \<exists>old. rows (work_rows s) (WorkID w) = Some old \<and> NextTime old \<le> now \<and>
         w = set_row (Some nextTime, False) old) \<and>
      rows (work_rows s') = (\<lambda>i. if i \<in> WorkID ` set ws then map_option (set_row (Some nextTime, False)) (rows (work_rows s) i)
         else rows (work_rows s) i)"
  proof (cases "claim_limit cfg s \<le> 0")
    case True
    with assms(4) show ?thesis by (simp add: ClaimDueWorks_def)
  next
    case False
    obtain r0 d0 where X: "ExecDbTransaction (work_CRUD env) False
        (claim_handler (work_CRUD env) now (claim_limit cfg s) nextTime) (work_rows s) = (r0, d0)" by fastforce
    with False assms(4) n(1) have "r0 = Inr ws" "work_rows s' = d0" by (auto simp: ClaimDueWorks_def)
    with work_db.claim_spec [OF assms(1) X [unfolded \<open>r0 = Inr ws\<close>] n(2)] False show ?thesis by simp
  qed
  then show "int (length ws) \<le> max 0 (claim_limit cfg s)"
    "\<forall>w \<in> set ws. \<exists>old. rows (work_rows s) (WorkID w) = Some old \<and> NextTime old \<le> now \<and>
         w = set_row (Some (now + Second * HOLD_WORK_SECONDS cfg), False) old"
    "rows (work_rows s') = (\<lambda>i. if i \<in> WorkID ` set ws
         then map_option (set_row (Some (now + Second * HOLD_WORK_SECONDS cfg), False)) (rows (work_rows s) i)
         else rows (work_rows s) i)"
    unfolding nextTime_def by blast+
qed

lemma leased_not_claimed:
  assumes "work_db (work_CRUD env) rows" and "0 < HOLD_WORK_SECONDS cfg" "in64 (Second * HOLD_WORK_SECONDS cfg)"
    and "ClaimDueWorks env cfg False t s = (Inr ws, s')" and "rows (work_rows s) i = Some w" and "t < NextTime w"
  shows "i \<notin> WorkID ` set ws"
  using claim_works_spec(2) [OF assms(1-4)] assms(5,6) by fastforce

text \<open>
  C11: works are claimed under a lease. A claim returns at most as many works as the bucket has
  room for beside the running and queued ones, each of them was due and now has its next
  time moved to the end of the lease, in the result and in the database, and no other row changes. A
  claim by any instance on the resulting database before the lease ends returns none of these works.
  A claim that fails changes no row.
\<close>

theorem claims_are_leases:
  assumes "work_db (work_CRUD env) rows" and "0 < HOLD_WORK_SECONDS cfg" and "in64 (Second * HOLD_WORK_SECONDS cfg)"
    and "ClaimDueWorks env cfg False now s = (r, s')"
  shows "case r of
      Inl err \<Rightarrow> rows (work_rows s') = rows (work_rows s)
    | Inr ws \<Rightarrow>
        int (length ws) \<le> max 0 (claim_limit cfg s) \<and>
        (\<forall>w \<in> set ws. \<exists>old. rows (work_rows s) (WorkID w) = Some old \<and> NextTime old \<le> now \<and>
           w = old\<lparr>NextTime := now + Second * HOLD_WORK_SECONDS cfg, NextTimeSet := False\<rparr> \<and>
           rows (work_rows s') (WorkID w) = Some w) \<and>
        (\<forall>i. i \<notin> WorkID ` set ws \<longrightarrow> rows (work_rows s') i = rows (work_rows s) i) \<and>
        (\<forall>env2 cfg2 s2 t ws2 s3. work_CRUD env2 = work_CRUD env \<longrightarrow> work_rows s2 = work_rows s' \<longrightarrow>
           0 < HOLD_WORK_SECONDS cfg2 \<longrightarrow> in64 (Second * HOLD_WORK_SECONDS cfg2) \<longrightarrow>
           t < now + Second * HOLD_WORK_SECONDS cfg \<longrightarrow>
           ClaimDueWorks env2 cfg2 False t s2 = (Inr ws2, s3) \<longrightarrow>
           WorkID ` set ws \<inter> WorkID ` set ws2 = {})"
proof (cases r)
  case (Inl err)
  with assms(4) work_db.transaction_failed [OF assms(1)] show ?thesis
    by (auto simp: ClaimDueWorks_def ExecDbTransaction_def split: prod.splits if_splits)
next
  case (Inr ws)
  note first = claim_works_spec [OF assms(1-3) assms(4) [unfolded Inr]]
  have leased: "\<exists>old. rows (work_rows s) (WorkID w) = Some old \<and> NextTime old \<le> now \<and>
       w = old\<lparr>NextTime := now + Second * HOLD_WORK_SECONDS cfg, NextTimeSet := False\<rparr> \<and>
       rows (work_rows s') (WorkID w) = Some w" if "w \<in> set ws" for w
    using bspec [OF first(2) that] that by (auto simp: first(3) set_row_def)
  show ?thesis unfolding Inr sum.case
  proof (intro conjI ballI allI impI)
    fix env2 cfg2 s2 t ws2 s3
    assume "work_CRUD env2 = work_CRUD env" and s2: "work_rows s2 = work_rows s'"
      and hold: "0 < HOLD_WORK_SECONDS cfg2" "in64 (Second * HOLD_WORK_SECONDS cfg2)"
      and t: "t < now + Second * HOLD_WORK_SECONDS cfg" and c: "ClaimDueWorks env2 cfg2 False t s2 = (Inr ws2, s3)"
    then have db: "work_db (work_CRUD env2) rows" using assms(1) by simp
    have "WorkID w \<notin> WorkID ` set ws2" if "w \<in> set ws" for w
      using leased [OF that] t s2 by (intro leased_not_claimed [OF db hold c, of _ w]) auto
    then show "WorkID ` set ws \<inter> WorkID ` set ws2 = {}" by blast
  qed (use first leased in auto)
qed

text \<open>Works on which the properties are computed.\<close>

definition example_work :: "string \<Rightarrow> int \<Rightarrow> WorkBase" where
  "example_work i t = \<lparr>WorkID = i, ReferenceId = i, ReferenceType = ''t'', NextTime = t, NextTimeSet = False,
     work_lock = None, initialDelay = 0, noDb = False\<rparr>"

definition example_schedule_config :: WorkScheduleConfig where
  "example_schedule_config = \<lparr>BUCKET_SIZE = 2, INVOKATION_INTERVAL_SECONDS = 300, HOLD_WORK_SECONDS = 900, LOCK_TTL_SECONDS = 9\<rparr>"

definition example_env :: "(WorkBase list, unit ttl_table) work_env" where
  "example_env = \<lparr>work_CRUD = work_table, locker = InmemLocker_Lock ttl_table_ops, release = InmemLock_Release ttl_table_ops,
     workRunner = Some (\<lambda>w d. ((False, Some ''failed''), w, d))\<rparr>"

definition example_schedule :: "WorkBase list \<Rightarrow> (WorkBase list, unit ttl_table) WorkSchedule" where
  "example_schedule d = \<lparr>runningWorkCount = 0, workQueueSize = 0, work_queue = [], readNextWorks = False,
     work_rows = d, work_locks = []\<rparr>"

lemmas example_work_defs = example_work_def example_schedule_config_def example_env_def example_schedule_def

theorem claims_are_leases_witness:
  "ClaimDueWorks example_env example_schedule_config False 5 (example_schedule [example_work ''a'' 1, example_work ''b'' 9]) =
     (Inr [(example_work ''a'' 1)\<lparr>NextTime := 900000000005\<rparr>],
      example_schedule [(example_work ''a'' 1)\<lparr>NextTime := 900000000005\<rparr>, example_work ''b'' 9]) \<and>
   (\<exists>old. wt_rows [example_work ''a'' 1, example_work ''b'' 9] ''a'' = Some old \<and> NextTime old \<le> 5)"
proof -
  let ?s = "example_schedule [example_work ''a'' 1, example_work ''b'' 9]"
  have c: "ClaimDueWorks example_env example_schedule_config False 5 ?s =
     (Inr [(example_work ''a'' 1)\<lparr>NextTime := 900000000005\<rparr>],
      example_schedule [(example_work ''a'' 1)\<lparr>NextTime := 900000000005\<rparr>, example_work ''b'' 9])"
    by code_simp
  have db: "work_db (work_CRUD example_env) wt_rows" using wt.work_db_axioms by (simp add: example_env_def)
  have h: "0 < HOLD_WORK_SECONDS example_schedule_config" "in64 (Second * HOLD_WORK_SECONDS example_schedule_config)" by code_simp+
  have "\<forall>w \<in> set [(example_work ''a'' 1)\<lparr>NextTime := 900000000005\<rparr>].
      \<exists>old. wt_rows (work_rows ?s) (WorkID w) = Some old \<and> NextTime old \<le> 5"
    using claims_are_leases [OF db h c] unfolding sum.case by blast
  then have "\<exists>old. wt_rows (work_rows ?s) ''a'' = Some old \<and> NextTime old \<le> 5" by (simp add: example_work_def)
  moreover have "work_rows ?s = [example_work ''a'' 1, example_work ''b'' 9]" by (simp add: example_schedule_def)
  ultimately show ?thesis using c by (simp only: simp_thms)
qed

text \<open>
  Running a work leaves the counters as they were, whatever the lock, the database, the runner and
  the transaction answer, as long as the runner keeps the lock of the work: every path that
  raised the number of running works lowers it again, so no capacity is lost by running works.
\<close>

theorem do_work_restores_counters:
  assumes "\<And>run w d. workRunner env = Some run \<Longrightarrow> work_lock (fst (snd (run w d))) = work_lock w"
  shows "runningWorkCount (snd (DoWork env cfg inTransaction now later work s)) = runningWorkCount s \<and>
    workQueueSize (snd (DoWork env cfg inTransaction now later work s)) = workQueueSize s"
proof (cases "workRunner env")
  case None
  then show ?thesis by (simp add: DoWork_def)
next
  case (Some run)
  obtain e w1 s1 where a: "AcquireWork env cfg now work s = (e, w1, s1)" by (cases "AcquireWork env cfg now work s") auto
  have acquired: "workQueueSize s1 = workQueueSize s \<and> (if e = None then runningWorkCount s1 = runningWorkCount s + 1 \<and> work_lock w1 \<noteq> None
      else runningWorkCount s1 = runningWorkCount s)"
    using a by (auto simp: AcquireWork_def releaseLock_def Let_def split: prod.splits sum.splits option.splits bool.splits if_splits)
  show ?thesis
  proof (cases e)
    case None
    obtain fin err w2 d where r: "run (ResetNextTime w1) (work_rows s1) = ((fin, err), w2, d)"
      by (cases "run (ResetNextTime w1) (work_rows s1)") auto
    have "work_lock w2 = work_lock w1" using assms [OF Some, of "ResetNextTime w1" "work_rows s1"] r by (simp add: ResetNextTime_def)
    moreover have "work_lock (SetNextWorkTime cfg later [] w2) = work_lock w2" by (simp add: SetNextWorkTime_def)
    ultimately show ?thesis
      using a acquired r Some None by (auto simp: DoWork_def ReleaseWork_def Let_def split: prod.splits option.splits)
  next
    case (Some e')
    with a acquired \<open>workRunner env = Some run\<close> show ?thesis
      by (cases e') (auto simp: DoWork_def)
  qed
qed

theorem do_work_restores_counters_witness:
  "runningWorkCount (snd (DoWork example_env example_schedule_config False 5 6 (example_work ''a'' 1)
     (example_schedule [example_work ''a'' 1]))) = 0"
proof -
  have "work_lock (fst (snd (run w d))) = work_lock w" if "workRunner example_env = Some run" for run w d
    using that by (auto simp: example_env_def)
  then have "runningWorkCount (snd (DoWork example_env example_schedule_config False 5 6 (example_work ''a'' 1)
      (example_schedule [example_work ''a'' 1]))) = runningWorkCount (example_schedule [example_work ''a'' 1])"
    using do_work_restores_counters [of example_env] by blast
  then show ?thesis by (simp add: example_schedule_def)
qed

text \<open>
  What running an acquired work does to its row: a finished work is deleted, an unfinished one
  gets its next time unless somebody set one since it was acquired, a row that was deleted
  meanwhile stays deleted, and all other rows are those the runner left. When the update of the
  row fails nothing of it happens. The error of the runner is returned only when that
  update fails: otherwise the call reports success even if the runner failed.
\<close>

theorem do_work_updates_row:
  assumes "work_db (work_CRUD env) rows" and "workRunner env = Some run"
    and "AcquireWork env cfg now work s = (None, w1, s1)"
    and "run (ResetNextTime w1) (work_rows s1) = ((finished, err), w2, d)" and "WorkID w2 = i"
    and "DoWork env cfg False now later work s = (e, s')"
  shows "case e of
      Some e' \<Rightarrow> rows (work_rows s') = rows d \<and> (\<forall>x. err = Some x \<longrightarrow> e' = WorkError x)
    | None \<Rightarrow> rows (work_rows s') =
        (if finished then (rows d)(i := None)
         else (rows d)(i := map_option (set_unset_row (NextTime (SetNextWorkTime cfg later [] w2))) (rows d i)))"
proof -
  define w3 where "w3 = SetNextWorkTime cfg later [] w2"
  have id3: "WorkID w3 = i" using assms(5) by (simp add: w3_def SetNextWorkTime_def)
  obtain r d' where x: "transaction (work_CRUD env) (updateProcessedWork (work_CRUD env) finished w3) d = (r, d')" by fastforce
  have e: "e = (case r of Inl err1 \<Rightarrow> Some (WorkError (case err of Some e \<Rightarrow> e | None \<Rightarrow> err1)) | Inr _ \<Rightarrow> None)"
    and s': "work_rows s' = d'"
    using assms(2-4,6) x
    by (auto simp: DoWork_def ExecDbTransaction_def Let_def w3_def [symmetric] ReleaseWork_def split: option.splits prod.splits)
  show ?thesis
  proof (cases r)
    case (Inl err1)
    with x e s' work_db.transaction_failed [OF assms(1)] show ?thesis by (auto split: option.splits)
  next
    case (Inr ws)
    with x have u: "updateProcessedWork (work_CRUD env) finished w3 d = (Inr ws, d')"
      using work_db.transaction_ok [OF assms(1)] by blast
    then obtain row where row: "read_for_update (work_CRUD env) i d = Inr row"
      by (cases "read_for_update (work_CRUD env) i d") (auto simp: updateProcessedWork_def id3)
    note ri = work_db.read_for_update_ok [OF assms(1) row]
    show ?thesis
    proof (cases row)
      case None
      with u row ri show ?thesis by (auto simp: updateProcessedWork_def id3 e Inr s' fun_upd_idem_iff)
    next
      case (Some dbWork)
      have "WorkID dbWork = i" using work_db.row_id [OF assms(1)] ri Some by metis
      with u row Some show ?thesis
        using work_db.delete_ok [OF assms(1)] work_db.update_unset_ok [OF assms(1)]
        by (auto simp: updateProcessedWork_def id3 e Inr s' w3_def [symmetric] split: if_splits prod.splits option.splits)
    qed
  qed
qed

theorem do_work_updates_row_witness:
  "fst (DoWork example_env example_schedule_config False 5 6 (example_work ''a'' 1) (example_schedule [example_work ''a'' 1])) = None \<and>
   wt_rows (work_rows (snd (DoWork example_env example_schedule_config False 5 6 (example_work ''a'' 1)
     (example_schedule [example_work ''a'' 1])))) ''a'' =
   Some ((example_work ''a'' 1)\<lparr>NextTime := 300000000006, NextTimeSet := True\<rparr>)"
proof -
  let ?s = "example_schedule [example_work ''a'' 1]"
  let ?l = "\<lparr>lock_key = ''work_lock_a'', notObtained = False\<rparr>"
  let ?w1 = "(example_work ''a'' 1)\<lparr>work_lock := Some ?l\<rparr>"
  let ?a = "AcquireWork example_env example_schedule_config 5 (example_work ''a'' 1) ?s"
  let ?d = "DoWork example_env example_schedule_config False 5 6 (example_work ''a'' 1) ?s"
  have db: "work_db (work_CRUD example_env) wt_rows" using wt.work_db_axioms by (simp add: example_env_def)
  have run: "workRunner example_env = Some (\<lambda>w d. ((False, Some ''failed''), w, d))" by (simp add: example_env_def)
  have a: "?a = (None, ?w1, snd (snd ?a))" by code_simp
  have rows: "work_rows (snd (snd ?a)) = [example_work ''a'' 1]" by code_simp
  have e: "fst ?d = None" by code_simp
  have n: "NextTime (SetNextWorkTime example_schedule_config 6 [] (ResetNextTime ?w1)) = 300000000006" by code_simp
  from do_work_updates_row [OF db run a refl refl, where e = "fst ?d" and s' = "snd ?d"] e n rows
  show ?thesis by (simp add: ResetNextTime_def example_work_def set_unset_row_def)
qed

text \<open>
  A posted work is in the database when the call returns without an error: with a fresh identifier
  there is afterwards a row with its reference, the row that was there before, or the posted
  work itself. In the direct and queued modes its time is now, in the schedule mode the time set for it
  or the configured interval, and the scanner is woken. A work without a row that is posted in the schedule mode
  goes to the invoker, and the scheduler's own invoker drops it without an error.
\<close>

theorem posted_work_is_durable:
  assumes "work_db (work_CRUD env) rows" and "\<not> noDb work" and "mode = SCHEDULE \<or> inTransaction"
    and "rows (work_rows s) (if WorkID work = '''' then newId else WorkID work) = None"
    and "PostWork env cfg invoker inTransaction now newId work mode s = (None, s')"
  shows "(\<exists>w \<in> ran (rows (work_rows s')). same_reference w work \<and>
      (w \<in> ran (rows (work_rows s)) \<or>
       NextTime w = (if mode = SCHEDULE then NextTime (SetNextWorkTime cfg now [] work) else now))) \<and>
    (mode = SCHEDULE \<longrightarrow> readNextWorks s') \<and>
    ran (rows (work_rows s)) \<subseteq> ran (rows (work_rows s')) \<and>
    PostWork env cfg (InvokeWork env cfg inTransaction now later outcome) inTransaction now newId (work\<lparr>noDb := True\<rparr>) SCHEDULE s = (None, s)"
proof -
  define w1 where "w1 = (if mode = SCHEDULE then SetNextWorkTime cfg now [] work else work\<lparr>NextTime := now\<rparr>)"
  define w2 where "w2 = (if WorkID w1 = '''' then w1\<lparr>WorkID := newId\<rparr> else w1)"
  have w1: "WorkID w1 = WorkID work" "noDb w1 = noDb work" "ReferenceId w1 = ReferenceId work" "ReferenceType w1 = ReferenceType work"
    by (simp_all add: w1_def SetNextWorkTime_def)
  have w2: "WorkID w2 = (if WorkID work = '''' then newId else WorkID work)" "same_reference w2 work"
      "NextTime w2 = (if mode = SCHEDULE then NextTime (SetNextWorkTime cfg now [] work) else now)"
    using w1 by (simp_all add: w2_def same_reference_def w1_def)
  obtain e d where c: "create_dup (work_CRUD env) w2 (work_rows s) = (e, d)" by fastforce
  have "PostWork env cfg invoker inTransaction now newId work mode s =
      (case e of Some err \<Rightarrow> (Some (WorkError err), s\<lparr>work_rows := d\<rparr>)
       | None \<Rightarrow> if mode \<noteq> SCHEDULE then (None, s\<lparr>work_rows := d\<rparr>) else (None, Wake (s\<lparr>work_rows := d\<rparr>)))"
    using assms(2,3) w1 c unfolding PostWork_def Let_def w1_def [symmetric] w2_def [symmetric]
    by (auto simp: w1_def w2_def split: option.splits)
  with assms(5) have e: "e = None" and s': "work_rows s' = d" "mode = SCHEDULE \<longrightarrow> readNextWorks s'"
    by (auto simp: Wake_def split: option.splits if_splits)
  note rows = work_db.create_ok [OF assms(1) c [unfolded e]]
  have new: "\<exists>w \<in> ran (rows d). same_reference w work \<and> (w \<in> ran (rows (work_rows s)) \<or> NextTime w = NextTime w2)"
  proof (cases "\<exists>v \<in> ran (rows (work_rows s)). same_reference v w2")
    case True
    with rows w2(2) show ?thesis by (auto simp: same_reference_def)
  next
    case False
    with rows assms(4) w2 show ?thesis by (auto simp: ran_def)
  qed
  moreover have "ran (rows (work_rows s)) \<subseteq> ran (rows d)"
    using rows assms(4) w2(1) by (auto simp: ran_map_upd)
  moreover have "PostWork env cfg (InvokeWork env cfg inTransaction now later outcome) inTransaction now newId (work\<lparr>noDb := True\<rparr>) SCHEDULE s = (None, s)"
    by (simp add: PostWork_def SetNextWorkTime_def InvokeWork_def Let_def)
  ultimately show ?thesis using s' w2(3) by simp
qed

theorem posted_work_is_durable_witness:
  "\<exists>w \<in> ran (wt_rows (work_rows (snd (PostWork example_env example_schedule_config (\<lambda>w m s. (None, s)) False 5 ''n''
     (example_work '''' ZeroTime) SCHEDULE (example_schedule []))))). NextTime w = 300000000005"
proof -
  let ?p = "PostWork example_env example_schedule_config (\<lambda>w m s. (None, s)) False 5 ''n'' (example_work '''' ZeroTime) SCHEDULE (example_schedule [])"
  have db: "work_db (work_CRUD example_env) wt_rows" using wt.work_db_axioms by (simp add: example_env_def)
  have p: "?p = (None, snd ?p)" by code_simp
  have f: "\<not> noDb (example_work '''' ZeroTime)" "SCHEDULE = SCHEDULE \<or> False"
    "wt_rows (work_rows (example_schedule [])) (if WorkID (example_work '''' ZeroTime) = '''' then ''n'' else WorkID (example_work '''' ZeroTime)) = None"
    by (simp_all add: example_work_def example_schedule_def)
  have n: "NextTime (SetNextWorkTime example_schedule_config 5 [] (example_work '''' ZeroTime)) = 300000000005" by code_simp
  have r: "ran (wt_rows (work_rows (example_schedule []))) = {}" by (simp add: example_schedule_def ran_def)
  show ?thesis using posted_work_is_durable [OF db f p, of 0 Sent] n r by auto
qed

end
