(* ===== verification/WorkPools.thy ===== *)
theory WorkPools
  imports WorkSchedules
begin

section \<open>The goroutines of the work scheduler\<close>

text \<open>
  Models the concurrent part of \<^verbatim>\<open>pkg/work_schedule/work_schedule.go\<close> as a step relation: the
  reader started by \<open>Run\<close> with \<open>readWorks\<close>, the workers, the callers of \<open>enqueuWork\<close> outside the reader,
  \<open>Shutdown\<close> and the end of the context. The state extends the one of \<open>WorkSchedules\<close> by the
  channels and the positions of the goroutines; a claim is any result within the limit of
  \<open>claim_limit\<close>. Reachable states satisfy the invariant of the counters; the properties are what follows
  for the queue, for lost capacity and for panics.
\<close>

subsection \<open>States and steps\<close>

datatype reader = Waiting | Claiming | Enqueueing "WorkBase list" | Sending WorkBase "WorkBase list" | ReaderGone

datatype worker = Idle | Took WorkBase | Running WorkBase | WorkerGone

text \<open>\<open>leaked\<close> counts the calls of \<open>enqueuWork\<close> that returned false; the code does not keep this number.\<close>

record ('d, 'c) pool = "('d, 'c) WorkSchedule" +
  queue_closed :: bool
  stopped :: bool
  ctx_done :: bool
  reader :: reader
  workers :: "worker list"
  posters :: "WorkBase list"
  leaked :: nat
  panicked :: bool

definition pool_start :: "nat \<Rightarrow> 'd \<Rightarrow> 'c \<Rightarrow> ('d, 'c) pool" where
  "pool_start parallel_jobs d c =
     \<lparr>runningWorkCount = 0, workQueueSize = 0, work_queue = [], readNextWorks = True, work_rows = d, work_locks = c,
      queue_closed = False, stopped = False, ctx_done = False, reader = Waiting,
      workers = replicate parallel_jobs Idle, posters = [], leaked = 0, panicked = False\<rparr>"

text \<open>
  The rules of the reader, of a worker, of a caller that posts to the queue (only when \<open>posting\<close>
  is set), and of the environment.
\<close>

inductive pool_step :: "bool \<Rightarrow> WorkScheduleConfig \<Rightarrow> ('d, 'c) pool \<Rightarrow> ('d, 'c) pool \<Rightarrow> bool"
  for posting cfg where
  reader_tick: "reader s = Waiting \<Longrightarrow> pool_step posting cfg s (s\<lparr>reader := Claiming\<rparr>)"
| reader_wake: "reader s = Waiting \<Longrightarrow> readNextWorks s \<Longrightarrow>
    pool_step posting cfg s (s\<lparr>reader := Claiming, readNextWorks := False\<rparr>)"
| reader_exit: "reader s = Waiting \<Longrightarrow> stopped s \<or> ctx_done s \<Longrightarrow>
    pool_step posting cfg s (s\<lparr>reader := ReaderGone, queue_closed := True\<rparr>)"
| read_stop: "reader s = Claiming \<Longrightarrow> stopped s \<or> ctx_done s \<Longrightarrow> pool_step posting cfg s (s\<lparr>reader := Waiting\<rparr>)"
| read_none: "reader s = Claiming \<Longrightarrow> \<not> stopped s \<Longrightarrow> \<not> ctx_done s \<Longrightarrow> pool_step posting cfg s (s\<lparr>reader := Waiting\<rparr>)"
| read_batch: "reader s = Claiming \<Longrightarrow> \<not> stopped s \<Longrightarrow> \<not> ctx_done s \<Longrightarrow> ws \<noteq> [] \<Longrightarrow> int (length ws) \<le> claim_limit cfg s \<Longrightarrow>
    pool_step posting cfg s (s\<lparr>reader := Enqueueing ws\<rparr>)"
| batch_done: "reader s = Enqueueing [] \<Longrightarrow> pool_step posting cfg s (s\<lparr>reader := Claiming\<rparr>)"
| batch_next: "reader s = Enqueueing (w # ws) \<Longrightarrow>
    pool_step posting cfg s (s\<lparr>reader := Sending w ws, workQueueSize := workQueueSize s + 1\<rparr>)"
| batch_send: "reader s = Sending w ws \<Longrightarrow> \<not> queue_closed s \<Longrightarrow> int (length (work_queue s)) < BUCKET_SIZE cfg \<Longrightarrow>
    pool_step posting cfg s (s\<lparr>reader := Enqueueing ws, work_queue := work_queue s @ [w]\<rparr>)"
| batch_stop: "reader s = Sending w ws \<Longrightarrow> stopped s \<Longrightarrow>
    pool_step posting cfg s (s\<lparr>reader := Waiting, leaked := leaked s + 1\<rparr>)"
| worker_take: "i < length (workers s) \<Longrightarrow> workers s ! i = Idle \<Longrightarrow> work_queue s = w # q \<Longrightarrow>
    pool_step posting cfg s (s\<lparr>workers := (workers s)[i := Took w], work_queue := q, workQueueSize := workQueueSize s - 1\<rparr>)"
| worker_acquire: "i < length (workers s) \<Longrightarrow> workers s ! i = Took w \<Longrightarrow>
    pool_step posting cfg s (s\<lparr>workers := (workers s)[i := Running w], runningWorkCount := runningWorkCount s + 1\<rparr>)"
| worker_skip: "i < length (workers s) \<Longrightarrow> workers s ! i = Took w \<Longrightarrow>
    pool_step posting cfg s (s\<lparr>workers := (workers s)[i := Idle], readNextWorks := True\<rparr>)"
| worker_done: "i < length (workers s) \<Longrightarrow> workers s ! i = Running w \<Longrightarrow>
    pool_step posting cfg s (s\<lparr>workers := (workers s)[i := Idle], runningWorkCount := runningWorkCount s - 1, readNextWorks := True\<rparr>)"
| worker_exit: "i < length (workers s) \<Longrightarrow> workers s ! i = Idle \<Longrightarrow>
    stopped s \<or> ctx_done s \<or> queue_closed s \<and> work_queue s = [] \<Longrightarrow>
    pool_step posting cfg s (s\<lparr>workers := (workers s)[i := WorkerGone]\<rparr>)"
| post_start: "posting \<Longrightarrow>
    pool_step posting cfg s (s\<lparr>posters := w # posters s, workQueueSize := workQueueSize s + 1\<rparr>)"
| post_send: "w \<in> set (posters s) \<Longrightarrow> \<not> queue_closed s \<Longrightarrow> int (length (work_queue s)) < BUCKET_SIZE cfg \<Longrightarrow>
    pool_step posting cfg s (s\<lparr>posters := remove1 w (posters s), work_queue := work_queue s @ [w]\<rparr>)"
| post_cancel: "w \<in> set (posters s) \<Longrightarrow>
    pool_step posting cfg s (s\<lparr>posters := remove1 w (posters s), leaked := leaked s + 1\<rparr>)"
| post_panic: "w \<in> set (posters s) \<Longrightarrow> queue_closed s \<Longrightarrow> pool_step posting cfg s (s\<lparr>panicked := True\<rparr>)"
| wake: "pool_step posting cfg s (s\<lparr>readNextWorks := True\<rparr>)"
| shutdown: "pool_step posting cfg s (s\<lparr>stopped := True\<rparr>)"
| context_end: "pool_step posting cfg s (s\<lparr>ctx_done := True\<rparr>)"

abbreviation pool_steps :: "bool \<Rightarrow> WorkScheduleConfig \<Rightarrow> ('d, 'c) pool \<Rightarrow> ('d, 'c) pool \<Rightarrow> bool" where
  "pool_steps posting cfg \<equiv> (pool_step posting cfg)\<^sup>*\<^sup>*"

subsection \<open>The invariant\<close>

definition is_running :: "worker \<Rightarrow> bool" where "is_running w \<longleftrightarrow> (case w of Running _ \<Rightarrow> True | _ \<Rightarrow> False)"

definition is_busy :: "worker \<Rightarrow> bool" where "is_busy w \<longleftrightarrow> (case w of Running _ \<Rightarrow> True | Took _ \<Rightarrow> True | _ \<Rightarrow> False)"

definition sending :: "reader \<Rightarrow> nat" where "sending r = (case r of Sending _ _ \<Rightarrow> 1 | _ \<Rightarrow> 0)"

definition claimed :: "reader \<Rightarrow> nat" where
  "claimed r = (case r of Enqueueing ws \<Rightarrow> length ws | Sending _ ws \<Rightarrow> length ws | _ \<Rightarrow> 0)"

definition pool_inv :: "WorkScheduleConfig \<Rightarrow> nat \<Rightarrow> ('d, 'c) pool \<Rightarrow> bool" where
  "pool_inv cfg n s \<longleftrightarrow>
     length (workers s) = n \<and>
     runningWorkCount s = int (length (filter is_running (workers s))) \<and>
     workQueueSize s = int (length (work_queue s) + sending (reader s) + length (posters s) + leaked s) \<and>
     (work_queue s = [] \<or> int (length (work_queue s)) \<le> BUCKET_SIZE cfg) \<and>
     (queue_closed s \<longleftrightarrow> reader s = ReaderGone)"

lemma filter_update:
  assumes "i < length xs"
  shows "int (length (filter P (xs[i := x]))) =
    int (length (filter P xs)) - (if P (xs ! i) then 1 else 0) + (if P x then 1 else 0)"
proof -
  have xs: "xs = take i xs @ xs ! i # drop (Suc i) xs" using assms by (rule id_take_nth_drop)
  have "xs[i := x] = take i xs @ x # drop (Suc i) xs" using assms by (rule upd_conv_take_nth_drop)
  moreover have "length (filter P xs) = length (filter P (take i xs)) + (if P (xs ! i) then 1 else 0) + length (filter P (drop (Suc i) xs))"
    by (subst xs) simp
  ultimately show ?thesis by simp
qed

lemma length_remove1_int: "w \<in> set ws \<Longrightarrow> int (length (remove1 w ws)) = int (length ws) - 1"
  by (induction ws) auto

lemmas pool_count = filter_update is_running_def is_busy_def sending_def claimed_def length_remove1_int

lemma pool_inv_start: "pool_inv cfg n (pool_start n d c)"
  by (simp add: pool_inv_def pool_start_def pool_count)

lemma pool_inv_step: "pool_step posting cfg s s' \<Longrightarrow> pool_inv cfg n s \<Longrightarrow> pool_inv cfg n s'"
  by (induction rule: pool_step.induct) (auto simp: pool_inv_def pool_count)

lemma pool_inv_steps: "pool_steps posting cfg s s' \<Longrightarrow> pool_inv cfg n s \<Longrightarrow> pool_inv cfg n s'"
  by (induction rule: rtranclp_induct) (auto intro: pool_inv_step)

lemma leaked_mono: "pool_steps posting cfg s s' \<Longrightarrow> leaked s \<le> leaked s'"
proof (induction rule: rtranclp_induct)
  case (step s1 s2)
  from step.hyps(2) have "leaked s1 \<le> leaked s2" by (induction rule: pool_step.induct) auto
  with step.IH show ?case by simp
qed simp

text \<open>When only the reader sends to the queue, what it has claimed fits into the queue.\<close>

definition reader_inv :: "WorkScheduleConfig \<Rightarrow> nat \<Rightarrow> ('d, 'c) pool \<Rightarrow> bool" where
  "reader_inv cfg n s \<longleftrightarrow> pool_inv cfg n s \<and> posters s = [] \<and> \<not> panicked s \<and>
     (workQueueSize s + int (claimed (reader s)) \<le> BUCKET_SIZE cfg) \<and>
     workQueueSize s + int (claimed (reader s)) + int (length (filter is_busy (workers s))) \<le> BUCKET_SIZE cfg + int n"

lemma running_le_busy: "length (filter is_running ws) \<le> length (filter is_busy ws)"
  by (induction ws) (auto simp: is_running_def is_busy_def split: worker.splits)

lemma reader_inv_step:
  assumes "pool_step False cfg s s'" and "reader_inv cfg n s"
  shows "reader_inv cfg n s'"
proof -
  have i: "pool_inv cfg n s'" using pool_inv_step [OF assms(1)] assms(2) by (simp add: reader_inv_def)
  have b: "int (length (filter is_busy (workers s))) \<le> int n" "0 \<le> runningWorkCount s"
    using assms(2) length_filter_le [of is_busy "workers s"] by (simp_all add: reader_inv_def pool_inv_def)
  show ?thesis using assms i b
    by (induction rule: pool_step.induct) (auto simp: reader_inv_def claim_limit_def pool_count)
qed

lemma reader_inv_steps: "pool_steps False cfg s s' \<Longrightarrow> reader_inv cfg n s \<Longrightarrow> reader_inv cfg n s'"
  by (induction rule: rtranclp_induct) (auto intro: reader_inv_step)

lemma reader_inv_start: "0 \<le> BUCKET_SIZE cfg \<Longrightarrow> reader_inv cfg n (pool_start n d c)"
  using pool_inv_start [of cfg n d c] by (auto simp: reader_inv_def pool_start_def pool_count)

subsection \<open>Properties\<close>

text \<open>
  The counters of the scheduler are exact in every reachable state: the number of running works is
  the number of workers that run one, and the queue size counts the queued works, the pending
  sends and, for ever, every send that was given up. The queue never holds more than the bucket
  size, and it is closed exactly when the reader has ended.
\<close>

theorem pool_counters_exact:
  assumes "pool_steps posting cfg (pool_start n d c) s"
  shows "runningWorkCount s = int (length (filter is_running (workers s))) \<and>
    workQueueSize s = int (length (work_queue s) + sending (reader s) + length (posters s) + leaked s) \<and>
    (work_queue s = [] \<or> int (length (work_queue s)) \<le> BUCKET_SIZE cfg) \<and>
    (queue_closed s \<longleftrightarrow> reader s = ReaderGone)"
  using pool_inv_steps [OF assms pool_inv_start] by (simp add: pool_inv_def)

theorem pool_counters_exact_witness:
  "workQueueSize ((pool_start 1 () ())\<lparr>reader := Claiming\<rparr>) = 0"
proof -
  have "pool_steps True cfg (pool_start 1 () ()) ((pool_start 1 () ())\<lparr>reader := Claiming\<rparr>)" for cfg
    by (rule r_into_rtranclp, rule pool_step.reader_tick) (simp add: pool_start_def)
  from pool_counters_exact [OF this [of example_schedule_config]] show ?thesis
    by (simp add: pool_start_def sending_def)
qed

text \<open>
  As long as works reach the queue through the reader only, the reader never waits for room in the
  queue: when it is about to send a work, the queue has room. Nothing panics, and the works
  that are claimed, queued or in the hands of workers never exceed the bucket size by more than the number of
  workers.
\<close>

theorem reader_never_blocks:
  assumes "0 \<le> BUCKET_SIZE cfg" and "pool_steps False cfg (pool_start n d c) s"
  shows "(\<forall>w ws. reader s = Sending w ws \<longrightarrow>
      pool_step False cfg s (s\<lparr>reader := Enqueueing ws, work_queue := work_queue s @ [w]\<rparr>)) \<and>
    \<not> panicked s \<and>
    int (length (work_queue s) + sending (reader s) + claimed (reader s) + length (filter is_busy (workers s))) \<le>
      BUCKET_SIZE cfg + int n"
proof -
  have r: "reader_inv cfg n s" using reader_inv_steps [OF assms(2) reader_inv_start [OF assms(1)]] .
  have "pool_step False cfg s (s\<lparr>reader := Enqueueing ws, work_queue := work_queue s @ [w]\<rparr>)"
    if "reader s = Sending w ws" for w ws
    using r that by (intro pool_step.batch_send) (auto simp: reader_inv_def pool_inv_def sending_def claimed_def)
  with r show ?thesis by (auto simp: reader_inv_def pool_inv_def)
qed

theorem reader_never_blocks_witness:
  "\<not> panicked ((pool_start 1 () ())\<lparr>reader := Claiming\<rparr>)"
proof -
  have "pool_steps False example_schedule_config (pool_start 1 () ()) ((pool_start 1 () ())\<lparr>reader := Claiming\<rparr>)"
    by (rule r_into_rtranclp, rule pool_step.reader_tick) (simp add: pool_start_def)
  from reader_never_blocks [OF _ this] show ?thesis by (simp add: example_schedule_config_def)
qed

lemma cancelled_posts:
  "pool_steps True cfg s (s\<lparr>workQueueSize := workQueueSize s + int k, leaked := leaked s + k\<rparr>)"
proof (induction k)
  case 0
  then show ?case by simp
next
  case (Suc k)
  let ?s = "s\<lparr>workQueueSize := workQueueSize s + int k, leaked := leaked s + k\<rparr>"
  let ?w = "example_work ''a'' 0"
  let ?p = "?s\<lparr>posters := ?w # posters ?s, workQueueSize := workQueueSize ?s + 1\<rparr>"
  have "pool_step True cfg ?s ?p" by (rule pool_step.post_start) simp
  moreover have "pool_step True cfg ?p (?p\<lparr>posters := remove1 ?w (posters ?p), leaked := leaked ?p + 1\<rparr>)"
    by (rule pool_step.post_cancel) simp
  moreover have "?p\<lparr>posters := remove1 ?w (posters ?p), leaked := leaked ?p + 1\<rparr> =
      s\<lparr>workQueueSize := workQueueSize s + int (Suc k), leaked := leaked s + Suc k\<rparr>" by simp
  ultimately show ?case using Suc by (metis (no_types, lifting) rtranclp.rtrancl_into_rtrancl)
qed

text \<open>
  Capacity that a cancelled caller takes is never given back. From the start the scheduler can reach a state in which
  nothing is queued, running, stopped or ended, and from which no sequence of steps ever leaves
  room for a claim: the reader finds no room for ever and due works are not read any more. It takes
  as many posts to the queue with a cancelled context as the bucket has places.
\<close>

theorem cancelled_posts_starve_reader:
  "\<exists>s. pool_steps True (cfg\<lparr>BUCKET_SIZE := int b\<rparr>) (pool_start n d c) s \<and>
     work_queue s = [] \<and> runningWorkCount s = 0 \<and> posters s = [] \<and> \<not> stopped s \<and> \<not> ctx_done s \<and> \<not> queue_closed s \<and>
     (\<forall>s'. pool_steps True (cfg\<lparr>BUCKET_SIZE := int b\<rparr>) s s' \<longrightarrow> claim_limit (cfg\<lparr>BUCKET_SIZE := int b\<rparr>) s' \<le> 0)"
proof -
  let ?cfg = "cfg\<lparr>BUCKET_SIZE := int b\<rparr>"
  let ?p0 = "pool_start n d c"
  let ?s = "?p0\<lparr>workQueueSize := workQueueSize ?p0 + int b, leaked := leaked ?p0 + b\<rparr>"
  have steps: "pool_steps True ?cfg ?p0 ?s" by (rule cancelled_posts)
  have "claim_limit ?cfg s' \<le> 0" if "pool_steps True ?cfg ?s s'" for s'
  proof -
    have "pool_inv ?cfg n s'" using pool_inv_steps [OF rtranclp_trans [OF steps that] pool_inv_start] .
    moreover have "b \<le> leaked s'" using leaked_mono [OF that] by simp
    ultimately show ?thesis by (simp add: claim_limit_def pool_inv_def)
  qed
  with steps show ?thesis by (intro exI [of _ ?s]) (auto simp: pool_start_def)
qed

theorem cancelled_posts_starve_reader_witness:
  "\<exists>s. pool_steps True (example_schedule_config\<lparr>BUCKET_SIZE := int 2\<rparr>) (pool_start 8 () ()) s \<and>
     claim_limit (example_schedule_config\<lparr>BUCKET_SIZE := int 2\<rparr>) s \<le> 0 \<and> work_queue s = []"
  using cancelled_posts_starve_reader [where cfg = example_schedule_config and b = 2 and n = 8 and d = "()" and c = "()"]
  by blast

text \<open>
  When the context of the scheduler ends, the reader closes the queue although the scheduler is
  not stopped; a caller that posts to the queue afterwards sends on a closed channel and panics.
\<close>

theorem post_after_context_end_panics:
  "\<exists>s s'. pool_steps True cfg (pool_start n d c) s \<and> \<not> stopped s \<and> pool_step True cfg s s' \<and> panicked s' \<and> \<not> panicked s"
proof -
  let ?p0 = "pool_start n d c"
  let ?p1 = "?p0\<lparr>ctx_done := True\<rparr>"
  let ?p2 = "?p1\<lparr>reader := ReaderGone, queue_closed := True\<rparr>"
  let ?w = "example_work ''a'' 0"
  let ?p3 = "?p2\<lparr>posters := ?w # posters ?p2, workQueueSize := workQueueSize ?p2 + 1\<rparr>"
  have "pool_step True cfg ?p0 ?p1" by (rule pool_step.context_end)
  moreover have "pool_step True cfg ?p1 ?p2" by (rule pool_step.reader_exit) (simp_all add: pool_start_def)
  moreover have "pool_step True cfg ?p2 ?p3" by (rule pool_step.post_start) simp
  moreover have "pool_step True cfg ?p3 (?p3\<lparr>panicked := True\<rparr>)" by (rule pool_step.post_panic [of ?w]) simp_all
  ultimately show ?thesis
    by (intro exI [of _ ?p3] exI [of _ "?p3\<lparr>panicked := True\<rparr>"])
      (auto simp: pool_start_def intro: rtranclp.rtrancl_into_rtrancl)
qed

end
