(* ===== verification/FanIns.thy ===== *)
theory FanIns
  imports Prelude
begin

section \<open>Fan-in of channels, feeders and subscribers\<close>

text \<open>
  Models \<^verbatim>\<open>pkg/message_queue/fan_in.go\<close>, \<^verbatim>\<open>feeder_fan_in.go\<close> and \<^verbatim>\<open>subscriber_fun_in.go\<close>. The sections
  under the mutex are functions on the state; the goroutines, one per input, and the
  waiting parts of \<open>RemoveInput\<close> and \<open>Close\<close> are rules of a step relation. A channel is a number with its buffered values; the
  output has a buffer of one. Steps of the environment (producers, the receiver, callers and
  the outer context) are marked, so that what the fan-in does on its own can be stated.
  Histories of the values taken and sent are kept beside the state of the code.
\<close>

subsection \<open>State and operations\<close>

datatype 'v worker_pos = Selecting | Offering 'v | Exited

text \<open>A worker with its input, whether its own context is cancelled, and its position; its \<open>done\<close> channel is closed when it has exited.\<close>

record 'v workerHandle =
  input :: nat
  cancelled :: bool
  pos :: "'v worker_pos"

record 'v FanInBase =
  fan_out :: "'v list"
  out_closed :: bool
  done_closed :: bool
  fan_workers :: "(nat, nat) gomap"
  handles :: "'v workerHandle list"
  ctx_cancelled :: bool
  started :: bool
  closed :: bool
  closing :: bool
  wg :: nat

definition NewFanIn :: "'v FanInBase" where
  "NewFanIn = \<lparr>fan_out = [], out_closed = False, done_closed = False, fan_workers = [], handles = [],
     ctx_cancelled = False, started = False, closed = False, closing = False, wg = 0\<rparr>"

definition FanIn_Run :: "('v, 'z) FanInBase_scheme \<Rightarrow> ('v, 'z) FanInBase_scheme" where
  "FanIn_Run f = (if started f \<or> closed f then f else f\<lparr>started := True\<rparr>)"

definition AddInput :: "nat \<Rightarrow> ('v, 'z) FanInBase_scheme \<Rightarrow> ('v, 'z) FanInBase_scheme" where
  "AddInput ch f =
     (if \<not> started f \<or> closed f then f
      else if map_of (fan_workers f) ch \<noteq> None then f
      else f\<lparr>fan_workers := AList.update ch (length (handles f)) (fan_workers f),
             handles := handles f @ [\<lparr>input = ch, cancelled = False, pos = Selecting\<rparr>],
             wg := wg f + 1\<rparr>)"

text \<open>\<open>RemoveInput\<close> gives the worker it then waits for.\<close>

definition RemoveInput :: "nat \<Rightarrow> ('v, 'z) FanInBase_scheme \<Rightarrow> nat option \<times> ('v, 'z) FanInBase_scheme" where
  "RemoveInput ch f =
     (case map_of (fan_workers f) ch of
        None \<Rightarrow> (None, f)
      | Some i \<Rightarrow> (Some i, f\<lparr>fan_workers := AList.delete ch (fan_workers f),
          handles := (handles f)[i := (handles f ! i)\<lparr>cancelled := True\<rparr>]\<rparr>))"

text \<open>The body of \<open>Close\<close> runs once; it cancels the context if \<open>Run\<close> made one and then waits for the workers.\<close>

definition Close_begin :: "('v, 'z) FanInBase_scheme \<Rightarrow> ('v, 'z) FanInBase_scheme" where
  "Close_begin f =
     (if closed f then f
      else f\<lparr>closed := True, fan_workers := [], ctx_cancelled := ctx_cancelled f \<or> started f, closing := True\<rparr>)"

definition Close_end :: "('v, 'z) FanInBase_scheme \<Rightarrow> ('v, 'z) FanInBase_scheme" where
  "Close_end f = f\<lparr>out_closed := True, done_closed := True, closing := False\<rparr>"

definition worker_exits :: "nat \<Rightarrow> ('v, 'z) FanInBase_scheme \<Rightarrow> ('v, 'z) FanInBase_scheme" where
  "worker_exits i f = f\<lparr>handles := (handles f)[i := (handles f ! i)\<lparr>pos := Exited\<rparr>], wg := wg f - 1\<rparr>"

subsection \<open>Steps\<close>

record 'v fan_state = "'v FanInBase" +
  chan_values :: "nat \<Rightarrow> 'v list"
  chan_closed :: "nat \<Rightarrow> bool"
  taken :: "(nat \<times> 'v) list"
  sent :: "(nat \<times> 'v) list"
  received :: "'v list"
  panicked :: bool

definition fan_start :: "'v fan_state" where
  "fan_start = FanInBase.extend NewFanIn
     \<lparr>chan_values = (\<lambda>_. []), chan_closed = (\<lambda>_. False), taken = [], sent = [], received = [], panicked = False\<rparr>"

definition worker_done :: "nat \<Rightarrow> 'v fan_state \<Rightarrow> bool" where
  "worker_done i s \<longleftrightarrow> cancelled (handles s ! i) \<or> ctx_cancelled s"

inductive fan_step :: "bool \<Rightarrow> 'v fan_state \<Rightarrow> 'v fan_state \<Rightarrow> bool" for env where
  run: "env \<Longrightarrow> fan_step env s (FanIn_Run s)"
| add_input: "env \<Longrightarrow> fan_step env s (AddInput ch s)"
| remove_input: "env \<Longrightarrow> fan_step env s (snd (RemoveInput ch s))"
| context_end: "env \<Longrightarrow> started s \<Longrightarrow> fan_step env s (s\<lparr>ctx_cancelled := True\<rparr>)"
| close_begin: "env \<Longrightarrow> fan_step env s (Close_begin s)"
| close_end: "closing s \<Longrightarrow> wg s = 0 \<Longrightarrow> fan_step env s (Close_end s)"
| worker_takes: "i < length (handles s) \<Longrightarrow> pos (handles s ! i) = Selecting \<Longrightarrow>
    chan_values s (input (handles s ! i)) = v # vs \<Longrightarrow>
    fan_step env s (s\<lparr>handles := (handles s)[i := (handles s ! i)\<lparr>pos := Offering v\<rparr>],
      chan_values := (chan_values s)(input (handles s ! i) := vs), taken := taken s @ [(i, v)]\<rparr>)"
| worker_ends: "i < length (handles s) \<Longrightarrow> pos (handles s ! i) = Selecting \<Longrightarrow>
    chan_values s (input (handles s ! i)) = [] \<Longrightarrow> chan_closed s (input (handles s ! i)) \<Longrightarrow>
    fan_step env s (worker_exits i s)"
| worker_stops: "i < length (handles s) \<Longrightarrow> pos (handles s ! i) \<noteq> Exited \<Longrightarrow> worker_done i s \<Longrightarrow>
    fan_step env s (worker_exits i s)"
| worker_sends: "i < length (handles s) \<Longrightarrow> pos (handles s ! i) = Offering v \<Longrightarrow> \<not> out_closed s \<Longrightarrow> fan_out s = [] \<Longrightarrow>
    fan_step env s (s\<lparr>handles := (handles s)[i := (handles s ! i)\<lparr>pos := Selecting\<rparr>],
      fan_out := [v], sent := sent s @ [(i, v)]\<rparr>)"
| worker_panics: "i < length (handles s) \<Longrightarrow> pos (handles s ! i) = Offering v \<Longrightarrow> out_closed s \<Longrightarrow>
    fan_step env s (s\<lparr>panicked := True\<rparr>)"
| receive: "env \<Longrightarrow> fan_out s = v # vs \<Longrightarrow> fan_step env s (s\<lparr>fan_out := vs, received := received s @ [v]\<rparr>)"
| produce: "env \<Longrightarrow> fan_step env s (s\<lparr>chan_values := (chan_values s)(ch := chan_values s ch @ [v])\<rparr>)"
| close_input: "env \<Longrightarrow> fan_step env s (s\<lparr>chan_closed := (chan_closed s)(ch := True)\<rparr>)"

abbreviation fan_steps :: "bool \<Rightarrow> 'v fan_state \<Rightarrow> 'v fan_state \<Rightarrow> bool" where
  "fan_steps env \<equiv> (fan_step env)\<^sup>*\<^sup>*"

subsection \<open>The invariant\<close>

definition exited :: "'v workerHandle \<Rightarrow> bool" where "exited w \<longleftrightarrow> (case pos w of Exited \<Rightarrow> True | _ \<Rightarrow> False)"

definition values_of :: "nat \<Rightarrow> (nat \<times> 'v) list \<Rightarrow> 'v list" where
  "values_of i h = map snd (filter (\<lambda>e. fst e = i) h)"

text \<open>What a worker has taken is what it has sent and the value it offers, or one value lost when it stopped.\<close>

definition in_order :: "'v list \<Rightarrow> 'v list \<Rightarrow> 'v worker_pos \<Rightarrow> bool" where
  "in_order tk sn p \<longleftrightarrow>
     (case p of Selecting \<Rightarrow> tk = sn | Offering v \<Rightarrow> tk = sn @ [v] | Exited \<Rightarrow> tk = sn \<or> (\<exists>v. tk = sn @ [v]))"

definition fan_ctl :: "'v fan_state \<Rightarrow> bool" where
  "fan_ctl s \<longleftrightarrow>
     wg s = length (filter (\<lambda>w. \<not> exited w) (handles s)) \<and>
     (out_closed s \<longrightarrow> wg s = 0) \<and> (done_closed s \<longleftrightarrow> out_closed s) \<and>
     (closing s \<longleftrightarrow> closed s \<and> \<not> out_closed s) \<and> (out_closed s \<longrightarrow> closed s) \<and>
     (handles s \<noteq> [] \<longrightarrow> started s) \<and> (closed s \<and> started s \<longrightarrow> ctx_cancelled s) \<and>
     \<not> panicked s"

definition fan_hist :: "'v fan_state \<Rightarrow> bool" where
  "fan_hist s \<longleftrightarrow>
     map snd (sent s) = received s @ fan_out s \<and> length (fan_out s) \<le> 1 \<and>
     (\<forall>i < length (handles s). in_order (values_of i (taken s)) (values_of i (sent s)) (pos (handles s ! i))) \<and>
     (\<forall>e \<in> set (taken s @ sent s). fst e < length (handles s))"

definition fan_map :: "'v fan_state \<Rightarrow> bool" where
  "fan_map s \<longleftrightarrow> (closed s \<longrightarrow> fan_workers s = []) \<and>
     (\<forall>ch i. map_of (fan_workers s) ch = Some i \<longrightarrow> i < length (handles s) \<and> input (handles s ! i) = ch)"

definition fan_inv :: "'v fan_state \<Rightarrow> bool" where
  "fan_inv s \<longleftrightarrow> fan_ctl s \<and> fan_hist s \<and> fan_map s"

lemma in_order_simps [simp]:
  "in_order tk sn Selecting \<longleftrightarrow> tk = sn" "in_order tk sn (Offering v) \<longleftrightarrow> tk = sn @ [v]"
  by (simp_all add: in_order_def)

lemma in_order_Exited: "in_order tk sn p \<Longrightarrow> in_order tk sn Exited"
  by (cases p) (auto simp: in_order_def)

lemma values_of_simps [simp]:
  "values_of i [] = []" "values_of i (h @ [(j, v)]) = values_of i h @ (if i = j then [v] else [])"
  by (simp_all add: values_of_def)

lemma values_of_fresh: "\<forall>e \<in> set h. fst e < i \<Longrightarrow> values_of i h = []"
  by (auto simp: values_of_def filter_empty_conv)

lemma live_update:
  assumes "i < length hs"
  shows "length (filter (\<lambda>w. \<not> exited w) (hs[i := w])) + (if exited (hs ! i) then 0 else 1) =
    length (filter (\<lambda>w. \<not> exited w) hs) + (if exited w then 0 else 1)"
proof -
  have "length (filter (\<lambda>w. \<not> exited w) hs) = length (filter (\<lambda>w. \<not> exited w) (take i hs)) + (if exited (hs ! i) then 0 else 1) +
      length (filter (\<lambda>w. \<not> exited w) (drop (Suc i) hs))"
    by (subst id_take_nth_drop [OF assms]) simp
  then show ?thesis by (simp add: upd_conv_take_nth_drop [OF assms])
qed

lemma exited_iff: "exited w \<longleftrightarrow> pos w = Exited"
  by (simp add: exited_def split: worker_pos.splits)

lemma live_none: "length (filter (\<lambda>w. \<not> exited w) hs) = 0 \<Longrightarrow> i < length hs \<Longrightarrow> pos (hs ! i) = Exited"
  by (auto simp: filter_empty_conv exited_iff)

lemma fan_inv_start: "fan_inv fan_start"
  by (simp add: fan_inv_def fan_ctl_def fan_hist_def fan_map_def fan_start_def NewFanIn_def FanInBase.defs)

lemma nth_handle_update [simp]:
  "j < length hs \<Longrightarrow> input (hs[i := (hs ! i)\<lparr>pos := p\<rparr>] ! j) = input (hs ! j)"
  "j < length hs \<Longrightarrow> input (hs[i := (hs ! i)\<lparr>cancelled := b\<rparr>] ! j) = input (hs ! j)"
  "j < length hs \<Longrightarrow> pos (hs[i := (hs ! i)\<lparr>cancelled := b\<rparr>] ! j) = pos (hs ! j)"
  "j < length hs \<Longrightarrow> cancelled (hs ! j) \<Longrightarrow> cancelled (hs[i := (hs ! i)\<lparr>cancelled := True\<rparr>] ! j)"
  by (cases "i = j"; simp)+

lemma fan_inv_AddInput: "fan_inv s \<Longrightarrow> fan_inv (AddInput ch s)"
proof (cases "started s \<and> \<not> closed s \<and> map_of (fan_workers s) ch = None")
  case True
  assume inv: "fan_inv s"
  let ?s = "AddInput ch s"
  have s: "?s = s\<lparr>fan_workers := AList.update ch (length (handles s)) (fan_workers s),
      handles := handles s @ [\<lparr>input = ch, cancelled = False, pos = Selecting\<rparr>], wg := wg s + 1\<rparr>"
    using True by (simp add: AddInput_def)
  have "fan_ctl ?s" using inv True unfolding s fan_inv_def fan_ctl_def by (simp add: exited_iff)
  moreover have "values_of (length (handles s)) (taken s) = []" "values_of (length (handles s)) (sent s) = []"
    using inv by (auto simp: fan_inv_def fan_hist_def intro!: values_of_fresh)
  then have "fan_hist ?s" using inv unfolding s fan_inv_def fan_hist_def
    by (auto simp: nth_append less_Suc_eq)
  moreover have "fan_map ?s" using inv True unfolding s fan_inv_def fan_map_def
    by (force simp: gomap nth_append split: if_splits)
  ultimately show ?thesis by (simp add: fan_inv_def)
qed (auto simp: AddInput_def)

lemma fan_inv_RemoveInput: "fan_inv s \<Longrightarrow> fan_inv (snd (RemoveInput ch s))"
proof (cases "map_of (fan_workers s) ch")
  case (Some i)
  assume inv: "fan_inv s"
  let ?s = "snd (RemoveInput ch s)"
  have i: "i < length (handles s)" using inv Some by (simp add: fan_inv_def fan_map_def)
  have s: "?s = s\<lparr>fan_workers := AList.delete ch (fan_workers s), handles := (handles s)[i := (handles s ! i)\<lparr>cancelled := True\<rparr>]\<rparr>"
    using Some by (simp add: RemoveInput_def)
  have "fan_ctl ?s" using inv live_update [OF i, of "(handles s ! i)\<lparr>cancelled := True\<rparr>"] unfolding s fan_inv_def fan_ctl_def
    by (auto simp: exited_iff)
  moreover have "fan_hist ?s" using inv i unfolding s fan_inv_def fan_hist_def by simp
  moreover have "fan_map ?s" using inv unfolding s fan_inv_def fan_map_def
    by (auto simp: gomap split: if_splits)
  ultimately show ?thesis by (simp add: fan_inv_def)
qed (simp add: RemoveInput_def)

text \<open>A worker that moves changes its position only.\<close>

lemma fan_map_pos: "fan_map s \<Longrightarrow> fan_map (s\<lparr>handles := (handles s)[i := (handles s ! i)\<lparr>pos := p\<rparr>]\<rparr>)"
  by (auto simp: fan_map_def)

lemma live_pos:
  assumes "i < length (handles s)" "p \<noteq> Exited" "pos (handles s ! i) \<noteq> Exited"
  shows "length (filter (\<lambda>w. \<not> exited w) ((handles s)[i := (handles s ! i)\<lparr>pos := p\<rparr>])) =
    length (filter (\<lambda>w. \<not> exited w) (handles s))"
  using live_update [OF assms(1), of "(handles s ! i)\<lparr>pos := p\<rparr>"] assms(2,3) by (simp add: exited_iff)

lemma fan_inv_worker_exits:
  assumes "fan_inv s" "i < length (handles s)" "pos (handles s ! i) \<noteq> Exited"
  shows "fan_inv (worker_exits i s)"
proof -
  let ?s = "worker_exits i s"
  have e: "in_order (values_of i (taken s)) (values_of i (sent s)) Exited"
    using assms(1,2) in_order_Exited unfolding fan_inv_def fan_hist_def by blast
  have "length (filter (\<lambda>w. \<not> exited w) ((handles s)[i := (handles s ! i)\<lparr>pos := Exited\<rparr>])) = wg s - 1"
    using live_update [OF assms(2), of "(handles s ! i)\<lparr>pos := Exited\<rparr>"] assms(1,3)
    by (simp add: exited_iff fan_inv_def fan_ctl_def)
  then have "fan_ctl ?s" using assms(1) unfolding fan_inv_def fan_ctl_def worker_exits_def by auto
  moreover have "fan_hist ?s" using assms e unfolding fan_inv_def fan_hist_def worker_exits_def
    by (auto simp: nth_list_update)
  moreover have "fan_map ?s" using assms(1) fan_map_pos [of s i Exited] by (simp add: fan_inv_def worker_exits_def fan_map_def)
  ultimately show ?thesis by (simp add: fan_inv_def)
qed

lemma fan_inv_takes:
  assumes "fan_inv s" "i < length (handles s)" "pos (handles s ! i) = Selecting"
  shows "fan_inv (s\<lparr>handles := (handles s)[i := (handles s ! i)\<lparr>pos := Offering v\<rparr>], chan_values := c, taken := taken s @ [(i, v)]\<rparr>)"
    (is "fan_inv ?s")
proof -
  have "fan_ctl ?s" using assms live_pos [of i s "Offering v"] by (auto simp: fan_inv_def fan_ctl_def)
  moreover have "fan_hist ?s" using assms by (auto simp: fan_inv_def fan_hist_def nth_list_update)
  moreover have "fan_map ?s" using assms(1) fan_map_pos [of s i "Offering v"] by (simp add: fan_inv_def fan_map_def)
  ultimately show ?thesis by (simp add: fan_inv_def)
qed

lemma fan_inv_sends:
  assumes "fan_inv s" "i < length (handles s)" "pos (handles s ! i) = Offering v" "fan_out s = []"
  shows "fan_inv (s\<lparr>handles := (handles s)[i := (handles s ! i)\<lparr>pos := Selecting\<rparr>], fan_out := [v], sent := sent s @ [(i, v)]\<rparr>)"
    (is "fan_inv ?s")
proof -
  have "fan_ctl ?s" using assms live_pos [of i s Selecting] by (auto simp: fan_inv_def fan_ctl_def)
  moreover have "in_order (values_of i (taken s)) (values_of i (sent s)) (Offering v)"
    using assms(1,2) unfolding fan_inv_def fan_hist_def assms(3) [symmetric] by blast
  then have "fan_hist ?s" using assms(1,2,4) by (auto simp: fan_inv_def fan_hist_def nth_list_update)
  moreover have "fan_map ?s" using assms(1) fan_map_pos [of s i Selecting] by (simp add: fan_inv_def fan_map_def)
  ultimately show ?thesis by (simp add: fan_inv_def)
qed

lemma fan_inv_step: "fan_step env s s' \<Longrightarrow> fan_inv s \<Longrightarrow> fan_inv s'"
proof (induction rule: fan_step.induct)
  case (worker_panics i s v)
  then show ?case using live_none [of "handles s" i] by (auto simp: fan_inv_def fan_ctl_def)
next
  case (close_begin s)
  then show ?case by (auto simp: fan_inv_def fan_ctl_def fan_hist_def fan_map_def Close_begin_def)
next
  case (close_end s)
  then show ?case by (simp add: fan_inv_def fan_ctl_def fan_hist_def fan_map_def Close_end_def)
next
  case (run s)
  then show ?case by (auto simp: fan_inv_def fan_ctl_def fan_hist_def fan_map_def FanIn_Run_def)
next
  case (context_end s)
  then show ?case by (auto simp: fan_inv_def fan_ctl_def fan_hist_def fan_map_def)
next
  case (receive s v vs)
  then show ?case by (auto simp: fan_inv_def fan_ctl_def fan_hist_def fan_map_def)
next
  case (produce s ch v)
  then show ?case by (auto simp: fan_inv_def fan_ctl_def fan_hist_def fan_map_def)
next
  case (close_input s ch)
  then show ?case by (auto simp: fan_inv_def fan_ctl_def fan_hist_def fan_map_def)
qed (simp_all add: fan_inv_AddInput fan_inv_RemoveInput fan_inv_worker_exits fan_inv_takes fan_inv_sends)

lemma fan_inv_steps: "fan_steps env s s' \<Longrightarrow> fan_inv s \<Longrightarrow> fan_inv s'"
  by (induction rule: rtranclp_induct) (auto intro: fan_inv_step)

lemma exited_step:
  assumes "fan_step env s s'" "i < length (handles s)" "pos (handles s ! i) = Exited"
  shows "i < length (handles s') \<and> pos (handles s' ! i) = Exited \<and> values_of i (sent s') = values_of i (sent s)"
  using assms
  by (induction rule: fan_step.induct)
    (auto simp: FanIn_Run_def AddInput_def RemoveInput_def Close_begin_def Close_end_def worker_exits_def
      nth_append nth_list_update split: option.splits)

lemma exited_steps:
  assumes "fan_steps env s s'" "i < length (handles s)" "pos (handles s ! i) = Exited"
  shows "i < length (handles s') \<and> pos (handles s' ! i) = Exited \<and> values_of i (sent s') = values_of i (sent s)"
  using assms by (induction rule: rtranclp_induct) (auto dest: exited_step)

lemma cancelled_step:
  assumes "fan_step env s s'" "i < length (handles s)" "cancelled (handles s ! i)"
  shows "i < length (handles s') \<and> cancelled (handles s' ! i)"
  using assms
  by (induction rule: fan_step.induct)
    (auto simp: FanIn_Run_def AddInput_def RemoveInput_def Close_begin_def Close_end_def worker_exits_def
      nth_append nth_list_update split: option.splits)

lemma cancelled_steps:
  assumes "fan_steps env s s'" "i < length (handles s)" "cancelled (handles s ! i)"
  shows "i < length (handles s') \<and> cancelled (handles s' ! i)"
  using assms by (induction rule: rtranclp_induct) (auto dest: cancelled_step)

lemma close_drains:
  assumes "fan_inv s" "closing s"
  shows "\<exists>s'. fan_steps False s s' \<and> out_closed s' \<and> done_closed s' \<and> sent s' = sent s"
  using assms
proof (induction "wg s" arbitrary: s)
  case 0
  then have "fan_step False s (Close_end s)" by (intro fan_step.close_end) simp_all
  then show ?case by (intro exI [of _ "Close_end s"]) (auto simp: Close_end_def)
next
  case (Suc k)
  then have "filter (\<lambda>w. \<not> exited w) (handles s) \<noteq> []" by (auto simp: fan_inv_def fan_ctl_def)
  then obtain i where i: "i < length (handles s)" "pos (handles s ! i) \<noteq> Exited"
    by (auto simp: filter_empty_conv exited_iff in_set_conv_nth)
  have "ctx_cancelled s" using Suc.prems i by (auto simp: fan_inv_def fan_ctl_def)
  then have st: "fan_step False s (worker_exits i s)" using i by (intro fan_step.worker_stops) (simp_all add: worker_done_def)
  have "\<exists>s'. fan_steps False (worker_exits i s) s' \<and> out_closed s' \<and> done_closed s' \<and> sent s' = sent (worker_exits i s)"
    using Suc.hyps(2) Suc.prems fan_inv_step [OF st] by (intro Suc.hyps(1)) (simp_all add: worker_exits_def)
  moreover have "sent (worker_exits i s) = sent s" by (simp add: worker_exits_def)
  ultimately show ?case using st by (metis converse_rtranclp_into_rtranclp)
qed

subsection \<open>Properties of the fan-in\<close>

text \<open>
  C12: in every reachable state of a fan-in nothing has panicked, and what was received and what waits
  in the output is exactly what the workers sent, in the order they sent it. Of each input
  the worker has sent a prefix of what it took, in order, and at most one value taken is not
  sent: the one it offers, or the one it held when it stopped. Once the output is closed all workers have ended.
\<close>

theorem fan_in_keeps_order:
  assumes "fan_steps True fan_start s"
  shows "\<not> panicked s \<and> map snd (sent s) = received s @ fan_out s \<and>
    (\<forall>i < length (handles s). in_order (values_of i (taken s)) (values_of i (sent s)) (pos (handles s ! i))) \<and>
    (done_closed s \<longleftrightarrow> out_closed s) \<and> (out_closed s \<longrightarrow> (\<forall>i < length (handles s). pos (handles s ! i) = Exited))"
proof -
  have "fan_inv s" using fan_inv_steps [OF assms fan_inv_start] .
  then show ?thesis using live_none [of "handles s"] by (auto simp: fan_inv_def fan_ctl_def fan_hist_def)
qed

theorem fan_in_keeps_order_witness:
  "received (AddInput 1 (FanIn_Run (fan_start :: nat fan_state))) = []"
proof -
  have "fan_step True fan_start (FanIn_Run (fan_start :: nat fan_state))"
    "fan_step True (FanIn_Run fan_start) (AddInput 1 (FanIn_Run (fan_start :: nat fan_state)))"
    by (simp_all add: fan_step.run fan_step.add_input)
  then have "fan_steps True fan_start (AddInput 1 (FanIn_Run (fan_start :: nat fan_state)))" by simp
  from fan_in_keeps_order [OF this] show ?thesis
    by (simp add: AddInput_def FanIn_Run_def fan_start_def NewFanIn_def FanInBase.defs)
qed

text \<open>
  Removing an input silences it. The worker that \<open>RemoveInput\<close> waits for reads that input, can
  end at any later moment without the help of producers or the receiver, and after it has ended, which is when
  the call returns, nothing more of it is ever sent. The input can then be added again.
\<close>

theorem remove_input_silences:
  assumes "fan_steps True fan_start s" and "RemoveInput ch s = (Some i, s1)" and "fan_steps True s1 s2"
  shows "input (handles s ! i) = ch \<and> map_of (fan_workers s1) ch = None \<and>
    (pos (handles s2 ! i) = Exited \<or> fan_step False s2 (worker_exits i s2)) \<and>
    (pos (handles s2 ! i) = Exited \<longrightarrow> (\<forall>s3. fan_steps True s2 s3 \<longrightarrow> values_of i (sent s3) = values_of i (sent s2)))"
proof -
  have inv: "fan_inv s" using fan_inv_steps [OF assms(1) fan_inv_start] .
  have m: "map_of (fan_workers s) ch = Some i" and
    s1: "s1 = s\<lparr>fan_workers := AList.delete ch (fan_workers s), handles := (handles s)[i := (handles s ! i)\<lparr>cancelled := True\<rparr>]\<rparr>"
    using assms(2) by (auto simp: RemoveInput_def split: option.splits)
  have i: "i < length (handles s)" "input (handles s ! i) = ch" using inv m by (auto simp: fan_inv_def fan_map_def)
  have "i < length (handles s1)" "cancelled (handles s1 ! i)" using i by (simp_all add: s1)
  then have c: "i < length (handles s2)" "cancelled (handles s2 ! i)" using cancelled_steps [OF assms(3)] by auto
  have "pos (handles s2 ! i) = Exited \<or> fan_step False s2 (worker_exits i s2)"
    using c by (auto simp: worker_done_def intro: fan_step.worker_stops)
  moreover have "map_of (fan_workers s1) ch = None" by (simp add: s1 gomap)
  ultimately show ?thesis using i(2) exited_steps c(1) by blast
qed

theorem remove_input_silences_witness:
  "let s = AddInput 1 (FanIn_Run (fan_start :: nat fan_state)) in
   map_of (fan_workers (snd (RemoveInput 1 s))) 1 = None \<and> fst (RemoveInput 1 s) = Some 0"
proof -
  let ?s = "AddInput 1 (FanIn_Run (fan_start :: nat fan_state))"
  have "fan_step True fan_start (FanIn_Run (fan_start :: nat fan_state))"
    "fan_step True (FanIn_Run fan_start) ?s"
    by (simp_all add: fan_step.run fan_step.add_input)
  then have r: "fan_steps True fan_start ?s" by simp
  have e: "fst (RemoveInput 1 ?s) = Some 0"
    by (simp add: RemoveInput_def AddInput_def FanIn_Run_def fan_start_def NewFanIn_def FanInBase.defs)
  then have "RemoveInput 1 ?s = (Some 0, snd (RemoveInput 1 ?s))" by (cases "RemoveInput 1 ?s") simp
  from remove_input_silences [OF r this rtranclp.rtrancl_refl] e show ?thesis by (simp add: Let_def)
qed

text \<open>
  C39: closing ends. From every reachable state in which \<open>Close\<close> has begun, the fan-in can finish on its own, with no producer, receiver or
  caller taking part: all workers end, the output and the done channel are closed, and nothing more is sent.
  A close that has begun is never undone, and no input is accepted after it.
\<close>

theorem fan_in_close_ends:
  assumes "fan_steps True fan_start s" and "closing s"
  shows "(\<exists>s'. fan_steps False s s' \<and> out_closed s' \<and> done_closed s' \<and> sent s' = sent s) \<and> AddInput ch s = s"
  using close_drains [OF fan_inv_steps [OF assms(1) fan_inv_start] assms(2)]
    fan_inv_steps [OF assms(1) fan_inv_start] assms(2)
  by (simp add: AddInput_def fan_inv_def fan_ctl_def)

theorem fan_in_close_ends_witness:
  "\<exists>s'. fan_steps False (Close_begin (AddInput 1 (FanIn_Run (fan_start :: nat fan_state)))) s' \<and> out_closed s'"
proof -
  let ?s = "AddInput 1 (FanIn_Run (fan_start :: nat fan_state))"
  have "fan_step True fan_start (FanIn_Run (fan_start :: nat fan_state))" "fan_step True (FanIn_Run fan_start) ?s"
    "fan_step True ?s (Close_begin ?s)"
    by (simp_all add: fan_step.run fan_step.add_input fan_step.close_begin)
  then have r: "fan_steps True fan_start (Close_begin ?s)" by (meson r_into_rtranclp rtranclp_trans)
  have "closing (Close_begin ?s)"
    by (simp add: Close_begin_def AddInput_def FanIn_Run_def fan_start_def NewFanIn_def FanInBase.defs)
  from fan_in_close_ends [OF r this] show ?thesis by blast
qed

subsection \<open>Feeders and subscribers\<close>

text \<open>
  A fan-in of feeders keeps the set of its feeders beside the inputs; \<open>chan\<close> is the channel of a feeder.
  \<open>Next\<close> asks the feeders of a snapshot of the set.
\<close>

record ('v, 'f) FeederFanInBase = "'v FanInBase" +
  feeders :: "'f list"

definition NewFeederFanIn :: "('v, 'f) FeederFanInBase" where
  "NewFeederFanIn = FanInBase.extend NewFanIn \<lparr>feeders = []\<rparr>"

definition AddFeeder :: "('f \<Rightarrow> nat) \<Rightarrow> 'f \<Rightarrow> ('v, 'f) FeederFanInBase \<Rightarrow> ('v, 'f) FeederFanInBase" where
  "AddFeeder chan feeder f =
     (if feeder \<in> set (feeders f) then f
      else AddInput (chan feeder) (f\<lparr>feeders := feeder # feeders f\<rparr>))"

definition RemoveFeeder :: "('f \<Rightarrow> nat) \<Rightarrow> 'f \<Rightarrow> ('v, 'f) FeederFanInBase \<Rightarrow> nat option \<times> ('v, 'f) FeederFanInBase" where
  "RemoveFeeder chan feeder f = RemoveInput (chan feeder) (f\<lparr>feeders := removeAll feeder (feeders f)\<rparr>)"

definition Feeders_Next :: "('v, 'f) FeederFanInBase \<Rightarrow> 'f list" where
  "Feeders_Next f = feeders f"

text \<open>
  A feeder that is added before the fan-in runs is recorded and asked for messages, but its channel is
  never merged: the input is refused because the fan-in has not started, and adding the feeder
  again after the start does nothing because it is recorded. Removing it first is the only way out.
\<close>

theorem feeder_added_before_run_is_lost:
  "let f = AddFeeder chan feeder (FanIn_Run (AddFeeder chan feeder (NewFeederFanIn :: ('v, 'f) FeederFanInBase))) in
   started f \<and> Feeders_Next f = [feeder] \<and> fan_workers f = [] \<and> handles f = [] \<and>
   fan_workers (AddFeeder chan feeder (snd (RemoveFeeder chan feeder f))) = [(chan feeder, 0)]"
  by (simp add: Let_def AddFeeder_def RemoveFeeder_def RemoveInput_def AddInput_def FanIn_Run_def Feeders_Next_def
      NewFeederFanIn_def NewFanIn_def FanInBase.defs)

text \<open>
  A fan-in of subscribers unsubscribes every subscriber it lets go: when it is removed, when the fan-in
  is unsubscribed, and at once when it is added after that. \<open>unsubscribed\<close> lists the calls of \<open>Unsubscribe\<close>.
\<close>

record ('v, 's) SubscriberFanInBase = "'v FanInBase" +
  subscribers :: "'s list"
  sub_closed :: bool
  unsubscribed :: "'s list"

definition NewSubscriberFanIn :: "('v, 's) SubscriberFanInBase" where
  "NewSubscriberFanIn = FanInBase.extend NewFanIn \<lparr>subscribers = [], sub_closed = False, unsubscribed = []\<rparr>"

definition AddSubscriber :: "('s \<Rightarrow> nat) \<Rightarrow> 's \<Rightarrow> ('v, 's) SubscriberFanInBase \<Rightarrow> ('v, 's) SubscriberFanInBase" where
  "AddSubscriber chan subscriber f =
     (if sub_closed f then f\<lparr>unsubscribed := unsubscribed f @ [subscriber]\<rparr>
      else AddInput (chan subscriber) (f\<lparr>subscribers := List.insert subscriber (subscribers f)\<rparr>))"

definition RemoveSubscriber :: "('s \<Rightarrow> nat) \<Rightarrow> 's \<Rightarrow> ('v, 's) SubscriberFanInBase \<Rightarrow> nat option \<times> ('v, 's) SubscriberFanInBase" where
  "RemoveSubscriber chan subscriber f =
     (if subscriber \<notin> set (subscribers f) then (None, f)
      else case RemoveInput (chan subscriber) (f\<lparr>subscribers := removeAll subscriber (subscribers f)\<rparr>) of
             (i, f1) \<Rightarrow> (i, f1\<lparr>unsubscribed := unsubscribed f1 @ [subscriber]\<rparr>))"

definition FanIn_Unsubscribe :: "('v, 's) SubscriberFanInBase \<Rightarrow> ('v, 's) SubscriberFanInBase" where
  "FanIn_Unsubscribe f =
     (if sub_closed f then f
      else Close_begin (f\<lparr>sub_closed := True, unsubscribed := unsubscribed f @ subscribers f, subscribers := []\<rparr>))"

datatype 's sub_op = OpRun | OpAdd 's | OpRemove 's | OpUnsubscribe

fun sub_run :: "('s \<Rightarrow> nat) \<Rightarrow> 's sub_op list \<Rightarrow> ('v, 's) SubscriberFanInBase \<Rightarrow> ('v, 's) SubscriberFanInBase" where
  "sub_run chan [] f = f"
| "sub_run chan (OpRun # ops) f = sub_run chan ops (FanIn_Run f)"
| "sub_run chan (OpAdd x # ops) f = sub_run chan ops (AddSubscriber chan x f)"
| "sub_run chan (OpRemove x # ops) f = sub_run chan ops (snd (RemoveSubscriber chan x f))"
| "sub_run chan (OpUnsubscribe # ops) f = sub_run chan ops (FanIn_Unsubscribe f)"

lemma sub_frame [simp]:
  "subscribers (AddInput ch f) = subscribers f" "unsubscribed (AddInput ch f) = unsubscribed f" "sub_closed (AddInput ch f) = sub_closed f"
  "subscribers (FanIn_Run f) = subscribers f" "unsubscribed (FanIn_Run f) = unsubscribed f" "sub_closed (FanIn_Run f) = sub_closed f"
  "subscribers (snd (RemoveInput ch f)) = subscribers f" "unsubscribed (snd (RemoveInput ch f)) = unsubscribed f"
  "sub_closed (snd (RemoveInput ch f)) = sub_closed f"
  "subscribers (Close_begin f) = subscribers f" "unsubscribed (Close_begin f) = unsubscribed f" "sub_closed (Close_begin f) = sub_closed f"
  by (auto simp: AddInput_def FanIn_Run_def RemoveInput_def Close_begin_def split: option.splits)

lemma sub_run_spec:
  assumes "sub_closed f \<longrightarrow> subscribers f = []"
  shows "set (subscribers (sub_run chan ops f)) \<union> set (unsubscribed (sub_run chan ops f)) =
      set (subscribers f) \<union> set (unsubscribed f) \<union> {x. OpAdd x \<in> set ops} \<and>
    (sub_closed (sub_run chan ops f) \<longleftrightarrow> sub_closed f \<or> OpUnsubscribe \<in> set ops) \<and>
    (sub_closed (sub_run chan ops f) \<longrightarrow> subscribers (sub_run chan ops f) = [])"
  using assms
proof (induction chan ops f rule: sub_run.induct)
  case (3 chan x ops f)
  have "sub_closed (AddSubscriber chan x f) \<longrightarrow> subscribers (AddSubscriber chan x f) = []"
    using 3(2) by (simp add: AddSubscriber_def)
  from 3(1) [OF this] show ?case by (auto simp: AddSubscriber_def)
next
  case (4 chan x ops f)
  let ?f = "snd (RemoveSubscriber chan x f)"
  have f: "set (subscribers ?f) \<union> set (unsubscribed ?f) = set (subscribers f) \<union> set (unsubscribed f)" "sub_closed ?f = sub_closed f"
    "sub_closed ?f \<longrightarrow> subscribers ?f = []"
    using 4(2) by (auto simp: RemoveSubscriber_def case_prod_unfold)
  from 4(1) [OF f(3)] f(1,2) show ?case by simp
next
  case (5 chan ops f)
  have "sub_closed (FanIn_Unsubscribe f) \<longrightarrow> subscribers (FanIn_Unsubscribe f) = []"
    using 5(2) by (simp add: FanIn_Unsubscribe_def)
  from 5(1) [OF this] 5(2) show ?case by (auto simp: FanIn_Unsubscribe_def)
qed auto

text \<open>
  No subscription leaks: after any sequence of calls every subscriber that was added is either still
  subscribed or was unsubscribed, and once the fan-in is unsubscribed none is left subscribed,
  those added later included.
\<close>

theorem subscriptions_never_leak:
  "let f = sub_run chan ops (NewSubscriberFanIn :: ('v, 's) SubscriberFanInBase) in
   set (subscribers f) \<union> set (unsubscribed f) = {x. OpAdd x \<in> set ops} \<and>
   (if OpUnsubscribe \<in> set ops then subscribers f = [] \<and> set (unsubscribed f) = {x. OpAdd x \<in> set ops}
    else \<not> sub_closed f)"
proof -
  let ?n = "NewSubscriberFanIn :: ('v, 's) SubscriberFanInBase"
  have n: "subscribers ?n = []" "unsubscribed ?n = []" "\<not> sub_closed ?n"
    by (simp_all add: NewSubscriberFanIn_def NewFanIn_def FanInBase.defs)
  then have "sub_closed ?n \<longrightarrow> subscribers ?n = []" by simp
  from sub_run_spec [OF this, of chan ops] n show ?thesis by (auto simp: Let_def)
qed

end
