(* ===== verification/PathNames.thy ===== *)
theory PathNames
  imports Strings
begin

section \<open>Names and paths\<close>

text \<open>
  Models \<^verbatim>\<open>pkg/common/withnameandpath.go\<close>: objects with a path that is kept as a slice of sections, and
  parents that pass their sections to children. Appending to a slice may write into the array it
  shares with other slices, so slices are windows into arrays of a store. The number of spare places that the Go
  runtime adds when it grows a slice is an argument.
\<close>

subsection \<open>Splitting and joining\<close>

fun ConstructPath :: "string list \<Rightarrow> string \<Rightarrow> string" where
  "ConstructPath [] separator = []"
| "ConstructPath [s] separator = s"
| "ConstructPath (s # t # ss) separator = s @ separator @ ConstructPath (t # ss) separator"

subsection \<open>Slices\<close>

record Slice =
  arr :: nat
  off :: nat
  len :: nat

type_synonym arrays = "string list list"

definition slice_val :: "arrays \<Rightarrow> Slice \<Rightarrow> string list" where
  "slice_val h s = take (len s) (drop (off s) (h ! arr s))"

definition slice_wf :: "arrays \<Rightarrow> Slice \<Rightarrow> bool" where
  "slice_wf h s \<longleftrightarrow> arr s < length h \<and> off s + len s \<le> length (h ! arr s)"

definition new_slice :: "string list \<Rightarrow> arrays \<Rightarrow> Slice \<times> arrays" where
  "new_slice xs h = (\<lparr>arr = length h, off = 0, len = length xs\<rparr>, h @ [xs])"

definition go_append :: "nat \<Rightarrow> Slice \<Rightarrow> string list \<Rightarrow> arrays \<Rightarrow> Slice \<times> arrays" where
  "go_append spare s xs h =
     (let a = h ! arr s; e = off s + len s
      in if e + length xs \<le> length a
         then (s\<lparr>len := len s + length xs\<rparr>, h[arr s := take e a @ xs @ drop (e + length xs) a])
         else (\<lparr>arr = length h, off = 0, len = len s + length xs\<rparr>,
               h @ [slice_val h s @ xs @ replicate spare '''']))"

subsection \<open>Objects with paths\<close>

record WithPathBase =
  path :: string
  sections :: Slice
  separator :: string

definition adjustFirstSection :: "arrays \<Rightarrow> Slice \<Rightarrow> Slice" where
  "adjustFirstSection h s =
     (if len s > 0 \<and> hd (slice_val h s) = '''' then s\<lparr>off := off s + 1, len := len s - 1\<rparr> else s)"

definition Path_Init :: "string \<Rightarrow> string list \<Rightarrow> arrays \<Rightarrow> WithPathBase \<times> arrays" where
  "Path_Init p sep h =
     (let sp = OptionalArg ''/'' sep
      in case new_slice (Split p sp) h of (s, h') \<Rightarrow> (\<lparr>path = p, sections = s, separator = sp\<rparr>, h'))"

definition Sections :: "arrays \<Rightarrow> WithPathBase \<Rightarrow> string list" where
  "Sections h w = slice_val h (sections w)"

definition FullPath :: "arrays \<Rightarrow> WithPathBase \<Rightarrow> string" where
  "FullPath h w = ConstructPath (Sections h w) (separator w)"

definition Paths :: "arrays \<Rightarrow> WithPathBase \<Rightarrow> string list" where
  "Paths h w = ''/'' # map (\<lambda>i. ConstructPath (take (i + 1) (Sections h w)) (separator w)) [1..<length (Sections h w)]"

text \<open>The parent's sections must not be empty: the code indexes the last one and panics otherwise.\<close>

definition SetParent :: "nat \<Rightarrow> WithPathBase \<Rightarrow> WithPathBase \<Rightarrow> arrays \<Rightarrow> (WithPathBase \<times> arrays) option" where
  "SetParent spare parent w h =
     (let (s0, h1) = new_slice (Split (path w) (separator w)) h;
          s1 = adjustFirstSection h1 s0;
          ps = sections parent
      in if len ps = 0 then None
         else let last_section = last (slice_val h1 ps);
                  target = (if last_section = '''' then ps\<lparr>len := len ps - 1\<rparr> else ps);
                  (s2, h2) = go_append spare target (slice_val h1 s1) h1
              in Some (w\<lparr>sections := s2\<rparr>, h2))"

definition AddChild :: "nat \<Rightarrow> WithPathBase \<Rightarrow> WithPathBase \<Rightarrow> arrays \<Rightarrow> (WithPathBase \<times> arrays) option" where
  "AddChild spare w child h = SetParent spare w child h"

subsection \<open>Lemmas\<close>

lemma ConstructPath_Cons: "ss \<noteq> [] \<Longrightarrow> ConstructPath (s # ss) sep = s @ sep @ ConstructPath ss sep"
  by (cases ss) auto

lemma join_split: "ConstructPath (split_on sep acc s) sep = rev acc @ s"
proof (induction sep acc s rule: split_on.induct)
  case (1 sep acc s)
  show ?case
  proof (cases s)
    case Nil
    then show ?thesis by (simp add: split_on.simps)
  next
    case (Cons c cs)
    show ?thesis
    proof (cases "sep \<noteq> [] \<and> take (length sep) s = sep")
      case True
      then have "split_on sep acc s = rev acc # split_on sep [] (drop (length sep) s)"
        using Cons by (subst split_on.simps) (simp split: list.splits)
      moreover have "sep @ drop (length sep) s = s" using True by (metis append_take_drop_id)
      ultimately show ?thesis using 1(1) [OF Cons [symmetric, symmetric] True] by (simp add: ConstructPath_Cons)
    next
      case False
      then have "split_on sep acc s = split_on sep (c # acc) cs"
        using Cons by (subst split_on.simps) (auto split: list.splits)
      then show ?thesis using 1(2) [OF Cons False] Cons by simp
    qed
  qed
qed

lemma slice_val_new [simp]: "slice_val (snd (new_slice xs h)) (fst (new_slice xs h)) = xs"
  by (simp add: new_slice_def slice_val_def)

lemma slice_val_frame: "slice_wf h s \<Longrightarrow> slice_val (h @ x) s = slice_val h s"
  by (simp add: slice_wf_def slice_val_def nth_append)

text \<open>The sections a child contributes: those of its own path without a leading empty one.\<close>

definition own_sections :: "WithPathBase \<Rightarrow> string list" where
  "own_sections w = (let ss = Split (path w) (separator w) in if ss \<noteq> [] \<and> hd ss = '''' then tl ss else ss)"

lemma adjusted_sections:
  assumes "new_slice (Split (path w) (separator w)) h = (s0, h1)"
  shows "slice_val h1 (adjustFirstSection h1 s0) = own_sections w"
  using assms by (auto simp: new_slice_def adjustFirstSection_def own_sections_def slice_val_def Let_def take_Suc drop_Suc neq_Nil_conv)

subsection \<open>Properties\<close>

text \<open>
  The sections of a fresh object join to its path again, and its list of paths consists of the root and
  the joins of all longer prefixes of its sections.
\<close>

theorem path_sections_roundtrip:
  "FullPath (snd (Path_Init p [] h)) (fst (Path_Init p [] h)) = p \<and>
   length (Paths (snd (Path_Init p [] h)) (fst (Path_Init p [] h))) = length (Split p ''/'') \<and>
   (if length (Split p ''/'') > 1 then last (Paths (snd (Path_Init p [] h)) (fst (Path_Init p [] h))) = p
    else Paths (snd (Path_Init p [] h)) (fst (Path_Init p [] h)) = [''/''])"
proof -
  let ?h = "snd (Path_Init p [] h)" and ?w = "fst (Path_Init p [] h)"
  have s: "Sections ?h ?w = Split p ''/''" and sep: "separator ?w = ''/''"
    by (simp_all add: Path_Init_def Sections_def new_slice_def slice_val_def Let_def)
  have "ConstructPath (Split p ''/'') ''/'' = p" using join_split [of "''/''" "[]" p] by (simp add: Split_def)
  moreover have "Split p ''/'' \<noteq> []" by (simp add: Split_def)
  ultimately show ?thesis by (auto simp: FullPath_def Paths_def s sep last_map neq_Nil_conv)
qed

text \<open>
  A child of a parent whose last section is not empty and whose sections fill their array gets the sections of
  the parent followed by its own, and no other slice changes: neither the parent nor any child set before.
\<close>

theorem set_parent_extends:
  assumes "slice_wf h (sections parent)" and "Sections h parent \<noteq> []" and "last (Sections h parent) \<noteq> ''''"
    and "off (sections parent) + len (sections parent) = length (h ! arr (sections parent))"
  shows "\<exists>w' h'. SetParent spare parent w h = Some (w', h') \<and>
    Sections h' w' = Sections h parent @ own_sections w \<and>
    (\<forall>s. slice_wf h s \<longrightarrow> slice_wf h' s \<and> slice_val h' s = slice_val h s)"
proof -
  obtain s0 h1 where n: "new_slice (Split (path w) (separator w)) h = (s0, h1)" by fastforce
  then obtain x where h1: "h1 = h @ [x]" by (auto simp: new_slice_def)
  let ?ps = "sections parent" and ?xs = "own_sections w"
  have p: "slice_val h1 ?ps = Sections h parent" using assms(1) by (simp add: h1 slice_val_frame Sections_def)
  have l: "len ?ps > 0" using assms(2) by (auto simp: Sections_def slice_val_def)
  have frame: "slice_wf (h @ ys) s \<and> slice_val (h @ ys) s = slice_val h s" if "slice_wf h s" for s ys
    using that by (auto simp: slice_val_frame) (auto simp: slice_wf_def nth_append)
  obtain s2 h2 where a: "go_append spare ?ps ?xs h1 = (s2, h2)" by fastforce
  have e: "off ?ps + len ?ps = length (h1 ! arr ?ps)" "arr ?ps < length h"
    using assms(1,4) by (simp_all add: h1 nth_append slice_wf_def)
  have "slice_val h2 s2 = Sections h parent @ ?xs \<and> (\<exists>ys. h2 = h @ ys)"
  proof (cases "?xs = []")
    case True
    have "h1[arr ?ps := h1 ! arr ?ps] = h1" by simp
    with a e True have "s2 = ?ps" "h2 = h1" by (auto simp: go_append_def Let_def)
    with p h1 True show ?thesis by simp
  next
    case False
    with a e p have "s2 = \<lparr>arr = length h1, off = 0, len = len ?ps + length ?xs\<rparr>"
      "h2 = h1 @ [Sections h parent @ ?xs @ replicate spare '''']" by (auto simp: go_append_def Let_def)
    moreover have "length (Sections h parent) = len ?ps" using assms(1) by (auto simp: Sections_def slice_val_def slice_wf_def min_def)
    ultimately show ?thesis by (simp add: slice_val_def h1 nth_append)
  qed
  then obtain ys where ys: "slice_val h2 s2 = Sections h parent @ ?xs" "h2 = h @ ys" by blast
  have "SetParent spare parent w h = Some (w\<lparr>sections := s2\<rparr>, h2)"
    using n a l assms(3) by (simp add: SetParent_def Let_def adjusted_sections [OF n] p)
  with ys frame show ?thesis by (auto simp: Sections_def)
qed

theorem set_parent_extends_witness:
  "\<exists>w' h'. SetParent 1 (fst (Path_Init ''/root'' [] [])) (fst (Path_Init ''/sub'' [] [])) (snd (Path_Init ''/root'' [] [])) = Some (w', h') \<and>
     Sections h' w' = ['''', ''root'', ''sub'']"
proof -
  let ?p = "fst (Path_Init ''/root'' [] [])" and ?h = "snd (Path_Init ''/root'' [] [])"
  let ?w = "fst (Path_Init ''/sub'' [] [])"
  have p: "slice_wf ?h (sections ?p)" "Sections ?h ?p \<noteq> []" "last (Sections ?h ?p) \<noteq> ''''"
    "off (sections ?p) + len (sections ?p) = length (?h ! arr (sections ?p))" by code_simp+
  have "Sections ?h ?p @ own_sections ?w = ['''', ''root'', ''sub'']" by code_simp
  with set_parent_extends [OF p, of 1 ?w] show ?thesis by auto
qed

text \<open>
  Outside these conditions setting a parent overwrites other objects. A child of the root path \<open>/\<close> is written over
  the empty last section of the root, so the root and the next child get wrong paths; and of two children of an
  object whose sections have a spare place the second is written over the first.
\<close>

theorem set_parent_overwrites:
  "(case Path_Init ''/'' [] [] of (root, h0) \<Rightarrow>
    case Path_Init ''/users'' [] h0 of (users, h1) \<Rightarrow>
    case Path_Init ''/items'' [] h1 of (items, h2) \<Rightarrow>
    case SetParent 1 root users h2 of Some (users', h3) \<Rightarrow>
    case SetParent 1 root items h3 of Some (items', h4) \<Rightarrow>
      FullPath h0 root = ''/'' \<and> FullPath h4 root = ''/users'' \<and> FullPath h4 items' = ''/users/items'') \<and>
   (case Path_Init ''/root'' [] [] of (root, h0) \<Rightarrow>
    case Path_Init ''/sub'' [] h0 of (sub, h1) \<Rightarrow>
    case Path_Init ''/a'' [] h1 of (a, h2) \<Rightarrow>
    case Path_Init ''/b'' [] h2 of (b, h3) \<Rightarrow>
    case SetParent 1 root sub h3 of Some (sub', h4) \<Rightarrow>
    case SetParent 1 sub' a h4 of Some (a', h5) \<Rightarrow>
    case SetParent 1 sub' b h5 of Some (b', h6) \<Rightarrow>
      FullPath h5 a' = ''/root/sub/a'' \<and> FullPath h6 a' = ''/root/sub/b'' \<and> FullPath h6 b' = ''/root/sub/b'')"
  by code_simp

end
