(* ===== verification/ResourceTrees.thy ===== *)
theory ResourceTrees
  imports Resources
begin

section \<open>Paths of the resource tree stay up to date\<close>

text \<open>
  Correctness of the calls of \<^verbatim>\<open>pkg/api/resource.go\<close>. A resource is up to date when rebuilding its own paths would change
  nothing. The main lemma: a rebuild of a resource ends, and leaves no resource below it outdated, nor makes any other
  resource outdated. Every setter outdates at most the subtree it rebuilds, so in every store the calls can reach all cached
  paths are those of the tree.
\<close>

subsection \<open>Stores that differ in cached paths only\<close>

definition core :: "ResourceBase \<Rightarrow> ResourceBase" where
  "core n = n\<lparr>pathPrototype := '''', actualPath := '''', fullPathPrototype := '''', fullActualPath := '''',
              servicePathPrototype := '''', serviceActualPath := '''', inTenancy := False, tenancyResource := None\<rparr>"

definition same_tree :: "store \<Rightarrow> store \<Rightarrow> bool" where
  "same_tree st st' \<longleftrightarrow> map core (resources st') = map core (resources st) \<and> resource_ids st' = resource_ids st \<and>
     op_objects st' = op_objects st"

definition edges :: "store \<Rightarrow> (nat \<times> nat) set" where
  "edges st = {(a, b). a < size_of st \<and> b \<in> set (children (res st a))}"

definition below :: "store \<Rightarrow> nat \<Rightarrow> nat set" where
  "below st r = {n. (r, n) \<in> (edges st)\<^sup>*}"

text \<open>Pointers stay inside the store, a resource is among the children of its parent, and nothing is below itself.\<close>

definition linked :: "store \<Rightarrow> nat \<Rightarrow> bool" where
  "linked st r \<longleftrightarrow> (\<exists>w < length (resource_ids st). IdWrapper (res st r) = Some w) \<and>
     (\<forall>c \<in> set (children (res st r)). c < size_of st) \<and>
     (\<forall>p. parent (res st r) = Some p \<longrightarrow> p < size_of st \<and> r \<in> set (children (res st p)))"

definition tree :: "store \<Rightarrow> bool" where
  "tree st \<longleftrightarrow> (\<forall>r < size_of st. linked st r) \<and> acyclic (edges st)"

definition up_to_date :: "store \<Rightarrow> nat \<Rightarrow> bool" where
  "up_to_date st r \<longleftrightarrow> (\<exists>part. IsServicePart (size_of st) st r = Some part \<and> rebuilt st part r = res st r)"

definition outdated :: "store \<Rightarrow> nat set" where
  "outdated st = {r. r < size_of st \<and> \<not> up_to_date st r}"

lemma core_fields:
  "core a = core b \<Longrightarrow> Host a = Host b \<and> HasId a = HasId b \<and> Service a = Service b \<and> Tenancy a = Tenancy b \<and>
     IdWrapper a = IdWrapper b \<and> parent a = parent b \<and> children a = children b \<and> operations a = operations b \<and>
     getter a = getter b \<and> parameterSubstitution a = parameterSubstitution b"
  by (cases a; cases b) (simp add: core_def)

lemma same_tree_size: "same_tree st st' \<Longrightarrow> size_of st' = size_of st"
  unfolding same_tree_def by (metis length_map)

lemma same_tree_core: "same_tree st st' \<Longrightarrow> r < size_of st \<Longrightarrow> core (res st' r) = core (res st r)"
  unfolding same_tree_def by (metis length_map nth_map)

lemma same_tree_fields:
  assumes "same_tree st st'" "r < size_of st"
  shows "parent (res st' r) = parent (res st r)" "children (res st' r) = children (res st r)"
    "Service (res st' r) = Service (res st r)" "HasId (res st' r) = HasId (res st r)"
    "Tenancy (res st' r) = Tenancy (res st r)" "IdWrapper (res st' r) = IdWrapper (res st r)"
    "Host (res st' r) = Host (res st r)" "operations (res st' r) = operations (res st r)"
  using core_fields [OF same_tree_core [OF assms]] by auto

lemma same_tree_refl [simp]: "same_tree st st"
  by (simp add: same_tree_def)

lemma same_tree_trans: "same_tree a b \<Longrightarrow> same_tree b c \<Longrightarrow> same_tree a c"
  by (simp add: same_tree_def)

lemma same_tree_edges: "same_tree st st' \<Longrightarrow> edges st' = edges st"
  by (auto simp: edges_def same_tree_size same_tree_fields)

lemma same_tree_below: "same_tree st st' \<Longrightarrow> below st' r = below st r"
  by (simp add: below_def same_tree_edges)

lemma same_tree_ids:
  "same_tree st st' \<Longrightarrow> r < size_of st \<Longrightarrow> Type st' r = Type st r \<and> Id st' r = Id st r"
  by (simp add: Type_def Id_def same_tree_fields) (simp add: same_tree_def)

lemma same_tree_linked:
  "same_tree st st' \<Longrightarrow> r < size_of st \<Longrightarrow> linked st r \<Longrightarrow> linked st' r"
  by (auto simp: linked_def same_tree_fields same_tree_size) (simp add: same_tree_def)

lemma same_tree_tree: "same_tree st st' \<Longrightarrow> tree st \<Longrightarrow> tree st'"
  by (simp add: tree_def same_tree_edges same_tree_size same_tree_linked)

subsection \<open>Shape of a tree\<close>

lemma tree_linked: "tree st \<Longrightarrow> r < size_of st \<Longrightarrow> linked st r"
  by (simp add: tree_def)

lemma tree_parent:
  assumes "tree st" "r < size_of st" "parent (res st r) = Some p"
  shows "p < size_of st" "(p, r) \<in> edges st" "p \<noteq> r"
proof -
  show "p < size_of st" "(p, r) \<in> edges st"
    using tree_linked [OF assms(1,2)] assms(3) by (auto simp: linked_def edges_def)
  then show "p \<noteq> r" using assms(1) unfolding tree_def acyclic_def by blast
qed

lemma tree_child:
  assumes "tree st" "(r, c) \<in> edges st" shows "r < size_of st \<and> c < size_of st"
proof -
  have r: "r < size_of st" "c \<in> set (children (res st r))" using assms(2) by (simp_all add: edges_def)
  then show ?thesis using tree_linked [OF assms(1) r(1)] by (simp add: linked_def)
qed

lemma tree_edges_range:
  assumes "tree st" shows "edges st \<subseteq> {..<size_of st} \<times> {..<size_of st}"
proof (rule subrelI)
  fix a b assume "(a, b) \<in> edges st"
  then show "(a, b) \<in> {..<size_of st} \<times> {..<size_of st}" using tree_child [OF assms] by simp
qed

text \<open>The number of resources above a resource: what the fuel of a walk is compared with.\<close>

definition depth :: "store \<Rightarrow> nat \<Rightarrow> nat" where
  "depth st r = card {a. (a, r) \<in> (edges st)\<^sup>+}"

lemma above_subset:
  assumes "tree st" shows "{a. (a, r) \<in> (edges st)\<^sup>+} \<subseteq> {..<size_of st}"
  using trancl_subset_Sigma [OF tree_edges_range [OF assms]] by blast

lemma depth_less:
  assumes "tree st" "r < size_of st" shows "depth st r < size_of st"
proof -
  have "r \<notin> {a. (a, r) \<in> (edges st)\<^sup>+}" using assms(1) by (simp add: tree_def acyclic_def)
  then have "{a. (a, r) \<in> (edges st)\<^sup>+} \<subset> {..<size_of st}" using above_subset [OF assms(1)] assms(2) by blast
  from psubset_card_mono [OF _ this] show ?thesis by (simp add: depth_def)
qed

lemma depth_mono:
  assumes "tree st" "(p, r) \<in> edges st" shows "depth st p < depth st r"
proof -
  have "p \<notin> {a. (a, p) \<in> (edges st)\<^sup>+}" using assms(1) by (simp add: tree_def acyclic_def)
  moreover have "{a. (a, p) \<in> (edges st)\<^sup>+} \<subseteq> {a. (a, r) \<in> (edges st)\<^sup>+}"
    using assms(2) by (auto intro: trancl_into_trancl)
  ultimately have "{a. (a, p) \<in> (edges st)\<^sup>+} \<subset> {a. (a, r) \<in> (edges st)\<^sup>+}" using assms(2) by blast
  moreover have "finite {a. (a, r) \<in> (edges st)\<^sup>+}"
    using above_subset [OF assms(1)] by (rule finite_subset) simp
  ultimately show ?thesis unfolding depth_def by (rule psubset_card_mono [rotated])
qed

lemma below_refl [simp]: "r \<in> below st r"
  by (simp add: below_def)

lemma below_parent: "parent (res st q) = Some p \<Longrightarrow> (p, q) \<in> edges st \<Longrightarrow> p \<in> below st r \<Longrightarrow> q \<in> below st r"
  by (auto simp: below_def)

lemma below_split: "r < size_of st \<Longrightarrow> below st r = insert r (\<Union>c \<in> set (children (res st r)). below st c)"
  by (auto simp: below_def edges_def elim: converse_rtranclE intro: converse_rtrancl_into_rtrancl)

subsection \<open>Walks end, and do not depend on cached paths\<close>

lemma IsServicePart_same:
  assumes "same_tree st st'" "tree st"
  shows "r < size_of st \<Longrightarrow> IsServicePart k st' r = IsServicePart k st r"
proof (induction k arbitrary: r)
  case (Suc k)
  have "IsServicePart k st' p = IsServicePart k st p" if "parent (res st r) = Some p" for p
    using Suc.IH tree_parent(1) [OF assms(2) Suc.prems that] by simp
  then show ?case using Suc.prems by (simp add: same_tree_fields [OF assms(1)] split: option.split)
qed simp

lemma IsServicePart_ends:
  assumes "tree st"
  shows "r < size_of st \<Longrightarrow> depth st r < k \<Longrightarrow> \<exists>b. IsServicePart k st r = Some b"
proof (induction k arbitrary: r)
  case (Suc k)
  show ?case
  proof (cases "parent (res st r)")
    case (Some p)
    have "\<exists>b. IsServicePart k st p = Some b"
      using Suc tree_parent [OF assms Suc.prems(1) Some] depth_mono [OF assms] by (meson less_Suc_eq_le order_less_le_trans)
    then show ?thesis using Some by (cases "Service (res st r)") auto
  qed (cases "Service (res st r)"; auto)
qed simp

lemma rebuilt_core [simp]: "core (rebuilt st part r) = core (res st r)"
  by (simp add: rebuilt_def Let_def core_def)

lemma rebuilt_cong:
  assumes "res st' r = res st r" "Type st' r = Type st r" "Id st' r = Id st r"
    and "\<And>p. parent (res st r) = Some p \<Longrightarrow> res st' p = res st p"
  shows "rebuilt st' part r = rebuilt st part r"
  using assms by (cases "parent (res st r)") (simp_all add: rebuilt_def Let_def)

lemma rebuilt_idem:
  assumes "res st' r = rebuilt st part r" "Type st' r = Type st r" "Id st' r = Id st r"
    and "\<And>p. parent (res st r) = Some p \<Longrightarrow> res st' p = res st p"
  shows "rebuilt st' part r = res st' r"
  using assms by (cases "parent (res st r)") (simp_all add: rebuilt_def Let_def)

subsection \<open>The rebuild of one resource\<close>

lemma rebuild_own_ends: "tree st \<Longrightarrow> r < size_of st \<Longrightarrow> \<exists>st'. rebuild_own r st = Some st'"
  using IsServicePart_ends [OF _ _ depth_less] by (fastforce simp: rebuild_own_def)

lemma rebuild_own_tree:
  assumes "rebuild_own r st = Some st'" "r < size_of st" shows "same_tree st st'"
  using assms
  by (auto simp: rebuild_own_def upd_def same_tree_def map_update list_update_same_conv split: option.splits)

lemma rebuild_own_res:
  assumes "rebuild_own r st = Some st'" "r < size_of st"
  obtains part where "IsServicePart (size_of st) st r = Some part" "res st' r = rebuilt st part r"
    "\<And>q. q \<noteq> r \<Longrightarrow> res st' q = res st q"
  using assms by (auto simp: rebuild_own_def upd_def split: option.splits)

lemma rebuild_own_outdated:
  assumes tr: "tree st" and r: "r < size_of st" and own: "rebuild_own r st = Some st'"
  shows "outdated st' \<subseteq> (outdated st - {r}) \<union> set (children (res st r))"
proof
  note same = rebuild_own_tree [OF own r]
  obtain part where part: "IsServicePart (size_of st) st r = Some part" "res st' r = rebuilt st part r"
    and rest: "\<And>q. q \<noteq> r \<Longrightarrow> res st' q = res st q" by (rule rebuild_own_res [OF own r]) blast
  fix q assume q: "q \<in> outdated st'"
  then have n: "q < size_of st" by (simp add: outdated_def same_tree_size [OF same])
  have walk: "IsServicePart (size_of st') st' q = IsServicePart (size_of st) st q"
    by (simp add: same_tree_size [OF same] IsServicePart_same [OF same tr n])
  have old: "\<not> up_to_date st' q" using q by (simp add: outdated_def)
  show "q \<in> (outdated st - {r}) \<union> set (children (res st r))"
  proof (cases "q = r")
    case True
    have "rebuilt st' part r = res st' r"
      by (rule rebuilt_idem [OF part(2)]) (use same_tree_ids [OF same r] rest tree_parent(3) [OF tr r] in auto)
    then show ?thesis using old True walk part(1) by (simp add: up_to_date_def)
  next
    case False
    show ?thesis
    proof (cases "parent (res st q) = Some r")
      case True
      then show ?thesis using tree_linked [OF tr n] by (simp add: linked_def)
    next
      case other: False
      have "rebuilt st' b q = rebuilt st b q" for b
        using same_tree_ids [OF same n] rest other False by (intro rebuilt_cong) auto
      then show ?thesis using old walk False n rest by (auto simp: up_to_date_def outdated_def)
    qed
  qed
qed

subsection \<open>The rebuild of a subtree\<close>

lemma for_each_invariant:
  assumes "\<And>x s s'. x \<in> set xs \<Longrightarrow> P s \<Longrightarrow> f x s = Some s' \<Longrightarrow> P s' \<and> R s s' \<and> Q x s'"
    and "\<And>s s' s''. R s s' \<Longrightarrow> R s' s'' \<Longrightarrow> R s s''" "\<And>s. R s s" "\<And>x s s'. Q x s \<Longrightarrow> R s s' \<Longrightarrow> Q x s'"
    and "for_each f xs s = Some s'" "P s"
  shows "P s' \<and> R s s' \<and> (\<forall>x \<in> set xs. Q x s')"
  using assms(1,5,6)
proof (induction xs arbitrary: s)
  case (Cons x xs)
  from Cons.prems(2) obtain t where t: "f x s = Some t" "for_each f xs t = Some s'" by (auto split: option.splits)
  from Cons.prems(1) [OF _ Cons.prems(3) t(1)] have first: "P t" "R s t" "Q x t" by simp_all
  have "P s' \<and> R t s' \<and> (\<forall>x \<in> set xs. Q x s')" 
    by (rule Cons.IH [OF _ t(2) first(1)]) (rule Cons.prems(1), simp_all)
  then show ?case using first assms(2,4) by (metis set_ConsD)
qed (simp add: assms(3))

lemma for_each_ends:
  assumes "\<And>x s. x \<in> set xs \<Longrightarrow> P s \<Longrightarrow> \<exists>s'. f x s = Some s' \<and> P s'" "P s"
  shows "\<exists>s'. for_each f xs s = Some s' \<and> P s'"
  using assms by (induction xs arbitrary: s) fastforce+

lemma rebuild_tree:
  "rebuild k r st = Some st' \<Longrightarrow> tree st \<Longrightarrow> r < size_of st \<Longrightarrow> same_tree st st'"
proof (induction k arbitrary: r st st')
  case (Suc k)
  from Suc.prems(1) obtain st1 where st1: "rebuild_own r st = Some st1"
    and loop: "for_each (rebuild k) (children (res st1 r)) st1 = Some st'" by (auto split: option.splits)
  note same = rebuild_own_tree [OF st1 Suc.prems(3)]
  have kids: "c < size_of st" if "c \<in> set (children (res st1 r))" for c
    using that tree_linked [OF Suc.prems(2,3)] same_tree_fields(2) [OF same Suc.prems(3)] by (simp add: linked_def)
  have step: "same_tree st s' \<and> True \<and> True"
    if "c \<in> set (children (res st1 r))" "same_tree st s" "rebuild k c s = Some s'" for c s s'
    using Suc.IH [OF that(3)] kids [OF that(1)] that(2) Suc.prems(2)
    by (auto simp: same_tree_size same_tree_tree intro: same_tree_trans)
  have "same_tree st st' \<and> True \<and> (\<forall>c \<in> set (children (res st1 r)). True)"
    by (rule for_each_invariant [where P = "same_tree st" and R = "\<lambda>_ _. True" and Q = "\<lambda>_ _. True", OF step _ _ _ loop same])
       simp_all
  then show ?case by blast
qed simp

lemma rebuild_ends:
  "tree st \<Longrightarrow> r < size_of st \<Longrightarrow> size_of st \<le> k + depth st r \<Longrightarrow> \<exists>st'. rebuild k r st = Some st'"
proof (induction k arbitrary: r st)
  case 0
  then show ?case using depth_less [OF 0(1,2)] by simp
next
  case (Suc k)
  obtain st1 where st1: "rebuild_own r st = Some st1" using rebuild_own_ends [OF Suc.prems(1,2)] by blast
  note same = rebuild_own_tree [OF st1 Suc.prems(2)]
  have step: "\<exists>s'. rebuild k c s = Some s' \<and> same_tree st s'"
    if c: "c \<in> set (children (res st1 r))" and s: "same_tree st s" for c s
  proof -
    have e: "(r, c) \<in> edges st" using c Suc.prems(2) by (simp add: edges_def same_tree_fields [OF same])
    have "size_of st \<le> k + depth st c" using depth_mono [OF Suc.prems(1) e] Suc.prems(3) by simp
    then have "size_of s \<le> k + depth s c" by (simp add: depth_def same_tree_edges [OF s] same_tree_size [OF s])
    moreover have "tree s" "c < size_of s"
      using tree_child [OF Suc.prems(1) e] by (simp_all add: same_tree_tree [OF s Suc.prems(1)] same_tree_size [OF s])
    ultimately obtain s' where "rebuild k c s = Some s'" using Suc.IH by blast
    then show ?thesis using rebuild_tree [OF _ \<open>tree s\<close> \<open>c < size_of s\<close>] same_tree_trans [OF s] by blast
  qed
  show ?case using for_each_ends [of "children (res st1 r)" "same_tree st" "rebuild k", OF step same] st1 by auto
qed

lemma rebuild_outdated:
  "rebuild k r st = Some st' \<Longrightarrow> tree st \<Longrightarrow> r < size_of st \<Longrightarrow> outdated st' \<subseteq> outdated st - below st r"
proof (induction k arbitrary: r st st')
  case (Suc k)
  from Suc.prems(1) obtain st1 where st1: "rebuild_own r st = Some st1"
    and loop: "for_each (rebuild k) (children (res st1 r)) st1 = Some st'" by (auto split: option.splits)
  note same = rebuild_own_tree [OF st1 Suc.prems(3)]
  have kids: "children (res st1 r) = children (res st r)" using same_tree_fields(2) [OF same Suc.prems(3)] .
  have step: "same_tree st s' \<and> outdated s' \<subseteq> outdated s \<and> outdated s' \<inter> below st c = {}"
    if c: "c \<in> set (children (res st1 r))" and s: "same_tree st s" and reb: "rebuild k c s = Some s'" for c s s'
  proof -
    have "tree s" "c < size_of s"
      using c kids tree_linked [OF Suc.prems(2,3)]
      by (simp_all add: same_tree_tree [OF s Suc.prems(2)] same_tree_size [OF s] linked_def)
    then show ?thesis
      using Suc.IH [OF reb] rebuild_tree [OF reb] same_tree_trans [OF s] same_tree_below [OF s] by blast
  qed
  have all: "same_tree st st' \<and> outdated st' \<subseteq> outdated st1 \<and>
      (\<forall>c \<in> set (children (res st1 r)). outdated st' \<inter> below st c = {})"
    by (rule for_each_invariant [where P = "same_tree st" and R = "\<lambda>s s'. outdated s' \<subseteq> outdated s" and
          Q = "\<lambda>c s. outdated s \<inter> below st c = {}", OF step _ _ _ loop same]) blast+
  show ?case
  proof
    fix q assume q: "q \<in> outdated st'"
    with all kids have kid: "q \<notin> below st c" if "c \<in> set (children (res st r))" for c using that by auto
    have "q \<notin> set (children (res st r))" using kid [of q] by auto
    then have "q \<in> outdated st - {r}" using q all rebuild_own_outdated [OF Suc.prems(2,3) st1] by blast
    then show "q \<in> outdated st - below st r" using kid below_split [OF Suc.prems(3)] by simp
  qed
qed simp

lemma RebuildPaths_ends: "tree st \<Longrightarrow> r < size_of st \<Longrightarrow> \<exists>st'. RebuildPaths r st = Some st'"
  by (simp add: RebuildPaths_def rebuild_ends)

lemmas RebuildPaths_tree = rebuild_tree [where k = "size_of st" and st = st for st, folded RebuildPaths_def]

lemmas RebuildPaths_outdated = rebuild_outdated [where k = "size_of st" and st = st for st, folded RebuildPaths_def]

subsection \<open>Calls that keep the links of the tree\<close>

definition links :: "ResourceBase \<Rightarrow> nat option \<times> nat list \<times> nat option" where
  "links n = (parent n, children n, IdWrapper n)"

definition same_links :: "store \<Rightarrow> store \<Rightarrow> bool" where
  "same_links st st' \<longleftrightarrow> map links (resources st') = map links (resources st) \<and>
     map id_type (resource_ids st') = map id_type (resource_ids st)"

definition unshared :: "store \<Rightarrow> bool" where
  "unshared st \<longleftrightarrow> (\<forall>q < size_of st. \<forall>r < size_of st. IdWrapper (res st q) = IdWrapper (res st r) \<longrightarrow> q = r)"

lemma same_links_refl [simp]: "same_links st st"
  by (simp add: same_links_def)

lemma same_links_trans: "same_links a b \<Longrightarrow> same_links b c \<Longrightarrow> same_links a c"
  by (simp add: same_links_def)

lemma same_links_size: "same_links st st' \<Longrightarrow> size_of st' = size_of st"
  unfolding same_links_def by (metis length_map)

lemma same_links_ids: "same_links st st' \<Longrightarrow> length (resource_ids st') = length (resource_ids st)"
  unfolding same_links_def by (metis length_map)

lemma same_links_fields:
  assumes "same_links st st'" "r < size_of st"
  shows "parent (res st' r) = parent (res st r)" "children (res st' r) = children (res st r)"
    "IdWrapper (res st' r) = IdWrapper (res st r)"
proof -
  have "links (res st' r) = links (res st r)" using assms unfolding same_links_def by (metis length_map nth_map)
  then show "parent (res st' r) = parent (res st r)" "children (res st' r) = children (res st r)"
    "IdWrapper (res st' r) = IdWrapper (res st r)" by (simp_all add: links_def)
qed

lemma same_links_edges: "same_links st st' \<Longrightarrow> edges st' = edges st"
  by (auto simp: edges_def same_links_size same_links_fields)

lemma same_links_below: "same_links st st' \<Longrightarrow> below st' r = below st r"
  by (simp add: below_def same_links_edges)

lemma same_links_tree:
  assumes "same_links st st'" "tree st" shows "tree st'"
proof -
  have "linked st' r" if "r < size_of st" for r
    using tree_linked [OF assms(2) that] that
    by (auto simp: linked_def same_links_fields [OF assms(1)] same_links_size [OF assms(1)] same_links_ids [OF assms(1)])
  then show ?thesis using assms(2) by (simp add: tree_def same_links_edges [OF assms(1)] same_links_size [OF assms(1)])
qed

lemma same_links_unshared: "same_links st st' \<Longrightarrow> unshared st \<Longrightarrow> unshared st'"
  by (simp add: unshared_def same_links_size same_links_fields)

lemma same_links_Type:
  assumes "same_links st st'" "tree st" "r < size_of st" shows "Type st' r = Type st r"
proof -
  have "wrapper st r < length (resource_ids st)" using tree_linked [OF assms(2,3)] by (auto simp: linked_def)
  then show ?thesis
    using assms(1) unfolding Type_def same_links_fields(3) [OF assms(1,3)] same_links_def
    by (metis nth_map same_links_ids [OF assms(1)])
qed

lemma core_links: "core a = core b \<Longrightarrow> links a = links b"
  using core_fields [of a b] by (simp add: links_def)

lemma same_tree_links:
  assumes "same_tree st st'" shows "same_links st st'"
proof -
  have "map links (resources st') = map links (resources st)"
    by (rule nth_equalityI)
       (simp_all add: same_tree_size [OF assms] core_links [OF same_tree_core [OF assms]])
  then show ?thesis using assms by (simp add: same_links_def same_tree_def)
qed

lemma upd_links:
  assumes "r < size_of st" "links (f (res st r)) = links (res st r)" shows "same_links st (upd r f st)"
proof -
  have "map links (resources (upd r f st)) = map links (resources st)"
    by (rule nth_equalityI) (use assms in \<open>auto simp: upd_def nth_list_update\<close>)
  then show ?thesis by (simp add: same_links_def upd_def)
qed

lemma write_id_links: "w < length (resource_ids st) \<Longrightarrow> same_links st (write_id w v st)"
  by (auto simp: same_links_def write_id_def map_update list_update_same_conv)

subsection \<open>What a change can outdate\<close>

text \<open>The part of a resource its paths depend on, and a change that leaves it alone outside a set closed under children.\<close>

definition path_part :: "ResourceBase \<Rightarrow> ResourceBase" where
  "path_part n = n\<lparr>Host := '''', IdWrapper := None, children := [], operations := [], getter := None, parameterSubstitution := ''''\<rparr>"

lemma path_part_fields:
  "path_part a = path_part b \<Longrightarrow> HasId a = HasId b \<and> Service a = Service b \<and> Tenancy a = Tenancy b \<and> parent a = parent b \<and>
     pathPrototype a = pathPrototype b \<and> actualPath a = actualPath b \<and> fullPathPrototype a = fullPathPrototype b \<and>
     fullActualPath a = fullActualPath b \<and> servicePathPrototype a = servicePathPrototype b \<and>
     serviceActualPath a = serviceActualPath b \<and> inTenancy a = inTenancy b \<and> tenancyResource a = tenancyResource b"
  by (cases a; cases b) (simp add: path_part_def)

lemma path_part_rebuilt: "path_part (rebuilt st part r) = path_part (res st r) \<longleftrightarrow> rebuilt st part r = res st r"
  by (cases "res st r") (auto simp: path_part_def rebuilt_def Let_def)

lemma rebuilt_path_part:
  assumes "path_part (res st' r) = path_part (res st r)" "Type st' r = Type st r" "Id st' r = Id st r"
    and "\<And>p. parent (res st r) = Some p \<Longrightarrow> path_part (res st' p) = path_part (res st p)"
  shows "path_part (rebuilt st' part r) = path_part (rebuilt st part r)"
proof (cases "parent (res st r)")
  case None
  then show ?thesis using assms(1-3) by (cases "res st r"; cases "res st' r") (simp add: path_part_def rebuilt_def Let_def)
next
  case (Some p)
  show ?thesis using Some assms(1-3) path_part_fields [OF assms(4) [OF Some]]
    by (cases "res st r"; cases "res st' r") (simp add: path_part_def rebuilt_def Let_def)
qed

lemma IsServicePart_mono: "IsServicePart k st r = Some b \<Longrightarrow> k \<le> k' \<Longrightarrow> IsServicePart k' st r = Some b"
proof (induction k arbitrary: r k')
  case (Suc k)
  from Suc.prems(2) obtain j where "k' = Suc j" "k \<le> j" by (cases k') auto
  then show ?case using Suc by (auto split: if_splits option.splits)
qed simp

lemma IsServicePart_outside:
  assumes "tree st" "\<And>q. q < size_of st \<Longrightarrow> q \<notin> B \<Longrightarrow> path_part (res st' q) = path_part (res st q)"
    and "\<And>p q. (p, q) \<in> edges st \<Longrightarrow> p \<in> B \<Longrightarrow> q \<in> B"
  shows "r < size_of st \<Longrightarrow> r \<notin> B \<Longrightarrow> IsServicePart k st' r = IsServicePart k st r"
proof (induction k arbitrary: r)
  case (Suc k)
  have "IsServicePart k st' p = IsServicePart k st p" if "parent (res st r) = Some p" for p
    using Suc tree_parent [OF assms(1) Suc.prems(1) that] assms(3) by blast
  then show ?case using path_part_fields [OF assms(2) [OF Suc.prems]] by (auto split: option.split)
qed simp

lemma outdated_outside:
  assumes tr: "tree st" and size: "size_of st \<le> size_of st'"
    and same: "\<And>q. q < size_of st \<Longrightarrow> q \<notin> B \<Longrightarrow> path_part (res st' q) = path_part (res st q) \<and> Type st' q = Type st q \<and> Id st' q = Id st q"
    and closed: "\<And>p q. (p, q) \<in> edges st \<Longrightarrow> p \<in> B \<Longrightarrow> q \<in> B"
  shows "outdated st' \<subseteq> outdated st \<union> B \<union> {size_of st..}"
proof
  fix q assume q: "q \<in> outdated st'"
  show "q \<in> outdated st \<union> B \<union> {size_of st..}"
  proof (rule ccontr)
    assume "q \<notin> outdated st \<union> B \<union> {size_of st..}"
    then have n: "q < size_of st" "q \<notin> B" and "up_to_date st q" by (auto simp: outdated_def)
    then obtain part where part: "IsServicePart (size_of st) st q = Some part" "rebuilt st part q = res st q"
      by (auto simp: up_to_date_def)
    have "IsServicePart (size_of st) st' q = Some part"
      using IsServicePart_outside [OF tr _ closed n, where st' = st'] same part(1) by simp
    then have "IsServicePart (size_of st') st' q = Some part" using IsServicePart_mono size by blast
    moreover have "path_part (rebuilt st' part q) = path_part (rebuilt st part q)"
      using same [OF n] same tree_parent [OF tr n(1)] closed n(2) by (intro rebuilt_path_part) blast+
    then have "rebuilt st' part q = res st' q"
      using part(2) same [OF n] by (simp add: path_part_rebuilt [symmetric])
    ultimately show False using q by (auto simp: outdated_def up_to_date_def)
  qed
qed

lemma below_closed: "(p, q) \<in> edges st \<Longrightarrow> p \<in> below st r \<Longrightarrow> q \<in> below st r"
  by (auto simp: below_def)

lemma upd_outdated:
  assumes "tree st" "r < size_of st" "links (f (res st r)) = links (res st r)"
  shows "outdated (upd r f st) \<subseteq> outdated st \<union> below st r"
proof -
  note same = upd_links [where f = f, OF assms(2,3)]
  have "outdated (upd r f st) \<subseteq> outdated st \<union> below st r \<union> {size_of st..}"
  proof (rule outdated_outside [OF assms(1)])
    fix q assume "q < size_of st" "q \<notin> below st r"
    then have "res (upd r f st) q = res st q" by (cases "q = r") (simp_all add: upd_def)
    then show "path_part (res (upd r f st) q) = path_part (res st q) \<and> Type (upd r f st) q = Type st q \<and> Id (upd r f st) q = Id st q"
      by (simp add: Type_def Id_def) (simp add: upd_def)
  qed (simp_all add: same_links_size [OF same] below_closed)
  then show ?thesis by (auto simp: outdated_def same_links_size [OF same])
qed

lemma write_id_outdated:
  assumes "tree st" "unshared st" "r < size_of st"
  shows "outdated (write_id (wrapper st r) v st) \<subseteq> outdated st \<union> below st r"
proof -
  let ?st = "write_id (wrapper st r) v st"
  have w: "wrapper st q < length (resource_ids st)" "IdWrapper (res st q) = Some (wrapper st q)" if "q < size_of st" for q
    using tree_linked [OF assms(1) that] by (auto simp: linked_def)
  note same = write_id_links [OF w(1) [OF assms(3)], of v]
  have "outdated ?st \<subseteq> outdated st \<union> below st r \<union> {size_of st..}"
  proof (rule outdated_outside [OF assms(1)])
    fix q assume q: "q < size_of st" "q \<notin> below st r"
    then have "q \<noteq> r" by auto
    then have "wrapper st q \<noteq> wrapper st r" using assms(2,3) q(1) w(2) [OF q(1)] w(2) [OF assms(3)] by (metis unshared_def)
    then show "path_part (res ?st q) = path_part (res st q) \<and> Type ?st q = Type st q \<and> Id ?st q = Id st q"
      by (simp add: Type_def Id_def write_id_def)
  qed (simp_all add: same_links_size [OF same] below_closed)
  then show ?thesis by (auto simp: outdated_def same_links_size [OF same])
qed

subsection \<open>Setters settle the subtree they touch\<close>

text \<open>The call returned, kept all links, left nothing outdated at or below \<open>r\<close> and outdated nothing else.\<close>

definition settles :: "nat \<Rightarrow> store \<Rightarrow> store option \<Rightarrow> bool" where
  "settles r st result \<longleftrightarrow> (\<exists>st'. result = Some st' \<and> same_links st st' \<and> outdated st' \<subseteq> outdated st - below st r)"

definition touches :: "nat \<Rightarrow> store \<Rightarrow> store option \<Rightarrow> bool" where
  "touches r st result \<longleftrightarrow> (\<exists>st'. result = Some st' \<and> same_links st st' \<and> outdated st' \<subseteq> outdated st \<union> below st r)"

lemma settles_touches: "settles r st result \<Longrightarrow> touches r st result"
  by (auto simp: settles_def touches_def)

lemma settles_rebuild:
  assumes "tree st" "r < size_of st" "touches r st (Some st1)" shows "settles r st (RebuildPaths r st1)"
proof -
  from assms(3) have same: "same_links st st1" and out: "outdated st1 \<subseteq> outdated st \<union> below st r" by (auto simp: touches_def)
  have st1: "tree st1" "r < size_of st1"
    using same_links_tree [OF same assms(1)] same_links_size [OF same] assms(2) by simp_all
  then obtain st' where st': "RebuildPaths r st1 = Some st'" using RebuildPaths_ends by blast
  have "outdated st' \<subseteq> outdated st1 - below st1 r" using RebuildPaths_outdated [OF st' st1] .
  then show ?thesis
    using st' out same_links_below [OF same] same_links_trans [OF same same_tree_links [OF RebuildPaths_tree [OF st' st1]]]
    by (auto simp: settles_def)
qed

lemma touches_self [simp]: "touches r st (Some st)"
  by (auto simp: touches_def)

lemma touches_upd:
  "tree st \<Longrightarrow> r < size_of st \<Longrightarrow> links (f (res st r)) = links (res st r) \<Longrightarrow> touches r st (Some (upd r f st))"
  by (simp add: touches_def upd_links upd_outdated)

lemma touches_bind:
  assumes "touches r st result" "\<And>st1. touches r st (Some st1) \<Longrightarrow> P (f st1)" shows "P (Option.bind result f)"
  using assms by (auto simp: touches_def)

lemma touches_trans:
  assumes "touches r st (Some st1)" "touches r st1 result" shows "touches r st result"
  using assms same_links_below [of st st1 r] by (auto simp: touches_def intro: same_links_trans)

lemma RebuildPaths_settles: "tree st \<Longrightarrow> r < size_of st \<Longrightarrow> settles r st (RebuildPaths r st)"
  by (rule settles_rebuild) simp_all

lemma SetHasId_settles: "tree st \<Longrightarrow> r < size_of st \<Longrightarrow> settles r st (SetHasId r v st)"
  unfolding SetHasId_def by (rule settles_rebuild) (simp_all add: touches_upd links_def)

lemma SetSetvice_settles: "tree st \<Longrightarrow> r < size_of st \<Longrightarrow> settles r st (SetSetvice r v st)"
  unfolding SetSetvice_def by (rule settles_rebuild) (simp_all add: touches_upd links_def)

lemma touches_in:
  assumes "touches r st (Some st1)" "tree st" "r < size_of st"
  shows "tree st1" "r < size_of st1"
  using assms same_links_tree same_links_size by (auto simp: touches_def)

lemma updateId_cases:
  assumes "tree st" "r < size_of st" "touches r st (Some st0)"
  shows "touches r st (updateId r opt st0)" "OptionalArg True opt \<Longrightarrow> settles r st (updateId r opt st0)"
proof -
  note st0 = touches_in [OF assms(3,1,2)]
  have has: "touches r st (if Id st0 r \<noteq> '''' then SetHasId r True st0 else Some st0)"
    using touches_trans [OF assms(3) settles_touches [OF SetHasId_settles [OF st0]]] assms(3) by simp
  show settles: "OptionalArg True opt \<Longrightarrow> settles r st (updateId r opt st0)"
    unfolding updateId_def by (rule touches_bind [OF has]) (simp add: rebuild_if_def settles_rebuild [OF assms(1,2)])
  show "touches r st (updateId r opt st0)"
  proof (cases "OptionalArg True opt")
    case False
    show ?thesis unfolding updateId_def by (rule touches_bind [OF has]) (simp add: rebuild_if_def False)
  qed (simp add: settles_touches settles)
qed

lemma touches_write_id:
  assumes "tree st" "unshared st" "r < size_of st" shows "touches r st (Some (write_id (wrapper st r) v st))"
proof -
  have "wrapper st r < length (resource_ids st)" using tree_linked [OF assms(1,3)] by (auto simp: linked_def)
  then show ?thesis using write_id_links write_id_outdated [OF assms] by (simp add: touches_def)
qed

lemma SetId_touches: "tree st \<Longrightarrow> unshared st \<Longrightarrow> r < size_of st \<Longrightarrow> touches r st (SetId r v opt st)"
  unfolding SetId_def by (intro updateId_cases touches_write_id)

lemma SetId_settles:
  "tree st \<Longrightarrow> unshared st \<Longrightarrow> r < size_of st \<Longrightarrow> OptionalArg True opt \<Longrightarrow> settles r st (SetId r v opt st)"
  unfolding SetId_def by (intro updateId_cases touches_write_id)

subsection \<open>Walks that set identifiers up to the root\<close>

text \<open>The common shape of \<open>FillActualPaths\<close> and \<open>ResetIds\<close>.\<close>

primrec climb :: "(nat \<Rightarrow> store \<Rightarrow> store option) \<Rightarrow> nat \<Rightarrow> nat \<Rightarrow> store \<Rightarrow> store option" where
  "climb f 0 r st = None"
| "climb f (Suc k) r st =
     (case f r st of
        None \<Rightarrow> None
      | Some st1 \<Rightarrow> (case parent (res st1 r) of Some p \<Rightarrow> climb f k p st1 | None \<Rightarrow> RebuildPaths r st1))"

definition fill_id :: "ResourceIdsBase \<Rightarrow> nat \<Rightarrow> store \<Rightarrow> store option" where
  "fill_id ids r st =
     (if HasId (res st r)
      then (case ids (Type st r) of None \<Rightarrow> Some st | Some a \<Rightarrow> SetId r (id_value (resource_ids st ! a)) [False] st)
      else Some st)"

definition reset_id :: "nat \<Rightarrow> store \<Rightarrow> store option" where
  "reset_id r st = (if HasId (res st r) then SetId r '''' [False] st else Some st)"

lemma FillActualPaths_climb: "FillActualPaths k ids r st = climb (fill_id ids) k r st"
  by (induction k arbitrary: r st) (simp_all add: fill_id_def cong: option.case_cong if_cong)

lemma ResetIds_climb: "ResetIds k r st = climb reset_id k r st"
  by (induction k arbitrary: r st) (simp_all add: reset_id_def cong: option.case_cong if_cong)

lemma below_mono: "(p, r) \<in> edges st \<Longrightarrow> below st r \<subseteq> below st p"
  by (auto simp: below_def intro: converse_rtrancl_into_rtrancl)

lemma climb_settles:
  assumes step: "\<And>r st. tree st \<Longrightarrow> unshared st \<Longrightarrow> r < size_of st \<Longrightarrow> touches r st (f r st)"
  shows "tree st \<Longrightarrow> unshared st \<Longrightarrow> r < size_of st \<Longrightarrow> depth st r < k \<Longrightarrow> settles r st (climb f k r st)"
proof (induction k arbitrary: r st)
  case (Suc k)
  note tr = Suc.prems(1) and r = Suc.prems(3)
  obtain st1 where st1: "f r st = Some st1" and t: "touches r st (Some st1)" using step [OF Suc.prems(1-3)] by (auto simp: touches_def)
  then have same: "same_links st st1" by (simp add: touches_def)
  show ?case
  proof (cases "parent (res st r)")
    case None
    then show ?thesis using st1 settles_rebuild [OF tr r t] by (simp add: same_links_fields [OF same r])
  next
    case (Some p)
    note up = tree_parent [OF tr r Some]
    have "depth st1 p < k"
      using depth_mono [OF tr up(2)] Suc.prems(4) by (simp add: depth_def same_links_edges [OF same])
    then have "settles p st1 (climb f k p st1)"
      using Suc.IH same_links_tree [OF same tr] same_links_unshared [OF same Suc.prems(2)] up(1) same_links_size [OF same]
      by simp
    then obtain st' where st': "climb f k p st1 = Some st'" "same_links st1 st'" "outdated st' \<subseteq> outdated st1 - below st1 p"
      by (auto simp: settles_def)
    have "outdated st' \<subseteq> outdated st - below st r"
      using st'(3) t below_mono [OF up(2)] same_links_below [OF same, of p] by (auto simp: touches_def)
    then show ?thesis
      using st1 st' Some same_links_trans [OF same st'(2)] by (simp add: settles_def same_links_fields [OF same r])
  qed
qed simp

lemma FillActualPaths_settles:
  assumes "tree st" "unshared st" "r < size_of st" shows "settles r st (FillActualPaths (size_of st) ids r st)"
  unfolding FillActualPaths_climb
  by (rule climb_settles [OF _ assms depth_less [OF assms(1,3)]]) (simp add: fill_id_def SetId_touches split: option.split)

lemma ResetIds_settles:
  assumes "tree st" "unshared st" "r < size_of st" shows "settles r st (ResetIds (size_of st) r st)"
  unfolding ResetIds_climb
  by (rule climb_settles [OF _ assms depth_less [OF assms(1,3)]]) (simp add: reset_id_def SetId_touches)

subsection \<open>A child under a new parent\<close>

definition link :: "nat \<Rightarrow> nat \<Rightarrow> store \<Rightarrow> store" where
  "link r c st = upd c (\<lambda>n. n\<lparr>parent := Some r\<rparr>) (upd r (\<lambda>n. n\<lparr>children := children n @ [c]\<rparr>) st)"

lemma AddChild_link: "AddChild r c opt st = rebuild_if opt c (link r c st)"
  by (simp add: AddChild_def SetParent_def link_def)

lemma link_size [simp]: "size_of (link r c st) = size_of st" "resource_ids (link r c st) = resource_ids st"
  by (simp_all add: link_def upd_def)

lemma link_fields:
  assumes "r < size_of st" "c < size_of st" "q < size_of st"
  shows "children (res (link r c st) q) = (if q = r then children (res st q) @ [c] else children (res st q))"
    "parent (res (link r c st) q) = (if q = c then Some r else parent (res st q))"
    "IdWrapper (res (link r c st) q) = IdWrapper (res st q)"
    "q \<noteq> c \<Longrightarrow> path_part (res (link r c st) q) = path_part (res st q)"
    "HasId (res (link r c st) q) = HasId (res st q)"
  using assms by (auto simp: link_def upd_def nth_list_update path_part_def)

lemma link_edges:
  assumes "r < size_of st" "c < size_of st" shows "edges (link r c st) = insert (r, c) (edges st)"
  using assms by (auto simp: edges_def link_fields split: if_splits)

lemma link_tree:
  assumes "tree st" "r < size_of st" "c < size_of st" "(c, r) \<notin> (edges st)\<^sup>*" shows "tree (link r c st)"
proof -
  have ne: "r \<noteq> c" using assms(4) by auto
  have "linked (link r c st) q" if q: "q < size_of st" for q
    using tree_linked [OF assms(1) q] assms(2,3) q ne unfolding linked_def
    by (auto simp: link_fields [OF assms(2,3)] split: if_splits)
  then show ?thesis using assms by (simp add: tree_def link_edges acyclic_insert)
qed

lemma link_unshared: "r < size_of st \<Longrightarrow> c < size_of st \<Longrightarrow> unshared st \<Longrightarrow> unshared (link r c st)"
  by (simp add: unshared_def link_fields)

lemma link_outdated:
  assumes "tree st" "r < size_of st" "c < size_of st"
  shows "outdated (link r c st) \<subseteq> outdated st \<union> below (link r c st) c"
proof -
  have "outdated (link r c st) \<subseteq> outdated st \<union> below (link r c st) c \<union> {size_of st..}"
  proof (rule outdated_outside [OF assms(1)])
    fix q assume q: "q < size_of st" "q \<notin> below (link r c st) c"
    then have "q \<noteq> c" by auto
    then show "path_part (res (link r c st) q) = path_part (res st q) \<and> Type (link r c st) q = Type st q \<and> Id (link r c st) q = Id st q"
      using q(1) by (simp add: link_fields [OF assms(2,3)] Type_def Id_def)
  next
    fix p q assume "(p, q) \<in> edges st" "p \<in> below (link r c st) c"
    then show "q \<in> below (link r c st) c" using below_closed link_edges [OF assms(2,3)] by blast
  qed simp
  then show ?thesis by (auto simp: outdated_def)
qed

lemma AddChild_settles:
  assumes "tree st" "r < size_of st" "c < size_of st" "(c, r) \<notin> (edges st)\<^sup>*" "OptionalArg True opt"
  obtains st' where "AddChild r c opt st = Some st'" "same_links (link r c st) st'" "outdated st' \<subseteq> outdated st"
proof -
  have "settles c (link r c st) (RebuildPaths c (link r c st))"
    using RebuildPaths_settles link_tree [OF assms(1-4)] assms(3) by simp
  then obtain st' where st': "RebuildPaths c (link r c st) = Some st'" "same_links (link r c st) st'"
    "outdated st' \<subseteq> outdated (link r c st) - below (link r c st) c" by (auto simp: settles_def)
  then show thesis using that link_outdated [OF assms(1-3)] assms(5) by (auto simp: AddChild_link rebuild_if_def)
qed

subsection \<open>A new resource\<close>

definition fresh :: "nat \<Rightarrow> nat \<Rightarrow> string \<Rightarrow> ResourceConfig \<Rightarrow> ResourceBase" where
  "fresh r w resourceType cfg =
     (let proto = (if HasId cfg then ''/:'' else ''/'') @ resourceType;
          actual = (if HasId cfg \<and> \<not> Tenancy cfg then ''/'' else proto)
      in \<lparr>Host = Host cfg, HasId = HasId cfg, Service = Service cfg, Tenancy = Tenancy cfg, IdWrapper = Some w,
          pathPrototype = proto, actualPath = actual, fullPathPrototype = proto, fullActualPath = actual,
          servicePathPrototype = (if Service cfg then proto else ''''),
          serviceActualPath = (if Service cfg then actual else ''''), parent = None, children = [], operations = [],
          getter = None, parameterSubstitution = '':'' @ resourceType, inTenancy = Tenancy cfg,
          tenancyResource = (if Tenancy cfg then Some r else None)\<rparr>)"

definition with_fresh :: "string \<Rightarrow> ResourceConfig \<Rightarrow> store \<Rightarrow> store" where
  "with_fresh resourceType cfg st =
     st\<lparr>resources := resources st @ [fresh (size_of st) (length (resource_ids st)) resourceType cfg],
        resource_ids := resource_ids st @ [\<lparr>id_type = resourceType, id_value = ''''\<rparr>]\<rparr>"

lemma with_fresh_simps [simp]:
  "size_of (with_fresh t cfg st) = Suc (size_of st)"
  "q < size_of st \<Longrightarrow> res (with_fresh t cfg st) q = res st q"
  "res (with_fresh t cfg st) (size_of st) = fresh (size_of st) (length (resource_ids st)) t cfg"
  by (simp_all add: with_fresh_def nth_append)

lemma fresh_links [simp]:
  "parent (fresh r w t cfg) = None" "children (fresh r w t cfg) = []" "IdWrapper (fresh r w t cfg) = Some w"
  by (simp_all add: fresh_def Let_def)

lemma NewResource_fresh:
  assumes "IdWrapper (OptionalArg empty_config cfg) = None"
  shows "NewResource t cfg st = Some (size_of st, with_fresh t (OptionalArg empty_config cfg) st)"
proof -
  let ?c = "OptionalArg empty_config cfg"
  let ?i = "init_resource t ?c st"
  have size: "size_of ?i = Suc (size_of st)" by (simp add: init_resource_def Let_def)
  have part: "IsServicePart (Suc (size_of st)) ?i (size_of st) = Some (Service ?c)"
    by (simp add: init_resource_def Let_def)
  have "rebuilt ?i (Service ?c) (size_of st) = fresh (size_of st) (length (resource_ids st)) t ?c"
    using assms by (simp add: rebuilt_def init_resource_def fresh_def Let_def Type_def Id_def)
  then have "upd (size_of st) (\<lambda>_. rebuilt ?i (Service ?c) (size_of st)) ?i = with_fresh t ?c st"
    using assms by (simp add: upd_def with_fresh_def) (simp add: init_resource_def Let_def)
  then have "rebuild_own (size_of st) ?i = Some (with_fresh t ?c st)"
    by (simp add: rebuild_own_def size part del: IsServicePart.simps)
  then show ?thesis by (simp add: NewResource_def RebuildPaths_def size)
qed

lemma with_fresh_ids:
  assumes "tree st" "q < size_of st" shows "Type (with_fresh t cfg st) q = Type st q \<and> Id (with_fresh t cfg st) q = Id st q"
  using tree_linked [OF assms] assms(2) by (auto simp: Type_def Id_def linked_def with_fresh_def nth_append)

lemma with_fresh_own [simp]:
  "Type (with_fresh t cfg st) (size_of st) = t" "Id (with_fresh t cfg st) (size_of st) = ''''"
  by (simp_all add: Type_def Id_def) (simp_all add: with_fresh_def)

lemma with_fresh_edges: "edges (with_fresh t cfg st) = edges st"
  by (auto simp: edges_def less_Suc_eq)

lemma with_fresh_tree:
  assumes "tree st" shows "tree (with_fresh t cfg st)"
proof -
  let ?st = "with_fresh t cfg st"
  have ids: "length (resource_ids ?st) = Suc (length (resource_ids st))" by (simp add: with_fresh_def)
  have "linked ?st r" if r: "r < Suc (size_of st)" for r
  proof (cases "r = size_of st")
    case True
    then show ?thesis by (simp add: linked_def ids)
  next
    case False
    then have r: "r < size_of st" using r by simp
    show ?thesis using tree_linked [OF assms r] r unfolding linked_def ids
      by (auto simp: less_Suc_eq)
  qed
  then show ?thesis using assms by (simp add: tree_def with_fresh_edges)
qed

lemma with_fresh_unshared:
  assumes "tree st" "unshared st" shows "unshared (with_fresh t cfg st)"
proof -
  have old: "IdWrapper (res st q) \<noteq> Some (length (resource_ids st))" if "q < size_of st" for q
    using tree_linked [OF assms(1) that] by (auto simp: linked_def)
  have "q = r" if "q < Suc (size_of st)" "r < Suc (size_of st)"
    "IdWrapper (res (with_fresh t cfg st) q) = IdWrapper (res (with_fresh t cfg st) r)" for q r
    using that assms(2) old [of q] old [of r] unfolding unshared_def
    by (cases "q = size_of st"; cases "r = size_of st") auto
  then show ?thesis by (auto simp: unshared_def)
qed

lemma fresh_up_to_date: "up_to_date (with_fresh t cfg st) (size_of st)"
proof -
  let ?st = "with_fresh t cfg st"
  have "rebuilt ?st (Service cfg) (size_of st) = res ?st (size_of st)"
    by (simp add: rebuilt_def Let_def) (simp add: fresh_def Let_def)
  moreover have "IsServicePart (Suc (size_of st)) ?st (size_of st) = Some (Service cfg)"
    by (simp add: fresh_def Let_def)
  ultimately show ?thesis by (simp add: up_to_date_def del: IsServicePart.simps)
qed

lemma with_fresh_outdated:
  assumes "tree st" shows "outdated (with_fresh t cfg st) \<subseteq> outdated st"
proof -
  have "outdated (with_fresh t cfg st) \<subseteq> outdated st \<union> {} \<union> {size_of st..}"
    by (rule outdated_outside [OF assms]) (simp_all add: with_fresh_ids [OF assms])
  then show ?thesis using fresh_up_to_date [of t cfg st] by (auto simp: outdated_def less_Suc_eq)
qed

subsection \<open>Calls that touch no path\<close>

definition quiet :: "store \<Rightarrow> store \<Rightarrow> bool" where
  "quiet st st' \<longleftrightarrow> resource_ids st' = resource_ids st \<and> size_of st' = size_of st \<and>
     (\<forall>q < size_of st. links (res st' q) = links (res st q) \<and> path_part (res st' q) = path_part (res st q))"

lemma quiet_refl [simp]: "quiet st st"
  by (simp add: quiet_def)

lemma quiet_trans: "quiet a b \<Longrightarrow> quiet b c \<Longrightarrow> quiet a c"
  by (simp add: quiet_def)

lemma quiet_links: "quiet st st' \<Longrightarrow> same_links st st'"
  by (simp add: quiet_def same_links_def list_eq_iff_nth_eq)

lemma quiet_outdated:
  assumes "tree st" "quiet st st'" shows "outdated st' \<subseteq> outdated st"
proof -
  have "outdated st' \<subseteq> outdated st \<union> {} \<union> {size_of st..}"
    by (rule outdated_outside [OF assms(1)]) (use assms(2) in \<open>simp_all add: quiet_def links_def Type_def Id_def\<close>)
  then show ?thesis using assms(2) by (auto simp: outdated_def quiet_def)
qed

lemma quiet_upd:
  "links (f (res st r)) = links (res st r) \<Longrightarrow> path_part (f (res st r)) = path_part (res st r) \<Longrightarrow> quiet st (upd r f st)"
  by (cases "r < size_of st") (auto simp: quiet_def upd_def nth_list_update)

lemma quiet_objects: "quiet st st1 \<Longrightarrow> quiet st (st1\<lparr>op_objects := ops\<rparr>)"
  by (simp add: quiet_def)

lemma SetHost_quiet: "quiet st (SetHost r v st)"
  unfolding SetHost_def by (rule quiet_upd) (simp_all add: links_def path_part_def)

lemma NewOperation_quiet: "quiet st (snd (NewOperation name a t st))"
  by (simp add: NewOperation_def quiet_objects)

lemma AddOperation_quiet: "quiet st (AddOperation r i g st)"
  unfolding AddOperation_def Let_def by (intro quiet_objects quiet_upd) (simp_all add: links_def path_part_def)

lemma RemoveOperations_quiet: "quiet st (RemoveOperations r a st)"
  unfolding RemoveOperations_def by (rule quiet_upd) (simp_all add: links_def path_part_def)

lemma RemoveOperation_quiet: "quiet st (RemoveOperation r a st)"
  unfolding RemoveOperation_def by (rule quiet_upd) (simp_all add: links_def path_part_def)

lemma ReplaceOperation_quiet: "quiet st (ReplaceOperation r i st)"
  unfolding ReplaceOperation_def by (rule quiet_trans [OF RemoveOperations_quiet AddOperation_quiet])

lemma copy_operation_quiet: "quiet st (copy_operation c i st)"
  unfolding copy_operation_def Let_def
  by (simp add: case_prod_beta quiet_trans [OF NewOperation_quiet AddOperation_quiet])

lemma copy_operations_quiet: "quiet st (fold (copy_operation c) ops st)"
  by (induction ops arbitrary: st) (simp_all, meson copy_operation_quiet quiet_trans)

lemma those_map_ends: "(\<And>x. x \<in> set xs \<Longrightarrow> \<exists>y. f x = Some y) \<Longrightarrow> \<exists>ys. those (map f xs) = Some ys"
  by (induction xs) fastforce+

lemma each_operation_ends:
  "tree st \<Longrightarrow> r < size_of st \<Longrightarrow> size_of st \<le> k + depth st r \<Longrightarrow> \<exists>ops. each_operation k st r = Some ops"
proof (induction k arbitrary: r)
  case 0
  then show ?case using depth_less [OF 0(1,2)] by simp
next
  case (Suc k)
  have "\<exists>ops. each_operation k st c = Some ops" if "c \<in> set (children (res st r))" for c
  proof -
    have e: "(r, c) \<in> edges st" using that Suc.prems(2) by (simp add: edges_def)
    then show ?thesis using Suc.IH [OF Suc.prems(1)] tree_child [OF Suc.prems(1) e] depth_mono [OF Suc.prems(1) e] Suc.prems(3)
      by simp
  qed
  then obtain rest where "those (map (each_operation k st) (children (res st r))) = Some rest" using those_map_ends by blast
  then show ?case by simp
qed

subsection \<open>The invariant of the store\<close>

definition good :: "store \<Rightarrow> bool" where
  "good st \<longleftrightarrow> tree st \<and> unshared st \<and> outdated st = {}"

lemma good_links: "good st \<Longrightarrow> same_links st st' \<Longrightarrow> outdated st' \<subseteq> outdated st \<Longrightarrow> good st'"
  by (auto simp: good_def same_links_tree same_links_unshared)

lemma good_quiet: "good st \<Longrightarrow> quiet st st' \<Longrightarrow> good st'"
  using good_links quiet_links quiet_outdated unfolding good_def by blast

lemma good_settles: "good st \<Longrightarrow> settles r st result \<Longrightarrow> \<exists>st'. result = Some st' \<and> good st' \<and> size_of st' = size_of st"
  unfolding settles_def using good_links same_links_size by blast

lemma good_fresh: "good st \<Longrightarrow> good (with_fresh t cfg st)"
  using with_fresh_tree with_fresh_unshared with_fresh_outdated unfolding good_def by blast

lemma good_AddChild:
  assumes "good st" "r < size_of st" "c < size_of st" "(c, r) \<notin> (edges st)\<^sup>*" "OptionalArg True opt"
  shows "\<exists>st'. AddChild r c opt st = Some st' \<and> good st' \<and> size_of st' = size_of st"
proof -
  have st: "tree st" "unshared st" "outdated st = {}" using assms(1) by (simp_all add: good_def)
  obtain st' where st': "AddChild r c opt st = Some st'" "same_links (link r c st) st'" "outdated st' \<subseteq> outdated st"
    by (rule AddChild_settles [OF st(1) assms(2-5)])
  then show ?thesis
    using same_links_tree [OF st'(2) link_tree [OF st(1) assms(2-4)]]
      same_links_unshared [OF st'(2) link_unshared [OF assms(2,3) st(2)]] st(3) same_links_size [OF st'(2)]
    by (simp add: good_def)
qed

lemma good_Clone:
  assumes "good st" "r < size_of st"
  shows "\<exists>c st'. Clone withOps r st = Some (c, st') \<and> good st'"
proof -
  let ?cfg = "(config_of (res st r))\<lparr>IdWrapper := None\<rparr>"
  let ?st1 = "with_fresh (Type st r) ?cfg st"
  have new: "NewResource (Type st r) [?cfg] st = Some (size_of st, ?st1)" using NewResource_fresh [of "[?cfg]"] by simp
  note st1 = good_fresh [OF assms(1), of "Type st r" ?cfg]
  have "\<exists>st2. (if HasId (res ?st1 r) then SetId (size_of st) (Id ?st1 r) [] ?st1 else Some ?st1) = Some st2 \<and>
      good st2 \<and> size_of st2 = size_of ?st1"
    using good_settles [OF st1 SetId_settles] st1 by (simp add: good_def)
  then obtain st2 where st2: "(if HasId (res ?st1 r) then SetId (size_of st) (Id ?st1 r) [] ?st1 else Some ?st1) = Some st2"
    "good st2" "size_of st2 = size_of ?st1" by blast
  obtain ops where "EachOperation [] st2 r = Some ops"
    using each_operation_ends [of st2 r "size_of st2"] st2(2,3) assms(2) by (auto simp: EachOperation_def good_def)
  then show ?thesis
    using new st2 good_quiet [OF st2(2) copy_operations_quiet] by (simp add: Clone_def del: with_fresh_simps)
qed

text \<open>
  The calls on a tree that keep its cached paths: \<open>NewResource\<close> without an identifier object of the caller, \<open>AddChild\<close>, \<open>SetId\<close>,
  \<open>SetHasId\<close>, \<open>SetSetvice\<close>, \<open>SetHost\<close>, \<open>RebuildPaths\<close>, \<open>FillActualPaths\<close>, \<open>ResetIds\<close>, \<open>Clone\<close> and those on operations, where a resource is
  not put below itself and no call skips the rebuild. \<open>CloneChain\<close> is not among them, because the copy shares the identifier object of
  the original (\<open>clone_chain_shares_identifier\<close>), nor are \<open>SetResourceId\<close>, \<open>SetParent\<close> without \<open>AddChild\<close> and calls with \<open>rebuild\<close> false, which no other file
  of the program uses.
\<close>

inductive resource_call :: "store \<Rightarrow> store \<Rightarrow> bool" where
  new: "IdWrapper (OptionalArg empty_config cfg) = None \<Longrightarrow> NewResource t cfg st = Some (r, st') \<Longrightarrow> resource_call st st'"
| child: "r < size_of st \<Longrightarrow> c < size_of st \<Longrightarrow> (c, r) \<notin> (edges st)\<^sup>* \<Longrightarrow> AddChild r c [] st = Some st' \<Longrightarrow> resource_call st st'"
| set_id: "r < size_of st \<Longrightarrow> SetId r v [] st = Some st' \<Longrightarrow> resource_call st st'"
| set_has_id: "r < size_of st \<Longrightarrow> SetHasId r b st = Some st' \<Longrightarrow> resource_call st st'"
| set_service: "r < size_of st \<Longrightarrow> SetSetvice r b st = Some st' \<Longrightarrow> resource_call st st'"
| rebuild: "r < size_of st \<Longrightarrow> RebuildPaths r st = Some st' \<Longrightarrow> resource_call st st'"
| set_host: "resource_call st (SetHost r h st)"
| fill: "r < size_of st \<Longrightarrow> FillActualPaths (size_of st) ids r st = Some st' \<Longrightarrow> resource_call st st'"
| reset: "r < size_of st \<Longrightarrow> ResetIds (size_of st) r st = Some st' \<Longrightarrow> resource_call st st'"
| clone: "r < size_of st \<Longrightarrow> Clone b r st = Some (c, st') \<Longrightarrow> resource_call st st'"
| new_operation: "resource_call st (snd (NewOperation name a t st))"
| add_operation: "resource_call st (AddOperation r i g st)"
| remove_operations: "resource_call st (RemoveOperations r a st)"
| remove_operation: "resource_call st (RemoveOperation r name st)"
| replace_operation: "resource_call st (ReplaceOperation r i st)"

definition empty_store :: store where
  "empty_store = \<lparr>resources = [], resource_ids = [], op_objects = []\<rparr>"

lemma good_empty: "good empty_store"
  by (simp add: good_def tree_def unshared_def outdated_def edges_def acyclic_def empty_store_def)

lemma settled_call: "result = Some st' \<Longrightarrow> good st \<Longrightarrow> settles r st result \<Longrightarrow> good st'"
  using good_settles by fastforce

lemma good_call: "resource_call st st' \<Longrightarrow> good st \<Longrightarrow> good st'"
proof (induction rule: resource_call.induct)
  case (new cfg t st r st')
  then show ?case using NewResource_fresh [OF new(1), of t st] good_fresh by auto
next
  case (child r st c st')
  then show ?case using good_AddChild [OF child(5,1-3), of "[]"] by simp
next
  case (set_id r st v st')
  show ?case
    by (rule settled_call [where r = r, OF set_id(2,3)]) (use set_id(1,3) in \<open>simp_all add: good_def SetId_settles\<close>)
next
  case (set_has_id r st b st')
  show ?case
    by (rule settled_call [where r = r, OF set_has_id(2,3)]) (use set_has_id(1,3) in \<open>simp_all add: good_def SetHasId_settles\<close>)
next
  case (set_service r st b st')
  show ?case
    by (rule settled_call [where r = r, OF set_service(2,3)]) (use set_service(1,3) in \<open>simp_all add: good_def SetSetvice_settles\<close>)
next
  case (rebuild r st st')
  show ?case
    by (rule settled_call [where r = r, OF rebuild(2,3)]) (use rebuild(1,3) in \<open>simp_all add: good_def RebuildPaths_settles\<close>)
next
  case (fill r st ids st')
  show ?case
    by (rule settled_call [where r = r, OF fill(2,3)]) (use fill(1,3) in \<open>simp_all add: good_def FillActualPaths_settles\<close>)
next
  case (reset r st st')
  show ?case
    by (rule settled_call [where r = r, OF reset(2,3)]) (use reset(1,3) in \<open>simp_all add: good_def ResetIds_settles\<close>)
next
  case (clone r st b c st')
  then show ?case using good_Clone [OF clone(3,1), of b] by auto
qed (blast intro: good_quiet SetHost_quiet NewOperation_quiet AddOperation_quiet RemoveOperations_quiet
       RemoveOperation_quiet ReplaceOperation_quiet)+

lemma good_reachable: "resource_call\<^sup>*\<^sup>* empty_store st \<Longrightarrow> good st"
  by (induction rule: rtranclp_induct) (simp_all add: good_empty good_call)

subsection \<open>The paths of the tree\<close>

definition segment :: "store \<Rightarrow> nat \<Rightarrow> string" where
  "segment st r = (if HasId (res st r) then ''/:'' else ''/'') @ Type st r"

definition actual_segment :: "store \<Rightarrow> nat \<Rightarrow> string" where
  "actual_segment st r =
     (if HasId (res st r) \<and> \<not> (Tenancy (res st r) \<and> Id st r = '''') then ''/'' @ Id st r else segment st r)"

lemma up_to_date_full:
  assumes "good st" "r < size_of st"
  shows "fullPathPrototype (res st r) =
      (case parent (res st r) of None \<Rightarrow> segment st r | Some p \<Rightarrow> fullPathPrototype (res st p) @ segment st r)"
    "fullActualPath (res st r) =
      (case parent (res st r) of None \<Rightarrow> actual_segment st r | Some p \<Rightarrow> fullActualPath (res st p) @ actual_segment st r)"
proof -
  have "up_to_date st r" using assms by (auto simp: good_def outdated_def)
  then obtain part where "rebuilt st part r = res st r" by (auto simp: up_to_date_def)
  from arg_cong [OF this, of fullPathPrototype] arg_cong [OF this, of fullActualPath]
  show "fullPathPrototype (res st r) =
      (case parent (res st r) of None \<Rightarrow> segment st r | Some p \<Rightarrow> fullPathPrototype (res st p) @ segment st r)"
    "fullActualPath (res st r) =
      (case parent (res st r) of None \<Rightarrow> actual_segment st r | Some p \<Rightarrow> fullActualPath (res st p) @ actual_segment st r)"
    by (auto simp: rebuilt_def Let_def segment_def actual_segment_def split: option.splits)
qed

lemma chain_paths:
  assumes "good st"
  shows "r < size_of st \<Longrightarrow> depth st r < k \<Longrightarrow>
    \<exists>ps. Chain k st r = Some ps \<and> fullPathPrototype (res st r) = concat (map (segment st) (ps @ [r])) \<and>
      fullActualPath (res st r) = concat (map (actual_segment st) (ps @ [r]))"
proof (induction k arbitrary: r)
  case (Suc k)
  have tr: "tree st" using assms by (simp add: good_def)
  show ?case
  proof (cases "parent (res st r)")
    case None
    then show ?thesis using up_to_date_full [OF assms Suc.prems(1)] by simp
  next
    case (Some p)
    note up = tree_parent [OF tr Suc.prems(1) Some]
    obtain ps where "Chain k st p = Some ps" "fullPathPrototype (res st p) = concat (map (segment st) (ps @ [p]))"
      "fullActualPath (res st p) = concat (map (actual_segment st) (ps @ [p]))"
      using Suc.IH [OF up(1)] depth_mono [OF tr up(2)] Suc.prems(2) by auto
    then show ?thesis using up_to_date_full [OF assms Suc.prems(1)] Some by simp
  qed
qed simp

text \<open>
  C13: in a store of resources built by the calls of \<open>resource_call\<close>, which leave out \<open>CloneChain\<close>, shared identifier objects and skipped
  rebuilds, every walk up the tree ends, and the cached full path of every resource is the concatenation of the segments of its chain,
  types and parameters in the prototype, types and current identifiers in the actual path.
\<close>

theorem cached_paths_are_those_of_the_tree:
  assumes "resource_call\<^sup>*\<^sup>* empty_store st" "r < size_of st"
  shows "\<exists>ps. Chain (size_of st) st r = Some ps \<and>
    fullPathPrototype (res st r) = concat (map (segment st) (ps @ [r])) \<and>
    fullActualPath (res st r) = concat (map (actual_segment st) (ps @ [r]))"
  using chain_paths [OF good_reachable [OF assms(1)] assms(2)] depth_less [OF _ assms(2)] good_reachable [OF assms(1)]
  by (simp add: good_def)

text \<open>
  C40: a rebuild always returns in a store without cycles of children; after it no resource at or below the rebuilt one has an
  outdated path, none elsewhere became outdated, and nothing but cached paths changed.
\<close>

theorem rebuild_paths_settles_subtree:
  assumes "tree st" "r < size_of st"
  shows "\<exists>st'. RebuildPaths r st = Some st' \<and> outdated st' \<subseteq> outdated st - below st r \<and> same_tree st st'"
  using RebuildPaths_ends [OF assms] RebuildPaths_outdated [OF _ assms] RebuildPaths_tree [OF _ assms] by blast

subsection \<open>Identifiers of a request and the paths they give\<close>

text \<open>An identifier is stored under its own type; \<open>ResourceIds_SetId\<close> keeps it so.\<close>

definition well_keyed :: "ResourceIdsBase \<Rightarrow> store \<Rightarrow> bool" where
  "well_keyed ids st \<longleftrightarrow> (\<forall>t a. ids t = Some a \<longrightarrow> a < length (resource_ids st) \<and> id_type (resource_ids st ! a) = t)"

definition filled :: "ResourceIdsBase \<Rightarrow> store \<Rightarrow> nat \<Rightarrow> bool" where
  "filled ids st q \<longleftrightarrow> HasId (res st q) \<longrightarrow> (case ids (Type st q) of None \<Rightarrow> True | Some a \<Rightarrow> Id st q = id_value (resource_ids st ! a))"

definition fill_frame :: "ResourceIdsBase \<Rightarrow> store \<Rightarrow> store \<Rightarrow> bool" where
  "fill_frame ids st st' \<longleftrightarrow> same_links st st' \<and>
     (\<forall>q < size_of st. HasId (res st' q) = HasId (res st q) \<and> Tenancy (res st' q) = Tenancy (res st q)) \<and>
     (\<forall>t a. ids t = Some a \<longrightarrow> resource_ids st' ! a = resource_ids st ! a) \<and>
     (\<forall>q < size_of st. filled ids st q \<longrightarrow> filled ids st' q)"

lemma well_keyed_set: "a < length (resource_ids st) \<Longrightarrow> well_keyed ids st \<Longrightarrow> well_keyed (ResourceIds_SetId st a ids) st"
  by (simp add: well_keyed_def ResourceIds_SetId_def)

lemma well_keyed_unset: "well_keyed ids st \<Longrightarrow> well_keyed (ResourceIds_UnsetId t ids) st"
  by (simp add: well_keyed_def ResourceIds_UnsetId_def)

lemma fill_frame_trans:
  assumes "fill_frame ids a b" "fill_frame ids b c" shows "fill_frame ids a c"
proof -
  have "size_of b = size_of a" using assms(1) same_links_size by (simp add: fill_frame_def)
  then show ?thesis using assms unfolding fill_frame_def by (auto intro: same_links_trans)
qed

lemma fill_frame_keyed: "fill_frame ids st st' \<Longrightarrow> well_keyed ids st \<Longrightarrow> well_keyed ids st'"
  using same_links_ids [of st st'] by (simp add: fill_frame_def well_keyed_def)

lemma same_tree_filled: "same_tree st st' \<Longrightarrow> q < size_of st \<Longrightarrow> filled ids st' q = filled ids st q"
  using same_tree_ids [of st st' q] by (simp add: filled_def same_tree_fields) (simp add: same_tree_def split: option.split)

lemma fill_frame_rebuild:
  assumes "tree st" "r < size_of st" "RebuildPaths r st = Some st'" shows "fill_frame ids st st'"
proof -
  note same = RebuildPaths_tree [OF assms(3,1,2)]
  show ?thesis
    using same same_tree_links [OF same] by (simp add: fill_frame_def same_tree_fields same_tree_filled) (simp add: same_tree_def)
qed

text \<open>An identifier that is written belongs to a resource of the same type, so it is the one the value was read from, or not among \<open>ids\<close>.\<close>

lemma fill_frame_write:
  assumes tr: "tree st" and un: "unshared st" and r: "r < size_of st" and keyed: "well_keyed ids st"
    and a: "ids (Type st r) = Some a"
  shows "fill_frame ids st (write_id (wrapper st r) (id_value (resource_ids st ! a)) st)"
    and "filled ids (write_id (wrapper st r) (id_value (resource_ids st ! a)) st) r"
proof -
  let ?w = "wrapper st r" and ?v = "id_value (resource_ids st ! a)"
  let ?st = "write_id ?w ?v st"
  have w: "?w < length (resource_ids st)" using tree_linked [OF tr r] by (auto simp: linked_def)
  note same = write_id_links [OF w, of ?v]
  have res: "res ?st q = res st q" for q by (simp add: write_id_def)
  have ids_at: "resource_ids ?st ! b = (if b = ?w then (resource_ids st ! b)\<lparr>id_value := ?v\<rparr> else resource_ids st ! b)"
    if "b < length (resource_ids st)" for b using that w by (simp add: write_id_def)
  have fixed: "resource_ids ?st ! b = resource_ids st ! b" if b: "ids t = Some b" for t b
  proof (cases "b = ?w")
    case True
    then have "t = Type st r" using keyed b by (auto simp: well_keyed_def Type_def)
    then have "b = a" using a b by simp
    then show ?thesis using True ids_at [OF w] by simp
  next
    case False
    then show ?thesis using ids_at keyed b by (simp add: well_keyed_def)
  qed
  have types: "Type ?st q = Type st q" if "q < size_of st" for q using same_links_Type [OF same tr that] .
  show own: "filled ids ?st r"
    using fixed [OF a] a ids_at [OF w] by (simp add: filled_def res types [OF r] Id_def)
  have "filled ids ?st q" if q: "q < size_of st" "filled ids st q" for q
  proof (cases "wrapper st q = ?w")
    case True
    then have "q = r" using un r q(1) tree_linked [OF tr q(1)] tree_linked [OF tr r] by (auto simp: unshared_def linked_def)
    then show ?thesis using own by simp
  next
    case False
    then have "Id ?st q = Id st q" by (simp add: Id_def res) (simp add: write_id_def)
    then show ?thesis using q fixed by (simp add: filled_def res types [OF q(1)] split: option.splits)
  qed
  then show "fill_frame ids st ?st" using same fixed by (simp add: fill_frame_def res)
qed

lemma fill_frame_has_id:
  assumes "tree st" "r < size_of st" "HasId (res st r)" "SetHasId r True st = Some st'" shows "fill_frame ids st st'"
proof -
  have "(res st r)\<lparr>HasId := True\<rparr> = res st r" using assms(3) by (cases "res st r") simp
  then have "upd r (\<lambda>n. n\<lparr>HasId := True\<rparr>) st = st" by (simp add: upd_def)
  then show ?thesis using fill_frame_rebuild [OF assms(1,2)] assms(4) by (simp add: SetHasId_def)
qed

lemma fill_frame_filled: "fill_frame ids st st' \<Longrightarrow> q < size_of st \<Longrightarrow> filled ids st q \<Longrightarrow> filled ids st' q"
  by (simp add: fill_frame_def)

lemma fill_frame_refl [simp]: "fill_frame ids st st"
  by (simp add: fill_frame_def)

lemma fill_id_frame:
  assumes tr: "tree st" and un: "unshared st" and r: "r < size_of st" and keyed: "well_keyed ids st"
    and fill: "fill_id ids r st = Some st1"
  shows "fill_frame ids st st1 \<and> filled ids st1 r"
proof (cases "HasId (res st r) \<and> ids (Type st r) \<noteq> None")
  case True
  then obtain a where a: "ids (Type st r) = Some a" and has: "HasId (res st r)" by auto
  let ?v = "id_value (resource_ids st ! a)"
  let ?st = "write_id (wrapper st r) ?v st"
  note wr = fill_frame_write [OF tr un r keyed a]
  have st: "tree ?st" "r < size_of ?st" "HasId (res ?st r)"
    using wr(1) same_links_tree [OF _ tr, of ?st] r has by (simp_all add: fill_frame_def) (simp_all add: write_id_def)
  have "SetId r ?v [False] st = Some st1" using fill has a by (simp add: fill_id_def)
  then have "st1 = ?st \<or> SetHasId r True ?st = Some st1" 
    by (auto simp: SetId_def updateId_def rebuild_if_def Option.bind_eq_Some_conv split: if_splits)
  then have "fill_frame ids ?st st1" using fill_frame_has_id [OF st] by auto
  then show ?thesis using fill_frame_trans [OF wr(1)] fill_frame_filled [OF _ st(2) wr(2)] by blast
next
  case False
  then have "st1 = st" using fill by (auto simp: fill_id_def split: if_splits)
  then show ?thesis using False by (auto simp: filled_def split: option.split)
qed

lemma fill_climb:
  "tree st \<Longrightarrow> unshared st \<Longrightarrow> r < size_of st \<Longrightarrow> well_keyed ids st \<Longrightarrow> climb (fill_id ids) k r st = Some st' \<Longrightarrow>
    Chain k st r = Some ps \<Longrightarrow> fill_frame ids st st' \<and> (\<forall>q \<in> set (ps @ [r]). filled ids st' q)"
proof (induction k arbitrary: r st ps)
  case (Suc k)
  note tr = Suc.prems(1) and r = Suc.prems(3)
  obtain st1 where st1: "fill_id ids r st = Some st1" using Suc.prems(5) by (auto split: option.splits)
  have fr: "fill_frame ids st st1" "filled ids st1 r" using fill_id_frame [OF Suc.prems(1-4) st1] by simp_all
  then have same: "same_links st st1" by (simp add: fill_frame_def)
  have st1': "tree st1" "unshared st1" "well_keyed ids st1" "size_of st1 = size_of st"
    using same_links_tree [OF same tr] same_links_unshared [OF same Suc.prems(2)] fill_frame_keyed [OF fr(1) Suc.prems(4)]
      same_links_size [OF same] by simp_all
  show ?case
  proof (cases "parent (res st r)")
    case None
    then have reb: "RebuildPaths r st1 = Some st'" "ps = []"
      using Suc.prems(5,6) st1 by (simp_all add: same_links_fields [OF same r])
    have "fill_frame ids st1 st'" using fill_frame_rebuild [OF st1'(1) _ reb(1)] st1'(4) r by simp
    then show ?thesis using fr fill_frame_trans [OF fr(1)] fill_frame_filled [of ids st1 st' r] st1'(4) r reb(2) by simp
  next
    case (Some p)
    note up = tree_parent [OF tr r Some]
    from Suc.prems(5) have "climb (fill_id ids) k p st1 = Some st'" using st1 Some by (simp add: same_links_fields [OF same r])
    moreover obtain qs where qs: "Chain k st p = Some qs" "ps = qs @ [p]" using Suc.prems(6) Some by auto
    moreover have "Chain j st1 q = Chain j st q" if "q < size_of st" for j q
      using that
    proof (induction j arbitrary: q)
      case (Suc j)
      then show ?case using tree_parent(1) [OF tr Suc.prems] by (simp add: same_links_fields [OF same] split: option.split)
    qed simp
    ultimately have "fill_frame ids st1 st' \<and> (\<forall>q \<in> set (qs @ [p]). filled ids st' q)"
      using Suc.IH [OF st1'(1,2) _ st1'(3)] up(1) st1'(4) by simp
    then show ?thesis using fr fill_frame_trans [OF fr(1)] fill_frame_filled [of ids st1 st' r] st1'(4) r qs(2) by simp
  qed
qed simp

lemma BuildActualPath_frame:
  assumes "tree st" "fill_frame ids st st'"
  shows "r < size_of st \<Longrightarrow> BuildActualPath k st' ids [] r = BuildActualPath k st ids [] r"
proof (induction k arbitrary: r)
  case (Suc k)
  have same: "same_links st st'" using assms(2) by (simp add: fill_frame_def)
  have step: "BuildActualPath k st' ids [] p = BuildActualPath k st ids [] p" if "parent (res st r) = Some p" for p
    using Suc.IH [OF tree_parent(1) [OF assms(1) Suc.prems that]] .
  have ids: "(case ids t of None \<Rightarrow> ''/'' | Some a \<Rightarrow> ''/'' @ id_value (resource_ids st' ! a)) =
      (case ids t of None \<Rightarrow> ''/'' | Some a \<Rightarrow> ''/'' @ id_value (resource_ids st ! a))" for t
    using assms(2) by (simp add: fill_frame_def split: option.split)
  have own: "HasId (res st' r) = HasId (res st r)" "Type st' r = Type st r" "parent (res st' r) = parent (res st r)"
    using assms(2) Suc.prems same_links_Type [OF same assms(1) Suc.prems] same_links_fields [OF same Suc.prems]
    by (simp_all add: fill_frame_def)
  show ?case
    by (cases "parent (res st r)"; cases "BuildActualPath k st ids [] (the (parent (res st r)))")
       (simp_all add: own ids step Let_def)
qed simp

definition supplied :: "ResourceIdsBase \<Rightarrow> store \<Rightarrow> nat \<Rightarrow> bool" where
  "supplied ids st q \<longleftrightarrow> HasId (res st q) \<longrightarrow>
     (case ids (Type st q) of None \<Rightarrow> False | Some a \<Rightarrow> Tenancy (res st q) \<longrightarrow> id_value (resource_ids st ! a) \<noteq> '''')"

lemma BuildActualPath_full:
  assumes "good st"
  shows "r < size_of st \<Longrightarrow> Chain k st r = Some ps \<Longrightarrow> (\<forall>q \<in> set (ps @ [r]). filled ids st q \<and> supplied ids st q) \<Longrightarrow>
    BuildActualPath k st ids [] r = Some (fullActualPath (res st r))"
proof (induction k arbitrary: r ps)
  case (Suc k)
  have tr: "tree st" using assms by (simp add: good_def)
  have own: "(if HasId (res st r) then case ids (Type st r) of None \<Rightarrow> ''/'' | Some a \<Rightarrow> ''/'' @ id_value (resource_ids st ! a)
        else ''/'' @ Type st r) = actual_segment st r"
    using Suc.prems(3) by (auto simp: filled_def supplied_def actual_segment_def segment_def split: option.splits)
  show ?case
  proof (cases "parent (res st r)")
    case None
    then show ?thesis using up_to_date_full(2) [OF assms Suc.prems(1)] own by (simp add: Let_def)
  next
    case (Some p)
    then obtain qs where qs: "Chain k st p = Some qs" "ps = qs @ [p]" using Suc.prems(2) by auto
    then have "BuildActualPath k st ids [] p = Some (fullActualPath (res st p))"
      using Suc.IH [OF tree_parent(1) [OF tr Suc.prems(1) Some] qs(1)] Suc.prems(3) by simp
    then show ?thesis using up_to_date_full(2) [OF assms Suc.prems(1)] own Some by (simp add: Let_def)
  qed
qed simp

lemma supplied_frame:
  assumes "tree st" "fill_frame ids st st'" "q < size_of st" "supplied ids st q" shows "supplied ids st' q"
proof -
  have same: "same_links st st'" using assms(2) by (simp add: fill_frame_def)
  show ?thesis
    using assms(2-4) same_links_Type [OF same assms(1,3)] by (auto simp: supplied_def fill_frame_def split: option.splits)
qed

lemma Chain_links:
  assumes "tree st" "same_links st st'" shows "r < size_of st \<Longrightarrow> Chain k st' r = Chain k st r"
proof (induction k arbitrary: r)
  case (Suc k)
  then show ?case using tree_parent(1) [OF assms(1) Suc.prems] by (simp add: same_links_fields [OF assms(2)] split: option.split)
qed simp

lemma Chain_range: "tree st \<Longrightarrow> r < size_of st \<Longrightarrow> Chain k st r = Some ps \<Longrightarrow> q \<in> set ps \<Longrightarrow> q < size_of st"
proof (induction k arbitrary: r ps)
  case (Suc k)
  then show ?case using tree_parent(1) [OF Suc.prems(1,2)] by (auto split: option.splits)
qed simp

text \<open>
  When a request brings an identifier for every parameter of a resource's chain, not empty for a tenancy, filling the
  chain with them succeeds and the cached full path is then the path \<open>BuildActualPath\<close> computes from the identifiers
  alone. The identifiers may be objects of the resources themselves.
\<close>

theorem filled_path_is_request_path:
  assumes "resource_call\<^sup>*\<^sup>* empty_store st" "r < size_of st" "well_keyed ids st"
    and "Chain (size_of st) st r = Some ps" "\<forall>q \<in> set (ps @ [r]). supplied ids st q"
  shows "\<exists>st'. FillActualPaths (size_of st) ids r st = Some st' \<and>
    BuildActualPath (size_of st) st ids [] r = Some (fullActualPath (res st' r))"
proof -
  have st: "good st" "tree st" "unshared st" using good_reachable [OF assms(1)] by (simp_all add: good_def)
  obtain st' where st': "FillActualPaths (size_of st) ids r st = Some st'" "good st'" "size_of st' = size_of st"
    using good_settles [OF st(1) FillActualPaths_settles [OF st(2,3) assms(2)]] by blast
  have fr: "fill_frame ids st st'" "\<forall>q \<in> set (ps @ [r]). filled ids st' q"
    using fill_climb [OF st(2,3) assms(2,3) _ assms(4)] st'(1) by (simp_all add: FillActualPaths_climb)
  then have same: "same_links st st'" by (simp add: fill_frame_def)
  have "\<forall>q \<in> set (ps @ [r]). supplied ids st' q"
    using supplied_frame [OF st(2) fr(1)] assms(2,5) Chain_range [OF st(2) assms(2,4)] by auto
  then have "BuildActualPath (size_of st) st' ids [] r = Some (fullActualPath (res st' r))"
    using BuildActualPath_full [OF st'(2)] st'(3) assms(2,4) Chain_links [OF st(2) same assms(2)] fr(2) by simp
  then show ?thesis using st'(1) BuildActualPath_frame [OF st(2) fr(1) assms(2)] by simp
qed

subsection \<open>Chains of literal and parameter resources\<close>

lemma RebuildPaths_leaf:
  assumes "RebuildPaths r st = Some st'" "children (res st r) = []" "r < size_of st" "q \<noteq> r"
  shows "res st' q = res st q"
proof -
  obtain k where k: "size_of st = Suc k" using assms(3) by (cases "size_of st") auto
  obtain st1 where st1: "rebuild_own r st = Some st1"
    using assms(1) by (auto simp: RebuildPaths_def k split: option.splits)
  have "children (res st1 r) = []"
    using same_tree_fields(2) [OF rebuild_own_tree [OF st1 assms(3)] assms(3)] assms(2) by simp
  then have "st' = st1" using assms(1) st1 by (simp add: RebuildPaths_def k)
  then show ?thesis using rebuild_own_res [OF st1 assms(3)] assms(4) by metis
qed

lemma add_fresh_child:
  assumes "good st" "p < size_of st"
  shows "\<exists>st'. AddChild p (size_of st) [] (with_fresh t cfg st) = Some st' \<and> good st' \<and> size_of st' = Suc (size_of st) \<and>
    fullPathPrototype (res st' (size_of st)) = fullPathPrototype (res st p) @ (if HasId cfg then ''/:'' else ''/'') @ t \<and>
    (\<forall>q < size_of st. fullPathPrototype (res st' q) = fullPathPrototype (res st q))"
proof -
  let ?n = "size_of st" and ?st = "with_fresh t cfg st"
  let ?l = "link p ?n ?st"
  have range: "p < size_of ?st" "?n < size_of ?st" using assms(2) by simp_all
  have "(?n, p) \<notin> (edges ?st)\<^sup>*" using assms(2) by (auto simp: edges_def elim: converse_rtranclE)
  from good_AddChild [OF good_fresh [OF assms(1)] range this, of "[]"]
  obtain st' where st': "AddChild p ?n [] ?st = Some st'" "good st'" "size_of st' = Suc ?n" by auto
  then have reb: "RebuildPaths ?n ?l = Some st'" by (simp add: AddChild_link rebuild_if_def)
  have l: "tree ?l"
    by (rule link_tree) (use good_fresh [OF assms(1)] range \<open>(?n, p) \<notin> (edges ?st)\<^sup>*\<close> in \<open>simp_all add: good_def\<close>)
  note same = RebuildPaths_tree [OF reb l]
  have leaf: "children (res ?l ?n) = []" using link_fields(1) [OF range range(2)] assms(2) by simp
  have old: "fullPathPrototype (res st' q) = fullPathPrototype (res st q)" if "q < ?n" for q
    using RebuildPaths_leaf [OF reb leaf, of q] that range path_part_fields [OF link_fields(4) [OF range, of q]] by simp
  have "parent (res st' ?n) = Some p" "HasId (res st' ?n) = HasId (res ?st ?n)" "Type st' ?n = Type ?l ?n"
    using same_tree_fields(1,4) [OF same, of ?n] same_tree_ids [OF same, of ?n] link_fields(2,5) [OF range range(2)]
    by simp_all
  moreover have "Type ?l ?n = t" using link_fields(3) [OF range range(2)] with_fresh_own(1) [of t cfg st] by (simp add: Type_def)
  moreover have "HasId (res ?st ?n) = HasId cfg" by (simp add: fresh_def Let_def)
  ultimately have "fullPathPrototype (res st' ?n) = fullPathPrototype (res st p) @ (if HasId cfg then ''/:'' else ''/'') @ t"
    using up_to_date_full(1) [OF st'(2), of ?n] st'(3) old [OF assms(2)] by (simp add: segment_def)
  then show ?thesis using st' old by auto
qed

lemma extend_chain_path:
  "good st \<Longrightarrow> leaf < size_of st \<Longrightarrow> \<exists>leaf' st'. extend_chain ids leaf st = Some (leaf', st') \<and> good st' \<and>
     fullPathPrototype (res st' leaf') =
       fullPathPrototype (res st leaf) @ concat (map (\<lambda>i. ''/'' @ i @ ''/:'' @ i) ids) \<and>
     size_of st \<le> size_of st' \<and> (\<forall>q < size_of st. fullPathPrototype (res st' q) = fullPathPrototype (res st q))"
proof (induction ids arbitrary: leaf st)
  case (Cons i ids)
  obtain st1 where st1: "AddChild leaf (size_of st) [] (with_fresh i empty_config st) = Some st1" "good st1"
    "size_of st1 = Suc (size_of st)" "fullPathPrototype (res st1 (size_of st)) = fullPathPrototype (res st leaf) @ ''/'' @ i"
    "\<forall>q < size_of st. fullPathPrototype (res st1 q) = fullPathPrototype (res st q)"
    using add_fresh_child [OF Cons.prems, of i empty_config] by (auto simp: empty_config_def)
  let ?cfg = "empty_config\<lparr>HasId := True\<rparr>"
  obtain st2 where st2: "AddChild (size_of st) (size_of st1) [] (with_fresh i ?cfg st1) = Some st2" "good st2"
    "size_of st2 = Suc (size_of st1)"
    "fullPathPrototype (res st2 (size_of st1)) = fullPathPrototype (res st leaf) @ ''/'' @ i @ ''/:'' @ i"
    "\<forall>q < size_of st1. fullPathPrototype (res st2 q) = fullPathPrototype (res st1 q)"
    using add_fresh_child [OF st1(2), of "size_of st" i ?cfg] st1(3,4) by auto
  have new: "NewResource i [] st = Some (size_of st, with_fresh i empty_config st)"
    "NewResource i [?cfg] st1 = Some (size_of st1, with_fresh i ?cfg st1)"
    using NewResource_fresh [of "[]" i st] NewResource_fresh [of "[?cfg]" i st1] by (simp_all add: empty_config_def)
  have "AddChildResource leaf i st = Some (size_of st, st1)" using new(1) st1(1) by (simp add: AddChildResource_def)
  moreover obtain leaf' st' where "extend_chain ids (size_of st1) st2 = Some (leaf', st')" "good st'"
    "fullPathPrototype (res st' leaf') =
       fullPathPrototype (res st2 (size_of st1)) @ concat (map (\<lambda>i. ''/'' @ i @ ''/:'' @ i) ids)"
    "size_of st2 \<le> size_of st'" "\<forall>q < size_of st2. fullPathPrototype (res st' q) = fullPathPrototype (res st2 q)"
    using Cons.IH [OF st2(2), of "size_of st1"] st2(3) by auto
  ultimately show ?case using new(2) st2 st1 by auto
qed simp

text \<open>
  In any store the calls can reach, \<open>NewIdResourcesChain\<close> builds the nested path its comment promises: the leaf is routed
  at a literal segment for the head followed by a literal and a parameter segment for every identifier, in order.
\<close>

theorem id_chain_path:
  assumes "resource_call\<^sup>*\<^sup>* empty_store st"
  shows "\<exists>head leaf st'. NewIdResourcesChain first ids st = Some (head, leaf, st') \<and>
    fullPathPrototype (res st' head) = ''/'' @ first \<and>
    fullPathPrototype (res st' leaf) = ''/'' @ first @ concat (map (\<lambda>i. ''/'' @ i @ ''/:'' @ i) ids)"
proof -
  let ?st = "with_fresh first empty_config st"
  have "fullPathPrototype (res ?st (size_of st)) = ''/'' @ first" by (simp add: fresh_def Let_def empty_config_def)
  moreover have "NewResource first [] st = Some (size_of st, ?st)"
    using NewResource_fresh [of "[]" first st] by (simp add: empty_config_def)
  ultimately show ?thesis
    using extend_chain_path [OF good_fresh [OF good_reachable [OF assms]], of "size_of st" first empty_config ids]
    by (auto simp: NewIdResourcesChain_def)
qed

subsection \<open>Copies of a chain\<close>

text \<open>
  A named resource under a group, copied with \<open>CloneChain\<close> as \<open>NamedResourceOperation\<close> does, and the copy given an identifier:
  the original now has that identifier too, because both share one identifier object, while its cached path still has the old
  one; the next rebuild of the original moves it to the copy's path.
\<close>

theorem clone_chain_shares_identifier:
  "\<exists>st0 st1 st2 c st3 st4. NamedResource ''user'' empty_store = Some (0, st0) \<and> SetId 0 ''alice'' [] st0 = Some st1 \<and>
    CloneChain False 0 st1 = Some (c, st2) \<and> SetId c ''bob'' [] st2 = Some st3 \<and>
    Id st3 0 = ''bob'' \<and> fullActualPath (res st3 0) = ''/user/alice'' \<and> fullActualPath (res st3 c) = ''/user/bob'' \<and>
    RebuildPaths 0 st3 = Some st4 \<and> fullActualPath (res st4 0) = ''/user/bob''"
proof -
  define st0 where "st0 = snd (the (NamedResource ''user'' empty_store))"
  define st1 where "st1 = the (SetId 0 ''alice'' [] st0)"
  define c where "c = fst (the (CloneChain False 0 st1))"
  define st2 where "st2 = snd (the (CloneChain False 0 st1))"
  define st3 where "st3 = the (SetId c ''bob'' [] st2)"
  define st4 where "st4 = the (RebuildPaths 0 st3)"
  have "NamedResource ''user'' empty_store = Some (0, st0) \<and> SetId 0 ''alice'' [] st0 = Some st1 \<and>
    CloneChain False 0 st1 = Some (c, st2) \<and> SetId c ''bob'' [] st2 = Some st3 \<and>
    Id st3 0 = ''bob'' \<and> fullActualPath (res st3 0) = ''/user/alice'' \<and> fullActualPath (res st3 c) = ''/user/bob'' \<and>
    RebuildPaths 0 st3 = Some st4 \<and> fullActualPath (res st4 0) = ''/user/bob''"
    unfolding st4_def st3_def st2_def c_def st1_def st0_def by code_simp
  then show ?thesis by blast
qed

text \<open>
  Copying a resource with its operations also copies the operations of everything below it: the copy of a resource with
  no operation of its own, and of a child with one, answers at the parent's path the operation of the child.
\<close>

theorem clone_collects_operations_below:
  "\<exists>st1 st2 c st3. NewResource ''parent'' [] empty_store = Some (0, st1) \<and> AddChildResource 0 ''child'' st1 = Some (1, st2) \<and>
    Clone True 0 (AddOperation 1 0 [] (snd (NewOperation ''op'' 4 [] st2))) = Some (c, st3) \<and>
    operations (res st3 0) = [] \<and> map (op_name \<circ> op_at st3) (operations (res st3 c)) = [''op''] \<and> children (res st3 c) = []"
proof -
  define st1 where "st1 = snd (the (NewResource ''parent'' [] empty_store))"
  define st2 where "st2 = snd (the (AddChildResource 0 ''child'' st1))"
  define st where "st = AddOperation 1 0 [] (snd (NewOperation ''op'' 4 [] st2))"
  define c where "c = fst (the (Clone True 0 st))"
  define st3 where "st3 = snd (the (Clone True 0 st))"
  have "NewResource ''parent'' [] empty_store = Some (0, st1) \<and> AddChildResource 0 ''child'' st1 = Some (1, st2) \<and>
    Clone True 0 st = Some (c, st3) \<and> operations (res st3 0) = [] \<and>
    map (op_name \<circ> op_at st3) (operations (res st3 c)) = [''op''] \<and> children (res st3 c) = []"
    unfolding st3_def c_def st_def st2_def st1_def by code_simp
  then show ?thesis
    unfolding st_def by (rule exI [of _ st1, OF exI [of _ st2, OF exI [of _ c, OF exI [of _ st3]]]])
qed

subsection \<open>A sample tree\<close>

text \<open>The resource \<^verbatim>\<open>/user/:user\<close> and its group, as \<open>NamedResource\<close> builds them.\<close>

definition sample :: store where
  "sample = snd (the (NamedResource ''user'' empty_store))"

lemma sample_reachable: "resource_call\<^sup>*\<^sup>* empty_store sample"
proof -
  let ?cfg = "empty_config\<lparr>HasId := True\<rparr>"
  define s1 where "s1 = with_fresh ''user'' ?cfg empty_store"
  define s2 where "s2 = with_fresh ''user'' empty_config s1"
  have new: "NewResource ''user'' [?cfg] empty_store = Some (0, s1)" "NewResource ''user'' [] s1 = Some (1, s2)"
    using NewResource_fresh [of "[?cfg]" "''user''" empty_store] NewResource_fresh [of "[]" "''user''" s1]
    by (simp_all add: s1_def s2_def empty_config_def) (simp_all add: empty_store_def)
  have size: "size_of s2 = 2" by (simp add: s1_def s2_def) (simp add: empty_store_def)
  have "edges s2 = {}" by (simp add: s1_def s2_def with_fresh_edges) (simp add: edges_def empty_store_def)
  then have apart: "(0, 1) \<notin> (edges s2)\<^sup>*" by simp
  have "good s2" unfolding s1_def s2_def by (intro good_fresh good_empty)
  then obtain s3 where s3: "AddChild 1 0 [] s2 = Some s3" using good_AddChild [of s2 1 0 "[]"] size apart by auto
  have "sample = s3" using s3 by (simp add: sample_def NamedResource_def new)
  moreover have "resource_call empty_store s1" "resource_call s1 s2" "resource_call s2 s3"
    using resource_call.new [OF _ new(1)] resource_call.new [OF _ new(2)] resource_call.child [OF _ _ apart s3] size
    by (simp_all add: empty_config_def)
  ultimately show ?thesis by (meson converse_rtranclp_into_rtranclp rtranclp.rtrancl_refl)
qed

lemma sample_size: "size_of sample = 2"
  by code_simp

theorem cached_paths_are_those_of_the_tree_witness:
  "\<exists>ps. Chain (size_of sample) sample 0 = Some ps \<and> fullPathPrototype (res sample 0) = concat (map (segment sample) (ps @ [0])) \<and>
    fullActualPath (res sample 0) = concat (map (actual_segment sample) (ps @ [0]))"
  using cached_paths_are_those_of_the_tree [OF sample_reachable, of 0] by (simp add: sample_size)

theorem rebuild_paths_settles_subtree_witness:
  "\<exists>st'. RebuildPaths 1 sample = Some st' \<and> outdated st' \<subseteq> outdated sample - below sample 1 \<and> same_tree sample st'"
  using rebuild_paths_settles_subtree [of sample 1] good_reachable [OF sample_reachable] by (simp add: sample_size good_def)

theorem filled_path_is_request_path_witness:
  "\<exists>st'. FillActualPaths 2 [''user'' \<mapsto> 1] 0 sample = Some st' \<and>
    BuildActualPath 2 sample [''user'' \<mapsto> 1] [] 0 = Some (fullActualPath (res st' 0))"
proof -
  have "resource_ids sample = [\<lparr>id_type = ''user'', id_value = ''''\<rparr>, \<lparr>id_type = ''user'', id_value = ''''\<rparr>]"
    "Chain 2 sample 0 = Some [1]" "\<not> HasId (res sample 1)" "\<not> Tenancy (res sample 0)" "Type sample 0 = ''user''"
    by code_simp+
  then show ?thesis
    using filled_path_is_request_path [OF sample_reachable, of 0 "[''user'' \<mapsto> 1]" "[1]"]
    by (simp add: sample_size well_keyed_def supplied_def)
qed

theorem id_chain_path_witness:
  "\<exists>head leaf st'. NewIdResourcesChain ''files'' [''topic'', ''file''] sample = Some (head, leaf, st') \<and>
    fullPathPrototype (res st' head) = ''/files'' \<and> fullPathPrototype (res st' leaf) = ''/files/topic/:topic/file/:file''"
  using id_chain_path [OF sample_reachable, of "''files''" "[''topic'', ''file'']"] by simp

end
