(* ===== verification/Tenancies.thy ===== *)
theory Tenancies
  imports Strings
begin

section \<open>Tenancies: the manager, the controller and notifications\<close>

text \<open>
  Models \<^verbatim>\<open>pkg/multitenancy/tenancy_manager\<close> and the lookups of \<^verbatim>\<open>pkg/multitenancy/multitenancy.go\<close>: the registry of loaded
  tenancies, loading and unloading, creation, and the controller that changes the rows of the database and publishes
  notifications. The database is a parameter \<open>tenancy_crud\<close>, as are customers, pools and the connections to databases of tenancies, gathered
  in \<open>tenancy_env\<close>; oplogs, traces and log fields are left out. An error stands for the generic error code the code sets.
\<close>

subsection \<open>Data\<close>

datatype tenancy_error =
  CustomerNotFound | PoolNotFound | PoolNotActive | ConflictRole | ConflictPath | TenancyNotFound | ForeignDatabase |
  DbInitializationFailed | InvalidDisplay | DropUnsupported | Failure string

record TenancyData =
  Description :: string
  PATH :: string
  SHADOW_PATH :: string
  ROLE :: string
  CUSTOMER_ID :: string
  POOL_ID :: string
  DBNAME :: string
  DB_ROLE :: string
  BLOCK_PATH :: bool
  BLOCK_SHADOW_PATH :: bool

record TenancyDb = TenancyData +
  tenancy_id :: string
  ACTIVE :: bool

record TenancyItem = TenancyDb +
  CustomerLogin :: string
  PoolName :: string

record Customer =
  customer_id :: string
  customer_login :: string
  customer_blocked :: bool

record Pool =
  pool_id :: string
  pool_name :: string
  pool_active :: bool

type_synonym db_key = "string \<times> string \<times> string"

text \<open>A loaded tenancy; \<open>tenancy_Db\<close> is its connection, with the database it is connected to.\<close>

record TenancyBase = TenancyDb +
  tenancy_Customer :: "Customer option"
  tenancy_Pool :: "Pool option"
  tenancy_Db :: "(nat \<times> db_key) option"
  tenancy_Cache :: bool
  tenancy_Dispatcher :: bool

text \<open>The fields an update of a row sets.\<close>

datatype tenancy_fields =
  SetPATH string | SetSHADOW_PATH string | SetROLE string | SetACTIVE bool | SetCUSTOMER_ID string |
  SetPOOL_DB string string | SetDB_ROLE string | SetBLOCK bool bool

fun set_fields :: "tenancy_fields \<Rightarrow> TenancyDb \<Rightarrow> TenancyDb" where
  "set_fields (SetPATH p) t = t\<lparr>PATH := p\<rparr>"
| "set_fields (SetSHADOW_PATH p) t = t\<lparr>SHADOW_PATH := p\<rparr>"
| "set_fields (SetROLE r) t = t\<lparr>ROLE := r\<rparr>"
| "set_fields (SetACTIVE b) t = t\<lparr>ACTIVE := b\<rparr>"
| "set_fields (SetCUSTOMER_ID c) t = t\<lparr>CUSTOMER_ID := c\<rparr>"
| "set_fields (SetPOOL_DB p n) t = t\<lparr>POOL_ID := p, DBNAME := n\<rparr>"
| "set_fields (SetDB_ROLE r) t = t\<lparr>DB_ROLE := r\<rparr>"
| "set_fields (SetBLOCK a b) t = t\<lparr>BLOCK_PATH := a, BLOCK_SHADOW_PATH := b\<rparr>"

text \<open>The calls of the database layer the controller makes; addresses are pairs of an address and a tag.\<close>

record 'd tenancy_crud =
  list_by_id :: "string \<Rightarrow> 'd \<Rightarrow> string + TenancyItem list"
  list_by_display :: "string \<Rightarrow> string \<Rightarrow> 'd \<Rightarrow> string + TenancyItem list"
  list_pool :: "string option \<Rightarrow> 'd \<Rightarrow> string + TenancyItem list"
  exists_role :: "string \<Rightarrow> string \<Rightarrow> 'd \<Rightarrow> string + bool"
  exists_path :: "string \<Rightarrow> string \<Rightarrow> 'd \<Rightarrow> string + bool"
  exists_shadow_path :: "string \<Rightarrow> string \<Rightarrow> 'd \<Rightarrow> string + bool"
  create_tenancy :: "TenancyDb \<Rightarrow> 'd \<Rightarrow> string option \<times> 'd"
  update_tenancy :: "string \<Rightarrow> tenancy_fields \<Rightarrow> 'd \<Rightarrow> string option \<times> 'd"
  delete_tenancy :: "string \<Rightarrow> 'd \<Rightarrow> string option \<times> 'd"
  list_ips :: "string \<Rightarrow> 'd \<Rightarrow> string + (string \<times> string) list"
  create_ip :: "string \<Rightarrow> string \<times> string \<Rightarrow> 'd \<Rightarrow> string option \<times> 'd"
  delete_ip :: "string \<Rightarrow> string \<times> string \<Rightarrow> 'd \<Rightarrow> string option \<times> 'd"

text \<open>
  What surrounds the manager. \<open>Customers_Find\<close> says with an error whether its code is not found; the calls on databases of
  tenancies give the error they end with, if any.
\<close>

record 'd tenancy_env =
  CRUD :: "'d tenancy_crud"
  Customers_Find :: "string \<Rightarrow> (bool \<times> string) + Customer option"
  Customers_FindByLogin :: "string \<Rightarrow> string + Customer option"
  Pools_Pool :: "string \<Rightarrow> Pool option"
  Pools_PoolByName :: "string \<Rightarrow> Pool option"
  ConnectDatabaseService :: "Pool \<Rightarrow> string \<Rightarrow> string \<Rightarrow> bool \<Rightarrow> string option"
  metas_error :: "db_key \<Rightarrow> string option"
  create_meta_error :: "db_key \<Rightarrow> string option"
  UpgradeTenancyDatabase :: "db_key \<Rightarrow> string option"
  eventDispatcherBuilder :: "(TenancyBase \<Rightarrow> string option) option"
  app_dispatcher_is_default :: bool
  default_dispatcher_error :: "string option"
  DB_PREFIX :: string

record 'd TenancyManager =
  tenanciesById :: "string \<rightharpoonup> TenancyBase"
  tenanciesByPath :: "string \<rightharpoonup> TenancyBase"
  tenanciesByShadowPath :: "string \<rightharpoonup> TenancyBase"
  tenancyIpAddresses :: "string \<rightharpoonup> (string \<rightharpoonup> string set)"
  open_dbs :: "nat list"
  next_db :: nat
  metas :: "db_key \<Rightarrow> string list"
  tenancy_backend :: 'd
  published :: "(string \<times> string \<times> string) list"

definition TENANCY_DATABASE_ROLE :: string where "TENANCY_DATABASE_ROLE = ''tenancy_db''"
definition OpAdd :: string where "OpAdd = ''add''"
definition OpDelete :: string where "OpDelete = ''delete''"
definition OpActivate :: string where "OpActivate = ''activate''"
definition OpDeactivate :: string where "OpDeactivate = ''deactivate''"
definition OpSetPath :: string where "OpSetPath = ''set_path''"
definition OpSetShadowPath :: string where "OpSetShadowPath = ''set_shadow_path''"
definition OpSetRole :: string where "OpSetRole = ''set_role''"
definition OpSetCustomer :: string where "OpSetCustomer = ''set_customer''"
definition OpChangePoolOrDb :: string where "OpChangePoolOrDb = ''change_pool_or_db''"
definition OpAddIpAddress :: string where "OpAddIpAddress = ''add_ip_address''"
definition OpDeleteIpAddress :: string where "OpDeleteIpAddress = ''delete_ip_address''"
definition OpSetDbRole :: string where "OpSetDbRole = ''set_db_role''"
definition OpSetPathBlocked :: string where "OpSetPathBlocked = ''set_path_blocked''"

subsection \<open>A tenancy and its database\<close>

definition row :: "('z) TenancyDb_scheme \<Rightarrow> TenancyDb" where
  "row t = TenancyDb.truncate t"

definition NewTenancy :: "TenancyDb \<Rightarrow> TenancyBase" where
  "NewTenancy data = TenancyDb.extend data
     \<lparr>tenancy_Customer = None, tenancy_Pool = None, tenancy_Db = None, tenancy_Cache = False, tenancy_Dispatcher = False\<rparr>"

text \<open>\<open>IsActive\<close> follows the pointers to the customer and the pool only for an active row; nil there panics, which \<open>None\<close> stands for.\<close>

definition TenancyBase_IsActive :: "TenancyBase \<Rightarrow> bool option" where
  "TenancyBase_IsActive d =
     (if \<not> ACTIVE d then Some False
      else case tenancy_Customer d of
        None \<Rightarrow> None
      | Some c \<Rightarrow> if customer_blocked c then Some False
                  else map_option pool_active (tenancy_Pool d))"

definition CloseTenancyDb :: "TenancyBase \<Rightarrow> 'd TenancyManager \<Rightarrow> 'd TenancyManager" where
  "CloseTenancyDb t s = (case tenancy_Db t of None \<Rightarrow> s | Some (h, _) \<Rightarrow> s\<lparr>open_dbs := remove1 h (open_dbs s)\<rparr>)"

definition ConnectDatabase ::
    "'d tenancy_env \<Rightarrow> bool \<Rightarrow> Pool \<Rightarrow> TenancyBase \<Rightarrow> 'd TenancyManager \<Rightarrow> string option \<times> TenancyBase \<times> 'd TenancyManager" where
  "ConnectDatabase env newDb p t s =
     (let dbRole = (if DB_ROLE t = '''' then TENANCY_DATABASE_ROLE else DB_ROLE t) in
      case ConnectDatabaseService env p dbRole (DBNAME t) newDb of
        Some err \<Rightarrow> (Some err, t, s)
      | None \<Rightarrow> (None, t\<lparr>tenancy_Db := Some (next_db s, pool_id p, dbRole, DBNAME t)\<rparr>,
                 s\<lparr>open_dbs := next_db s # open_dbs s, next_db := Suc (next_db s)\<rparr>))"

definition CheckTenancyDatabase :: "'d tenancy_env \<Rightarrow> db_key \<Rightarrow> string \<Rightarrow> 'd TenancyManager \<Rightarrow> tenancy_error option" where
  "CheckTenancyDatabase env key i s =
     (case metas_error env key of
        Some err \<Rightarrow> Some (Failure err)
      | None \<Rightarrow> if i \<in> set (metas s key) then None else Some ForeignDatabase)"

definition TenancyBase_Init ::
    "'d tenancy_env \<Rightarrow> TenancyDb \<Rightarrow> 'd TenancyManager \<Rightarrow> tenancy_error option \<times> TenancyBase \<times> 'd TenancyManager" where
  "TenancyBase_Init env data s =
     (let t = NewTenancy data in
      case Customers_Find env (CUSTOMER_ID data) of
        Inl (_, err) \<Rightarrow> (Some (Failure err), t, s)
      | Inr None \<Rightarrow> (None, t, s)
      | Inr (Some c) \<Rightarrow>
          (let t1 = t\<lparr>tenancy_Customer := Some c\<rparr> in
           if \<not> ACTIVE t1 then (None, t1, s)
           else
             (let t2 = t1\<lparr>tenancy_Cache := True\<rparr> in
              case Pools_Pool env (POOL_ID data) of
                None \<Rightarrow> (Some PoolNotFound, t2, s)
              | Some p \<Rightarrow>
                  (let t3 = t2\<lparr>tenancy_Pool := Some p\<rparr> in
                   if \<not> pool_active p then (None, t3, s)
                   else case ConnectDatabase env False p t3 s of
                     (Some err, t4, s1) \<Rightarrow> (Some (Failure err), t4, s1)
                   | (None, t4, s1) \<Rightarrow>
                       (case CheckTenancyDatabase env (snd (the (tenancy_Db t4))) (tenancy_id t4) s1 of
                          Some e \<Rightarrow> (Some e, t4, CloseTenancyDb t4 s1)
                        | None \<Rightarrow> (None, t4, s1))))))"

subsection \<open>The registry of the manager\<close>

definition Tenancy :: "string \<Rightarrow> 'd TenancyManager \<Rightarrow> TenancyBase option" where
  "Tenancy i s = tenanciesById s i"

definition TenancyByPath :: "string \<Rightarrow> 'd TenancyManager \<Rightarrow> TenancyBase option" where
  "TenancyByPath path s = tenanciesByPath s path"

definition TenancyByShadowPath :: "string \<Rightarrow> 'd TenancyManager \<Rightarrow> TenancyBase option" where
  "TenancyByShadowPath path s = tenanciesByShadowPath s path"

definition HasIpAddressByPath :: "string \<Rightarrow> string \<Rightarrow> string \<Rightarrow> 'd TenancyManager \<Rightarrow> bool" where
  "HasIpAddressByPath path ipAddress tag s =
     (case tenancyIpAddresses s path of
        None \<Rightarrow> False
      | Some tenancyAddresses \<Rightarrow>
          (case tenancyAddresses tag of None \<Rightarrow> False | Some tagAddresses \<Rightarrow> ipAddress \<in> tagAddresses))"

definition UnloadTenancy :: "string \<Rightarrow> 'd TenancyManager \<Rightarrow> 'd TenancyManager" where
  "UnloadTenancy i s =
     (case tenanciesById s i of
        None \<Rightarrow> s
      | Some t \<Rightarrow>
          (let s1 = CloseTenancyDb t s in
           s1\<lparr>tenanciesById := (tenanciesById s1)(i := None),
              tenanciesByPath := (tenanciesByPath s1)(PATH t := None),
              tenanciesByShadowPath := (tenanciesByShadowPath s1)(SHADOW_PATH t := None),
              tenancyIpAddresses := (tenancyIpAddresses s1)(PATH t := None, SHADOW_PATH t := None)\<rparr>))"

definition add_address :: "string \<times> string \<Rightarrow> (string \<rightharpoonup> string set) \<Rightarrow> (string \<rightharpoonup> string set)" where
  "add_address a tags = tags(snd a \<mapsto> insert (fst a) (case tags (snd a) of None \<Rightarrow> {} | Some known \<Rightarrow> known))"

definition LoadTenancyFromData ::
    "'d tenancy_env \<Rightarrow> TenancyDb \<Rightarrow> 'd TenancyManager \<Rightarrow> (tenancy_error + TenancyBase) \<times> 'd TenancyManager" where
  "LoadTenancyFromData env data s =
     (case TenancyBase_Init env data s of
        (Some e, _, s1) \<Rightarrow> (Inl e, s1)
      | (None, t, s1) \<Rightarrow>
          (let addresses = (case list_ips (CRUD env) (tenancy_id data) (tenancy_backend s1) of Inl _ \<Rightarrow> [] | Inr xs \<Rightarrow> xs);
               s2 = s1\<lparr>tenanciesById := (tenanciesById s1)(tenancy_id t \<mapsto> t),
                       tenanciesByPath := (tenanciesByPath s1)(PATH t \<mapsto> t),
                       tenanciesByShadowPath := (tenanciesByShadowPath s1)(SHADOW_PATH t \<mapsto> t)\<rparr>;
               tags = fold add_address addresses (\<lambda>_. None)
           in (Inr t, if addresses = [] then s2
                      else s2\<lparr>tenancyIpAddresses := (tenancyIpAddresses s2)(PATH t \<mapsto> tags, SHADOW_PATH t \<mapsto> tags)\<rparr>)))"

definition ParseTenancyDisplay :: "string \<Rightarrow> (string \<times> string) option" where
  "ParseTenancyDisplay display = (case Split display ''/'' of [a, b] \<Rightarrow> Some (a, b) | _ \<Rightarrow> None)"

definition FindTenancy :: "'d tenancy_env \<Rightarrow> string \<Rightarrow> bool list \<Rightarrow> 'd TenancyManager \<Rightarrow> tenancy_error + TenancyItem" where
  "FindTenancy env i idIsDisplay s =
     (case (if OptionalArg False idIsDisplay
            then (case ParseTenancyDisplay i of
                    None \<Rightarrow> Inl InvalidDisplay
                  | Some (customerLogin, role) \<Rightarrow>
                      map_sum Failure id (list_by_display (CRUD env) customerLogin role (tenancy_backend s)))
            else map_sum Failure id (list_by_id (CRUD env) i (tenancy_backend s))) of
        Inl e \<Rightarrow> Inl e
      | Inr [] \<Rightarrow> Inl TenancyNotFound
      | Inr (t # _) \<Rightarrow> Inr t)"

definition LoadTenancy ::
    "'d tenancy_env \<Rightarrow> string \<Rightarrow> 'd TenancyManager \<Rightarrow> (tenancy_error + TenancyBase) \<times> 'd TenancyManager" where
  "LoadTenancy env i s =
     (case FindTenancy env i [] s of Inl e \<Rightarrow> (Inl e, s) | Inr item \<Rightarrow> LoadTenancyFromData env (row item) s)"

text \<open>The handler of a notification.\<close>

definition Notification_Handle ::
    "'d tenancy_env \<Rightarrow> string \<Rightarrow> string \<Rightarrow> 'd TenancyManager \<Rightarrow> tenancy_error option \<times> 'd TenancyManager" where
  "Notification_Handle env i op s =
     (let s1 = UnloadTenancy i s in
      if op \<noteq> OpDelete
      then (case LoadTenancy env i s1 of (Inl e, s2) \<Rightarrow> (Some e, s2) | (Inr _, s2) \<Rightarrow> (None, s2))
      else (None, s1))"

primrec load_each :: "'d tenancy_env \<Rightarrow> TenancyItem list \<Rightarrow> 'd TenancyManager \<Rightarrow> tenancy_error option \<times> 'd TenancyManager" where
  "load_each env [] s = (None, s)"
| "load_each env (t # ts) s =
     (case LoadTenancyFromData env (row t) s of (Inl e, s1) \<Rightarrow> (Some e, s1) | (Inr _, s1) \<Rightarrow> load_each env ts s1)"

definition LoadTenancies :: "'d tenancy_env \<Rightarrow> string option \<Rightarrow> 'd TenancyManager \<Rightarrow> tenancy_error option \<times> 'd TenancyManager" where
  "LoadTenancies env selfPool s =
     (case list_pool (CRUD env) selfPool (tenancy_backend s) of
        Inl err \<Rightarrow> (Some (Failure err), s)
      | Inr items \<Rightarrow> load_each env items s)"

definition NewTenancyManager :: "(db_key \<Rightarrow> string list) \<Rightarrow> 'd \<Rightarrow> 'd TenancyManager" where
  "NewTenancyManager dbs d = \<lparr>tenanciesById = (\<lambda>_. None), tenanciesByPath = (\<lambda>_. None), tenanciesByShadowPath = (\<lambda>_. None),
     tenancyIpAddresses = (\<lambda>_. None), open_dbs = [], next_db = 0, metas = dbs, tenancy_backend = d, published = []\<rparr>"

subsection \<open>Creation\<close>

definition FindCustomer :: "'d tenancy_env \<Rightarrow> string \<Rightarrow> tenancy_error + Customer" where
  "FindCustomer env i =
     (case (case Customers_Find env i of
              Inl (True, _) \<Rightarrow> Customers_FindByLogin env i
            | Inl (False, err) \<Rightarrow> Inl err
            | Inr owner \<Rightarrow> Inr owner) of
        Inl err \<Rightarrow> Inl (Failure err)
      | Inr None \<Rightarrow> Inl CustomerNotFound
      | Inr (Some owner) \<Rightarrow> Inr owner)"

definition FindPool :: "'d tenancy_env \<Rightarrow> string \<Rightarrow> tenancy_error + Pool" where
  "FindPool env i =
     (case Pools_Pool env i of
        Some p \<Rightarrow> Inr p
      | None \<Rightarrow> (case Pools_PoolByName env i of Some p \<Rightarrow> Inr p | None \<Rightarrow> Inl PoolNotFound))"

definition CheckDuplicateRole :: "'d tenancy_env \<Rightarrow> string \<Rightarrow> string \<Rightarrow> 'd TenancyManager \<Rightarrow> tenancy_error option" where
  "CheckDuplicateRole env customerId role s =
     (case exists_role (CRUD env) customerId role (tenancy_backend s) of
        Inl err \<Rightarrow> Some (Failure err)
      | Inr True \<Rightarrow> Some ConflictRole
      | Inr False \<Rightarrow> None)"

definition CheckDuplicatePath :: "'d tenancy_env \<Rightarrow> string \<Rightarrow> string \<Rightarrow> 'd TenancyManager \<Rightarrow> tenancy_error option" where
  "CheckDuplicatePath env poolId path s =
     (case exists_path (CRUD env) poolId path (tenancy_backend s) of
        Inl err \<Rightarrow> Some (Failure err)
      | Inr True \<Rightarrow> Some ConflictPath
      | Inr False \<Rightarrow>
          (case exists_shadow_path (CRUD env) poolId path (tenancy_backend s) of
             Inl err \<Rightarrow> Some (Failure err)
           | Inr True \<Rightarrow> Some ConflictPath
           | Inr False \<Rightarrow> None))"

text \<open>The random texts a creation draws.\<close>

record tenancy_random =
  new_id :: string
  new_path :: string
  new_shadow_path :: string

definition dispatcher_error :: "'d tenancy_env \<Rightarrow> TenancyBase \<Rightarrow> string option" where
  "dispatcher_error env t =
     (case eventDispatcherBuilder env of
        Some build \<Rightarrow> build t
      | None \<Rightarrow> if \<not> app_dispatcher_is_default env then Some ''unsupported type of  app event dispatcher''
                else default_dispatcher_error env)"

text \<open>The new tenancy before its database is touched.\<close>

definition new_tenancy :: "'d tenancy_env \<Rightarrow> tenancy_random \<Rightarrow> Customer \<Rightarrow> Pool \<Rightarrow> TenancyData \<Rightarrow> TenancyBase" where
  "new_tenancy env rnd customer p data =
     (let t = (NewTenancy (TenancyData.extend data \<lparr>tenancy_id = new_id rnd, ACTIVE = True\<rparr>))
                \<lparr>CUSTOMER_ID := customer_id customer, POOL_ID := pool_id p, tenancy_Pool := Some p\<rparr>
      in t\<lparr>PATH := (if PATH t = '''' then map go_lower (new_path rnd) else PATH t),
           SHADOW_PATH := (if SHADOW_PATH t = '''' then map go_lower (new_shadow_path rnd) else SHADOW_PATH t),
           DBNAME := (if DBNAME t = '''' then DB_PREFIX env @ ''_'' @ customer_login customer @ ''_'' @ ROLE data else DBNAME t)\<rparr>)"

text \<open>Upgrade of the new database and its mark; the connection is closed afterwards on every path.\<close>

definition mark_database ::
    "'d tenancy_env \<Rightarrow> db_key \<Rightarrow> string \<Rightarrow> 'd TenancyManager \<Rightarrow> tenancy_error option \<times> 'd TenancyManager" where
  "mark_database env key i s =
     (case UpgradeTenancyDatabase env key of
        Some _ \<Rightarrow> (Some DbInitializationFailed, s)
      | None \<Rightarrow>
          (case metas_error env key of
             Some err \<Rightarrow> (Some (Failure err), s)
           | None \<Rightarrow>
               (case metas s key of
                  m # _ \<Rightarrow> (if m \<noteq> i then Some ForeignDatabase else None, s)
                | [] \<Rightarrow>
                    (case create_meta_error env key of
                       Some err \<Rightarrow> (Some (Failure err), s)
                     | None \<Rightarrow> (None, s\<lparr>metas := (metas s)(key := [i])\<rparr>)))))"

definition CreateTenancy ::
    "'d tenancy_env \<Rightarrow> tenancy_random \<Rightarrow> TenancyData \<Rightarrow> 'd TenancyManager \<Rightarrow> (tenancy_error + TenancyItem) \<times> 'd TenancyManager" where
  "CreateTenancy env rnd data s =
     (case FindCustomer env (CUSTOMER_ID data) of
        Inl e \<Rightarrow> (Inl e, s)
      | Inr customer \<Rightarrow>
     (case FindPool env (POOL_ID data) of
        Inl e \<Rightarrow> (Inl e, s)
      | Inr p \<Rightarrow>
          if \<not> pool_active p then (Inl PoolNotActive, s)
          else
     (case CheckDuplicateRole env (CUSTOMER_ID data) (ROLE data) s of
        Some e \<Rightarrow> (Inl e, s)
      | None \<Rightarrow>
          (let t = new_tenancy env rnd customer p data in
     (case CheckDuplicatePath env (POOL_ID data) (PATH data) s of
        Some e \<Rightarrow> (Inl e, s)
      | None \<Rightarrow>
     (case CheckDuplicatePath env (POOL_ID data) (SHADOW_PATH data) s of
        Some e \<Rightarrow> (Inl e, s)
      | None \<Rightarrow>
     (case dispatcher_error env t of
        Some err \<Rightarrow> (Inl (Failure err), s)
      | None \<Rightarrow>
     (case ConnectDatabase env True p (t\<lparr>tenancy_Dispatcher := True\<rparr>) s of
        (Some err, _, s1) \<Rightarrow> (Inl (Failure err), s1)
      | (None, t1, s1) \<Rightarrow>
     (case mark_database env (snd (the (tenancy_Db t1))) (tenancy_id t1) s1 of
        (Some e, s2) \<Rightarrow> (Inl e, CloseTenancyDb t1 s2)
      | (None, s2) \<Rightarrow>
          (Inr (TenancyDb.extend (row t1) \<lparr>CustomerLogin = customer_login customer, PoolName = pool_name p\<rparr>),
           CloseTenancyDb t1 s2)))))))))) "

subsection \<open>The controller\<close>

definition PublishOp :: "'z TenancyDb_scheme \<Rightarrow> string \<Rightarrow> string list \<Rightarrow> 'd TenancyManager \<Rightarrow> 'd TenancyManager" where
  "PublishOp t op poolIds s =
     s\<lparr>published := published s @ map (\<lambda>p. (p, tenancy_id t, op)) (if poolIds \<noteq> [] then poolIds else [POOL_ID t])\<rparr>"

text \<open>The end most calls share: the row is updated and the change published.\<close>

definition update_and_publish ::
    "'d tenancy_env \<Rightarrow> TenancyItem \<Rightarrow> tenancy_fields \<Rightarrow> string \<Rightarrow> 'd TenancyManager \<Rightarrow> tenancy_error option \<times> 'd TenancyManager" where
  "update_and_publish env t f op s =
     (case update_tenancy (CRUD env) (tenancy_id t) f (tenancy_backend s) of
        (Some err, d) \<Rightarrow> (Some (Failure err), s\<lparr>tenancy_backend := d\<rparr>)
      | (None, d) \<Rightarrow> (None, PublishOp t op [] (s\<lparr>tenancy_backend := d\<rparr>)))"

definition Add ::
    "'d tenancy_env \<Rightarrow> tenancy_random \<Rightarrow> TenancyData \<Rightarrow> 'd TenancyManager \<Rightarrow> (tenancy_error + TenancyItem) \<times> 'd TenancyManager" where
  "Add env rnd data s =
     (case CreateTenancy env rnd data s of
        (Inl e, s1) \<Rightarrow> (Inl e, s1)
      | (Inr t, s1) \<Rightarrow>
          (case create_tenancy (CRUD env) (row t) (tenancy_backend s1) of
             (Some err, d) \<Rightarrow> (Inl (Failure err), s1\<lparr>tenancy_backend := d\<rparr>)
           | (None, d) \<Rightarrow> (Inr t, PublishOp t OpAdd [] (s1\<lparr>tenancy_backend := d\<rparr>))))"

definition SetPath ::
    "'d tenancy_env \<Rightarrow> string \<Rightarrow> string \<Rightarrow> bool list \<Rightarrow> 'd TenancyManager \<Rightarrow> tenancy_error option \<times> 'd TenancyManager" where
  "SetPath env i path idIsDisplay s =
     (case FindTenancy env i idIsDisplay s of
        Inl e \<Rightarrow> (Some e, s)
      | Inr t \<Rightarrow>
          (case CheckDuplicatePath env (POOL_ID t) path s of
             Some e \<Rightarrow> (Some e, s)
           | None \<Rightarrow> update_and_publish env t (SetPATH path) OpSetPath s))"

definition SetShadowPath ::
    "'d tenancy_env \<Rightarrow> string \<Rightarrow> string \<Rightarrow> bool list \<Rightarrow> 'd TenancyManager \<Rightarrow> tenancy_error option \<times> 'd TenancyManager" where
  "SetShadowPath env i path idIsDisplay s =
     (case FindTenancy env i idIsDisplay s of
        Inl e \<Rightarrow> (Some e, s)
      | Inr t \<Rightarrow>
          (case CheckDuplicatePath env (POOL_ID t) path s of
             Some e \<Rightarrow> (Some e, s)
           | None \<Rightarrow> update_and_publish env t (SetSHADOW_PATH path) OpSetShadowPath s))"

definition SetRole ::
    "'d tenancy_env \<Rightarrow> string \<Rightarrow> string \<Rightarrow> bool list \<Rightarrow> 'd TenancyManager \<Rightarrow> tenancy_error option \<times> 'd TenancyManager" where
  "SetRole env i role idIsDisplay s =
     (case FindTenancy env i idIsDisplay s of
        Inl e \<Rightarrow> (Some e, s)
      | Inr t \<Rightarrow>
          (case CheckDuplicateRole env (CUSTOMER_ID t) role s of
             Some e \<Rightarrow> (Some e, s)
           | None \<Rightarrow> update_and_publish env t (SetROLE role) OpSetRole s))"

definition Activate ::
    "'d tenancy_env \<Rightarrow> string \<Rightarrow> bool list \<Rightarrow> 'd TenancyManager \<Rightarrow> tenancy_error option \<times> 'd TenancyManager" where
  "Activate env i idIsDisplay s =
     (case FindTenancy env i idIsDisplay s of
        Inl e \<Rightarrow> (Some e, s)
      | Inr t \<Rightarrow> update_and_publish env t (SetACTIVE True) OpActivate s)"

definition Deactivate ::
    "'d tenancy_env \<Rightarrow> string \<Rightarrow> bool list \<Rightarrow> 'd TenancyManager \<Rightarrow> tenancy_error option \<times> 'd TenancyManager" where
  "Deactivate env i idIsDisplay s =
     (case FindTenancy env i idIsDisplay s of
        Inl e \<Rightarrow> (Some e, s)
      | Inr t \<Rightarrow> update_and_publish env t (SetACTIVE False) OpDeactivate s)"

definition SetCustomer ::
    "'d tenancy_env \<Rightarrow> string \<Rightarrow> string \<Rightarrow> bool list \<Rightarrow> 'd TenancyManager \<Rightarrow> tenancy_error option \<times> 'd TenancyManager" where
  "SetCustomer env i customer idIsDisplay s =
     (case FindTenancy env i idIsDisplay s of
        Inl e \<Rightarrow> (Some e, s)
      | Inr t \<Rightarrow>
          (case FindCustomer env customer of
             Inl e \<Rightarrow> (Some e, s)
           | Inr cust \<Rightarrow>
               (case CheckDuplicateRole env (customer_id cust) (ROLE t) s of
                  Some e \<Rightarrow> (Some e, s)
                | None \<Rightarrow> update_and_publish env t (SetCUSTOMER_ID (customer_id cust)) OpSetCustomer s)))"

text \<open>The trial of a tenancy with new parameters that \<open>ChangePoolOrDb\<close> and \<open>SetDbRole\<close> make before they store them.\<close>

definition try_tenancy :: "'d tenancy_env \<Rightarrow> TenancyDb \<Rightarrow> 'd TenancyManager \<Rightarrow> tenancy_error option \<times> 'd TenancyManager" where
  "try_tenancy env data s =
     (case TenancyBase_Init env data s of
        (Some e, t, s1) \<Rightarrow> (Some e, CloseTenancyDb t s1)
      | (None, t, s1) \<Rightarrow>
          (case tenancy_Pool t of
             None \<Rightarrow> Some PoolNotActive
           | Some p \<Rightarrow> if pool_active p then None else Some PoolNotActive, CloseTenancyDb t s1))"

definition ChangePoolOrDb ::
    "'d tenancy_env \<Rightarrow> string \<Rightarrow> string \<Rightarrow> string \<Rightarrow> bool list \<Rightarrow> 'd TenancyManager \<Rightarrow> tenancy_error option \<times> 'd TenancyManager" where
  "ChangePoolOrDb env i poolId dbName idIsDisplay s =
     (case FindTenancy env i idIsDisplay s of
        Inl e \<Rightarrow> (Some e, s)
      | Inr t \<Rightarrow>
     (let oldPoolId = POOL_ID t; pId = (if poolId = '''' then POOL_ID t else poolId) in
      case FindPool env pId of
        Inl e \<Rightarrow> (Some e, s)
      | Inr p \<Rightarrow>
     (case (if pool_id p \<noteq> POOL_ID t
            then (case CheckDuplicatePath env (pool_id p) (PATH t) s of
                    Some e \<Rightarrow> Some e
                  | None \<Rightarrow> CheckDuplicatePath env (pool_id p) (SHADOW_PATH t) s)
            else None) of
        Some e \<Rightarrow> (Some e, s)
      | None \<Rightarrow>
     (let dbN = (if dbName = '''' then DBNAME t else dbName); t1 = t\<lparr>DBNAME := dbN, POOL_ID := pool_id p\<rparr> in
      case (if ACTIVE t1 then try_tenancy env (row t1) s else (None, s)) of
        (Some e, s1) \<Rightarrow> (Some e, s1)
      | (None, s1) \<Rightarrow>
     (case update_tenancy (CRUD env) (tenancy_id t1) (SetPOOL_DB (pool_id p) dbN) (tenancy_backend s1) of
        (Some err, d) \<Rightarrow> (Some (Failure err), s1\<lparr>tenancy_backend := d\<rparr>)
      | (None, d) \<Rightarrow>
          (let s2 = s1\<lparr>tenancy_backend := d\<rparr>;
               s3 = (if oldPoolId \<noteq> pId then PublishOp t1 OpDelete [oldPoolId] s2 else s2)
           in (None, PublishOp t1 OpChangePoolOrDb [] s3)))))))"

definition SetDbRole ::
    "'d tenancy_env \<Rightarrow> string \<Rightarrow> string \<Rightarrow> bool list \<Rightarrow> 'd TenancyManager \<Rightarrow> tenancy_error option \<times> 'd TenancyManager" where
  "SetDbRole env i dbRole idIsDisplay s =
     (case FindTenancy env i idIsDisplay s of
        Inl e \<Rightarrow> (Some e, s)
      | Inr t \<Rightarrow>
          (case try_tenancy env (row (t\<lparr>DB_ROLE := dbRole\<rparr>)) s of
             (Some e, s1) \<Rightarrow> (Some e, s1)
           | (None, s1) \<Rightarrow> update_and_publish env t (SetDB_ROLE dbRole) OpSetDbRole s1))"

definition Tenancy_Delete ::
    "'d tenancy_env \<Rightarrow> string \<Rightarrow> bool \<Rightarrow> bool list \<Rightarrow> 'd TenancyManager \<Rightarrow> tenancy_error option \<times> 'd TenancyManager" where
  "Tenancy_Delete env i withDatabase idIsDisplay s =
     (if withDatabase then (Some DropUnsupported, s)
      else case FindTenancy env i idIsDisplay s of
        Inl e \<Rightarrow> (Some e, s)
      | Inr t \<Rightarrow>
          (case delete_tenancy (CRUD env) (tenancy_id t) (tenancy_backend s) of
             (Some err, d) \<Rightarrow> (Some (Failure err), s\<lparr>tenancy_backend := d\<rparr>)
           | (None, d) \<Rightarrow> (None, PublishOp t OpDelete [] (s\<lparr>tenancy_backend := d\<rparr>))))"

definition DeleteIpAddress ::
    "'d tenancy_env \<Rightarrow> string \<Rightarrow> string \<Rightarrow> string \<Rightarrow> bool list \<Rightarrow> 'd TenancyManager \<Rightarrow> tenancy_error option \<times> 'd TenancyManager" where
  "DeleteIpAddress env i ipAddress tag idIsDisplay s =
     (case FindTenancy env i idIsDisplay s of
        Inl e \<Rightarrow> (Some e, s)
      | Inr t \<Rightarrow>
          (case delete_ip (CRUD env) (tenancy_id t) (ipAddress, tag) (tenancy_backend s) of
             (Some err, d) \<Rightarrow> (Some (Failure err), s\<lparr>tenancy_backend := d\<rparr>)
           | (None, d) \<Rightarrow> (None, PublishOp t OpDeleteIpAddress [] (s\<lparr>tenancy_backend := d\<rparr>))))"

definition AddIpAddress ::
    "'d tenancy_env \<Rightarrow> string \<Rightarrow> string \<Rightarrow> string \<Rightarrow> bool list \<Rightarrow> 'd TenancyManager \<Rightarrow> tenancy_error option \<times> 'd TenancyManager" where
  "AddIpAddress env i ipAddress tag idIsDisplay s =
     (case FindTenancy env i idIsDisplay s of
        Inl e \<Rightarrow> (Some e, s)
      | Inr t \<Rightarrow>
          (case create_ip (CRUD env) (tenancy_id t) (ipAddress, tag) (tenancy_backend s) of
             (Some err, d) \<Rightarrow> (Some (Failure err), s\<lparr>tenancy_backend := d\<rparr>)
           | (None, d) \<Rightarrow> (None, PublishOp t OpAddIpAddress [] (s\<lparr>tenancy_backend := d\<rparr>))))"

definition SetPathBlocked ::
    "'d tenancy_env \<Rightarrow> string \<Rightarrow> bool \<Rightarrow> string \<Rightarrow> bool list \<Rightarrow> 'd TenancyManager \<Rightarrow> tenancy_error option \<times> 'd TenancyManager" where
  "SetPathBlocked env i blocked mode idIsDisplay s =
     (case FindTenancy env i idIsDisplay s of
        Inl e \<Rightarrow> (Some e, s)
      | Inr t \<Rightarrow>
          update_and_publish env t
            (if mode = ''default'' then SetBLOCK blocked (BLOCK_SHADOW_PATH t)
             else if mode = ''shadow'' then SetBLOCK (BLOCK_PATH t) blocked
             else SetBLOCK blocked blocked) OpSetPathBlocked s)"

subsection \<open>Closing the manager\<close>

text \<open>\<open>ids\<close> is the order in which the loop meets the loaded tenancies.\<close>

definition Manager_Close :: "string list \<Rightarrow> 'd TenancyManager \<Rightarrow> 'd TenancyManager" where
  "Manager_Close ids s =
     (fold (\<lambda>i s. case tenanciesById s i of None \<Rightarrow> s | Some t \<Rightarrow> CloseTenancyDb t s) ids s)
       \<lparr>tenanciesById := (\<lambda>_. None), tenanciesByPath := (\<lambda>_. None), tenanciesByShadowPath := (\<lambda>_. None), tenancyIpAddresses := (\<lambda>_. None)\<rparr>"

end
