(* ===== verification/TenancyRegistry.thy ===== *)
theory TenancyRegistry
  imports Tenancies
begin

section \<open>The registry of tenancies follows the database\<close>

text \<open>
  What the manager of \<^verbatim>\<open>pkg/multitenancy/tenancy_manager\<close> promises. The locale \<open>tenancy_db\<close> states what the controller relies on from
  the database. The rows stay apart: no two tenancies of a pool share a path or a shadow path, no two of a customer a role.
  Here: the registry on its own, loading and unloading, and the delivery of the notifications of a change of one tenancy, after which the
  registry of each pool is in step with the rows again (\<open>changes_sync\<close>). That every call of the controller is such a change is
  shown in \<open>TenancyCalls\<close>.
\<close>

subsection \<open>Contract of the database\<close>

locale tenancy_db =
  fixes crud :: "'d tenancy_crud" and rows :: "'d \<Rightarrow> string \<rightharpoonup> TenancyDb" and addrs :: "'d \<Rightarrow> string \<Rightarrow> (string \<times> string) set"
  assumes listed_by_id: "list_by_id crud i d = Inr xs \<Longrightarrow> x \<in> set xs \<Longrightarrow> tenancy_id x = i \<and> rows d i = Some (row x)"
    and listed_by_display: "list_by_display crud c r d = Inr xs \<Longrightarrow> x \<in> set xs \<Longrightarrow> rows d (tenancy_id x) = Some (row x)"
    and listed_by_pool: "list_pool crud po d = Inr xs \<Longrightarrow> x \<in> set xs \<Longrightarrow>
      rows d (tenancy_id x) = Some (row x) \<and> (\<forall>q. po = Some q \<longrightarrow> POOL_ID x = q)"
    and listed_once: "list_pool crud po d = Inr xs \<Longrightarrow> distinct (map tenancy_id xs)"
    and role_exists: "exists_role crud c r d = Inr b \<Longrightarrow> b \<longleftrightarrow> (\<exists>i t. rows d i = Some t \<and> CUSTOMER_ID t = c \<and> ROLE t = r)"
    and path_exists: "exists_path crud p y d = Inr b \<Longrightarrow> b \<longleftrightarrow> (\<exists>i t. rows d i = Some t \<and> POOL_ID t = p \<and> PATH t = y)"
    and shadow_exists: "exists_shadow_path crud p y d = Inr b \<Longrightarrow> b \<longleftrightarrow> (\<exists>i t. rows d i = Some t \<and> POOL_ID t = p \<and> SHADOW_PATH t = y)"
    and created: "create_tenancy crud t d = (None, d') \<Longrightarrow>
      rows d (tenancy_id t) = None \<and> rows d' = (rows d)(tenancy_id t \<mapsto> t) \<and> addrs d' = addrs d"
    and create_failed: "create_tenancy crud t d = (Some e, d') \<Longrightarrow> rows d' = rows d \<and> addrs d' = addrs d"
    and updated: "update_tenancy crud i f d = (None, d') \<Longrightarrow>
      rows d' = (rows d)(i := map_option (set_fields f) (rows d i)) \<and> addrs d' = addrs d"
    and update_failed: "update_tenancy crud i f d = (Some e, d') \<Longrightarrow> rows d' = rows d \<and> addrs d' = addrs d"
    and deleted: "delete_tenancy crud i d = (None, d') \<Longrightarrow> rows d' = (rows d)(i := None) \<and> addrs d' = addrs d"
    and delete_failed: "delete_tenancy crud i d = (Some e, d') \<Longrightarrow> rows d' = rows d \<and> addrs d' = addrs d"
    and ips_listed: "list_ips crud i d = Inr ys \<Longrightarrow> set ys = addrs d i"
    and ip_created: "create_ip crud i a d = (None, d') \<Longrightarrow> rows d' = rows d \<and> addrs d' = (addrs d)(i := insert a (addrs d i))"
    and ip_create_failed: "create_ip crud i a d = (Some e, d') \<Longrightarrow> rows d' = rows d \<and> addrs d' = addrs d"
    and ip_deleted: "delete_ip crud i a d = (None, d') \<Longrightarrow> rows d' = rows d \<and> addrs d' = (addrs d)(i := addrs d i - {a})"
    and ip_delete_failed: "delete_ip crud i a d = (Some e, d') \<Longrightarrow> rows d' = rows d \<and> addrs d' = addrs d"

subsection \<open>Rows that stay apart\<close>

definition paths_of :: "'z TenancyData_scheme \<Rightarrow> string set" where
  "paths_of t = {PATH t, SHADOW_PATH t}"

definition apart :: "TenancyDb \<Rightarrow> TenancyDb \<Rightarrow> bool" where
  "apart t u \<longleftrightarrow> (POOL_ID t = POOL_ID u \<longrightarrow> paths_of t \<inter> paths_of u = {}) \<and> (CUSTOMER_ID t = CUSTOMER_ID u \<longrightarrow> ROLE t \<noteq> ROLE u)"

definition rows_ok :: "(string \<rightharpoonup> TenancyDb) \<Rightarrow> bool" where
  "rows_ok R \<longleftrightarrow> (\<forall>i t. R i = Some t \<longrightarrow> tenancy_id t = i) \<and>
     (\<forall>i j t u. R i = Some t \<longrightarrow> R j = Some u \<longrightarrow> i \<noteq> j \<longrightarrow> apart t u)"

lemma apart_sym: "apart t u \<Longrightarrow> apart u t"
  by (auto simp: apart_def)

lemma rows_ok_put:
  assumes "rows_ok R" "tenancy_id t = i" "\<And>j u. j \<noteq> i \<Longrightarrow> R j = Some u \<Longrightarrow> apart t u" shows "rows_ok (R(i \<mapsto> t))"
  using assms apart_sym unfolding rows_ok_def by (auto split: if_splits)

lemma rows_ok_drop: "rows_ok R \<Longrightarrow> rows_ok (R(i := None))"
  by (auto simp: rows_ok_def split: if_splits)

lemma rows_ok_apart: "rows_ok R \<Longrightarrow> R i = Some t \<Longrightarrow> R j = Some u \<Longrightarrow> i \<noteq> j \<Longrightarrow> apart t u"
  by (auto simp: rows_ok_def)

lemma row_fields [simp]:
  "PATH (row t) = PATH t" "SHADOW_PATH (row t) = SHADOW_PATH t" "ROLE (row t) = ROLE t" "CUSTOMER_ID (row t) = CUSTOMER_ID t"
  "POOL_ID (row t) = POOL_ID t" "DBNAME (row t) = DBNAME t" "DB_ROLE (row t) = DB_ROLE t" "tenancy_id (row t) = tenancy_id t"
  "ACTIVE (row t) = ACTIVE t" "paths_of (row t) = paths_of t"
  by (simp_all add: row_def TenancyDb.truncate_def paths_of_def)

lemma row_row [simp]: "row (row t) = row t"
  by (simp add: row_def TenancyDb.truncate_def)

lemma set_fields_id [simp]: "tenancy_id (set_fields f t) = tenancy_id t"
  by (cases f) simp_all

subsection \<open>The registry on its own\<close>

text \<open>An index of the loaded tenancies by a key, and the open connections by tenancy.\<close>

definition index_ok :: "(TenancyBase \<Rightarrow> string) \<Rightarrow> (string \<rightharpoonup> TenancyBase) \<Rightarrow> (string \<rightharpoonup> TenancyBase) \<Rightarrow> bool" where
  "index_ok key B ix \<longleftrightarrow> (\<forall>p t. ix p = Some t \<longleftrightarrow> B (tenancy_id t) = Some t \<and> key t = p)"

definition keyed :: "(string \<rightharpoonup> TenancyBase) \<Rightarrow> bool" where
  "keyed B \<longleftrightarrow> (\<forall>i t. B i = Some t \<longrightarrow> tenancy_id t = i)"

definition conns_ok :: "(string \<rightharpoonup> nat) \<Rightarrow> nat list \<Rightarrow> nat \<Rightarrow> bool" where
  "conns_ok c xs n \<longleftrightarrow> distinct xs \<and> (\<forall>h \<in> set xs. h < n) \<and> set xs = ran c \<and>
     (\<forall>i j h. c i = Some h \<longrightarrow> c j = Some h \<longrightarrow> i = j)"

definition db_handle :: "TenancyBase \<Rightarrow> nat option" where
  "db_handle t = map_option fst (tenancy_Db t)"

definition conn :: "(string \<rightharpoonup> TenancyBase) \<Rightarrow> string \<rightharpoonup> nat" where
  "conn B i = (case B i of None \<Rightarrow> None | Some t \<Rightarrow> db_handle t)"

definition registry_ok :: "'d TenancyManager \<Rightarrow> bool" where
  "registry_ok s \<longleftrightarrow> keyed (tenanciesById s) \<and> index_ok PATH (tenanciesById s) (tenanciesByPath s) \<and>
     index_ok SHADOW_PATH (tenanciesById s) (tenanciesByShadowPath s) \<and>
     conns_ok (conn (tenanciesById s)) (open_dbs s) (next_db s)"

lemma index_drop:
  assumes "index_ok key B ix" "keyed B" "B i = Some t" shows "index_ok key (B(i := None)) (ix(key t := None))"
proof -
  have t: "tenancy_id t = i" "ix (key t) = Some t" using assms by (auto simp: index_ok_def keyed_def)
  have "(ix(key t := None)) p = Some u \<longleftrightarrow> (B(i := None)) (tenancy_id u) = Some u \<and> key u = p" for p u
  proof (cases "u = t")
    case True
    then show ?thesis using assms(1) t by (auto simp: index_ok_def)
  next
    case False
    have "tenancy_id u \<noteq> i" if "B (tenancy_id u) = Some u" using that False assms(3) by auto
    moreover have "key u \<noteq> key t" if "B (tenancy_id u) = Some u"
      using that False t(2) assms(1) unfolding index_ok_def by (metis option.inject)
    ultimately show ?thesis using assms(1) unfolding index_ok_def by auto
  qed
  then show ?thesis by (simp add: index_ok_def)
qed

lemma index_put:
  assumes "index_ok key B ix" "B (tenancy_id t) = None" "\<And>u. B (tenancy_id u) = Some u \<Longrightarrow> key u \<noteq> key t"
  shows "index_ok key (B(tenancy_id t \<mapsto> t)) (ix(key t \<mapsto> t))"
proof -
  have "(ix(key t \<mapsto> t)) p = Some u \<longleftrightarrow> (B(tenancy_id t \<mapsto> t)) (tenancy_id u) = Some u \<and> key u = p" for p u
  proof (cases "u = t")
    case True
    have "ix p \<noteq> Some t" using assms(1,2) by (auto simp: index_ok_def)
    then show ?thesis using True by auto
  next
    case False
    have "tenancy_id u \<noteq> tenancy_id t" if "B (tenancy_id u) = Some u" using that assms(2) by auto
    then show ?thesis using False assms(1,3) unfolding index_ok_def by auto
  qed
  then show ?thesis by (simp add: index_ok_def)
qed

lemma conns_drop:
  assumes "conns_ok c xs n" shows "conns_ok (c(i := None)) (case c i of None \<Rightarrow> xs | Some h \<Rightarrow> remove1 h xs) n"
proof (cases "c i")
  case None
  then have "c(i := None) = c" by auto
  then show ?thesis using assms None by simp
next
  case (Some h)
  have "ran (c(i := None)) = ran c - {h}"
  proof -
    have "c j \<noteq> Some h" if "j \<noteq> i" for j using assms Some that unfolding conns_ok_def by blast
    moreover have "j \<noteq> i" if "c j = Some x" "x \<noteq> h" for j x using that Some by auto
    ultimately show ?thesis unfolding ran_def by (auto split: if_splits)
  qed
  then show ?thesis using assms Some by (auto simp: conns_ok_def split: if_splits)
qed

lemma conns_put:
  assumes "conns_ok c xs n" "c i = None" shows "conns_ok (c(i \<mapsto> n)) (n # xs) (Suc n)"
proof -
  have fresh: "c j \<noteq> Some n" for j using assms(1) by (auto simp: conns_ok_def ran_def)
  have "ran (c(i \<mapsto> n)) = insert n (ran c)" using assms(2) by (rule ran_map_upd)
  moreover have "n \<notin> set xs" using assms(1) by (auto simp: conns_ok_def)
  ultimately show ?thesis using assms(1) fresh unfolding conns_ok_def by (auto simp: less_Suc_eq split: if_splits)
qed

lemma conns_more: "conns_ok c xs n \<Longrightarrow> n \<le> m \<Longrightarrow> conns_ok c xs m"
  unfolding conns_ok_def by (meson order_less_le_trans)

lemma conn_upd:
  "conn (B(i := None)) = (conn B)(i := None)" "conn (B(i \<mapsto> t)) = (conn B)(i := db_handle t)"
  by (auto simp: conn_def)

lemma close_same [simp]:
  "tenanciesById (CloseTenancyDb t s) = tenanciesById s" "tenanciesByPath (CloseTenancyDb t s) = tenanciesByPath s"
  "tenanciesByShadowPath (CloseTenancyDb t s) = tenanciesByShadowPath s"
  "tenancyIpAddresses (CloseTenancyDb t s) = tenancyIpAddresses s" "tenancy_backend (CloseTenancyDb t s) = tenancy_backend s"
  "published (CloseTenancyDb t s) = published s" "next_db (CloseTenancyDb t s) = next_db s" "metas (CloseTenancyDb t s) = metas s"
  "open_dbs (CloseTenancyDb t s) = (case db_handle t of None \<Rightarrow> open_dbs s | Some h \<Rightarrow> remove1 h (open_dbs s))"
  by (simp_all add: CloseTenancyDb_def db_handle_def split: option.split prod.split)

lemma unload_same [simp]:
  "tenanciesById (UnloadTenancy i s) = (tenanciesById s)(i := None)" "tenancy_backend (UnloadTenancy i s) = tenancy_backend s"
  "published (UnloadTenancy i s) = published s" "next_db (UnloadTenancy i s) = next_db s"
  "open_dbs (UnloadTenancy i s) = (case conn (tenanciesById s) i of None \<Rightarrow> open_dbs s | Some h \<Rightarrow> remove1 h (open_dbs s))"
  by (auto simp: UnloadTenancy_def Let_def conn_def split: option.split)

lemma registry_unload:
  assumes "registry_ok s" shows "registry_ok (UnloadTenancy i s)"
proof -
  have parts: "keyed (tenanciesById s)" "index_ok PATH (tenanciesById s) (tenanciesByPath s)"
    "index_ok SHADOW_PATH (tenanciesById s) (tenanciesByShadowPath s)" "conns_ok (conn (tenanciesById s)) (open_dbs s) (next_db s)"
    using assms by (simp_all add: registry_ok_def)
  have "keyed ((tenanciesById s)(i := None))" using parts(1) by (auto simp: keyed_def)
  moreover have "index_ok PATH ((tenanciesById s)(i := None)) (tenanciesByPath (UnloadTenancy i s)) \<and>
    index_ok SHADOW_PATH ((tenanciesById s)(i := None)) (tenanciesByShadowPath (UnloadTenancy i s))"
  proof (cases "tenanciesById s i")
    case None
    then have "(tenanciesById s)(i := None) = tenanciesById s" by auto
    then show ?thesis using parts None by (simp_all add: UnloadTenancy_def)
  next
    case (Some t)
    show ?thesis
      using index_drop [OF parts(2,1) Some] index_drop [OF parts(3,1) Some] Some by (simp_all add: UnloadTenancy_def Let_def)
  qed
  ultimately show ?thesis using conns_drop [OF parts(4), of i] by (simp add: registry_ok_def conn_upd)
qed

subsection \<open>Initialisation and loading of one tenancy\<close>

lemma NewTenancy_fields [simp]:
  "row (NewTenancy data) = data" "tenancy_id (NewTenancy data) = tenancy_id data" "PATH (NewTenancy data) = PATH data"
  "SHADOW_PATH (NewTenancy data) = SHADOW_PATH data" "POOL_ID (NewTenancy data) = POOL_ID data"
  "tenancy_Db (NewTenancy data) = None" "tenancy_Dispatcher (NewTenancy data) = False" "tenancy_Pool (NewTenancy data) = None"
  by (simp_all add: NewTenancy_def row_def TenancyDb.extend_def TenancyDb.truncate_def)

lemma row_upd [simp]:
  "row (t\<lparr>tenancy_Customer := a\<rparr>) = row t" "row (t\<lparr>tenancy_Pool := b\<rparr>) = row t" "row (t\<lparr>tenancy_Db := c\<rparr>) = row t"
  "row (t\<lparr>tenancy_Cache := x\<rparr>) = row t" "row (t\<lparr>tenancy_Dispatcher := y\<rparr>) = row t"
  by (simp_all add: row_def TenancyDb.truncate_def)

lemma row_eq_fields:
  "row t = data \<Longrightarrow> tenancy_id t = tenancy_id data \<and> PATH t = PATH data \<and> SHADOW_PATH t = SHADOW_PATH data \<and> POOL_ID t = POOL_ID data"
  by (metis row_fields)

definition same_registry :: "'d TenancyManager \<Rightarrow> 'd TenancyManager \<Rightarrow> bool" where
  "same_registry s s' \<longleftrightarrow> tenanciesById s' = tenanciesById s \<and> tenanciesByPath s' = tenanciesByPath s \<and>
     tenanciesByShadowPath s' = tenanciesByShadowPath s \<and> tenancyIpAddresses s' = tenancyIpAddresses s"

lemma same_registry_refl [simp]: "same_registry s s"
  by (simp add: same_registry_def)

lemma Connect_frame:
  assumes "ConnectDatabase env new p t s = (e, t1, s1)"
  shows "same_registry s s1 \<and> tenancy_backend s1 = tenancy_backend s \<and> published s1 = published s \<and> row t1 = row t \<and>
    tenancy_Dispatcher t1 = tenancy_Dispatcher t \<and> tenancy_Pool t1 = tenancy_Pool t \<and>
    (case e of
       Some _ \<Rightarrow> open_dbs s1 = open_dbs s \<and> next_db s1 = next_db s \<and> t1 = t
     | None \<Rightarrow> open_dbs s1 = next_db s # open_dbs s \<and> next_db s1 = Suc (next_db s) \<and> db_handle t1 = Some (next_db s))"
proof (cases "ConnectDatabaseService env p (if DB_ROLE t = '''' then TENANCY_DATABASE_ROLE else DB_ROLE t) (DBNAME t) new")
  case None
  then have r: "e = None" "s1 = s\<lparr>open_dbs := next_db s # open_dbs s, next_db := Suc (next_db s)\<rparr>"
    and t1: "\<exists>k. t1 = t\<lparr>tenancy_Db := Some (next_db s, k)\<rparr>"
    using assms by (auto simp: ConnectDatabase_def Let_def)
  from t1 obtain k where "t1 = t\<lparr>tenancy_Db := Some (next_db s, k)\<rparr>" by blast
  then show ?thesis using r by (simp add: same_registry_def db_handle_def)
next
  case (Some err)
  then have "e = Some err" "t1 = t" "s1 = s" using assms by (simp_all add: ConnectDatabase_def Let_def)
  then show ?thesis by simp
qed

lemma Init_frame:
  assumes "TenancyBase_Init env data s = (e, t, s1)" and "next_db s \<notin> set (open_dbs s)"
  shows "same_registry s s1 \<and> tenancy_backend s1 = tenancy_backend s \<and> published s1 = published s \<and> row t = data \<and>
    tenancy_Dispatcher t = False \<and> next_db s \<le> next_db s1 \<and> 
    (case e of
       Some _ \<Rightarrow> open_dbs s1 = open_dbs s \<and> open_dbs (CloseTenancyDb t s1) = open_dbs s
     | None \<Rightarrow> open_dbs s1 = (case db_handle t of None \<Rightarrow> open_dbs s | Some h \<Rightarrow> h # open_dbs s) \<and>
         (db_handle t = None \<and> next_db s1 = next_db s \<or> db_handle t = Some (next_db s) \<and> next_db s1 = Suc (next_db s)))"
proof -
  let ?t3 = "\<lambda>c p. (NewTenancy data)\<lparr>tenancy_Customer := Some c, tenancy_Cache := True, tenancy_Pool := Some p\<rparr>"
  show ?thesis
  proof (cases "\<exists>c p t4 s4. Customers_Find env (CUSTOMER_ID data) = Inr (Some c) \<and> ACTIVE data \<and> Pools_Pool env (POOL_ID data) = Some p \<and>
      pool_active p \<and> ConnectDatabase env False p (?t3 c p) s = (None, t4, s4)")
    case True
    then obtain c p t4 s4 where *: "Customers_Find env (CUSTOMER_ID data) = Inr (Some c)" "ACTIVE data"
      "Pools_Pool env (POOL_ID data) = Some p" "pool_active p" and con: "ConnectDatabase env False p (?t3 c p) s = (None, t4, s4)"
      by blast
    note fr = Connect_frame [OF con]
    have act: "ACTIVE (NewTenancy data) = ACTIVE data" by (simp add: NewTenancy_def TenancyDb.extend_def)
    show ?thesis
    proof (cases "CheckTenancyDatabase env (snd (the (tenancy_Db t4))) (tenancy_id t4) s4")
      case None
      then have "e = None" "t = t4" "s1 = s4" using assms(1) * con act by (auto simp: TenancyBase_Init_def Let_def)
      then show ?thesis using fr by simp
    next
      case (Some err)
      then have e: "e = Some err" "t = t4" "s1 = CloseTenancyDb t4 s4" using assms(1) * con act by (auto simp: TenancyBase_Init_def Let_def)
      then show ?thesis using fr e assms(2) by (simp add: same_registry_def remove1_idem)
    qed
  next
    case False
    have act: "ACTIVE (NewTenancy data) = ACTIVE data" by (simp add: NewTenancy_def TenancyDb.extend_def)
    have "s1 = s \<and> row t = data \<and> tenancy_Dispatcher t = False \<and> db_handle t = None"
    proof (cases "Customers_Find env (CUSTOMER_ID data)")
      case (Inl x)
      then show ?thesis using assms(1) by (cases x) (auto simp: TenancyBase_Init_def Let_def db_handle_def)
    next
      case cust: (Inr owner)
      show ?thesis
      proof (cases "owner = None \<or> \<not> ACTIVE data \<or> Pools_Pool env (POOL_ID data) = None \<or>
          \<not> pool_active (the (Pools_Pool env (POOL_ID data)))")
        case True
        then show ?thesis using assms(1) cust act
          by (cases owner; cases "ACTIVE data"; cases "Pools_Pool env (POOL_ID data)")
             (auto simp: TenancyBase_Init_def Let_def db_handle_def)
      next
        case go: False
        then obtain c p where cp: "owner = Some c" "ACTIVE data" "Pools_Pool env (POOL_ID data) = Some p" "pool_active p" by auto
        obtain e1 t4 s4 where con: "ConnectDatabase env False p (?t3 c p) s = (e1, t4, s4)" by (metis prod.exhaust)
        with False cust cp obtain err where "e1 = Some err" by (cases e1) auto
        then have "s4 = s" "t4 = ?t3 c p" using con by (auto simp: ConnectDatabase_def Let_def split: option.splits)
        then show ?thesis using assms(1) cust cp act con \<open>e1 = Some err\<close>
          by (simp add: TenancyBase_Init_def Let_def db_handle_def) auto
      qed
    qed
    then show ?thesis by (auto split: option.split)
  qed
qed

subsection \<open>A registry in step with the rows\<close>

definition ips_ok :: "(string \<Rightarrow> (string \<times> string) set) \<Rightarrow> 'd TenancyManager \<Rightarrow> bool" where
  "ips_ok A s \<longleftrightarrow> (\<forall>p m. tenancyIpAddresses s p = Some m \<longrightarrow>
     (\<exists>i t. tenanciesById s i = Some t \<and> p \<in> paths_of t \<and> (\<forall>tag S ip. m tag = Some S \<longrightarrow> ip \<in> S \<longrightarrow> (ip, tag) \<in> A i)))"

definition sync ::
    "string \<Rightarrow> (string \<rightharpoonup> TenancyDb) \<Rightarrow> (string \<Rightarrow> (string \<times> string) set) \<Rightarrow> 'd TenancyManager \<Rightarrow> bool" where
  "sync self R A s \<longleftrightarrow> registry_ok s \<and> ips_ok A s \<and> (\<forall>i t. tenanciesById s i = Some t \<longrightarrow> R i = Some (row t) \<and> POOL_ID t = self)"

lemma add_addresses:
  "fold add_address xs m tag = Some S \<Longrightarrow> ip \<in> S \<Longrightarrow> (ip, tag) \<in> set xs \<or> (\<exists>S0. m tag = Some S0 \<and> ip \<in> S0)"
proof (induction xs arbitrary: m)
  case (Cons a xs)
  have "(ip, tag) \<in> set xs \<or> (\<exists>S0. add_address a m tag = Some S0 \<and> ip \<in> S0)"
    using Cons.IH [of "add_address a m"] Cons.prems by simp
  then show ?case
  proof
    assume "\<exists>S0. add_address a m tag = Some S0 \<and> ip \<in> S0"
    then show ?thesis by (cases a; cases "m tag") (auto simp: add_address_def split: if_splits)
  qed simp
qed simp

lemma registry_ok_fresh: "registry_ok s \<Longrightarrow> next_db s \<notin> set (open_dbs s)"
  by (auto simp: registry_ok_def conns_ok_def)

text \<open>The registry after a tenancy was kept in it.\<close>

definition kept :: "TenancyBase \<Rightarrow> (string \<rightharpoonup> (string \<rightharpoonup> string set)) \<Rightarrow> 'd TenancyManager \<Rightarrow> 'd TenancyManager" where
  "kept t ips s = s\<lparr>tenanciesById := (tenanciesById s)(tenancy_id t \<mapsto> t),
     tenanciesByPath := (tenanciesByPath s)(PATH t \<mapsto> t), tenanciesByShadowPath := (tenanciesByShadowPath s)(SHADOW_PATH t \<mapsto> t),
     tenancyIpAddresses := ips\<rparr>"

lemma kept_same [simp]:
  "tenanciesById (kept t ips s) = (tenanciesById s)(tenancy_id t \<mapsto> t)" "tenancyIpAddresses (kept t ips s) = ips"
  "tenancy_backend (kept t ips s) = tenancy_backend s" "published (kept t ips s) = published s"
  "open_dbs (kept t ips s) = open_dbs s" "next_db (kept t ips s) = next_db s"
  by (simp_all add: kept_def)

lemma registry_put:
  assumes ok: "registry_ok s" and same: "same_registry s s1" and new: "tenanciesById s (tenancy_id t) = None"
    and paths: "\<And>i u. tenanciesById s i = Some u \<Longrightarrow> PATH u \<noteq> PATH t \<and> SHADOW_PATH u \<noteq> SHADOW_PATH t"
    and conns: "conns_ok (conn ((tenanciesById s)(tenancy_id t \<mapsto> t))) (open_dbs s1) (next_db s1)"
  shows "registry_ok (kept t ips s1)"
proof -
  have parts: "keyed (tenanciesById s)" "index_ok PATH (tenanciesById s) (tenanciesByPath s)"
    "index_ok SHADOW_PATH (tenanciesById s) (tenanciesByShadowPath s)" using ok by (simp_all add: registry_ok_def)
  have "keyed ((tenanciesById s)(tenancy_id t \<mapsto> t))" using parts(1) by (auto simp: keyed_def)
  then show ?thesis
    using same conns index_put [OF parts(2) new] index_put [OF parts(3) new] paths
    by (simp add: registry_ok_def same_registry_def kept_def)
qed

lemma load_frame:
  assumes "LoadTenancyFromData env data s = (r, s1)" "TenancyBase_Init env data s = (e, t, s0)"
  shows "case e of Some err \<Rightarrow> r = Inl err \<and> s1 = s0
     | None \<Rightarrow> r = Inr t \<and> (\<exists>ips. s1 = kept t ips s0 \<and>
         (ips = tenancyIpAddresses s0 \<or>
          (\<exists>xs. list_ips (CRUD env) (tenancy_id data) (tenancy_backend s0) = Inr xs \<and>
             ips = (tenancyIpAddresses s0)(PATH t \<mapsto> fold add_address xs (\<lambda>_. None), SHADOW_PATH t \<mapsto> fold add_address xs (\<lambda>_. None)))))"
proof (cases e)
  case None
  let ?addresses = "case list_ips (CRUD env) (tenancy_id data) (tenancy_backend s0) of Inl _ \<Rightarrow> [] | Inr xs \<Rightarrow> xs"
  let ?tags = "fold add_address ?addresses (\<lambda>_. None)"
  have r: "r = Inr t" and s1: "s1 = kept t (if ?addresses = [] then tenancyIpAddresses s0
      else (tenancyIpAddresses s0)(PATH t \<mapsto> ?tags, SHADOW_PATH t \<mapsto> ?tags)) s0"
    using assms None by (auto simp: LoadTenancyFromData_def Let_def kept_def)
  show ?thesis
  proof (cases "?addresses = []")
    case True
    then show ?thesis using r s1 None by auto
  next
    case False
    then obtain xs where "list_ips (CRUD env) (tenancy_id data) (tenancy_backend s0) = Inr xs" by (auto split: sum.splits)
    then show ?thesis using r s1 None False by auto
  qed
next
  case (Some err)
  then show ?thesis using assms by (simp add: LoadTenancyFromData_def)
qed

lemma unload_ips:
  "tenancyIpAddresses (UnloadTenancy i s) p = Some m \<Longrightarrow> tenancyIpAddresses s p = Some m \<and> (\<forall>t. tenanciesById s i = Some t \<longrightarrow> p \<notin> paths_of t)"
  by (auto simp: UnloadTenancy_def Let_def paths_of_def split: option.splits if_splits)

lemma unload_sync:
  assumes "sync self R0 A0 s" "\<And>j. j \<noteq> i \<Longrightarrow> R j = R0 j \<and> A j = A0 j"
  shows "sync self R A (UnloadTenancy i s)"
proof -
  have "ips_ok A (UnloadTenancy i s)" unfolding ips_ok_def
  proof (intro allI impI)
    fix p m assume "tenancyIpAddresses (UnloadTenancy i s) p = Some m"
    then have p: "tenancyIpAddresses s p = Some m" "\<And>t. tenanciesById s i = Some t \<Longrightarrow> p \<notin> paths_of t"
      using unload_ips by blast+
    then obtain j t where j: "tenanciesById s j = Some t" "p \<in> paths_of t"
      "\<forall>tag S ip. m tag = Some S \<longrightarrow> ip \<in> S \<longrightarrow> (ip, tag) \<in> A0 j"
      using assms(1) unfolding sync_def ips_ok_def by blast
    moreover have "j \<noteq> i" using p(2) j(1,2) by auto
    ultimately show "\<exists>i' t. tenanciesById (UnloadTenancy i s) i' = Some t \<and> p \<in> paths_of t \<and>
        (\<forall>tag S ip. m tag = Some S \<longrightarrow> ip \<in> S \<longrightarrow> (ip, tag) \<in> A i')" using assms(2) [of j] by auto
  qed
  then show ?thesis using assms registry_unload by (auto simp: sync_def split: if_splits)
qed

context tenancy_db
begin

lemma load_sync:
  assumes env: "CRUD env = crud" and sy: "sync self R (addrs (tenancy_backend s)) s" and ok: "rows_ok R"
    and data: "R (tenancy_id data) = Some data" "POOL_ID data = self" and new: "tenanciesById s (tenancy_id data) = None"
    and load: "LoadTenancyFromData env data s = (r, s1)"
  shows "sync self R (addrs (tenancy_backend s)) s1 \<and> tenancy_backend s1 = tenancy_backend s \<and> published s1 = published s \<and>
    (\<forall>j. j \<noteq> tenancy_id data \<longrightarrow> tenanciesById s1 j = tenanciesById s j)"
proof -
  let ?A = "addrs (tenancy_backend s)"
  obtain e t s0 where init: "TenancyBase_Init env data s = (e, t, s0)" by (metis prod.exhaust)
  have reg: "registry_ok s" and ips: "ips_ok ?A s" and byid: "\<And>i t. tenanciesById s i = Some t \<Longrightarrow> R i = Some (row t) \<and> POOL_ID t = self"
    using sy by (simp_all add: sync_def)
  note fr = Init_frame [OF init registry_ok_fresh [OF reg]]
  have conns: "conns_ok (conn (tenanciesById s)) (open_dbs s) (next_db s)" using reg by (simp add: registry_ok_def)
  have same: "same_registry s s0" using fr by simp
  show ?thesis
  proof (cases e)
    case (Some err)
    then have s1: "s1 = s0" using load_frame [OF load init] by simp
    have "registry_ok s1" using reg fr Some s1 conns_more [OF conns, of "next_db s0"] by (simp add: registry_ok_def same_registry_def)
    then show ?thesis using s1 fr same ips byid by (simp add: sync_def ips_ok_def same_registry_def)
  next
    case None
    note fields = row_eq_fields [of t data]
    have t: "row t = data" "tenancy_id t = tenancy_id data" "PATH t = PATH data" "SHADOW_PATH t = SHADOW_PATH data" "POOL_ID t = self"
      using fr fields data(2) by simp_all
    obtain m where s1: "s1 = kept t m s0" and m: "m = tenancyIpAddresses s0 \<or>
        (\<exists>xs. list_ips crud (tenancy_id data) (tenancy_backend s0) = Inr xs \<and>
           m = (tenancyIpAddresses s0)(PATH t \<mapsto> fold add_address xs (\<lambda>_. None), SHADOW_PATH t \<mapsto> fold add_address xs (\<lambda>_. None)))"
      using load_frame [OF load init] None env by auto
    have clear: "paths_of u \<inter> paths_of t = {}" if u: "tenanciesById s i = Some u" for i u
    proof -
      have "R i = Some (row u)" "POOL_ID u = self" "i \<noteq> tenancy_id data" using byid [OF u] u new by auto
      then have "apart (row u) data" using rows_ok_apart [OF ok _ data(1)] by simp
      then show ?thesis using \<open>POOL_ID u = self\<close> data(2) t(1) unfolding apart_def by (metis row_fields(5) row_fields(10))
    qed
    have other: "PATH u \<noteq> PATH t \<and> SHADOW_PATH u \<noteq> SHADOW_PATH t" if "tenanciesById s i = Some u" for i u
      using clear [OF that] unfolding paths_of_def by blast
    have "conns_ok (conn ((tenanciesById s)(tenancy_id t \<mapsto> t))) (open_dbs s0) (next_db s0)"
    proof (cases "db_handle t")
      case h: None
      have "(conn (tenanciesById s))(tenancy_id t := None) = conn (tenanciesById s)" using new t(2) by (auto simp: conn_def)
      then show ?thesis using conns fr None h by (simp add: conn_upd db_handle_def [symmetric])
    next
      case (Some h)
      have "conn (tenanciesById s) (tenancy_id t) = None" using new t(2) by (simp add: conn_def)
      from conns_put [OF conns this] show ?thesis using fr None Some by (simp add: conn_upd db_handle_def [symmetric])
    qed
    then have "registry_ok s1" unfolding s1 using registry_put [OF reg same _ other] new t(2) by simp
    moreover have "ips_ok ?A s1" unfolding ips_ok_def
    proof (intro allI impI)
      fix p tags assume p: "tenancyIpAddresses s1 p = Some tags"
      show "\<exists>i u. tenanciesById s1 i = Some u \<and> p \<in> paths_of u \<and>
          (\<forall>tag S ip. tags tag = Some S \<longrightarrow> ip \<in> S \<longrightarrow> (ip, tag) \<in> ?A i)"
      proof (cases "tenancyIpAddresses s p = Some tags")
        case True
        then obtain i u where u: "tenanciesById s i = Some u" "p \<in> paths_of u"
          "\<forall>tag S ip. tags tag = Some S \<longrightarrow> ip \<in> S \<longrightarrow> (ip, tag) \<in> ?A i" using ips unfolding ips_ok_def by blast
        moreover have "i \<noteq> tenancy_id t" using u(1) new t(2) by auto
        ultimately show ?thesis using same by (auto simp: s1 same_registry_def)
      next
        case False
        then obtain xs where xs: "list_ips crud (tenancy_id data) (tenancy_backend s0) = Inr xs"
          and here: "p \<in> paths_of t" "tags = fold add_address xs (\<lambda>_. None)"
          using m p same by (auto simp: s1 same_registry_def paths_of_def split: if_splits)
        have "set xs = ?A (tenancy_id t)" using ips_listed [OF xs] fr t(2) by simp
        then show ?thesis using here add_addresses [of xs "\<lambda>_. None"] by (auto simp: s1)
      qed
    qed
    ultimately show ?thesis
      using s1 fr t byid data(1) same by (auto simp: sync_def same_registry_def split: if_splits)
  qed
qed

lemma find_row:
  assumes "CRUD env = crud" "FindTenancy env i opt s = Inr t"
  shows "rows (tenancy_backend s) (tenancy_id t) = Some (row t) \<and> (opt = [] \<longrightarrow> tenancy_id t = i)"
proof (cases "OptionalArg False opt")
  case True
  then obtain a b xs where "list_by_display crud a b (tenancy_backend s) = Inr xs" "t \<in> set xs"
    using assms unfolding FindTenancy_def
    by (auto split: option.splits sum.splits list.splits prod.splits simp: map_sum_def)
  then show ?thesis using listed_by_display True by (auto simp: OptionalArg_def)
next
  case False
  then obtain xs where "list_by_id crud i (tenancy_backend s) = Inr xs" "t \<in> set xs"
    using assms unfolding FindTenancy_def
    by (cases "list_by_id crud i (tenancy_backend s)") (auto split: list.splits)
  then show ?thesis using listed_by_id by blast
qed

lemma handle_sync:
  assumes env: "CRUD env = crud" and sy: "sync self R0 A0 s"
    and off: "\<And>j. j \<noteq> i \<Longrightarrow> rows (tenancy_backend s) j = R0 j \<and> addrs (tenancy_backend s) j = A0 j"
    and ok: "rows_ok (rows (tenancy_backend s))"
    and pool: "\<And>u. op \<noteq> OpDelete \<Longrightarrow> rows (tenancy_backend s) i = Some u \<Longrightarrow> POOL_ID u = self"
  shows "sync self (rows (tenancy_backend s)) (addrs (tenancy_backend s)) (snd (Notification_Handle env i op s)) \<and>
    tenancy_backend (snd (Notification_Handle env i op s)) = tenancy_backend s"
proof -
  let ?s1 = "UnloadTenancy i s"
  let ?R = "rows (tenancy_backend s)" and ?A = "addrs (tenancy_backend s)"
  have un: "sync self ?R ?A ?s1" by (rule unload_sync [OF sy off])
  show ?thesis
  proof (cases "op = OpDelete")
    case True
    then show ?thesis using un by (simp add: Notification_Handle_def Let_def)
  next
    case False
    show ?thesis
    proof (cases "FindTenancy env i [] ?s1")
      case (Inl e)
      then show ?thesis using un False by (simp add: Notification_Handle_def Let_def LoadTenancy_def)
    next
      case (Inr item)
      have found: "?R i = Some (row item)" "tenancy_id item = i" using find_row [OF env Inr] by auto
      obtain r s2 where load: "LoadTenancyFromData env (row item) ?s1 = (r, s2)" by (metis prod.exhaust)
      have "sync self ?R ?A s2 \<and> tenancy_backend s2 = tenancy_backend s"
        using load_sync [OF env _ ok _ _ _ load, of self] un found pool [OF False found(1)] by simp
      then show ?thesis using False Inr load by (cases r) (simp_all add: Notification_Handle_def Let_def LoadTenancy_def)
    qed
  qed
qed

end

text \<open>Delivery of notifications, in order, to the manager of one pool.\<close>

definition deliver :: "'d tenancy_env \<Rightarrow> string \<Rightarrow> (string \<times> string \<times> string) list \<Rightarrow> 'd TenancyManager \<Rightarrow> 'd TenancyManager" where
  "deliver env self ns s = fold (\<lambda>(p, i, op) s. if p = self then snd (Notification_Handle env i op s) else s) ns s"

text \<open>A call that changed at most the rows of tenancy \<open>i\<close> and told the pools concerned.\<close>

definition told ::
    "string \<Rightarrow> (string \<rightharpoonup> TenancyDb) \<Rightarrow> (string \<rightharpoonup> TenancyDb) \<Rightarrow> bool \<Rightarrow> (string \<times> string \<times> string) list \<Rightarrow> bool" where
  "told i R R1 changed ns \<longleftrightarrow>
     (\<forall>(p, j, op) \<in> set ns. j = i \<and> (op \<noteq> OpDelete \<longrightarrow> (\<forall>t. R1 i = Some t \<longrightarrow> POOL_ID t = p))) \<and>
     (changed \<longrightarrow> (\<forall>t. R i = Some t \<longrightarrow> (\<exists>op. (POOL_ID t, i, op) \<in> set ns)))"

definition changes ::
    "('d \<Rightarrow> string \<rightharpoonup> TenancyDb) \<Rightarrow> ('d \<Rightarrow> string \<Rightarrow> (string \<times> string) set) \<Rightarrow> string \<Rightarrow> 'd TenancyManager \<Rightarrow> 'd TenancyManager \<Rightarrow> bool" where
  "changes rows addrs i s s1 \<longleftrightarrow> same_registry s s1 \<and> open_dbs s1 = open_dbs s \<and> next_db s \<le> next_db s1 \<and>
     (\<forall>j. j \<noteq> i \<longrightarrow> rows (tenancy_backend s1) j = rows (tenancy_backend s) j \<and> addrs (tenancy_backend s1) j = addrs (tenancy_backend s) j) \<and>
     rows_ok (rows (tenancy_backend s1)) \<and>
     (\<exists>ns. published s1 = published s @ ns \<and>
        told i (rows (tenancy_backend s)) (rows (tenancy_backend s1))
          (rows (tenancy_backend s1) i \<noteq> rows (tenancy_backend s) i \<or> addrs (tenancy_backend s1) i \<noteq> addrs (tenancy_backend s) i) ns)"

context tenancy_db
begin

lemma deliver_keeps:
  assumes "CRUD env = crud" "rows_ok (rows (tenancy_backend s))"
    and "\<forall>(p, j, op) \<in> set ns. j = i \<and> (op \<noteq> OpDelete \<longrightarrow> (\<forall>t. rows (tenancy_backend s) i = Some t \<longrightarrow> POOL_ID t = p))"
    and "sync self (rows (tenancy_backend s)) (addrs (tenancy_backend s)) s"
  shows "sync self (rows (tenancy_backend s)) (addrs (tenancy_backend s)) (deliver env self ns s) \<and>
    tenancy_backend (deliver env self ns s) = tenancy_backend s"
  using assms(2-4)
proof (induction ns arbitrary: s)
  case Nil
  then show ?case by (simp add: deliver_def)
next
  case (Cons n ns)
  obtain p j op where n: "n = (p, j, op)" by (metis prod.exhaust)
  let ?s1 = "if p = self then snd (Notification_Handle env j op s) else s"
  have "sync self (rows (tenancy_backend s)) (addrs (tenancy_backend s)) ?s1 \<and> tenancy_backend ?s1 = tenancy_backend s"
    using handle_sync [OF assms(1) Cons.prems(3) _ Cons.prems(1), of j op] Cons.prems n by auto
  then show ?case using Cons.IH [of ?s1] Cons.prems n by (cases "p = self") (simp_all add: deliver_def)
qed

lemma deliver_settles:
  assumes "CRUD env = crud" "rows_ok (rows (tenancy_backend s))" "sync self R0 A0 s"
    and "\<And>j. j \<noteq> i \<Longrightarrow> rows (tenancy_backend s) j = R0 j \<and> addrs (tenancy_backend s) j = A0 j"
    and "\<forall>(p, j, op) \<in> set ns. j = i \<and> (op \<noteq> OpDelete \<longrightarrow> (\<forall>t. rows (tenancy_backend s) i = Some t \<longrightarrow> POOL_ID t = p))"
    and "(self, i, op) \<in> set ns"
  shows "sync self (rows (tenancy_backend s)) (addrs (tenancy_backend s)) (deliver env self ns s) \<and>
    tenancy_backend (deliver env self ns s) = tenancy_backend s"
  using assms(5,6)
proof (induction ns)
  case (Cons n ns)
  obtain p j op' where n: "n = (p, j, op')" by (metis prod.exhaust)
  show ?case
  proof (cases "p = self")
    case True
    let ?s1 = "snd (Notification_Handle env i op' s)"
    have "sync self (rows (tenancy_backend s)) (addrs (tenancy_backend s)) ?s1 \<and> tenancy_backend ?s1 = tenancy_backend s"
      using handle_sync [OF assms(1,3) _ assms(2), where i = i and op = op'] assms(4) Cons.prems(1) n True by auto
    then show ?thesis using deliver_keeps [OF assms(1), of ?s1 ns i self] assms(2) Cons.prems(1) n True
      by (simp add: deliver_def)
  next
    case False
    then show ?thesis using Cons n by (simp add: deliver_def)
  qed
qed simp

lemma changes_sync:
  assumes "CRUD env = crud" "sync self (rows (tenancy_backend s)) (addrs (tenancy_backend s)) s" "changes rows addrs i s s1"
  shows "sync self (rows (tenancy_backend s1)) (addrs (tenancy_backend s1)) (deliver env self (drop (length (published s)) (published s1)) s1) \<and>
    tenancy_backend (deliver env self (drop (length (published s)) (published s1)) s1) = tenancy_backend s1"
proof -
  obtain ns where ns: "published s1 = published s @ ns"
    and told_all: "told i (rows (tenancy_backend s)) (rows (tenancy_backend s1))
      (rows (tenancy_backend s1) i \<noteq> rows (tenancy_backend s) i \<or> addrs (tenancy_backend s1) i \<noteq> addrs (tenancy_backend s) i) ns"
    using assms(3) by (auto simp: changes_def)
  have s1: "same_registry s s1" "open_dbs s1 = open_dbs s" "next_db s \<le> next_db s1" "rows_ok (rows (tenancy_backend s1))"
    "\<And>j. j \<noteq> i \<Longrightarrow> rows (tenancy_backend s1) j = rows (tenancy_backend s) j \<and> addrs (tenancy_backend s1) j = addrs (tenancy_backend s) j"
    using assms(3) by (simp_all add: changes_def)
  have reg: "registry_ok s1" using assms(2) s1(1-3) conns_more unfolding sync_def registry_ok_def same_registry_def by auto
  have old: "sync self (rows (tenancy_backend s)) (addrs (tenancy_backend s)) s1"
    using assms(2) reg s1(1) by (simp add: sync_def ips_ok_def same_registry_def)
  have each: "\<forall>(p, j, op) \<in> set ns. j = i \<and> (op \<noteq> OpDelete \<longrightarrow> (\<forall>t. rows (tenancy_backend s1) i = Some t \<longrightarrow> POOL_ID t = p))"
    using told_all by (simp add: told_def)
  show ?thesis
  proof (cases "\<exists>op. (self, i, op) \<in> set ns")
    case True
    then show ?thesis using deliver_settles [OF assms(1) s1(4) old s1(5) each] ns by auto
  next
    case False
    have "sync self (rows (tenancy_backend s1)) (addrs (tenancy_backend s1)) s1"
    proof (cases "tenanciesById s1 i")
      case None
      then have "UnloadTenancy i s1 = s1" by (simp add: UnloadTenancy_def)
      moreover have "sync self (rows (tenancy_backend s1)) (addrs (tenancy_backend s1)) (UnloadTenancy i s1)"
        by (rule unload_sync [OF old]) (use s1(5) in blast)
      ultimately show ?thesis by simp
    next
      case (Some t)
      then have "rows (tenancy_backend s) i = Some (row t)" "POOL_ID t = self" using old by (auto simp: sync_def)
      then have "rows (tenancy_backend s1) i = rows (tenancy_backend s) i \<and> addrs (tenancy_backend s1) i = addrs (tenancy_backend s) i"
        using told_all False by (auto simp: told_def)
      then have "rows (tenancy_backend s1) = rows (tenancy_backend s)" "addrs (tenancy_backend s1) = addrs (tenancy_backend s)"
        using s1(5) by (metis ext)+
      then show ?thesis using old by simp
    qed
    then show ?thesis using deliver_keeps [OF assms(1) s1(4) each] ns by simp
  qed
qed

lemma changes_none: "rows_ok (rows (tenancy_backend s)) \<Longrightarrow> changes rows addrs i s s"
  by (auto simp: changes_def told_def)

lemma role_free:
  assumes "CRUD env = crud" "CheckDuplicateRole env c r s = None" "rows (tenancy_backend s) j = Some t" "CUSTOMER_ID t = c"
  shows "ROLE t \<noteq> r"
proof -
  have "exists_role crud c r (tenancy_backend s) = Inr False"
    using assms(1,2) by (auto simp: CheckDuplicateRole_def split: sum.splits bool.splits)
  then show ?thesis using role_exists assms(3,4) by blast
qed

lemma path_free:
  assumes "CRUD env = crud" "CheckDuplicatePath env p x s = None" "rows (tenancy_backend s) j = Some t" "POOL_ID t = p"
  shows "x \<notin> paths_of t"
proof -
  have "exists_path crud p x (tenancy_backend s) = Inr False" "exists_shadow_path crud p x (tenancy_backend s) = Inr False"
    using assms(1,2) by (auto simp: CheckDuplicatePath_def split: sum.splits bool.splits)
  then have "PATH t \<noteq> x" "SHADOW_PATH t \<noteq> x" using path_exists shadow_exists assms(3,4) by blast+
  then show ?thesis by (auto simp: paths_of_def)
qed

text \<open>A call before the update touched nothing but counters of connections and marks.\<close>

lemma changes_after:
  assumes "same_registry s s1" "open_dbs s1 = open_dbs s" "next_db s \<le> next_db s1" "tenancy_backend s1 = tenancy_backend s"
    "published s1 = published s" "changes rows addrs i s1 s2"
  shows "changes rows addrs i s s2"
  using assms unfolding changes_def same_registry_def by simp

lemma update_changes:
  assumes "CRUD env = crud" "rows_ok (rows (tenancy_backend s))" "rows (tenancy_backend s) (tenancy_id t) = Some (row t)"
    and "POOL_ID (set_fields f (row t)) = POOL_ID t"
    and "\<And>j u. j \<noteq> tenancy_id t \<Longrightarrow> rows (tenancy_backend s) j = Some u \<Longrightarrow> apart (set_fields f (row t)) u"
  shows "changes rows addrs (tenancy_id t) s (snd (update_and_publish env t f op s))"
proof (cases "fst (update_tenancy crud (tenancy_id t) f (tenancy_backend s))")
  case (Some err)
  then obtain d where d: "update_tenancy crud (tenancy_id t) f (tenancy_backend s) = (Some err, d)" by (metis prod.collapse)
  then show ?thesis using update_failed [OF d] assms(1,2)
    by (simp add: update_and_publish_def changes_def told_def same_registry_def)
next
  case None
  then obtain d where d: "update_tenancy crud (tenancy_id t) f (tenancy_backend s) = (None, d)" by (metis prod.collapse)
  note up = updated [OF d]
  have "rows_ok (rows d)" using up assms(3) rows_ok_put [OF assms(2), of "set_fields f (row t)" "tenancy_id t"] assms(5) by simp
  then show ?thesis using up d assms(1,3,4)
    by (auto simp: update_and_publish_def changes_def told_def same_registry_def PublishOp_def)
qed

lemma apart_update:
  assumes "rows_ok R" "R i = Some t" "R j = Some u" "j \<noteq> i"
  shows "x \<notin> paths_of u \<or> POOL_ID u \<noteq> POOL_ID t \<Longrightarrow> apart (set_fields (SetPATH x) t) u"
    and "x \<notin> paths_of u \<or> POOL_ID u \<noteq> POOL_ID t \<Longrightarrow> apart (set_fields (SetSHADOW_PATH x) t) u"
    and "ROLE u \<noteq> r \<or> CUSTOMER_ID u \<noteq> CUSTOMER_ID t \<Longrightarrow> apart (set_fields (SetROLE r) t) u"
    and "ROLE u \<noteq> ROLE t \<or> CUSTOMER_ID u \<noteq> c \<Longrightarrow> apart (set_fields (SetCUSTOMER_ID c) t) u"
    and "apart (set_fields (SetACTIVE a) t) u" "apart (set_fields (SetDB_ROLE r) t) u" "apart (set_fields (SetBLOCK a b) t) u"
    and "(PATH t \<notin> paths_of u \<and> SHADOW_PATH t \<notin> paths_of u) \<or> POOL_ID u \<noteq> p \<or> p = POOL_ID t \<Longrightarrow> apart (set_fields (SetPOOL_DB p n) t) u"
  using rows_ok_apart [OF assms(1-3)] assms(4) by (auto simp: apart_def paths_of_def)

end

subsection \<open>Closing, and what loading leaves out\<close>

lemma close_all:
  "conns_ok ((conn (tenanciesById s)) |` set ids) (open_dbs s) n \<Longrightarrow> distinct ids \<Longrightarrow>
    open_dbs (fold (\<lambda>i s. case tenanciesById s i of None \<Rightarrow> s | Some t \<Rightarrow> CloseTenancyDb t s) ids s) = []"
proof (induction ids arbitrary: s)
  case Nil
  then show ?case by (simp add: conns_ok_def)
next
  case (Cons i ids)
  let ?s1 = "case tenanciesById s i of None \<Rightarrow> s | Some t \<Rightarrow> CloseTenancyDb t s"
  let ?c = "(conn (tenanciesById s)) |` set (i # ids)"
  have s1: "tenanciesById ?s1 = tenanciesById s"
    "open_dbs ?s1 = (case ?c i of None \<Rightarrow> open_dbs s | Some h \<Rightarrow> remove1 h (open_dbs s))"
    by (simp_all add: conn_def split: option.split)
  have "?c(i := None) = (conn (tenanciesById s)) |` set ids" using Cons.prems(2) by (auto simp: restrict_map_def fun_eq_iff)
  then have "conns_ok ((conn (tenanciesById ?s1)) |` set ids) (open_dbs ?s1) n"
    using conns_drop [OF Cons.prems(1), of i] s1 by simp
  then show ?case using Cons.IH [of ?s1] Cons.prems(2) by simp
qed

theorem close_leaves_nothing:
  assumes "registry_ok s" "distinct ids" "set ids = dom (tenanciesById s)"
  shows "open_dbs (Manager_Close ids s) = [] \<and> registry_ok (Manager_Close ids s)"
proof -
  have "conn (tenanciesById s) |` set ids = conn (tenanciesById s)"
    using assms(3) by (auto simp: restrict_map_def fun_eq_iff conn_def split: option.splits)
  then have "open_dbs (Manager_Close ids s) = []"
    using assms(1,2) close_all [of s ids "next_db s"] by (simp add: Manager_Close_def registry_ok_def)
  then show ?thesis by (simp add: registry_ok_def Manager_Close_def keyed_def index_ok_def conns_ok_def conn_def ran_def)
qed

text \<open>No loaded tenancy has an event dispatcher: only \<open>CreateTenancy\<close> builds one, on an object it drops.\<close>

theorem loaded_tenancy_has_no_dispatcher:
  assumes "fst (LoadTenancyFromData env data s) = Inr t" "registry_ok s" shows "\<not> tenancy_Dispatcher t"
proof -
  obtain e u s1 where i: "TenancyBase_Init env data s = (e, u, s1)" by (metis prod.exhaust)
  have "u = t" using assms(1) i by (cases e) (auto simp: LoadTenancyFromData_def Let_def)
  then show ?thesis using Init_frame [OF i registry_ok_fresh [OF assms(2)]] by simp
qed

end
