(* ===== verification/TenancyCalls.thy ===== *)
theory TenancyCalls
  imports TenancyRegistry
begin

section \<open>Calls of the controller of tenancies\<close>

text \<open>
  Every call of \<^verbatim>\<open>tenancy_controller.go\<close> changes at most one tenancy and tells the pools concerned, so that the registry of a pool
  follows the database through any sequence of the calls below: a lookup by path finds exactly the loaded tenancy with that path, an address is
  accepted only while it is in the database, and the open connections are those of the loaded tenancies. The contract of the database
  is met by a table of rows, on which the calls run; there a creation that names its pool by name gets past the check of paths.
\<close>

subsection \<open>Calls of the controller\<close>

text \<open>
  A creation that names its customer and its pool by identifiers and gives both paths; what happens to the other creations is shown
  below. A change of pool in which the identifier of the tenancy's own pool is not the name of another one. The other calls have no condition.
\<close>

definition named_by_id :: "'d tenancy_env \<Rightarrow> TenancyData \<Rightarrow> bool" where
  "named_by_id env data \<longleftrightarrow>
     (case Pools_Pool env (POOL_ID data) of None \<Rightarrow> False | Some p \<Rightarrow> pool_id p = POOL_ID data) \<and>
     (case Customers_Find env (CUSTOMER_ID data) of Inr (Some c) \<Rightarrow> customer_id c = CUSTOMER_ID data | _ \<Rightarrow> False) \<and>
     PATH data \<noteq> '''' \<and> SHADOW_PATH data \<noteq> ''''"

definition target_known :: "'d tenancy_env \<Rightarrow> string \<Rightarrow> string \<Rightarrow> bool list \<Rightarrow> 'd TenancyManager \<Rightarrow> bool" where
  "target_known env i poolId opt s =
     (case FindTenancy env i opt s of
        Inl _ \<Rightarrow> True
      | Inr t \<Rightarrow> if poolId = '''' \<or> poolId = POOL_ID t
                 then (case FindPool env (POOL_ID t) of Inl _ \<Rightarrow> True | Inr p \<Rightarrow> pool_id p = POOL_ID t) else True)"

inductive tenancy_call :: "'d tenancy_env \<Rightarrow> 'd TenancyManager \<Rightarrow> 'd TenancyManager \<Rightarrow> bool" for env where
  add: "named_by_id env data \<Longrightarrow> tenancy_call env s (snd (Add env rnd data s))"
| set_path: "tenancy_call env s (snd (SetPath env i x opt s))"
| set_shadow_path: "tenancy_call env s (snd (SetShadowPath env i x opt s))"
| set_role: "tenancy_call env s (snd (SetRole env i r opt s))"
| activate: "tenancy_call env s (snd (Activate env i opt s))"
| deactivate: "tenancy_call env s (snd (Deactivate env i opt s))"
| set_customer: "tenancy_call env s (snd (SetCustomer env i c opt s))"
| change_pool: "target_known env i p opt s \<Longrightarrow> tenancy_call env s (snd (ChangePoolOrDb env i p n opt s))"
| set_db_role: "tenancy_call env s (snd (SetDbRole env i r opt s))"
| delete: "tenancy_call env s (snd (Tenancy_Delete env i b opt s))"
| delete_ip: "tenancy_call env s (snd (DeleteIpAddress env i a tag opt s))"
| add_ip: "tenancy_call env s (snd (AddIpAddress env i a tag opt s))"
| block: "tenancy_call env s (snd (SetPathBlocked env i b mode opt s))"

text \<open>The calls of an administrator, each followed by the delivery of its notifications to the manager of pool \<open>self\<close>.\<close>

inductive tenancy_step :: "'d tenancy_env \<Rightarrow> string \<Rightarrow> 'd TenancyManager \<Rightarrow> 'd TenancyManager \<Rightarrow> bool" for env self where
  call: "tenancy_call env s s1 \<Longrightarrow> tenancy_step env self s (deliver env self (drop (length (published s)) (published s1)) s1)"

lemma try_frame:
  assumes "try_tenancy env data s = (e, s1)" "next_db s \<notin> set (open_dbs s)"
  shows "same_registry s s1 \<and> open_dbs s1 = open_dbs s \<and> next_db s \<le> next_db s1 \<and> tenancy_backend s1 = tenancy_backend s \<and>
    published s1 = published s"
proof -
  obtain e0 t s0 where i: "TenancyBase_Init env data s = (e0, t, s0)" by (metis prod.exhaust)
  note fr = Init_frame [OF i assms(2)]
  have s1: "s1 = CloseTenancyDb t s0" using assms(1) i by (auto simp: try_tenancy_def split: option.splits)
  have "open_dbs s1 = open_dbs s"
  proof (cases e0)
    case None
    then show ?thesis using fr s1 by (cases "db_handle t") simp_all
  next
    case (Some err)
    then show ?thesis using fr s1 by simp
  qed
  then show ?thesis using fr s1 by (simp add: same_registry_def)
qed

lemma mark_frame:
  "mark_database env key i s = (e, s1) \<Longrightarrow> same_registry s s1 \<and> open_dbs s1 = open_dbs s \<and> next_db s1 = next_db s \<and>
     tenancy_backend s1 = tenancy_backend s \<and> published s1 = published s"
  by (auto simp: mark_database_def same_registry_def split: option.splits list.splits if_splits)

lemma connect_failed: "ConnectDatabase env new p t s = (Some err, t1, s1) \<Longrightarrow> s1 = s"
  by (auto simp: ConnectDatabase_def Let_def split: option.splits)

lemma create_cases:
  assumes "CreateTenancy env rnd data s = (r, s1)"
  obtains e where "r = Inl e" "s1 = s"
  | c p t1 s2 e s3 where "FindCustomer env (CUSTOMER_ID data) = Inr c" "FindPool env (POOL_ID data) = Inr p"
      "CheckDuplicateRole env (CUSTOMER_ID data) (ROLE data) s = None"
      "CheckDuplicatePath env (POOL_ID data) (PATH data) s = None" "CheckDuplicatePath env (POOL_ID data) (SHADOW_PATH data) s = None"
      "ConnectDatabase env True p ((new_tenancy env rnd c p data)\<lparr>tenancy_Dispatcher := True\<rparr>) s = (None, t1, s2)"
      "mark_database env (snd (the (tenancy_Db t1))) (tenancy_id t1) s2 = (e, s3)" "s1 = CloseTenancyDb t1 s3"
      "r = (case e of
              Some e \<Rightarrow> Inl e
            | None \<Rightarrow> Inr (TenancyDb.extend (row t1) \<lparr>CustomerLogin = customer_login c, PoolName = pool_name p\<rparr>))"
proof (cases "FindCustomer env (CUSTOMER_ID data)")
  case (Inl e)
  then show ?thesis using assms that(1) by (auto simp: CreateTenancy_def)
next
  case c: (Inr c)
  show ?thesis
  proof (cases "FindPool env (POOL_ID data)")
    case (Inl e)
    then show ?thesis using assms that(1) c by (auto simp: CreateTenancy_def)
  next
    case p: (Inr p)
    let ?t = "(new_tenancy env rnd c p data)\<lparr>tenancy_Dispatcher := True\<rparr>"
    show ?thesis
    proof (cases "pool_active p \<and> CheckDuplicateRole env (CUSTOMER_ID data) (ROLE data) s = None \<and>
        CheckDuplicatePath env (POOL_ID data) (PATH data) s = None \<and> CheckDuplicatePath env (POOL_ID data) (SHADOW_PATH data) s = None \<and>
        dispatcher_error env (new_tenancy env rnd c p data) = None")
      case False
      then show ?thesis using assms that(1) c p by (auto simp: CreateTenancy_def Let_def split: if_splits option.splits)
    next
      case True
      obtain e1 t1 s2 where con: "ConnectDatabase env True p ?t s = (e1, t1, s2)" by (metis prod.exhaust)
      obtain e s3 where m: "mark_database env (snd (the (tenancy_Db t1))) (tenancy_id t1) s2 = (e, s3)" by (metis prod.exhaust)
      show ?thesis
      proof (cases e1)
        case None
        then show ?thesis using True that(2) [OF c p _ _ _ _ m] con m assms c p
          by (cases e) (simp_all add: CreateTenancy_def Let_def)
      next
        case (Some err)
        then have "s2 = s" using connect_failed con by blast
        then show ?thesis using True Some that(1) con assms c p by (auto simp: CreateTenancy_def Let_def)
      qed
    qed
  qed
qed

lemma create_frame:
  assumes "CreateTenancy env rnd data s = (r, s1)"
  shows "same_registry s s1 \<and> open_dbs s1 = open_dbs s \<and> next_db s \<le> next_db s1 \<and> tenancy_backend s1 = tenancy_backend s \<and>
    published s1 = published s"
  using assms
proof (cases rule: create_cases)
  case (2 c p t1 s2 e s3)
  have "same_registry s s3 \<and> open_dbs s3 = next_db s # open_dbs s \<and> next_db s \<le> next_db s3 \<and> tenancy_backend s3 = tenancy_backend s \<and>
      published s3 = published s \<and> db_handle t1 = Some (next_db s)"
    using mark_frame [OF 2(7)] Connect_frame [OF 2(6)] by (simp add: same_registry_def)
  then show ?thesis using 2(8) by (simp add: same_registry_def)
qed simp

lemma new_tenancy_fields:
  assumes "PATH data \<noteq> ''''" "SHADOW_PATH data \<noteq> ''''"
  shows "PATH (new_tenancy env rnd c p data) = PATH data" "SHADOW_PATH (new_tenancy env rnd c p data) = SHADOW_PATH data"
    "POOL_ID (new_tenancy env rnd c p data) = pool_id p" "CUSTOMER_ID (new_tenancy env rnd c p data) = customer_id c"
    "ROLE (new_tenancy env rnd c p data) = ROLE data"
  using assms by (simp_all add: new_tenancy_def Let_def NewTenancy_def TenancyDb.extend_def TenancyData.extend_def)

lemma item_fields:
  "PATH (TenancyDb.extend t x) = PATH t" "SHADOW_PATH (TenancyDb.extend t x) = SHADOW_PATH t" "POOL_ID (TenancyDb.extend t x) = POOL_ID t"
  "CUSTOMER_ID (TenancyDb.extend t x) = CUSTOMER_ID t" "ROLE (TenancyDb.extend t x) = ROLE t"
  by (simp_all add: TenancyDb.extend_def)

lemma create_result:
  assumes "CreateTenancy env rnd data s = (Inr t, s1)" "named_by_id env data"
  shows "CheckDuplicateRole env (CUSTOMER_ID data) (ROLE data) s = None \<and> CheckDuplicatePath env (POOL_ID data) (PATH data) s = None \<and>
    CheckDuplicatePath env (POOL_ID data) (SHADOW_PATH data) s = None \<and> PATH t = PATH data \<and> SHADOW_PATH t = SHADOW_PATH data \<and>
    POOL_ID t = POOL_ID data \<and> CUSTOMER_ID t = CUSTOMER_ID data \<and> ROLE t = ROLE data"
  using assms(1)
proof (cases rule: create_cases)
  case (2 c p t1 s2 e s3)
  have ids: "pool_id p = POOL_ID data" "customer_id c = CUSTOMER_ID data" "PATH data \<noteq> ''''" "SHADOW_PATH data \<noteq> ''''"
    using 2(1,2) assms(2) by (auto simp: named_by_id_def FindPool_def FindCustomer_def split: option.splits sum.splits)
  have "row t1 = row (new_tenancy env rnd c p data)" using Connect_frame [OF 2(6)] by simp
  then have t1: "PATH t1 = PATH data" "SHADOW_PATH t1 = SHADOW_PATH data" "POOL_ID t1 = POOL_ID data" "CUSTOMER_ID t1 = CUSTOMER_ID data"
    "ROLE t1 = ROLE data" by (metis row_fields new_tenancy_fields [OF ids(3,4)] ids(1,2))+
  have "t = TenancyDb.extend (row t1) \<lparr>CustomerLogin = customer_login c, PoolName = pool_name p\<rparr>"
    using 2(9) by (cases e) simp_all
  then show ?thesis using 2(3-5) t1 by (simp add: item_fields)
qed simp

context tenancy_db
begin

lemma find_apart:
  assumes "CRUD env = crud" "rows_ok (rows (tenancy_backend s))" "FindTenancy env i opt s = Inr t"
  shows "rows (tenancy_backend s) (tenancy_id t) = Some (row t)"
  using find_row [OF assms(1,3)] by simp

lemma add_changes:
  assumes env: "CRUD env = crud" and ok: "rows_ok (rows (tenancy_backend s))" and named: "named_by_id env data"
  shows "\<exists>j. changes rows addrs j s (snd (Add env rnd data s))"
proof -
  obtain r s1 where c: "CreateTenancy env rnd data s = (r, s1)" by (metis prod.exhaust)
  note fr = create_frame [OF c]
  have ok1: "rows_ok (rows (tenancy_backend s1))" using fr ok by simp
  have "\<exists>j. changes rows addrs j s1 (snd (Add env rnd data s))"
  proof (cases r)
    case (Inl e)
    then show ?thesis using c changes_none [OF ok1] by (auto simp: Add_def)
  next
    case (Inr t)
    note res = create_result [OF c [unfolded Inr] named]
    have free: "apart (row t) u" if u: "rows (tenancy_backend s) j = Some u" for j u
    proof -
      have "ROLE u \<noteq> ROLE t" if "CUSTOMER_ID u = CUSTOMER_ID t" using role_free [OF env _ u that] res by simp
      moreover have "PATH t \<notin> paths_of u" "SHADOW_PATH t \<notin> paths_of u" if "POOL_ID u = POOL_ID t"
        using path_free [OF env _ u that] res by simp_all
      ultimately show ?thesis unfolding apart_def by (auto simp: paths_of_def)
    qed
    obtain e d where d: "create_tenancy crud (row t) (tenancy_backend s1) = (e, d)" by (metis prod.exhaust)
    show ?thesis
    proof (cases e)
      case None
      note new = created [OF d [unfolded None]]
      have "rows_ok (rows d)" using new rows_ok_put [OF ok1, of "row t" "tenancy_id t"] free fr by simp
      then show ?thesis using new c Inr d None env
        by (intro exI [of _ "tenancy_id t"])
           (auto simp: Add_def changes_def told_def same_registry_def PublishOp_def)
    next
      case (Some err)
      then show ?thesis using create_failed [OF d [unfolded Some]] c Inr d env ok1
        by (intro exI [of _ "tenancy_id t"]) (simp add: Add_def changes_def told_def same_registry_def)
    qed
  qed
  then show ?thesis using changes_after fr by blast
qed

lemma address_changes:
  assumes "rows_ok (rows (tenancy_backend s))" "rows (tenancy_backend s) (tenancy_id t) = Some (row t)"
    and "rows d = rows (tenancy_backend s)" "\<And>j. j \<noteq> tenancy_id t \<Longrightarrow> addrs d j = addrs (tenancy_backend s) j"
  shows "changes rows addrs (tenancy_id t) s (PublishOp t op [] (s\<lparr>tenancy_backend := d\<rparr>))"
  using assms by (auto simp: changes_def told_def same_registry_def PublishOp_def)

lemma failed_changes:
  assumes "rows_ok (rows (tenancy_backend s))" "rows d = rows (tenancy_backend s)" "addrs d = addrs (tenancy_backend s)"
  shows "changes rows addrs i s (s\<lparr>tenancy_backend := d\<rparr>)"
  using assms by (auto simp: changes_def told_def same_registry_def)

lemma add_ip_changes:
  assumes env: "CRUD env = crud" and ok: "rows_ok (rows (tenancy_backend s))"
  shows "\<exists>j. changes rows addrs j s (snd (AddIpAddress env i a tag opt s))"
proof (cases "FindTenancy env i opt s")
  case (Inl e)
  then show ?thesis using changes_none [OF ok] by (auto simp: AddIpAddress_def)
next
  case (Inr t)
  obtain e d where d: "create_ip crud (tenancy_id t) (a, tag) (tenancy_backend s) = (e, d)" by (metis prod.exhaust)
  show ?thesis
  proof (cases e)
    case None
    then show ?thesis using ip_created [OF d [unfolded None]] address_changes [OF ok find_apart [OF env ok Inr], of d OpAddIpAddress] Inr d env
      by (auto simp: AddIpAddress_def)
  next
    case (Some err)
    then show ?thesis using ip_create_failed [OF d [unfolded Some]] failed_changes [OF ok] Inr d env by (auto simp: AddIpAddress_def)
  qed
qed

lemma delete_ip_changes:
  assumes env: "CRUD env = crud" and ok: "rows_ok (rows (tenancy_backend s))"
  shows "\<exists>j. changes rows addrs j s (snd (DeleteIpAddress env i a tag opt s))"
proof (cases "FindTenancy env i opt s")
  case (Inl e)
  then show ?thesis using changes_none [OF ok] by (auto simp: DeleteIpAddress_def)
next
  case (Inr t)
  obtain e d where d: "delete_ip crud (tenancy_id t) (a, tag) (tenancy_backend s) = (e, d)" by (metis prod.exhaust)
  show ?thesis
  proof (cases e)
    case None
    then show ?thesis using ip_deleted [OF d [unfolded None]] address_changes [OF ok find_apart [OF env ok Inr], of d OpDeleteIpAddress] Inr d env
      by (auto simp: DeleteIpAddress_def)
  next
    case (Some err)
    then show ?thesis using ip_delete_failed [OF d [unfolded Some]] failed_changes [OF ok] Inr d env by (auto simp: DeleteIpAddress_def)
  qed
qed

lemma delete_changes:
  assumes env: "CRUD env = crud" and ok: "rows_ok (rows (tenancy_backend s))"
  shows "\<exists>j. changes rows addrs j s (snd (Tenancy_Delete env i b opt s))"
proof (cases "FindTenancy env i opt s")
  case (Inl e)
  then show ?thesis using changes_none [OF ok] by (auto simp: Tenancy_Delete_def)
next
  case (Inr t)
  obtain e d where d: "delete_tenancy crud (tenancy_id t) (tenancy_backend s) = (e, d)" by (metis prod.exhaust)
  have same: ?thesis if b using that changes_none [OF ok] by (auto simp: Tenancy_Delete_def)
  have gone: ?thesis if "e = None" "\<not> b"
  proof -
    note del = deleted [OF d [unfolded that(1)]]
    have "rows_ok (rows d)" using del rows_ok_drop [OF ok] by simp
    then have "changes rows addrs (tenancy_id t) s (PublishOp t OpDelete [] (s\<lparr>tenancy_backend := d\<rparr>))"
      using del find_apart [OF env ok Inr] by (auto simp: changes_def told_def same_registry_def PublishOp_def)
    then show ?thesis using Inr d env that by (auto simp: Tenancy_Delete_def)
  qed
  have kept: ?thesis if "e = Some err" "\<not> b" for err
    using delete_failed [OF d [unfolded that(1)]] failed_changes [OF ok] Inr d env that by (auto simp: Tenancy_Delete_def)
  show ?thesis using same gone kept by (cases e) blast+
qed

end

context tenancy_db
begin

text \<open>A call that finds its tenancy, checks, and updates one field.\<close>

lemma found_update:
  assumes env: "CRUD env = crud" and ok: "rows_ok (rows (tenancy_backend s))" and t: "FindTenancy env i opt s = Inr t"
    and pool: "\<And>u. POOL_ID (set_fields f u) = POOL_ID u"
    and free: "\<And>j u. j \<noteq> tenancy_id t \<Longrightarrow> rows (tenancy_backend s) j = Some u \<Longrightarrow> apart (set_fields f (row t)) u"
  shows "\<exists>j. changes rows addrs j s (snd (update_and_publish env t f op s))"
  using update_changes [OF env ok find_apart [OF env ok t], of f] pool free by auto

lemma set_path_changes:
  assumes env: "CRUD env = crud" and ok: "rows_ok (rows (tenancy_backend s))"
  shows "\<exists>j. changes rows addrs j s (snd (SetPath env i x opt s))" "\<exists>j. changes rows addrs j s (snd (SetShadowPath env i x opt s))"
proof -
  have "\<exists>j. changes rows addrs j s (snd (update_and_publish env t (SetPATH x) op s))"
    "\<exists>j. changes rows addrs j s (snd (update_and_publish env t (SetSHADOW_PATH x) op s))"
    if t: "FindTenancy env i opt s = Inr t" and c: "CheckDuplicatePath env (POOL_ID t) x s = None" for t op
  proof -
    note r = find_apart [OF env ok t]
    have free: "apart (set_fields (SetPATH x) (row t)) u" "apart (set_fields (SetSHADOW_PATH x) (row t)) u"
      if u: "j \<noteq> tenancy_id t" "rows (tenancy_backend s) j = Some u" for j u
      by (rule apart_update(1,2) [OF ok r u(2,1)], use path_free [OF env c u(2)] in simp, blast)+
    show "\<exists>j. changes rows addrs j s (snd (update_and_publish env t (SetPATH x) op s))"
      "\<exists>j. changes rows addrs j s (snd (update_and_publish env t (SetSHADOW_PATH x) op s))"
      by (rule found_update [OF env ok t], simp, rule free, assumption+)+
  qed
  then show "\<exists>j. changes rows addrs j s (snd (SetPath env i x opt s))" "\<exists>j. changes rows addrs j s (snd (SetShadowPath env i x opt s))"
    using changes_none [OF ok] by (auto simp: SetPath_def SetShadowPath_def split: sum.split option.split)
qed

lemma set_role_changes:
  assumes env: "CRUD env = crud" and ok: "rows_ok (rows (tenancy_backend s))"
  shows "\<exists>j. changes rows addrs j s (snd (SetRole env i r opt s))"
proof -
  have "\<exists>j. changes rows addrs j s (snd (update_and_publish env t (SetROLE r) op s))"
    if t: "FindTenancy env i opt s = Inr t" and c: "CheckDuplicateRole env (CUSTOMER_ID t) r s = None" for t op
    by (rule found_update [OF env ok t], simp, rule apart_update(3) [OF ok find_apart [OF env ok t]])
       (use role_free [OF env c] in auto)
  then show ?thesis using changes_none [OF ok] by (auto simp: SetRole_def split: sum.split option.split)
qed

lemma set_customer_changes:
  assumes env: "CRUD env = crud" and ok: "rows_ok (rows (tenancy_backend s))"
  shows "\<exists>j. changes rows addrs j s (snd (SetCustomer env i c opt s))"
proof -
  have "\<exists>j. changes rows addrs j s (snd (update_and_publish env t (SetCUSTOMER_ID c) op s))"
    if t: "FindTenancy env i opt s = Inr t" and c: "CheckDuplicateRole env c (ROLE t) s = None" for t op c
    by (rule found_update [OF env ok t], simp, rule apart_update(4) [OF ok find_apart [OF env ok t]])
       (use role_free [OF env c] in auto)
  then show ?thesis using changes_none [OF ok] by (auto simp: SetCustomer_def split: sum.split option.split)
qed

lemma flag_changes:
  assumes env: "CRUD env = crud" and ok: "rows_ok (rows (tenancy_backend s))"
  shows "\<exists>j. changes rows addrs j s (snd (Activate env i opt s))" "\<exists>j. changes rows addrs j s (snd (Deactivate env i opt s))"
    "\<exists>j. changes rows addrs j s (snd (SetPathBlocked env i b mode opt s))"
proof -
  have "\<exists>j. changes rows addrs j s (snd (update_and_publish env t (SetACTIVE a) op s))"
    "\<exists>j. changes rows addrs j s (snd (update_and_publish env t (SetBLOCK b c) op s))"
    if t: "FindTenancy env i opt s = Inr t" for t op a b c
    by (rule found_update [OF env ok t], simp, rule apart_update(5,7) [OF ok find_apart [OF env ok t]], assumption+)+
  then show "\<exists>j. changes rows addrs j s (snd (Activate env i opt s))" "\<exists>j. changes rows addrs j s (snd (Deactivate env i opt s))"
    "\<exists>j. changes rows addrs j s (snd (SetPathBlocked env i b mode opt s))"
    using changes_none [OF ok] by (auto simp: Activate_def Deactivate_def SetPathBlocked_def split: sum.split)
qed

lemma set_db_role_changes:
  assumes env: "CRUD env = crud" and ok: "rows_ok (rows (tenancy_backend s))" and reg: "registry_ok s"
  shows "\<exists>j. changes rows addrs j s (snd (SetDbRole env i r opt s))"
proof (cases "FindTenancy env i opt s")
  case (Inl e)
  then show ?thesis using changes_none [OF ok] by (auto simp: SetDbRole_def)
next
  case (Inr t)
  obtain e s1 where tr: "try_tenancy env (row (t\<lparr>DB_ROLE := r\<rparr>)) s = (e, s1)" by (metis prod.exhaust)
  note fr = try_frame [OF tr registry_ok_fresh [OF reg]]
  have ok1: "rows_ok (rows (tenancy_backend s1))" using ok fr by simp
  have row1: "rows (tenancy_backend s1) (tenancy_id t) = Some (row t)" using find_apart [OF env ok Inr] fr by simp
  have "changes rows addrs (tenancy_id t) s1 (snd (update_and_publish env t (SetDB_ROLE r) op s1))" for op
    by (rule update_changes [OF env ok1 row1], simp, rule apart_update(6) [OF ok1 row1])
  then have "\<exists>j. changes rows addrs j s1 (snd (SetDbRole env i r opt s))"
    using changes_none [OF ok1] Inr tr by (cases e) (auto simp: SetDbRole_def)
  then show ?thesis using changes_after fr by blast
qed

end

context tenancy_db
begin

lemma moved_changes:
  assumes env: "CRUD env = crud" and ok: "rows_ok (rows (tenancy_backend s))"
    and t: "rows (tenancy_backend s) (tenancy_id t) = Some (row t)"
    and free: "\<And>j u. j \<noteq> tenancy_id t \<Longrightarrow> rows (tenancy_backend s) j = Some u \<Longrightarrow> apart (set_fields (SetPOOL_DB p n) (row t)) u"
    and d: "update_tenancy crud (tenancy_id t) (SetPOOL_DB p n) (tenancy_backend s) = (None, d)"
    and t1: "tenancy_id t1 = tenancy_id t" "POOL_ID t1 = p"
    and told_old: "left \<or> p = POOL_ID t"
  shows "changes rows addrs (tenancy_id t) s
    (PublishOp t1 OpChangePoolOrDb [] (if left then PublishOp t1 OpDelete [POOL_ID t] (s\<lparr>tenancy_backend := d\<rparr>) else s\<lparr>tenancy_backend := d\<rparr>))"
proof -
  note up = updated [OF d]
  have rd: "rows d = (rows (tenancy_backend s))(tenancy_id t \<mapsto> set_fields (SetPOOL_DB p n) (row t))" using up t by simp
  have "rows_ok (rows d)" unfolding rd by (rule rows_ok_put [OF ok]) (use free in simp_all)
  then show ?thesis using up rd t t1 told_old
    by (auto simp: changes_def told_def same_registry_def PublishOp_def)
qed

lemma change_pool_changes:
  assumes env: "CRUD env = crud" and ok: "rows_ok (rows (tenancy_backend s))" and reg: "registry_ok s" and known: "target_known env i x opt s"
  shows "\<exists>j. changes rows addrs j s (snd (ChangePoolOrDb env i x n opt s))"
proof (cases "FindTenancy env i opt s")
  case (Inl e)
  then show ?thesis using changes_none [OF ok] by (auto simp: ChangePoolOrDb_def)
next
  case (Inr t)
  let ?pid = "if x = '''' then POOL_ID t else x"
  let ?n = "if n = '''' then DBNAME t else n"
  show ?thesis
  proof (cases "FindPool env ?pid")
    case (Inl e)
    then show ?thesis using Inr changes_none [OF ok] by (auto simp: ChangePoolOrDb_def Let_def)
  next
    case p: (Inr p)
    let ?dup = "if pool_id p \<noteq> POOL_ID t
      then (case CheckDuplicatePath env (pool_id p) (PATH t) s of Some e \<Rightarrow> Some e | None \<Rightarrow> CheckDuplicatePath env (pool_id p) (SHADOW_PATH t) s)
      else None"
    let ?t1 = "t\<lparr>DBNAME := ?n, POOL_ID := pool_id p\<rparr>"
    obtain e s1 where tr: "(if ACTIVE ?t1 then try_tenancy env (row ?t1) s else (None, s)) = (e, s1)" by (metis prod.exhaust)
    have fr: "same_registry s s1 \<and> open_dbs s1 = open_dbs s \<and> next_db s \<le> next_db s1 \<and> tenancy_backend s1 = tenancy_backend s \<and>
        published s1 = published s"
      using tr try_frame [OF _ registry_ok_fresh [OF reg]] by (cases "ACTIVE ?t1") auto
    have ok1: "rows_ok (rows (tenancy_backend s1))" using ok fr by simp
    obtain e2 d where d: "update_tenancy crud (tenancy_id t) (SetPOOL_DB (pool_id p) ?n) (tenancy_backend s1) = (e2, d)" by (metis prod.exhaust)
    show ?thesis
    proof (cases "?dup = None \<and> e = None")
      case False
      then have "snd (ChangePoolOrDb env i x n opt s) = s \<or> snd (ChangePoolOrDb env i x n opt s) = s1"
        using Inr p tr by (cases ?dup; cases e) (auto simp: ChangePoolOrDb_def Let_def)
      then show ?thesis using changes_none [OF ok] changes_after [OF _ _ _ _ _ changes_none [OF ok1]] fr by metis
    next
      case go: True
      have row1: "rows (tenancy_backend s1) (tenancy_id t) = Some (row t)" using find_apart [OF env ok Inr] fr by simp
      have free: "apart (set_fields (SetPOOL_DB (pool_id p) ?n) (row t)) u"
        if u: "j \<noteq> tenancy_id t" "rows (tenancy_backend s1) j = Some u" for j u
      proof (rule apart_update(8) [OF ok1 row1 u(2,1)])
        have dup: "CheckDuplicatePath env (pool_id p) (PATH t) s = None" "CheckDuplicatePath env (pool_id p) (SHADOW_PATH t) s = None"
          if "pool_id p \<noteq> POOL_ID t" using go that by (auto split: option.splits)
        show "(PATH (row t) \<notin> paths_of u \<and> SHADOW_PATH (row t) \<notin> paths_of u) \<or> POOL_ID u \<noteq> pool_id p \<or> pool_id p = POOL_ID (row t)"
          using path_free [OF env dup(1), of j u] path_free [OF env dup(2), of j u] u(2) fr by auto
      qed
      have "\<exists>j. changes rows addrs j s1 (snd (ChangePoolOrDb env i x n opt s))"
      proof (cases e2)
        case None
        have left: "POOL_ID t \<noteq> ?pid \<or> pool_id p = POOL_ID t"
          using known Inr p by (auto simp: target_known_def split: if_splits)
        have result: "snd (ChangePoolOrDb env i x n opt s) = PublishOp ?t1 OpChangePoolOrDb []
            (if POOL_ID t \<noteq> ?pid then PublishOp ?t1 OpDelete [POOL_ID t] (s1\<lparr>tenancy_backend := d\<rparr>) else s1\<lparr>tenancy_backend := d\<rparr>)"
          using Inr p tr go d None env unfolding ChangePoolOrDb_def Let_def by simp
        have "changes rows addrs (tenancy_id t) s1 (snd (ChangePoolOrDb env i x n opt s))"
          unfolding result
        proof (rule moved_changes [OF env ok1 row1 _ d [unfolded None]])
          show "POOL_ID t \<noteq> ?pid \<or> pool_id p = POOL_ID t" by (rule left)
        qed (rule free, assumption+, simp_all)
        then show ?thesis by blast
      next
        case (Some err)
        then have "snd (ChangePoolOrDb env i x n opt s) = s1\<lparr>tenancy_backend := d\<rparr>"
          using Inr p tr go d env unfolding ChangePoolOrDb_def Let_def by simp
        then show ?thesis using failed_changes [OF ok1] update_failed [OF d [unfolded Some]] by auto
      qed
      then show ?thesis using changes_after fr by blast
    qed
  qed
qed

lemma call_changes:
  assumes "tenancy_call env s s1" "CRUD env = crud" "rows_ok (rows (tenancy_backend s))" "registry_ok s"
  shows "\<exists>j. changes rows addrs j s s1"
  using assms
  by (cases rule: tenancy_call.cases)
     (simp_all add: add_changes set_path_changes set_role_changes flag_changes set_customer_changes change_pool_changes
       set_db_role_changes delete_changes delete_ip_changes add_ip_changes)

end

subsection \<open>Loading at the start, and every later call\<close>

context tenancy_db
begin

lemma load_each_sync:
  assumes env: "CRUD env = crud" and ok: "rows_ok (rows d)"
  shows "\<lbrakk>sync self (rows d) (addrs d) s; tenancy_backend s = d; distinct (map tenancy_id ts);
      \<forall>t \<in> set ts. rows d (tenancy_id t) = Some (row t) \<and> POOL_ID t = self \<and> tenanciesById s (tenancy_id t) = None\<rbrakk> \<Longrightarrow>
    sync self (rows d) (addrs d) (snd (load_each env ts s)) \<and> tenancy_backend (snd (load_each env ts s)) = d"
proof (induction ts arbitrary: s)
  case (Cons t ts)
  obtain r s1 where load: "LoadTenancyFromData env (row t) s = (r, s1)" by (metis prod.exhaust)
  have one: "sync self (rows d) (addrs d) s1 \<and> tenancy_backend s1 = d \<and> (\<forall>j. j \<noteq> tenancy_id t \<longrightarrow> tenanciesById s1 j = tenanciesById s j)"
    using load_sync [OF env _ ok _ _ _ load, of self] Cons.prems by simp
  show ?case
  proof (cases r)
    case (Inl e)
    then show ?thesis using load one by simp
  next
    case (Inr u)
    have "sync self (rows d) (addrs d) (snd (load_each env ts s1)) \<and> tenancy_backend (snd (load_each env ts s1)) = d"
      by (rule Cons.IH) (use one Cons.prems in \<open>auto simp: image_iff\<close>)
    then show ?thesis using load Inr by simp
  qed
qed simp

lemma empty_sync: "sync self R A (NewTenancyManager dbs d)"
  by (auto simp: sync_def registry_ok_def ips_ok_def NewTenancyManager_def keyed_def index_ok_def conns_ok_def conn_def ran_def)

lemma start_sync:
  assumes "CRUD env = crud" "rows_ok (rows d)" and s: "s = snd (LoadTenancies env (Some self) (NewTenancyManager dbs d))"
  shows "sync self (rows d) (addrs d) s \<and> tenancy_backend s = d"
proof -
  have new: "tenancy_backend (NewTenancyManager dbs d) = d" "\<And>i. tenanciesById (NewTenancyManager dbs d) i = None"
    by (simp_all add: NewTenancyManager_def)
  show ?thesis
  proof (cases "list_pool crud (Some self) d")
    case (Inl e)
    then show ?thesis using s assms(1) new empty_sync by (simp add: LoadTenancies_def)
  next
    case (Inr ts)
    have "sync self (rows d) (addrs d) (snd (load_each env ts (NewTenancyManager dbs d))) \<and>
        tenancy_backend (snd (load_each env ts (NewTenancyManager dbs d))) = d"
      by (rule load_each_sync [OF assms(1,2) empty_sync new(1) listed_once [OF Inr]]) (use listed_by_pool [OF Inr] new in auto)
    then show ?thesis using s assms(1) new Inr by (simp add: LoadTenancies_def)
  qed
qed

lemma steps_sync:
  assumes env: "CRUD env = crud" and d: "rows_ok (rows d)"
    and steps: "(tenancy_step env self)\<^sup>*\<^sup>* (snd (LoadTenancies env (Some self) (NewTenancyManager dbs d))) s"
  shows "rows_ok (rows (tenancy_backend s)) \<and> sync self (rows (tenancy_backend s)) (addrs (tenancy_backend s)) s"
  using steps
proof (induction rule: rtranclp_induct)
  case base
  show ?case using start_sync [OF env d refl, of self dbs] d by simp
next
  case (step s s')
  from step(2) obtain s1 where call: "tenancy_call env s s1"
    and s': "s' = deliver env self (drop (length (published s)) (published s1)) s1" by (auto elim: tenancy_step.cases)
  obtain j where ch: "changes rows addrs j s s1" using call_changes [OF call env] step.IH by (auto simp: sync_def)
  show ?case using changes_sync [OF env _ ch, of self] step.IH s' ch by (simp add: changes_def)
qed

end

text \<open>C14: after the tenancies of a pool were loaded and through any sequence of the calls of \<open>tenancy_call\<close>, each together with the delivery of all its
  notifications to this manager, no two stored tenancies of a pool share a path or a shadow path and no two of a customer a role; every loaded tenancy is the stored one and
  belongs to this pool; the lookup by path finds a tenancy exactly when it is loaded under that path. Of \<open>Add\<close> those calls are taken that name the pool and the customer by
  their identifiers and give both paths (\<open>named_by_id\<close>), of \<open>ChangePoolOrDb\<close>, when the pool stays, those where the identifier of that pool is not the name of another one (\<open>target_known\<close>); creation by the
  name of a pool escapes the check of paths (\<open>creation_by_pool_name_escapes_check\<close>), and a notification that is lost or late is not covered.\<close>

theorem registry_follows_database:
  assumes "tenancy_db (CRUD env) rows addrs" "rows_ok (rows d)"
    and "(tenancy_step env self)\<^sup>*\<^sup>* (snd (LoadTenancies env (Some self) (NewTenancyManager dbs d))) s"
  shows "rows_ok (rows (tenancy_backend s)) \<and>
    (Tenancy i s = Some t \<longrightarrow> rows (tenancy_backend s) i = Some (row t) \<and> POOL_ID t = self) \<and>
    (TenancyByPath p s = Some t \<longleftrightarrow> Tenancy (tenancy_id t) s = Some t \<and> PATH t = p) \<and>
    (TenancyByShadowPath p s = Some t \<longleftrightarrow> Tenancy (tenancy_id t) s = Some t \<and> SHADOW_PATH t = p)"
  using tenancy_db.steps_sync [OF assms(1) refl assms(2,3)]
  by (auto simp: sync_def registry_ok_def index_ok_def Tenancy_def TenancyByPath_def TenancyByShadowPath_def)

text \<open>C33: the connections to databases of tenancies that are open are exactly those of the loaded tenancies, each held by one tenancy: unloading,
  failed loading, trials with other parameters and creation leak none, and closing the manager closes them all.\<close>

theorem no_connection_leaks:
  assumes "tenancy_db (CRUD env) rows addrs" "rows_ok (rows d)"
    and "(tenancy_step env self)\<^sup>*\<^sup>* (snd (LoadTenancies env (Some self) (NewTenancyManager dbs d))) s"
  shows "distinct (open_dbs s) \<and> (h \<in> set (open_dbs s) \<longleftrightarrow> (\<exists>!i. \<exists>t. Tenancy i s = Some t \<and> db_handle t = Some h)) \<and>
    (distinct ids \<and> set ids = dom (tenanciesById s) \<longrightarrow> open_dbs (Manager_Close ids s) = [])"
proof -
  have reg: "registry_ok s" using tenancy_db.steps_sync [OF assms(1) refl assms(2,3)] by (simp add: sync_def)
  then have "conns_ok (conn (tenanciesById s)) (open_dbs s) (next_db s)" by (simp add: registry_ok_def)
  moreover have "conn (tenanciesById s) i = Some h \<longleftrightarrow> (\<exists>t. Tenancy i s = Some t \<and> db_handle t = Some h)" for i
    by (auto simp: conn_def Tenancy_def split: option.splits)
  ultimately have "distinct (open_dbs s) \<and> (h \<in> set (open_dbs s) \<longleftrightarrow> (\<exists>!i. \<exists>t. Tenancy i s = Some t \<and> db_handle t = Some h))"
    unfolding conns_ok_def ran_def by (simp add: set_eq_iff) metis
  then show ?thesis using close_leaves_nothing [OF reg] by blast
qed


subsection \<open>A table of rows\<close>

record tenancy_table =
  table_tenancies :: "TenancyDb list"
  table_ips :: "(string \<times> string \<times> string) list"

definition table_rows :: "tenancy_table \<Rightarrow> string \<rightharpoonup> TenancyDb" where
  "table_rows d = map_of (map (\<lambda>t. (tenancy_id t, t)) (table_tenancies d))"

definition table_addrs :: "tenancy_table \<Rightarrow> string \<Rightarrow> (string \<times> string) set" where
  "table_addrs d i = {a. (i, a) \<in> set (table_ips d)}"

definition table_items :: "(string \<Rightarrow> string) \<Rightarrow> (string \<Rightarrow> string) \<Rightarrow> tenancy_table \<Rightarrow> TenancyItem list" where
  "table_items logins names d =
     map (\<lambda>i. let t = the (table_rows d i) in TenancyDb.extend t \<lparr>CustomerLogin = logins (CUSTOMER_ID t), PoolName = names (POOL_ID t)\<rparr>)
       (remdups (map tenancy_id (table_tenancies d)))"

definition table_crud :: "(string \<Rightarrow> string) \<Rightarrow> (string \<Rightarrow> string) \<Rightarrow> tenancy_table tenancy_crud" where
  "table_crud logins names = \<lparr>
     list_by_id = (\<lambda>i d. Inr (filter (\<lambda>t. tenancy_id t = i) (table_items logins names d))),
     list_by_display = (\<lambda>c r d. Inr (filter (\<lambda>t. CustomerLogin t = c \<and> ROLE t = r) (table_items logins names d))),
     list_pool = (\<lambda>po d. Inr (filter (\<lambda>t. case po of None \<Rightarrow> True | Some p \<Rightarrow> POOL_ID t = p) (table_items logins names d))),
     exists_role = (\<lambda>c r d. Inr (list_ex (\<lambda>t. CUSTOMER_ID t = c \<and> ROLE t = r) (table_items logins names d))),
     exists_path = (\<lambda>p x d. Inr (list_ex (\<lambda>t. POOL_ID t = p \<and> PATH t = x) (table_items logins names d))),
     exists_shadow_path = (\<lambda>p x d. Inr (list_ex (\<lambda>t. POOL_ID t = p \<and> SHADOW_PATH t = x) (table_items logins names d))),
     create_tenancy = (\<lambda>t d. if list_ex (\<lambda>u. tenancy_id u = tenancy_id t) (table_tenancies d) then (Some ''duplicate key'', d)
                             else (None, d\<lparr>table_tenancies := t # table_tenancies d\<rparr>)),
     update_tenancy = (\<lambda>i f d. (None, d\<lparr>table_tenancies := map (\<lambda>t. if tenancy_id t = i then set_fields f t else t) (table_tenancies d)\<rparr>)),
     delete_tenancy = (\<lambda>i d. (None, d\<lparr>table_tenancies := filter (\<lambda>t. tenancy_id t \<noteq> i) (table_tenancies d)\<rparr>)),
     list_ips = (\<lambda>i d. Inr (map snd (filter (\<lambda>a. fst a = i) (table_ips d)))),
     create_ip = (\<lambda>i a d. (None, d\<lparr>table_ips := (i, a) # table_ips d\<rparr>)),
     delete_ip = (\<lambda>i a d. (None, d\<lparr>table_ips := filter (\<lambda>x. x \<noteq> (i, a)) (table_ips d)\<rparr>))\<rparr>"

lemma table_rows_keyed: "table_rows d i = Some t \<Longrightarrow> tenancy_id t = i"
  by (auto simp: table_rows_def dest: map_of_SomeD)

lemma table_rows_known: "i \<in> tenancy_id ` set (table_tenancies d) \<longleftrightarrow> (\<exists>t. table_rows d i = Some t)"
proof -
  have "dom (table_rows d) = tenancy_id ` set (table_tenancies d)"
    by (simp add: table_rows_def dom_map_of_conv_image_fst image_image)
  then show ?thesis by (auto simp: dom_def)
qed

lemma row_extend [simp]: "row (TenancyDb.extend t x) = t" "tenancy_id (TenancyDb.extend t x) = tenancy_id t"
  by (simp_all add: row_def TenancyDb.extend_def TenancyDb.truncate_def)

lemma table_items_rows:
  "x \<in> set (table_items l n d) \<Longrightarrow> table_rows d (tenancy_id x) = Some (row x)"
  "table_rows d i = Some t \<Longrightarrow> \<exists>x \<in> set (table_items l n d). row x = t"
proof -
  assume "x \<in> set (table_items l n d)"
  then obtain i where "i \<in> tenancy_id ` set (table_tenancies d)" and x: "row x = the (table_rows d i)" "tenancy_id x = tenancy_id (the (table_rows d i))"
    by (fastforce simp: table_items_def Let_def)
  then obtain t where "table_rows d i = Some t" using table_rows_known by blast
  then show "table_rows d (tenancy_id x) = Some (row x)" using x table_rows_keyed by fastforce
next
  assume t: "table_rows d i = Some t"
  then have "i \<in> tenancy_id ` set (table_tenancies d)" using table_rows_known by blast
  then show "\<exists>x \<in> set (table_items l n d). row x = t" using t
    by (auto simp: table_items_def Let_def intro!: bexI)
qed

lemma table_items_once: "distinct (map tenancy_id (table_items l n d))"
proof -
  have "tenancy_id (the (table_rows d i)) = i" if "i \<in> set (remdups (map tenancy_id (table_tenancies d)))" for i
    using that table_rows_known [of i d] table_rows_keyed by fastforce
  then have "map tenancy_id (table_items l n d) = remdups (map tenancy_id (table_tenancies d))"
    by (auto simp: table_items_def Let_def o_def intro!: map_idI)
  then show ?thesis by simp
qed

lemma table_exists:
  assumes "\<And>x. P x \<longleftrightarrow> Q (row x)" shows "list_ex P (table_items l n d) \<longleftrightarrow> (\<exists>i t. table_rows d i = Some t \<and> Q t)"
proof
  assume "list_ex P (table_items l n d)"
  then show "\<exists>i t. table_rows d i = Some t \<and> Q t" using table_items_rows(1) assms by (fastforce simp: list_ex_iff)
next
  assume "\<exists>i t. table_rows d i = Some t \<and> Q t"
  then show "list_ex P (table_items l n d)" using table_items_rows(2) assms by (fastforce simp: list_ex_iff)
qed

lemma table_update:
  "table_rows (d\<lparr>table_tenancies := map (\<lambda>t. if tenancy_id t = i then set_fields f t else t) (table_tenancies d)\<rparr>) =
     (table_rows d)(i := map_option (set_fields f) (table_rows d i))"
proof -
  have "map_of (map (\<lambda>t. (tenancy_id t, t)) (map (\<lambda>t. if tenancy_id t = i then set_fields f t else t) ts)) =
    (map_of (map (\<lambda>t. (tenancy_id t, t)) ts))(i := map_option (set_fields f) (map_of (map (\<lambda>t. (tenancy_id t, t)) ts) i))" for ts
    by (induction ts) (auto simp: fun_eq_iff)
  then show ?thesis by (simp add: table_rows_def)
qed

lemma table_delete: "table_rows (d\<lparr>table_tenancies := filter (\<lambda>t. tenancy_id t \<noteq> i) (table_tenancies d)\<rparr>) = (table_rows d)(i := None)"
proof -
  have "map_of (map (\<lambda>t. (tenancy_id t, t)) (filter (\<lambda>t. tenancy_id t \<noteq> i) ts)) = (map_of (map (\<lambda>t. (tenancy_id t, t)) ts))(i := None)" for ts
    by (induction ts) (auto simp: fun_eq_iff)
  then show ?thesis by (simp add: table_rows_def)
qed

lemma table_ips_apart [simp]:
  "table_rows (d\<lparr>table_ips := x\<rparr>) = table_rows d" "snd ` {x \<in> S. fst x = i} = {a. (i, a) \<in> S}"
  by (simp add: table_rows_def) force

interpretation table: tenancy_db "table_crud l n" table_rows table_addrs
proof (unfold_locales, goal_cases)
  case 5
  then show ?case using table_exists [where Q = "\<lambda>t. CUSTOMER_ID t = c \<and> ROLE t = r" for c r] by (auto simp: table_crud_def)
next
  case 6
  then show ?case using table_exists [where Q = "\<lambda>t. POOL_ID t = p \<and> PATH t = y" for p y] by (auto simp: table_crud_def)
next
  case 7
  then show ?case using table_exists [where Q = "\<lambda>t. POOL_ID t = p \<and> SHADOW_PATH t = y" for p y] by (auto simp: table_crud_def)
next
  case (8 t d d')
  have "table_rows d (tenancy_id t) = None" if "\<not> list_ex (\<lambda>u. tenancy_id u = tenancy_id t) (table_tenancies d)"
    using that table_rows_known [of "tenancy_id t" d] by (cases "table_rows d (tenancy_id t)") (auto simp: list_ex_iff image_iff)
  then show ?case using 8 by (auto simp: table_crud_def table_rows_def table_addrs_def split: if_splits)
qed (auto simp: table_crud_def table_update table_delete table_addrs_def fun_eq_iff
      dest: table_items_rows(1) split: if_splits option.splits intro: distinct_map_filter table_items_once)

subsection \<open>Calls on a table\<close>

definition site_customer :: Customer where
  "site_customer = \<lparr>customer_id = ''c1'', customer_login = ''acme'', customer_blocked = False\<rparr>"

definition site_pool :: Pool where
  "site_pool = \<lparr>pool_id = ''p1'', pool_name = ''main'', pool_active = True\<rparr>"

definition site_env :: "tenancy_table tenancy_env" where
  "site_env = \<lparr>CRUD = table_crud (\<lambda>_. ''acme'') (\<lambda>_. ''main''),
     Customers_Find = (\<lambda>i. if i = ''c1'' then Inr (Some site_customer) else Inl (True, ''not found'')),
     Customers_FindByLogin = (\<lambda>l. if l = ''acme'' then Inr (Some site_customer) else Inr None),
     Pools_Pool = (\<lambda>i. if i = ''p1'' then Some site_pool else None), Pools_PoolByName = (\<lambda>n. if n = ''main'' then Some site_pool else None),
     ConnectDatabaseService = (\<lambda>_ _ _ _. None), metas_error = (\<lambda>_. None), create_meta_error = (\<lambda>_. None), UpgradeTenancyDatabase = (\<lambda>_. None),
     eventDispatcherBuilder = Some (\<lambda>_. None), app_dispatcher_is_default = True, default_dispatcher_error = None, DB_PREFIX = ''site''\<rparr>"

definition site_data :: "string \<Rightarrow> string \<Rightarrow> string \<Rightarrow> TenancyData" where
  "site_data pool_key r x = \<lparr>Description = '''', PATH = x, SHADOW_PATH = x @ ''-s'', ROLE = r, CUSTOMER_ID = ''c1'', POOL_ID = pool_key,
     DBNAME = '''', DB_ROLE = '''', BLOCK_PATH = False, BLOCK_SHADOW_PATH = False\<rparr>"

definition site_ids :: "string \<Rightarrow> tenancy_random" where
  "site_ids i = \<lparr>new_id = i, new_path = ''P'', new_shadow_path = ''S''\<rparr>"

definition after_call :: "tenancy_table TenancyManager \<Rightarrow> tenancy_table TenancyManager \<Rightarrow> tenancy_table TenancyManager" where
  "after_call s s1 = deliver site_env ''p1'' (drop (length (published s)) (published s1)) s1"

definition site_start :: "tenancy_table TenancyManager" where
  "site_start = snd (LoadTenancies site_env (Some ''p1'') (NewTenancyManager (\<lambda>_. []) \<lparr>table_tenancies = [], table_ips = []\<rparr>))"

definition site_added :: "tenancy_table TenancyManager" where
  "site_added = after_call site_start (snd (Add site_env (site_ids ''t1'') (site_data ''p1'' ''shop'' ''a'') site_start))"

definition site_open :: "tenancy_table TenancyManager" where
  "site_open = after_call site_added (snd (AddIpAddress site_env ''t1'' ''10.0.0.1'' ''lan'' [] site_added))"

definition site_moved :: "tenancy_table TenancyManager" where
  "site_moved = after_call site_open (snd (SetPath site_env ''t1'' ''b'' [] site_open))"

lemma site_steps: "(tenancy_step site_env ''p1'')\<^sup>*\<^sup>* site_start site_moved"
proof -
  have named: "named_by_id site_env (site_data ''p1'' ''shop'' ''a'')" by (simp add: named_by_id_def site_env_def site_data_def site_pool_def site_customer_def)
  have "tenancy_step site_env ''p1'' site_start site_added"
    unfolding site_added_def after_call_def by (rule tenancy_step.call [OF tenancy_call.add [OF named]])
  moreover have "tenancy_step site_env ''p1'' site_added site_open"
    unfolding site_open_def after_call_def by (rule tenancy_step.call [OF tenancy_call.add_ip])
  moreover have "tenancy_step site_env ''p1'' site_open site_moved"
    unfolding site_moved_def after_call_def by (rule tenancy_step.call [OF tenancy_call.set_path])
  ultimately show ?thesis by (meson r_into_rtranclp rtranclp_trans)
qed

lemma site_table: "tenancy_db (CRUD site_env) table_rows table_addrs"
proof -
  have "CRUD site_env = table_crud (\<lambda>_. ''acme'') (\<lambda>_. ''main'')" by (simp add: site_env_def)
  then show ?thesis using table.tenancy_db_axioms by simp
qed

lemma site_rows: "rows_ok (table_rows \<lparr>table_tenancies = [], table_ips = []\<rparr>)"
  by (simp add: rows_ok_def table_rows_def)

theorem registry_follows_database_witness:
  "map_option tenancy_id (TenancyByPath ''b'' site_moved) = Some ''t1'' \<and> TenancyByPath ''a'' site_moved = None \<and>
   rows_ok (table_rows (tenancy_backend site_moved))"
proof -
  have "map_option tenancy_id (TenancyByPath ''b'' site_moved) = Some ''t1''" "TenancyByPath ''a'' site_moved = None" by code_simp+
  then show ?thesis using registry_follows_database [OF site_table site_rows site_steps [unfolded site_start_def]] by blast
qed

theorem no_connection_leaks_witness:
  "length (open_dbs site_moved) = 1 \<and> distinct (open_dbs site_moved)"
proof -
  have "length (open_dbs site_moved) = 1" by code_simp
  then show ?thesis using no_connection_leaks [OF site_table site_rows site_steps [unfolded site_start_def]] by blast
qed


text \<open>
  \<open>CreateTenancy\<close> checks the duplicates with the pool as the caller wrote it. A path that is refused when the pool is given by its
  identifier is accepted when it is given by its name, and the pool then stores two tenancies with one path.
\<close>

theorem creation_by_pool_name_escapes_check:
  "fst (Add site_env (site_ids ''t2'') (site_data ''p1'' ''blog'' ''b'') site_moved) = Inl ConflictPath"
  "map (\<lambda>t. (POOL_ID t, PATH t)) (table_tenancies (tenancy_backend
     (snd (Add site_env (site_ids ''t2'') (site_data ''main'' ''blog'' ''b'') site_moved)))) = [(''p1'', ''b''), (''p1'', ''b'')]"
  by code_simp+

text \<open>A tenancy that is active and whose customer the service answers with nil is loaded, and \<open>IsActive\<close> on it follows a nil pointer.\<close>

theorem tenancy_without_customer_is_loaded:
  "(case TenancyBase_Init (site_env\<lparr>Customers_Find := \<lambda>_. Inr None\<rparr>)
      (TenancyData.extend (site_data ''p1'' ''shop'' ''a'') \<lparr>tenancy_id = ''t1'', ACTIVE = True\<rparr>) site_start of
      (e, t, _) \<Rightarrow> e = None \<and> TenancyBase_IsActive t = None)"
  by code_simp

end
