(* ===== verification/DbFilters.thy ===== *)
theory DbFilters
  imports Strings
begin

section \<open>Filters of the database layer\<close>

text \<open>
  Models \<^verbatim>\<open>pkg/db/filter.go\<close> (filters and the queries that carry them over the network), the parser of queries
  \<^verbatim>\<open>pkg/db/db_gorm/filter_parser.go\<close> with the field descriptors of \<^verbatim>\<open>model_store.go\<close>, and the conditions, the order and the limits
  \<^verbatim>\<open>pkg/db/db_gorm/gorm_orm.go\<close> derives from a filter. Go maps are association lists with distinct keys, in the order in which a
  loop meets them. The texts of times and floating-point numbers and the rules of the validator are parameters. A session of gorm is what the code has
  given it: conditions, order, offset and limit.
\<close>

subsection \<open>Filters\<close>

text \<open>
  Values the code holds as \<open>interface{}\<close>: a nil or a value of a basic type. Slices given as the value of one field are not modelled.
\<close>

datatype db_value = VNil | VString string | VInt int | VUint nat | VBool bool | VTime int | VFloat nat

type_synonym db_Fields = "(string, db_value) gomap"

record Interval =
  From :: db_value
  To :: db_value
  FromOpen :: bool
  ToOpen :: bool

record BetweenFields =
  FromField :: string
  ToField :: string
  Between_Value :: db_value
  Between_FromOpen :: bool
  Between_ToOpen :: bool

record OrFields =
  Or_Value :: db_value
  Or_Fields :: "string list"

record FilterConfig =
  SortField :: string
  SortDirection :: string
  Offset :: int
  Limit :: int
  Count :: bool

record Filter = FilterConfig +
  Fields :: db_Fields
  FieldsIn :: "(string, db_value list) gomap"
  FieldsNotIn :: "(string, db_value list) gomap"
  Intervals :: "(string, Interval) gomap"
  IntervalsOrNull :: "(string, Interval) gomap"
  Filter_BetweenFields :: "BetweenFields list"
  Filter_OrFields :: "OrFields list"
  PresetFields :: "db_Fields list"
  NoLimit :: bool

definition SORT_ASC :: string where "SORT_ASC = ''ASC''"
definition SORT_DESC :: string where "SORT_DESC = ''DESC''"

definition empty_filter :: "FilterConfig \<Rightarrow> Filter" where
  "empty_filter cfg = FilterConfig.extend cfg \<lparr>Fields = [], FieldsIn = [], FieldsNotIn = [], Intervals = [], IntervalsOrNull = [],
     Filter_BetweenFields = [], Filter_OrFields = [], PresetFields = [], NoLimit = False\<rparr>"

definition no_config :: FilterConfig where
  "no_config = \<lparr>SortField = '''', SortDirection = '''', Offset = 0, Limit = 0, Count = False\<rparr>"

definition NewFilter :: Filter where
  "NewFilter = empty_filter no_config"

definition PushPresetFields :: "db_Fields \<Rightarrow> Filter \<Rightarrow> Filter" where
  "PushPresetFields m f = f\<lparr>PresetFields := PresetFields f @ [m]\<rparr>"

definition PopPresetFields :: "Filter \<Rightarrow> Filter" where
  "PopPresetFields f = (if length (PresetFields f) > 0 then f\<lparr>PresetFields := butlast (PresetFields f)\<rparr> else f)"

definition SetSorting :: "string \<Rightarrow> string list \<Rightarrow> Filter \<Rightarrow> Filter" where
  "SetSorting field direction f = f\<lparr>SortField := field, SortDirection := OptionalArg SORT_ASC direction\<rparr>"

definition AddField :: "string \<Rightarrow> db_value \<Rightarrow> Filter \<Rightarrow> Filter" where
  "AddField name value f = f\<lparr>Fields := AList.update name value (Fields f)\<rparr>"

definition AddFields :: "db_Fields \<Rightarrow> Filter \<Rightarrow> Filter" where
  "AddFields m f = fold (\<lambda>(key, value). AddField key value) m f"

definition AddFieldIn :: "string \<Rightarrow> db_value list \<Rightarrow> Filter \<Rightarrow> Filter" where
  "AddFieldIn name values f = f\<lparr>FieldsIn := AList.update name values (FieldsIn f)\<rparr>"

definition AddFieldNotIn :: "string \<Rightarrow> db_value list \<Rightarrow> Filter \<Rightarrow> Filter" where
  "AddFieldNotIn name values f = f\<lparr>FieldsNotIn := AList.update name values (FieldsNotIn f)\<rparr>"

definition AddInterval :: "string \<Rightarrow> db_value \<Rightarrow> db_value \<Rightarrow> Filter \<Rightarrow> Filter" where
  "AddInterval name from to f =
     f\<lparr>Intervals := AList.update name \<lparr>From = from, To = to, FromOpen = False, ToOpen = False\<rparr> (Intervals f)\<rparr>"

definition AddIntervalOrNull :: "string \<Rightarrow> db_value \<Rightarrow> db_value \<Rightarrow> Filter \<Rightarrow> Filter" where
  "AddIntervalOrNull name from to f =
     f\<lparr>IntervalsOrNull := AList.update name \<lparr>From = from, To = to, FromOpen = False, ToOpen = False\<rparr> (IntervalsOrNull f)\<rparr>"

definition AddBetweenField :: "string \<Rightarrow> string \<Rightarrow> db_value \<Rightarrow> Filter \<Rightarrow> Filter" where
  "AddBetweenField fromField toField value f =
     f\<lparr>Filter_BetweenFields := Filter_BetweenFields f @
        [\<lparr>FromField = fromField, ToField = toField, Between_Value = value, Between_FromOpen = False, Between_ToOpen = False\<rparr>]\<rparr>"

definition AddOrFields :: "db_value \<Rightarrow> string list \<Rightarrow> Filter \<Rightarrow> Filter" where
  "AddOrFields value names f = f\<lparr>Filter_OrFields := Filter_OrFields f @ [\<lparr>Or_Value = value, Or_Fields = names\<rparr>]\<rparr>"

subsection \<open>Queries\<close>

text \<open>The texts of values the Go library makes and reads.\<close>

record value_texts =
  time_text :: "int \<Rightarrow> string"
  float_text :: "nat \<Rightarrow> string"
  ParseTime :: "string \<Rightarrow> string + int"
  StrToFloat :: "string \<Rightarrow> string + nat"

fun filterValueToString :: "value_texts \<Rightarrow> db_value \<Rightarrow> string" where
  "filterValueToString tx VNil = ''<nil>''"
| "filterValueToString tx (VString s) = s"
| "filterValueToString tx (VInt i) = decimal_int i"
| "filterValueToString tx (VUint n) = decimal n"
| "filterValueToString tx (VBool b) = BoolToStr b"
| "filterValueToString tx (VTime t) = time_text tx t"
| "filterValueToString tx (VFloat x) = float_text tx x"

record QueryInterval =
  q_From :: "string option"
  q_To :: "string option"
  q_FromOpen :: bool
  q_ToOpen :: bool

record QueryBetweenFields =
  q_FromField :: string
  q_ToField :: string
  q_Value :: string
  qb_FromOpen :: bool
  qb_ToOpen :: bool

record QueryOrFields =
  qo_Value :: string
  qo_Fields :: "string list"

record Query = FilterConfig +
  q_Fields :: "(string, string) gomap"
  q_FieldsIn :: "(string, string list) gomap"
  q_FieldsNotIn :: "(string, string list) gomap"
  q_Intervals :: "(string, QueryInterval) gomap"
  q_BetweenFields :: "QueryBetweenFields list"
  q_OrFields :: "QueryOrFields list"

definition ToQuery :: "value_texts \<Rightarrow> Filter \<Rightarrow> Query" where
  "ToQuery tx f =
     (let text = filterValueToString tx in
      FilterConfig.extend (FilterConfig.truncate f)
        \<lparr>q_Fields = map (\<lambda>(key, v). (key, text v)) (Fields f),
         q_FieldsIn = map (\<lambda>(key, vs). (key, map text vs)) (FieldsIn f),
         q_FieldsNotIn = map (\<lambda>(key, vs). (key, map text vs)) (FieldsNotIn f),
         q_Intervals = map (\<lambda>(key, i). (key, \<lparr>q_From = (if From i \<noteq> VNil then Some (text (From i)) else None),
                                                q_To = (if To i \<noteq> VNil then Some (text (To i)) else None),
                                                q_FromOpen = FromOpen i, q_ToOpen = ToOpen i\<rparr>)) (Intervals f),
         q_BetweenFields = map (\<lambda>b. \<lparr>q_FromField = FromField b, q_ToField = ToField b, q_Value = text (Between_Value b),
                                      qb_FromOpen = Between_FromOpen b, qb_ToOpen = Between_ToOpen b\<rparr>) (Filter_BetweenFields f),
         q_OrFields = map (\<lambda>u. \<lparr>qo_Value = text (Or_Value u), qo_Fields = Or_Fields u\<rparr>) (Filter_OrFields f)\<rparr>)"

subsection \<open>Parsing of queries\<close>

datatype DataType = TString | TInt | TBool | TUint | TFloat | TTime | TOther

record FieldDescriptor =
  DbTable :: string
  DbField :: string
  FullDbName :: string
  Index :: bool
  Field_DataType :: DataType
  validate_tag :: string

type_synonym ModelDescriptor = "(string, FieldDescriptor) gomap"

datatype filter_error = InvalidFieldName string | NonIndexField string | InvalidFieldValue string | RuleError string | UnknownParser

record FilterValidator =
  ValidateConfig :: "FilterConfig \<Rightarrow> string option"
  ValidateValue :: "db_value \<Rightarrow> string \<Rightarrow> string option"
  Rules :: "(string, string) gomap option"
  PlainFieldNames :: bool

record FilterParser =
  Destination :: ModelDescriptor
  Parser_Validator :: "FilterValidator option"

definition FindJsonField :: "ModelDescriptor \<Rightarrow> string \<Rightarrow> FieldDescriptor option" where
  "FindJsonField d json = map_of d json"

fun convertValue :: "value_texts \<Rightarrow> DataType \<Rightarrow> string \<Rightarrow> string + db_value" where
  "convertValue tx TString value = Inr (VString value)"
| "convertValue tx TInt value = map_sum id VInt (StrToInt64 value)"
| "convertValue tx TBool value = map_sum id VBool (StrToBool value)"
| "convertValue tx TUint value = map_sum id VUint (StrToUint64 value)"
| "convertValue tx TFloat value = map_sum id VFloat (StrToFloat tx value)"
| "convertValue tx TTime value = map_sum id VTime (ParseTime tx value)"
| "convertValue tx TOther value = Inl ''unsupported field type''"

definition fieldName :: "FilterParser \<Rightarrow> FieldDescriptor \<Rightarrow> string" where
  "fieldName p dscr =
     (case Parser_Validator p of
        None \<Rightarrow> FullDbName dscr
      | Some v \<Rightarrow> if PlainFieldNames v then DbField dscr else FullDbName dscr)"

definition fieldRules :: "FilterValidator \<Rightarrow> string \<Rightarrow> FieldDescriptor \<Rightarrow> string" where
  "fieldRules v name field =
     (case Rules v of
        None \<Rightarrow> validate_tag field
      | Some rules \<Rightarrow> (case map_of rules name of None \<Rightarrow> validate_tag field | Some r \<Rightarrow> r))"

definition ParseFieldName :: "FilterParser \<Rightarrow> string \<Rightarrow> filter_error + string" where
  "ParseFieldName p name =
     (case FindJsonField (Destination p) name of
        None \<Rightarrow> Inl (InvalidFieldName name)
      | Some field \<Rightarrow> if \<not> Index field then Inl (NonIndexField name) else Inr (fieldName p field))"

definition ParseValidateField :: "value_texts \<Rightarrow> FilterParser \<Rightarrow> string \<Rightarrow> string \<Rightarrow> filter_error + string \<times> db_value" where
  "ParseValidateField tx p name value =
     (case FindJsonField (Destination p) name of
        None \<Rightarrow> Inl (InvalidFieldName name)
      | Some field \<Rightarrow>
          if \<not> Index field then Inl (NonIndexField name)
          else case convertValue tx (Field_DataType field) value of
            Inl _ \<Rightarrow> Inl (InvalidFieldValue name)
          | Inr result \<Rightarrow>
              (case Parser_Validator p of
                 None \<Rightarrow> Inr (fieldName p field, result)
               | Some v \<Rightarrow>
                   (let rules = fieldRules v name field in
                    if rules = '''' then Inr (fieldName p field, result)
                    else case ValidateValue v result rules of
                      Some err \<Rightarrow> Inl (RuleError err)
                    | None \<Rightarrow> Inr (fieldName p field, result))))"

text \<open>A loop over a Go map that fills another one, and stops at the first error.\<close>

fun fill_map :: "('k \<Rightarrow> 'a \<Rightarrow> 'e + (string \<times> 'b) option) \<Rightarrow> ('k \<times> 'a) list \<Rightarrow> (string, 'b) gomap \<Rightarrow> 'e + (string, 'b) gomap" where
  "fill_map f [] acc = Inr acc"
| "fill_map f ((k, a) # xs) acc =
     (case f k a of
        Inl e \<Rightarrow> Inl e
      | Inr None \<Rightarrow> fill_map f xs acc
      | Inr (Some (n, b)) \<Rightarrow> fill_map f xs (AList.update n b acc))"

fun fill_list :: "('a \<Rightarrow> 'e + 'b) \<Rightarrow> 'a list \<Rightarrow> 'e + 'b list" where
  "fill_list f [] = Inr []"
| "fill_list f (x # xs) =
     (case f x of Inl e \<Rightarrow> Inl e | Inr y \<Rightarrow> (case fill_list f xs of Inl e \<Rightarrow> Inl e | Inr ys \<Rightarrow> Inr (y # ys)))"

text \<open>The values of a list condition; the name starts as the key of the query and becomes the one of the last value.\<close>

fun parse_values :: "value_texts \<Rightarrow> FilterParser \<Rightarrow> string \<Rightarrow> string \<Rightarrow> string list \<Rightarrow> filter_error + string \<times> db_value list" where
  "parse_values tx p key field [] = Inr (field, [])"
| "parse_values tx p key field (v # vs) =
     (case ParseValidateField tx p key v of
        Inl e \<Rightarrow> Inl e
      | Inr (field', x) \<Rightarrow>
          (case parse_values tx p key field' vs of Inl e \<Rightarrow> Inl e | Inr (n, xs) \<Rightarrow> Inr (n, x # xs)))"

definition parse_interval :: "value_texts \<Rightarrow> FilterParser \<Rightarrow> string \<Rightarrow> QueryInterval \<Rightarrow> filter_error + (string \<times> Interval) option" where
  "parse_interval tx p key i =
     (case (case q_From i of None \<Rightarrow> Inr ('''', VNil) | Some str \<Rightarrow> ParseValidateField tx p key str) of
        Inl e \<Rightarrow> Inl e
      | Inr (field, from) \<Rightarrow>
          (case (case q_To i of None \<Rightarrow> Inr ('''', VNil) | Some str \<Rightarrow> ParseValidateField tx p key str) of
             Inl e \<Rightarrow> Inl e
           | Inr (fieldTo, to) \<Rightarrow>
               (let n = (if field = '''' then fieldTo else field) in
                Inr (if n = '''' then None
                     else Some (n, \<lparr>From = from, To = to, FromOpen = q_FromOpen i, ToOpen = q_ToOpen i\<rparr>)))))"

definition parse_between :: "value_texts \<Rightarrow> FilterParser \<Rightarrow> QueryBetweenFields \<Rightarrow> filter_error + BetweenFields" where
  "parse_between tx p b =
     (case ParseValidateField tx p (q_FromField b) (q_Value b) of
        Inl e \<Rightarrow> Inl e
      | Inr (fromField, val) \<Rightarrow>
          (case ParseValidateField tx p (q_ToField b) (q_Value b) of
             Inl e \<Rightarrow> Inl e
           | Inr (toField, _) \<Rightarrow> Inr \<lparr>FromField = fromField, ToField = toField, Between_Value = val,
                                     Between_FromOpen = qb_FromOpen b, Between_ToOpen = qb_ToOpen b\<rparr>))"

definition parse_or :: "value_texts \<Rightarrow> FilterParser \<Rightarrow> QueryOrFields \<Rightarrow> filter_error + OrFields" where
  "parse_or tx p u =
     (case fill_list (\<lambda>name. ParseValidateField tx p name (qo_Value u)) (qo_Fields u) of
        Inl e \<Rightarrow> Inl e
      | Inr xs \<Rightarrow> Inr \<lparr>Or_Value = (if xs = [] then VNil else snd (last xs)), Or_Fields = map fst xs\<rparr>)"

definition parse_sort :: "FilterParser \<Rightarrow> Query \<Rightarrow> filter_error + string" where
  "parse_sort p q = (if SortField q = '''' then Inr '''' else ParseFieldName p (SortField q))"

definition parse_config :: "FilterParser \<Rightarrow> Query \<Rightarrow> filter_error option" where
  "parse_config p q =
     (case Parser_Validator p of
        None \<Rightarrow> None
      | Some v \<Rightarrow> map_option RuleError (ValidateConfig v (FilterConfig.truncate q)))"

definition Parse :: "value_texts \<Rightarrow> FilterParser \<Rightarrow> Query option \<Rightarrow> filter_error + Filter option" where
  "Parse tx p query =
     (case query of
        None \<Rightarrow> Inr None
      | Some q \<Rightarrow>
     (case parse_config p q of
        Some e \<Rightarrow> Inl e
      | None \<Rightarrow>
     (case parse_sort p q of
        Inl e \<Rightarrow> Inl e
      | Inr sf \<Rightarrow>
     (case fill_map (\<lambda>key v. map_sum id Some (ParseValidateField tx p key v)) (q_Fields q) [] of
        Inl e \<Rightarrow> Inl e
      | Inr fs \<Rightarrow>
     (case fill_map (\<lambda>key vs. map_sum id Some (parse_values tx p key key vs)) (q_FieldsIn q) [] of
        Inl e \<Rightarrow> Inl e
      | Inr ins \<Rightarrow>
     (case fill_map (\<lambda>key vs. map_sum id Some (parse_values tx p key key vs)) (q_FieldsNotIn q) [] of
        Inl e \<Rightarrow> Inl e
      | Inr notins \<Rightarrow>
     (case fill_map (parse_interval tx p) (q_Intervals q) [] of
        Inl e \<Rightarrow> Inl e
      | Inr ivs \<Rightarrow>
     (case fill_list (parse_between tx p) (q_BetweenFields q) of
        Inl e \<Rightarrow> Inl e
      | Inr bs \<Rightarrow>
     (case fill_list (parse_or tx p) (q_OrFields q) of
        Inl e \<Rightarrow> Inl e
      | Inr ors \<Rightarrow>
          Inr (Some ((empty_filter (FilterConfig.truncate q))
            \<lparr>SortField := sf, Fields := fs, FieldsIn := ins, FieldsNotIn := notins, Intervals := ivs,
             Filter_BetweenFields := bs, Filter_OrFields := ors\<rparr>)))))))))))"

text \<open>
  The manager of parsers. \<open>found\<close> is what the schema of the model and the store of descriptors give.
\<close>

definition PrepareFilterParser ::
    "string + ModelDescriptor \<Rightarrow> string \<Rightarrow> FilterValidator option list \<Rightarrow> (string, FilterParser) gomap \<Rightarrow>
     (string + FilterParser) \<times> (string, FilterParser) gomap" where
  "PrepareFilterParser found name validators parsers =
     (case found of
        Inl err \<Rightarrow> (Inl err, parsers)
      | Inr descriptor \<Rightarrow>
          (let parser = \<lparr>Destination = descriptor, Parser_Validator = OptionalArg None validators\<rparr>
           in (Inr parser, AList.update name parser parsers)))"

definition ParseFilter :: "value_texts \<Rightarrow> Query option \<Rightarrow> string \<Rightarrow> (string, FilterParser) gomap \<Rightarrow> filter_error + Filter option" where
  "ParseFilter tx query parserName parsers =
     (case map_of parsers parserName of None \<Rightarrow> Inl UnknownParser | Some parser \<Rightarrow> Parse tx parser query)"

definition ParseFilterDirect ::
    "value_texts \<Rightarrow> Query option \<Rightarrow> string + ModelDescriptor \<Rightarrow> string \<Rightarrow> FilterValidator option list \<Rightarrow> (string, FilterParser) gomap \<Rightarrow>
     ((string + filter_error) + Filter option) \<times> (string, FilterParser) gomap" where
  "ParseFilterDirect tx query found parserName vld parsers =
     (case map_of parsers parserName of
        Some parser \<Rightarrow> (map_sum Inr id (Parse tx parser query), parsers)
      | None \<Rightarrow>
          (case PrepareFilterParser found parserName vld parsers of
             (Inl err, parsers1) \<Rightarrow> (Inl (Inl err), parsers1)
           | (Inr parser, parsers1) \<Rightarrow> (map_sum Inr id (Parse tx parser query), parsers1)))"

subsection \<open>Field descriptors of a model\<close>

text \<open>What the schema package of gorm knows of a field.\<close>

record schema_field =
  IgnoreMigration :: bool
  json_tag :: string
  source_tag :: string
  DBName :: string
  PrimaryKey :: bool
  index_setting :: string
  unique_index_setting :: string
  schema_DataType :: DataType
  schema_validate :: string
  OwnerSchema :: "string option"

definition IsIndexField :: "schema_field \<Rightarrow> bool" where
  "IsIndexField field \<longleftrightarrow> PrimaryKey field \<or> index_setting field \<noteq> '''' \<or> unique_index_setting field \<noteq> ''''"

definition json_name :: "schema_field \<Rightarrow> string" where
  "json_name field =
     (if json_tag field = '''' then DBName field
      else case Split (json_tag field) '','' of [a, b] \<Rightarrow> a | _ \<Rightarrow> json_tag field)"

definition descriptor_of :: "string \<Rightarrow> schema_field \<Rightarrow> FieldDescriptor" where
  "descriptor_of table field =
     (let full = (if source_tag field = '''' then table @ ''.'' @ DBName field else source_tag field);
          (t, c, n) = (case Split full ''.'' of
                         [a, b] \<Rightarrow> (a, b, full)
                       | _ \<Rightarrow> (full, DBName field, full @ ''.'' @ DBName field))
      in \<lparr>DbTable = t, DbField = c, FullDbName = n, Index = IsIndexField field, Field_DataType = schema_DataType field,
          validate_tag = schema_validate field\<rparr>)"

text \<open>The source of the embedded struct that declares the field replaces the table.\<close>

definition resource_descriptor :: "(string, string) gomap \<Rightarrow> schema_field \<Rightarrow> FieldDescriptor \<Rightarrow> FieldDescriptor" where
  "resource_descriptor embeddedSources field fd =
     (case OwnerSchema field of
        None \<Rightarrow> fd
      | Some owner \<Rightarrow>
          (case map_of embeddedSources owner of
             None \<Rightarrow> fd
           | Some sourceTable \<Rightarrow> fd\<lparr>DbTable := sourceTable, FullDbName := sourceTable @ ''.'' @ DbField fd\<rparr>))"

definition ParseFields :: "string \<Rightarrow> (string, string) gomap \<Rightarrow> schema_field list \<Rightarrow> ModelDescriptor" where
  "ParseFields table embeddedSources fs =
     fold (\<lambda>field m.
         if IgnoreMigration field \<or> json_tag field = ''-'' then m
         else (let fd = descriptor_of table field; fd' = resource_descriptor embeddedSources field fd
               in AList.update (FullDbName fd) fd' (AList.update (json_name field) fd' m)))
       fs []"

subsection \<open>Conditions, order and limits\<close>

text \<open>
  Conditions as the code writes them: \<open>AllEqual\<close> is a map given to \<open>Where\<close>, the others are texts with arguments. An atom compares a
  column with a value, or a value with a column. The names in the texts stand between one pair of quotes; those of a map are quoted by
  gorm, which splits them at the points.
\<close>

datatype atom = ColumnOp string string db_value | ValueOp db_value string string

datatype condition =
  AllEqual db_Fields | InList string "db_value list" | NotInList string "db_value list" | Conj "atom list" |
  NullOr string "atom list"

text \<open>A session: conditions in order, each marked when it was added by \<open>Or\<close>, and what \<open>Order\<close>, \<open>Offset\<close> and \<open>Limit\<close> were given.\<close>

record session =
  wheres :: "(bool \<times> condition) list"
  order_by :: "(string list \<times> string) option"
  offset_by :: "int option"
  limit_by :: "int option"

definition Where :: "condition \<Rightarrow> session \<Rightarrow> session" where
  "Where c h = h\<lparr>wheres := wheres h @ [(False, c)]\<rparr>"

definition Or :: "condition \<Rightarrow> session \<Rightarrow> session" where
  "Or c h = h\<lparr>wheres := wheres h @ [(True, c)]\<rparr>"

definition compareOp :: "bool \<Rightarrow> string \<Rightarrow> string" where
  "compareOp isOpen comparator = (if isOpen then comparator else comparator @ ''='')"

definition interval_atoms :: "string \<Rightarrow> Interval \<Rightarrow> atom list" where
  "interval_atoms name i =
     (if From i \<noteq> VNil \<and> To i \<noteq> VNil
      then if From i = To i then [ColumnOp name ''='' (From i)]
           else [ColumnOp name (compareOp (FromOpen i) ''>'') (From i), ColumnOp name (compareOp (ToOpen i) ''<'') (To i)]
      else if From i \<noteq> VNil then [ColumnOp name (compareOp (FromOpen i) ''>'') (From i)]
      else if To i \<noteq> VNil then [ColumnOp name (compareOp (ToOpen i) ''<'') (To i)]
      else [])"

text \<open>The texts of the conditions that are not maps; a single comparison with \<open>=\<close> has no space at its end.\<close>

definition quoted :: "string \<Rightarrow> string" where
  "quoted n = CHR 0x22 # n @ [CHR 0x22]"

fun atom_text :: "atom \<Rightarrow> string" where
  "atom_text (ColumnOp n op v) = quoted n @ '' '' @ op @ '' ?''"
| "atom_text (ValueOp v op n) = ''? '' @ op @ '' '' @ quoted n"

fun condition_text :: "condition \<Rightarrow> string option" where
  "condition_text (AllEqual m) = None"
| "condition_text (InList n vs) = Some (quoted n @ '' IN ? '')"
| "condition_text (NotInList n vs) = Some (quoted n @ '' NOT IN ? '')"
| "condition_text (Conj [ColumnOp n op v]) = Some (atom_text (ColumnOp n op v) @ (if op = ''='' then '''' else '' ''))"
| "condition_text (Conj [ColumnOp n op v, a]) = Some (atom_text (ColumnOp n op v) @ '' AND '' @ atom_text a @ '' '')"
| "condition_text (Conj [ValueOp v op n, a]) = Some (atom_text (ValueOp v op n) @ '' AND '' @ atom_text a)"
| "condition_text (NullOr c [ColumnOp n op v]) =
     Some (quoted c @ '' IS NULL OR '' @ (if op = ''='' then atom_text (ColumnOp n op v) else ''('' @ atom_text (ColumnOp n op v) @ '')''))"
| "condition_text (NullOr c [a, b]) = Some (quoted c @ '' IS NULL OR ('' @ atom_text a @ '' AND '' @ atom_text b @ '' )'')"
| "condition_text _ = None"

definition prepareInterval :: "string \<Rightarrow> Interval \<Rightarrow> session \<Rightarrow> session" where
  "prepareInterval name i h = (let as = interval_atoms name i in if as = [] then h else Where (Conj as) h)"

definition prepareIntervalOrNull :: "string \<Rightarrow> Interval \<Rightarrow> session \<Rightarrow> session" where
  "prepareIntervalOrNull name i h = (let as = interval_atoms name i in if as = [] then h else Where (NullOr name as) h)"

definition between_condition :: "BetweenFields \<Rightarrow> condition" where
  "between_condition b =
     Conj [ValueOp (Between_Value b) (compareOp (Between_FromOpen b) ''>'') (FromField b),
           ValueOp (Between_Value b) (compareOp (Between_ToOpen b) ''>'') (ToField b)]"

definition or_condition :: "OrFields \<Rightarrow> string \<Rightarrow> condition" where
  "or_condition u field = AllEqual [(field, Or_Value u)]"

definition or_conditions :: "OrFields \<Rightarrow> session \<Rightarrow> session" where
  "or_conditions u h =
     (case Or_Fields u of
        [] \<Rightarrow> h
      | field # rest \<Rightarrow> fold (\<lambda>n. Or (or_condition u n)) rest (Where (or_condition u field) h))"

definition prepareFilter :: "Filter \<Rightarrow> session \<Rightarrow> session" where
  "prepareFilter f h =
     (let h1 = (if Fields f \<noteq> [] then Where (AllEqual (Fields f)) h else h);
          h2 = fold (\<lambda>m. Where (AllEqual m)) (PresetFields f) h1;
          h3 = fold (\<lambda>(name, vs). Where (InList name vs)) (FieldsIn f) h2;
          h4 = fold (\<lambda>(name, vs). Where (NotInList name vs)) (FieldsNotIn f) h3;
          h5 = fold (\<lambda>(name, i). prepareInterval name i) (Intervals f) h4;
          h6 = fold (\<lambda>(name, i). prepareIntervalOrNull name i) (IntervalsOrNull f) h5;
          h7 = fold (\<lambda>b. Where (between_condition b)) (Filter_BetweenFields f) h6
      in fold or_conditions (Filter_OrFields f) h7)"

definition Paginate :: "int \<Rightarrow> Filter \<Rightarrow> bool list \<Rightarrow> session \<Rightarrow> session" where
  "Paginate MaxLimit filt paginate h =
     (if OptionalArg True paginate
      then (let h1 = (if Offset filt > 0 then h\<lparr>offset_by := Some (Offset filt)\<rparr> else h) in
            if Limit filt > 0
            then h1\<lparr>limit_by := Some (if \<not> NoLimit filt \<and> Limit filt > MaxLimit \<and> MaxLimit > 0 then MaxLimit else Limit filt)\<rparr>
            else if \<not> NoLimit filt \<and> MaxLimit > 0 then h1\<lparr>limit_by := Some MaxLimit\<rparr>
            else h1)
      else h)"

definition SetFilter :: "Filter option \<Rightarrow> int option \<Rightarrow> bool list \<Rightarrow> session \<Rightarrow> session" where
  "SetFilter filt paginator paginate g =
     (case filt of
        None \<Rightarrow> g
      | Some f \<Rightarrow>
          (let h = prepareFilter f g;
               h1 = (if SortField f \<noteq> '''' \<and> (SortDirection f = SORT_ASC \<or> SortDirection f = SORT_DESC)
                     then h\<lparr>order_by := Some (case Split (SortField f) ''.'' of [a, b] \<Rightarrow> [a, b] | _ \<Rightarrow> [SortField f], SortDirection f)\<rparr>
                     else h)
           in case paginator of None \<Rightarrow> h1 | Some MaxLimit \<Rightarrow> Paginate MaxLimit f paginate h1))"

text \<open>The session that reads the rows; with \<open>Count\<close> the total is taken before the limits are set.\<close>

definition find_session :: "int \<Rightarrow> Filter option \<Rightarrow> session \<Rightarrow> session" where
  "find_session MaxLimit filt g =
     (case filt of
        None \<Rightarrow> g
      | Some f \<Rightarrow>
          (let h = SetFilter filt (Some MaxLimit) [\<not> Count f] g in if Count f then Paginate MaxLimit f [] h else h))"

end
