(* ===== verification/FilterQueries.thy ===== *)
theory FilterQueries
  imports DbFilters
begin

section \<open>Queries of clients\<close>

text \<open>
  What the filters of \<^verbatim>\<open>pkg/db\<close> promise. A parsed query names only indexed columns of its model, except through an empty list of values;
  it never reads more rows than the configured limit; and a filter that is sent as a query and parsed again comes back over names of columns, for the
  values whose texts are read back and without the parts a query does not carry. The rows a filter selects are stated over the locale \<open>gorm_where\<close>, what the
  documentation of gorm says of chained conditions.
\<close>

subsection \<open>Names in a parsed query\<close>

definition allowed :: "FilterParser \<Rightarrow> string \<Rightarrow> bool" where
  "allowed p n \<longleftrightarrow> (\<exists>fd \<in> snd ` set (Destination p). Index fd \<and> n = fieldName p fd)"

definition columns_of :: "Filter \<Rightarrow> string set" where
  "columns_of f = {n. n = SortField f \<and> n \<noteq> ''''} \<union> fst ` set (Fields f) \<union> fst ` set (FieldsIn f) \<union> fst ` set (FieldsNotIn f) \<union>
     fst ` set (Intervals f) \<union> fst ` set (IntervalsOrNull f) \<union> (\<Union>b \<in> set (Filter_BetweenFields f). {FromField b, ToField b}) \<union>
     (\<Union>u \<in> set (Filter_OrFields f). set (Or_Fields u)) \<union> (\<Union>m \<in> set (PresetFields f). fst ` set m)"

lemma found_allowed: "FindJsonField (Destination p) k = Some fd \<Longrightarrow> Index fd \<Longrightarrow> allowed p (fieldName p fd)"
  by (force simp: allowed_def FindJsonField_def dest: map_of_SomeD)

lemma name_allowed: "ParseFieldName p k = Inr n \<Longrightarrow> allowed p n"
  by (auto simp: ParseFieldName_def split: option.splits if_splits intro: found_allowed)

lemma field_allowed: "ParseValidateField tx p k v = Inr (n, x) \<Longrightarrow> allowed p n"
  by (auto simp: ParseValidateField_def Let_def split: option.splits if_splits sum.splits intro: found_allowed)

lemma values_allowed: "parse_values tx p k f vs = Inr (n, xs) \<Longrightarrow> vs \<noteq> [] \<or> allowed p f \<Longrightarrow> allowed p n"
  by (induction vs arbitrary: f xs) (auto split: sum.splits prod.splits dest: field_allowed)

lemma interval_allowed: "parse_interval tx p k i = Inr (Some (n, j)) \<Longrightarrow> allowed p n"
  by (auto simp: parse_interval_def Let_def split: option.splits sum.splits if_splits) (metis field_allowed)+

lemma between_allowed: "parse_between tx p b = Inr c \<Longrightarrow> allowed p (FromField c) \<and> allowed p (ToField c)"
  by (auto simp: parse_between_def split: sum.splits prod.splits dest: field_allowed)

lemma update_entries: "x \<in> set (AList.update n b m) \<Longrightarrow> x = (n, b) \<or> x \<in> set m"
  by (induction m) (auto split: if_splits)

lemma fill_map_entries:
  "fill_map f xs acc = Inr m \<Longrightarrow> (\<And>k a n b. (k, a) \<in> set xs \<Longrightarrow> f k a = Inr (Some (n, b)) \<Longrightarrow> P n b) \<Longrightarrow> \<forall>(n, b) \<in> set acc. P n b \<Longrightarrow>
    (n, b) \<in> set m \<Longrightarrow> P n b"
proof (induction f xs acc rule: fill_map.induct)
  case (2 f k a xs acc)
  show ?case
  proof (cases "f k a")
    case (Inl e)
    then show ?thesis using 2 by simp
  next
    case (Inr r)
    show ?thesis
    proof (cases r)
      case None
      then show ?thesis using 2(1) [OF Inr None] 2(3-) Inr by (auto 4 3)
    next
      case (Some nb)
      obtain n' b' where nb: "nb = (n', b')" by (cases nb)
      have "P n' b'" using 2(4) Inr Some nb by auto
      then have upd: "\<forall>(n, b) \<in> set (AList.update n' b' acc). P n b" using 2(5) by (auto dest: update_entries)
      show ?thesis by (rule 2(2) [OF Inr Some nb [symmetric] _ _ upd 2(6)]) (use 2(3,4) Inr Some nb in auto)
    qed
  qed
qed auto

lemma fill_map_names:
  assumes "fill_map f xs [] = Inr m" "\<And>k a n b. (k, a) \<in> set xs \<Longrightarrow> f k a = Inr (Some (n, b)) \<Longrightarrow> P n" shows "\<forall>n \<in> fst ` set m. P n"
  using fill_map_entries [OF assms(1), of "\<lambda>n _. P n"] assms(2) by auto

lemma fill_list_all: "fill_list f xs = Inr ys \<Longrightarrow> y \<in> set ys \<Longrightarrow> \<exists>x \<in> set xs. f x = Inr y"
  by (induction xs arbitrary: ys) (auto split: sum.splits)

lemma or_allowed:
  assumes "parse_or tx p u = Inr w" "n \<in> set (Or_Fields w)" shows "allowed p n"
proof -
  obtain xs where xs: "fill_list (\<lambda>name. ParseValidateField tx p name (qo_Value u)) (qo_Fields u) = Inr xs" "n \<in> fst ` set xs"
    using assms by (auto simp: parse_or_def split: sum.splits)
  then obtain x where "(n, x) \<in> set xs" by auto
  then show ?thesis using fill_list_all [OF xs(1)] field_allowed by blast
qed

text \<open>The parts of a filter that was parsed.\<close>

lemma Parse_parts:
  assumes "Parse tx p (Some q) = Inr (Some f)"
  shows "parse_sort p q = Inr (SortField f)"
    "fill_map (\<lambda>key v. map_sum id Some (ParseValidateField tx p key v)) (q_Fields q) [] = Inr (Fields f)"
    "fill_map (\<lambda>key vs. map_sum id Some (parse_values tx p key key vs)) (q_FieldsIn q) [] = Inr (FieldsIn f)"
    "fill_map (\<lambda>key vs. map_sum id Some (parse_values tx p key key vs)) (q_FieldsNotIn q) [] = Inr (FieldsNotIn f)"
    "fill_map (parse_interval tx p) (q_Intervals q) [] = Inr (Intervals f)"
    "fill_list (parse_between tx p) (q_BetweenFields q) = Inr (Filter_BetweenFields f)"
    "fill_list (parse_or tx p) (q_OrFields q) = Inr (Filter_OrFields f)"
    "IntervalsOrNull f = []" "PresetFields f = []" "\<not> NoLimit f" "Limit f = Limit q" "Offset f = Offset q" "Count f = Count q"
  using assms
  by (simp_all add: Parse_def empty_filter_def FilterConfig.extend_def FilterConfig.truncate_def split: option.splits sum.splits)
     (auto simp: empty_filter_def FilterConfig.extend_def)

text \<open>C31: every column a parsed query names, in conditions and for the order, is the name of an indexed field of the model,
  provided no list of values in the query is empty. No query brings preset conditions or lifts the limit of rows.\<close>

theorem parsed_columns_are_indexed:
  assumes "Parse tx p (Some q) = Inr (Some f)" "[] \<notin> snd ` set (q_FieldsIn q)" "[] \<notin> snd ` set (q_FieldsNotIn q)"
  shows "(\<forall>n \<in> columns_of f. allowed p n) \<and> PresetFields f = [] \<and> \<not> NoLimit f"
proof -
  note parts = Parse_parts [OF assms(1)]
  have lists: "\<forall>n \<in> fst ` set m. allowed p n"
    if "fill_map (\<lambda>key vs. map_sum id Some (parse_values tx p key key vs)) xs [] = Inr m" "[] \<notin> snd ` set xs" for xs m
    by (rule fill_map_names [OF that(1)]) (use that(2) values_allowed in force)
  have "\<forall>n \<in> fst ` set (Fields f). allowed p n"
    by (rule fill_map_names [OF parts(2)]) (auto intro: field_allowed)
  moreover have "\<forall>n \<in> fst ` set (Intervals f). allowed p n"
    by (rule fill_map_names [OF parts(5)]) (auto intro: interval_allowed)
  moreover have "SortField f \<noteq> '''' \<longrightarrow> allowed p (SortField f)"
    using parts(1) by (auto simp: parse_sort_def split: if_splits intro: name_allowed)
  moreover have "\<forall>b \<in> set (Filter_BetweenFields f). allowed p (FromField b) \<and> allowed p (ToField b)"
    using fill_list_all [OF parts(6)] between_allowed by blast
  moreover have "\<forall>u \<in> set (Filter_OrFields f). \<forall>n \<in> set (Or_Fields u). allowed p n"
    using fill_list_all [OF parts(7)] or_allowed by blast
  moreover have "\<forall>n \<in> fst ` set (FieldsIn f). allowed p n" "\<forall>n \<in> fst ` set (FieldsNotIn f). allowed p n"
    by (rule lists [OF parts(3) assms(2)], rule lists [OF parts(4) assms(3)])
  ultimately show ?thesis using parts(8-10) unfolding columns_of_def by auto
qed

subsection \<open>Filters sent as queries\<close>

text \<open>A value whose text is read back as the same value, and a field of a parser that takes it.\<close>

fun fits :: "value_texts \<Rightarrow> DataType \<Rightarrow> db_value \<Rightarrow> bool" where
  "fits tx TString (VString s) = True"
| "fits tx TInt (VInt i) = in64 i"
| "fits tx TUint (VUint n) = (n < 2 ^ 64)"
| "fits tx TBool (VBool b) = b"
| "fits tx TTime (VTime t) = (ParseTime tx (time_text tx t) = Inr t)"
| "fits tx TFloat (VFloat x) = (StrToFloat tx (float_text tx x) = Inr x)"
| "fits tx _ _ = False"

definition passes :: "FilterParser \<Rightarrow> string \<Rightarrow> FieldDescriptor \<Rightarrow> db_value \<Rightarrow> bool" where
  "passes p n fd v =
     (case Parser_Validator p of
        None \<Rightarrow> True
      | Some va \<Rightarrow> fieldRules va n fd = '''' \<or> ValidateValue va v (fieldRules va n fd) = None)"

definition readable :: "value_texts \<Rightarrow> FilterParser \<Rightarrow> string \<Rightarrow> db_value \<Rightarrow> bool" where
  "readable tx p n v =
     (case map_of (Destination p) n of
        None \<Rightarrow> False
      | Some fd \<Rightarrow> Index fd \<and> fieldName p fd \<noteq> '''' \<and> fits tx (Field_DataType fd) v \<and> passes p n fd v)"

definition bounded :: "Interval \<Rightarrow> bool" where
  "bounded i \<longleftrightarrow> From i \<noteq> VNil \<or> To i \<noteq> VNil"

text \<open>
  What the server reads of a filter: every name becomes the column of the field it names, a name with an empty list of values stays, and the
  parts a query does not carry are gone: preset fields, intervals that take rows without a value, intervals without ends, the value of an
  alternative without fields, and the lifted limit.
\<close>

definition resolve :: "FilterParser \<Rightarrow> string \<Rightarrow> string" where
  "resolve p n = (case map_of (Destination p) n of None \<Rightarrow> n | Some fd \<Rightarrow> fieldName p fd)"

definition list_name :: "FilterParser \<Rightarrow> string \<Rightarrow> db_value list \<Rightarrow> string" where
  "list_name p n vs = (if vs = [] then n else resolve p n)"

definition as_parsed :: "FilterParser \<Rightarrow> Filter \<Rightarrow> Filter" where
  "as_parsed p f =
     (empty_filter (FilterConfig.truncate f))
       \<lparr>SortField := (if SortField f = '''' then '''' else resolve p (SortField f)),
        Fields := map (\<lambda>(n, v). (resolve p n, v)) (Fields f),
        FieldsIn := map (\<lambda>(n, vs). (list_name p n vs, vs)) (FieldsIn f),
        FieldsNotIn := map (\<lambda>(n, vs). (list_name p n vs, vs)) (FieldsNotIn f),
        Intervals := List.map_filter (\<lambda>(n, i). if bounded i then Some (resolve p n, i) else None) (Intervals f),
        Filter_BetweenFields := map (\<lambda>b. b\<lparr>FromField := resolve p (FromField b), ToField := resolve p (ToField b)\<rparr>) (Filter_BetweenFields f),
        Filter_OrFields := map (\<lambda>u. \<lparr>Or_Value = (if Or_Fields u = [] then VNil else Or_Value u), Or_Fields = map (resolve p) (Or_Fields u)\<rparr>)
                             (Filter_OrFields f)\<rparr>"

text \<open>The filters the server accepts as queries: no two names of one part are names of the same column.\<close>

definition sendable :: "value_texts \<Rightarrow> FilterParser \<Rightarrow> Filter \<Rightarrow> bool" where
  "sendable tx p f \<longleftrightarrow>
     (SortField f = '''' \<or> (case map_of (Destination p) (SortField f) of None \<Rightarrow> False | Some fd \<Rightarrow> Index fd)) \<and>
     (case Parser_Validator p of None \<Rightarrow> True | Some v \<Rightarrow> ValidateConfig v (FilterConfig.truncate f) = None) \<and>
     gomap_wf (Fields (as_parsed p f)) \<and> list_all (\<lambda>(n, v). readable tx p n v) (Fields f) \<and>
     gomap_wf (FieldsIn (as_parsed p f)) \<and> list_all (\<lambda>(n, vs). list_all (readable tx p n) vs) (FieldsIn f) \<and>
     gomap_wf (FieldsNotIn (as_parsed p f)) \<and> list_all (\<lambda>(n, vs). list_all (readable tx p n) vs) (FieldsNotIn f) \<and>
     gomap_wf (Intervals (as_parsed p f)) \<and>
     list_all (\<lambda>(n, i). (From i \<noteq> VNil \<longrightarrow> readable tx p n (From i)) \<and> (To i \<noteq> VNil \<longrightarrow> readable tx p n (To i))) (Intervals f) \<and>
     list_all (\<lambda>b. readable tx p (FromField b) (Between_Value b) \<and> readable tx p (ToField b) (Between_Value b)) (Filter_BetweenFields f) \<and>
     list_all (\<lambda>u. list_all (\<lambda>n. readable tx p n (Or_Value u)) (Or_Fields u)) (Filter_OrFields f)"


lemma convert_text: "fits tx t v \<Longrightarrow> convertValue tx t (filterValueToString tx v) = Inr v"
  by (cases "(tx, t, v)" rule: fits.cases)
     (simp_all add: StrToInt64_def ParseInt_decimal StrToUint64_def ParseUint_def parse_decimal StrToBool_def BoolToStr_def Let_def go_lower_def)

lemma field_text:
  assumes "readable tx p n v" shows "ParseValidateField tx p n (filterValueToString tx v) = Inr (resolve p n, v)"
proof -
  obtain fd where fd: "map_of (Destination p) n = Some fd" "Index fd" "fits tx (Field_DataType fd) v" "passes p n fd v"
    using assms by (auto simp: readable_def split: option.splits)
  then show ?thesis using convert_text [OF fd(3)]
    by (auto simp: ParseValidateField_def FindJsonField_def passes_def resolve_def Let_def split: option.splits)
qed

lemma values_text:
  assumes "list_all (readable tx p n) vs" shows "parse_values tx p n n (map (filterValueToString tx) vs) = Inr (list_name p n vs, vs)"
proof -
  have "parse_values tx p n m (map (filterValueToString tx) vs) = Inr (if vs = [] then m else resolve p n, vs)" for m
    using assms by (induction vs arbitrary: m) (auto simp: field_text)
  then show ?thesis by (simp add: list_name_def)
qed

lemma interval_text:
  assumes "From i \<noteq> VNil \<longrightarrow> readable tx p n (From i)" "To i \<noteq> VNil \<longrightarrow> readable tx p n (To i)"
  shows "parse_interval tx p n \<lparr>q_From = (if From i \<noteq> VNil then Some (filterValueToString tx (From i)) else None),
           q_To = (if To i \<noteq> VNil then Some (filterValueToString tx (To i)) else None),
           q_FromOpen = FromOpen i, q_ToOpen = ToOpen i\<rparr> = Inr (if bounded i then Some (resolve p n, i) else None)"
proof -
  have "resolve p n \<noteq> ''''" if "bounded i"
    using assms that by (auto simp: bounded_def readable_def resolve_def split: option.splits)
  then show ?thesis using assms
    by (cases "From i = VNil"; cases "To i = VNil") (auto simp: bounded_def parse_interval_def field_text Let_def intro: Interval.equality)
qed

lemma or_text:
  assumes "list_all (\<lambda>n. readable tx p n (Or_Value u)) (Or_Fields u)"
  shows "parse_or tx p \<lparr>qo_Value = filterValueToString tx (Or_Value u), qo_Fields = Or_Fields u\<rparr> =
    Inr \<lparr>Or_Value = (if Or_Fields u = [] then VNil else Or_Value u), Or_Fields = map (resolve p) (Or_Fields u)\<rparr>"
proof -
  have "fill_list (\<lambda>name. ParseValidateField tx p name (filterValueToString tx (Or_Value u))) ns = Inr (map (\<lambda>n. (resolve p n, Or_Value u)) ns)"
    if "list_all (\<lambda>n. readable tx p n (Or_Value u)) ns" for ns using that by (induction ns) (simp_all add: field_text)
  then show ?thesis using assms by (simp add: parse_or_def o_def last_map)
qed

lemma fill_map_back:
  assumes "gomap_wf (acc @ List.map_filter (\<lambda>(n, a). h n a) xs)" "list_all (\<lambda>(n, a). f n (g a) = Inr (h n a)) xs"
  shows "fill_map f (map (\<lambda>(n, a). (n, g a)) xs) acc = Inr (acc @ List.map_filter (\<lambda>(n, a). h n a) xs)"
  using assms
proof (induction xs arbitrary: acc)
  case (Cons x xs)
  obtain n a where x: "x = (n, a)" by (cases x)
  show ?case
  proof (cases "h n a")
    case None
    then show ?thesis using Cons x by (simp add: List.map_filter_simps)
  next
    case (Some mb)
    obtain m b where mb: "mb = (m, b)" by (cases mb)
    have "map_of acc m = None" using Cons.prems(1) x Some mb by (auto simp: gomap_wf_def map_of_eq_None_iff List.map_filter_simps)
    then have "AList.update m b acc = acc @ [(m, b)]" by (rule update_append)
    moreover have "fill_map f (map (\<lambda>(n, a). (n, g a)) xs) (acc @ [(m, b)]) = Inr ((acc @ [(m, b)]) @ List.map_filter (\<lambda>(n, a). h n a) xs)"
      by (rule Cons.IH) (use Cons.prems x Some mb in \<open>simp_all add: List.map_filter_simps\<close>)
    ultimately show ?thesis using Cons.prems(2) x Some mb by (simp add: List.map_filter_simps)
  qed
qed (simp add: List.map_filter_simps)

lemma fill_map_rename:
  assumes "gomap_wf (map (\<lambda>(n, a). (h n a, a)) xs)" "list_all (\<lambda>(n, a). f n (g a) = Inr (Some (h n a, a))) xs"
  shows "fill_map f (map (\<lambda>(n, a). (n, g a)) xs) [] = Inr (map (\<lambda>(n, a). (h n a, a)) xs)"
proof -
  have "List.map_filter (\<lambda>(n, a). Some (h n a, a)) xs = map (\<lambda>(n, a). (h n a, a)) xs"
    by (induction xs) (auto simp: List.map_filter_simps)
  then show ?thesis using fill_map_back [of "[]" "\<lambda>n a. Some (h n a, a)" xs f g] assms by simp
qed

lemma fill_list_back: "list_all (\<lambda>x. f (g x) = Inr (h x)) xs \<Longrightarrow> fill_list f (map g xs) = Inr (map h xs)"
  by (induction xs) simp_all

lemma as_parsed_parts:
  "Fields (as_parsed p f) = map (\<lambda>(n, v). (resolve p n, v)) (Fields f)"
  "FieldsIn (as_parsed p f) = map (\<lambda>(n, vs). (list_name p n vs, vs)) (FieldsIn f)"
  "FieldsNotIn (as_parsed p f) = map (\<lambda>(n, vs). (list_name p n vs, vs)) (FieldsNotIn f)"
  "Intervals (as_parsed p f) = List.map_filter (\<lambda>(n, i). if bounded i then Some (resolve p n, i) else None) (Intervals f)"
  by (simp_all add: as_parsed_def)

lemma sent_filter_is_read:
  assumes "sendable tx p f" shows "Parse tx p (Some (ToQuery tx f)) = Inr (Some (as_parsed p f))"
proof -
  let ?q = "ToQuery tx f"
  let ?text = "filterValueToString tx"
  note s = assms [unfolded sendable_def as_parsed_parts]
  have q: "q_Fields ?q = map (\<lambda>(n, v). (n, ?text v)) (Fields f)" "q_FieldsIn ?q = map (\<lambda>(n, vs). (n, map ?text vs)) (FieldsIn f)"
    "q_FieldsNotIn ?q = map (\<lambda>(n, vs). (n, map ?text vs)) (FieldsNotIn f)" "SortField ?q = SortField f"
    "FilterConfig.truncate ?q = FilterConfig.truncate f"
    by (simp_all add: ToQuery_def Let_def FilterConfig.extend_def FilterConfig.truncate_def)
  have iv: "\<forall>(n, i) \<in> set (Intervals f). parse_interval tx p n \<lparr>q_From = (if From i \<noteq> VNil then Some (?text (From i)) else None),
      q_To = (if To i \<noteq> VNil then Some (?text (To i)) else None), q_FromOpen = FromOpen i, q_ToOpen = ToOpen i\<rparr> =
      Inr (if bounded i then Some (resolve p n, i) else None)"
    using s by (intro ballI, clarify, intro interval_text) (auto simp: list_all_iff)
  have "parse_sort p ?q = Inr (if SortField f = '''' then '''' else resolve p (SortField f))"
    using s q(4) by (auto simp: parse_sort_def resolve_def ParseFieldName_def FindJsonField_def split: option.splits)
  moreover have "parse_config p ?q = None" using s q(5) by (auto simp: parse_config_def split: option.splits)
  moreover have "fill_map (\<lambda>key v. map_sum id Some (ParseValidateField tx p key v)) (q_Fields ?q) [] = Inr (map (\<lambda>(n, v). (resolve p n, v)) (Fields f))"
    unfolding q by (rule fill_map_rename) (use s in \<open>auto simp: list_all_iff field_text\<close>)
  moreover have "fill_map (\<lambda>key vs. map_sum id Some (parse_values tx p key key vs)) (q_FieldsIn ?q) [] = Inr (map (\<lambda>(n, vs). (list_name p n vs, vs)) (FieldsIn f))"
    unfolding q by (rule fill_map_rename) (use s in \<open>auto simp: list_all_iff values_text\<close>)
  moreover have "fill_map (\<lambda>key vs. map_sum id Some (parse_values tx p key key vs)) (q_FieldsNotIn ?q) [] = Inr (map (\<lambda>(n, vs). (list_name p n vs, vs)) (FieldsNotIn f))"
    unfolding q by (rule fill_map_rename) (use s in \<open>auto simp: list_all_iff values_text\<close>)
  moreover have "fill_map (parse_interval tx p) (q_Intervals ?q) [] =
      Inr (List.map_filter (\<lambda>(n, i). if bounded i then Some (resolve p n, i) else None) (Intervals f))"
    unfolding ToQuery_def Let_def FilterConfig.extend_def Query.select_convs
    by (rule fill_map_back [of "[]", simplified]) (use s iv in \<open>simp_all add: list_all_iff\<close>)
  moreover have "fill_list (parse_between tx p) (q_BetweenFields ?q) =
      Inr (map (\<lambda>b. b\<lparr>FromField := resolve p (FromField b), ToField := resolve p (ToField b)\<rparr>) (Filter_BetweenFields f))"
    unfolding ToQuery_def Let_def FilterConfig.extend_def Query.select_convs
    by (rule fill_list_back) (use s in \<open>auto simp: list_all_iff parse_between_def field_text\<close>)
  moreover have "fill_list (parse_or tx p) (q_OrFields ?q) =
      Inr (map (\<lambda>u. \<lparr>Or_Value = (if Or_Fields u = [] then VNil else Or_Value u), Or_Fields = map (resolve p) (Or_Fields u)\<rparr>) (Filter_OrFields f))"
    unfolding ToQuery_def Let_def FilterConfig.extend_def Query.select_convs
    by (rule fill_list_back) (use s in \<open>auto simp: list_all_iff or_text\<close>)
  ultimately show ?thesis using q(5) by (simp add: Parse_def as_parsed_def)
qed



subsection \<open>Types of parsed values\<close>

fun type_of :: "db_value \<Rightarrow> DataType option" where
  "type_of VNil = None"
| "type_of (VString s) = Some TString"
| "type_of (VInt i) = Some TInt"
| "type_of (VUint n) = Some TUint"
| "type_of (VBool b) = Some TBool"
| "type_of (VTime t) = Some TTime"
| "type_of (VFloat x) = Some TFloat"

definition typed :: "FilterParser \<Rightarrow> string \<Rightarrow> db_value \<Rightarrow> bool" where
  "typed p n v \<longleftrightarrow> (\<exists>fd \<in> snd ` set (Destination p). Index fd \<and> n = fieldName p fd \<and> type_of v = Some (Field_DataType fd))"

lemma convert_typed: "convertValue tx t s = Inr v \<Longrightarrow> type_of v = Some t"
  by (cases t) auto

lemma field_typed:
  assumes "ParseValidateField tx p k s = Inr (n, v)" shows "typed p n v"
proof -
  obtain fd where "map_of (Destination p) k = Some fd" "Index fd" "n = fieldName p fd" "convertValue tx (Field_DataType fd) s = Inr v"
    using assms by (auto simp: ParseValidateField_def FindJsonField_def Let_def split: option.splits if_splits sum.splits)
  then show ?thesis unfolding typed_def by (force dest: map_of_SomeD convert_typed)
qed

lemma field_name_fixed: "ParseValidateField tx p k s = Inr (n, v) \<Longrightarrow> ParseValidateField tx p k s' = Inr (n', v') \<Longrightarrow> n' = n"
  by (auto simp: ParseValidateField_def Let_def split: option.splits if_splits sum.splits)

lemma values_name: "ParseValidateField tx p k s = Inr (f, y) \<Longrightarrow> parse_values tx p k f vs = Inr (n, xs) \<Longrightarrow> n = f"
proof (induction vs arbitrary: s f y xs)
  case (Cons v vs)
  obtain f' z zs where z: "ParseValidateField tx p k v = Inr (f', z)" "parse_values tx p k f' vs = Inr (n, zs)"
    using Cons.prems(2) by (auto split: sum.splits)
  then show ?case using Cons.IH [OF z] field_name_fixed [OF Cons.prems(1) z(1)] by simp
qed simp

lemma values_typed: "parse_values tx p k f vs = Inr (n, xs) \<Longrightarrow> x \<in> set xs \<Longrightarrow> typed p n x"
proof (induction vs arbitrary: f xs)
  case (Cons v vs)
  obtain f' y ys where y: "ParseValidateField tx p k v = Inr (f', y)" "parse_values tx p k f' vs = Inr (n, ys)" "xs = y # ys"
    using Cons.prems(1) by (auto split: sum.splits)
  then show ?case using Cons.IH [OF y(2)] Cons.prems(2) field_typed [OF y(1)] values_name [OF y(1,2)] by auto
qed simp

lemma interval_typed:
  assumes "parse_interval tx p k i = Inr (Some (n, j))" shows "(From j = VNil \<or> typed p n (From j)) \<and> (To j = VNil \<or> typed p n (To j))"
proof -
  let ?read = "\<lambda>q. case q of None \<Rightarrow> Inr ('''', VNil) | Some str \<Rightarrow> ParseValidateField tx p k str"
  obtain nf a nt b where r: "?read (q_From i) = Inr (nf, a)" "?read (q_To i) = Inr (nt, b)"
    and j: "From j = a" "To j = b" "n = (if nf = '''' then nt else nf)" "n \<noteq> ''''"
    using assms by (auto simp: parse_interval_def Let_def split: option.splits sum.splits if_splits)
  have "a = VNil \<or> typed p nf a" "b = VNil \<or> typed p nt b"
    using r by (auto split: option.splits dest: field_typed)
  moreover have "a = VNil \<or> b = VNil \<or> nt = nf" using r by (auto split: option.splits dest: field_name_fixed)
  moreover have "nf = '''' \<Longrightarrow> nt \<noteq> '''' \<Longrightarrow> a = VNil" using r by (auto split: option.splits dest: field_name_fixed)
  moreover have "nf \<noteq> '''' \<Longrightarrow> nt \<noteq> nf \<Longrightarrow> b = VNil" using r by (auto split: option.splits dest: field_name_fixed)
  ultimately show ?thesis using j by (auto split: if_splits)
qed

lemma between_typed: "parse_between tx p b = Inr c \<Longrightarrow> typed p (FromField c) (Between_Value c) \<and> allowed p (ToField c)"
  by (auto simp: parse_between_def split: sum.splits prod.splits dest: field_typed field_allowed)

lemma or_typed:
  assumes "parse_or tx p u = Inr w"
  shows "if Or_Fields w = [] then Or_Value w = VNil else typed p (last (Or_Fields w)) (Or_Value w)"
proof -
  obtain xs where xs: "fill_list (\<lambda>name. ParseValidateField tx p name (qo_Value u)) (qo_Fields u) = Inr xs"
    and w: "w = \<lparr>Or_Value = (if xs = [] then VNil else snd (last xs)), Or_Fields = map fst xs\<rparr>"
    using assms by (auto simp: parse_or_def split: sum.splits)
  have "typed p (fst (last xs)) (snd (last xs))" if "xs \<noteq> []"
    using fill_list_all [OF xs last_in_set [OF that]] field_typed by (metis prod.collapse)
  then show ?thesis by (simp add: w last_map)
qed

text \<open>C38: every value of a parsed query that is compared in an equality, in a list or in an interval has the type of an indexed field with the name it is
  compared with. A value between two fields has the type of the first of them, and a value of alternatives the type of the last, or is nil when there is none;
  the other fields of these conditions are indexed, but their types are not those of the value in general.\<close>

theorem parsed_values_are_typed:
  assumes "Parse tx p (Some q) = Inr (Some f)"
  shows "(\<forall>(n, v) \<in> set (Fields f). typed p n v) \<and> (\<forall>(n, vs) \<in> set (FieldsIn f). \<forall>v \<in> set vs. typed p n v) \<and>
    (\<forall>(n, vs) \<in> set (FieldsNotIn f). \<forall>v \<in> set vs. typed p n v) \<and>
    (\<forall>(n, i) \<in> set (Intervals f). (From i = VNil \<or> typed p n (From i)) \<and> (To i = VNil \<or> typed p n (To i))) \<and>
    (\<forall>b \<in> set (Filter_BetweenFields f). typed p (FromField b) (Between_Value b) \<and> allowed p (ToField b)) \<and>
    (\<forall>u \<in> set (Filter_OrFields f). (if Or_Fields u = [] then Or_Value u = VNil else typed p (last (Or_Fields u)) (Or_Value u)) \<and>
      (\<forall>n \<in> set (Or_Fields u). allowed p n))"
proof -
  note parts = Parse_parts [OF assms]
  have lists: "\<forall>(n, vs) \<in> set m. \<forall>v \<in> set vs. typed p n v"
    if "fill_map (\<lambda>key vs. map_sum id Some (parse_values tx p key key vs)) xs [] = Inr m" for xs m
    using fill_map_entries [OF that, of "\<lambda>n vs. \<forall>v \<in> set vs. typed p n v"] values_typed by fastforce
  have "\<forall>(n, v) \<in> set (Fields f). typed p n v"
    using fill_map_entries [OF parts(2), of "typed p"] field_typed by fastforce
  moreover have "\<forall>(n, i) \<in> set (Intervals f). (From i = VNil \<or> typed p n (From i)) \<and> (To i = VNil \<or> typed p n (To i))"
    using fill_map_entries [OF parts(5), of "\<lambda>n i. (From i = VNil \<or> typed p n (From i)) \<and> (To i = VNil \<or> typed p n (To i))"]
      interval_typed by fastforce
  moreover have "\<forall>b \<in> set (Filter_BetweenFields f). typed p (FromField b) (Between_Value b) \<and> allowed p (ToField b)"
    using fill_list_all [OF parts(6)] between_typed by blast
  moreover have "\<forall>u \<in> set (Filter_OrFields f). (if Or_Fields u = [] then Or_Value u = VNil else typed p (last (Or_Fields u)) (Or_Value u)) \<and>
      (\<forall>n \<in> set (Or_Fields u). allowed p n)"
    using fill_list_all [OF parts(7)] or_typed or_allowed by blast
  ultimately show ?thesis using lists [OF parts(3)] lists [OF parts(4)] by blast
qed

subsection \<open>Limits\<close>

text \<open>A query of a client never reads more rows than the limit of the server, whatever limit and offset it asks for and whether or not it asks for
  the total.\<close>

theorem client_reads_are_limited:
  assumes "Parse tx p (Some q) = Inr (Some f)" "0 < MaxLimit"
  shows "\<exists>n. limit_by (find_session MaxLimit (Some f) g) = Some n \<and> 0 < n \<and> n \<le> MaxLimit"
  using Parse_parts(10) [OF assms(1)] assms(2) by (auto simp: find_session_def SetFilter_def Paginate_def Let_def)

subsection \<open>Rows a filter selects\<close>

text \<open>
  Conditions on a row. \<open>col\<close> reads a column by the parts of its name, each quoted alone: \<open>Some VNil\<close> is NULL, and \<open>None\<close> when the tables of the
  statement have no such column. A name in a text of the code is one part, points included. \<open>below\<close> is the order of values. A comparison with NULL
  does not hold, and gorm writes an empty list as \<open>(NULL)\<close>.
\<close>

fun op_holds :: "(db_value \<Rightarrow> db_value \<Rightarrow> bool) \<Rightarrow> string \<Rightarrow> db_value \<Rightarrow> db_value \<Rightarrow> bool" where
  "op_holds below op x y =
     (x \<noteq> VNil \<and> y \<noteq> VNil \<and>
      (if op = ''='' then x = y else if op = ''>'' then below y x else if op = ''>='' then below y x \<or> x = y
       else if op = ''<'' then below x y else if op = ''<='' then below x y \<or> x = y else False))"

fun sat_atom :: "(db_value \<Rightarrow> db_value \<Rightarrow> bool) \<Rightarrow> (string list \<Rightarrow> db_value option) \<Rightarrow> atom \<Rightarrow> bool" where
  "sat_atom below col (ColumnOp c op v) = (case col [c] of None \<Rightarrow> False | Some x \<Rightarrow> op_holds below op x v)"
| "sat_atom below col (ValueOp v op c) = (case col [c] of None \<Rightarrow> False | Some x \<Rightarrow> op_holds below op v x)"

fun sat :: "(db_value \<Rightarrow> db_value \<Rightarrow> bool) \<Rightarrow> (string list \<Rightarrow> db_value option) \<Rightarrow> condition \<Rightarrow> bool" where
  "sat below col (AllEqual m) = list_all (\<lambda>(k, v). col (Split k ''.'') = Some v) m"
| "sat below col (InList c vs) = (case col [c] of None \<Rightarrow> False | Some x \<Rightarrow> x \<noteq> VNil \<and> x \<in> set vs)"
| "sat below col (NotInList c vs) = (case col [c] of None \<Rightarrow> False | Some x \<Rightarrow> vs \<noteq> [] \<and> VNil \<notin> set vs \<and> x \<noteq> VNil \<and> x \<notin> set vs)"
| "sat below col (Conj as) = list_all (sat_atom below col) as"
| "sat below col (NullOr c as) = (col [c] = Some VNil \<or> list_all (sat_atom below col) as)"

fun atom_column :: "atom \<Rightarrow> string list" where
  "atom_column (ColumnOp c op v) = [c]"
| "atom_column (ValueOp v op c) = [c]"

fun columns :: "condition \<Rightarrow> string list list" where
  "columns (AllEqual m) = map (\<lambda>(k, v). Split k ''.'') m"
| "columns (InList c vs) = [[c]]"
| "columns (NotInList c vs) = [[c]]"
| "columns (Conj as) = map atom_column as"
| "columns (NullOr c as) = [c] # map atom_column as"

definition known :: "(string list \<Rightarrow> db_value option) \<Rightarrow> string list list \<Rightarrow> bool" where
  "known col cs \<longleftrightarrow> list_all (\<lambda>c. col c \<noteq> None) cs"

text \<open>
  What the documentation of gorm says of chains: conditions given to \<open>Where\<close> are joined by AND, one given to \<open>Or\<close> is joined to everything before it
  by OR. A statement with a column that does not exist fails.
\<close>

locale gorm_where =
  fixes selects :: "(string list \<Rightarrow> db_value option) \<Rightarrow> (bool \<times> condition) list \<Rightarrow> bool option" and below :: "db_value \<Rightarrow> db_value \<Rightarrow> bool"
  assumes where_chain: "list_all (\<lambda>c. \<not> fst c) cs \<Longrightarrow> selects col cs =
      (if known col (concat (map (columns \<circ> snd) cs)) then Some (list_all (\<lambda>c. sat below col (snd c)) cs) else None)"
    and or_last: "cs \<noteq> [] \<Longrightarrow> selects col (cs @ [(True, c)]) =
      (case selects col cs of None \<Rightarrow> None | Some b \<Rightarrow> if known col (columns c) then Some (b \<or> sat below col c) else None)"

definition sql_selects ::
    "(db_value \<Rightarrow> db_value \<Rightarrow> bool) \<Rightarrow> (string list \<Rightarrow> db_value option) \<Rightarrow> (bool \<times> condition) list \<Rightarrow> bool option" where
  "sql_selects below col cs =
     (if known col (concat (map (columns \<circ> snd) cs))
      then Some (case cs of
        [] \<Rightarrow> True
      | c # rest \<Rightarrow>
          (case fold (\<lambda>(isOr, c) (done, cur). if isOr then (done \<or> cur, sat below col c) else (done, cur \<and> sat below col c))
                  rest (False, sat below col (snd c)) of
             (done, cur) \<Rightarrow> done \<or> cur))
      else None)"

interpretation sql: gorm_where "sql_selects below" below
proof (unfold_locales, goal_cases)
  case (1 cs col)
  have "fold (\<lambda>(isOr, c) (done, cur). if isOr then (done \<or> cur, sat below col c) else (done, cur \<and> sat below col c)) rest (False, b) =
      (False, b \<and> list_all (\<lambda>c. sat below col (snd c)) rest)" if "list_all (\<lambda>c. \<not> fst c) rest" for rest b
    using that by (induction rest arbitrary: b) auto
  then show ?case using 1 by (cases cs) (auto simp: sql_selects_def)
next
  case (2 cs col c)
  then show ?case by (cases cs) (auto simp: sql_selects_def known_def split: prod.splits)
qed

text \<open>What a filter asks of a row. An interval with equal ends is that point, open or not.\<close>

definition in_interval :: "(db_value \<Rightarrow> db_value \<Rightarrow> bool) \<Rightarrow> Interval \<Rightarrow> db_value \<Rightarrow> bool" where
  "in_interval below i x \<longleftrightarrow>
     (if From i \<noteq> VNil \<and> From i = To i then x = From i
      else (From i = VNil \<or> below (From i) x \<or> (\<not> FromOpen i \<and> x = From i)) \<and> (To i = VNil \<or> below x (To i) \<or> (\<not> ToOpen i \<and> x = To i)))"

definition has :: "(string list \<Rightarrow> db_value option) \<Rightarrow> string list \<Rightarrow> (db_value \<Rightarrow> bool) \<Rightarrow> bool" where
  "has col c P \<longleftrightarrow> (\<exists>x. col c = Some x \<and> x \<noteq> VNil \<and> P x)"

definition matches_plain :: "(db_value \<Rightarrow> db_value \<Rightarrow> bool) \<Rightarrow> (string list \<Rightarrow> db_value option) \<Rightarrow> Filter \<Rightarrow> bool" where
  "matches_plain below col f \<longleftrightarrow>
     list_all (\<lambda>(k, v). col (Split k ''.'') = Some v) (Fields f) \<and> list_all (list_all (\<lambda>(k, v). col (Split k ''.'') = Some v)) (PresetFields f) \<and>
     list_all (\<lambda>(k, vs). has col [k] (\<lambda>x. x \<in> set vs)) (FieldsIn f) \<and>
     list_all (\<lambda>(k, vs). vs \<noteq> [] \<and> VNil \<notin> set vs \<and> has col [k] (\<lambda>x. x \<notin> set vs)) (FieldsNotIn f) \<and>
     list_all (\<lambda>(k, i). bounded i \<longrightarrow> has col [k] (in_interval below i)) (Intervals f) \<and>
     list_all (\<lambda>(k, i). bounded i \<longrightarrow> col [k] = Some VNil \<or> has col [k] (in_interval below i)) (IntervalsOrNull f)"

text \<open>The columns a filter names: the keys of its fields split at the points, the other names as they are.\<close>

definition filter_columns :: "Filter \<Rightarrow> string list list" where
  "filter_columns f =
     map (\<lambda>(k, v). Split k ''.'') (Fields f @ concat (PresetFields f)) @ map (\<lambda>(k, vs). [k]) (FieldsIn f @ FieldsNotIn f) @
     map (\<lambda>(k, i). [k]) (filter (\<lambda>(k, i). bounded i) (Intervals f @ IntervalsOrNull f))"

lemma wheres_Where: "wheres (fold (\<lambda>x. Where (g x)) xs h) = wheres h @ map (\<lambda>x. (False, g x)) xs"
  by (induction xs arbitrary: h) (simp_all add: Where_def)

definition plain_wheres :: "Filter \<Rightarrow> condition list" where
  "plain_wheres f =
     (if Fields f \<noteq> [] then [AllEqual (Fields f)] else []) @ map AllEqual (PresetFields f) @
     map (\<lambda>(n, vs). InList n vs) (FieldsIn f) @ map (\<lambda>(n, vs). NotInList n vs) (FieldsNotIn f) @
     concat (map (\<lambda>(n, i). if bounded i then [Conj (interval_atoms n i)] else []) (Intervals f)) @
     concat (map (\<lambda>(n, i). if bounded i then [NullOr n (interval_atoms n i)] else []) (IntervalsOrNull f)) @
     map between_condition (Filter_BetweenFields f)"

lemma interval_atoms_Nil: "interval_atoms n i = [] \<longleftrightarrow> \<not> bounded i"
  by (auto simp: interval_atoms_def bounded_def)

lemma wheres_intervals:
  "wheres (fold (\<lambda>(n, i). prepareInterval n i) xs h) =
     wheres h @ map (Pair False) (concat (map (\<lambda>(n, i). if bounded i then [Conj (interval_atoms n i)] else []) xs))"
  "wheres (fold (\<lambda>(n, i). prepareIntervalOrNull n i) xs h) =
     wheres h @ map (Pair False) (concat (map (\<lambda>(n, i). if bounded i then [NullOr n (interval_atoms n i)] else []) xs))"
  by (induction xs arbitrary: h)
     (auto simp: prepareInterval_def prepareIntervalOrNull_def Let_def interval_atoms_Nil Where_def)

lemma wheres_plain:
  assumes "Filter_OrFields f = []" shows "wheres (prepareFilter f h) = wheres h @ map (Pair False) (plain_wheres f)"
proof -
  have w: "(\<lambda>(name, vs). Where (InList name vs)) = (\<lambda>x. Where (case x of (name, vs) \<Rightarrow> InList name vs))"
    "(\<lambda>(name, vs). Where (NotInList name vs)) = (\<lambda>x. Where (case x of (name, vs) \<Rightarrow> NotInList name vs))" by auto
  show ?thesis unfolding prepareFilter_def Let_def assms w
    by (simp add: wheres_Where wheres_intervals plain_wheres_def Where_def o_def)
qed

lemma sat_interval:
  "bounded i \<Longrightarrow> list_all (sat_atom below col) (interval_atoms n i) \<longleftrightarrow> has col [n] (in_interval below i)"
  by (cases "col [n]") (auto simp: interval_atoms_def in_interval_def compareOp_def bounded_def has_def)

lemma interval_columns: "bounded i \<Longrightarrow> known col (map atom_column (interval_atoms n i)) \<longleftrightarrow> col [n] \<noteq> None"
  by (auto simp: interval_atoms_def bounded_def known_def)

lemma known_append [simp]: "known col (xs @ ys) \<longleftrightarrow> known col xs \<and> known col ys"
  by (simp add: known_def)

lemma known_simps [simp]: "known col []" "known col (c # cs) \<longleftrightarrow> col c \<noteq> None \<and> known col cs"
  by (simp_all add: known_def)

lemma sat_plain:
  "list_all (sat below col) (plain_wheres f) \<longleftrightarrow> matches_plain below col f \<and> list_all (\<lambda>b. sat below col (between_condition b)) (Filter_BetweenFields f)"
proof -
  have i: "list_all (sat below col) (concat (map (\<lambda>(n, i). if bounded i then [Conj (interval_atoms n i)] else []) xs)) \<longleftrightarrow>
    list_all (\<lambda>(k, i). bounded i \<longrightarrow> has col [k] (in_interval below i)) xs" for xs
    by (induction xs) (auto simp: sat_interval)
  have n: "list_all (sat below col) (concat (map (\<lambda>(n, i). if bounded i then [NullOr n (interval_atoms n i)] else []) xs)) \<longleftrightarrow>
    list_all (\<lambda>(k, i). bounded i \<longrightarrow> col [k] = Some VNil \<or> has col [k] (in_interval below i)) xs" for xs
    by (induction xs) (auto simp: sat_interval)
  have l: "list_all (sat below col) (map (\<lambda>(n, vs). InList n vs) xs) \<longleftrightarrow> list_all (\<lambda>(k, vs). has col [k] (\<lambda>x. x \<in> set vs)) xs" for xs
    by (induction xs) (auto simp: has_def split: option.splits)
  have e: "list_all (sat below col) (map (\<lambda>(n, vs). NotInList n vs) xs) \<longleftrightarrow>
    list_all (\<lambda>(k, vs). vs \<noteq> [] \<and> VNil \<notin> set vs \<and> has col [k] (\<lambda>x. x \<notin> set vs)) xs" for xs
    by (induction xs) (auto simp: has_def split: option.splits)
  have a: "list_all (sat below col) (map AllEqual ms) \<longleftrightarrow> list_all (list_all (\<lambda>(k, v). col (Split k ''.'') = Some v)) ms" for ms
    by (induction ms) auto
  show ?thesis unfolding plain_wheres_def matches_plain_def list_all_append i n l e a by (auto simp: list.pred_map o_def)
qed

lemma columns_plain:
  assumes "Filter_BetweenFields f = []" shows "known col (concat (map columns (plain_wheres f))) \<longleftrightarrow> known col (filter_columns f)"
proof -
  have i: "known col (concat (map columns (concat (map (\<lambda>(n, i). if bounded i then [Conj (interval_atoms n i)] else []) xs)))) \<longleftrightarrow>
      known col (map (\<lambda>(k, i). [k]) (filter (\<lambda>(k, i). bounded i) xs))" for xs
    by (induction xs) (auto simp: interval_columns)
  have n: "known col (concat (map columns (concat (map (\<lambda>(n, i). if bounded i then [NullOr n (interval_atoms n i)] else []) xs)))) \<longleftrightarrow>
      known col (map (\<lambda>(k, i). [k]) (filter (\<lambda>(k, i). bounded i) xs))" for xs
    by (induction xs) (auto simp: interval_columns)
  have a: "known col (concat (map columns (map AllEqual ms))) \<longleftrightarrow> known col (map (\<lambda>(k, v). Split k ''.'') (concat ms))" for ms
    by (induction ms) auto
  have l: "concat (map columns (map (\<lambda>(n, vs). InList n vs) xs)) = map (\<lambda>(k, vs). [k]) xs"
    "concat (map columns (map (\<lambda>(n, vs). NotInList n vs) xs)) = map (\<lambda>(k, vs). [k]) xs" for xs :: "(string \<times> db_value list) list"
    by (induction xs) auto
  show ?thesis unfolding plain_wheres_def filter_columns_def map_append concat_append known_append filter_append i n a l assms
    by auto
qed

context gorm_where
begin

lemma selects_wheres:
  "selects col (map (Pair False) cs) = (if known col (concat (map columns cs)) then Some (list_all (sat below col) cs) else None)"
  by (subst where_chain) (simp_all add: list_all_iff o_def)

lemma selects_plain:
  assumes "Filter_OrFields f = []" "Filter_BetweenFields f = []" "wheres h = []"
  shows "selects col (wheres (prepareFilter f h)) = (if known col (filter_columns f) then Some (matches_plain below col f) else None)"
  using wheres_plain [OF assms(1)] assms(2,3) by (simp add: selects_wheres sat_plain columns_plain)

lemma selects_ors:
  assumes "cs \<noteq> []"
  shows "selects col (cs @ map (\<lambda>m. (True, g m)) ns) =
    (case selects col cs of None \<Rightarrow> None
     | Some b \<Rightarrow> if known col (concat (map (columns \<circ> g) ns)) then Some (b \<or> (\<exists>m \<in> set ns. sat below col (g m))) else None)"
proof (induction ns rule: rev_induct)
  case Nil
  then show ?case by (simp split: option.splits)
next
  case (snoc n ns)
  have "selects col ((cs @ map (\<lambda>m. (True, g m)) ns) @ [(True, g n)]) =
      (case selects col (cs @ map (\<lambda>m. (True, g m)) ns) of None \<Rightarrow> None
       | Some b \<Rightarrow> if known col (columns (g n)) then Some (b \<or> sat below col (g n)) else None)" by (rule or_last) (use assms in simp)
  then show ?case using snoc.IH by (auto simp: o_def split: option.splits)
qed

lemma selects_or:
  assumes "Filter_OrFields f = [u]" "Or_Fields u = n # ns" "Filter_BetweenFields f = []" "wheres h = []"
    and "known col (filter_columns f)" "known col (map (\<lambda>m. Split m ''.'') (n # ns))"
  shows "selects col (wheres (prepareFilter f h)) =
    Some (matches_plain below col f \<and> sat below col (or_condition u n) \<or> (\<exists>m \<in> set ns. sat below col (or_condition u m)))"
proof -
  let ?f = "f\<lparr>Filter_OrFields := []\<rparr>"
  have ors: "wheres (fold (\<lambda>m. Or (g m)) ns h) = wheres h @ map (\<lambda>m. (True, g m)) ns" for g h
    by (induction ns arbitrary: h) (simp_all add: Or_def)
  have same: "plain_wheres ?f = plain_wheres f" "Filter_BetweenFields ?f = []"
    using assms(3) by (simp_all add: plain_wheres_def)
  have "prepareFilter f h = or_conditions u (prepareFilter ?f h)" using assms(1) by (simp add: prepareFilter_def Let_def)
  then have w: "wheres (prepareFilter f h) =
      map (Pair False) (plain_wheres f @ [or_condition u n]) @ map (\<lambda>m. (True, or_condition u m)) ns"
    using assms(2,4) wheres_plain [of ?f h] same by (simp add: or_conditions_def ors Where_def)
  have c: "concat (map (columns \<circ> or_condition u) ms) = map (\<lambda>m. Split m ''.'') ms" for ms
    by (induction ms) (simp_all add: or_condition_def)
  have p: "selects col (map (Pair False) (plain_wheres f @ [or_condition u n])) = Some (matches_plain below col f \<and> sat below col (or_condition u n))"
    unfolding selects_wheres using assms(3,5,6) columns_plain [OF assms(3)] by (simp add: sat_plain) (simp add: or_condition_def)
  show ?thesis unfolding w by (subst selects_ors) (use assms(6) in \<open>simp_all add: p c del: map_append\<close>)
qed

end


text \<open>A filter with alternatives over several fields does not restrict its other conditions to them: a row that has the value in any field but the
  first is selected whatever the other conditions say, preset fields included.\<close>

theorem or_fields_bypass_conditions:
  assumes "gorm_where selects below" "Filter_OrFields f = [u]" "Or_Fields u = n # ns" "Filter_BetweenFields f = []" "wheres h = []"
    and "known col (filter_columns f)" "known col (map (\<lambda>m. Split m ''.'') (n # ns))"
  shows "selects col (wheres (prepareFilter f h)) =
    Some (matches_plain below col f \<and> sat below col (or_condition u n) \<or> (\<exists>m \<in> set ns. sat below col (or_condition u m)))"
  by (rule gorm_where.selects_or [OF assms])

text \<open>The condition on a value between two fields tests that the value lies above both.\<close>

theorem between_tests_both_from_below:
  "sat below col (between_condition b) \<longleftrightarrow>
     Between_Value b \<noteq> VNil \<and>
     has col [FromField b] (\<lambda>x. below x (Between_Value b) \<or> (\<not> Between_FromOpen b \<and> Between_Value b = x)) \<and>
     has col [ToField b] (\<lambda>y. below y (Between_Value b) \<or> (\<not> Between_ToOpen b \<and> Between_Value b = y))"
  by (cases "col [FromField b]"; cases "col [ToField b]") (auto simp: between_condition_def compareOp_def has_def)

subsection \<open>Queries on a model\<close>

text \<open>A model with two indexed fields and one that is not.\<close>

definition site_texts :: value_texts where
  "site_texts = \<lparr>time_text = (\<lambda>_. ''''), float_text = (\<lambda>_. ''''), ParseTime = (\<lambda>_. Inl ''''), StrToFloat = (\<lambda>_. Inl '''')\<rparr>"

definition site_field :: "string \<Rightarrow> string \<Rightarrow> DataType \<Rightarrow> schema_field" where
  "site_field n ix t = \<lparr>IgnoreMigration = False, json_tag = n, source_tag = '''', DBName = n, PrimaryKey = False, index_setting = ix,
     unique_index_setting = '''', schema_DataType = t, schema_validate = '''', OwnerSchema = None\<rparr>"

definition site_parser :: FilterParser where
  "site_parser = \<lparr>Destination = ParseFields ''users'' [] [site_field ''login'' ''INDEX'' TString, site_field ''active'' ''INDEX'' TBool,
     site_field ''salt'' '''' TString, site_field ''age'' ''INDEX'' TInt], Parser_Validator = None\<rparr>"

text \<open>The filter of a client, and the one the server reads.\<close>

definition client_filter :: Filter where
  "client_filter = PushPresetFields [(''owner'', VString ''me'')] (AddOrFields (VString ''ann'') [''login''] (AddFieldIn ''login'' [VString ''ann'']
     (AddInterval ''age'' (VInt 18) VNil (AddField ''login'' (VString ''ann'') NewFilter))))"

definition site_filter :: Filter where
  "site_filter = AddOrFields (VString ''ann'') [''users.login''] (AddFieldIn ''users.login'' [VString ''ann'']
     (AddInterval ''users.age'' (VInt 18) VNil (AddField ''users.login'' (VString ''ann'') NewFilter)))"

definition site_query :: Query where
  "site_query = ToQuery site_texts client_filter"

text \<open>A row of the table of users, and filters of the server itself over it.\<close>

definition site_row :: "string list \<Rightarrow> db_value option" where
  "site_row c =
     (if c = [''users'', ''login''] \<or> c = [''login''] then Some (VString ''ann'') else if c = [''users'', ''age''] \<or> c = [''age''] then Some (VInt 20)
      else if c = [''email''] \<or> c = [''owner''] then Some VNil else None)"


definition int_below :: "db_value \<Rightarrow> db_value \<Rightarrow> bool" where
  "int_below x y = (case (x, y) of (VInt a, VInt b) \<Rightarrow> a < b | _ \<Rightarrow> False)"

definition new_session :: session where
  "new_session = \<lparr>wheres = [], order_by = None, offset_by = None, limit_by = None\<rparr>"

lemma site_sendable: "sendable site_texts site_parser client_filter"
  by code_simp

lemma site_as_parsed: "as_parsed site_parser client_filter = site_filter"
  by code_simp

lemma site_parsed: "Parse site_texts site_parser (Some site_query) = Inr (Some site_filter)"
  using sent_filter_is_read [OF site_sendable] by (simp add: site_query_def site_as_parsed)

theorem parsed_columns_are_indexed_witness: "''users.login'' \<in> columns_of site_filter \<and> allowed site_parser ''users.login''"
proof -
  have "[] \<notin> snd ` set (q_FieldsIn site_query)" "[] \<notin> snd ` set (q_FieldsNotIn site_query)" by code_simp+
  then have "n \<in> columns_of site_filter \<Longrightarrow> allowed site_parser n" for n using parsed_columns_are_indexed [OF site_parsed] by blast
  moreover have "''users.login'' \<in> fst ` set (Fields site_filter)" by code_simp
  ultimately show ?thesis by (simp add: columns_of_def)
qed


theorem parsed_values_are_typed_witness: "(''users.login'', VString ''ann'') \<in> set (Fields site_filter) \<and> typed site_parser ''users.login'' (VString ''ann'')"
proof -
  have "(''users.login'', VString ''ann'') \<in> set (Fields site_filter)" by code_simp
  then show ?thesis using parsed_values_are_typed [OF site_parsed] by blast
qed

theorem client_reads_are_limited_witness: "\<exists>n. limit_by (find_session 100 (Some site_filter) new_session) = Some n \<and> 0 < n \<and> n \<le> 100"
  using client_reads_are_limited [OF site_parsed, of 100 new_session] by simp


definition site_or :: Filter where
  "site_or = AddOrFields (VString ''ann'') [''email'', ''login''] (PushPresetFields [(''owner'', VString ''me'')] NewFilter)"

theorem or_fields_bypass_conditions_witness:
  "sql_selects int_below site_row (wheres (prepareFilter site_or new_session)) = Some True \<and> \<not> matches_plain int_below site_row site_or"
proof -
  have f: "Filter_OrFields site_or = [\<lparr>Or_Value = VString ''ann'', Or_Fields = [''email'', ''login'']\<rparr>]"
    "Filter_BetweenFields site_or = []" "wheres new_session = []" "PresetFields site_or = [[(''owner'', VString ''me'')]]"
    "known site_row (filter_columns site_or)" "known site_row (map (\<lambda>m. Split m ''.'') [''email'', ''login''])" by code_simp+
  have c: "Split ''owner'' ''.'' = [''owner'']" "Split ''login'' ''.'' = [''login'']" by code_simp+
  have "\<not> matches_plain int_below site_row site_or" unfolding matches_plain_def f(4) by (simp add: site_row_def c)
  then show ?thesis
    using or_fields_bypass_conditions [OF sql.gorm_where_axioms f(1) _ f(2,3,5,6), of int_below]
    by (simp add: or_condition_def site_row_def c)
qed

text \<open>
  An empty list of values leaves the name of the client unchecked; it becomes the column of a condition, which the code writes between quotes into the
  text of the statement.
\<close>

definition injected :: string where
  "injected = ''x'' @ [CHR 0x22] @ '' IS NULL OR 1=1 --''"

theorem empty_list_escapes_name_check:
  "\<not> allowed site_parser injected"
  "map_sum id (map_option FieldsIn) (Parse site_texts site_parser (Some (ToQuery site_texts (AddFieldIn injected [] NewFilter)))) =
     Inr (Some [(injected, [])])"
proof -
  show "\<not> allowed site_parser injected" unfolding allowed_def by code_simp
qed code_simp

text \<open>A query for inactive rows is read as one for active rows.\<close>

theorem false_is_read_as_true:
  "map_sum id (map_option Fields) (Parse site_texts site_parser (Some (ToQuery site_texts (AddField ''active'' (VBool False) NewFilter)))) =
     Inr (Some [(''users.active'', VBool True)])"
  by code_simp

text \<open>
  A qualified name, which is what the parser gives, is written between one pair of quotes: the database looks for a column whose name has a point in it.
  The order of the rows is the only place that splits the name.
\<close>

theorem qualified_name_quoted_whole:
  "map condition_text (map snd (wheres (prepareFilter (AddInterval ''users.age'' (VInt 18) VNil NewFilter) new_session))) =
     [Some (quoted ''users.age'' @ '' >= ? '')]"
  "sql_selects int_below site_row (wheres (prepareFilter (AddInterval ''users.age'' (VInt 18) VNil NewFilter) new_session)) = None"
  "order_by (SetFilter (Some (SetSorting ''users.age'' [] NewFilter)) None [] new_session) = Some ([''users'', ''age''], ''ASC'')"
  by code_simp+

text \<open>
  The value of alternatives is read once for each field and keeps the type of the last one: a field of texts is compared with a truth value.
\<close>

theorem or_value_takes_last_type:
  "map_sum id (map_option Filter_OrFields) (Parse site_texts site_parser (Some (ToQuery site_texts (AddOrFields (VString ''true'') [''login'', ''active''] NewFilter)))) =
     Inr (Some [\<lparr>Or_Value = VBool True, Or_Fields = [''users.login'', ''users.active'']\<rparr>])"
  by code_simp

end
