(* ===== verification/Crud.thy ===== *)
theory Crud
  imports DbFilters
begin

section \<open>CRUD calls\<close>

text \<open>
  Models \<^verbatim>\<open>pkg/crud/crud.go\<close>, the updates of \<^verbatim>\<open>pkg/db/db.go\<close> and the choice of the database in \<^verbatim>\<open>pkg/op_context/op_context.go\<close>. The handlers of a database are the
  record \<open>DBHandlers\<close>, for one model \<open>'o\<close> over the state \<open>'t\<close> of a database; a program has several databases, so the state of a call maps handles to states. The
  clock is an argument. The locale \<open>db_table\<close> states what the code relies on from the handlers, \<open>crud_table\<close> what clients of the CRUD interface rely on; the second is
  proved of \<open>DbCRUD\<close> over any handlers with the first.
\<close>

subsection \<open>Databases of a request\<close>

record 'h db_context =
  DbTransaction :: "'h option"
  OverrideDb :: "'h option"
  MainDB :: 'h
  Db :: 'h

definition DB :: "('h, 'm) db_context_scheme \<Rightarrow> bool list \<Rightarrow> 'h" where
  "DB c forceMainDb =
     (case DbTransaction c of
        Some tx \<Rightarrow> tx
      | None \<Rightarrow> (case OverrideDb c of Some d \<Rightarrow> d | None \<Rightarrow> if OptionalArg False forceMainDb then MainDB c else Db c))"

text \<open>A call that finds nothing gives \<open>Inr None\<close>.\<close>

record ('t, 'o) DBHandlers =
  h_FindByField :: "string \<Rightarrow> db_value \<Rightarrow> 't \<Rightarrow> string + 'o option"
  h_FindByFields :: "db_Fields \<Rightarrow> 't \<Rightarrow> string + 'o option"
  h_FindWithFilter :: "Filter option \<Rightarrow> 't \<Rightarrow> string + int \<times> 'o list"
  h_FindForUpdate :: "db_Fields \<Rightarrow> 't \<Rightarrow> (string + 'o option) \<times> 't"
  h_FindForShare :: "db_Fields \<Rightarrow> 't \<Rightarrow> (string + 'o option) \<times> 't"
  h_Exists :: "Filter option \<Rightarrow> 't \<Rightarrow> string + bool"
  h_Create :: "'o \<Rightarrow> 't \<Rightarrow> string option \<times> 't"
  h_CreateDup :: "'o \<Rightarrow> bool list \<Rightarrow> 't \<Rightarrow> (bool \<times> string option) \<times> 't"
  h_Delete :: "'o \<Rightarrow> 't \<Rightarrow> string option \<times> 't"
  h_DeleteByFields :: "db_Fields \<Rightarrow> 't \<Rightarrow> string option \<times> 't"
  h_Update :: "'o \<Rightarrow> db_Fields option \<Rightarrow> db_Fields \<Rightarrow> 't \<Rightarrow> string option \<times> 't"
  h_UpdateAll :: "'o \<Rightarrow> db_Fields \<Rightarrow> 't \<Rightarrow> string option \<times> 't"
  h_UpdateWithFilter :: "'o \<Rightarrow> Filter option \<Rightarrow> db_Fields \<Rightarrow> 't \<Rightarrow> string option \<times> 't"
  h_UpdateSections :: "'o \<Rightarrow> db_Fields option \<Rightarrow> string list \<Rightarrow> 'o \<Rightarrow> 't \<Rightarrow> string option \<times> 't"
  h_UpdateSectionsAll :: "'o \<Rightarrow> string list \<Rightarrow> 'o \<Rightarrow> 't \<Rightarrow> string option \<times> 't"
  h_UpdateSectionsWithFilter :: "'o \<Rightarrow> Filter option \<Rightarrow> string list \<Rightarrow> 'o \<Rightarrow> 't \<Rightarrow> string option \<times> 't"
  h_UpdateSection :: "'o \<Rightarrow> db_Fields option \<Rightarrow> string \<Rightarrow> 'o \<Rightarrow> 't \<Rightarrow> string option \<times> 't"
  h_UpdateSectionAll :: "'o \<Rightarrow> string \<Rightarrow> 'o \<Rightarrow> 't \<Rightarrow> string option \<times> 't"
  h_UpdateSectionWithFilter :: "'o \<Rightarrow> Filter option \<Rightarrow> string \<Rightarrow> 'o \<Rightarrow> 't \<Rightarrow> string option \<times> 't"

text \<open>What is asked of an object.\<close>

record 'o object_ops =
  GetID :: "'o \<Rightarrow> string"
  GetMonth :: "'o \<Rightarrow> db_value"
  SetUpdatedAt :: "int \<Rightarrow> 'o \<Rightarrow> 'o"

subsection \<open>Updates stamp the time\<close>

definition stamped :: "int \<Rightarrow> db_Fields \<Rightarrow> db_Fields" where
  "stamped now m = AList.update ''updated_at'' (VTime now) m"

definition db_Update :: "int \<Rightarrow> ('t, 'o) DBHandlers \<Rightarrow> 'o \<Rightarrow> db_Fields \<Rightarrow> 't \<Rightarrow> string option \<times> 't" where
  "db_Update now d obj m = h_Update d obj None (stamped now m)"

definition db_UpdateMulti :: "int \<Rightarrow> ('t, 'o) DBHandlers \<Rightarrow> 'o \<Rightarrow> db_Fields \<Rightarrow> db_Fields \<Rightarrow> 't \<Rightarrow> string option \<times> 't" where
  "db_UpdateMulti now d obj filt m = h_Update d obj (Some filt) (stamped now m)"

definition db_UpdateAll :: "int \<Rightarrow> ('t, 'o) DBHandlers \<Rightarrow> 'o \<Rightarrow> db_Fields \<Rightarrow> 't \<Rightarrow> string option \<times> 't" where
  "db_UpdateAll now d obj m = h_UpdateAll d obj (stamped now m)"

definition db_UpdateWithFilter :: "int \<Rightarrow> ('t, 'o) DBHandlers \<Rightarrow> 'o \<Rightarrow> Filter option \<Rightarrow> db_Fields \<Rightarrow> 't \<Rightarrow> string option \<times> 't" where
  "db_UpdateWithFilter now d obj filt m = h_UpdateWithFilter d obj filt (stamped now m)"

text \<open>A section is given as an object, which the call itself stamps; it is part of the result.\<close>

definition with_section :: "int \<Rightarrow> 'o object_ops \<Rightarrow> 'o \<Rightarrow> ('o \<Rightarrow> 't \<Rightarrow> string option \<times> 't) \<Rightarrow> 't \<Rightarrow> (string option \<times> 'o) \<times> 't" where
  "with_section now ops flds f t = (let x = SetUpdatedAt ops now flds in case f x t of (e, t1) \<Rightarrow> ((e, x), t1))"

definition db_UpdateSection :: "int \<Rightarrow> 'o object_ops \<Rightarrow> ('t, 'o) DBHandlers \<Rightarrow> 'o \<Rightarrow> string \<Rightarrow> 'o \<Rightarrow> 't \<Rightarrow> (string option \<times> 'o) \<times> 't" where
  "db_UpdateSection now ops d obj sec flds = with_section now ops flds (h_UpdateSection d obj None sec)"

definition db_UpdateSectionMulti ::
    "int \<Rightarrow> 'o object_ops \<Rightarrow> ('t, 'o) DBHandlers \<Rightarrow> 'o \<Rightarrow> db_Fields \<Rightarrow> string \<Rightarrow> 'o \<Rightarrow> 't \<Rightarrow> (string option \<times> 'o) \<times> 't" where
  "db_UpdateSectionMulti now ops d obj filt sec flds = with_section now ops flds (h_UpdateSection d obj (Some filt) sec)"

definition db_UpdateSectionAll :: "int \<Rightarrow> 'o object_ops \<Rightarrow> ('t, 'o) DBHandlers \<Rightarrow> 'o \<Rightarrow> string \<Rightarrow> 'o \<Rightarrow> 't \<Rightarrow> (string option \<times> 'o) \<times> 't" where
  "db_UpdateSectionAll now ops d obj sec flds = with_section now ops flds (h_UpdateSectionAll d obj sec)"

definition db_UpdateSectionWithFilter ::
    "int \<Rightarrow> 'o object_ops \<Rightarrow> ('t, 'o) DBHandlers \<Rightarrow> 'o \<Rightarrow> Filter option \<Rightarrow> string \<Rightarrow> 'o \<Rightarrow> 't \<Rightarrow> (string option \<times> 'o) \<times> 't" where
  "db_UpdateSectionWithFilter now ops d obj filt sec flds = with_section now ops flds (h_UpdateSectionWithFilter d obj filt sec)"

definition db_UpdateSections :: "int \<Rightarrow> 'o object_ops \<Rightarrow> ('t, 'o) DBHandlers \<Rightarrow> 'o \<Rightarrow> string list \<Rightarrow> 'o \<Rightarrow> 't \<Rightarrow> (string option \<times> 'o) \<times> 't" where
  "db_UpdateSections now ops d obj secs flds = with_section now ops flds (h_UpdateSections d obj None secs)"

definition db_UpdateSectionsMulti ::
    "int \<Rightarrow> 'o object_ops \<Rightarrow> ('t, 'o) DBHandlers \<Rightarrow> 'o \<Rightarrow> db_Fields \<Rightarrow> string list \<Rightarrow> 'o \<Rightarrow> 't \<Rightarrow> (string option \<times> 'o) \<times> 't" where
  "db_UpdateSectionsMulti now ops d obj filt secs flds = with_section now ops flds (h_UpdateSections d obj (Some filt) secs)"

definition db_UpdateSectionsAll :: "int \<Rightarrow> 'o object_ops \<Rightarrow> ('t, 'o) DBHandlers \<Rightarrow> 'o \<Rightarrow> string list \<Rightarrow> 'o \<Rightarrow> 't \<Rightarrow> (string option \<times> 'o) \<times> 't" where
  "db_UpdateSectionsAll now ops d obj secs flds = with_section now ops flds (h_UpdateSectionsAll d obj secs)"

definition db_UpdateSectionsWithFilter ::
    "int \<Rightarrow> 'o object_ops \<Rightarrow> ('t, 'o) DBHandlers \<Rightarrow> 'o \<Rightarrow> Filter option \<Rightarrow> string list \<Rightarrow> 'o \<Rightarrow> 't \<Rightarrow> (string option \<times> 'o) \<times> 't" where
  "db_UpdateSectionsWithFilter now ops d obj filt secs flds = with_section now ops flds (h_UpdateSectionsWithFilter d obj filt secs)"

subsection \<open>All databases of a process\<close>

text \<open>The registry of open databases by identifier; a database unregisters itself as it closes, so closing all works on a copy.\<close>

definition Databases_Register :: "string \<Rightarrow> 'd \<Rightarrow> (string, 'd) gomap \<Rightarrow> (string, 'd) gomap" where
  "Databases_Register i d a = AList.update i d a"

definition Databases_Unregister :: "string \<Rightarrow> (string, 'd) gomap \<Rightarrow> (string, 'd) gomap" where
  "Databases_Unregister i a = AList.delete i a"

definition CloseAll :: "('d \<Rightarrow> (string, 'd) gomap \<times> 'e \<Rightarrow> (string, 'd) gomap \<times> 'e) \<Rightarrow> (string, 'd) gomap \<times> 'e \<Rightarrow> (string, 'd) gomap \<times> 'e" where
  "CloseAll closeDb s = fold closeDb (map snd (fst s)) s"

lemma close_all_empties:
  assumes "\<And>i d s. (i, d) \<in> set dbs \<Longrightarrow> fst (closeDb d s) = Databases_Unregister i (fst s)"
  shows "fst (CloseAll closeDb (dbs, w)) = []"
proof -
  have "fst (fold closeDb (map snd ds) s) = filter (\<lambda>x. fst x \<notin> fst ` set ds) (fst s)" if "set ds \<subseteq> set dbs" for ds s
    using that
  proof (induction ds arbitrary: s)
    case (Cons x ds)
    then show ?case using assms [of "fst x" "snd x" s]
      by (auto simp: Databases_Unregister_def AList.delete_eq intro!: filter_cong)
  qed simp
  from this [of dbs "(dbs, w)"] show ?thesis by (auto simp: CloseAll_def filter_empty_conv)
qed

subsection \<open>The CRUD of a database\<close>

record DbCRUD =
  ForceMainDb :: bool
  DryRun :: bool

definition NewDbCrud :: DbCRUD where
  "NewDbCrud = \<lparr>ForceMainDb = False, DryRun = False\<rparr>"

text \<open>A holder takes the CRUD it is given, or makes one.\<close>

definition Construct :: "DbCRUD option list \<Rightarrow> DbCRUD option" where
  "Construct cruds = (case cruds of [] \<Rightarrow> Some NewDbCrud | c # _ \<Rightarrow> c)"

text \<open>The setters of a holder of a CRUD; \<open>None\<close> is another implementation, which they leave alone.\<close>

definition SetForceMainDb :: "bool \<Rightarrow> DbCRUD option \<Rightarrow> DbCRUD option" where
  "SetForceMainDb enable w = map_option (\<lambda>c. c\<lparr>ForceMainDb := enable\<rparr>) w"

definition IsForceMainDb :: "DbCRUD option \<Rightarrow> bool" where
  "IsForceMainDb w = (case w of None \<Rightarrow> False | Some c \<Rightarrow> ForceMainDb c)"

definition SetDryRun :: "bool \<Rightarrow> DbCRUD option \<Rightarrow> DbCRUD option" where
  "SetDryRun enable w = map_option (\<lambda>c. c\<lparr>DryRun := enable\<rparr>) w"

definition IsDryRun :: "DbCRUD option \<Rightarrow> bool" where
  "IsDryRun w = (case w of None \<Rightarrow> False | Some c \<Rightarrow> DryRun c)"

text \<open>A call on the database that the context and the CRUD choose, and a read that leaves it as it is.\<close>

definition on_db :: "DbCRUD \<Rightarrow> ('h, 'm) db_context_scheme \<Rightarrow> ('t \<Rightarrow> 'r \<times> 't) \<Rightarrow> ('h \<Rightarrow> 't) \<Rightarrow> 'r \<times> ('h \<Rightarrow> 't)" where
  "on_db d c f s = (let h = DB c [ForceMainDb d] in case f (s h) of (r, t) \<Rightarrow> (r, s(h := t)))"

definition read_db :: "DbCRUD \<Rightarrow> ('h, 'm) db_context_scheme \<Rightarrow> ('t \<Rightarrow> 'r) \<Rightarrow> ('h \<Rightarrow> 't) \<Rightarrow> 'r" where
  "read_db d c f s = f (s (DB c [ForceMainDb d]))"

definition DbCRUD_Create :: "DbCRUD \<Rightarrow> ('h, 'm) db_context_scheme \<Rightarrow> ('t, 'o) DBHandlers \<Rightarrow> 'o \<Rightarrow> ('h \<Rightarrow> 't) \<Rightarrow> string option \<times> ('h \<Rightarrow> 't)" where
  "DbCRUD_Create d c h obj s = (if DryRun d then (None, s) else on_db d c (h_Create h obj) s)"

definition DbCRUD_CreateDup ::
    "DbCRUD \<Rightarrow> ('h, 'm) db_context_scheme \<Rightarrow> ('t, 'o) DBHandlers \<Rightarrow> 'o \<Rightarrow> bool list \<Rightarrow> ('h \<Rightarrow> 't) \<Rightarrow> (bool \<times> string option) \<times> ('h \<Rightarrow> 't)" where
  "DbCRUD_CreateDup d c h obj ignoreConflict s =
     (if DryRun d then ((False, None), s)
      else case on_db d c (h_CreateDup h obj ignoreConflict) s of
        ((duplicate, Some e), s1) \<Rightarrow> ((duplicate, Some e), s1)
      | ((_, None), s1) \<Rightarrow> ((False, None), s1))"

definition DbCRUD_Read :: "DbCRUD \<Rightarrow> ('h, 'm) db_context_scheme \<Rightarrow> ('t, 'o) DBHandlers \<Rightarrow> db_Fields \<Rightarrow> ('h \<Rightarrow> 't) \<Rightarrow> string + 'o option" where
  "DbCRUD_Read d c h m s = read_db d c (h_FindByFields h m) s"

definition DbCRUD_ReadForUpdate ::
    "DbCRUD \<Rightarrow> ('h, 'm) db_context_scheme \<Rightarrow> ('t, 'o) DBHandlers \<Rightarrow> db_Fields \<Rightarrow> ('h \<Rightarrow> 't) \<Rightarrow> (string + 'o option) \<times> ('h \<Rightarrow> 't)" where
  "DbCRUD_ReadForUpdate d c h m s = on_db d c (h_FindForUpdate h m) s"

definition DbCRUD_ReadForShare ::
    "DbCRUD \<Rightarrow> ('h, 'm) db_context_scheme \<Rightarrow> ('t, 'o) DBHandlers \<Rightarrow> db_Fields \<Rightarrow> ('h \<Rightarrow> 't) \<Rightarrow> (string + 'o option) \<times> ('h \<Rightarrow> 't)" where
  "DbCRUD_ReadForShare d c h m s = on_db d c (h_FindForShare h m) s"

definition DbCRUD_ReadByField :: "DbCRUD \<Rightarrow> ('h, 'm) db_context_scheme \<Rightarrow> ('t, 'o) DBHandlers \<Rightarrow> string \<Rightarrow> db_value \<Rightarrow> ('h \<Rightarrow> 't) \<Rightarrow> string + 'o option" where
  "DbCRUD_ReadByField d c h name v s = read_db d c (h_FindByField h name v) s"

definition DbCRUD_Update ::
    "DbCRUD \<Rightarrow> ('h, 'm) db_context_scheme \<Rightarrow> int \<Rightarrow> ('t, 'o) DBHandlers \<Rightarrow> 'o \<Rightarrow> db_Fields \<Rightarrow> ('h \<Rightarrow> 't) \<Rightarrow> string option \<times> ('h \<Rightarrow> 't)" where
  "DbCRUD_Update d c now h obj m s = (if DryRun d then (None, s) else on_db d c (db_Update now h obj m) s)"

definition DbCRUD_UpdateSection ::
    "DbCRUD \<Rightarrow> ('h, 'm) db_context_scheme \<Rightarrow> int \<Rightarrow> 'o object_ops \<Rightarrow> ('t, 'o) DBHandlers \<Rightarrow> 'o \<Rightarrow> string \<Rightarrow> 'o \<Rightarrow> ('h \<Rightarrow> 't) \<Rightarrow> (string option \<times> 'o) \<times> ('h \<Rightarrow> 't)" where
  "DbCRUD_UpdateSection d c now ops h obj sec flds s =
     (if DryRun d then ((None, flds), s) else on_db d c (db_UpdateSection now ops h obj sec flds) s)"

definition DbCRUD_UpdateSections ::
    "DbCRUD \<Rightarrow> ('h, 'm) db_context_scheme \<Rightarrow> int \<Rightarrow> 'o object_ops \<Rightarrow> ('t, 'o) DBHandlers \<Rightarrow> 'o \<Rightarrow> string list \<Rightarrow> 'o \<Rightarrow> ('h \<Rightarrow> 't) \<Rightarrow> (string option \<times> 'o) \<times> ('h \<Rightarrow> 't)" where
  "DbCRUD_UpdateSections d c now ops h obj secs flds s =
     (if DryRun d then ((None, flds), s) else on_db d c (db_UpdateSections now ops h obj secs flds) s)"

definition month_filter :: "'o object_ops \<Rightarrow> 'o \<Rightarrow> db_Fields" where
  "month_filter ops obj = [(''month'', GetMonth ops obj), (''id'', VString (GetID ops obj))]"

definition DbCRUD_UpdateMonthObject ::
    "DbCRUD \<Rightarrow> ('h, 'm) db_context_scheme \<Rightarrow> int \<Rightarrow> 'o object_ops \<Rightarrow> ('t, 'o) DBHandlers \<Rightarrow> 'o \<Rightarrow> db_Fields \<Rightarrow> ('h \<Rightarrow> 't) \<Rightarrow> string option \<times> ('h \<Rightarrow> 't)" where
  "DbCRUD_UpdateMonthObject d c now ops h obj m s =
     (if DryRun d then (None, s) else on_db d c (db_UpdateMulti now h obj (month_filter ops obj) m) s)"

definition DbCRUD_UpdateMonthObjectSection ::
    "DbCRUD \<Rightarrow> ('h, 'm) db_context_scheme \<Rightarrow> int \<Rightarrow> 'o object_ops \<Rightarrow> ('t, 'o) DBHandlers \<Rightarrow> 'o \<Rightarrow> string \<Rightarrow> 'o \<Rightarrow> ('h \<Rightarrow> 't) \<Rightarrow> (string option \<times> 'o) \<times> ('h \<Rightarrow> 't)" where
  "DbCRUD_UpdateMonthObjectSection d c now ops h obj sec flds s =
     (if DryRun d then ((None, flds), s) else on_db d c (db_UpdateSectionMulti now ops h obj (month_filter ops obj) sec flds) s)"

definition DbCRUD_UpdateMonthObjectSections ::
    "DbCRUD \<Rightarrow> ('h, 'm) db_context_scheme \<Rightarrow> int \<Rightarrow> 'o object_ops \<Rightarrow> ('t, 'o) DBHandlers \<Rightarrow> 'o \<Rightarrow> string list \<Rightarrow> 'o \<Rightarrow> ('h \<Rightarrow> 't) \<Rightarrow> (string option \<times> 'o) \<times> ('h \<Rightarrow> 't)" where
  "DbCRUD_UpdateMonthObjectSections d c now ops h obj secs flds s =
     (if DryRun d then ((None, flds), s) else on_db d c (db_UpdateSectionsMulti now ops h obj (month_filter ops obj) secs flds) s)"

definition DbCRUD_UpdateMulti ::
    "DbCRUD \<Rightarrow> ('h, 'm) db_context_scheme \<Rightarrow> int \<Rightarrow> ('t, 'o) DBHandlers \<Rightarrow> 'o \<Rightarrow> db_Fields option \<Rightarrow> db_Fields \<Rightarrow> ('h \<Rightarrow> 't) \<Rightarrow> string option \<times> ('h \<Rightarrow> 't)" where
  "DbCRUD_UpdateMulti d c now h model filt m s =
     (if DryRun d then (None, s)
      else on_db d c (case filt of None \<Rightarrow> db_UpdateAll now h model m | Some f \<Rightarrow> db_UpdateMulti now h model f m) s)"

definition DbCRUD_UpdateSectionMulti ::
    "DbCRUD \<Rightarrow> ('h, 'm) db_context_scheme \<Rightarrow> int \<Rightarrow> 'o object_ops \<Rightarrow> ('t, 'o) DBHandlers \<Rightarrow> 'o \<Rightarrow> db_Fields option \<Rightarrow> string \<Rightarrow> 'o \<Rightarrow> ('h \<Rightarrow> 't) \<Rightarrow>
     (string option \<times> 'o) \<times> ('h \<Rightarrow> 't)" where
  "DbCRUD_UpdateSectionMulti d c now ops h model filt sec flds s =
     (if DryRun d then ((None, flds), s)
      else on_db d c (case filt of None \<Rightarrow> db_UpdateSectionAll now ops h model sec flds
                      | Some f \<Rightarrow> db_UpdateSectionMulti now ops h model f sec flds) s)"

definition DbCRUD_UpdateSectionsMulti ::
    "DbCRUD \<Rightarrow> ('h, 'm) db_context_scheme \<Rightarrow> int \<Rightarrow> 'o object_ops \<Rightarrow> ('t, 'o) DBHandlers \<Rightarrow> 'o \<Rightarrow> db_Fields option \<Rightarrow> string list \<Rightarrow> 'o \<Rightarrow> ('h \<Rightarrow> 't) \<Rightarrow>
     (string option \<times> 'o) \<times> ('h \<Rightarrow> 't)" where
  "DbCRUD_UpdateSectionsMulti d c now ops h model filt secs flds s =
     (if DryRun d then ((None, flds), s)
      else on_db d c (case filt of None \<Rightarrow> db_UpdateSectionsAll now ops h model secs flds
                      | Some f \<Rightarrow> db_UpdateSectionsMulti now ops h model f secs flds) s)"

definition DbCRUD_UpdateWithFilter ::
    "DbCRUD \<Rightarrow> ('h, 'm) db_context_scheme \<Rightarrow> int \<Rightarrow> ('t, 'o) DBHandlers \<Rightarrow> 'o \<Rightarrow> Filter option \<Rightarrow> db_Fields \<Rightarrow> ('h \<Rightarrow> 't) \<Rightarrow> string option \<times> ('h \<Rightarrow> 't)" where
  "DbCRUD_UpdateWithFilter d c now h model filt m s =
     (if DryRun d then (None, s) else on_db d c (db_UpdateWithFilter now h model filt m) s)"

definition DbCRUD_UpdateSectionWithFilter ::
    "DbCRUD \<Rightarrow> ('h, 'm) db_context_scheme \<Rightarrow> int \<Rightarrow> 'o object_ops \<Rightarrow> ('t, 'o) DBHandlers \<Rightarrow> 'o \<Rightarrow> Filter option \<Rightarrow> string \<Rightarrow> 'o \<Rightarrow> ('h \<Rightarrow> 't) \<Rightarrow>
     (string option \<times> 'o) \<times> ('h \<Rightarrow> 't)" where
  "DbCRUD_UpdateSectionWithFilter d c now ops h model filt sec flds s =
     (if DryRun d then ((None, flds), s) else on_db d c (db_UpdateSectionWithFilter now ops h model filt sec flds) s)"

definition DbCRUD_UpdateSectionsWithFilter ::
    "DbCRUD \<Rightarrow> ('h, 'm) db_context_scheme \<Rightarrow> int \<Rightarrow> 'o object_ops \<Rightarrow> ('t, 'o) DBHandlers \<Rightarrow> 'o \<Rightarrow> Filter option \<Rightarrow> string list \<Rightarrow> 'o \<Rightarrow> ('h \<Rightarrow> 't) \<Rightarrow>
     (string option \<times> 'o) \<times> ('h \<Rightarrow> 't)" where
  "DbCRUD_UpdateSectionsWithFilter d c now ops h model filt secs flds s =
     (if DryRun d then ((None, flds), s) else on_db d c (db_UpdateSectionsWithFilter now ops h model filt secs flds) s)"

definition DbCRUD_Delete :: "DbCRUD \<Rightarrow> ('h, 'm) db_context_scheme \<Rightarrow> ('t, 'o) DBHandlers \<Rightarrow> 'o \<Rightarrow> ('h \<Rightarrow> 't) \<Rightarrow> string option \<times> ('h \<Rightarrow> 't)" where
  "DbCRUD_Delete d c h obj s = (if DryRun d then (None, s) else on_db d c (h_Delete h obj) s)"

definition DbCRUD_DeleteByFields ::
    "DbCRUD \<Rightarrow> ('h, 'm) db_context_scheme \<Rightarrow> ('t, 'o) DBHandlers \<Rightarrow> db_Fields \<Rightarrow> ('h \<Rightarrow> 't) \<Rightarrow> string option \<times> ('h \<Rightarrow> 't)" where
  "DbCRUD_DeleteByFields d c h m s = (if DryRun d then (None, s) else on_db d c (h_DeleteByFields h m) s)"

definition DbCRUD_List :: "DbCRUD \<Rightarrow> ('h, 'm) db_context_scheme \<Rightarrow> ('t, 'o) DBHandlers \<Rightarrow> Filter option \<Rightarrow> ('h \<Rightarrow> 't) \<Rightarrow> string + int \<times> 'o list" where
  "DbCRUD_List d c h filt s = read_db d c (h_FindWithFilter h filt) s"

definition DbCRUD_Exists :: "DbCRUD \<Rightarrow> ('h, 'm) db_context_scheme \<Rightarrow> ('t, 'o) DBHandlers \<Rightarrow> Filter option \<Rightarrow> ('h \<Rightarrow> 't) \<Rightarrow> string + bool" where
  "DbCRUD_Exists d c h filt s = read_db d c (h_Exists h filt) s"

definition DbCRUD_Join :: "DbCRUD \<Rightarrow> ('h, 'm) db_context_scheme \<Rightarrow> (Filter option \<Rightarrow> 't \<Rightarrow> string + int \<times> 'j list) \<Rightarrow> Filter option \<Rightarrow> ('h \<Rightarrow> 't) \<Rightarrow> string + int \<times> 'j list" where
  "DbCRUD_Join d c join filt s = read_db d c (join filt) s"

subsection \<open>The interface and its helpers\<close>

text \<open>What controllers call of the interface \<open>CRUD\<close>, over a state \<open>'s\<close>.\<close>

record ('s, 'o) CRUD =
  crud_Create :: "'o \<Rightarrow> 's \<Rightarrow> string option \<times> 's"
  crud_Read :: "db_Fields \<Rightarrow> 's \<Rightarrow> string + 'o option"
  crud_ReadByField :: "string \<Rightarrow> db_value \<Rightarrow> 's \<Rightarrow> string + 'o option"
  crud_Update :: "'o \<Rightarrow> db_Fields \<Rightarrow> 's \<Rightarrow> string option \<times> 's"
  crud_Delete :: "'o \<Rightarrow> 's \<Rightarrow> string option \<times> 's"
  crud_DeleteByFields :: "db_Fields \<Rightarrow> 's \<Rightarrow> string option \<times> 's"
  crud_List :: "Filter option \<Rightarrow> 's \<Rightarrow> string + int \<times> 'o list"
  crud_Exists :: "Filter option \<Rightarrow> 's \<Rightarrow> string + bool"

definition db_crud :: "DbCRUD \<Rightarrow> ('h, 'm) db_context_scheme \<Rightarrow> int \<Rightarrow> ('t, 'o) DBHandlers \<Rightarrow> ('h \<Rightarrow> 't, 'o) CRUD" where
  "db_crud d c now h = \<lparr>crud_Create = DbCRUD_Create d c h, crud_Read = DbCRUD_Read d c h, crud_ReadByField = DbCRUD_ReadByField d c h,
     crud_Update = DbCRUD_Update d c now h, crud_Delete = DbCRUD_Delete d c h, crud_DeleteByFields = DbCRUD_DeleteByFields d c h,
     crud_List = DbCRUD_List d c h, crud_Exists = DbCRUD_Exists d c h\<rparr>"

definition List :: "('s, 'o) CRUD \<Rightarrow> Filter option \<Rightarrow> 's \<Rightarrow> string + int \<times> 'o list" where
  "List crud filt s = (case crud_List crud filt s of Inl e \<Rightarrow> Inl e | Inr r \<Rightarrow> Inr r)"

definition Find :: "('s, 'o) CRUD \<Rightarrow> db_Fields \<Rightarrow> 's \<Rightarrow> string + 'o option" where
  "Find crud m s = (case crud_Read crud m s of Inl e \<Rightarrow> Inl e | Inr None \<Rightarrow> Inr None | Inr (Some obj) \<Rightarrow> Inr (Some obj))"

definition FindIdAndTopic :: "('s, 'o) CRUD \<Rightarrow> string \<Rightarrow> string \<Rightarrow> 's \<Rightarrow> string + 'o option" where
  "FindIdAndTopic crud i topic s = Find crud [(''id'', VString i), (''topic'', VString topic)] s"

definition FindByField :: "('s, 'o) CRUD \<Rightarrow> string \<Rightarrow> db_value \<Rightarrow> 's \<Rightarrow> string + 'o option" where
  "FindByField crud name v s =
     (case crud_ReadByField crud name v s of Inl e \<Rightarrow> Inl e | Inr None \<Rightarrow> Inr None | Inr (Some obj) \<Rightarrow> Inr (Some obj))"

definition Create :: "('s, 'o) CRUD \<Rightarrow> 'o \<Rightarrow> 's \<Rightarrow> string option \<times> 's" where
  "Create crud obj s = crud_Create crud obj s"

definition Update :: "('s, 'o) CRUD \<Rightarrow> 'o \<Rightarrow> db_Fields \<Rightarrow> 's \<Rightarrow> string option \<times> 's" where
  "Update crud obj m s = crud_Update crud obj m s"

definition FindUpdate :: "('s, 'o) CRUD \<Rightarrow> string \<Rightarrow> db_value \<Rightarrow> db_Fields \<Rightarrow> 's \<Rightarrow> (string + 'o option) \<times> 's" where
  "FindUpdate crud name v m s =
     (case FindByField crud name v s of
        Inl e \<Rightarrow> (Inl e, s)
      | Inr None \<Rightarrow> (Inr None, s)
      | Inr (Some obj) \<Rightarrow>
          (case Update crud obj m s of (Some e, s1) \<Rightarrow> (Inl e, s1) | (None, s1) \<Rightarrow> (Inr (Some obj), s1)))"

definition Delete :: "('s, 'o) CRUD \<Rightarrow> string \<Rightarrow> db_value \<Rightarrow> 's \<Rightarrow> string option \<times> 's" where
  "Delete crud name v s =
     (case FindByField crud name v s of
        Inl e \<Rightarrow> (Some e, s)
      | Inr None \<Rightarrow> (None, s)
      | Inr (Some obj) \<Rightarrow> crud_Delete crud obj s)"

definition DeleteByFields :: "('s, 'o) CRUD \<Rightarrow> db_Fields \<Rightarrow> 's \<Rightarrow> string option \<times> 's" where
  "DeleteByFields crud m s = crud_DeleteByFields crud m s"

definition Exists :: "('s, 'o) CRUD \<Rightarrow> Filter option \<Rightarrow> 's \<Rightarrow> string + bool" where
  "Exists crud filt s = crud_Exists crud filt s"

text \<open>\<open>FindOne\<close> indexes the objects when the count is not zero; a count without objects panics, which \<open>None\<close> stands for.\<close>

definition FindOne :: "('s, 'o) CRUD \<Rightarrow> Filter option \<Rightarrow> 's \<Rightarrow> (string + 'o option) option" where
  "FindOne crud filt s =
     (case crud_List crud filt s of
        Inl e \<Rightarrow> Some (Inl e)
      | Inr (n, objects) \<Rightarrow>
          if n = 0 then Some (Inr None) else (case objects of [] \<Rightarrow> None | obj # _ \<Rightarrow> Some (Inr (Some obj))))"

subsection \<open>Every write goes to one database\<close>

text \<open>The writes of a \<open>DbCRUD\<close>.\<close>

inductive crud_write :: "DbCRUD \<Rightarrow> ('h, 'm) db_context_scheme \<Rightarrow> ('t, 'o) DBHandlers \<Rightarrow> ('h \<Rightarrow> 't) \<Rightarrow> string option \<Rightarrow> ('h \<Rightarrow> 't) \<Rightarrow> bool" for d c h where
  create: "DbCRUD_Create d c h obj s = (e, s') \<Longrightarrow> crud_write d c h s e s'"
| create_dup: "DbCRUD_CreateDup d c h obj ic s = ((b, e), s') \<Longrightarrow> crud_write d c h s e s'"
| update: "DbCRUD_Update d c now h obj m s = (e, s') \<Longrightarrow> crud_write d c h s e s'"
| update_section: "DbCRUD_UpdateSection d c now ops h obj sec x s = ((e, y), s') \<Longrightarrow> crud_write d c h s e s'"
| update_sections: "DbCRUD_UpdateSections d c now ops h obj secs x s = ((e, y), s') \<Longrightarrow> crud_write d c h s e s'"
| update_month: "DbCRUD_UpdateMonthObject d c now ops h obj m s = (e, s') \<Longrightarrow> crud_write d c h s e s'"
| update_month_section: "DbCRUD_UpdateMonthObjectSection d c now ops h obj sec x s = ((e, y), s') \<Longrightarrow> crud_write d c h s e s'"
| update_month_sections: "DbCRUD_UpdateMonthObjectSections d c now ops h obj secs x s = ((e, y), s') \<Longrightarrow> crud_write d c h s e s'"
| update_multi: "DbCRUD_UpdateMulti d c now h obj fo m s = (e, s') \<Longrightarrow> crud_write d c h s e s'"
| update_section_multi: "DbCRUD_UpdateSectionMulti d c now ops h obj fo sec x s = ((e, y), s') \<Longrightarrow> crud_write d c h s e s'"
| update_sections_multi: "DbCRUD_UpdateSectionsMulti d c now ops h obj fo secs x s = ((e, y), s') \<Longrightarrow> crud_write d c h s e s'"
| update_filter: "DbCRUD_UpdateWithFilter d c now h obj fl m s = (e, s') \<Longrightarrow> crud_write d c h s e s'"
| update_section_filter: "DbCRUD_UpdateSectionWithFilter d c now ops h obj fl sec x s = ((e, y), s') \<Longrightarrow> crud_write d c h s e s'"
| update_sections_filter: "DbCRUD_UpdateSectionsWithFilter d c now ops h obj fl secs x s = ((e, y), s') \<Longrightarrow> crud_write d c h s e s'"
| delete: "DbCRUD_Delete d c h obj s = (e, s') \<Longrightarrow> crud_write d c h s e s'"
| delete_fields: "DbCRUD_DeleteByFields d c h m s = (e, s') \<Longrightarrow> crud_write d c h s e s'"

lemma on_db_frame: "on_db d c f s = (r, s') \<Longrightarrow> \<exists>t. s' = s(DB c [ForceMainDb d] := t)"
  by (auto simp: on_db_def Let_def split: prod.splits)

lemmas DbCRUD_writes = DbCRUD_Create_def DbCRUD_Update_def DbCRUD_UpdateSection_def DbCRUD_UpdateSections_def
  DbCRUD_UpdateMonthObject_def DbCRUD_UpdateMonthObjectSection_def DbCRUD_UpdateMonthObjectSections_def DbCRUD_UpdateMulti_def
  DbCRUD_UpdateSectionMulti_def DbCRUD_UpdateSectionsMulti_def DbCRUD_UpdateWithFilter_def DbCRUD_UpdateSectionWithFilter_def
  DbCRUD_UpdateSectionsWithFilter_def DbCRUD_Delete_def DbCRUD_DeleteByFields_def

text \<open>C17: every write of a CRUD, create, update in any of its forms, or delete, changes at most the database that is chosen for it: the transaction of the request if
  there is one, else the overriding database, else the main or the own one. In a dry run it changes nothing and reports no error.\<close>

theorem crud_writes_one_database:
  assumes "crud_write d c h s e s'"
  shows "(DryRun d \<longrightarrow> s' = s \<and> e = None) \<and> (\<exists>t. s' = s(DB c [ForceMainDb d] := t)) \<and>
    (DbTransaction c = Some tx \<longrightarrow> (\<exists>t. s' = s(tx := t)))"
proof -
  have "(DryRun d \<longrightarrow> s' = s \<and> e = None) \<and> (\<exists>t. s' = s(DB c [ForceMainDb d] := t))"
  proof (cases "DryRun d")
    case True
    from assms True show ?thesis
      by (cases rule: crud_write.cases) (auto simp: DbCRUD_writes DbCRUD_CreateDup_def intro: exI [of _ "s (DB c [ForceMainDb d])"])
  next
    case False
    have dup: "\<exists>t. s' = s(DB c [ForceMainDb d] := t)" if "DbCRUD_CreateDup d c h obj ic s = ((b, e), s')" for obj ic b
      using that False by (auto simp: DbCRUD_CreateDup_def split: prod.splits option.splits dest!: on_db_frame)
    from assms False show ?thesis
      by (cases rule: crud_write.cases) (auto simp: DbCRUD_writes dest!: dup on_db_frame)
  qed
  moreover have "DB c [ForceMainDb d] = tx" if "DbTransaction c = Some tx" using that by (simp add: DB_def)
  ultimately show ?thesis by metis
qed

subsection \<open>Contracts\<close>

text \<open>
  A table: its rows, with the identifier and the columns of a row, and what an update does to it. Filters are used here with fields only.
\<close>

definition has_fields :: "('o \<Rightarrow> string \<Rightarrow> db_value option) \<Rightarrow> db_Fields \<Rightarrow> 'o \<Rightarrow> bool" where
  "has_fields col m x = list_all (\<lambda>(k, v). col x k = Some v) m"

definition fields_only :: "db_Fields \<Rightarrow> Filter" where
  "fields_only m = NewFilter\<lparr>Fields := m\<rparr>"

locale db_table =
  fixes h :: "('t, 'o) DBHandlers" and rows :: "'t \<Rightarrow> 'o set" and ident :: "'o \<Rightarrow> string" and col :: "'o \<Rightarrow> string \<Rightarrow> db_value option"
    and upd :: "db_Fields \<Rightarrow> 'o \<Rightarrow> 'o"
  assumes found_by_field: "h_FindByField h n v t = Inr (Some x) \<Longrightarrow> x \<in> rows t \<and> col x n = Some v"
    and none_by_field: "h_FindByField h n v t = Inr None \<Longrightarrow> x \<in> rows t \<Longrightarrow> col x n \<noteq> Some v"
    and found_by_fields: "h_FindByFields h m t = Inr (Some x) \<Longrightarrow> x \<in> rows t \<and> has_fields col m x"
    and none_by_fields: "h_FindByFields h m t = Inr None \<Longrightarrow> x \<in> rows t \<Longrightarrow> \<not> has_fields col m x"
    and exists_law: "h_Exists h (Some (fields_only m)) t = Inr b \<Longrightarrow> b \<longleftrightarrow> (\<exists>x \<in> rows t. has_fields col m x)"
    and create_law: "h_Create h x t = (None, t') \<Longrightarrow> ident x \<notin> ident ` rows t \<and> rows t' = insert x (rows t)"
    and create_fails: "h_Create h x t = (Some e, t') \<Longrightarrow> rows t' = rows t"
    and update_law: "h_Update h x None m t = (None, t') \<Longrightarrow> rows t' = (\<lambda>y. if ident y = ident x then upd m y else y) ` rows t"
    and update_fails: "h_Update h x None m t = (Some e, t') \<Longrightarrow> rows t' = rows t"
    and delete_law: "h_Delete h x t = (None, t') \<Longrightarrow> rows t' = {y \<in> rows t. ident y \<noteq> ident x}"
    and delete_fails: "h_Delete h x t = (Some e, t') \<Longrightarrow> rows t' = rows t"
    and delete_fields_law: "h_DeleteByFields h m t = (None, t') \<Longrightarrow> rows t' = {y \<in> rows t. \<not> has_fields col m y}"
    and delete_fields_fails: "h_DeleteByFields h m t = (Some e, t') \<Longrightarrow> rows t' = rows t"

locale crud_table =
  fixes crud :: "('s, 'o) CRUD" and rows :: "'s \<Rightarrow> 'o set" and ident :: "'o \<Rightarrow> string" and col :: "'o \<Rightarrow> string \<Rightarrow> db_value option"
    and upd :: "db_Fields \<Rightarrow> 'o \<Rightarrow> 'o"
  assumes read_field: "crud_ReadByField crud n v s = Inr (Some x) \<Longrightarrow> x \<in> rows s \<and> col x n = Some v"
    and read_field_none: "crud_ReadByField crud n v s = Inr None \<Longrightarrow> x \<in> rows s \<Longrightarrow> col x n \<noteq> Some v"
    and read: "crud_Read crud m s = Inr (Some x) \<Longrightarrow> x \<in> rows s \<and> has_fields col m x"
    and read_none: "crud_Read crud m s = Inr None \<Longrightarrow> x \<in> rows s \<Longrightarrow> \<not> has_fields col m x"
    and exists: "crud_Exists crud (Some (fields_only m)) s = Inr b \<Longrightarrow> b \<longleftrightarrow> (\<exists>x \<in> rows s. has_fields col m x)"
    and created: "crud_Create crud x s = (None, s') \<Longrightarrow> ident x \<notin> ident ` rows s \<and> rows s' = insert x (rows s)"
    and create_failed: "crud_Create crud x s = (Some e, s') \<Longrightarrow> rows s' = rows s"
    and updated: "crud_Update crud x m s = (None, s') \<Longrightarrow> rows s' = (\<lambda>y. if ident y = ident x then upd m y else y) ` rows s"
    and update_failed: "crud_Update crud x m s = (Some e, s') \<Longrightarrow> rows s' = rows s"
    and deleted: "crud_Delete crud x s = (None, s') \<Longrightarrow> rows s' = {y \<in> rows s. ident y \<noteq> ident x}"
    and delete_failed: "crud_Delete crud x s = (Some e, s') \<Longrightarrow> rows s' = rows s"
    and deleted_fields: "crud_DeleteByFields crud m s = (None, s') \<Longrightarrow> rows s' = {y \<in> rows s. \<not> has_fields col m y}"
    and delete_fields_failed: "crud_DeleteByFields crud m s = (Some e, s') \<Longrightarrow> rows s' = rows s"

text \<open>Outside a dry run the CRUD of a database has the contract on the database that is chosen.\<close>

lemma on_db_result:
  assumes "on_db d c f s = (r, s')" shows "f (s (DB c [ForceMainDb d])) = (r, s' (DB c [ForceMainDb d]))"
  using assms by (auto simp: on_db_def Let_def split: prod.splits)

sublocale db_table \<subseteq> over_db: crud_table "db_crud \<lparr>ForceMainDb = force, DryRun = False\<rparr> c now h" "\<lambda>s. rows (s (DB c [force]))" ident col
  "\<lambda>m. upd (stamped now m)"
  by unfold_locales
     (auto simp: db_crud_def DbCRUD_Read_def DbCRUD_ReadByField_def DbCRUD_Exists_def read_db_def DbCRUD_writes db_Update_def
       dest!: on_db_result
       dest: found_by_field none_by_field found_by_fields none_by_fields exists_law create_law create_fails update_law update_fails
         delete_law delete_fails delete_fields_law delete_fields_fails)

context db_table
begin

lemma axioms_over_db: "crud_table (db_crud \<lparr>ForceMainDb = force, DryRun = False\<rparr> c now h) (\<lambda>s. rows (s (DB c [force]))) ident col (\<lambda>m. upd (stamped now m))"
  by (rule over_db.crud_table_axioms)

end

lemma db_table_crud:
  "db_table h rows ident col upd \<Longrightarrow> crud_table (db_crud \<lparr>ForceMainDb = force, DryRun = False\<rparr> c now h) (\<lambda>s. rows (s (DB c [force]))) ident col (\<lambda>m. upd (stamped now m))"
  by (rule db_table.axioms_over_db)

subsection \<open>Clients of the contract\<close>

context crud_table
begin

lemma find_some: "FindByField crud n v s = Inr (Some x) \<Longrightarrow> x \<in> rows s \<and> col x n = Some v"
  by (auto simp: FindByField_def split: sum.splits option.splits dest: read_field)

lemma find_none: "FindByField crud n v s = Inr None \<Longrightarrow> x \<in> rows s \<Longrightarrow> col x n \<noteq> Some v"
  by (auto simp: FindByField_def split: sum.splits option.splits dest: read_field_none)

lemma create_rows: "crud_Create crud x s = (e, s') \<Longrightarrow> rows s' = rows s \<or> ident x \<notin> ident ` rows s \<and> rows s' = insert x (rows s)"
  using created create_failed by (cases e) blast+

lemma delete_fields_rows: "crud_DeleteByFields crud m s = (e, s') \<Longrightarrow> rows s' = rows s \<or> rows s' = {y \<in> rows s. \<not> has_fields col m y}"
  using deleted_fields delete_fields_failed by (cases e) blast+

lemma delete_one_rows: "crud_Delete crud x s = (e, s') \<Longrightarrow> rows s' = rows s \<or> rows s' = {y \<in> rows s. ident y \<noteq> ident x}"
  using deleted delete_failed by (cases e) blast+

lemma update_rows:
  assumes "FindUpdate crud n v m s = (r, s')"
  shows "rows s' = rows s \<and> (\<forall>x. r \<noteq> Inr (Some x)) \<or>
    (\<exists>x \<in> rows s. col x n = Some v \<and> r = Inr (Some x) \<and> rows s' = (\<lambda>y. if ident y = ident x then upd m y else y) ` rows s)"
proof (cases "FindByField crud n v s")
  case (Inl err)
  then show ?thesis using assms by (auto simp: FindUpdate_def)
next
  case (Inr q)
  show ?thesis
  proof (cases q)
    case None
    then show ?thesis using assms Inr by (auto simp: FindUpdate_def)
  next
    case (Some x)
    obtain e s1 where u: "crud_Update crud x m s = (e, s1)" by (cases "crud_Update crud x m s")
    have x: "x \<in> rows s" "col x n = Some v" using find_some [OF Inr [unfolded Some]] by auto
    from assms Inr Some u have "s' = s1" "r = (case e of None \<Rightarrow> Inr (Some x) | Some er \<Rightarrow> Inl er)"
      by (auto simp: FindUpdate_def Update_def split: option.splits)
    then show ?thesis using u x by (cases e) (auto dest: updated update_failed)
  qed
qed

lemma delete_rows:
  assumes "Delete crud n v s = (e, s')" shows "rows s' = rows s \<or> (\<exists>x \<in> rows s. col x n = Some v \<and> rows s' = {y \<in> rows s. ident y \<noteq> ident x})"
proof (cases "FindByField crud n v s")
  case (Inl err)
  then show ?thesis using assms by (simp add: Delete_def)
next
  case (Inr r)
  show ?thesis
  proof (cases r)
    case None
    then show ?thesis using assms Inr by (simp add: Delete_def)
  next
    case (Some x)
    then have "crud_Delete crud x s = (e, s')" using assms Inr by (simp add: Delete_def)
    then show ?thesis using find_some [OF Inr [unfolded Some]] by (auto dest!: delete_one_rows)
  qed
qed

end

subsection \<open>A table in memory\<close>

text \<open>A table as the list of its rows; an update of a row sets its fields, a filter is read for its fields.\<close>

definition table_handlers ::
    "('o \<Rightarrow> string) \<Rightarrow> ('o \<Rightarrow> string \<Rightarrow> db_value option) \<Rightarrow> (db_Fields \<Rightarrow> 'o \<Rightarrow> 'o) \<Rightarrow> ('o list, 'o) DBHandlers" where
  "table_handlers ident col upd =
     (let fs = (\<lambda>filt. case filt of None \<Rightarrow> [] | Some f \<Rightarrow> Fields f);
          set_where = (\<lambda>P m t. (None, map (\<lambda>y. if P y then upd m y else y) t));
          replace = (\<lambda>P y t. (None, map (\<lambda>z. if P z then y else z) t))
      in \<lparr>h_FindByField = \<lambda>n v t. Inr (find (\<lambda>x. col x n = Some v) t),
          h_FindByFields = \<lambda>m t. Inr (find (has_fields col m) t),
          h_FindWithFilter = \<lambda>filt t. Inr (0, filter (has_fields col (fs filt)) t),
          h_FindForUpdate = \<lambda>m t. (Inr (find (has_fields col m) t), t),
          h_FindForShare = \<lambda>m t. (Inr (find (has_fields col m) t), t),
          h_Exists = \<lambda>filt t. Inr (list_ex (has_fields col (fs filt)) t),
          h_Create = \<lambda>x t. if ident x \<in> ident ` set t then (Some ''duplicate key'', t) else (None, t @ [x]),
          h_CreateDup = \<lambda>x ic t. if ident x \<in> ident ` set t then ((True, if OptionalArg False ic then None else Some ''duplicate key''), t)
            else ((False, None), t @ [x]),
          h_Delete = \<lambda>x t. (None, filter (\<lambda>y. ident y \<noteq> ident x) t),
          h_DeleteByFields = \<lambda>m t. (None, filter (\<lambda>y. \<not> has_fields col m y) t),
          h_Update = \<lambda>x filt. set_where (case filt of None \<Rightarrow> \<lambda>y. ident y = ident x | Some m \<Rightarrow> has_fields col m),
          h_UpdateAll = \<lambda>x. set_where (\<lambda>y. True),
          h_UpdateWithFilter = \<lambda>x filt. set_where (has_fields col (fs filt)),
          h_UpdateSections = \<lambda>x filt secs y. replace (case filt of None \<Rightarrow> \<lambda>z. ident z = ident x | Some m \<Rightarrow> has_fields col m) y,
          h_UpdateSectionsAll = \<lambda>x secs y. replace (\<lambda>z. True) y,
          h_UpdateSectionsWithFilter = \<lambda>x filt secs y. replace (has_fields col (fs filt)) y,
          h_UpdateSection = \<lambda>x filt sec y. replace (case filt of None \<Rightarrow> \<lambda>z. ident z = ident x | Some m \<Rightarrow> has_fields col m) y,
          h_UpdateSectionAll = \<lambda>x sec y. replace (\<lambda>z. True) y,
          h_UpdateSectionWithFilter = \<lambda>x filt sec y. replace (has_fields col (fs filt)) y\<rparr>)"

lemma table_handlers_sel [simp]:
  "h_Create (table_handlers key cols upds) x t = (if key x \<in> key ` set t then (Some ''duplicate key'', t) else (None, t @ [x]))"
  "h_FindByField (table_handlers key cols upds) n v t = Inr (find (\<lambda>x. cols x n = Some v) t)"
  "h_FindByFields (table_handlers key cols upds) m t = Inr (find (has_fields cols m) t)"
  "h_Exists (table_handlers key cols upds) (Some f) t = Inr (list_ex (has_fields cols (Fields f)) t)"
  "h_Delete (table_handlers key cols upds) x t = (None, filter (\<lambda>y. key y \<noteq> key x) t)"
  "h_DeleteByFields (table_handlers key cols upds) m t = (None, filter (\<lambda>y. \<not> has_fields cols m y) t)"
  "h_Update (table_handlers key cols upds) x None m t = (None, map (\<lambda>y. if key y = key x then upds m y else y) t)"
  by (simp_all add: table_handlers_def Let_def)

interpretation in_memory: db_table "table_handlers key cols upds" set key cols upds
  for key :: "'row \<Rightarrow> string" and cols :: "'row \<Rightarrow> string \<Rightarrow> db_value option" and upds :: "db_Fields \<Rightarrow> 'row \<Rightarrow> 'row"
  by unfold_locales
     (auto simp: fields_only_def NewFilter_def list_ex_iff find_Some_iff find_None_iff
       split: if_splits dest: nth_mem)

text \<open>The value a field gets from an update, which keeps the old one if it is not named or has another type.\<close>

definition string_field :: "db_Fields \<Rightarrow> string \<Rightarrow> string \<Rightarrow> string" where
  "string_field fs n old = (case map_of fs n of Some (VString v) \<Rightarrow> v | _ \<Rightarrow> old)"

definition bool_field :: "db_Fields \<Rightarrow> string \<Rightarrow> bool \<Rightarrow> bool" where
  "bool_field fs n old = (case map_of fs n of Some (VBool v) \<Rightarrow> v | _ \<Rightarrow> old)"

definition time_field :: "db_Fields \<Rightarrow> string \<Rightarrow> int \<Rightarrow> int" where
  "time_field fs n old = (case map_of fs n of Some (VTime v) \<Rightarrow> v | _ \<Rightarrow> old)"

lemma map_of_stamped: "n \<noteq> ''updated_at'' \<Longrightarrow> map_of (stamped now fs) n = map_of fs n"
  by (simp add: stamped_def update_conv')

lemma string_field_kept: "map_of fs n = None \<Longrightarrow> string_field fs n old = old"
  by (simp add: string_field_def)

lemma string_field_cases: "string_field fs n old = old \<or> map_of fs n = Some (VString (string_field fs n old))"
  by (auto simp: string_field_def split: option.split db_value.split)

text \<open>A table that is a part of the state of a database: \<open>get\<close> reads it and \<open>put\<close> puts it back.\<close>

definition part_of :: "('t \<Rightarrow> 'u) \<Rightarrow> ('u \<Rightarrow> 't \<Rightarrow> 't) \<Rightarrow> ('u \<Rightarrow> 'r \<times> 'u) \<Rightarrow> 't \<Rightarrow> 'r \<times> 't" where
  "part_of get put f t = (case f (get t) of (r, u) \<Rightarrow> (r, put u t))"

definition on_table :: "('t \<Rightarrow> 'u) \<Rightarrow> ('u \<Rightarrow> 't \<Rightarrow> 't) \<Rightarrow> ('u, 'o) DBHandlers \<Rightarrow> ('t, 'o) DBHandlers" where
  "on_table get put h =
     \<lparr>h_FindByField = \<lambda>n v t. h_FindByField h n v (get t), h_FindByFields = \<lambda>m t. h_FindByFields h m (get t),
      h_FindWithFilter = \<lambda>f t. h_FindWithFilter h f (get t),
      h_FindForUpdate = \<lambda>m. part_of get put (h_FindForUpdate h m), h_FindForShare = \<lambda>m. part_of get put (h_FindForShare h m),
      h_Exists = \<lambda>f t. h_Exists h f (get t),
      h_Create = \<lambda>x. part_of get put (h_Create h x), h_CreateDup = \<lambda>x i. part_of get put (h_CreateDup h x i),
      h_Delete = \<lambda>x. part_of get put (h_Delete h x), h_DeleteByFields = \<lambda>m. part_of get put (h_DeleteByFields h m),
      h_Update = \<lambda>x f m. part_of get put (h_Update h x f m), h_UpdateAll = \<lambda>x m. part_of get put (h_UpdateAll h x m),
      h_UpdateWithFilter = \<lambda>x f m. part_of get put (h_UpdateWithFilter h x f m),
      h_UpdateSections = \<lambda>x f s y. part_of get put (h_UpdateSections h x f s y),
      h_UpdateSectionsAll = \<lambda>x s y. part_of get put (h_UpdateSectionsAll h x s y),
      h_UpdateSectionsWithFilter = \<lambda>x f s y. part_of get put (h_UpdateSectionsWithFilter h x f s y),
      h_UpdateSection = \<lambda>x f s y. part_of get put (h_UpdateSection h x f s y),
      h_UpdateSectionAll = \<lambda>x s y. part_of get put (h_UpdateSectionAll h x s y),
      h_UpdateSectionWithFilter = \<lambda>x f s y. part_of get put (h_UpdateSectionWithFilter h x f s y)\<rparr>"

lemma part_of_get:
  assumes "part_of get put f t = (r, t')" and "\<And>u t. get (put u t) = u" shows "f (get t) = (r, get t')"
  using assms by (auto simp: part_of_def split: prod.splits)

lemma part_of_other:
  assumes "part_of get put f t = (r, t')" and "\<And>u t. other (put u t) = other t" shows "other t' = other t"
  using assms by (auto simp: part_of_def split: prod.splits)

context db_table
begin

lemma on_table:
  assumes "\<And>u t. get (put u t) = u"
  shows "db_table (on_table get put h) (\<lambda>t. rows (get t)) ident col upd"
proof -
  have part: "part_of get put f t = (r, t') \<Longrightarrow> f (get t) = (r, get t')" for f :: "'t \<Rightarrow> string option \<times> 't" and t r t'
    using part_of_get assms by metis
  show ?thesis
    by unfold_locales
     (auto simp: on_table_def dest!: part
       dest: found_by_field none_by_field found_by_fields none_by_fields exists_law create_law create_fails update_law update_fails
         delete_law delete_fails delete_fields_law delete_fields_fails)
qed

end

theorem crud_writes_one_database_witness:
  "fst (DbCRUD_Create NewDbCrud \<lparr>DbTransaction = Some True, OverrideDb = None, MainDB = False, Db = False\<rparr>
      (table_handlers id (\<lambda>x n. Some (VString x)) (\<lambda>m x. x)) ''a'' (\<lambda>b. [])) = None \<and>
   (\<exists>t. snd (DbCRUD_Create NewDbCrud \<lparr>DbTransaction = Some True, OverrideDb = None, MainDB = False, Db = False\<rparr>
      (table_handlers id (\<lambda>x n. Some (VString x)) (\<lambda>m x. x)) ''a'' (\<lambda>b. [])) = (\<lambda>b. [])(True := t))"
proof -
  let ?c = "\<lparr>DbTransaction = Some True, OverrideDb = None, MainDB = False, Db = False\<rparr>"
  let ?h = "table_handlers id (\<lambda>x n. Some (VString x)) (\<lambda>m x. x) :: (string list, string) DBHandlers"
  let ?r = "DbCRUD_Create NewDbCrud ?c ?h ''a'' (\<lambda>b. [])"
  have "crud_write NewDbCrud ?c ?h (\<lambda>b. []) (fst ?r) (snd ?r)" by (rule crud_write.create) simp
  from crud_writes_one_database [OF this, of True] have "\<exists>t. snd ?r = (\<lambda>b. [])(True := t)" by simp
  moreover have "fst ?r = None" by (simp add: DbCRUD_Create_def NewDbCrud_def on_db_def DB_def)
  ultimately show ?thesis by simp
qed

end
