(* ===== verification/Loggers.thy ===== *)
theory Loggers
  imports DbFilters
begin

section \<open>Loggers\<close>

text \<open>
  Models \<^verbatim>\<open>pkg/logger\<close>: levels, fields and the stack of fatal errors (\<^verbatim>\<open>logger.go\<close>), the loggers that add fields of their own to every record
  (\<^verbatim>\<open>proxy_logger.go\<close>) and those that send a record to several others (\<^verbatim>\<open>tee_logger.go\<close>). A logger is a tree whose leaves are sinks, known by a number; what a
  call does is the list of the calls that reach the sinks. How a sink writes a record is not modelled. Maps are copied by the code before they are changed, so fields are
  values.
\<close>

subsection \<open>Levels and fields\<close>

datatype Level = PanicLevel | FatalLevel | ErrorLevel | WarnLevel | InfoLevel | DebugLevel | TraceLevel

fun Level_String :: "Level \<Rightarrow> string" where
  "Level_String TraceLevel = ''trace''"
| "Level_String DebugLevel = ''debug''"
| "Level_String InfoLevel = ''info''"
| "Level_String WarnLevel = ''warning''"
| "Level_String ErrorLevel = ''error''"
| "Level_String FatalLevel = ''fatal''"
| "Level_String PanicLevel = ''panic''"

definition AppendFieldsNew :: "db_Fields \<Rightarrow> db_Fields list \<Rightarrow> db_Fields" where
  "AppendFieldsNew f fs = (case fs of [] \<Rightarrow> f | x # _ \<Rightarrow> AppendMap f x)"

definition NewFields :: "db_Fields list \<Rightarrow> db_Fields" where
  "NewFields fs = (case fs of [] \<Rightarrow> [] | x # _ \<Rightarrow> x)"

definition FieldsWithError :: "string option \<Rightarrow> db_Fields list \<Rightarrow> db_Fields" where
  "FieldsWithError err fs = AList.update ''error'' (VString (case err of None \<Rightarrow> '''' | Some e \<Rightarrow> e)) (OptionalArg [] fs)"

subsection \<open>Proxies and tees\<close>

text \<open>\<open>ErrorRaw\<close> takes a list of values; a logger that hands it on gives the list as one value.\<close>

datatype raw_value = RawValue db_value | RawList "raw_value list"

datatype log_call =
    LogAt Level string
  | LogError string "string option"
  | LogErrorNative "string option"
  | LogErrorMessage string
  | LogFatal string "string option"

datatype logger = Sink nat | ProxyLogger (NextLogger: logger) (StaticFields: db_Fields) | TeeLogger (tee_loggers: "logger list")

definition NewProxy :: "logger \<Rightarrow> db_Fields list \<Rightarrow> logger" where
  "NewProxy l fs = ProxyLogger l (NewFields fs)"

fun Reset_fields :: "logger \<Rightarrow> logger" where
  "Reset_fields (ProxyLogger l st) = ProxyLogger l []"
| "Reset_fields l = l"

fun SetStaticField :: "string \<Rightarrow> db_value \<Rightarrow> logger \<Rightarrow> logger" where
  "SetStaticField n v (ProxyLogger l st) = ProxyLogger l (AList.update n v st)"
| "SetStaticField n v l = l"

fun UnsetStaticField :: "string \<Rightarrow> logger \<Rightarrow> logger" where
  "UnsetStaticField n (ProxyLogger l st) = ProxyLogger l (AList.delete n st)"
| "UnsetStaticField n l = l"

fun emit :: "logger \<Rightarrow> log_call \<Rightarrow> db_Fields list \<Rightarrow> (nat \<times> log_call \<times> db_Fields list) list" where
  "emit (Sink i) call fs = [(i, call, fs)]"
| "emit (ProxyLogger l st) call fs = emit l call [AppendFieldsNew st fs]"
| "emit (TeeLogger ls) call fs = concat (map (\<lambda>l. emit l call fs) ls)"

fun ErrorRaw :: "logger \<Rightarrow> raw_value list \<Rightarrow> (nat \<times> raw_value list) list" where
  "ErrorRaw (Sink i) d = [(i, d)]"
| "ErrorRaw (ProxyLogger l st) d = ErrorRaw l [RawList d]"
| "ErrorRaw (TeeLogger ls) d = concat (map (\<lambda>l. ErrorRaw l [RawList d]) ls)"

text \<open>The error that a tee gives back for a call with an error.\<close>

definition log_error_result :: "string \<Rightarrow> string option \<Rightarrow> string" where
  "log_error_result message err = (case err of Some e \<Rightarrow> e | None \<Rightarrow> if message \<noteq> '''' then message else ''unknown error'')"

text \<open>The level that is read back, from the levels the sinks have.\<close>

fun GetLevel :: "(nat \<Rightarrow> Level) \<Rightarrow> logger \<Rightarrow> Level" where
  "GetLevel lv (Sink i) = lv i"
| "GetLevel lv (ProxyLogger l st) = GetLevel lv l"
| "GetLevel lv (TeeLogger []) = InfoLevel"
| "GetLevel lv (TeeLogger (l # ls)) = GetLevel lv l"

fun SetLevel :: "Level \<Rightarrow> logger \<Rightarrow> (nat \<Rightarrow> Level) \<Rightarrow> nat \<Rightarrow> Level" where
  "SetLevel x (Sink i) lv = lv(i := x)"
| "SetLevel x (ProxyLogger l st) lv = SetLevel x l lv"
| "SetLevel x (TeeLogger ls) lv = fold (SetLevel x) ls lv"

fun DumpRequests :: "(nat \<Rightarrow> bool) \<Rightarrow> logger \<Rightarrow> bool" where
  "DumpRequests d (Sink i) = d i"
| "DumpRequests d (ProxyLogger l st) = DumpRequests d l"
| "DumpRequests d (TeeLogger ls) = list_ex (DumpRequests d) ls"

subsection \<open>The stack of fatal errors\<close>

text \<open>A nil stack of messages is \<open>None\<close>.\<close>

record fatalError =
  messageStack :: "string list option"
  deepestError :: "string option"
  fatal_fields :: db_Fields

definition LoggerBase_Init :: fatalError where
  "LoggerBase_Init = \<lparr>messageStack = Some [], deepestError = None, fatal_fields = []\<rparr>"

definition Base_PushFatalStack :: "string \<Rightarrow> string option \<Rightarrow> db_Fields list \<Rightarrow> fatalError \<Rightarrow> string \<times> fatalError" where
  "Base_PushFatalStack message err fs l0 =
     (let l = (if messageStack l0 = None then LoggerBase_Init else l0);
          e = (case err of Some e \<Rightarrow> e | None \<Rightarrow> if message = '''' then ''unknown error'' else message);
          l1 = (if message \<noteq> '''' \<and> err \<noteq> None then l\<lparr>messageStack := map_option (\<lambda>ms. ms @ [message]) (messageStack l)\<rparr> else l);
          l2 = (if deepestError l1 = None then l1\<lparr>deepestError := Some e\<rparr> else l1)
      in (e, l2\<lparr>fatal_fields := AppendFieldsNew (fatal_fields l2) fs\<rparr>))"

definition fatal_text :: "string list \<Rightarrow> fatalError \<Rightarrow> string \<Rightarrow> string" where
  "fatal_text message l e =
     (let m = OptionalArg '''' message
      in (if m \<noteq> '''' then m @ '': '' else '''') @
         concat (map (\<lambda>x. x @ '': '') (rev (case messageStack l of None \<Rightarrow> [] | Some ms \<Rightarrow> ms))) @ e)"

text \<open>What is reported, if anything, as the message and the fields of a fatal record.\<close>

definition Base_CheckFatalStack :: "string list \<Rightarrow> fatalError \<Rightarrow> (string \<times> db_Fields) option \<times> fatalError" where
  "Base_CheckFatalStack message l =
     (case deepestError l of
        None \<Rightarrow> (None, l)
      | Some e \<Rightarrow> (Some (fatal_text message l e, fatal_fields l), LoggerBase_Init))"

fun PushFatalStack :: "logger \<Rightarrow> string \<Rightarrow> string option \<Rightarrow> db_Fields list \<Rightarrow> (nat \<Rightarrow> fatalError) \<Rightarrow> string \<times> (nat \<Rightarrow> fatalError)" where
  "PushFatalStack (Sink i) message err fs st =
     (case Base_PushFatalStack message err fs (st i) of (e, l) \<Rightarrow> (e, st(i := l)))"
| "PushFatalStack (ProxyLogger l sf) message err fs st = PushFatalStack l message err [AppendFieldsNew sf fs] st"
| "PushFatalStack (TeeLogger ls) message err fs st =
     (log_error_result message err, fold (\<lambda>l st. snd (PushFatalStack l message err fs st)) ls st)"

subsection \<open>What reaches the sinks\<close>

fun sinks :: "logger \<Rightarrow> nat list" where
  "sinks (Sink i) = [i]"
| "sinks (ProxyLogger l st) = sinks l"
| "sinks (TeeLogger ls) = concat (map sinks ls)"

text \<open>Every call reaches every sink once, in order, with the call unchanged.\<close>

lemma emit_sinks: "map fst (emit l call fs) = sinks l"
  by (induction l call fs rule: emit.induct) (auto simp: map_concat o_def intro!: arg_cong [where f = concat])

lemma emit_call: "(i, c, gs) \<in> set (emit l call fs) \<Longrightarrow> c = call"
  by (induction l call fs rule: emit.induct) auto

text \<open>The value of a field: that of the record, else of the innermost proxy that has it.\<close>

lemma map_of_AppendFieldsNew [gomap]: "gomap_wf x \<Longrightarrow> map_of (AppendFieldsNew f [x]) = map_of f ++ map_of x"
  by (simp add: AppendFieldsNew_def gomap)

lemma gomap_wf_AppendFieldsNew [simp]: "gomap_wf f \<Longrightarrow> gomap_wf (AppendFieldsNew f fs)"
  by (simp add: AppendFieldsNew_def split: list.split)

text \<open>A chain of causes pushed from the innermost: the report names the messages from the outermost and ends with the first error.\<close>

definition pushes :: "string list \<Rightarrow> string \<Rightarrow> fatalError \<Rightarrow> fatalError" where
  "pushes ms e l = fold (\<lambda>m l. snd (Base_PushFatalStack m (Some e) [] l)) ms l"

lemma pushes_state:
  assumes "list_all (\<lambda>m. m \<noteq> '''') ms" "messageStack l = Some ks" "deepestError l = Some e"
  shows "messageStack (pushes ms e l) = Some (ks @ ms) \<and> deepestError (pushes ms e l) = Some e"
  using assms
  by (induction ms arbitrary: l ks) (auto simp: pushes_def Base_PushFatalStack_def Let_def)

lemma fatal_report_names_every_cause:
  assumes "m \<noteq> ''''" "list_all (\<lambda>m. m \<noteq> '''') ms"
  shows "fst (Base_CheckFatalStack [] (pushes (m # ms) e LoggerBase_Init)) =
      Some (concat (map (\<lambda>x. x @ '': '') (rev (m # ms))) @ e, fatal_fields (pushes (m # ms) e LoggerBase_Init)) \<and>
    snd (Base_CheckFatalStack [] (pushes (m # ms) e LoggerBase_Init)) = LoggerBase_Init"
proof -
  define l1 where "l1 = snd (Base_PushFatalStack m (Some e) [] LoggerBase_Init)"
  have "messageStack l1 = Some [m]" "deepestError l1 = Some e"
    using assms(1) by (simp_all add: l1_def Base_PushFatalStack_def LoggerBase_Init_def Let_def)
  from pushes_state [OF assms(2) this]
  have "messageStack (pushes (m # ms) e LoggerBase_Init) = Some (m # ms)" "deepestError (pushes (m # ms) e LoggerBase_Init) = Some e"
    by (simp_all add: pushes_def l1_def)
  then show ?thesis by (simp add: Base_CheckFatalStack_def fatal_text_def)
qed

text \<open>A finding: a logger that hands raw values on nests them, so what a sink behind a proxy gets is a list in a list.\<close>

lemma raw_values_are_nested: "ErrorRaw (ProxyLogger (Sink i) fs) [RawValue v] = [(i, [RawList [RawValue v]])]"
  by simp

end
