(* ===== verification/OpContexts.thy ===== *)
theory OpContexts
  imports Loggers GenericErrors Crud
begin

section \<open>Operation contexts\<close>

text \<open>
  Models \<^verbatim>\<open>pkg/op_context/default_op_context\<close>: the context of an operation with the stack of its calls, the snapshot of that stack at the first failure, the generic
  error, the operation log and what is written when the context is closed; \<^verbatim>\<open>pkg/oplog\<close> and the controller that writes it to the database. The frames of the stack are
  shared with the snapshot and with the calls that hold them, so they live in a list of their own and both hold their indices: what a caller notes in its frame after the
  snapshot is part of the report. Frames are made by the default builder. The databases of a context are those of \<open>db_context\<close>.
\<close>

subsection \<open>Calls\<close>

record CallContextBase =
  call_method :: string
  call_error :: "go_error option"
  call_message :: string
  frameworkFrame :: bool
  call_parent :: "nat option"
  call_fields :: db_Fields

record OriginHolder =
  origin_App :: string
  origin_Name :: string
  origin_Source :: string
  origin_SessionClient :: string
  origin_User :: string
  origin_UserType :: string

record OplogBase =
  oplog_ID :: string
  oplog_CreatedAt :: int
  oplog_UpdatedAt :: int
  Operation :: string
  oplog_Context :: string
  ContextName :: string
  OriginApp :: string
  OriginName :: string
  User :: string
  OriginSource :: string
  OriginClient :: string
  UserType :: string

text \<open>\<open>'h\<close> are the handles of databases, \<open>'w\<close> those of the controllers that write operation logs, \<open>'z\<close> the fields that a package adds to them.\<close>

record ('h, 'w, 'z) ContextBase = "'h db_context" +
  errorManager :: ErrorManagerBase
  context_id :: string
  context_name :: string
  frames :: "CallContextBase list"
  stack :: "nat list"
  errorStack :: "nat list option"
  genericError :: "go_error option"
  proxyLogger :: logger
  errorAsWarn :: bool
  oplogs :: "'z OplogBase_scheme list"
  oplogWriter :: "'w option"
  oplogHandler :: "'w option"
  origin :: "OriginHolder option"
  writeCloseLog :: bool
  log :: "(nat \<times> log_call \<times> db_Fields list) list"

subsection \<open>Loggers of a context\<close>

fun frame_logger :: "logger \<Rightarrow> CallContextBase list \<Rightarrow> nat \<Rightarrow> logger" where
  "frame_logger base fr i =
     (if i < length fr
      then ProxyLogger (case call_parent (fr ! i) of None \<Rightarrow> base | Some p \<Rightarrow> if p < i then frame_logger base fr p else base) (call_fields (fr ! i))
      else base)"

declare frame_logger.simps [simp del]

definition Logger :: "('h, 'w, 'z) ContextBase \<Rightarrow> logger" where
  "Logger c = (if stack c = [] then proxyLogger c else frame_logger (proxyLogger c) (frames c) (last (stack c)))"

definition write_log :: "logger \<Rightarrow> log_call \<Rightarrow> db_Fields list \<Rightarrow> ('h, 'w, 'z) ContextBase \<Rightarrow> ('h, 'w, 'z) ContextBase" where
  "write_log l call fs c = c\<lparr>log := log c @ emit l call fs\<rparr>"

definition SetLoggerField :: "string \<Rightarrow> db_value \<Rightarrow> ('h, 'w, 'z) ContextBase \<Rightarrow> ('h, 'w, 'z) ContextBase" where
  "SetLoggerField n v c = c\<lparr>proxyLogger := SetStaticField n v (proxyLogger c)\<rparr>"

definition AddLoggerFields :: "db_Fields \<Rightarrow> ('h, 'w, 'z) ContextBase \<Rightarrow> ('h, 'w, 'z) ContextBase" where
  "AddLoggerFields fs c = fold (\<lambda>(n, v). SetLoggerField n v) fs c"

definition UnsetLoggerField :: "string \<Rightarrow> ('h, 'w, 'z) ContextBase \<Rightarrow> ('h, 'w, 'z) ContextBase" where
  "UnsetLoggerField n c = c\<lparr>proxyLogger := UnsetStaticField n (proxyLogger c)\<rparr>"

text \<open>What a call does with its own frame.\<close>

definition on_frame :: "nat \<Rightarrow> (CallContextBase \<Rightarrow> CallContextBase) \<Rightarrow> ('h, 'w, 'z) ContextBase \<Rightarrow> ('h, 'w, 'z) ContextBase" where
  "on_frame i f c = c\<lparr>frames := (frames c)[i := f (frames c ! i)]\<rparr>"

definition SetError :: "nat \<Rightarrow> go_error option \<Rightarrow> ('h, 'w, 'z) ContextBase \<Rightarrow> ('h, 'w, 'z) ContextBase" where
  "SetError i err = on_frame i (\<lambda>f. f\<lparr>call_error := err\<rparr>)"

definition SetErrorStr :: "nat \<Rightarrow> string \<Rightarrow> ('h, 'w, 'z) ContextBase \<Rightarrow> ('h, 'w, 'z) ContextBase" where
  "SetErrorStr i err = SetError i (Some (Native err))"

definition SetMessage :: "nat \<Rightarrow> string \<Rightarrow> ('h, 'w, 'z) ContextBase \<Rightarrow> ('h, 'w, 'z) ContextBase" where
  "SetMessage i msg = on_frame i (\<lambda>f. f\<lparr>call_message := msg\<rparr>)"

definition SetFrameworkFrame :: "nat \<Rightarrow> bool \<Rightarrow> ('h, 'w, 'z) ContextBase \<Rightarrow> ('h, 'w, 'z) ContextBase" where
  "SetFrameworkFrame i enable = on_frame i (\<lambda>f. f\<lparr>frameworkFrame := enable\<rparr>)"

definition Call_SetLoggerField :: "nat \<Rightarrow> string \<Rightarrow> db_value \<Rightarrow> ('h, 'w, 'z) ContextBase \<Rightarrow> ('h, 'w, 'z) ContextBase" where
  "Call_SetLoggerField i n v = on_frame i (\<lambda>f. f\<lparr>call_fields := AList.update n v (call_fields f)\<rparr>)"

definition Call_UnsetLoggerField :: "nat \<Rightarrow> string \<Rightarrow> ('h, 'w, 'z) ContextBase \<Rightarrow> ('h, 'w, 'z) ContextBase" where
  "Call_UnsetLoggerField i n = on_frame i (\<lambda>f. f\<lparr>call_fields := AList.delete n (call_fields f)\<rparr>)"

subsection \<open>The stack of calls\<close>

definition stackPath :: "CallContextBase list \<Rightarrow> string" where
  "stackPath st = fold (\<lambda>f path. (if path \<noteq> '''' then path @ '':'' else path) @ call_method f) st ''''"

definition displayStackPath :: "CallContextBase list \<Rightarrow> string" where
  "displayStackPath st =
     (let trimmed = dropWhile frameworkFrame st in if trimmed = [] then stackPath st else stackPath trimmed)"

definition frames_of :: "('h, 'w, 'z) ContextBase \<Rightarrow> nat list \<Rightarrow> CallContextBase list" where
  "frames_of c is = map (\<lambda>i. frames c ! i) is"

definition DefaultCallContextBuilder :: "string \<Rightarrow> nat option \<Rightarrow> db_Fields list \<Rightarrow> CallContextBase" where
  "DefaultCallContextBuilder methodName parent fs =
     \<lparr>call_method = methodName, call_error = None, call_message = '''', frameworkFrame = False, call_parent = parent, call_fields = NewFields fs\<rparr>"

definition traceIn :: "string \<Rightarrow> bool \<Rightarrow> db_Fields list \<Rightarrow> ('h, 'w, 'z) ContextBase \<Rightarrow> nat \<times> ('h, 'w, 'z) ContextBase" where
  "traceIn methodName framework fs c =
     (let parent = (if stack c = [] then None else Some (last (stack c)));
          i = length (frames c);
          f = (DefaultCallContextBuilder methodName parent fs)\<lparr>frameworkFrame := framework\<rparr>;
          c1 = c\<lparr>frames := frames c @ [f], stack := stack c @ [i]\<rparr>;
          c2 = SetLoggerField ''stack'' (VString (displayStackPath (frames_of c1 (stack c1)))) c1
      in (i, write_log (Logger c2) (LogAt TraceLevel ''callin'') [] c2))"

definition TraceInMethod :: "string \<Rightarrow> db_Fields list \<Rightarrow> ('h, 'w, 'z) ContextBase \<Rightarrow> nat \<times> ('h, 'w, 'z) ContextBase" where
  "TraceInMethod methodName fs c = traceIn methodName False fs c"

definition TraceInFrameworkMethod :: "string \<Rightarrow> db_Fields list \<Rightarrow> ('h, 'w, 'z) ContextBase \<Rightarrow> nat \<times> ('h, 'w, 'z) ContextBase" where
  "TraceInFrameworkMethod methodName fs c = traceIn methodName True fs c"

definition TraceOutMethod :: "('h, 'w, 'z) ContextBase \<Rightarrow> ('h, 'w, 'z) ContextBase" where
  "TraceOutMethod c0 =
     (let c = write_log (Logger c0) (LogAt TraceLevel ''callout'') [] c0
      in if stack c = [] then c
         else let c1 = (if call_error (frames c ! last (stack c)) \<noteq> None \<and> errorStack c = None then c\<lparr>errorStack := Some (stack c)\<rparr> else c);
                  c2 = c1\<lparr>stack := butlast (stack c1)\<rparr>
              in if stack c2 = [] then UnsetLoggerField ''stack'' c2
                 else SetLoggerField ''stack'' (VString (displayStackPath (frames_of c2 (stack c2)))) c2)"

subsection \<open>Errors of a context\<close>

definition SetGenericError :: "go_error option \<Rightarrow> bool list \<Rightarrow> ('h, 'w, 'z) ContextBase \<Rightarrow> ('h, 'w, 'z) ContextBase" where
  "SetGenericError err override c =
     (if genericError c = None \<or> err = None \<or> OptionalArg False override then c\<lparr>genericError := err\<rparr> else c)"

definition Tr :: "string \<Rightarrow> string" where
  "Tr phrase = phrase"

definition Context_MakeGenericError :: "string \<Rightarrow> ('h, 'w, 'z) ContextBase \<Rightarrow> go_error" where
  "Context_MakeGenericError code c = MakeGenericError code [Tr] (errorManager c)"

definition SetGenericErrorCode :: "string \<Rightarrow> bool list \<Rightarrow> ('h, 'w, 'z) ContextBase \<Rightarrow> ('h, 'w, 'z) ContextBase" where
  "SetGenericErrorCode code override c =
     (if genericError c = None \<or> OptionalArg False override
      then SetGenericError (Some (Context_MakeGenericError code c)) override c else c)"

definition op_SetGenericErrorCode :: "string \<Rightarrow> ('h, 'w, 'z) ContextBase \<Rightarrow> go_error option \<times> ('h, 'w, 'z) ContextBase" where
  "op_SetGenericErrorCode code c = (let c1 = SetGenericErrorCode code [] c in (genericError c1, c1))"

definition ClearError :: "('h, 'w, 'z) ContextBase \<Rightarrow> ('h, 'w, 'z) ContextBase" where
  "ClearError c = c\<lparr>errorStack := None, genericError := None\<rparr>"

definition Reset :: "('h, 'w, 'z) ContextBase \<Rightarrow> ('h, 'w, 'z) ContextBase" where
  "Reset c = UnsetLoggerField ''stack'' (c\<lparr>stack := [], errorStack := None, genericError := None, oplogs := []\<rparr>)"

definition Oplog :: "'z OplogBase_scheme \<Rightarrow> ('h, 'w, 'z) ContextBase \<Rightarrow> ('h, 'w, 'z) ContextBase" where
  "Oplog o' c = c\<lparr>oplogs := oplogs c @ [o']\<rparr>"

subsection \<open>The report\<close>

text \<open>The message and the error that a stack of calls gives: the messages of all of them, the deepest error.\<close>

definition report_step :: "CallContextBase \<Rightarrow> string \<times> go_error option \<Rightarrow> string \<times> go_error option" where
  "report_step item = (\<lambda>(msg, err).
     (if call_message item \<noteq> ''''
        then (if msg \<noteq> '''' then msg @ '':'' else msg) @ call_method item @ ''('' @ call_message item @ '')'' else msg,
      if call_error item \<noteq> None then call_error item else err))"

definition DumpLog :: "string list \<Rightarrow> ('h, 'w, 'z) ContextBase \<Rightarrow> ('h, 'w, 'z) ContextBase" where
  "DumpLog successMessage c =
     ClearError
       (case errorStack c of
          Some st \<Rightarrow>
            let (msg, err) = fold report_step (frames_of c st) ('''', None);
                deepestLogger = frame_logger (proxyLogger c) (frames c) (last st);
                loggerFields = [(''stack'', VString (displayStackPath (frames_of c st)))]
            in if \<not> errorAsWarn c then write_log deepestLogger (LogError msg (map_option Error err)) [loggerFields] c
               else write_log deepestLogger (LogAt WarnLevel msg)
                 [case err of None \<Rightarrow> loggerFields | Some e \<Rightarrow> AList.update ''error'' (VString (Error e)) loggerFields] c
        | None \<Rightarrow>
            if writeCloseLog c then
              let msg = OptionalArg ''success'' successMessage
              in if msg \<noteq> '''' then write_log (Logger c) (LogAt InfoLevel msg) [] c else c
            else c)"

subsection \<open>Closing\<close>

text \<open>\<open>InitObject\<close> gives an object a new identifier and the present time, which are arguments.\<close>

definition oplog_InitObject :: "string \<Rightarrow> int \<Rightarrow> 'z OplogBase_scheme \<Rightarrow> 'z OplogBase_scheme" where
  "oplog_InitObject newid now x = x\<lparr>oplog_ID := newid, oplog_CreatedAt := now, oplog_UpdatedAt := now\<rparr>"

definition fill_oplog :: "('h, 'w, 'z) ContextBase \<Rightarrow> string \<Rightarrow> int \<Rightarrow> 'z OplogBase_scheme \<Rightarrow> 'z OplogBase_scheme" where
  "fill_oplog c newid now x =
     (let x1 = (oplog_InitObject newid now x)\<lparr>oplog_Context := context_id c, ContextName := context_name c\<rparr>
      in case origin c of
           None \<Rightarrow> x1
         | Some g \<Rightarrow> x1\<lparr>OriginApp := origin_App g, OriginName := origin_Name g, OriginSource := origin_Source g, User := origin_User g,
             OriginClient := origin_SessionClient g, UserType := origin_UserType g\<rparr>)"

text \<open>The controller of a handle writes one record; it may fail and may log.\<close>

type_synonym ('h, 'w, 'z, 'd) oplog_write =
  "'w \<Rightarrow> ('h, 'w, 'z) ContextBase \<Rightarrow> 'z OplogBase_scheme \<Rightarrow> 'd \<Rightarrow> string option \<times> ('h, 'w, 'z) ContextBase \<times> 'd"

fun write_oplogs ::
    "('h, 'w, 'z, 'd) oplog_write \<Rightarrow> 'w \<Rightarrow> (nat \<Rightarrow> string \<times> int) \<Rightarrow> nat \<Rightarrow> 'z OplogBase_scheme list \<Rightarrow> ('h, 'w, 'z) ContextBase \<times> 'd \<Rightarrow> ('h, 'w, 'z) ContextBase \<times> 'd" where
  "write_oplogs put w new k [] s = s"
| "write_oplogs put w new k (x # xs) (c, d) =
     write_oplogs put w new (Suc k) xs (snd (put w c (fill_oplog c (fst (new k)) (snd (new k)) x) d))"

function close_frames :: "('h, 'w, 'z) ContextBase \<Rightarrow> ('h, 'w, 'z) ContextBase" where
  "close_frames c = (if stack c = [] then c else close_frames (TraceOutMethod c))"
  by pat_completeness auto

lemma stack_write_log [simp]:
  "stack (write_log l call fs c) = stack c" "errorStack (write_log l call fs c) = errorStack c"
  "genericError (write_log l call fs c) = genericError c" "oplogs (write_log l call fs c) = oplogs c"
  "frames (write_log l call fs c) = frames c" "proxyLogger (write_log l call fs c) = proxyLogger c"
  by (simp_all add: write_log_def)

lemma stack_SetLoggerField [simp]:
  "stack (SetLoggerField n v c) = stack c" "errorStack (SetLoggerField n v c) = errorStack c"
  "genericError (SetLoggerField n v c) = genericError c" "oplogs (SetLoggerField n v c) = oplogs c"
  "frames (SetLoggerField n v c) = frames c"
  by (simp_all add: SetLoggerField_def)

lemma stack_UnsetLoggerField [simp]:
  "stack (UnsetLoggerField n c) = stack c" "errorStack (UnsetLoggerField n c) = errorStack c"
  "genericError (UnsetLoggerField n c) = genericError c" "oplogs (UnsetLoggerField n c) = oplogs c"
  "frames (UnsetLoggerField n c) = frames c"
  by (simp_all add: UnsetLoggerField_def)

lemma stack_TraceOutMethod [simp]:
  "stack (TraceOutMethod c) = butlast (stack c)" "frames (TraceOutMethod c) = frames c"
  "genericError (TraceOutMethod c) = genericError c" "oplogs (TraceOutMethod c) = oplogs c"
  by (simp_all add: TraceOutMethod_def Let_def)

termination close_frames
  by (relation "measure (\<lambda>c. length (stack c))") auto

declare close_frames.simps [simp del]

definition Close ::
    "('h, 'w, 'z, 'd) oplog_write \<Rightarrow> (nat \<Rightarrow> string \<times> int) \<Rightarrow> string list \<Rightarrow> ('h, 'w, 'z) ContextBase \<times> 'd \<Rightarrow> ('h, 'w, 'z) ContextBase \<times> 'd" where
  "Close put new successMessage s =
     (case s of (c, d) \<Rightarrow>
        let c0 = close_frames c;
            (c1, d1) =
              (if oplogs c0 \<noteq> [] then
                 (case (case oplogWriter c0 of Some w \<Rightarrow> Some w | None \<Rightarrow> oplogHandler c0) of
                    None \<Rightarrow> (c0, d)
                  | Some w \<Rightarrow> write_oplogs put w new 0 (oplogs c0) (c0, d))
               else (c0, d));
            c2 = (if oplogs c0 \<noteq> [] then c1\<lparr>oplogs := []\<rparr> else c1)
        in (DumpLog successMessage c2, d1))"

subsection \<open>Contexts of an application\<close>

text \<open>What a context takes from the application; \<open>newid\<close> is the identifier that is generated.\<close>

record 'h App =
  Application :: string
  AppInstance :: string
  Hostname :: string
  App_Logger :: logger
  App_Db :: 'h

definition Init :: "string \<Rightarrow> 'w \<Rightarrow> logger \<Rightarrow> 'h \<Rightarrow> db_Fields list \<Rightarrow> ErrorManagerBase \<Rightarrow> ('h, 'w, 'z) ContextBase" where
  "Init newid dbWriter lg db fs em =
     (let c = \<lparr>DbTransaction = None, OverrideDb = None, MainDB = db, Db = db, errorManager = em, context_id = newid, context_name = '''',
           frames = [], stack = [], errorStack = None, genericError = None,
           proxyLogger = NewProxy lg [AppendFieldsNew [(''context'', VString newid)] fs], errorAsWarn = False, oplogs = [],
           oplogWriter = None, oplogHandler = Some dbWriter, origin = None, writeCloseLog = True, log = []\<rparr>
      in write_log (Logger c) (LogAt TraceLevel ''open'') [] c)"

definition SetName :: "string \<Rightarrow> ('h, 'w, 'z) ContextBase \<Rightarrow> ('h, 'w, 'z) ContextBase" where
  "SetName name c =
     (let c1 = SetLoggerField ''op'' (VString name) (c\<lparr>context_name := name\<rparr>)
      in write_log (Logger c1) (LogAt TraceLevel ''name'') [] c1)"

definition NewOrigin :: "'h App \<Rightarrow> OriginHolder" where
  "NewOrigin app = \<lparr>origin_App = Application app, origin_Name = AppInstance app, origin_Source = Hostname app,
     origin_SessionClient = '''', origin_User = '''', origin_UserType = ''''\<rparr>"

definition CopyOrigin :: "OriginHolder option \<Rightarrow> OriginHolder \<Rightarrow> OriginHolder" where
  "CopyOrigin other g = (case other of None \<Rightarrow> g | Some x \<Rightarrow>
     g\<lparr>origin_App := origin_App x, origin_Name := origin_Name x, origin_SessionClient := origin_SessionClient x,
       origin_Source := origin_Source x, origin_User := origin_User x, origin_UserType := origin_UserType x\<rparr>)"

definition AutoUserType :: string where "AutoUserType = ''auto''"
definition ContextUser :: string where "ContextUser = ''background_user''"

definition BackgroundOpContext :: "string \<Rightarrow> 'w \<Rightarrow> 'h App \<Rightarrow> string \<Rightarrow> ('h, 'w, 'z) ContextBase" where
  "BackgroundOpContext newid w app name =
     (SetName name (Init newid w (App_Logger app) (App_Db app) [] (Manager_Init 500)))
       \<lparr>origin := Some ((NewOrigin app)\<lparr>origin_User := ContextUser, origin_UserType := AutoUserType\<rparr>)\<rparr>"

definition NewAppInitContext :: "string \<Rightarrow> 'w \<Rightarrow> 'h App \<Rightarrow> ('h, 'w, 'z) ContextBase" where
  "NewAppInitContext newid w app =
     (SetName ''init_app'' (Init newid w (App_Logger app) (App_Db app) [] (Manager_Init 500)))
       \<lparr>writeCloseLog := False, origin := Some ((NewOrigin app)\<lparr>origin_UserType := ''auto_init''\<rparr>)\<rparr>"

text \<open>A transaction of a request: the database runs the handler with the transaction set in the context.\<close>

definition op_ExecDbTransaction ::
    "('h \<Rightarrow> ('h \<Rightarrow> ('h, 'w, 'z) ContextBase \<times> 'd \<Rightarrow> string option \<times> ('h, 'w, 'z) ContextBase \<times> 'd) \<Rightarrow> ('h, 'w, 'z) ContextBase \<times> 'd \<Rightarrow> string option \<times> ('h, 'w, 'z) ContextBase \<times> 'd) \<Rightarrow>
     (('h, 'w, 'z) ContextBase \<times> 'd \<Rightarrow> string option \<times> ('h, 'w, 'z) ContextBase \<times> 'd) \<Rightarrow>
     ('h, 'w, 'z) ContextBase \<times> 'd \<Rightarrow> string option \<times> ('h, 'w, 'z) ContextBase \<times> 'd" where
  "op_ExecDbTransaction transaction handler s =
     (if DbTransaction (fst s) \<noteq> None then (Some ''nested transactions not supported'', s)
      else transaction (DB (fst s) [])
        (\<lambda>tx (c, d). case handler (c\<lparr>DbTransaction := Some tx\<rparr>, d) of (e, c', d') \<Rightarrow> (e, c'\<lparr>DbTransaction := None\<rparr>, d')) s)"

subsection \<open>Operation logs in the database\<close>

definition OplogControllerDb_Write ::
    "('t, 'z OplogBase_scheme) DBHandlers \<Rightarrow> string \<Rightarrow> 'w \<Rightarrow> ('h, 'w, 'z) ContextBase \<Rightarrow> 'z OplogBase_scheme \<Rightarrow> ('h \<Rightarrow> 't) \<Rightarrow>
     string option \<times> ('h, 'w, 'z) ContextBase \<times> ('h \<Rightarrow> 't)" where
  "OplogControllerDb_Write h typeName w c op s =
     (let b = DB c [] in
      case h_Create h op (s b) of
        (None, t) \<Rightarrow> (None, c, s(b := t))
      | (Some e, t) \<Rightarrow> (Some e, write_log (Logger c) (LogError ''failed to put oplog'' (Some e)) [[(''oplog'', VString typeName)]] c, s(b := t)))"

definition OplogControllerDb_Read ::
    "('t, 'z OplogBase_scheme) DBHandlers \<Rightarrow> string \<Rightarrow> ('h, 'w, 'z) ContextBase \<Rightarrow> Filter option \<Rightarrow> ('h \<Rightarrow> 't) \<Rightarrow>
     (string + int \<times> 'z OplogBase_scheme list) \<times> ('h, 'w, 'z) ContextBase" where
  "OplogControllerDb_Read h typeName c filt s =
     (case h_FindWithFilter h filt (s (DB c [])) of
        Inl e \<Rightarrow> (Inl e, write_log (Logger c) (LogError ''failed to read oplog'' (Some e)) [[(''oplog'', VString typeName)]] c)
      | Inr r \<Rightarrow> (Inr r, c))"

subsection \<open>Runs of a request\<close>

text \<open>What the code of a request does with its context, other than clearing or resetting it.\<close>

inductive request_step :: "('h, 'w, 'z) ContextBase \<Rightarrow> ('h, 'w, 'z) ContextBase \<Rightarrow> bool" where
  trace_in: "traceIn m fw fs c = (i, c') \<Longrightarrow> request_step c c'"
| trace_out: "request_step c (TraceOutMethod c)"
| set_error: "i < length (frames c) \<Longrightarrow> request_step c (SetError i (Some e) c)"
| set_message: "i < length (frames c) \<Longrightarrow> request_step c (SetMessage i msg c)"
| call_field: "i < length (frames c) \<Longrightarrow> request_step c (Call_SetLoggerField i n v c)"
| context_field: "request_step c (SetLoggerField n v c)"
| generic_error: "request_step c (SetGenericError err ov c)"
| generic_code: "request_step c (SetGenericErrorCode code ov c)"
| oplog: "request_step c (Oplog x c)"

inductive_cases request_stepE: "request_step c c'"

text \<open>Indices are those of frames, and a failing frame of the snapshot keeps an error.\<close>

definition frames_ok :: "('h, 'w, 'z) ContextBase \<Rightarrow> bool" where
  "frames_ok c \<longleftrightarrow> (\<forall>i \<in> set (stack c). i < length (frames c)) \<and>
     (\<forall>st. errorStack c = Some st \<longrightarrow> st \<noteq> [] \<and> (\<forall>i \<in> set st. i < length (frames c)) \<and> call_error (frames c ! last st) \<noteq> None)"

definition methods_kept :: "('h, 'w, 'z) ContextBase \<Rightarrow> ('h, 'w, 'z) ContextBase \<Rightarrow> bool" where
  "methods_kept c c' \<longleftrightarrow> length (frames c) \<le> length (frames c') \<and>
     (\<forall>i < length (frames c). call_method (frames c' ! i) = call_method (frames c ! i) \<and> frameworkFrame (frames c' ! i) = frameworkFrame (frames c ! i))"

lemma stack_on_frame [simp]:
  "stack (on_frame i f c) = stack c" "errorStack (on_frame i f c) = errorStack c" "length (frames (on_frame i f c)) = length (frames c)"
  by (simp_all add: on_frame_def)

lemma stack_generic [simp]:
  "stack (SetGenericError err ov c) = stack c" "errorStack (SetGenericError err ov c) = errorStack c" "frames (SetGenericError err ov c) = frames c"
  "stack (SetGenericErrorCode code ov c) = stack c" "errorStack (SetGenericErrorCode code ov c) = errorStack c"
  "frames (SetGenericErrorCode code ov c) = frames c"
  by (simp_all add: SetGenericError_def SetGenericErrorCode_def)

lemma stack_Oplog [simp]: "stack (Oplog x c) = stack c" "errorStack (Oplog x c) = errorStack c" "frames (Oplog x c) = frames c"
  by (simp_all add: Oplog_def)

lemma stack_traceIn:
  assumes "traceIn m fw fs c = (i, c')"
  shows "stack c' = stack c @ [length (frames c)]" "errorStack c' = errorStack c"
    "frames c' = frames c @ [(DefaultCallContextBuilder m (if stack c = [] then None else Some (last (stack c))) fs)\<lparr>frameworkFrame := fw\<rparr>]"
    "i = length (frames c)"
  using assms by (auto simp: traceIn_def Let_def)

lemma errorStack_TraceOutMethod:
  "errorStack (TraceOutMethod c) =
    (if stack c \<noteq> [] \<and> call_error (frames c ! last (stack c)) \<noteq> None \<and> errorStack c = None then Some (stack c) else errorStack c)"
  by (simp add: TraceOutMethod_def Let_def)

lemma frame_on_frame: "i < length (frames c) \<Longrightarrow> j < length (frames c) \<Longrightarrow> frames (on_frame i f c) ! j = (if i = j then f (frames c ! j) else frames c ! j)"
  by (simp add: on_frame_def nth_list_update)

lemma request_step_ok:
  assumes "request_step c c'" "frames_ok c"
  shows "frames_ok c'"
  using assms(1)
proof cases
  case (trace_in m fw fs i)
  note t = stack_traceIn [OF trace_in]
  show ?thesis using assms(2) unfolding frames_ok_def t
    by (auto simp: nth_append less_Suc_eq)
next
  case trace_out
  then show ?thesis using assms(2) by (auto simp: frames_ok_def errorStack_TraceOutMethod split: if_splits dest: in_set_butlastD)
next
  case (set_error i e)
  then show ?thesis using assms(2) by (auto simp: frames_ok_def SetError_def frame_on_frame)
next
  case (set_message i msg)
  then show ?thesis using assms(2) by (auto simp: frames_ok_def SetMessage_def frame_on_frame)
next
  case (call_field i n v)
  then show ?thesis using assms(2) by (auto simp: frames_ok_def Call_SetLoggerField_def frame_on_frame)
qed (use assms(2) in \<open>auto simp: frames_ok_def\<close>)

lemma request_step_methods: "request_step c c' \<Longrightarrow> methods_kept c c'"
  by (cases rule: request_step.cases)
     (auto simp: methods_kept_def stack_traceIn SetError_def SetMessage_def Call_SetLoggerField_def frame_on_frame nth_append split: if_splits)

lemma request_step_snapshot: "request_step c c' \<Longrightarrow> errorStack c = Some st \<Longrightarrow> errorStack c' = Some st"
  by (cases rule: request_step.cases)
     (auto simp: stack_traceIn SetError_def SetMessage_def Call_SetLoggerField_def errorStack_TraceOutMethod)

lemma request_run:
  assumes "request_step\<^sup>*\<^sup>* c c'" "frames_ok c" "errorStack c = Some st"
  shows "frames_ok c' \<and> errorStack c' = Some st \<and> methods_kept c c'"
  using assms(1)
proof (induction rule: rtranclp_induct)
  case base
  then show ?case using assms(2,3) by (simp add: methods_kept_def)
next
  case (step y z)
  then show ?case using request_step_ok request_step_snapshot request_step_methods
    by (fastforce simp: methods_kept_def intro: order_trans)
qed

lemma stackPath_cong: "map call_method xs = map call_method ys \<Longrightarrow> stackPath xs = stackPath ys"
proof -
  have "stackPath zs = fold (\<lambda>m path. (if path \<noteq> '''' then path @ '':'' else path) @ m) (map call_method zs) ''''" for zs
    by (simp add: stackPath_def fold_map o_def)
  then show "map call_method xs = map call_method ys \<Longrightarrow> stackPath xs = stackPath ys" by simp
qed

lemma displayStackPath_cong:
  assumes "map (\<lambda>f. (call_method f, frameworkFrame f)) xs = map (\<lambda>f. (call_method f, frameworkFrame f)) ys"
  shows "displayStackPath xs = displayStackPath ys"
proof -
  have m: "map call_method xs = map call_method ys"
    using arg_cong [OF assms, of "map fst"] by (simp add: o_def)
  have d: "map call_method (dropWhile frameworkFrame xs) = map call_method (dropWhile frameworkFrame ys)"
    using assms
  proof (induction xs arbitrary: ys)
    case (Cons x xs)
    then obtain y ys' where "ys = y # ys'" by (cases ys) auto
    then show ?case using Cons by (auto dest: arg_cong [where f = "map fst"] simp: o_def)
  qed simp
  have "dropWhile frameworkFrame xs = [] \<longleftrightarrow> dropWhile frameworkFrame ys = []"
    using d by (metis map_is_Nil_conv)
  then show ?thesis using stackPath_cong [OF m] stackPath_cong [OF d] by (simp add: displayStackPath_def Let_def)
qed

lemma display_kept:
  assumes "methods_kept c c'" "\<forall>i \<in> set st. i < length (frames c)"
  shows "displayStackPath (frames_of c' st) = displayStackPath (frames_of c st)"
  by (rule displayStackPath_cong) (use assms in \<open>auto simp: frames_of_def methods_kept_def\<close>)

subsection \<open>Closing a context\<close>

lemma close_frames_stack [simp]: "stack (close_frames c) = []"
  by (induction c rule: close_frames.induct) (subst close_frames.simps, simp)

lemma close_frames_kept:
  "frames (close_frames c) = frames c \<and> oplogs (close_frames c) = oplogs c \<and> request_step\<^sup>*\<^sup>* c (close_frames c)"
proof (induction c rule: close_frames.induct)
  case (1 c)
  show ?case
  proof (cases "stack c = []")
    case True
    then show ?thesis by (subst (1 2 3) close_frames.simps) simp
  next
    case False
    have "request_step\<^sup>*\<^sup>* c (close_frames (TraceOutMethod c))"
      using 1 [OF False] by (blast intro: converse_rtranclp_into_rtranclp request_step.trace_out)
    then show ?thesis using 1 [OF False] False by (subst (1 2 3) close_frames.simps) simp
  qed
qed

text \<open>What ending calls leaves as it was.\<close>

definition unchanged :: "('h, 'w, 'z) ContextBase \<Rightarrow> ('h, 'w, 'z) ContextBase \<Rightarrow> bool" where
  "unchanged c c' \<longleftrightarrow> DbTransaction c' = DbTransaction c \<and> OverrideDb c' = OverrideDb c \<and> MainDB c' = MainDB c \<and> Db c' = Db c \<and>
     context_id c' = context_id c \<and> context_name c' = context_name c \<and> origin c' = origin c \<and>
     oplogWriter c' = oplogWriter c \<and> oplogHandler c' = oplogHandler c \<and> errorAsWarn c' = errorAsWarn c"

lemma close_frames_unchanged: "unchanged c (close_frames c)"
proof (induction c rule: close_frames.induct)
  case (1 c)
  have "unchanged c (TraceOutMethod c)"
    by (simp add: unchanged_def TraceOutMethod_def write_log_def SetLoggerField_def UnsetLoggerField_def Let_def)
  then show ?case using 1 by (subst close_frames.simps) (auto simp: unchanged_def)
qed

lemma unchanged_DB: "unchanged c c' \<Longrightarrow> DB c' fm = DB c fm"
  by (simp add: unchanged_def DB_def cong: option.case_cong)

lemma unchanged_fill_oplog: "unchanged c c' \<Longrightarrow> fill_oplog c' i n x = fill_oplog c i n x"
  by (simp add: unchanged_def fill_oplog_def cong: option.case_cong)

lemma log_same: "\<exists>l. c = c\<lparr>log := l\<rparr>"
  by (rule exI [of _ "log c"]) simp

text \<open>What a controller of operation logs promises: of the context it changes the log only, and what it has written to the database of the context.\<close>

locale oplog_controller =
  fixes put :: "('h, 'w, 'z, 'd) oplog_write" and written :: "'h \<Rightarrow> 'd \<Rightarrow> 'z OplogBase_scheme list"
  assumes writes_log: "put w c x d = (r, c', d') \<Longrightarrow> \<exists>l. c' = c\<lparr>log := l\<rparr>"
    and stored: "put w c x d = (None, c', d') \<Longrightarrow> written (DB c []) d' = written (DB c []) d @ [x]"
    and not_stored: "put w c x d = (Some e, c', d') \<Longrightarrow> written (DB c []) d' = written (DB c []) d"
begin

lemma write_oplogs_frame: "\<exists>l. fst (write_oplogs put w new k xs (c, d)) = c\<lparr>log := l\<rparr>"
proof (induction xs arbitrary: k c d)
  case Nil
  show ?case by (simp add: log_same)
next
  case (Cons x xs)
  obtain e c1 d1 where w: "put w c (fill_oplog c (fst (new k)) (snd (new k)) x) d = (e, c1, d1)" by (metis prod_cases3)
  obtain l where "c1 = c\<lparr>log := l\<rparr>" using writes_log [OF w] by blast
  then show ?case using Cons.IH [of "Suc k" c1 d1] w by auto
qed

lemma Close_parts:
  assumes "Close put new sm (c, d) = (c', d')"
  shows "\<exists>l. c' = DumpLog sm ((close_frames c)\<lparr>oplogs := [], log := l\<rparr>)"
proof (cases "oplogs (close_frames c) = []")
  case True
  then have "(close_frames c)\<lparr>oplogs := [], log := log (close_frames c)\<rparr> = close_frames c" by simp
  moreover have "c' = DumpLog sm (close_frames c)" using assms True by (simp add: Close_def Let_def)
  ultimately show ?thesis by metis
next
  case False
  define r where "r = (case (case oplogWriter (close_frames c) of Some w \<Rightarrow> Some w | None \<Rightarrow> oplogHandler (close_frames c)) of
      None \<Rightarrow> (close_frames c, d) | Some w \<Rightarrow> write_oplogs put w new 0 (oplogs (close_frames c)) (close_frames c, d))"
  have "\<exists>l. fst r = (close_frames c)\<lparr>log := l\<rparr>"
    unfolding r_def by (auto split: option.split intro: write_oplogs_frame log_same)
  then obtain l where l: "fst r = (close_frames c)\<lparr>log := l\<rparr>" ..
  have "c' = DumpLog sm ((fst r)\<lparr>oplogs := []\<rparr>)"
    using assms False by (simp add: Close_def Let_def flip: r_def split: prod.splits)
  moreover have "(fst r)\<lparr>oplogs := []\<rparr> = (close_frames c)\<lparr>oplogs := [], log := l\<rparr>" using l by simp
  ultimately show ?thesis by metis
qed

end

lemma DumpLog_fields [simp]:
  "stack (DumpLog sm c) = stack c" "errorStack (DumpLog sm c) = None" "genericError (DumpLog sm c) = None" "oplogs (DumpLog sm c) = oplogs c"
  by (auto simp: DumpLog_def ClearError_def write_log_def Let_def split: option.split prod.split)

text \<open>The controller of the database over a table keeps the promise.\<close>

interpretation db_oplogs: oplog_controller "OplogControllerDb_Write (table_handlers oplog_ID cols upds) tn" "\<lambda>h s. s h"
  for cols :: "'z OplogBase_scheme \<Rightarrow> string \<Rightarrow> db_value option" and upds :: "db_Fields \<Rightarrow> 'z OplogBase_scheme \<Rightarrow> 'z OplogBase_scheme" and tn
  by unfold_locales (auto simp: OplogControllerDb_Write_def write_log_def Let_def split: if_splits intro: log_same)

lemma fill_oplog_ID [simp]: "oplog_ID (fill_oplog c i n x) = i"
  by (simp add: fill_oplog_def oplog_InitObject_def Let_def split: option.split)

lemma log_irrelevant:
  assumes "c1 = c\<lparr>log := l\<rparr>" shows "DB c1 fm = DB c fm" "fill_oplog c1 i n y = fill_oplog c i n y"
  using assms by (simp_all add: DB_def fill_oplog_def cong: option.case_cong)

text \<open>A table takes operation logs whose identifiers are new to it.\<close>

lemma written_all:
  assumes "inj_on (fst \<circ> new) {k..<k + length xs}" and "\<forall>x \<in> set (d (DB c [])). \<forall>j \<in> {k..<k + length xs}. oplog_ID x \<noteq> fst (new j)"
  shows "snd (write_oplogs (OplogControllerDb_Write (table_handlers oplog_ID cols upds) tn) w new k xs (c, d)) (DB c []) =
    d (DB c []) @ map (\<lambda>j. fill_oplog c (fst (new (k + j))) (snd (new (k + j))) (xs ! j)) [0..<length xs]"
  using assms
proof (induction xs arbitrary: k c d)
  case (Cons x xs)
  let ?put = "OplogControllerDb_Write (table_handlers oplog_ID cols upds) tn"
  let ?x = "fill_oplog c (fst (new k)) (snd (new k)) x"
  have "oplog_ID ?x \<notin> oplog_ID ` set (d (DB c []))" using Cons.prems(2) by force
  then obtain c1 d1 where w: "?put w c ?x d = (None, c1, d1)" by (auto simp: OplogControllerDb_Write_def Let_def)
  obtain l where l: "c1 = c\<lparr>log := l\<rparr>" using db_oplogs.writes_log [OF w] by blast
  note same = log_irrelevant [OF l]
  have st: "d1 (DB c []) = d (DB c []) @ [?x]" using db_oplogs.stored [OF w] .
  have fresh: "\<forall>y \<in> set (d1 (DB c [])). \<forall>j \<in> {Suc k..<Suc k + length xs}. oplog_ID y \<noteq> fst (new j)"
  proof (intro ballI)
    fix y j
    assume y: "y \<in> set (d1 (DB c []))" and j: "j \<in> {Suc k..<Suc k + length xs}"
    have "fst (new k) \<noteq> fst (new j)" using inj_onD [OF Cons.prems(1), of k j] j by auto
    then show "oplog_ID y \<noteq> fst (new j)" using y j st Cons.prems(2) by auto
  qed
  have "inj_on (fst \<circ> new) {Suc k..<Suc k + length xs}" using Cons.prems(1) by (rule inj_on_subset) auto
  from Cons.IH [OF this, of d1 c1] fresh
  show ?case using w st by (simp add: same upt_conv_Cons map_Suc_upt [symmetric] o_def del: upt_Suc)
qed simp

lemma fold_report_error: "snd (fold report_step (xs @ [x]) a) = (if call_error x \<noteq> None then call_error x else snd (fold report_step xs a))"
  by (cases "fold report_step xs a") (simp add: report_step_def)

lemma db_oplogs_writer: "oplog_controller (OplogControllerDb_Write (table_handlers oplog_ID cols upds) tn) (\<lambda>h s. s h)"
  by (rule db_oplogs.oplog_controller_axioms)

text \<open>C16: the first call of a request that ends with an error is the one that is reported. If a call ends with an error in its frame and no earlier one did, then after anything
  the request does next, short of clearing the error, closing the context writes an error record with the path of the stack as it was when the call failed, and with the
  error that the deepest frame of that stack has at the end.\<close>

theorem first_failure_is_reported:
  fixes c c1 :: "('h, 'w, 'z) ContextBase"
  assumes "frames_ok c" and "stack c \<noteq> []" and "call_error (frames c ! last (stack c)) \<noteq> None" and "errorStack c = None"
    and "request_step\<^sup>*\<^sup>* (TraceOutMethod c) c1" and "\<not> errorAsWarn c1"
    and "Close (OplogControllerDb_Write (table_handlers oplog_ID cols upds) tn) new sm (c1, d) = (c', d')"
  shows "\<exists>before l msg e. log c' = before @ emit l (LogError msg (Some (Error e))) [[(''stack'', VString (displayStackPath (frames_of c (stack c))))]] \<and>
    call_error (frames c1 ! last (stack c)) = Some e"
proof -
  let ?st = "stack c"
  let ?c0 = "close_frames c1"
  have snap: "errorStack (TraceOutMethod c) = Some ?st" and ok: "frames_ok (TraceOutMethod c)"
    using assms(1-4) request_step_ok [OF request_step.trace_out] by (simp_all add: errorStack_TraceOutMethod)
  have run: "request_step\<^sup>*\<^sup>* (TraceOutMethod c) ?c0" using assms(5) close_frames_kept [of c1] by (meson rtranclp_trans)
  from request_run [OF run ok snap] have fin: "frames_ok ?c0" "errorStack ?c0 = Some ?st" "methods_kept (TraceOutMethod c) ?c0" by auto
  then obtain e where e: "call_error (frames ?c0 ! last ?st) = Some e" by (auto simp: frames_ok_def)
  have path: "displayStackPath (frames_of ?c0 ?st) = displayStackPath (frames_of c ?st)"
    using display_kept [OF fin(3)] assms(1) by (simp add: frames_ok_def frames_of_def)
  have "frames_of ?c0 ?st = frames_of ?c0 (butlast ?st) @ [frames ?c0 ! last ?st]"
    using assms(2) append_butlast_last_id [of ?st] unfolding frames_of_def by (metis list.map(1,2) map_append)
  then have err: "snd (fold report_step (frames_of ?c0 ?st) ('''', None)) = Some e" by (simp only: fold_report_error) (simp add: e)
  obtain l where "c' = DumpLog sm (?c0\<lparr>oplogs := [], log := l\<rparr>)"
    using oplog_controller.Close_parts [OF db_oplogs_writer assms(7)] by blast
  then have "log c' = l @ emit (frame_logger (proxyLogger ?c0) (frames ?c0) (last ?st))
      (LogError (fst (fold report_step (frames_of ?c0 ?st) ('''', None))) (Some (Error e)))
      [[(''stack'', VString (displayStackPath (frames_of c ?st)))]]"
    using fin(2) assms(6) err path close_frames_unchanged [of c1, unfolded unchanged_def]
    by (simp add: DumpLog_def ClearError_def write_log_def frames_of_def split: prod.splits)
  then show ?thesis using e close_frames_kept [of c1] by auto
qed

text \<open>Closing a context leaves it clean, whatever the request did: no call, no error and no operation log is left, and all the operation logs of the request are in the
  database of the context, in order, filled with the identifier and the name of the context and with its origin, provided the database takes them.\<close>

theorem closed_context_is_clean:
  fixes c :: "('h, 'w, 'z) ContextBase"
  assumes "Close (OplogControllerDb_Write (table_handlers oplog_ID cols upds) tn) new sm (c, d) = (c', d')"
    and "oplogWriter c = None" and "oplogHandler c = Some w"
    and "inj (fst \<circ> new)" and "oplog_ID ` set (d (DB c [])) \<inter> range (fst \<circ> new) = {}"
  shows "stack c' = [] \<and> errorStack c' = None \<and> genericError c' = None \<and> oplogs c' = [] \<and>
    d' (DB c []) = d (DB c []) @ map (\<lambda>j. fill_oplog c (fst (new j)) (snd (new j)) (oplogs c ! j)) [0..<length (oplogs c)]"
proof -
  let ?c0 = "close_frames c"
  note same = unchanged_DB [OF close_frames_unchanged] unchanged_fill_oplog [OF close_frames_unchanged]
  have "inj_on (fst \<circ> new) {0..<0 + length (oplogs c)}" using assms(4) by (rule inj_on_subset) auto
  moreover have "\<forall>x \<in> set (d (DB ?c0 [])). \<forall>j \<in> {0..<0 + length (oplogs c)}. oplog_ID x \<noteq> fst (new j)"
    using assms(5) by (fastforce simp: same)
  ultimately have "snd (write_oplogs (OplogControllerDb_Write (table_handlers oplog_ID cols upds) tn) w new 0 (oplogs c) (?c0, d)) (DB c []) =
    d (DB c []) @ map (\<lambda>j. fill_oplog c (fst (new j)) (snd (new j)) (oplogs c ! j)) [0..<length (oplogs c)]"
    using written_all [of new 0 "oplogs c" d ?c0] by (simp add: same)
  then have "d' (DB c []) = d (DB c []) @ map (\<lambda>j. fill_oplog c (fst (new j)) (snd (new j)) (oplogs c ! j)) [0..<length (oplogs c)]"
    using assms(1-3) close_frames_kept [of c] close_frames_unchanged [of c, unfolded unchanged_def]
    by (auto simp: Close_def Let_def split: prod.splits if_splits)
  then show ?thesis using oplog_controller.Close_parts [OF db_oplogs_writer assms(1)] by auto
qed

subsection \<open>A request that fails\<close>

definition sample_app :: "bool App" where
  "sample_app = \<lparr>Application = ''app'', AppInstance = ''one'', Hostname = ''host'', App_Logger = Sink 0, App_Db = True\<rparr>"

definition sample_context :: "(bool, unit, unit) ContextBase" where
  "sample_context = SetErrorStr 0 ''no such row'' (snd (TraceInMethod ''Find'' [] (BackgroundOpContext ''1'' () sample_app ''job'')))"

definition sample_oplog :: OplogBase where
  "sample_oplog = \<lparr>oplog_ID = '''', oplog_CreatedAt = 0, oplog_UpdatedAt = 0, Operation = ''add'', oplog_Context = '''', ContextName = '''',
     OriginApp = '''', OriginName = '''', User = '''', OriginSource = '''', OriginClient = '''', UserType = ''''\<rparr>"

definition sample_new :: "nat \<Rightarrow> string \<times> int" where
  "sample_new n = (replicate n CHR ''a'', 0)"

lemmas sample_simps = sample_context_def sample_app_def BackgroundOpContext_def SetName_def Init_def TraceInMethod_def traceIn_def
  SetErrorStr_def SetError_def on_frame_def SetLoggerField_def write_log_def DefaultCallContextBuilder_def Let_def

lemma sample_context_state:
  "stack sample_context = [0]" "errorStack sample_context = None" "length (frames sample_context) = 1"
  "call_error (frames sample_context ! 0) = Some (Native ''no such row'')" "call_method (frames sample_context ! 0) = ''Find''"
  "frameworkFrame (frames sample_context ! 0) = False" "\<not> errorAsWarn sample_context"
  "oplogWriter sample_context = None" "oplogHandler sample_context = Some ()" "oplogs sample_context = []" "DB sample_context [] = True"
  by (simp_all add: sample_simps DB_def)

theorem first_failure_is_reported_witness:
  "\<exists>before l msg. log (fst (Close (OplogControllerDb_Write (table_handlers oplog_ID (\<lambda>x n. None) (\<lambda>m x. x)) ''OplogBase'') sample_new []
      (TraceOutMethod sample_context, \<lambda>h. []))) = before @ emit l (LogError msg (Some ''no such row'')) [[(''stack'', VString ''Find'')]]"
proof -
  let ?p = "OplogControllerDb_Write (table_handlers oplog_ID (\<lambda>x n. None) (\<lambda>m x. x)) ''OplogBase'' :: (bool, unit, unit, bool \<Rightarrow> OplogBase list) oplog_write"
  have ok: "frames_ok sample_context" by (simp add: frames_ok_def sample_context_state)
  have w: "\<not> errorAsWarn (TraceOutMethod sample_context)"
    by (simp add: TraceOutMethod_def write_log_def UnsetLoggerField_def SetLoggerField_def Let_def sample_context_state)
  have path: "displayStackPath (frames_of sample_context (stack sample_context)) = ''Find''"
    by (simp add: displayStackPath_def frames_of_def stackPath_def sample_context_state)
  have "\<exists>before l msg e. log (fst (Close ?p sample_new [] (TraceOutMethod sample_context, \<lambda>h. []))) =
      before @ emit l (LogError msg (Some (Error e))) [[(''stack'', VString (displayStackPath (frames_of sample_context (stack sample_context))))]] \<and>
      call_error (frames (TraceOutMethod sample_context) ! last (stack sample_context)) = Some e"
    by (rule first_failure_is_reported [OF ok _ _ _ rtranclp.rtrancl_refl w, where d = "\<lambda>h. []" and new = sample_new and sm = "[]"
        and cols = "\<lambda>x n. None" and upds = "\<lambda>m x. x" and tn = "''OplogBase''"
        and d' = "snd (Close ?p sample_new [] (TraceOutMethod sample_context, \<lambda>h. []))"])
       (simp_all add: sample_context_state)
  then show ?thesis unfolding path by (auto simp: sample_context_state)
qed

lemma sample_new_inj: "inj (fst \<circ> sample_new)"
  by (rule injI) (auto simp: sample_new_def dest: arg_cong [where f = length])

theorem closed_context_is_clean_witness:
  "oplogs (fst (Close (OplogControllerDb_Write (table_handlers oplog_ID (\<lambda>x n. None) (\<lambda>m x. x)) ''OplogBase'') sample_new []
      (Oplog sample_oplog sample_context, \<lambda>h. []))) = [] \<and>
   length (snd (Close (OplogControllerDb_Write (table_handlers oplog_ID (\<lambda>x n. None) (\<lambda>m x. x)) ''OplogBase'') sample_new []
      (Oplog sample_oplog sample_context, \<lambda>h. [])) True) = 1"
proof -
  let ?p = "OplogControllerDb_Write (table_handlers oplog_ID (\<lambda>x n. None) (\<lambda>m x. x)) ''OplogBase'' :: (bool, unit, unit, bool \<Rightarrow> OplogBase list) oplog_write"
  let ?c = "Oplog sample_oplog sample_context"
  let ?r = "Close ?p sample_new [] (?c, \<lambda>h. [])"
  have f: "oplogWriter ?c = None" "oplogHandler ?c = Some ()" "DB ?c [] = True" "oplogs ?c = [sample_oplog]"
    using sample_context_state(8-11) by (simp_all add: Oplog_def DB_def cong: option.case_cong)
  have "Close ?p sample_new [] (?c, \<lambda>h. []) = (fst ?r, snd ?r)" by simp
  from closed_context_is_clean [OF this f(1,2) sample_new_inj] show ?thesis by (simp add: f)
qed

end
