(* ===== verification/Pools.thy ===== *)
theory Pools
  imports OpContexts
begin

section \<open>Pools of services\<close>

text \<open>
  Models \<^verbatim>\<open>pkg/pool\<close>: pools, services and the associations that bind a service to a pool under a role (\<^verbatim>\<open>pool.go\<close>, \<^verbatim>\<open>pool_service.go\<close>,
  \<^verbatim>\<open>pool_service_association.go\<close>), the controller (\<^verbatim>\<open>pool_controller.go\<close>), the store of loaded pools (\<^verbatim>\<open>pool_store.go\<close>) and the connection to a
  database service (\<^verbatim>\<open>db_service.go\<close>). A call works on the pair of the context of the operation and the state of the database; the three tables are reached through three
  CRUD values over that state. Tracing of calls and logger fields, which \<open>OpContexts\<close> models, are left out here; the generic error and the operation log of the context are kept.
  Joins are a parameter: a function from the identifier that is asked for to the bindings.
\<close>

subsection \<open>Data\<close>

definition ErrorCodePoolNotFound :: string where "ErrorCodePoolNotFound = ''pool_not_found''"
definition ErrorCodeServiceNotFound :: string where "ErrorCodeServiceNotFound = ''service_not_found''"
definition ErrorCodePoolNameConflict :: string where "ErrorCodePoolNameConflict = ''pool_name_conflict''"
definition ErrorCodeServiceNameConflict :: string where "ErrorCodeServiceNameConflict = ''service_name_conflict''"
definition ErrorCodeServiceRoleConflict :: string where "ErrorCodeServiceRoleConflict = ''service_role_conflict''"
definition ErrorCodePoolServiceBindingsExist :: string where "ErrorCodePoolServiceBindingsExist = ''pool_service_bindings_exist''"
definition ErrorCodeNoServiceWithRole :: string where "ErrorCodeNoServiceWithRole = ''no_service_with_role''"
definition ErrorCodeInvalidServiceConfiguration :: string where "ErrorCodeInvalidServiceConfiguration = ''invalid_service_configuration''"
definition ErrorCodeServiceInitializationFailed :: string where "ErrorCodeServiceInitializationFailed = ''service_initialization_failed''"
definition ErrorCodePoolServiceBoundToPool :: string where "ErrorCodePoolServiceBoundToPool = ''service_bound_to_pool''"
definition ErrorCodeServiceNotActive :: string where "ErrorCodeServiceNotActive = ''service_not_active''"
definition ErrorCodeCreateServiceDatabaseFailed :: string where "ErrorCodeCreateServiceDatabaseFailed = ''create_service_database_failed''"

definition ErrorCodePoolNotActive :: string where "ErrorCodePoolNotActive = ''pool_not_active''"

definition ErrorDescriptions :: "(string, string) gomap" where
  "ErrorDescriptions =
     [(ErrorCodePoolNotFound, ''Pool not found''), (ErrorCodeServiceNotFound, ''Service not found''),
      (ErrorCodePoolNameConflict, ''Pool with such name already exists, choose another name''),
      (ErrorCodeServiceNameConflict, ''Service with such name already exists, choose another name''),
      (ErrorCodeServiceRoleConflict, ''Pool already has service for that role''),
      (ErrorCodePoolServiceBindingsExist, ''Can't delete pool with services. First, remove all services from the pool''),
      (ErrorCodePoolServiceBoundToPool, ''Can't delete service bound to pool. First, remove the services from all pools''),
      (ErrorCodeNoServiceWithRole, ''Pool does not include service with requested role''),
      (ErrorCodeInvalidServiceConfiguration, ''Invalid configuration of service in the pool''),
      (ErrorCodeServiceInitializationFailed, ''Failed to connect to service''),
      (ErrorCodeServiceNotActive, ''Service not active. First, activate corresponsing service''),
      (ErrorCodePoolNotActive, ''Pool not active. First, activate corresponsing pool''),
      (ErrorCodeCreateServiceDatabaseFailed, ''Failed to create database for pool service'')]"

definition ErrorHttpCodes :: "(string, int) gomap" where
  "ErrorHttpCodes =
     [(ErrorCodePoolNotFound, 404), (ErrorCodeServiceNotFound, 404), (ErrorCodeInvalidServiceConfiguration, 500),
      (ErrorCodeServiceInitializationFailed, 500), (ErrorCodeServiceNotActive, 500), (ErrorCodePoolNotActive, 500),
      (ErrorCodeCreateServiceDatabaseFailed, 500)]"

definition TypeDatabase :: string where "TypeDatabase = ''database''"

record PoolServiceBaseData =
  LONG_NAME :: string
  DESCRIPTION :: string
  ACTIVE :: bool
  TYPE_NAME :: string
  REF_ID :: string
  PROVIDER :: string
  PUBLIC_HOST :: string
  PUBLIC_PORT :: "16 word"
  PUBLIC_URL :: string
  PRIVATE_HOST :: string
  PRIVATE_PORT :: "16 word"
  PRIVATE_URL :: string
  USER :: string
  DB_NAME :: string
  PARAMETER1 :: string
  PARAMETER2 :: string
  PARAMETER3 :: string
  PARAMETER1_NAME :: string
  PARAMETER2_NAME :: string
  PARAMETER3_NAME :: string
  IP_ADDRESS :: string
  API_VERSION :: string
  PATH_PREFIX :: string
  SECRET1 :: string
  SECRET2 :: string

record PoolServiceBase = PoolServiceBaseData +
  Service_ID :: string
  Service_CREATED_AT :: int
  Service_UPDATED_AT :: int
  Service_NAME :: string

record PoolServiceAssociationBase =
  Association_ID :: string
  Association_CREATED_AT :: int
  Association_UPDATED_AT :: int
  POOL_ID :: string
  ROLE :: string
  SERVICE_ID :: string

record PoolServiceBinding = PoolServiceBaseData +
  Binding_ID :: string
  Binding_ROLE :: string
  PoolId :: string
  PoolName :: string
  ServiceId :: string
  ServiceName :: string

record PoolBaseEssentials =
  Pool_ID :: string
  Pool_CREATED_AT :: int
  Pool_UPDATED_AT :: int
  Pool_NAME :: string
  Pool_LONG_NAME :: string
  Pool_DESCRIPTION :: string
  Pool_ACTIVE :: bool

text \<open>The services of a pool are not stored with it: a row is without them.\<close>

record PoolBase = PoolBaseEssentials +
  Services :: "(string, PoolServiceBinding) gomap"

record OpLogPool = OplogBase +
  OpLog_PoolName :: string
  OpLog_PoolId :: string
  OpLog_ServiceName :: string
  OpLog_ServiceId :: string
  OpLog_Role :: string

definition PrivateHost :: "'z PoolServiceBaseData_scheme \<Rightarrow> string" where
  "PrivateHost s = (if PRIVATE_HOST s = '''' then IP_ADDRESS s else PRIVATE_HOST s)"

definition pool_InitObject :: "string \<Rightarrow> int \<Rightarrow> 'z PoolBaseEssentials_scheme \<Rightarrow> 'z PoolBaseEssentials_scheme" where
  "pool_InitObject newid now p = p\<lparr>Pool_ID := newid, Pool_CREATED_AT := now, Pool_UPDATED_AT := now\<rparr>"

definition service_InitObject :: "string \<Rightarrow> int \<Rightarrow> PoolServiceBase \<Rightarrow> PoolServiceBase" where
  "service_InitObject newid now s = s\<lparr>Service_ID := newid, Service_CREATED_AT := now, Service_UPDATED_AT := now\<rparr>"

definition Service :: "string \<Rightarrow> PoolBase \<Rightarrow> go_error + PoolServiceBinding" where
  "Service role p = (case map_of (Services p) role of None \<Rightarrow> Inl (Native ''service not found'') | Some s \<Rightarrow> Inr s)"

definition ServiceByName :: "string \<Rightarrow> PoolBase \<Rightarrow> go_error + PoolServiceBinding" where
  "ServiceByName name p =
     (case find (\<lambda>(r, s). ServiceName s = name) (Services p) of None \<Rightarrow> Inl (Native ''service not found'') | Some (r, s) \<Rightarrow> Inr s)"

definition SetServices :: "PoolServiceBinding list \<Rightarrow> PoolBaseEssentials \<Rightarrow> PoolBase" where
  "SetServices services p =
     PoolBaseEssentials.extend p \<lparr>Services = fold (\<lambda>s m. AList.update (Binding_ROLE s) s m) services []\<rparr>"

subsection \<open>The controller\<close>

record 's pool_cruds =
  pools_crud :: "('s, PoolBaseEssentials) CRUD"
  services_crud :: "('s, PoolServiceBase) CRUD"
  associations_crud :: "('s, PoolServiceAssociationBase) CRUD"
  join_pool :: "string \<Rightarrow> 's \<Rightarrow> string + PoolServiceBinding list"
  join_service :: "string \<Rightarrow> 's \<Rightarrow> string + PoolServiceBinding list"

type_synonym ('h, 'w, 's) pool_state = "('h, 'w, unit OpLogPool_ext) ContextBase \<times> 's"

definition set_code :: "string \<Rightarrow> ('h, 'w, 's) pool_state \<Rightarrow> ('h, 'w, 's) pool_state" where
  "set_code code s = (SetGenericErrorCode code [] (fst s), snd s)"

definition clear_error :: "('h, 'w, 's) pool_state \<Rightarrow> ('h, 'w, 's) pool_state" where
  "clear_error s = (ClearError (fst s), snd s)"

definition fieldName :: "bool list \<Rightarrow> string" where
  "fieldName idIsName = (if OptionalArg False idIsName then ''name'' else ''id'')"

definition no_oplog :: OpLogPool where
  "no_oplog = \<lparr>oplog_ID = '''', oplog_CreatedAt = 0, oplog_UpdatedAt = 0, Operation = '''', oplog_Context = '''', ContextName = '''',
     OriginApp = '''', OriginName = '''', User = '''', OriginSource = '''', OriginClient = '''', UserType = '''',
     OpLog_PoolName = '''', OpLog_PoolId = '''', OpLog_ServiceName = '''', OpLog_ServiceId = '''', OpLog_Role = ''''\<rparr>"

definition OpLog :: "string \<Rightarrow> OpLogPool \<Rightarrow> ('h, 'w, 's) pool_state \<Rightarrow> ('h, 'w, 's) pool_state" where
  "OpLog operation o' s = (Oplog (o'\<lparr>Operation := operation\<rparr>) (fst s), snd s)"

definition CheckPoolNameUnique :: "'s pool_cruds \<Rightarrow> db_value \<Rightarrow> ('h, 'w, 's) pool_state \<Rightarrow> go_error option \<times> ('h, 'w, 's) pool_state" where
  "CheckPoolNameUnique m name s =
     (case crud_Exists (pools_crud m) (Some (AddField ''name'' name NewFilter)) (snd s) of
        Inl e \<Rightarrow> (Some (Native e), s)
      | Inr ex \<Rightarrow> if ex then (Some (Native ''pool with desired name exists''), set_code ErrorCodePoolNameConflict s) else (None, s))"

definition AddPool ::
    "'s pool_cruds \<Rightarrow> string \<Rightarrow> int \<Rightarrow> PoolBaseEssentials \<Rightarrow> ('h, 'w, 's) pool_state \<Rightarrow> (go_error + PoolBaseEssentials) \<times> ('h, 'w, 's) pool_state" where
  "AddPool m newid now pool s =
     (case CheckPoolNameUnique m (VString (Pool_NAME pool)) s of
        (Some e, s1) \<Rightarrow> (Inl e, s1)
      | (None, s1) \<Rightarrow>
          let p = pool_InitObject newid now pool in
          (case crud_Create (pools_crud m) p (snd s1) of
             (Some e, d) \<Rightarrow> (Inl (Native e), (fst s1, d))
           | (None, d) \<Rightarrow> (Inr p, OpLog ''add_pool'' (no_oplog\<lparr>OpLog_PoolId := Pool_ID p, OpLog_PoolName := Pool_NAME p\<rparr>) (fst s1, d))))"

definition FindPool ::
    "'s pool_cruds \<Rightarrow> string \<Rightarrow> bool list \<Rightarrow> ('h, 'w, 's) pool_state \<Rightarrow> (go_error + PoolBaseEssentials option) \<times> ('h, 'w, 's) pool_state" where
  "FindPool m i idIsName s =
     (case FindByField (pools_crud m) (fieldName idIsName) (VString i) (snd s) of
        Inl e \<Rightarrow> (Inl (Native e), s)
      | Inr None \<Rightarrow> (Inr None, set_code ErrorCodePoolNotFound s)
      | Inr (Some p) \<Rightarrow> (Inr (Some p), s))"

definition IsFieldSet :: "db_Fields \<Rightarrow> string \<Rightarrow> bool" where
  "IsFieldSet f key \<longleftrightarrow> map_of f key \<noteq> None"

definition CheckIfActivate :: "db_Fields \<Rightarrow> bool \<times> string \<times> bool" where
  "CheckIfActivate fs =
     (if IsFieldSet fs ''active'' then
        (case map_of fs ''active'' of
           Some (VBool b) \<Rightarrow> (True, if b then ''activate'' else ''deactivate'', length fs > 1)
         | _ \<Rightarrow> (False, '''', True))
      else (False, '''', True))"

text \<open>The entries that an update writes to the operation log; pools use the fields of services there.\<close>

definition log_update :: "string \<Rightarrow> db_Fields \<Rightarrow> string \<Rightarrow> string \<Rightarrow> ('h, 'w, 's) pool_state \<Rightarrow> ('h, 'w, 's) pool_state" where
  "log_update what fs i name s =
     (case CheckIfActivate fs of (hasActivate, activateOp, hasOther) \<Rightarrow>
        let o' = no_oplog\<lparr>OpLog_ServiceId := i, OpLog_ServiceName := name\<rparr>;
            s1 = (if hasActivate then OpLog (activateOp @ ''_'' @ what) o' s else s)
        in if hasOther then OpLog (''update_'' @ what) o' s1 else s1)"

definition UpdatePool ::
    "'s pool_cruds \<Rightarrow> string \<Rightarrow> db_Fields \<Rightarrow> bool list \<Rightarrow> ('h, 'w, 's) pool_state \<Rightarrow> (go_error + PoolBaseEssentials) \<times> ('h, 'w, 's) pool_state" where
  "UpdatePool m i fs idIsName s =
     (case (case map_of fs ''name'' of None \<Rightarrow> (None, s) | Some name \<Rightarrow> CheckPoolNameUnique m name s) of
        (Some e, s1) \<Rightarrow> (Inl e, s1)
      | (None, s1) \<Rightarrow>
          (case FindUpdate (pools_crud m) (fieldName idIsName) (VString i) fs (snd s1) of
             (Inl e, d) \<Rightarrow> (Inl (Native e), (fst s1, d))
           | (Inr None, d) \<Rightarrow> (Inl (Native ''pool not found''), set_code ErrorCodePoolNotFound (fst s1, d))
           | (Inr (Some obj), d) \<Rightarrow>
               (case FindPool m (Pool_ID obj) [] (log_update ''pool'' fs (Pool_ID obj) (Pool_NAME obj) (fst s1, d)) of
                  (Inl e, s2) \<Rightarrow> (Inl e, s2)
                | (Inr None, s2) \<Rightarrow> (Inl (Native ''pool not found''), set_code ErrorCodePoolNotFound s2)
                | (Inr (Some p), s2) \<Rightarrow> (Inr p, s2))))"

text \<open>The identifier of a pool or service given by identifier or name; an unknown name gives the empty one.\<close>

definition PoolId_of :: "'s pool_cruds \<Rightarrow> string \<Rightarrow> bool list \<Rightarrow> ('h, 'w, 's) pool_state \<Rightarrow> (go_error + string) \<times> ('h, 'w, 's) pool_state" where
  "PoolId_of m i idIsName s =
     (if \<not> OptionalArg False idIsName then (Inr i, s)
      else case FindPool m i [True] s of
        (Inl e, s1) \<Rightarrow> (Inl e, s1)
      | (Inr None, s1) \<Rightarrow> (Inr '''', s1)
      | (Inr (Some p), s1) \<Rightarrow> (Inr (Pool_ID p), s1))"

definition DeletePool :: "'s pool_cruds \<Rightarrow> string \<Rightarrow> bool list \<Rightarrow> ('h, 'w, 's) pool_state \<Rightarrow> go_error option \<times> ('h, 'w, 's) pool_state" where
  "DeletePool m i idIsName s =
     (case PoolId_of m i idIsName s of
        (Inl e, s1) \<Rightarrow> (Some e, s1)
      | (Inr poolId, s1) \<Rightarrow>
          if poolId = '''' then (None, clear_error s1)
          else (case crud_Exists (associations_crud m) (Some (AddField ''pool_id'' (VString poolId) NewFilter)) (snd s1) of
             Inl e \<Rightarrow> (Some (Native e), s1)
           | Inr ex \<Rightarrow>
               if ex then (Some (Native ''can not delete pool with services, remove all service bindings first''),
                 set_code ErrorCodePoolServiceBindingsExist s1)
               else (case Delete (pools_crud m) ''id'' (VString poolId) (snd s1) of
                 (Some e, d) \<Rightarrow> (Some (Native e), (fst s1, d))
               | (None, d) \<Rightarrow> (None, OpLog ''delete_pool''
                   (no_oplog\<lparr>OpLog_PoolId := poolId, OpLog_PoolName := (if OptionalArg False idIsName then i else '''')\<rparr>) (fst s1, d)))))"

definition GetPools :: "'s pool_cruds \<Rightarrow> Filter option \<Rightarrow> 's \<Rightarrow> go_error + int \<times> PoolBaseEssentials list" where
  "GetPools m filt d = (case List (pools_crud m) filt d of Inl e \<Rightarrow> Inl (Native e) | Inr r \<Rightarrow> Inr r)"

definition CheckServiceNameUnique :: "'s pool_cruds \<Rightarrow> db_value \<Rightarrow> ('h, 'w, 's) pool_state \<Rightarrow> go_error option \<times> ('h, 'w, 's) pool_state" where
  "CheckServiceNameUnique m name s =
     (case crud_Exists (services_crud m) (Some (AddField ''name'' name NewFilter)) (snd s) of
        Inl e \<Rightarrow> (Some (Native e), s)
      | Inr ex \<Rightarrow> if ex then (Some (Native ''service with such name exists''), set_code ErrorCodeServiceNameConflict s) else (None, s))"

definition AddService ::
    "'s pool_cruds \<Rightarrow> string \<Rightarrow> int \<Rightarrow> PoolServiceBase \<Rightarrow> ('h, 'w, 's) pool_state \<Rightarrow> (go_error + PoolServiceBase) \<times> ('h, 'w, 's) pool_state" where
  "AddService m newid now service s =
     (case CheckServiceNameUnique m (VString (Service_NAME service)) s of
        (Some e, s1) \<Rightarrow> (Inl e, s1)
      | (None, s1) \<Rightarrow>
          let p = service_InitObject newid now service in
          (case crud_Create (services_crud m) p (snd s1) of
             (Some e, d) \<Rightarrow> (Inl (Native e), (fst s1, d))
           | (None, d) \<Rightarrow> (Inr p, OpLog ''add_service'' (no_oplog\<lparr>OpLog_ServiceId := Service_ID p, OpLog_ServiceName := Service_NAME p\<rparr>) (fst s1, d))))"

definition FindService ::
    "'s pool_cruds \<Rightarrow> string \<Rightarrow> bool list \<Rightarrow> ('h, 'w, 's) pool_state \<Rightarrow> (go_error + PoolServiceBase option) \<times> ('h, 'w, 's) pool_state" where
  "FindService m i idIsName s =
     (case FindByField (services_crud m) (fieldName idIsName) (VString i) (snd s) of
        Inl e \<Rightarrow> (Inl (Native e), s)
      | Inr None \<Rightarrow> (Inr None, set_code ErrorCodeServiceNotFound s)
      | Inr (Some p) \<Rightarrow> (Inr (Some p), s))"

definition UpdateService ::
    "'s pool_cruds \<Rightarrow> string \<Rightarrow> db_Fields \<Rightarrow> bool list \<Rightarrow> ('h, 'w, 's) pool_state \<Rightarrow> (go_error + PoolServiceBase) \<times> ('h, 'w, 's) pool_state" where
  "UpdateService m i fs idIsName s =
     (case (case map_of fs ''name'' of None \<Rightarrow> (None, s) | Some name \<Rightarrow> CheckServiceNameUnique m name s) of
        (Some e, s1) \<Rightarrow> (Inl e, s1)
      | (None, s1) \<Rightarrow>
          (case FindUpdate (services_crud m) (fieldName idIsName) (VString i) fs (snd s1) of
             (Inl e, d) \<Rightarrow> (Inl (Native e), (fst s1, d))
           | (Inr None, d) \<Rightarrow> (Inl (Native ''service not found''), set_code ErrorCodeServiceNotFound (fst s1, d))
           | (Inr (Some obj), d) \<Rightarrow>
               (case FindService m (Service_ID obj) [] (log_update ''service'' fs (Service_ID obj) (Service_NAME obj) (fst s1, d)) of
                  (Inl e, s2) \<Rightarrow> (Inl e, s2)
                | (Inr None, s2) \<Rightarrow> (Inl (Native ''service not found''), set_code ErrorCodeServiceNotFound s2)
                | (Inr (Some p), s2) \<Rightarrow> (Inr p, s2))))"

definition ServiceId_of :: "'s pool_cruds \<Rightarrow> string \<Rightarrow> bool list \<Rightarrow> ('h, 'w, 's) pool_state \<Rightarrow> (go_error + string) \<times> ('h, 'w, 's) pool_state" where
  "ServiceId_of m i idIsName s =
     (if \<not> OptionalArg False idIsName then (Inr i, s)
      else case FindService m i [True] s of
        (Inl e, s1) \<Rightarrow> (Inl e, s1)
      | (Inr None, s1) \<Rightarrow> (Inr '''', s1)
      | (Inr (Some p), s1) \<Rightarrow> (Inr (Service_ID p), s1))"

definition DeleteService :: "'s pool_cruds \<Rightarrow> string \<Rightarrow> bool list \<Rightarrow> ('h, 'w, 's) pool_state \<Rightarrow> go_error option \<times> ('h, 'w, 's) pool_state" where
  "DeleteService m i idIsName s =
     (case ServiceId_of m i idIsName s of
        (Inl e, s1) \<Rightarrow> (Some e, s1)
      | (Inr serviceId, s1) \<Rightarrow>
          if serviceId = '''' then (None, clear_error s1)
          else (case crud_Exists (associations_crud m) (Some (AddField ''service_id'' (VString serviceId) NewFilter)) (snd s1) of
             Inl e \<Rightarrow> (Some (Native e), s1)
           | Inr ex \<Rightarrow>
               if ex then (Some (Native ''can not delete service bound to pools, remove all service bindings first''),
                 set_code ErrorCodePoolServiceBoundToPool s1)
               else (case Delete (services_crud m) ''id'' (VString serviceId) (snd s1) of
                 (Some e, d) \<Rightarrow> (Some (Native e), (fst s1, d))
               | (None, d) \<Rightarrow> (None, OpLog ''delete_service''
                   (no_oplog\<lparr>OpLog_ServiceId := serviceId, OpLog_ServiceName := (if OptionalArg False idIsName then i else '''')\<rparr>) (fst s1, d)))))"

definition GetServices :: "'s pool_cruds \<Rightarrow> Filter option \<Rightarrow> 's \<Rightarrow> go_error + int \<times> PoolServiceBase list" where
  "GetServices m filt d = (case List (services_crud m) filt d of Inl e \<Rightarrow> Inl (Native e) | Inr r \<Rightarrow> Inr r)"

subsection \<open>Bindings\<close>

definition AddServiceToPool ::
    "'s pool_cruds \<Rightarrow> string \<Rightarrow> int \<Rightarrow> string \<Rightarrow> string \<Rightarrow> string \<Rightarrow> bool list \<Rightarrow> ('h, 'w, 's) pool_state \<Rightarrow> go_error option \<times> ('h, 'w, 's) pool_state" where
  "AddServiceToPool m newid now poolId serviceId role idIsName s =
     (case FindPool m poolId idIsName s of
        (Inl e, s1) \<Rightarrow> (Some e, s1)
      | (Inr None, s1) \<Rightarrow> (Some (Native ''pool not found''), s1)
      | (Inr (Some pool), s1) \<Rightarrow>
          (case FindService m serviceId idIsName s1 of
             (Inl e, s2) \<Rightarrow> (Some e, s2)
           | (Inr None, s2) \<Rightarrow> (Some (Native ''unknown service''), s2)
           | (Inr (Some service), s2) \<Rightarrow>
               (case crud_Exists (associations_crud m)
                       (Some (AddField ''role'' (VString role) (AddField ''pool_id'' (VString (Pool_ID pool)) NewFilter))) (snd s2) of
                  Inl e \<Rightarrow> (Some (Native e), s2)
                | Inr ex \<Rightarrow>
                    if ex then (Some (Native ''pool already has service with such role''), set_code ErrorCodeServiceRoleConflict s2)
                    else (case crud_Create (associations_crud m)
                            \<lparr>Association_ID = newid, Association_CREATED_AT = now, Association_UPDATED_AT = now,
                             POOL_ID = Pool_ID pool, ROLE = role, SERVICE_ID = Service_ID service\<rparr> (snd s2) of
                       (Some e, d) \<Rightarrow> (Some (Native e), (fst s2, d))
                     | (None, d) \<Rightarrow> (None, OpLog ''add_service_to_pool''
                         (no_oplog\<lparr>OpLog_ServiceId := Service_ID service, OpLog_ServiceName := Service_NAME service,
                           OpLog_PoolId := Pool_ID pool, OpLog_PoolName := Pool_NAME pool, OpLog_Role := role\<rparr>) (fst s2, d))))))"

definition RemoveServiceFromPool ::
    "'s pool_cruds \<Rightarrow> string \<Rightarrow> string \<Rightarrow> bool list \<Rightarrow> ('h, 'w, 's) pool_state \<Rightarrow> go_error option \<times> ('h, 'w, 's) pool_state" where
  "RemoveServiceFromPool m i role idIsName s =
     (case PoolId_of m i idIsName s of
        (Inl e, s1) \<Rightarrow> (Some e, s1)
      | (Inr poolId, s1) \<Rightarrow>
          if poolId = '''' then (None, clear_error s1)
          else (case crud_Read (associations_crud m) [(''pool_id'', VString poolId), (''role'', VString role)] (snd s1) of
             Inl e \<Rightarrow> (Some (Native e), s1)
           | Inr None \<Rightarrow> (None, s1)
           | Inr (Some a) \<Rightarrow>
               (case crud_Delete (associations_crud m) a (snd s1) of
                  (Some e, d) \<Rightarrow> (Some (Native e), (fst s1, d))
                | (None, d) \<Rightarrow> (None, OpLog ''remove_service_from_pool''
                    (no_oplog\<lparr>OpLog_PoolId := poolId, OpLog_Role := role, OpLog_PoolName := (if OptionalArg False idIsName then i else '''')\<rparr>) (fst s1, d)))))"

definition RemoveAllServicesFromPool ::
    "'s pool_cruds \<Rightarrow> string \<Rightarrow> bool list \<Rightarrow> ('h, 'w, 's) pool_state \<Rightarrow> go_error option \<times> ('h, 'w, 's) pool_state" where
  "RemoveAllServicesFromPool m i idIsName s =
     (case PoolId_of m i idIsName s of
        (Inl e, s1) \<Rightarrow> (Some e, s1)
      | (Inr poolId, s1) \<Rightarrow>
          if poolId = '''' then (None, clear_error s1)
          else (case crud_DeleteByFields (associations_crud m) [(''pool_id'', VString poolId)] (snd s1) of
             (Some e, d) \<Rightarrow> (Some (Native e), (fst s1, d))
           | (None, d) \<Rightarrow> (None, OpLog ''remove_all_services_from_pool''
               (no_oplog\<lparr>OpLog_PoolId := poolId, OpLog_PoolName := (if OptionalArg False idIsName then i else '''')\<rparr>) (fst s1, d))))"

definition RemoveServiceFromAllPools ::
    "'s pool_cruds \<Rightarrow> string \<Rightarrow> bool list \<Rightarrow> ('h, 'w, 's) pool_state \<Rightarrow> go_error option \<times> ('h, 'w, 's) pool_state" where
  "RemoveServiceFromAllPools m i idIsName s =
     (case ServiceId_of m i idIsName s of
        (Inl e, s1) \<Rightarrow> (Some e, s1)
      | (Inr serviceId, s1) \<Rightarrow>
          if serviceId = '''' then (None, clear_error s1)
          else (case crud_DeleteByFields (associations_crud m) [(''service_id'', VString serviceId)] (snd s1) of
             (Some e, d) \<Rightarrow> (Some (Native e), (fst s1, d))
           | (None, d) \<Rightarrow> (None, OpLog ''remove_service_from_all_pools''
               (no_oplog\<lparr>OpLog_ServiceId := serviceId, OpLog_ServiceName := (if OptionalArg False idIsName then i else '''')\<rparr>) (fst s1, d))))"

definition GetPoolBindings ::
    "'s pool_cruds \<Rightarrow> string \<Rightarrow> bool list \<Rightarrow> ('h, 'w, 's) pool_state \<Rightarrow> (go_error + PoolServiceBinding list) \<times> ('h, 'w, 's) pool_state" where
  "GetPoolBindings m i idIsName s =
     (case PoolId_of m i idIsName s of
        (Inl e, s1) \<Rightarrow> (Inl e, s1)
      | (Inr poolId, s1) \<Rightarrow>
          if poolId = '''' then (Inr [], clear_error s1)
          else (case join_pool m poolId (snd s1) of Inl e \<Rightarrow> (Inl (Native e), s1) | Inr bs \<Rightarrow> (Inr bs, s1)))"

definition GetServiceBindings ::
    "'s pool_cruds \<Rightarrow> string \<Rightarrow> bool list \<Rightarrow> ('h, 'w, 's) pool_state \<Rightarrow> (go_error + PoolServiceBinding list) \<times> ('h, 'w, 's) pool_state" where
  "GetServiceBindings m i idIsName s =
     (case ServiceId_of m i idIsName s of
        (Inl e, s1) \<Rightarrow> (Inl e, s1)
      | (Inr serviceId, s1) \<Rightarrow>
          if serviceId = '''' then (Inr [], clear_error s1)
          else (case join_service m serviceId (snd s1) of Inl e \<Rightarrow> (Inl (Native e), s1) | Inr bs \<Rightarrow> (Inr bs, s1)))"

definition LoadPool :: "'s pool_cruds \<Rightarrow> string \<Rightarrow> bool list \<Rightarrow> ('h, 'w, 's) pool_state \<Rightarrow> (go_error + PoolBase option) \<times> ('h, 'w, 's) pool_state" where
  "LoadPool m i idIsName s =
     (case FindPool m i idIsName s of
        (Inl e, s1) \<Rightarrow> (Inl e, s1)
      | (Inr None, s1) \<Rightarrow> (Inr None, s1)
      | (Inr (Some pool), s1) \<Rightarrow>
          (case GetPoolBindings m (Pool_ID pool) [] s1 of
             (Inl e, s2) \<Rightarrow> (Inl e, s2)
           | (Inr services, s2) \<Rightarrow> (Inr (Some (SetServices services pool)), s2)))"

definition ActivatePool ::
    "'s pool_cruds \<Rightarrow> string \<Rightarrow> bool list \<Rightarrow> ('h, 'w, 's) pool_state \<Rightarrow> (go_error + PoolBaseEssentials) \<times> ('h, 'w, 's) pool_state" where
  "ActivatePool m i idIsName s = UpdatePool m i [(''active'', VBool True)] idIsName s"

definition DeactivatePool ::
    "'s pool_cruds \<Rightarrow> string \<Rightarrow> bool list \<Rightarrow> ('h, 'w, 's) pool_state \<Rightarrow> (go_error + PoolBaseEssentials) \<times> ('h, 'w, 's) pool_state" where
  "DeactivatePool m i idIsName s = UpdatePool m i [(''active'', VBool False)] idIsName s"

definition ActivateService ::
    "'s pool_cruds \<Rightarrow> string \<Rightarrow> bool list \<Rightarrow> ('h, 'w, 's) pool_state \<Rightarrow> (go_error + PoolServiceBase) \<times> ('h, 'w, 's) pool_state" where
  "ActivateService m i idIsName s = UpdateService m i [(''active'', VBool True)] idIsName s"

definition DeactivateService ::
    "'s pool_cruds \<Rightarrow> string \<Rightarrow> bool list \<Rightarrow> ('h, 'w, 's) pool_state \<Rightarrow> (go_error + PoolServiceBase) \<times> ('h, 'w, 's) pool_state" where
  "DeactivateService m i idIsName s = UpdateService m i [(''active'', VBool False)] idIsName s"

subsection \<open>The store of loaded pools\<close>

text \<open>The maps hold pointers to the same pools; pools are not changed once they are in the store, so values are enough. The configuration is given as loaded.\<close>

record PoolStoreBase =
  ENABLE_POOLS :: bool
  POOL_NAME :: string
  selfPool :: "PoolBase option"
  poolsByName :: "(string, PoolBase) gomap"
  poolsById :: "(string, PoolBase) gomap"

definition NewPoolStore :: PoolStoreBase where
  "NewPoolStore = \<lparr>ENABLE_POOLS = False, POOL_NAME = '''', selfPool = None, poolsByName = [], poolsById = []\<rparr>"

definition put_pool :: "PoolBase \<Rightarrow> PoolStoreBase \<Rightarrow> PoolStoreBase" where
  "put_pool p st = st\<lparr>poolsById := AList.update (Pool_ID p) p (poolsById st), poolsByName := AList.update (Pool_NAME p) p (poolsByName st)\<rparr>"

definition loadServices :: "'s pool_cruds \<Rightarrow> PoolBaseEssentials \<Rightarrow> ('h, 'w, 's) pool_state \<Rightarrow> (go_error + PoolBase) \<times> ('h, 'w, 's) pool_state" where
  "loadServices m pool s =
     (case GetPoolBindings m (Pool_ID pool) [] s of
        (Inl e, s1) \<Rightarrow> (Inl e, s1)
      | (Inr services, s1) \<Rightarrow> (Inr (SetServices services pool), s1))"

fun load_pools ::
    "'s pool_cruds \<Rightarrow> PoolBaseEssentials list \<Rightarrow> PoolStoreBase \<Rightarrow> ('h, 'w, 's) pool_state \<Rightarrow> go_error option \<times> PoolStoreBase \<times> ('h, 'w, 's) pool_state" where
  "load_pools m [] st s = (None, st, s)"
| "load_pools m (pool # pools) st s =
     (case loadServices m pool s of
        (Inl e, s1) \<Rightarrow> (Some e, st, s1)
      | (Inr p, s1) \<Rightarrow> load_pools m pools (put_pool p st) s1)"

definition Store_Init ::
    "'s pool_cruds \<Rightarrow> (string + bool \<times> string) \<Rightarrow> PoolStoreBase \<Rightarrow> ('h, 'w, 's) pool_state \<Rightarrow> go_error option \<times> PoolStoreBase \<times> ('h, 'w, 's) pool_state" where
  "Store_Init m loaded st0 s =
     (case loaded of
        Inl e \<Rightarrow> (Some (Native e), st0, s)
      | Inr (enable, name) \<Rightarrow>
          let st = st0\<lparr>ENABLE_POOLS := enable, POOL_NAME := name\<rparr> in
          if \<not> ENABLE_POOLS st then (None, st, s)
          else if POOL_NAME st = '''' then
            (case GetPools m None (snd s) of
               Inl e \<Rightarrow> (Some e, st, s)
             | Inr (n, pools) \<Rightarrow> load_pools m pools st s)
          else
            (case FindPool m (POOL_NAME st) [True] s of
               (Inl e, s1) \<Rightarrow> (Some e, st, s1)
             | (Inr None, s1) \<Rightarrow> (Some (Native ''self pool not found''), st, s1)
             | (Inr (Some pool), s1) \<Rightarrow>
                 (case loadServices m pool s1 of
                    (Inl e, s2) \<Rightarrow> (Some e, st, s2)
                  | (Inr p, s2) \<Rightarrow> (None, (put_pool p st)\<lparr>selfPool := Some p\<rparr>, s2))))"

definition SelfPool :: "PoolStoreBase \<Rightarrow> go_error + PoolBase" where
  "SelfPool st = (case selfPool st of None \<Rightarrow> Inl (Native ''self pool undefined'') | Some p \<Rightarrow> Inr p)"

definition SelfPoolService :: "string \<Rightarrow> PoolStoreBase \<Rightarrow> go_error + PoolServiceBinding" where
  "SelfPoolService role st = (case SelfPool st of Inl e \<Rightarrow> Inl e | Inr p \<Rightarrow> Service role p)"

definition SelfPoolServiceByName :: "string \<Rightarrow> PoolStoreBase \<Rightarrow> go_error + PoolServiceBinding" where
  "SelfPoolServiceByName name st = (case SelfPool st of Inl e \<Rightarrow> Inl e | Inr p \<Rightarrow> ServiceByName name p)"

definition Store_Pool :: "string \<Rightarrow> PoolStoreBase \<Rightarrow> go_error + PoolBase" where
  "Store_Pool i st = (case map_of (poolsById st) i of None \<Rightarrow> Inl (Native ''pool not found'') | Some p \<Rightarrow> Inr p)"

definition PoolByName :: "string \<Rightarrow> PoolStoreBase \<Rightarrow> go_error + PoolBase" where
  "PoolByName name st = (case map_of (poolsByName st) name of None \<Rightarrow> Inl (Native ''pool not found'') | Some p \<Rightarrow> Inr p)"

definition Store_Pools :: "PoolStoreBase \<Rightarrow> PoolBase list" where
  "Store_Pools st = map snd (poolsById st)"

definition Store_FindPool :: "string \<Rightarrow> PoolStoreBase \<Rightarrow> go_error + PoolBase" where
  "Store_FindPool i st = (case Store_Pool i st of Inr p \<Rightarrow> Inr p | Inl e \<Rightarrow> PoolByName i st)"

definition SelfPoolName :: "PoolStoreBase \<Rightarrow> string" where
  "SelfPoolName st = (case SelfPool st of Inl e \<Rightarrow> '''' | Inr p \<Rightarrow> Pool_NAME p)"

definition SelfPoolId :: "PoolStoreBase \<Rightarrow> string" where
  "SelfPoolId st = (case SelfPool st of Inl e \<Rightarrow> '''' | Inr p \<Rightarrow> Pool_ID p)"

subsection \<open>Database services\<close>

record DBConfig =
  DB_PROVIDER :: string
  DB_HOST :: string
  DB_PORT :: "16 word"
  Config_DB_NAME :: string
  DB_USER :: string
  DB_PASSWORD :: string
  DB_EXTRA_CONFIG :: string
  DB_DSN :: string

definition ParseDbService :: "'z PoolServiceBaseData_scheme \<Rightarrow> go_error + DBConfig" where
  "ParseDbService s =
     (if TYPE_NAME s \<noteq> TypeDatabase then Inl (Native ''invalid service type'')
      else Inr \<lparr>DB_PROVIDER = PROVIDER s, DB_HOST = PrivateHost s, DB_PORT = PRIVATE_PORT s, Config_DB_NAME = DB_NAME s, DB_USER = USER s,
        DB_PASSWORD = SECRET1 s, DB_EXTRA_CONFIG = PARAMETER1 s, DB_DSN = PRIVATE_URL s\<rparr>)"

text \<open>Connections: a new one is made of a configuration, which may fail; a database is created through one.\<close>

record ('k, 'e) connections =
  InitWithConfig :: "DBConfig \<Rightarrow> 'e \<Rightarrow> (string + 'k) \<times> 'e"
  CreateDatabase :: "'k \<Rightarrow> string \<Rightarrow> 'e \<Rightarrow> string option \<times> 'e"
  CloseDatabase :: "'k \<Rightarrow> 'e \<Rightarrow> 'e"

fun SetDetails :: "string \<Rightarrow> go_error \<Rightarrow> go_error" where
  "SetDetails details (ErrorBase code message old family disposition retryAfter original) =
     ErrorBase code message details family disposition retryAfter original"
| "SetDetails details (Native s) = Native s"

definition refuse_service :: "go_error \<Rightarrow> ('h, 'w, 'z) ContextBase \<Rightarrow> 'e \<Rightarrow> (go_error + 'k) \<times> ('h, 'w, 'z) ContextBase \<times> 'e" where
  "refuse_service e c w = (Inl e, SetGenericError (Some e) [] c, w)"

definition connect_service ::
    "('k, 'e) connections \<Rightarrow> string \<Rightarrow> DBConfig \<Rightarrow> ('h, 'w, 'z) ContextBase \<Rightarrow> 'e \<Rightarrow> (go_error + 'k) \<times> ('h, 'w, 'z) ContextBase \<times> 'e" where
  "connect_service env serviceName dbConfig c w =
     (case InitWithConfig env dbConfig w of
        (Inl e, w1) \<Rightarrow> refuse_service (SetDetails serviceName
          (NewFromOriginal ErrorCodeServiceInitializationFailed ''Failed to connect to database'' (Some (Native e)))) c w1
      | (Inr k, w1) \<Rightarrow> (Inr k, c, w1))"

definition ConnectDatabaseService ::
    "('k, 'e) connections \<Rightarrow> PoolBase \<Rightarrow> string \<Rightarrow> string \<Rightarrow> bool list \<Rightarrow> ('h, 'w, 'z) ContextBase \<Rightarrow> 'e \<Rightarrow> (go_error + 'k) \<times> ('h, 'w, 'z) ContextBase \<times> 'e" where
  "ConnectDatabaseService env pool role dbName newDb c w =
     (case Service role pool of
        Inl e \<Rightarrow> refuse_service (SetDetails role (NewFromOriginal ErrorCodeNoServiceWithRole ''Pool does not include service for database role'' (Some e))) c w
      | Inr dbService \<Rightarrow>
          if \<not> ACTIVE dbService then refuse_service (New ErrorCodeServiceNotActive [''Service for database in the pool is not active'']) c w
          else (case ParseDbService dbService of
             Inl e \<Rightarrow> refuse_service (SetDetails (ServiceName dbService)
               (NewFromOriginal ErrorCodeInvalidServiceConfiguration ''Invalid configuration of service for database'' (Some e))) c w
           | Inr dbConfig \<Rightarrow>
               let name = OptionalString (DB_NAME dbService) [dbName];
                   connect = connect_service env (ServiceName dbService) (dbConfig\<lparr>Config_DB_NAME := name\<rparr>) c
               in if OptionalArg False newDb \<and> Config_DB_NAME dbConfig \<noteq> '''' then
                    (case InitWithConfig env dbConfig w of
                       (Inl e, w1) \<Rightarrow> refuse_service (SetDetails (ServiceName dbService)
                         (NewFromOriginal ErrorCodeServiceInitializationFailed ''Failed to connect to master database'' (Some (Native e)))) c w1
                     | (Inr master, w1) \<Rightarrow>
                         (case CreateDatabase env master name w1 of
                            (Some e, w2) \<Rightarrow> refuse_service (SetDetails name
                              (NewFromOriginal ErrorCodeCreateServiceDatabaseFailed ''Failed to create database'' (Some (Native e)))) c (CloseDatabase env master w2)
                          | (None, w2) \<Rightarrow> connect (CloseDatabase env master w2)))
                  else connect w))"

text \<open>What the connections promise: \<open>conns\<close> are the open ones.\<close>

locale db_connections =
  fixes env :: "('k, 'e) connections" and conns :: "'e \<Rightarrow> 'k set"
  assumes opened: "InitWithConfig env cfg w = (Inr k, w') \<Longrightarrow> k \<notin> conns w \<and> conns w' = insert k (conns w)"
    and not_opened: "InitWithConfig env cfg w = (Inl e, w') \<Longrightarrow> conns w' = conns w"
    and created: "CreateDatabase env k name w = (r, w') \<Longrightarrow> conns w' = conns w"
    and closed: "conns (CloseDatabase env k w) = conns w - {k}"
begin

lemma connect_service_conns:
  assumes "connect_service env sn cfg c w = (r, c', w')"
  shows "case r of Inl e \<Rightarrow> conns w' = conns w | Inr k \<Rightarrow> k \<notin> conns w \<and> conns w' = insert k (conns w)"
  using assms by (auto simp: connect_service_def refuse_service_def split: sum.splits prod.splits dest: opened not_opened)

lemma master_conns:
  assumes "InitWithConfig env cfg w = (Inr k, w1)" and "CreateDatabase env k name w1 = (r, w2)"
  shows "conns (CloseDatabase env k w2) = conns w"
  using opened [OF assms(1)] created [OF assms(2)] closed by auto

lemma connect_conns:
  assumes "ConnectDatabaseService env pool role dbName newDb c w = (r, c', w')"
  shows "case r of Inl e \<Rightarrow> conns w' = conns w | Inr k \<Rightarrow> k \<notin> conns w \<and> conns w' = insert k (conns w)"
proof (cases "Service role pool")
  case (Inl e)
  then show ?thesis using assms by (auto simp: ConnectDatabaseService_def refuse_service_def)
next
  case svc: (Inr s)
  show ?thesis
  proof (cases "ACTIVE s \<and> ParseDbService s \<noteq> Inl (Native ''invalid service type'')")
    case False
    then show ?thesis using assms svc by (auto simp: ConnectDatabaseService_def ParseDbService_def refuse_service_def split: if_splits)
  next
    case True
    then obtain cfg where cfg: "ParseDbService s = Inr cfg" by (auto simp: ParseDbService_def split: if_splits)
    let ?name = "OptionalString (DB_NAME s) [dbName]"
    let ?connect = "connect_service env (ServiceName s) (cfg\<lparr>Config_DB_NAME := ?name\<rparr>) c"
    show ?thesis
    proof (cases "OptionalArg False newDb \<and> Config_DB_NAME cfg \<noteq> ''''")
      case False
      then have "?connect w = (r, c', w')" using assms svc True cfg by (auto simp: ConnectDatabaseService_def Let_def)
      then show ?thesis by (rule connect_service_conns)
    next
      case new: True
      obtain q w1 where o: "InitWithConfig env cfg w = (q, w1)" by (cases "InitWithConfig env cfg w")
      show ?thesis
      proof (cases q)
        case (Inl e)
        then show ?thesis using assms svc True cfg new o not_opened by (auto simp: ConnectDatabaseService_def Let_def refuse_service_def)
      next
        case (Inr k)
        obtain f w2 where f: "CreateDatabase env k ?name w1 = (f, w2)" by (cases "CreateDatabase env k ?name w1")
        note m = master_conns [OF o [unfolded Inr] f]
        show ?thesis
        proof (cases f)
          case None
          then have "?connect (CloseDatabase env k w2) = (r, c', w')"
            using assms svc True cfg new o Inr f by (simp add: ConnectDatabaseService_def Let_def)
          from connect_service_conns [OF this] show ?thesis unfolding m .
        next
          case (Some e)
          then show ?thesis using assms svc True cfg new o Inr f m by (auto simp: ConnectDatabaseService_def Let_def refuse_service_def)
        qed
      qed
    qed
  qed
qed

end

text \<open>Connections in memory: numbered, refused for the hosts in a list; the databases that exist are kept too.\<close>

definition memory_connections :: "string list \<Rightarrow> (nat, (nat \<times> DBConfig) list \<times> nat \<times> string list) connections" where
  "memory_connections bad =
     \<lparr>InitWithConfig = \<lambda>cfg (l, n, dbs). if DB_HOST cfg \<in> set bad then (Inl ''refused'', l, n, dbs)
         else (Inr (Suc (fold max (map fst l) n)), (Suc (fold max (map fst l) n), cfg) # l, Suc (fold max (map fst l) n), dbs),
      CreateDatabase = \<lambda>k name (l, n, dbs). if name \<in> set dbs then (Some ''exists'', l, n, dbs) else (None, l, n, name # dbs),
      CloseDatabase = \<lambda>k (l, n, dbs). (filter (\<lambda>x. fst x \<noteq> k) l, n, dbs)\<rparr>"

lemma fold_max_le: "(n::nat) \<le> fold max zs n \<and> (\<forall>x \<in> set zs. x \<le> fold max zs n)"
proof (induction zs arbitrary: n)
  case (Cons z zs)
  from Cons [of "max z n"] show ?case by auto
qed simp

lemma fold_max_fresh: "(Suc (fold max (map fst xs) n), y) \<notin> set xs"
proof
  assume "(Suc (fold max (map fst xs) n), y) \<in> set xs"
  then have "Suc (fold max (map fst xs) n) \<in> set (map fst xs)" by force
  then show False using fold_max_le [of n "map fst xs"] by fastforce
qed

interpretation memory: db_connections "memory_connections bad" "\<lambda>(l, n, dbs). fst ` set l" for bad
  by unfold_locales
     (auto simp: memory_connections_def image_iff fold_max_fresh split: prod.splits if_splits)

text \<open>Every code has a description, so the context never answers with the bare code.\<close>

lemma pool_errors_described:
  "set (map fst ErrorHttpCodes) \<subseteq> set (map fst ErrorDescriptions)" "gomap_wf ErrorDescriptions" "gomap_wf ErrorHttpCodes"
  by (code_simp, code_simp, code_simp)

end
