(* ===== verification/PoolCalls.thy ===== *)
theory PoolCalls
  imports Pools
begin

section \<open>Sequences of calls on pools\<close>

text \<open>
  What any sequence of calls of the pool controller keeps: names are unique, a role of a pool has one service, and no association points to a pool or service that is not
  there. The calls are those of \<open>Pools\<close>; the locale \<open>pool_tables\<close> states what they rely on from the CRUD, and it is interpreted on the CRUD of a database
  whose tables are lists of rows. Calls follow one another; the unique indices of the database, which guard against interleaved calls, are not used.
\<close>

subsection \<open>Tables\<close>

definition pool_col :: "PoolBaseEssentials \<Rightarrow> string \<Rightarrow> db_value option" where
  "pool_col p n =
     (if n = ''id'' then Some (VString (Pool_ID p)) else if n = ''name'' then Some (VString (Pool_NAME p))
      else if n = ''active'' then Some (VBool (Pool_ACTIVE p)) else if n = ''long_name'' then Some (VString (Pool_LONG_NAME p))
      else if n = ''description'' then Some (VString (Pool_DESCRIPTION p)) else if n = ''created_at'' then Some (VTime (Pool_CREATED_AT p))
      else if n = ''updated_at'' then Some (VTime (Pool_UPDATED_AT p)) else None)"

definition service_col :: "PoolServiceBase \<Rightarrow> string \<Rightarrow> db_value option" where
  "service_col s n =
     (if n = ''id'' then Some (VString (Service_ID s)) else if n = ''name'' then Some (VString (Service_NAME s))
      else if n = ''active'' then Some (VBool (ACTIVE s)) else if n = ''type_name'' then Some (VString (TYPE_NAME s))
      else if n = ''provider'' then Some (VString (PROVIDER s)) else None)"

definition association_col :: "PoolServiceAssociationBase \<Rightarrow> string \<Rightarrow> db_value option" where
  "association_col a n =
     (if n = ''id'' then Some (VString (Association_ID a)) else if n = ''pool_id'' then Some (VString (POOL_ID a))
      else if n = ''role'' then Some (VString (ROLE a)) else if n = ''service_id'' then Some (VString (SERVICE_ID a)) else None)"

definition set_pool :: "db_Fields \<Rightarrow> PoolBaseEssentials \<Rightarrow> PoolBaseEssentials" where
  "set_pool fs p = p\<lparr>Pool_ID := string_field fs ''id'' (Pool_ID p), Pool_NAME := string_field fs ''name'' (Pool_NAME p),
     Pool_LONG_NAME := string_field fs ''long_name'' (Pool_LONG_NAME p), Pool_DESCRIPTION := string_field fs ''description'' (Pool_DESCRIPTION p),
     Pool_ACTIVE := bool_field fs ''active'' (Pool_ACTIVE p), Pool_UPDATED_AT := time_field fs ''updated_at'' (Pool_UPDATED_AT p)\<rparr>"

definition set_service :: "db_Fields \<Rightarrow> PoolServiceBase \<Rightarrow> PoolServiceBase" where
  "set_service fs s = s\<lparr>Service_ID := string_field fs ''id'' (Service_ID s), Service_NAME := string_field fs ''name'' (Service_NAME s),
     TYPE_NAME := string_field fs ''type_name'' (TYPE_NAME s), PROVIDER := string_field fs ''provider'' (PROVIDER s),
     ACTIVE := bool_field fs ''active'' (ACTIVE s), Service_UPDATED_AT := time_field fs ''updated_at'' (Service_UPDATED_AT s)\<rparr>"

definition binding :: "PoolBaseEssentials \<Rightarrow> PoolServiceBase \<Rightarrow> PoolServiceAssociationBase \<Rightarrow> PoolServiceBinding" where
  "binding p s a = PoolServiceBaseData.extend (PoolServiceBaseData.truncate s)
     \<lparr>Binding_ID = Association_ID a, Binding_ROLE = ROLE a, PoolId = Pool_ID p, PoolName = Pool_NAME p,
      ServiceId = Service_ID s, ServiceName = Service_NAME s\<rparr>"

subsection \<open>What the calls rely on\<close>

definition crud_keeps :: "('s, 'o) CRUD \<Rightarrow> ('s \<Rightarrow> 'r) \<Rightarrow> bool" where
  "crud_keeps crud f \<longleftrightarrow> (\<forall>x fs s. f (snd (crud_Create crud x s)) = f s \<and> f (snd (crud_Update crud x fs s)) = f s \<and>
     f (snd (crud_Delete crud x s)) = f s \<and> f (snd (crud_DeleteByFields crud fs s)) = f s)"

definition pools_consistent :: "PoolBaseEssentials set \<Rightarrow> PoolServiceBase set \<Rightarrow> PoolServiceAssociationBase set \<Rightarrow> bool" where
  "pools_consistent P S A \<longleftrightarrow> inj_on Pool_ID P \<and> inj_on Pool_NAME P \<and> inj_on Service_ID S \<and> inj_on Service_NAME S \<and>
     inj_on (\<lambda>a. (POOL_ID a, ROLE a)) A \<and> POOL_ID ` A \<subseteq> Pool_ID ` P \<and> SERVICE_ID ` A \<subseteq> Service_ID ` S"

text \<open>The calls that change something, with any arguments; updates do not set the identifier.\<close>

inductive pool_call :: "'s pool_cruds \<Rightarrow> ('h, 'w, 's) pool_state \<Rightarrow> ('h, 'w, 's) pool_state \<Rightarrow> bool" for m where
  add_pool: "AddPool m newid now p s = (r, s') \<Longrightarrow> pool_call m s s'"
| update_pool: "UpdatePool m i fs idIsName s = (r, s') \<Longrightarrow> map_of fs ''id'' = None \<Longrightarrow> pool_call m s s'"
| delete_pool: "DeletePool m i idIsName s = (e, s') \<Longrightarrow> pool_call m s s'"
| add_service: "AddService m newid now p' s = (r', s') \<Longrightarrow> pool_call m s s'"
| update_service: "UpdateService m i fs idIsName s = (r', s') \<Longrightarrow> map_of fs ''id'' = None \<Longrightarrow> pool_call m s s'"
| delete_service: "DeleteService m i idIsName s = (e, s') \<Longrightarrow> pool_call m s s'"
| bind: "AddServiceToPool m newid now poolId serviceId role idIsName s = (e, s') \<Longrightarrow> pool_call m s s'"
| unbind: "RemoveServiceFromPool m i role idIsName s = (e, s') \<Longrightarrow> pool_call m s s'"
| unbind_pool: "RemoveAllServicesFromPool m i idIsName s = (e, s') \<Longrightarrow> pool_call m s s'"
| unbind_service: "RemoveServiceFromAllPools m i idIsName s = (e, s') \<Longrightarrow> pool_call m s s'"
| load: "LoadPool m i idIsName s = (q, s') \<Longrightarrow> pool_call m s s'"

locale pool_tables =
  pt: crud_table "pools_crud m" pools Pool_ID pool_col pupd +
  st: crud_table "services_crud m" services Service_ID service_col supd +
  bt: crud_table "associations_crud m" assocs Association_ID association_col aupd
  for m :: "'s pool_cruds" and pools and services and assocs and pupd and supd and aupd +
  assumes pool_kept: "crud_keeps (pools_crud m) services" "crud_keeps (pools_crud m) assocs"
    and service_kept: "crud_keeps (services_crud m) pools" "crud_keeps (services_crud m) assocs"
    and assoc_kept: "crud_keeps (associations_crud m) pools" "crud_keeps (associations_crud m) services"
    and pupd_id: "map_of fs ''id'' = None \<Longrightarrow> Pool_ID (pupd fs p) = Pool_ID p"
    and pupd_name: "Pool_NAME (pupd fs p) = Pool_NAME p \<or> map_of fs ''name'' = Some (VString (Pool_NAME (pupd fs p)))"
    and supd_id: "map_of fs ''id'' = None \<Longrightarrow> Service_ID (supd fs s) = Service_ID s"
    and supd_name: "Service_NAME (supd fs s) = Service_NAME s \<or> map_of fs ''name'' = Some (VString (Service_NAME (supd fs s)))"
    and joined: "join_pool m i d = Inr bs \<Longrightarrow>
      set bs = {b. \<exists>p \<in> pools d. \<exists>s \<in> services d. \<exists>a \<in> assocs d. Pool_ID p = i \<and> POOL_ID a = i \<and> SERVICE_ID a = Service_ID s \<and> b = binding p s a}"

subsection \<open>Helpers\<close>

lemma set_code_db [simp]: "snd (set_code code s) = snd s"
  by (simp add: set_code_def)

lemma clear_error_db [simp]: "snd (clear_error s) = snd s"
  by (simp add: clear_error_def)

lemma OpLog_db [simp]: "snd (OpLog operation o' s) = snd s"
  by (simp add: OpLog_def)

lemma log_update_db [simp]: "snd (log_update what fs i name s) = snd s"
  by (simp add: log_update_def Let_def split: prod.split)

lemma AddField_filter: "AddField n v NewFilter = fields_only [(n, v)]"
  by (simp add: AddField_def fields_only_def NewFilter_def empty_filter_def no_config_def FilterConfig.defs)

lemma AddField_filter2: "n \<noteq> k \<Longrightarrow> AddField n v (fields_only [(k, w)]) = fields_only [(k, w), (n, v)]"
  by (simp add: AddField_def fields_only_def)

lemma keeps_Create: "crud_keeps crud f \<Longrightarrow> crud_Create crud x s = (e, s') \<Longrightarrow> f s' = f s"
  by (metis crud_keeps_def snd_conv)

lemma keeps_DeleteByFields: "crud_keeps crud f \<Longrightarrow> crud_DeleteByFields crud fs s = (e, s') \<Longrightarrow> f s' = f s"
  by (metis crud_keeps_def snd_conv)

lemma keeps_crud_Delete: "crud_keeps crud f \<Longrightarrow> crud_Delete crud x s = (e, s') \<Longrightarrow> f s' = f s"
  by (metis crud_keeps_def snd_conv)

lemma keeps_Delete: "crud_keeps crud f \<Longrightarrow> Delete crud n v s = (e, s') \<Longrightarrow> f s' = f s"
  by (auto simp: Delete_def crud_keeps_def split: sum.splits option.splits) (metis snd_conv)

lemma keeps_FindUpdate: "crud_keeps crud f \<Longrightarrow> FindUpdate crud n v fs s = (r, s') \<Longrightarrow> f s' = f s"
  by (auto simp: FindUpdate_def Update_def crud_keeps_def split: sum.splits option.splits prod.splits) (metis snd_conv)+

text \<open>Rows with unique keys stay so when one of them is changed and its key is its own or new.\<close>

lemma changed_row:
  assumes "inj_on ident A" "x \<in> A"
  shows "(\<lambda>y. if ident y = ident x then f y else y) ` A = insert (f x) (A - {x})"
proof -
  have "(\<lambda>y. if ident y = ident x then f y else y) ` A = (\<lambda>y. if y = x then f y else y) ` A"
    by (rule image_cong) (use assms in \<open>auto dest: inj_onD\<close>)
  also have "\<dots> = insert (f x) (A - {x})" using assms(2) by (auto simp: image_iff)
  finally show ?thesis .
qed

lemma changed_key:
  assumes "inj_on key A" "x \<in> A" "key z = key x \<or> key z \<notin> key ` A"
  shows "inj_on key (insert z (A - {x}))"
proof -
  have "key z \<notin> key ` (A - {x})" using assms by (auto dest: inj_onD)
  moreover have "inj_on key (A - {x})" using assms(1) by (rule inj_on_subset) auto
  ultimately show ?thesis by (auto simp: inj_on_insert)
qed

subsection \<open>The specification of the tables\<close>

text \<open>What one call may do to the rows: add a pool or service with a name and identifier of its own, change one and leave its identifier, take one that is not bound
  away, bind a service that is there to a pool that is there under a free role, or take bindings away.\<close>

type_synonym pool_rows = "PoolBaseEssentials set \<times> PoolServiceBase set \<times> PoolServiceAssociationBase set"

inductive rows_step :: "pool_rows \<Rightarrow> pool_rows \<Rightarrow> bool" where
  stay: "rows_step t t"
| pool_new: "Pool_ID x \<notin> Pool_ID ` P \<Longrightarrow> Pool_NAME x \<notin> Pool_NAME ` P \<Longrightarrow> rows_step (P, S, A) (insert x P, S, A)"
| pool_change: "x \<in> P \<Longrightarrow> Pool_ID z = Pool_ID x \<Longrightarrow> Pool_NAME z = Pool_NAME x \<or> Pool_NAME z \<notin> Pool_NAME ` P \<Longrightarrow>
    rows_step (P, S, A) (insert z (P - {x}), S, A)"
| pool_gone: "x \<in> P \<Longrightarrow> Pool_ID x \<notin> POOL_ID ` A \<Longrightarrow> rows_step (P, S, A) (P - {x}, S, A)"
| service_new: "Service_ID y \<notin> Service_ID ` S \<Longrightarrow> Service_NAME y \<notin> Service_NAME ` S \<Longrightarrow> rows_step (P, S, A) (P, insert y S, A)"
| service_change: "y \<in> S \<Longrightarrow> Service_ID w = Service_ID y \<Longrightarrow> Service_NAME w = Service_NAME y \<or> Service_NAME w \<notin> Service_NAME ` S \<Longrightarrow>
    rows_step (P, S, A) (P, insert w (S - {y}), A)"
| service_gone: "y \<in> S \<Longrightarrow> Service_ID y \<notin> SERVICE_ID ` A \<Longrightarrow> rows_step (P, S, A) (P, S - {y}, A)"
| bind_role: "POOL_ID a \<in> Pool_ID ` P \<Longrightarrow> SERVICE_ID a \<in> Service_ID ` S \<Longrightarrow> (POOL_ID a, ROLE a) \<notin> (\<lambda>a. (POOL_ID a, ROLE a)) ` A \<Longrightarrow>
    rows_step (P, S, A) (P, S, insert a A)"
| unbind_roles: "A' \<subseteq> A \<Longrightarrow> rows_step (P, S, A) (P, S, A')"

lemma changed_ids: "x \<in> P \<Longrightarrow> f z = f x \<Longrightarrow> f ` insert z (P - {x}) = f ` P"
  by auto

lemma gone_ids: "B \<subseteq> f ` P \<Longrightarrow> f x \<notin> B \<Longrightarrow> B \<subseteq> f ` (P - {x})"
  by auto

lemma rows_step_consistent:
  assumes "rows_step t t'" "case t of (P, S, A) \<Rightarrow> pools_consistent P S A"
  shows "case t' of (P, S, A) \<Rightarrow> pools_consistent P S A"
  using assms
proof cases
  case (pool_change x P z S A)
  then show ?thesis using assms(2) by (simp add: pools_consistent_def changed_key changed_ids del: image_insert inj_on_insert)
next
  case (service_change y S w P A)
  then show ?thesis using assms(2) by (simp add: pools_consistent_def changed_key changed_ids del: image_insert inj_on_insert)
next
  case (pool_gone x P A S)
  then show ?thesis using assms(2) by (auto simp: pools_consistent_def gone_ids inj_on_diff)
next
  case (service_gone y S A P)
  then show ?thesis using assms(2) by (auto simp: pools_consistent_def gone_ids inj_on_diff)
next
  case (unbind_roles A' A P S)
  have "POOL_ID ` A' \<subseteq> POOL_ID ` A" "SERVICE_ID ` A' \<subseteq> SERVICE_ID ` A" using unbind_roles(3) by auto
  then show ?thesis using unbind_roles assms(2) by (simp add: pools_consistent_def) (meson inj_on_subset order_trans)
qed (auto simp: pools_consistent_def)

subsection \<open>Calls follow the specification\<close>

context pool_tables
begin

lemma check_pool:
  assumes "CheckPoolNameUnique m v s = (e, s1)"
  shows "snd s1 = snd s \<and> (e = None \<longrightarrow> (\<forall>p \<in> pools (snd s). VString (Pool_NAME p) \<noteq> v))"
proof (cases "crud_Exists (pools_crud m) (Some (fields_only [(''name'', v)])) (snd s)")
  case (Inl er)
  then show ?thesis using assms by (auto simp: CheckPoolNameUnique_def AddField_filter)
next
  case (Inr b)
  then show ?thesis using assms pt.exists [OF Inr]
    by (auto simp: CheckPoolNameUnique_def AddField_filter has_fields_def pool_col_def split: if_splits)
qed

lemma check_service:
  assumes "CheckServiceNameUnique m v s = (e, s1)"
  shows "snd s1 = snd s \<and> (e = None \<longrightarrow> (\<forall>p \<in> services (snd s). VString (Service_NAME p) \<noteq> v))"
proof (cases "crud_Exists (services_crud m) (Some (fields_only [(''name'', v)])) (snd s)")
  case (Inl er)
  then show ?thesis using assms by (auto simp: CheckServiceNameUnique_def AddField_filter)
next
  case (Inr b)
  then show ?thesis using assms st.exists [OF Inr]
    by (auto simp: CheckServiceNameUnique_def AddField_filter has_fields_def service_col_def split: if_splits)
qed

lemma find_pool:
  assumes "FindPool m i n s = (r, s1)" shows "snd s1 = snd s" "r = Inr (Some p) \<Longrightarrow> p \<in> pools (snd s)"
  using assms by (auto simp: FindPool_def split: sum.splits option.splits dest: pt.find_some)

lemma find_service:
  assumes "FindService m i n s = (r, s1)" shows "snd s1 = snd s" "r = Inr (Some p) \<Longrightarrow> p \<in> services (snd s)"
  using assms by (auto simp: FindService_def split: sum.splits option.splits dest: st.find_some)

lemma pool_id: "PoolId_of m i n s = (r, s1) \<Longrightarrow> snd s1 = snd s"
  by (auto simp: PoolId_of_def split: if_splits sum.splits option.splits prod.splits dest: find_pool)

lemma service_id: "ServiceId_of m i n s = (r, s1) \<Longrightarrow> snd s1 = snd s"
  by (auto simp: ServiceId_of_def split: if_splits sum.splits option.splits prod.splits dest: find_service)

text \<open>The rows of the three tables in a state.\<close>

abbreviation rows_of :: "'s \<Rightarrow> pool_rows" where
  "rows_of d \<equiv> (pools d, services d, assocs d)"

lemma add_pool_step:
  assumes "AddPool m newid now p s = (r, s')" shows "rows_step (rows_of (snd s)) (rows_of (snd s'))"
proof -
  obtain e s1 where c: "CheckPoolNameUnique m (VString (Pool_NAME p)) s = (e, s1)" by (cases "CheckPoolNameUnique m (VString (Pool_NAME p)) s")
  note c' = check_pool [OF c]
  show ?thesis
  proof (cases e)
    case (Some er)
    then show ?thesis using assms c c' by (auto simp: AddPool_def intro: stay)
  next
    case None
    let ?x = "pool_InitObject newid now p"
    obtain f d where f: "crud_Create (pools_crud m) ?x (snd s1) = (f, d)" by (cases "crud_Create (pools_crud m) ?x (snd s1)")
    have "snd s' = d" using assms c None f by (auto simp: AddPool_def Let_def split: option.splits)
    moreover have "services d = services (snd s)" "assocs d = assocs (snd s)" using keeps_Create [OF _ f] pool_kept c' by auto
    moreover have "Pool_NAME ?x \<notin> Pool_NAME ` pools (snd s)" using c' None by (auto simp: pool_InitObject_def)
    ultimately show ?thesis using pt.create_rows [OF f] c' by (auto intro: stay pool_new)
  qed
qed

end

context pool_tables
begin

lemma add_service_step:
  assumes "AddService m newid now p s = (r, s')" shows "rows_step (rows_of (snd s)) (rows_of (snd s'))"
proof -
  obtain e s1 where c: "CheckServiceNameUnique m (VString (Service_NAME p)) s = (e, s1)" by (cases "CheckServiceNameUnique m (VString (Service_NAME p)) s")
  note c' = check_service [OF c]
  show ?thesis
  proof (cases e)
    case (Some er)
    then show ?thesis using assms c c' by (auto simp: AddService_def intro: stay)
  next
    case None
    let ?x = "service_InitObject newid now p"
    obtain f d where f: "crud_Create (services_crud m) ?x (snd s1) = (f, d)" by (cases "crud_Create (services_crud m) ?x (snd s1)")
    have "snd s' = d" using assms c None f by (auto simp: AddService_def Let_def split: option.splits)
    moreover have "pools d = pools (snd s)" "assocs d = assocs (snd s)" using keeps_Create [OF _ f] service_kept c' by auto
    moreover have "Service_NAME ?x \<notin> Service_NAME ` services (snd s)" using c' None by (auto simp: service_InitObject_def)
    ultimately show ?thesis using st.create_rows [OF f] c' by (auto intro: stay service_new)
  qed
qed

text \<open>An update changes one row, whose name is its own or one that the check has found free.\<close>

lemma update_pool_rows:
  assumes "FindUpdate (pools_crud m) n v fs d = (r, d')" and "map_of fs ''id'' = None" and "inj_on Pool_ID (pools d)"
    and "\<forall>name. map_of fs ''name'' = Some name \<longrightarrow> (\<forall>p \<in> pools d. VString (Pool_NAME p) \<noteq> name)"
  shows "rows_step (rows_of d) (rows_of d')"
proof -
  have k: "services d' = services d" "assocs d' = assocs d" using keeps_FindUpdate [OF _ assms(1)] pool_kept by auto
  from pt.update_rows [OF assms(1)] show ?thesis
  proof (elim disjE bexE conjE)
    fix x assume x: "x \<in> pools d" and p: "pools d' = (\<lambda>y. if Pool_ID y = Pool_ID x then pupd fs y else y) ` pools d"
    have "Pool_NAME (pupd fs x) = Pool_NAME x \<or> Pool_NAME (pupd fs x) \<notin> Pool_NAME ` pools d"
      using pupd_name [of fs x] assms(4) by fastforce
    moreover have "pools d' = insert (pupd fs x) (pools d - {x})" unfolding p by (rule changed_row [OF assms(3) x])
    ultimately show ?thesis using x k pupd_id [OF assms(2)] by (simp add: pool_change)
  qed (simp add: k stay)
qed

lemma update_service_rows:
  assumes "FindUpdate (services_crud m) n v fs d = (r, d')" and "map_of fs ''id'' = None" and "inj_on Service_ID (services d)"
    and "\<forall>name. map_of fs ''name'' = Some name \<longrightarrow> (\<forall>p \<in> services d. VString (Service_NAME p) \<noteq> name)"
  shows "rows_step (rows_of d) (rows_of d')"
proof -
  have k: "pools d' = pools d" "assocs d' = assocs d" using keeps_FindUpdate [OF _ assms(1)] service_kept by auto
  from st.update_rows [OF assms(1)] show ?thesis
  proof (elim disjE bexE conjE)
    fix x assume x: "x \<in> services d" and p: "services d' = (\<lambda>y. if Service_ID y = Service_ID x then supd fs y else y) ` services d"
    have "Service_NAME (supd fs x) = Service_NAME x \<or> Service_NAME (supd fs x) \<notin> Service_NAME ` services d"
      using supd_name [of fs x] assms(4) by fastforce
    moreover have "services d' = insert (supd fs x) (services d - {x})" unfolding p by (rule changed_row [OF assms(3) x])
    ultimately show ?thesis using x k supd_id [OF assms(2)] by (simp add: service_change)
  qed (simp add: k stay)
qed

lemma update_pool_step:
  assumes "UpdatePool m i fs n s = (r, s')" and "map_of fs ''id'' = None" and "inj_on Pool_ID (pools (snd s))"
  shows "rows_step (rows_of (snd s)) (rows_of (snd s'))"
proof -
  define q where "q = (case map_of fs ''name'' of None \<Rightarrow> (None, s) | Some name \<Rightarrow> CheckPoolNameUnique m name s)"
  obtain e s1 where q: "q = (e, s1)" by (cases q)
  have s1: "snd s1 = snd s" and free: "e = None \<Longrightarrow> map_of fs ''name'' = Some name \<Longrightarrow> \<forall>p \<in> pools (snd s). VString (Pool_NAME p) \<noteq> name" for name
    using q by (auto simp: q_def split: option.splits dest!: check_pool)
  show ?thesis
  proof (cases e)
    case (Some er)
    then show ?thesis using assms(1) q s1 by (auto simp: UpdatePool_def q_def [symmetric] intro: stay)
  next
    case None
    obtain u d where u: "FindUpdate (pools_crud m) (fieldName n) (VString i) fs (snd s1) = (u, d)"
      by (cases "FindUpdate (pools_crud m) (fieldName n) (VString i) fs (snd s1)")
    have "snd s' = d" using assms(1) q None u
      by (auto simp: UpdatePool_def q_def [symmetric] split: sum.splits option.splits prod.splits dest: find_pool)
    then show ?thesis using update_pool_rows [OF u assms(2)] assms(3) s1 free [OF None] by simp
  qed
qed

lemma update_service_step:
  assumes "UpdateService m i fs n s = (r, s')" and "map_of fs ''id'' = None" and "inj_on Service_ID (services (snd s))"
  shows "rows_step (rows_of (snd s)) (rows_of (snd s'))"
proof -
  define q where "q = (case map_of fs ''name'' of None \<Rightarrow> (None, s) | Some name \<Rightarrow> CheckServiceNameUnique m name s)"
  obtain e s1 where q: "q = (e, s1)" by (cases q)
  have s1: "snd s1 = snd s" and free: "e = None \<Longrightarrow> map_of fs ''name'' = Some name \<Longrightarrow> \<forall>p \<in> services (snd s). VString (Service_NAME p) \<noteq> name" for name
    using q by (auto simp: q_def split: option.splits dest!: check_service)
  show ?thesis
  proof (cases e)
    case (Some er)
    then show ?thesis using assms(1) q s1 by (auto simp: UpdateService_def q_def [symmetric] intro: stay)
  next
    case None
    obtain u d where u: "FindUpdate (services_crud m) (fieldName n) (VString i) fs (snd s1) = (u, d)"
      by (cases "FindUpdate (services_crud m) (fieldName n) (VString i) fs (snd s1)")
    have "snd s' = d" using assms(1) q None u
      by (auto simp: UpdateService_def q_def [symmetric] split: sum.splits option.splits prod.splits dest: find_service)
    then show ?thesis using update_service_rows [OF u assms(2)] assms(3) s1 free [OF None] by simp
  qed
qed

end

context pool_tables
begin

lemma gone_row: "inj_on ident A \<Longrightarrow> x \<in> A \<Longrightarrow> {y \<in> A. ident y \<noteq> ident x} = A - {x}"
  by (auto dest: inj_onD)

lemma delete_pool_step:
  assumes "DeletePool m i n s = (e, s')" and "inj_on Pool_ID (pools (snd s))"
  shows "rows_step (rows_of (snd s)) (rows_of (snd s'))"
proof -
  obtain q s1 where q: "PoolId_of m i n s = (q, s1)" by (cases "PoolId_of m i n s")
  note s1 = pool_id [OF q]
  show ?thesis
  proof (cases "\<exists>poolId. q = Inr poolId \<and> poolId \<noteq> '''' \<and> crud_Exists (associations_crud m) (Some (fields_only [(''pool_id'', VString poolId)])) (snd s1) = Inr False")
    case False
    then have "snd s' = snd s1" using assms(1) q by (auto simp: DeletePool_def AddField_filter split: sum.splits if_splits prod.splits option.splits)
    then show ?thesis by (simp add: s1 stay)
  next
    case True
    then obtain poolId where p: "q = Inr poolId" "poolId \<noteq> ''''"
      "crud_Exists (associations_crud m) (Some (fields_only [(''pool_id'', VString poolId)])) (snd s1) = Inr False" by auto
    obtain f d where f: "Delete (pools_crud m) ''id'' (VString poolId) (snd s1) = (f, d)" by (cases "Delete (pools_crud m) ''id'' (VString poolId) (snd s1)")
    have d: "snd s' = d" using assms(1) q p f by (auto simp: DeletePool_def AddField_filter split: option.splits)
    have k: "services d = services (snd s)" "assocs d = assocs (snd s)" using keeps_Delete [OF _ f] pool_kept s1 by auto
    have free: "poolId \<notin> POOL_ID ` assocs (snd s)" using bt.exists [OF p(3)] s1 by (auto simp: has_fields_def association_col_def)
    from pt.delete_rows [OF f] show ?thesis
    proof (elim disjE bexE conjE)
      fix x assume x: "x \<in> pools (snd s1)" "pool_col x ''id'' = Some (VString poolId)" "pools d = {y \<in> pools (snd s1). Pool_ID y \<noteq> Pool_ID x}"
      then show ?thesis using d k s1 free gone_row [OF assms(2)] by (auto simp: pool_col_def intro: pool_gone)
    qed (simp add: d k s1 stay)
  qed
qed

lemma delete_service_step:
  assumes "DeleteService m i n s = (e, s')" and "inj_on Service_ID (services (snd s))"
  shows "rows_step (rows_of (snd s)) (rows_of (snd s'))"
proof -
  obtain q s1 where q: "ServiceId_of m i n s = (q, s1)" by (cases "ServiceId_of m i n s")
  note s1 = service_id [OF q]
  show ?thesis
  proof (cases "\<exists>serviceId. q = Inr serviceId \<and> serviceId \<noteq> '''' \<and> crud_Exists (associations_crud m) (Some (fields_only [(''service_id'', VString serviceId)])) (snd s1) = Inr False")
    case False
    then have "snd s' = snd s1" using assms(1) q by (auto simp: DeleteService_def AddField_filter split: sum.splits if_splits prod.splits option.splits)
    then show ?thesis by (simp add: s1 stay)
  next
    case True
    then obtain serviceId where p: "q = Inr serviceId" "serviceId \<noteq> ''''"
      "crud_Exists (associations_crud m) (Some (fields_only [(''service_id'', VString serviceId)])) (snd s1) = Inr False" by auto
    obtain f d where f: "Delete (services_crud m) ''id'' (VString serviceId) (snd s1) = (f, d)" by (cases "Delete (services_crud m) ''id'' (VString serviceId) (snd s1)")
    have d: "snd s' = d" using assms(1) q p f by (auto simp: DeleteService_def AddField_filter split: option.splits)
    have k: "pools d = pools (snd s)" "assocs d = assocs (snd s)" using keeps_Delete [OF _ f] service_kept s1 by auto
    have free: "serviceId \<notin> SERVICE_ID ` assocs (snd s)" using bt.exists [OF p(3)] s1 by (auto simp: has_fields_def association_col_def)
    from st.delete_rows [OF f] show ?thesis
    proof (elim disjE bexE conjE)
      fix x assume x: "x \<in> services (snd s1)" "service_col x ''id'' = Some (VString serviceId)" "services d = {y \<in> services (snd s1). Service_ID y \<noteq> Service_ID x}"
      then show ?thesis using d k s1 free gone_row [OF assms(2)] by (auto simp: service_col_def intro: service_gone)
    qed (simp add: d k s1 stay)
  qed
qed

lemma bind_found:
  assumes "AddServiceToPool m newid now poolId serviceId role n s = (e, s')"
    and "FindPool m poolId n s = (Inr (Some p), s1)" and "FindService m serviceId n s1 = (Inr (Some v), s2)"
  shows "snd s' = snd s2 \<and> e \<noteq> None \<or> (\<exists>f. (Pool_ID p, role) \<notin> (\<lambda>a. (POOL_ID a, ROLE a)) ` assocs (snd s2) \<and> (e = None \<longleftrightarrow> f = None) \<and>
    crud_Create (associations_crud m) \<lparr>Association_ID = newid, Association_CREATED_AT = now, Association_UPDATED_AT = now,
      POOL_ID = Pool_ID p, ROLE = role, SERVICE_ID = Service_ID v\<rparr> (snd s2) = (f, snd s'))"
proof (cases "crud_Exists (associations_crud m) (Some (fields_only [(''pool_id'', VString (Pool_ID p)), (''role'', VString role)])) (snd s2)")
  case (Inl er)
  then show ?thesis using assms by (auto simp: AddServiceToPool_def AddField_filter AddField_filter2)
next
  case (Inr b)
  let ?a = "\<lparr>Association_ID = newid, Association_CREATED_AT = now, Association_UPDATED_AT = now,
    POOL_ID = Pool_ID p, ROLE = role, SERVICE_ID = Service_ID v\<rparr>"
  obtain f d where f: "crud_Create (associations_crud m) ?a (snd s2) = (f, d)" by (cases "crud_Create (associations_crud m) ?a (snd s2)")
  show ?thesis
  proof (cases b)
    case True
    then show ?thesis using Inr assms by (auto simp: AddServiceToPool_def AddField_filter AddField_filter2)
  next
    case False
    have "snd s' = d" "e = None \<longleftrightarrow> f = None" using assms Inr False f
      by (auto simp: AddServiceToPool_def AddField_filter AddField_filter2 split: option.splits)
    moreover have "(Pool_ID p, role) \<notin> (\<lambda>a. (POOL_ID a, ROLE a)) ` assocs (snd s2)"
      using bt.exists [OF Inr] False by (auto simp: has_fields_def association_col_def)
    ultimately show ?thesis using f by auto
  qed
qed

text \<open>A binding that succeeds adds the association of the pool and the service that were found.\<close>

lemma bind_parts:
  assumes "AddServiceToPool m newid now poolId serviceId role n s = (e, s')"
  shows "snd s' = snd s \<and> e \<noteq> None \<or> (\<exists>p \<in> pools (snd s). \<exists>v \<in> services (snd s). \<exists>f.
    FindByField (pools_crud m) (fieldName n) (VString poolId) (snd s) = Inr (Some p) \<and>
    FindByField (services_crud m) (fieldName n) (VString serviceId) (snd s) = Inr (Some v) \<and>
    (Pool_ID p, role) \<notin> (\<lambda>a. (POOL_ID a, ROLE a)) ` assocs (snd s) \<and> (e = None \<longleftrightarrow> f = None) \<and>
    crud_Create (associations_crud m) \<lparr>Association_ID = newid, Association_CREATED_AT = now, Association_UPDATED_AT = now,
      POOL_ID = Pool_ID p, ROLE = role, SERVICE_ID = Service_ID v\<rparr> (snd s) = (f, snd s'))"
proof -
  obtain q s1 where q: "FindPool m poolId n s = (q, s1)" by (cases "FindPool m poolId n s")
  note fp = find_pool [OF q]
  show ?thesis
  proof (cases "\<exists>p. q = Inr (Some p)")
    case False
    then show ?thesis using assms q fp(1) by (auto simp: AddServiceToPool_def split: sum.splits option.splits)
  next
    case True
    then obtain p where p: "q = Inr (Some p)" by auto
    obtain w s2 where w: "FindService m serviceId n s1 = (w, s2)" by (cases "FindService m serviceId n s1")
    note fs = find_service [OF w]
    show ?thesis
    proof (cases "\<exists>v. w = Inr (Some v)")
      case False
      then show ?thesis using assms q p w fp(1) fs(1) by (auto simp: AddServiceToPool_def split: sum.splits option.splits)
    next
      case True
      then obtain v where v: "w = Inr (Some v)" by auto
      have found: "FindByField (pools_crud m) (fieldName n) (VString poolId) (snd s) = Inr (Some p)"
        "FindByField (services_crud m) (fieldName n) (VString serviceId) (snd s) = Inr (Some v)"
        using q p fp(1) w v by (auto simp: FindPool_def FindService_def split: sum.splits option.splits)
      show ?thesis using bind_found [OF assms q [unfolded p] w [unfolded v]] fp(1) fp(2) [OF p] fs(1) fs(2) [OF v] found by auto
    qed
  qed
qed

lemma bind_step:
  assumes "AddServiceToPool m newid now poolId serviceId role n s = (e, s')"
  shows "rows_step (rows_of (snd s)) (rows_of (snd s'))"
  using bind_parts [OF assms]
proof (elim disjE bexE conjE exE)
  fix p :: PoolBaseEssentials and v :: PoolServiceBase and f :: "string option"
  let ?a = "\<lparr>Association_ID = newid, Association_CREATED_AT = now, Association_UPDATED_AT = now,
      POOL_ID = Pool_ID p, ROLE = role, SERVICE_ID = Service_ID v\<rparr>"
  assume p: "p \<in> pools (snd s)" "v \<in> services (snd s)" "(Pool_ID p, role) \<notin> (\<lambda>a. (POOL_ID a, ROLE a)) ` assocs (snd s)"
    and f: "crud_Create (associations_crud m) ?a (snd s) = (f, snd s')"
  have "pools (snd s') = pools (snd s)" "services (snd s') = services (snd s)" using keeps_Create [OF _ f] assoc_kept by auto
  then show ?thesis using bt.create_rows [OF f] p by (auto intro!: bind_role simp: stay)
qed (simp add: stay)

lemma unbind_step:
  assumes "RemoveServiceFromPool m i role n s = (e, s')"
  shows "rows_step (rows_of (snd s)) (rows_of (snd s'))"
proof -
  obtain q s1 where q: "PoolId_of m i n s = (q, s1)" by (cases "PoolId_of m i n s")
  note s1 = pool_id [OF q]
  have "snd s' = snd s1 \<or> (\<exists>a f. crud_Delete (associations_crud m) a (snd s1) = (f, snd s'))"
    using assms q by (auto simp: RemoveServiceFromPool_def split: sum.splits if_splits option.splits prod.splits)
  then show ?thesis
  proof (elim disjE exE)
    fix a f assume f: "crud_Delete (associations_crud m) a (snd s1) = (f, snd s')"
    have "pools (snd s') = pools (snd s)" "services (snd s') = services (snd s)" using keeps_crud_Delete [OF _ f] assoc_kept s1 by auto
    moreover have "assocs (snd s') \<subseteq> assocs (snd s)" using bt.delete_one_rows [OF f] s1 by auto
    ultimately show ?thesis by (simp add: unbind_roles)
  qed (simp add: s1 stay)
qed

lemma unbind_fields:
  assumes "crud_DeleteByFields (associations_crud m) fs d = (f, d')" shows "rows_step (rows_of d) (rows_of d')"
proof -
  have "pools d' = pools d" "services d' = services d" using keeps_DeleteByFields [OF _ assms] assoc_kept by auto
  moreover have "assocs d' \<subseteq> assocs d" using bt.delete_fields_rows [OF assms] by auto
  ultimately show ?thesis by (simp add: unbind_roles)
qed

lemma unbind_pool_step:
  assumes "RemoveAllServicesFromPool m i n s = (e, s')"
  shows "rows_step (rows_of (snd s)) (rows_of (snd s'))"
proof -
  obtain q s1 where q: "PoolId_of m i n s = (q, s1)" by (cases "PoolId_of m i n s")
  have "snd s' = snd s1 \<or> (\<exists>fs f. crud_DeleteByFields (associations_crud m) fs (snd s1) = (f, snd s'))"
    using assms q by (auto simp: RemoveAllServicesFromPool_def split: sum.splits if_splits option.splits prod.splits)
  then show ?thesis using unbind_fields pool_id [OF q] by (auto intro: stay)
qed

lemma unbind_service_step:
  assumes "RemoveServiceFromAllPools m i n s = (e, s')"
  shows "rows_step (rows_of (snd s)) (rows_of (snd s'))"
proof -
  obtain q s1 where q: "ServiceId_of m i n s = (q, s1)" by (cases "ServiceId_of m i n s")
  have "snd s' = snd s1 \<or> (\<exists>fs f. crud_DeleteByFields (associations_crud m) fs (snd s1) = (f, snd s'))"
    using assms q by (auto simp: RemoveServiceFromAllPools_def split: sum.splits if_splits option.splits prod.splits)
  then show ?thesis using unbind_fields service_id [OF q] by (auto intro: stay)
qed

lemma bindings_db: "GetPoolBindings m i n s = (r, s1) \<Longrightarrow> snd s1 = snd s"
  by (auto simp: GetPoolBindings_def split: sum.splits if_splits prod.splits dest: pool_id)

lemma load_db: "LoadPool m i n s = (r, s1) \<Longrightarrow> snd s1 = snd s"
  by (auto simp: LoadPool_def split: sum.splits option.splits prod.splits dest!: bindings_db find_pool(1))

lemma load_step: "LoadPool m i n s = (r, s1) \<Longrightarrow> rows_step (rows_of (snd s)) (rows_of (snd s1))"
  by (simp add: load_db stay)

lemma call_step:
  assumes "pool_call m s s'" and "pools_consistent (pools (snd s)) (services (snd s)) (assocs (snd s))"
  shows "rows_step (rows_of (snd s)) (rows_of (snd s'))"
proof -
  have inj: "inj_on Pool_ID (pools (snd s))" "inj_on Service_ID (services (snd s))" using assms(2) by (simp_all add: pools_consistent_def)
  from assms(1) show ?thesis
    by cases (auto intro: add_pool_step add_service_step update_pool_step update_service_step delete_pool_step delete_service_step bind_step
        unbind_step unbind_pool_step unbind_service_step load_step simp: inj)
qed

lemma calls_consistent:
  assumes "(pool_call m)\<^sup>*\<^sup>* s s'" and "pools_consistent (pools (snd s)) (services (snd s)) (assocs (snd s))"
  shows "pools_consistent (pools (snd s')) (services (snd s')) (assocs (snd s')) \<and> rows_step\<^sup>*\<^sup>* (rows_of (snd s)) (rows_of (snd s'))"
  using assms(1)
proof (induction rule: rtranclp_induct)
  case base
  then show ?case using assms(2) by simp
next
  case (step y z)
  then have "rows_step (rows_of (snd y)) (rows_of (snd z))" using call_step by blast
  then show ?case using rows_step_consistent [of "rows_of (snd y)" "rows_of (snd z)"] step.IH by (auto intro: rtranclp.rtrancl_into_rtrancl)
qed

end

subsection \<open>Loaded pools\<close>

lemma set_services_lookup:
  "map_of (fold (\<lambda>s m. AList.update (key s) s m) xs m0) k = (case find (\<lambda>x. key x = k) (rev xs) of Some x \<Rightarrow> Some x | None \<Rightarrow> map_of m0 k)"
proof (induction xs rule: rev_induct)
  case (snoc x xs)
  then show ?case by (auto simp: update_conv')
qed simp

lemma service_of_bindings:
  assumes "inj_on Binding_ROLE (set bs)"
  shows "Service role (SetServices bs p) = Inr b \<longleftrightarrow> b \<in> set bs \<and> Binding_ROLE b = role"
proof -
  have "Services (SetServices bs p) = fold (\<lambda>s m. AList.update (Binding_ROLE s) s m) bs []" by (simp add: SetServices_def PoolBaseEssentials.defs)
  then have "Service role (SetServices bs p) = Inr b \<longleftrightarrow> find (\<lambda>x. Binding_ROLE x = role) (rev bs) = Some b"
    by (simp add: Service_def set_services_lookup split: option.splits)
  also have "\<dots> \<longleftrightarrow> b \<in> set bs \<and> Binding_ROLE b = role"
  proof
    assume "find (\<lambda>x. Binding_ROLE x = role) (rev bs) = Some b"
    then show "b \<in> set bs \<and> Binding_ROLE b = role" by (metis (mono_tags) find_Some_iff nth_mem set_rev)
  next
    assume b: "b \<in> set bs \<and> Binding_ROLE b = role"
    then obtain x where x: "find (\<lambda>x. Binding_ROLE x = role) (rev bs) = Some x" by (metis (mono_tags) find_None_iff not_None_eq set_rev)
    then have "x \<in> set bs \<and> Binding_ROLE x = role" by (metis (mono_tags) find_Some_iff nth_mem set_rev)
    then show "find (\<lambda>x. Binding_ROLE x = role) (rev bs) = Some b" using x b inj_onD [OF assms, of x b] by simp
  qed
  finally show ?thesis .
qed

lemma binding_sel [simp]:
  "Binding_ROLE (binding p s a) = ROLE a" "ServiceId (binding p s a) = Service_ID s" "PoolId (binding p s a) = Pool_ID p"
  "ServiceName (binding p s a) = Service_NAME s" "PoolName (binding p s a) = Pool_NAME p"
  by (simp_all add: binding_def PoolServiceBaseData.defs)

lemma SetServices_sel [simp]: "Pool_ID (SetServices bs p) = Pool_ID p" "Pool_NAME (SetServices bs p) = Pool_NAME p"
  by (simp_all add: SetServices_def PoolBaseEssentials.defs)

context pool_tables
begin

lemma loaded_parts:
  assumes "LoadPool m i n s = (Inr (Some p), s1)"
  shows "\<exists>r bs. FindByField (pools_crud m) (fieldName n) (VString i) (snd s) = Inr (Some r) \<and> r \<in> pools (snd s) \<and> p = SetServices bs r \<and>
    (Pool_ID r \<noteq> '''' \<longrightarrow> join_pool m (Pool_ID r) (snd s) = Inr bs)"
proof -
  obtain q t where q: "FindPool m i n s = (q, t)" by (cases "FindPool m i n s")
  note fp = find_pool [OF q]
  from assms q obtain r where r: "q = Inr (Some r)" by (auto simp: LoadPool_def split: sum.splits option.splits)
  from assms q r obtain bs where bs: "GetPoolBindings m (Pool_ID r) [] t = (Inr bs, s1)" "p = SetServices bs r"
    by (auto simp: LoadPool_def split: sum.splits prod.splits)
  have "FindByField (pools_crud m) (fieldName n) (VString i) (snd s) = Inr (Some r)"
    using q r by (auto simp: FindPool_def split: sum.splits option.splits)
  moreover have "Pool_ID r \<noteq> '''' \<longrightarrow> join_pool m (Pool_ID r) (snd s) = Inr bs"
    using bs(1) fp(1) by (auto simp: GetPoolBindings_def PoolId_of_def split: sum.splits if_splits)
  ultimately show ?thesis using fp(2) [OF r] bs(2) by auto
qed

lemma loaded_services:
  assumes "LoadPool m i n s = (Inr (Some p), s1)" and c: "pools_consistent (pools (snd s)) (services (snd s)) (assocs (snd s))" and "Pool_ID p \<noteq> ''''"
  shows "Service role p = Inr b \<longleftrightarrow>
    (\<exists>r \<in> pools (snd s). \<exists>v \<in> services (snd s). \<exists>a \<in> assocs (snd s). Pool_ID r = Pool_ID p \<and> POOL_ID a = Pool_ID p \<and> ROLE a = role \<and>
      SERVICE_ID a = Service_ID v \<and> b = binding r v a)"
proof -
  from loaded_parts [OF assms(1)] assms(3) obtain r bs where r: "r \<in> pools (snd s)" "p = SetServices bs r" "join_pool m (Pool_ID r) (snd s) = Inr bs"
    by (metis SetServices_sel(1))
  note j = joined [OF r(3)]
  have "inj_on Binding_ROLE (set bs)"
  proof (rule inj_onI)
    fix b1 b2 assume b: "b1 \<in> set bs" "b2 \<in> set bs" "Binding_ROLE b1 = Binding_ROLE b2"
    obtain p1 v1 a1 where 1: "p1 \<in> pools (snd s)" "v1 \<in> services (snd s)" "a1 \<in> assocs (snd s)" "Pool_ID p1 = Pool_ID r" "POOL_ID a1 = Pool_ID r"
      "SERVICE_ID a1 = Service_ID v1" "b1 = binding p1 v1 a1" using b(1) unfolding j by blast
    obtain p2 v2 a2 where 2: "p2 \<in> pools (snd s)" "v2 \<in> services (snd s)" "a2 \<in> assocs (snd s)" "Pool_ID p2 = Pool_ID r" "POOL_ID a2 = Pool_ID r"
      "SERVICE_ID a2 = Service_ID v2" "b2 = binding p2 v2 a2" using b(2) unfolding j by blast
    have "inj_on (\<lambda>a. (POOL_ID a, ROLE a)) (assocs (snd s))" using c by (simp add: pools_consistent_def)
    from inj_onD [OF this _ 1(3) 2(3)] have "a1 = a2" using 1 2 b(3) by simp
    moreover have inj: "inj_on Pool_ID (pools (snd s))" "inj_on Service_ID (services (snd s))" using c by (simp_all add: pools_consistent_def)
    moreover have "p1 = p2" using inj_onD [OF inj(1) _ 1(1) 2(1)] 1 2 by simp
    moreover have "v1 = v2" using inj_onD [OF inj(2) _ 1(2) 2(2)] 1 2 \<open>a1 = a2\<close> by simp
    ultimately show "b1 = b2" using 1 2 by simp
  qed
  from service_of_bindings [OF this, of role r b]
  have "Service role p = Inr b \<longleftrightarrow> b \<in> set bs \<and> Binding_ROLE b = role" unfolding r(2) .
  also have "\<dots> \<longleftrightarrow> (\<exists>r' \<in> pools (snd s). \<exists>v \<in> services (snd s). \<exists>a \<in> assocs (snd s). Pool_ID r' = Pool_ID r \<and> POOL_ID a = Pool_ID r \<and>
      SERVICE_ID a = Service_ID v \<and> b = binding r' v a \<and> Binding_ROLE b = role)"
    unfolding j mem_Collect_eq by blast
  also have "\<dots> \<longleftrightarrow> (\<exists>r' \<in> pools (snd s). \<exists>v \<in> services (snd s). \<exists>a \<in> assocs (snd s). Pool_ID r' = Pool_ID r \<and> POOL_ID a = Pool_ID r \<and>
      ROLE a = role \<and> SERVICE_ID a = Service_ID v \<and> b = binding r' v a)"
    by (intro bex_cong refl) auto
  finally show ?thesis unfolding r(2) SetServices_sel .
qed

lemma same_pool:
  assumes "FindByField (pools_crud m) (fieldName n) v d = Inr (Some p)" "FindByField (pools_crud m) (fieldName n) v d' = Inr (Some r)"
    and "pools d' = pools d" "inj_on Pool_ID (pools d)" "inj_on Pool_NAME (pools d)"
  shows "p = r"
  using pt.find_some [OF assms(1)] pt.find_some [OF assms(2)] assms(3-5)
  by (auto simp: fieldName_def pool_col_def split: if_splits dest: inj_onD)

lemma bound_service:
  assumes "AddServiceToPool m newid now poolId serviceId role n s = (None, s')"
    and "pools_consistent (pools (snd s)) (services (snd s)) (assocs (snd s))" and "'''' \<notin> Pool_ID ` pools (snd s)"
    and "LoadPool m poolId n s' = (Inr (Some p), s1)"
  shows "\<exists>v b. FindByField (services_crud m) (fieldName n) (VString serviceId) (snd s) = Inr (Some v) \<and> Service role p = Inr b \<and>
    ServiceId b = Service_ID v \<and> PoolId b = Pool_ID p"
proof -
  from bind_parts [OF assms(1)] obtain r v where r: "r \<in> pools (snd s)" "v \<in> services (snd s)"
      "FindByField (pools_crud m) (fieldName n) (VString poolId) (snd s) = Inr (Some r)"
      "FindByField (services_crud m) (fieldName n) (VString serviceId) (snd s) = Inr (Some v)"
    and f: "crud_Create (associations_crud m) \<lparr>Association_ID = newid, Association_CREATED_AT = now, Association_UPDATED_AT = now,
      POOL_ID = Pool_ID r, ROLE = role, SERVICE_ID = Service_ID v\<rparr> (snd s) = (None, snd s')"
    by auto
  have k: "pools (snd s') = pools (snd s)" "services (snd s') = services (snd s)" using keeps_Create [OF _ f] assoc_kept by auto
  have c': "pools_consistent (pools (snd s')) (services (snd s')) (assocs (snd s'))"
    using rows_step_consistent [OF bind_step [OF assms(1)]] assms(2) by simp
  obtain bs r' where l: "FindByField (pools_crud m) (fieldName n) (VString poolId) (snd s') = Inr (Some r')" "p = SetServices bs r'"
    using loaded_parts [OF assms(4)] by auto
  have "r' = r" using same_pool [OF r(3) l(1)] k assms(2) by (simp add: pools_consistent_def)
  then have p: "Pool_ID p = Pool_ID r" "Pool_ID p \<noteq> ''''" using l(2) r(1) assms(3) by (auto simp: image_iff)
  let ?a = "\<lparr>Association_ID = newid, Association_CREATED_AT = now, Association_UPDATED_AT = now,
      POOL_ID = Pool_ID r, ROLE = role, SERVICE_ID = Service_ID v\<rparr>"
  have "?a \<in> assocs (snd s')" using bt.created [OF f] by simp
  then have "Service role p = Inr (binding r v ?a)"
    unfolding loaded_services [OF assms(4) c' p(2)] using r k p(1) by force
  then show ?thesis using r(4) p(1) by auto
qed

end

subsection \<open>Tables in memory\<close>

record pool_database =
  t_pools :: "PoolBaseEssentials list"
  t_services :: "PoolServiceBase list"
  t_associations :: "PoolServiceAssociationBase list"

definition pool_handlers :: "(pool_database, PoolBaseEssentials) DBHandlers" where
  "pool_handlers = on_table t_pools (\<lambda>u t. t\<lparr>t_pools := u\<rparr>) (table_handlers Pool_ID pool_col set_pool)"

definition service_handlers :: "(pool_database, PoolServiceBase) DBHandlers" where
  "service_handlers = on_table t_services (\<lambda>u t. t\<lparr>t_services := u\<rparr>) (table_handlers Service_ID service_col set_service)"

definition association_handlers :: "(pool_database, PoolServiceAssociationBase) DBHandlers" where
  "association_handlers = on_table t_associations (\<lambda>u t. t\<lparr>t_associations := u\<rparr>) (table_handlers Association_ID association_col (\<lambda>fs a. a))"

definition bindings_where :: "(PoolServiceAssociationBase \<Rightarrow> bool) \<Rightarrow> pool_database \<Rightarrow> PoolServiceBinding list" where
  "bindings_where P t =
     concat (map (\<lambda>a. concat (map (\<lambda>p. map (\<lambda>s. binding p s a) (filter (\<lambda>s. SERVICE_ID a = Service_ID s) (t_services t)))
       (filter (\<lambda>p. POOL_ID a = Pool_ID p) (t_pools t)))) (filter P (t_associations t)))"

definition memory_cruds :: "('h, 'm) db_context_scheme \<Rightarrow> bool \<Rightarrow> int \<Rightarrow> ('h \<Rightarrow> pool_database) pool_cruds" where
  "memory_cruds c force now =
     (let d = \<lparr>ForceMainDb = force, DryRun = False\<rparr> in
      \<lparr>pools_crud = db_crud d c now pool_handlers, services_crud = db_crud d c now service_handlers,
       associations_crud = db_crud d c now association_handlers,
       join_pool = \<lambda>i s. Inr (bindings_where (\<lambda>a. POOL_ID a = i) (s (DB c [force]))),
       join_service = \<lambda>i s. Inr (bindings_where (\<lambda>a. SERVICE_ID a = i) (s (DB c [force])))\<rparr>)"

lemma pool_handlers_table: "db_table pool_handlers (\<lambda>t. set (t_pools t)) Pool_ID pool_col set_pool"
  unfolding pool_handlers_def by (rule db_table.on_table [OF in_memory.db_table_axioms]) simp

lemma service_handlers_table: "db_table service_handlers (\<lambda>t. set (t_services t)) Service_ID service_col set_service"
  unfolding service_handlers_def by (rule db_table.on_table [OF in_memory.db_table_axioms]) simp

lemma association_handlers_table: "db_table association_handlers (\<lambda>t. set (t_associations t)) Association_ID association_col (\<lambda>fs a. a)"
  unfolding association_handlers_def by (rule db_table.on_table [OF in_memory.db_table_axioms]) simp

lemma handlers_keep:
  fixes get :: "'t \<Rightarrow> 'u" and h :: "('u, 'o) DBHandlers"
  assumes "\<And>u t. other (put u t) = other t"
  shows "crud_keeps (db_crud \<lparr>ForceMainDb = force, DryRun = False\<rparr> c now (on_table get put h)) (\<lambda>s. other (s (DB c [force])))"
proof -
  have "other (snd (on_db d c (part_of get put f) s) (DB c [ForceMainDb d])) = other (s (DB c [ForceMainDb d]))" for d s and f :: "'u \<Rightarrow> string option \<times> 'u"
    using assms by (simp add: on_db_def part_of_def Let_def split: prod.split)
  from this [of "\<lparr>ForceMainDb = force, DryRun = False\<rparr>"] show ?thesis
    by (simp add: crud_keeps_def db_crud_def DbCRUD_writes db_Update_def [abs_def] on_table_def)
qed

lemma bindings_where_set:
  "set (bindings_where P t) = {b. \<exists>p \<in> set (t_pools t). \<exists>s \<in> set (t_services t). \<exists>a \<in> set (t_associations t).
     P a \<and> POOL_ID a = Pool_ID p \<and> SERVICE_ID a = Service_ID s \<and> b = binding p s a}"
  by (auto simp: bindings_where_def)

interpretation in_memory_pools: pool_tables "memory_cruds c force now" "\<lambda>s. set (t_pools (s (DB c [force])))"
  "\<lambda>s. set (t_services (s (DB c [force])))" "\<lambda>s. set (t_associations (s (DB c [force])))"
  "\<lambda>fs. set_pool (stamped now fs)" "\<lambda>fs. set_service (stamped now fs)" "\<lambda>fs a. a"
  for c :: "('h, 'x) db_context_scheme" and force :: bool and now :: int
proof -
  let ?m = "memory_cruds c force now"
  have sel: "pools_crud ?m = db_crud \<lparr>ForceMainDb = force, DryRun = False\<rparr> c now pool_handlers"
    "services_crud ?m = db_crud \<lparr>ForceMainDb = force, DryRun = False\<rparr> c now service_handlers"
    "associations_crud ?m = db_crud \<lparr>ForceMainDb = force, DryRun = False\<rparr> c now association_handlers"
    by (simp_all add: memory_cruds_def Let_def)
  have 1: "crud_table (pools_crud ?m) (\<lambda>s. set (t_pools (s (DB c [force])))) Pool_ID pool_col (\<lambda>fs. set_pool (stamped now fs))"
    unfolding sel by (rule db_table_crud [OF pool_handlers_table])
  have 2: "crud_table (services_crud ?m) (\<lambda>s. set (t_services (s (DB c [force])))) Service_ID service_col (\<lambda>fs. set_service (stamped now fs))"
    unfolding sel by (rule db_table_crud [OF service_handlers_table])
  have 3: "crud_table (associations_crud ?m) (\<lambda>s. set (t_associations (s (DB c [force])))) Association_ID association_col (\<lambda>fs a. a)"
    unfolding sel by (rule db_table_crud [OF association_handlers_table])
  note kept = handlers_keep [where force = force and c = c and now = now]
  show "pool_tables ?m (\<lambda>s. set (t_pools (s (DB c [force])))) (\<lambda>s. set (t_services (s (DB c [force])))) (\<lambda>s. set (t_associations (s (DB c [force]))))
      (\<lambda>fs. set_pool (stamped now fs)) (\<lambda>fs. set_service (stamped now fs)) (\<lambda>fs a. a)"
  proof (intro pool_tables.intro pool_tables_axioms.intro 1 2 3)
    show "crud_keeps (pools_crud ?m) (\<lambda>s. set (t_services (s (DB c [force]))))" "crud_keeps (pools_crud ?m) (\<lambda>s. set (t_associations (s (DB c [force]))))"
      "crud_keeps (services_crud ?m) (\<lambda>s. set (t_pools (s (DB c [force]))))" "crud_keeps (services_crud ?m) (\<lambda>s. set (t_associations (s (DB c [force]))))"
      "crud_keeps (associations_crud ?m) (\<lambda>s. set (t_pools (s (DB c [force]))))" "crud_keeps (associations_crud ?m) (\<lambda>s. set (t_services (s (DB c [force]))))"
      unfolding sel pool_handlers_def service_handlers_def association_handlers_def
      by (rule kept [where other = "\<lambda>t. set (t_services t)"] kept [where other = "\<lambda>t. set (t_associations t)"] kept [where other = "\<lambda>t. set (t_pools t)"], simp)+
  next
    fix i and bs :: "PoolServiceBinding list" and d :: "'h \<Rightarrow> pool_database"
    assume "join_pool ?m i d = Inr bs"
    then have "bs = bindings_where (\<lambda>a. POOL_ID a = i) (d (DB c [force]))" by (simp add: memory_cruds_def Let_def)
    then show "set bs = {b. \<exists>p \<in> set (t_pools (d (DB c [force]))). \<exists>s \<in> set (t_services (d (DB c [force]))). \<exists>a \<in> set (t_associations (d (DB c [force]))).
        Pool_ID p = i \<and> POOL_ID a = i \<and> SERVICE_ID a = Service_ID s \<and> b = binding p s a}"
      by (simp only: bindings_where_set) (intro Collect_cong bex_cong refl, auto)
  next
    fix fs p show "Pool_NAME (set_pool (stamped now fs) p) = Pool_NAME p \<or> map_of fs ''name'' = Some (VString (Pool_NAME (set_pool (stamped now fs) p)))"
      using string_field_cases [of "stamped now fs" "''name''" "Pool_NAME p"] by (simp add: set_pool_def map_of_stamped)
  next
    fix fs p show "Service_NAME (set_service (stamped now fs) p) = Service_NAME p \<or> map_of fs ''name'' = Some (VString (Service_NAME (set_service (stamped now fs) p)))"
      using string_field_cases [of "stamped now fs" "''name''" "Service_NAME p"] by (simp add: set_service_def map_of_stamped)
  qed (simp_all add: set_pool_def set_service_def string_field_kept map_of_stamped)
qed

subsection \<open>What holds of the controller\<close>

text \<open>C15: any sequence of calls of the pool controller, failing ones included, keeps the tables consistent: identifiers and names of pools and of services are unique, a role of a
  pool has at most one service, and every association is between a pool and a service that exist. Each call does one step of the specification \<open>rows_step\<close>. The calls are made
  one after another and no update sets an identifier; the tables are any that have the contract of the CRUD.\<close>

theorem pool_calls_keep_consistency:
  assumes "pool_tables m pools services assocs pupd supd aupd" and "(pool_call m)\<^sup>*\<^sup>* s s'"
    and "pools_consistent (pools (snd s)) (services (snd s)) (assocs (snd s))"
  shows "pools_consistent (pools (snd s')) (services (snd s')) (assocs (snd s')) \<and>
    rows_step\<^sup>*\<^sup>* (pools (snd s), services (snd s), assocs (snd s)) (pools (snd s'), services (snd s'), assocs (snd s'))"
  by (rule pool_tables.calls_consistent [OF assms])

text \<open>C35: a service that was bound to a pool under a role is what the loaded pool gives for that role.\<close>

theorem bound_service_is_loaded:
  assumes "pool_tables m pools services assocs pupd supd aupd" and "AddServiceToPool m newid now poolId serviceId role idIsName s = (None, s')"
    and "pools_consistent (pools (snd s)) (services (snd s)) (assocs (snd s))" and "'''' \<notin> Pool_ID ` pools (snd s)"
    and "LoadPool m poolId idIsName s' = (Inr (Some p), s1)"
  shows "\<exists>v b. FindByField (services_crud m) (fieldName idIsName) (VString serviceId) (snd s) = Inr (Some v) \<and> Service role p = Inr b \<and>
    ServiceId b = Service_ID v \<and> PoolId b = Pool_ID p"
  by (rule pool_tables.bound_service [OF assms])

text \<open>C36: a connection to a database service leaves no connection behind: when it fails no connection more is open than before, the one to the master database included, and
  when it succeeds exactly the one it returns.\<close>

theorem connecting_leaks_nothing:
  assumes "db_connections env conns" and "ConnectDatabaseService env pool role dbName newDb c w = (r, c', w')"
  shows "case r of Inl e \<Rightarrow> conns w' = conns w | Inr k \<Rightarrow> k \<notin> conns w \<and> conns w' = insert k (conns w)"
  by (rule db_connections.connect_conns [OF assms])

subsection \<open>The store\<close>

text \<open>The bindings that are read for an identifier; none for the empty one.\<close>

definition bindings_read :: "'s pool_cruds \<Rightarrow> 's \<Rightarrow> string \<Rightarrow> PoolServiceBinding list" where
  "bindings_read m d i = (if i = '''' then [] else case join_pool m i d of Inl e \<Rightarrow> [] | Inr bs \<Rightarrow> bs)"

lemma bindings_of_id:
  assumes "GetPoolBindings m i [] s = (Inr bs, s1)"
  shows "snd s1 = snd s" "bs = bindings_read m (snd s) i" "i \<noteq> '''' \<Longrightarrow> join_pool m i (snd s) = Inr bs"
  using assms by (auto simp: GetPoolBindings_def PoolId_of_def bindings_read_def split: if_splits sum.splits)

lemma load_pools_parts:
  assumes "load_pools m ps st s = (None, st', s')"
  shows "st' = fold put_pool (map (\<lambda>r. SetServices (bindings_read m (snd s) (Pool_ID r)) r) ps) st \<and>
    (\<forall>r \<in> set ps. Pool_ID r \<noteq> '''' \<longrightarrow> join_pool m (Pool_ID r) (snd s) = Inr (bindings_read m (snd s) (Pool_ID r)))"
  using assms
proof (induction m ps st s rule: load_pools.induct)
  case (2 m pool pools st s)
  obtain q s1 where q: "GetPoolBindings m (Pool_ID pool) [] s = (q, s1)" by (cases "GetPoolBindings m (Pool_ID pool) [] s")
  from 2(2) q obtain bs where bs: "q = Inr bs" by (auto simp: loadServices_def split: sum.splits)
  have l: "loadServices m pool s = (Inr (SetServices bs pool), s1)" using q bs by (simp add: loadServices_def)
  note b = bindings_of_id [OF q [unfolded bs]]
  from 2(1) [OF l [symmetric] refl] 2(2) l b show ?case by auto
qed auto

lemma put_pools_maps:
  "poolsById (fold put_pool qs st) = fold (\<lambda>p m. AList.update (Pool_ID p) p m) qs (poolsById st)"
  "poolsByName (fold put_pool qs st) = fold (\<lambda>p m. AList.update (Pool_NAME p) p m) qs (poolsByName st)"
  by (induction qs arbitrary: st) (simp_all add: put_pool_def)

lemma find_unique:
  assumes "inj_on key (set xs)" "x \<in> set xs" "key x = k" shows "find (\<lambda>y. key y = k) (rev xs) = Some x"
proof -
  obtain y where y: "find (\<lambda>y. key y = k) (rev xs) = Some y" using assms(2,3) by (metis (mono_tags) find_None_iff not_None_eq set_rev)
  then have "y \<in> set xs \<and> key y = k" by (metis (mono_tags) find_Some_iff nth_mem set_rev)
  then show ?thesis using y assms inj_onD [OF assms(1), of y x] by simp
qed

text \<open>After the store was initialised for all pools it holds exactly the pools that were read: each is found under its identifier and under its name, as the same pool with
  the services that the database gives for it, and nothing else is found.\<close>

theorem store_holds_all_pools:
  assumes "Store_Init m (Inr (True, '''')) NewPoolStore s = (None, st, s')" and "GetPools m None (snd s) = Inr (n, ps)"
    and "inj_on Pool_ID (set ps)" and "inj_on Pool_NAME (set ps)"
  shows "((\<exists>p. Store_Pool i st = Inr p) \<longleftrightarrow> i \<in> Pool_ID ` set ps) \<and>
    (r \<in> set ps \<longrightarrow> (\<exists>bs. Store_Pool (Pool_ID r) st = Inr (SetServices bs r) \<and> PoolByName (Pool_NAME r) st = Inr (SetServices bs r) \<and>
      (Pool_ID r \<noteq> '''' \<longrightarrow> join_pool m (Pool_ID r) (snd s) = Inr bs)))"
proof -
  let ?q = "\<lambda>r. SetServices (bindings_read m (snd s) (Pool_ID r)) r"
  let ?st = "NewPoolStore\<lparr>ENABLE_POOLS := True, POOL_NAME := ''''\<rparr>"
  from assms(1,2) have "load_pools m ps ?st s = (None, st, s')" by (simp add: Store_Init_def Let_def)
  note parts = load_pools_parts [OF this]
  have maps: "map_of (poolsById st) k = find (\<lambda>p. Pool_ID p = k) (rev (map ?q ps))" "map_of (poolsByName st) k = find (\<lambda>p. Pool_NAME p = k) (rev (map ?q ps))" for k
    using parts by (simp_all add: put_pools_maps set_services_lookup NewPoolStore_def split: option.split)
  have inj: "inj_on Pool_ID (set (map ?q ps))" "inj_on Pool_NAME (set (map ?q ps))"
    using assms(3,4) by (auto simp: inj_on_def)
  have here: "Store_Pool (Pool_ID x) st = Inr (?q x)" "PoolByName (Pool_NAME x) st = Inr (?q x)" if "x \<in> set ps" for x
    using that find_unique [OF inj(1), of "?q x" "Pool_ID x"] find_unique [OF inj(2), of "?q x" "Pool_NAME x"]
    by (simp_all add: Store_Pool_def PoolByName_def maps)
  have gone: "i \<in> Pool_ID ` set ps" if "Store_Pool i st = Inr p" for p
  proof -
    from that have "find (\<lambda>p. Pool_ID p = i) (rev (map ?q ps)) = Some p" by (simp add: Store_Pool_def maps split: option.splits)
    then have "p \<in> ?q ` set ps \<and> Pool_ID p = i" by (metis (mono_tags) find_Some_iff nth_mem set_rev set_map)
    then show ?thesis by auto
  qed
  show ?thesis using here gone parts by auto
qed

text \<open>A finding: the operation log of an update of a pool names the pool as a service; the fields of the pool are empty.\<close>

lemma pool_update_logged_as_service:
  assumes "UpdatePool m i [(''long_name'', v)] idIsName s = (Inr p, s')"
  shows "\<exists>obj :: PoolBaseEssentials. oplogs (fst s') = oplogs (fst s) @ [no_oplog\<lparr>OpLog_ServiceId := Pool_ID obj, OpLog_ServiceName := Pool_NAME obj, Operation := ''update_pool''\<rparr>] \<and>
    OpLog_PoolId (last (oplogs (fst s'))) = ''''"
  using assms
  by (auto simp: UpdatePool_def FindPool_def log_update_def CheckIfActivate_def IsFieldSet_def OpLog_def Oplog_def set_code_def no_oplog_def
      split: sum.splits option.splits prod.splits)

subsection \<open>A pool with a database\<close>

definition pools_context :: "(bool, unit, unit OpLogPool_ext) ContextBase" where
  "pools_context = BackgroundOpContext ''1'' () sample_app ''pools''"

definition sample_cruds :: "(bool \<Rightarrow> pool_database) pool_cruds" where
  "sample_cruds = memory_cruds pools_context False 5"

definition sample_pool :: PoolBaseEssentials where
  "sample_pool = \<lparr>Pool_ID = '''', Pool_CREATED_AT = 0, Pool_UPDATED_AT = 0, Pool_NAME = ''main'', Pool_LONG_NAME = '''', Pool_DESCRIPTION = '''', Pool_ACTIVE = True\<rparr>"

definition sample_service :: PoolServiceBase where
  "sample_service = \<lparr>LONG_NAME = '''', DESCRIPTION = '''', ACTIVE = True, TYPE_NAME = ''database'', REF_ID = '''', PROVIDER = ''postgres'',
     PUBLIC_HOST = '''', PUBLIC_PORT = 0, PUBLIC_URL = '''', PRIVATE_HOST = '''', PRIVATE_PORT = 5432, PRIVATE_URL = '''', USER = ''u'', DB_NAME = ''postgres'',
     PARAMETER1 = '''', PARAMETER2 = '''', PARAMETER3 = '''', PARAMETER1_NAME = '''', PARAMETER2_NAME = '''', PARAMETER3_NAME = '''', IP_ADDRESS = ''10.0.0.1'',
     API_VERSION = '''', PATH_PREFIX = '''', SECRET1 = ''p'', SECRET2 = '''', Service_ID = '''', Service_CREATED_AT = 0, Service_UPDATED_AT = 0, Service_NAME = ''pg''\<rparr>"

definition sample_state :: "nat \<Rightarrow> (bool, unit, bool \<Rightarrow> pool_database) pool_state" where
  "sample_state k =
     (let s0 = (pools_context, \<lambda>h. \<lparr>t_pools = [], t_services = [], t_associations = []\<rparr>);
          s1 = snd (AddPool sample_cruds ''p1'' 1 sample_pool s0);
          s2 = snd (AddService sample_cruds ''s1'' 1 sample_service s1)
      in if k = 0 then s0 else if k = 1 then s1 else if k = 2 then s2
         else snd (AddServiceToPool sample_cruds ''a1'' 2 ''p1'' ''s1'' ''db'' [] s2))"

lemma sample_run:
  "fst (AddServiceToPool sample_cruds ''a1'' 2 ''p1'' ''s1'' ''db'' [] (sample_state 2)) = None"
  "Pool_ID ` set (t_pools (snd (sample_state 2) True)) = {''p1''}"
  "length (t_associations (snd (sample_state 3) True)) = 1"
  by code_simp+

lemma sample_calls:
  "(pool_call sample_cruds)\<^sup>*\<^sup>* (sample_state 0) (sample_state 2)" "(pool_call sample_cruds)\<^sup>*\<^sup>* (sample_state 0) (sample_state 3)"
proof -
  have 1: "pool_call sample_cruds (sample_state 0) (sample_state 1)"
    by (rule pool_call.add_pool [where p = sample_pool and newid = "''p1''" and now = 1]) (simp add: sample_state_def Let_def prod_eq_iff)
  have 2: "pool_call sample_cruds (sample_state 1) (sample_state 2)"
    by (rule pool_call.add_service [where p' = sample_service and newid = "''s1''" and now = 1]) (simp add: sample_state_def Let_def prod_eq_iff)
  have 3: "pool_call sample_cruds (sample_state 2) (sample_state 3)"
    by (rule pool_call.bind [where newid = "''a1''" and now = 2 and poolId = "''p1''" and serviceId = "''s1''" and role = "''db''" and idIsName = "[]"])
       (simp add: sample_state_def Let_def prod_eq_iff)
  note r = rtranclp.rtrancl_into_rtrancl [where r = "pool_call sample_cruds"]
  show "(pool_call sample_cruds)\<^sup>*\<^sup>* (sample_state 0) (sample_state 2)" by (rule r [OF r [OF rtranclp.rtrancl_refl 1] 2])
  then show "(pool_call sample_cruds)\<^sup>*\<^sup>* (sample_state 0) (sample_state 3)" by (rule r [OF _ 3])
qed

lemma sample_tables: "pool_tables sample_cruds (\<lambda>s. set (t_pools (s (DB pools_context [False])))) (\<lambda>s. set (t_services (s (DB pools_context [False]))))
    (\<lambda>s. set (t_associations (s (DB pools_context [False])))) (\<lambda>fs. set_pool (stamped 5 fs)) (\<lambda>fs. set_service (stamped 5 fs)) (\<lambda>fs a. a)"
  unfolding sample_cruds_def by (rule in_memory_pools.pool_tables_axioms)

lemma sample_db: "DB pools_context [False] = True"
  by code_simp

lemma sample_empty:
  "pools_consistent (set (t_pools (snd (sample_state 0) True))) (set (t_services (snd (sample_state 0) True))) (set (t_associations (snd (sample_state 0) True)))"
  by (simp add: sample_state_def Let_def pools_consistent_def)

theorem pool_calls_keep_consistency_witness:
  "length (t_associations (snd (sample_state 3) True)) = 1 \<and>
   pools_consistent (set (t_pools (snd (sample_state 3) True))) (set (t_services (snd (sample_state 3) True))) (set (t_associations (snd (sample_state 3) True)))"
proof -
  show ?thesis using sample_empty pool_calls_keep_consistency [OF sample_tables sample_calls(2)] sample_run(3) by (simp add: sample_db)
qed

lemma sample_load: "\<exists>p s1. LoadPool sample_cruds ''p1'' [] (sample_state 3) = (Inr (Some p), s1)"
proof -
  have "case fst (LoadPool sample_cruds ''p1'' [] (sample_state 3)) of Inr (Some p) \<Rightarrow> True | _ \<Rightarrow> False" by code_simp
  then show ?thesis by (cases "LoadPool sample_cruds ''p1'' [] (sample_state 3)") (auto split: sum.splits option.splits)
qed

theorem bound_service_is_loaded_witness:
  "\<exists>p s1 b. LoadPool sample_cruds ''p1'' [] (sample_state 3) = (Inr (Some p), s1) \<and> Service ''db'' p = Inr b \<and> ServiceId b = ''s1''"
proof -
  obtain p s1 where l: "LoadPool sample_cruds ''p1'' [] (sample_state 3) = (Inr (Some p), s1)" using sample_load by blast
  have a: "AddServiceToPool sample_cruds ''a1'' 2 ''p1'' ''s1'' ''db'' [] (sample_state 2) = (None, sample_state 3)"
    using sample_run(1) by (simp add: sample_state_def Let_def prod_eq_iff)
  have c: "pools_consistent (set (t_pools (snd (sample_state 2) (DB pools_context [False])))) (set (t_services (snd (sample_state 2) (DB pools_context [False]))))
      (set (t_associations (snd (sample_state 2) (DB pools_context [False]))))"
    using pool_tables.calls_consistent [OF sample_tables sample_calls(1)] sample_empty unfolding sample_db by blast
  have n: "'''' \<notin> Pool_ID ` set (t_pools (snd (sample_state 2) (DB pools_context [False])))" unfolding sample_db sample_run(2) by simp
  have f: "case FindByField (services_crud sample_cruds) (Pools.fieldName []) (VString ''s1'') (snd (sample_state 2)) of Inr (Some v) \<Rightarrow> Service_ID v = ''s1'' | _ \<Rightarrow> False"
    by code_simp
  from bound_service_is_loaded [OF sample_tables a c n l] obtain v b where
    v: "FindByField (services_crud sample_cruds) (Pools.fieldName []) (VString ''s1'') (snd (sample_state 2)) = Inr (Some v)"
    and b: "Service ''db'' p = Inr b" "ServiceId b = Service_ID v" by blast
  have "Service_ID v = ''s1''" using f unfolding v by simp
  then show ?thesis using l b by metis
qed

definition sample_loaded :: PoolBase where
  "sample_loaded = SetServices (bindings_read sample_cruds (snd (sample_state 3)) ''p1'') (pool_InitObject ''p1'' 1 sample_pool)"

theorem connecting_leaks_nothing_witness:
  "\<exists>k c' l n dbs. ConnectDatabaseService (memory_connections []) sample_loaded ''db'' ''tenant'' [True] pools_context ([], 0, []) = (Inr k, c', l, n, dbs) \<and> fst ` set l = {k}"
proof -
  have "case fst (ConnectDatabaseService (memory_connections []) sample_loaded ''db'' ''tenant'' [True] pools_context ([], 0, [])) of Inr k \<Rightarrow> True | Inl e \<Rightarrow> False"
    by code_simp
  then obtain k c' l n dbs where r: "ConnectDatabaseService (memory_connections []) sample_loaded ''db'' ''tenant'' [True] pools_context ([], 0, []) = (Inr k, c', l, n, dbs)"
    by (cases "ConnectDatabaseService (memory_connections []) sample_loaded ''db'' ''tenant'' [True] pools_context ([], 0, [])") (auto split: sum.splits)
  from connecting_leaks_nothing [OF memory.db_connections_axioms r] show ?thesis using r by auto
qed

theorem store_holds_all_pools_witness:
  "\<exists>st s' p. Store_Init sample_cruds (Inr (True, '''')) NewPoolStore (sample_state 3) = (None, st, s') \<and> Store_Pool ''p1'' st = Inr p"
proof -
  have "case fst (Store_Init sample_cruds (Inr (True, '''')) NewPoolStore (sample_state 3)) of None \<Rightarrow> True | Some e \<Rightarrow> False" by code_simp
  then obtain st s' where i: "Store_Init sample_cruds (Inr (True, '''')) NewPoolStore (sample_state 3) = (None, st, s')"
    by (cases "Store_Init sample_cruds (Inr (True, '''')) NewPoolStore (sample_state 3)") (auto split: option.splits)
  have g: "GetPools sample_cruds None (snd (sample_state 3)) = Inr (0, [pool_InitObject ''p1'' 1 sample_pool])" by code_simp
  from store_holds_all_pools [OF i g, of "''p1''"] show ?thesis using i by (auto simp: pool_InitObject_def)
qed

end
