(* ===== verification/Users.thy ===== *)
theory Users
  imports OpContexts
begin

section \<open>Users\<close>

text \<open>
  Models \<^verbatim>\<open>pkg/user\<close> (the data of users, the controller, the finder that authorization uses), the names and descriptions of \<^verbatim>\<open>pkg/customer\<close> and what they use of
  \<^verbatim>\<open>pkg/validator\<close>. A call works on the pair of the context of the operation and the state of the database, which a CRUD reaches. The hash of passwords and the rules of
  the validator are parameters; the generated identifier, the salt and the clock are arguments. Tracing of calls is left out.
\<close>

subsection \<open>Validation\<close>

record ValidationError =
  Validation_Message :: string
  Validation_Field :: string
  Validation_Err :: "go_error option"

definition ValidationError_Error :: "ValidationError \<Rightarrow> string" where
  "ValidationError_Error e =
     (if Validation_Message e = '''' then (case Validation_Err e of None \<Rightarrow> '''' | Some x \<Rightarrow> Error x)
      else if Validation_Field e \<noteq> '''' then ''validation failed on field \"'' @ Validation_Field e @ ''\": '' @ Validation_Message e
      else ''validation failed: '' @ Validation_Message e)"

text \<open>\<open>decode\<close> fills the sample with the map and may fail; \<open>partial\<close> validates the fields with the given names.\<close>

definition ValidateMap ::
    "(db_Fields \<Rightarrow> go_error + 'a) \<Rightarrow> ('a \<Rightarrow> string list \<Rightarrow> ValidationError option) \<Rightarrow> db_Fields \<Rightarrow> string list \<Rightarrow> ValidationError option" where
  "ValidateMap decode partial m allowedFields =
     (let keys = map fst m in
      case (if allowedFields \<noteq> [] then find (\<lambda>key. key \<in> set allowedFields) keys else None) of
        Some key \<Rightarrow> Some \<lparr>Validation_Message = ''map contains not allowed fields'', Validation_Field = key, Validation_Err = None\<rparr>
      | None \<Rightarrow>
          (case decode m of
             Inl e \<Rightarrow> Some \<lparr>Validation_Message = ''Invalid fields for update'', Validation_Field = '''', Validation_Err = Some e\<rparr>
           | Inr sample \<Rightarrow> partial sample keys))"

subsection \<open>Data\<close>

record UserBaseFields =
  PHONE :: string
  EMAIL :: string
  BLOCKED :: bool
  LOGIN :: string

record UserBaseDB = UserBaseFields +
  User_ID :: string
  User_CREATED_AT :: int
  User_UPDATED_AT :: int
  PASSWORD_HASH :: string
  PASSWORD_SALT :: string

record OpLogUser = OplogBase +
  OpLog_Login :: string
  OpLog_UserId :: string

record CheckDuplicateField =
  Check_Name :: string
  Check_Value :: string
  Check_ErrorCode :: string

definition ErrorCodeDuplicateLogin :: string where "ErrorCodeDuplicateLogin = ''duplicate_login''"
definition ErrorCodeDuplicateEmail :: string where "ErrorCodeDuplicateEmail = ''duplicate_email''"
definition ErrorCodeDuplicatePhone :: string where "ErrorCodeDuplicatePhone = ''duplicate_phone''"
definition ErrorCodeNotFound :: string where "ErrorCodeNotFound = ''resource_not_found''"

definition user_ErrorDescriptions :: "(string, string) gomap" where
  "user_ErrorDescriptions = [(ErrorCodeDuplicateLogin, ''Login already occupied''), (ErrorCodeDuplicateEmail, ''Email address is already in use''),
     (ErrorCodeDuplicatePhone, ''Phone number is already in use'')]"

definition NewUser :: UserBaseDB where
  "NewUser = \<lparr>PHONE = '''', EMAIL = '''', BLOCKED = False, LOGIN = '''', User_ID = '''', User_CREATED_AT = 0, User_UPDATED_AT = 0,
     PASSWORD_HASH = '''', PASSWORD_SALT = ''''\<rparr>"

definition user_InitObject :: "string \<Rightarrow> int \<Rightarrow> UserBaseDB \<Rightarrow> UserBaseDB" where
  "user_InitObject newid now u = u\<lparr>User_ID := newid, User_CREATED_AT := now, User_UPDATED_AT := now\<rparr>"

definition UserBase_SetPassword :: "(string \<Rightarrow> string \<Rightarrow> string) \<Rightarrow> string \<Rightarrow> string \<Rightarrow> UserBaseDB \<Rightarrow> UserBaseDB" where
  "UserBase_SetPassword phash salt password u = u\<lparr>PASSWORD_SALT := salt, PASSWORD_HASH := phash password salt\<rparr>"

text \<open>A setter of extra fields fails, or gives the user with its fields set and the fields whose values must be new.\<close>

type_synonym SetUserFields = "UserBaseDB \<Rightarrow> go_error + UserBaseDB \<times> CheckDuplicateField list"

definition SetUserFields_base :: "'z UserBaseFields_scheme \<Rightarrow> SetUserFields" where
  "SetUserFields_base fs u =
     Inr (u\<lparr>EMAIL := EMAIL fs, PHONE := PHONE fs, BLOCKED := BLOCKED fs\<rparr>,
       (if EMAIL fs \<noteq> '''' then [\<lparr>Check_Name = ''email'', Check_Value = EMAIL fs, Check_ErrorCode = ErrorCodeDuplicateEmail\<rparr>] else []) @
       (if PHONE fs \<noteq> '''' then [\<lparr>Check_Name = ''phone'', Check_Value = PHONE fs, Check_ErrorCode = ErrorCodeDuplicatePhone\<rparr>] else []))"

definition Phone_setter :: "string \<Rightarrow> SetUserFields" where
  "Phone_setter phone u = Inr (u\<lparr>PHONE := phone\<rparr>,
     if phone \<noteq> '''' then [\<lparr>Check_Name = ''phone'', Check_Value = phone, Check_ErrorCode = ErrorCodeDuplicatePhone\<rparr>] else [])"

definition Email_setter :: "string \<Rightarrow> SetUserFields" where
  "Email_setter email u = Inr (u\<lparr>EMAIL := email\<rparr>,
     if email \<noteq> '''' then [\<lparr>Check_Name = ''email'', Check_Value = email, Check_ErrorCode = ErrorCodeDuplicateEmail\<rparr>] else [])"

subsection \<open>Validators of users\<close>

definition ValidateLogin :: "(string \<Rightarrow> string \<Rightarrow> bool) \<Rightarrow> string \<Rightarrow> string \<Rightarrow> ValidationError option" where
  "ValidateLogin valid rules login =
     (if valid login rules then None else Some \<lparr>Validation_Message = ''Invalid format of login'', Validation_Field = ''login'', Validation_Err = None\<rparr>)"

definition ValidatePassword :: "string \<Rightarrow> ValidationError option" where
  "ValidatePassword password =
     (if length password < 8
      then Some \<lparr>Validation_Message = ''Password must be at least 8 characters'', Validation_Field = ''password'', Validation_Err = None\<rparr> else None)"

definition UsersValidator_Init :: "string list \<Rightarrow> string" where
  "UsersValidator_Init rules = OptionalArg ''required,alphanum_|email,lowercase'' rules"

subsection \<open>The controller\<close>

text \<open>The controller: the CRUD and, if set, the validators of logins and passwords.\<close>

record 's UserControllerBase =
  users_crud :: "('s, UserBaseDB) CRUD"
  userValidators :: "((string \<Rightarrow> ValidationError option) \<times> (string \<Rightarrow> ValidationError option)) option"
  password_hash :: "string \<Rightarrow> string \<Rightarrow> string"

type_synonym ('h, 'w, 's) user_state = "('h, 'w, unit OpLogUser_ext) ContextBase \<times> 's"

definition as_error :: "ValidationError option \<Rightarrow> go_error option" where
  "as_error v = map_option (\<lambda>e. Native (ValidationError_Error e)) v"

definition fail_code :: "string \<Rightarrow> ('h, 'w, 's) user_state \<Rightarrow> ('h, 'w, 's) user_state" where
  "fail_code code s = (SetGenericErrorCode code [] (fst s), snd s)"

definition user_OpLog :: "string \<Rightarrow> string \<Rightarrow> string \<Rightarrow> ('h, 'w, 's) user_state \<Rightarrow> ('h, 'w, 's) user_state" where
  "user_OpLog op userId login s =
     (Oplog \<lparr>oplog_ID = '''', oplog_CreatedAt = 0, oplog_UpdatedAt = 0, Operation = op, oplog_Context = '''', ContextName = '''',
       OriginApp = '''', OriginName = '''', User = '''', OriginSource = '''', OriginClient = '''', UserType = '''',
       OpLog_Login = login, OpLog_UserId = userId\<rparr> (fst s), snd s)"

definition FindUsers :: "'s UserControllerBase \<Rightarrow> Filter option \<Rightarrow> 's \<Rightarrow> string + int \<times> UserBaseDB list" where
  "FindUsers u filt d = crud_List (users_crud u) filt d"

definition taken :: "'s UserControllerBase \<Rightarrow> string \<Rightarrow> string \<Rightarrow> 's \<Rightarrow> string + bool" where
  "taken u name value d =
     (case FindUsers u (Some ((AddField name (VString value) NewFilter)\<lparr>Limit := 1\<rparr>)) d of
        Inl e \<Rightarrow> Inl e
      | Inr (n, users) \<Rightarrow> Inr (users \<noteq> []))"

fun check_duplicates :: "'s UserControllerBase \<Rightarrow> CheckDuplicateField list \<Rightarrow> ('h, 'w, 's) user_state \<Rightarrow> go_error option \<times> ('h, 'w, 's) user_state" where
  "check_duplicates u [] s = (None, s)"
| "check_duplicates u (f # fs) s =
     (case taken u (Check_Name f) (Check_Value f) (snd s) of
        Inl e \<Rightarrow> (Some (Native e), s)
      | Inr True \<Rightarrow> (Some (Native (''duplicate '' @ Check_Name f)), fail_code (Check_ErrorCode f) s)
      | Inr False \<Rightarrow> check_duplicates u fs s)"

fun set_extra_fields ::
    "'s UserControllerBase \<Rightarrow> SetUserFields list \<Rightarrow> UserBaseDB \<Rightarrow> ('h, 'w, 's) user_state \<Rightarrow> (go_error + UserBaseDB) \<times> ('h, 'w, 's) user_state" where
  "set_extra_fields u [] user s = (Inr user, s)"
| "set_extra_fields u (setter # setters) user s =
     (case setter user of
        Inl e \<Rightarrow> (Inl e, s)
      | Inr (user1, checks) \<Rightarrow>
          (case check_duplicates u checks s of
             (Some e, s1) \<Rightarrow> (Inl e, s1)
           | (None, s1) \<Rightarrow> set_extra_fields u setters user1 s1))"

definition validate_new :: "'s UserControllerBase \<Rightarrow> string \<Rightarrow> string \<Rightarrow> go_error option" where
  "validate_new u login password =
     (case userValidators u of
        None \<Rightarrow> None
      | Some (vl, vp) \<Rightarrow> (case as_error (vl login) of Some e \<Rightarrow> Some e | None \<Rightarrow> as_error (vp password)))"

definition Add ::
    "'s UserControllerBase \<Rightarrow> string \<Rightarrow> int \<Rightarrow> string \<Rightarrow> string \<Rightarrow> string \<Rightarrow> SetUserFields list \<Rightarrow> ('h, 'w, 's) user_state \<Rightarrow>
     (go_error + UserBaseDB) \<times> ('h, 'w, 's) user_state" where
  "Add u newid now salt login password setters s =
     (case validate_new u login password of
        Some e \<Rightarrow> (Inl e, s)
      | None \<Rightarrow>
          (case taken u ''login'' login (snd s) of
             Inl e \<Rightarrow> (Inl (Native e), s)
           | Inr True \<Rightarrow> (Inl (Native ''duplicate login''), fail_code ErrorCodeDuplicateLogin s)
           | Inr False \<Rightarrow>
               (case set_extra_fields u setters
                       (UserBase_SetPassword (password_hash u) salt password ((user_InitObject newid now NewUser)\<lparr>LOGIN := login\<rparr>)) s of
                  (Inl e, s1) \<Rightarrow> (Inl e, s1)
                | (Inr user, s1) \<Rightarrow>
                    (case crud_Create (users_crud u) user (snd s1) of
                       (Some e, d) \<Rightarrow> (Inl (Native e), (fst s1, d))
                     | (None, d) \<Rightarrow> (Inr user, user_OpLog ''add'' (User_ID user) login (fst s1, d))))))"

definition user_Find :: "'s UserControllerBase \<Rightarrow> string \<Rightarrow> ('h, 'w, 's) user_state \<Rightarrow> (go_error + UserBaseDB) \<times> ('h, 'w, 's) user_state" where
  "user_Find u i s =
     (case crud_Read (users_crud u) [(''id'', VString i)] (snd s) of
        Inl e \<Rightarrow> (Inl (Native e), s)
      | Inr None \<Rightarrow> (Inl (Native ''user with such ID does not exist''), fail_code ErrorCodeNotFound s)
      | Inr (Some user) \<Rightarrow> (Inr user, s))"

definition read_by_login :: "('s, UserBaseDB) CRUD \<Rightarrow> string \<Rightarrow> 's \<Rightarrow> string + UserBaseDB option" where
  "read_by_login crud login d = crud_Read crud [(''login'', VString login)] d"

definition FindByLogin :: "'s UserControllerBase \<Rightarrow> string \<Rightarrow> ('h, 'w, 's) user_state \<Rightarrow> (go_error + UserBaseDB) \<times> ('h, 'w, 's) user_state" where
  "FindByLogin u login s =
     (case read_by_login (users_crud u) login (snd s) of
        Inl e \<Rightarrow> (Inl (Native e), s)
      | Inr None \<Rightarrow> (Inl (Native ''user with such login does not exist''), fail_code ErrorCodeNotFound s)
      | Inr (Some user) \<Rightarrow> (Inr user, s))"

definition FindAuthUser :: "('s, UserBaseDB) CRUD \<Rightarrow> string \<Rightarrow> 's \<Rightarrow> string + UserBaseDB option" where
  "FindAuthUser crud login d =
     (case read_by_login crud login d of Inl e \<Rightarrow> Inl e | Inr None \<Rightarrow> Inr None | Inr (Some user) \<Rightarrow> Inr (Some user))"

definition FindUser ::
    "'s UserControllerBase \<Rightarrow> string \<Rightarrow> bool list \<Rightarrow> ('h, 'w, 's) user_state \<Rightarrow> (go_error + UserBaseDB) \<times> ('h, 'w, 's) user_state" where
  "FindUser u i idIsLogin s = (if OptionalArg False idIsLogin then FindByLogin u i s else user_Find u i s)"

text \<open>The setters find the user, update some fields of the row and write to the operation log.\<close>

definition update_user ::
    "'s UserControllerBase \<Rightarrow> string \<Rightarrow> bool list \<Rightarrow> string \<Rightarrow> (UserBaseDB \<Rightarrow> db_Fields) \<Rightarrow> ('h, 'w, 's) user_state \<Rightarrow> go_error option \<times> ('h, 'w, 's) user_state" where
  "update_user u i idIsLogin op fs s =
     (case FindUser u i idIsLogin s of
        (Inl e, s1) \<Rightarrow> (Some e, s1)
      | (Inr user, s1) \<Rightarrow>
          (case crud_Update (users_crud u) user (fs user) (snd s1) of
             (Some e, d) \<Rightarrow> (Some (Native e), (fst s1, d))
           | (None, d) \<Rightarrow> (None, user_OpLog op (User_ID user) (LOGIN user) (fst s1, d))))"

definition SetPassword ::
    "'s UserControllerBase \<Rightarrow> string \<Rightarrow> string \<Rightarrow> string \<Rightarrow> bool list \<Rightarrow> ('h, 'w, 's) user_state \<Rightarrow> go_error option \<times> ('h, 'w, 's) user_state" where
  "SetPassword u salt i password idIsLogin s =
     (case (case userValidators u of None \<Rightarrow> None | Some (vl, vp) \<Rightarrow> as_error (vp password)) of
        Some e \<Rightarrow> (Some e, s)
      | None \<Rightarrow> update_user u i idIsLogin ''set_password''
          (\<lambda>user. [(''password_hash'', VString (PASSWORD_HASH (UserBase_SetPassword (password_hash u) salt password user))),
                   (''password_salt'', VString (PASSWORD_SALT (UserBase_SetPassword (password_hash u) salt password user)))]) s)"

definition SetPhone ::
    "'s UserControllerBase \<Rightarrow> string \<Rightarrow> string \<Rightarrow> bool list \<Rightarrow> ('h, 'w, 's) user_state \<Rightarrow> go_error option \<times> ('h, 'w, 's) user_state" where
  "SetPhone u i phone idIsLogin s = update_user u i idIsLogin ''set_phone'' (\<lambda>user. [(''phone'', VString phone)]) s"

definition SetEmail ::
    "'s UserControllerBase \<Rightarrow> string \<Rightarrow> string \<Rightarrow> bool list \<Rightarrow> ('h, 'w, 's) user_state \<Rightarrow> go_error option \<times> ('h, 'w, 's) user_state" where
  "SetEmail u i email idIsLogin s = update_user u i idIsLogin ''set_email'' (\<lambda>user. [(''email'', VString email)]) s"

definition SetBlocked ::
    "'s UserControllerBase \<Rightarrow> string \<Rightarrow> bool \<Rightarrow> bool list \<Rightarrow> ('h, 'w, 's) user_state \<Rightarrow> go_error option \<times> ('h, 'w, 's) user_state" where
  "SetBlocked u i blocked idIsLogin s = update_user u i idIsLogin ''set_blocked'' (\<lambda>user. [(''blocked'', VBool blocked)]) s"

definition Customer_SetName ::
    "'s UserControllerBase \<Rightarrow> string \<Rightarrow> string \<Rightarrow> bool list \<Rightarrow> ('h, 'w, 's) user_state \<Rightarrow> go_error option \<times> ('h, 'w, 's) user_state" where
  "Customer_SetName u i name idIsLogin s = update_user u i idIsLogin ''set_name'' (\<lambda>user. [(''name'', VString name)]) s"

definition Customer_SetDescription ::
    "'s UserControllerBase \<Rightarrow> string \<Rightarrow> string \<Rightarrow> bool list \<Rightarrow> ('h, 'w, 's) user_state \<Rightarrow> go_error option \<times> ('h, 'w, 's) user_state" where
  "Customer_SetDescription u i description idIsLogin s = update_user u i idIsLogin ''set_description'' (\<lambda>user. [(''description'', VString description)]) s"

subsection \<open>What the calls rely on\<close>

definition user_col :: "UserBaseDB \<Rightarrow> string \<Rightarrow> db_value option" where
  "user_col x n =
     (if n = ''id'' then Some (VString (User_ID x)) else if n = ''login'' then Some (VString (LOGIN x))
      else if n = ''phone'' then Some (VString (PHONE x)) else if n = ''email'' then Some (VString (EMAIL x))
      else if n = ''blocked'' then Some (VBool (BLOCKED x)) else if n = ''password_hash'' then Some (VString (PASSWORD_HASH x))
      else if n = ''password_salt'' then Some (VString (PASSWORD_SALT x)) else None)"

text \<open>A read with a limit of one row finds one exactly if there is one.\<close>

locale users_table =
  ut: crud_table "users_crud u" users User_ID user_col upd
  for u :: "'s UserControllerBase" and users :: "'s \<Rightarrow> UserBaseDB set" and upd :: "db_Fields \<Rightarrow> UserBaseDB \<Rightarrow> UserBaseDB" +
  assumes listed: "crud_List (users_crud u) (Some ((fields_only m)\<lparr>Limit := 1\<rparr>)) d = Inr (k, xs) \<Longrightarrow> xs = [] \<longleftrightarrow> \<not> (\<exists>x \<in> users d. has_fields user_col m x)"
    and upd_other: "map_of m n = None \<Longrightarrow> user_col (upd m x) n = user_col x n"
    and upd_string: "map_of m n = Some (VString v) \<Longrightarrow> user_col x n = Some (VString w) \<Longrightarrow> user_col (upd m x) n = Some (VString v)"

text \<open>Setters that leave the login, the identifier and the password alone, as those of the package do.\<close>

definition plain_setter :: "SetUserFields \<Rightarrow> bool" where
  "plain_setter f \<longleftrightarrow> (\<forall>x y cs. f x = Inr (y, cs) \<longrightarrow> LOGIN y = LOGIN x \<and> User_ID y = User_ID x \<and> PASSWORD_HASH y = PASSWORD_HASH x \<and> PASSWORD_SALT y = PASSWORD_SALT x)"

lemma plain_setters: "plain_setter (SetUserFields_base fs)" "plain_setter (Phone_setter phone)" "plain_setter (Email_setter email)"
  by (auto simp: plain_setter_def SetUserFields_base_def Phone_setter_def Email_setter_def)

inductive user_call :: "'s UserControllerBase \<Rightarrow> ('h, 'w, 's) user_state \<Rightarrow> ('h, 'w, 's) user_state \<Rightarrow> bool" for u where
  add: "Add u newid now salt login password setters s = (r, s') \<Longrightarrow> list_all plain_setter setters \<Longrightarrow> user_call u s s'"
| set_password: "SetPassword u salt i password idIsLogin s = (e, s') \<Longrightarrow> user_call u s s'"
| set_phone: "SetPhone u i phone idIsLogin s = (e, s') \<Longrightarrow> user_call u s s'"
| set_email: "SetEmail u i email idIsLogin s = (e, s') \<Longrightarrow> user_call u s s'"
| set_blocked: "SetBlocked u i blocked idIsLogin s = (e, s') \<Longrightarrow> user_call u s s'"
| set_name: "Customer_SetName u i name idIsLogin s = (e, s') \<Longrightarrow> user_call u s s'"
| set_description: "Customer_SetDescription u i description idIsLogin s = (e, s') \<Longrightarrow> user_call u s s'"
| find: "FindUser u i idIsLogin s = (r, s') \<Longrightarrow> user_call u s s'"

definition users_apart :: "UserBaseDB set \<Rightarrow> bool" where
  "users_apart X \<longleftrightarrow> inj_on User_ID X \<and> inj_on LOGIN X"

lemma fail_code_db [simp]: "snd (fail_code code s) = snd s"
  by (simp add: fail_code_def)

lemma user_OpLog_db [simp]: "snd (user_OpLog op i login s) = snd s"
  by (simp add: user_OpLog_def)

lemma user_filter: "AddField n v NewFilter = fields_only [(n, v)]"
  by (simp add: AddField_def fields_only_def NewFilter_def empty_filter_def no_config_def FilterConfig.defs)

lemma check_duplicates_db [simp]: "snd (snd (check_duplicates u fs s)) = snd s"
  by (induction u fs s rule: check_duplicates.induct) (auto split: sum.split bool.split)

lemma check_duplicates_keeps: "check_duplicates u fs s = (e, s1) \<Longrightarrow> snd s1 = snd s"
  using check_duplicates_db [of u fs s] by simp

lemma set_extra_fields_db [simp]: "snd (snd (set_extra_fields u fs x s)) = snd s"
proof (induction fs arbitrary: x s)
  case (Cons f fs)
  then show ?case by (auto split: sum.split prod.split option.split dest: check_duplicates_keeps)
qed simp

lemma set_extra_fields_plain:
  assumes "set_extra_fields u fs x s = (Inr y, s')" "list_all plain_setter fs"
  shows "LOGIN y = LOGIN x \<and> User_ID y = User_ID x \<and> PASSWORD_HASH y = PASSWORD_HASH x \<and> PASSWORD_SALT y = PASSWORD_SALT x"
  using assms
proof (induction fs arbitrary: x s)
  case (Cons f fs)
  from Cons.prems(1) obtain z cs s1 where z: "f x = Inr (z, cs)" "set_extra_fields u fs z s1 = (Inr y, s')"
    by (auto split: sum.splits prod.splits option.splits)
  have "LOGIN z = LOGIN x \<and> User_ID z = User_ID x \<and> PASSWORD_HASH z = PASSWORD_HASH x \<and> PASSWORD_SALT z = PASSWORD_SALT x"
    using z(1) Cons.prems(2) by (simp add: plain_setter_def)
  then show ?case using Cons.IH [OF z(2)] Cons.prems(2) by simp
qed simp

context users_table
begin

lemma taken_iff:
  assumes "taken u n v d = Inr b" shows "b \<longleftrightarrow> (\<exists>x \<in> users d. user_col x n = Some (VString v))"
proof -
  from assms obtain k xs where l: "crud_List (users_crud u) (Some ((fields_only [(n, VString v)])\<lparr>Limit := 1\<rparr>)) d = Inr (k, xs)" and b: "b = (xs \<noteq> [])"
    by (auto simp: taken_def FindUsers_def user_filter split: sum.splits)
  show ?thesis using listed [OF l] b by (simp add: has_fields_def)
qed

lemma add_parts:
  assumes "Add u newid now salt login password setters s = (r, s')"
  shows "snd s' = snd s \<and> (\<forall>x. r \<noteq> Inr x) \<or> (\<exists>x f. taken u ''login'' login (snd s) = Inr False \<and> (\<exists>s1. set_extra_fields u setters
      (UserBase_SetPassword (password_hash u) salt password ((user_InitObject newid now NewUser)\<lparr>LOGIN := login\<rparr>)) s = (Inr x, s1)) \<and>
    crud_Create (users_crud u) x (snd s) = (f, snd s') \<and> r = (case f of None \<Rightarrow> Inr x | Some e \<Rightarrow> Inl (Native e)))"
proof (cases "validate_new u login password = None \<and> taken u ''login'' login (snd s) = Inr False")
  case False
  then show ?thesis using assms by (auto simp: Add_def split: option.splits sum.splits bool.splits)
next
  case True
  let ?x = "UserBase_SetPassword (password_hash u) salt password ((user_InitObject newid now NewUser)\<lparr>LOGIN := login\<rparr>)"
  obtain q s1 where q: "set_extra_fields u setters ?x s = (q, s1)" by (cases "set_extra_fields u setters ?x s")
  have s1: "snd s1 = snd s" using set_extra_fields_db [of u setters ?x s] q by simp
  show ?thesis
  proof (cases q)
    case (Inl e)
    then show ?thesis using assms True q s1 by (auto simp: Add_def)
  next
    case (Inr x)
    obtain f d where f: "crud_Create (users_crud u) x (snd s1) = (f, d)" by (cases "crud_Create (users_crud u) x (snd s1)")
    have "snd s' = d" "r = (case f of None \<Rightarrow> Inr x | Some e \<Rightarrow> Inl (Native e))"
      using assms True q Inr f by (auto simp: Add_def split: option.splits)
    then show ?thesis using True q Inr f s1 by auto
  qed
qed

end

text \<open>The rows of the users before and after a call: a call adds one user with a new identifier and a new login, or changes neither in the rows.\<close>

definition user_rows_step :: "UserBaseDB set \<Rightarrow> UserBaseDB set \<Rightarrow> bool" where
  "user_rows_step X Y \<longleftrightarrow> (\<exists>x. User_ID x \<notin> User_ID ` X \<and> LOGIN x \<notin> LOGIN ` X \<and> Y = insert x X) \<or>
     (\<exists>f. (\<forall>x \<in> X. User_ID (f x) = User_ID x \<and> LOGIN (f x) = LOGIN x) \<and> Y = f ` X)"

lemma user_rows_step_refl: "user_rows_step X X"
  by (auto simp: user_rows_step_def intro!: exI [of _ "\<lambda>x. x"])

lemma user_rows_step_apart:
  assumes "user_rows_step X Y" "users_apart X" shows "users_apart Y"
  using assms(1) unfolding user_rows_step_def
proof (elim disjE exE conjE)
  fix x assume "User_ID x \<notin> User_ID ` X" "LOGIN x \<notin> LOGIN ` X" "Y = insert x X"
  then show ?thesis using assms(2) by (auto simp: users_apart_def)
next
  fix f assume "\<forall>x \<in> X. User_ID (f x) = User_ID x \<and> LOGIN (f x) = LOGIN x" "Y = f ` X"
  then show ?thesis using assms(2) by (simp add: users_apart_def inj_on_def) metis
qed

lemma FindUser_db: "snd (snd (FindUser u i b s)) = snd s"
  by (auto simp: FindUser_def FindByLogin_def user_Find_def split: sum.split option.split)

context users_table
begin

lemma upd_keeps:
  assumes "map_of m ''id'' = None" "map_of m ''login'' = None" shows "User_ID (upd m x) = User_ID x" "LOGIN (upd m x) = LOGIN x"
  using upd_other [OF assms(1), of x] upd_other [OF assms(2), of x] by (auto simp: user_col_def)

lemma add_step:
  assumes "Add u newid now salt login password setters s = (r, s')" "list_all plain_setter setters"
  shows "user_rows_step (users (snd s)) (users (snd s'))"
proof (cases "snd s' = snd s")
  case True
  then show ?thesis by (simp add: user_rows_step_refl)
next
  case False
  then obtain x f s1 where t: "taken u ''login'' login (snd s) = Inr False"
    and x: "set_extra_fields u setters (UserBase_SetPassword (password_hash u) salt password ((user_InitObject newid now NewUser)\<lparr>LOGIN := login\<rparr>)) s = (Inr x, s1)"
    and f: "crud_Create (users_crud u) x (snd s) = (f, snd s')"
    using add_parts [OF assms(1)] by blast
  have "LOGIN x = login" using set_extra_fields_plain [OF x assms(2)] by (simp add: UserBase_SetPassword_def)
  then have l: "LOGIN x \<notin> LOGIN ` users (snd s)" using taken_iff [OF t] by (auto simp: user_col_def)
  show ?thesis
  proof (cases f)
    case None
    then show ?thesis using ut.created f l unfolding user_rows_step_def by blast
  next
    case (Some e)
    then show ?thesis using ut.create_failed f user_rows_step_refl by metis
  qed
qed

lemma update_step:
  assumes "update_user u i b op fs s = (e, s')" "\<And>x. map_of (fs x) ''id'' = None \<and> map_of (fs x) ''login'' = None"
  shows "user_rows_step (users (snd s)) (users (snd s'))"
proof -
  obtain r s1 where r: "FindUser u i b s = (r, s1)" by (cases "FindUser u i b s")
  have s1: "snd s1 = snd s" using FindUser_db [of u i b s] r by simp
  show ?thesis
  proof (cases r)
    case (Inl e1)
    then show ?thesis using assms(1) r s1 by (auto simp: update_user_def user_rows_step_refl)
  next
    case (Inr x)
    obtain g d where g: "crud_Update (users_crud u) x (fs x) (snd s) = (g, d)" by (cases "crud_Update (users_crud u) x (fs x) (snd s)")
    have d: "snd s' = d" using assms(1) r Inr g s1 by (auto simp: update_user_def split: option.splits)
    show ?thesis
    proof (cases g)
      case None
      let ?f = "\<lambda>y. if User_ID y = User_ID x then upd (fs x) y else y"
      have "users (snd s') = ?f ` users (snd s)" using ut.updated [OF g [unfolded None]] d by simp
      moreover have "User_ID (?f y) = User_ID y \<and> LOGIN (?f y) = LOGIN y" for y using upd_keeps assms(2) by simp
      ultimately show ?thesis unfolding user_rows_step_def by (intro disjI2 exI [of _ ?f]) simp
    next
      case (Some e2)
      then show ?thesis using ut.update_failed g d user_rows_step_refl by metis
    qed
  qed
qed

lemma SetPassword_step: "SetPassword u salt i password b s = (e, s') \<Longrightarrow> user_rows_step (users (snd s)) (users (snd s'))"
proof (cases "case userValidators u of None \<Rightarrow> None | Some (vl, vp) \<Rightarrow> as_error (vp password)")
  case None
  assume "SetPassword u salt i password b s = (e, s')"
  from this [unfolded SetPassword_def None option.case] show ?thesis by (rule update_step) simp
qed (auto simp: SetPassword_def user_rows_step_refl)

lemma call_step: "user_call u s s' \<Longrightarrow> user_rows_step (users (snd s)) (users (snd s'))"
proof (induction rule: user_call.induct)
  case (find i b s r s')
  then show ?case using FindUser_db [of u i b s] by (simp add: user_rows_step_refl)
qed (auto simp: SetPhone_def SetEmail_def SetBlocked_def Customer_SetName_def Customer_SetDescription_def intro: add_step SetPassword_step dest!: update_step)

lemma calls_keep_apart: "(user_call u)\<^sup>*\<^sup>* s s' \<Longrightarrow> users_apart (users (snd s)) \<Longrightarrow> users_apart (users (snd s'))"
  by (induction rule: rtranclp_induct) (auto dest: call_step user_rows_step_apart)

lemma login_read: "read_by_login (users_crud u) login d = Inr r \<Longrightarrow> users_apart (users d) \<Longrightarrow> x \<in> users d \<Longrightarrow> LOGIN x = login \<Longrightarrow> r = Some x"
  unfolding read_by_login_def users_apart_def
  by (cases r) (force dest: ut.read ut.read_none inj_onD simp: has_fields_def user_col_def)+

lemma add_found:
  assumes "Add u newid now salt login password setters s = (Inr x, s')" "list_all plain_setter setters" "users_apart (users (snd s))"
    and "FindAuthUser (users_crud u) login (snd s') = Inr r"
  shows "r = Some x \<and> LOGIN x = login \<and> PASSWORD_SALT x = salt \<and> PASSWORD_HASH x = password_hash u password salt"
proof -
  obtain f s1 where y: "set_extra_fields u setters (UserBase_SetPassword (password_hash u) salt password ((user_InitObject newid now NewUser)\<lparr>LOGIN := login\<rparr>)) s = (Inr x, s1)"
    and f: "crud_Create (users_crud u) x (snd s) = (None, snd s')"
    using add_parts [OF assms(1)] by (auto split: option.splits)
  have x: "LOGIN x = login \<and> PASSWORD_SALT x = salt \<and> PASSWORD_HASH x = password_hash u password salt"
    using set_extra_fields_plain [OF y assms(2)] by (simp add: UserBase_SetPassword_def)
  have "users_apart (users (snd s'))" using user_rows_step_apart add_step [OF assms(1,2)] assms(3) by blast
  moreover have "x \<in> users (snd s')" using ut.created f by blast
  ultimately show ?thesis using x assms(4) login_read [of login "snd s'" r x] by (auto simp: FindAuthUser_def split: sum.splits option.splits)
qed

end

subsection \<open>Users in memory\<close>

definition set_user :: "db_Fields \<Rightarrow> UserBaseDB \<Rightarrow> UserBaseDB" where
  "set_user fs x = x\<lparr>User_ID := string_field fs ''id'' (User_ID x), LOGIN := string_field fs ''login'' (LOGIN x), PHONE := string_field fs ''phone'' (PHONE x),
     EMAIL := string_field fs ''email'' (EMAIL x), BLOCKED := bool_field fs ''blocked'' (BLOCKED x),
     PASSWORD_HASH := string_field fs ''password_hash'' (PASSWORD_HASH x), PASSWORD_SALT := string_field fs ''password_salt'' (PASSWORD_SALT x),
     User_UPDATED_AT := time_field fs ''updated_at'' (User_UPDATED_AT x)\<rparr>"

definition db_users ::
    "((string \<Rightarrow> ValidationError option) \<times> (string \<Rightarrow> ValidationError option)) option \<Rightarrow> (string \<Rightarrow> string \<Rightarrow> string) \<Rightarrow> ('h, 'x) db_context_scheme \<Rightarrow> bool \<Rightarrow> int \<Rightarrow>
     ('h \<Rightarrow> UserBaseDB list) UserControllerBase" where
  "db_users validators phash c force now =
     \<lparr>users_crud = db_crud \<lparr>ForceMainDb = force, DryRun = False\<rparr> c now (table_handlers User_ID user_col set_user), userValidators = validators, password_hash = phash\<rparr>"

lemma user_col_cases:
  assumes "user_col x n = Some v"
  obtains "n = ''id''" "v = VString (User_ID x)" | "n = ''login''" "v = VString (LOGIN x)" | "n = ''phone''" "v = VString (PHONE x)" | "n = ''email''" "v = VString (EMAIL x)"
  | "n = ''blocked''" "v = VBool (BLOCKED x)" | "n = ''password_hash''" "v = VString (PASSWORD_HASH x)" | "n = ''password_salt''" "v = VString (PASSWORD_SALT x)"
  using assms unfolding user_col_def by (simp split: if_split_asm)

lemma user_col_None: "user_col x n = None \<Longrightarrow> user_col y n = None"
  unfolding user_col_def by (simp split: if_split_asm)

lemma user_col_sel [simp]:
  "user_col x ''id'' = Some (VString (User_ID x))" "user_col x ''login'' = Some (VString (LOGIN x))" "user_col x ''phone'' = Some (VString (PHONE x))"
  "user_col x ''email'' = Some (VString (EMAIL x))" "user_col x ''blocked'' = Some (VBool (BLOCKED x))"
  "user_col x ''password_hash'' = Some (VString (PASSWORD_HASH x))" "user_col x ''password_salt'' = Some (VString (PASSWORD_SALT x))"
  by (simp_all add: user_col_def)

interpretation in_memory_users: users_table "db_users validators phash c force now" "\<lambda>s. set (s (DB c [force]))" "\<lambda>m. set_user (stamped now m)"
  for validators :: "((string \<Rightarrow> ValidationError option) \<times> (string \<Rightarrow> ValidationError option)) option" and phash :: "string \<Rightarrow> string \<Rightarrow> string"
    and c :: "('h, 'x) db_context_scheme" and force :: bool and now :: int
proof -
  let ?u = "db_users validators phash c force now"
  have crud: "users_crud ?u = db_crud \<lparr>ForceMainDb = force, DryRun = False\<rparr> c now (table_handlers User_ID user_col set_user)"
    by (simp add: db_users_def)
  show "users_table ?u (\<lambda>s. set (s (DB c [force]))) (\<lambda>m. set_user (stamped now m))"
  proof (intro users_table.intro users_table_axioms.intro)
    show "crud_table (users_crud ?u) (\<lambda>s. set (s (DB c [force]))) User_ID user_col (\<lambda>m. set_user (stamped now m))"
      unfolding crud by (rule db_table_crud [OF in_memory.db_table_axioms])
  next
    fix m d k xs assume "crud_List (users_crud ?u) (Some ((fields_only m)\<lparr>Limit := 1\<rparr>)) d = Inr (k, xs)"
    then show "xs = [] \<longleftrightarrow> \<not> (\<exists>x \<in> set (d (DB c [force])). has_fields user_col m x)"
      by (auto simp: crud db_crud_def DbCRUD_List_def read_db_def table_handlers_def Let_def fields_only_def filter_empty_conv)
  next
    fix m :: db_Fields and n x assume m: "map_of m n = None"
    show "user_col (set_user (stamped now m) x) n = user_col x n"
    proof (cases "user_col x n")
      case None
      then show ?thesis using user_col_None [of x n] by simp
    next
      case (Some v)
      then show ?thesis using m by (cases rule: user_col_cases) (simp_all add: set_user_def string_field_def bool_field_def map_of_stamped)
    qed
  next
    fix m :: db_Fields and n v x w assume "map_of m n = Some (VString v)" "user_col x n = Some (VString w)"
    from this(2,1) show "user_col (set_user (stamped now m) x) n = Some (VString v)"
      by (cases rule: user_col_cases) (simp_all add: set_user_def string_field_def map_of_stamped)
  qed
qed

subsection \<open>What holds of the users\<close>

text \<open>C26: any sequence of calls of the controller of users and of customers, failing ones included, keeps identifiers and logins unique. Setters of extra fields leave login and identifier
  alone; calls are made one after another.\<close>

theorem user_calls_keep_apart:
  assumes "users_table u users upd" and "(user_call u)\<^sup>*\<^sup>* s s'" and "users_apart (users (snd s))"
  shows "users_apart (users (snd s'))"
  by (rule users_table.calls_keep_apart [OF assms])

definition users_context :: "(bool, unit, unit OpLogUser_ext) ContextBase" where
  "users_context = BackgroundOpContext ''1'' () sample_app ''users''"

definition sample_users :: "(bool \<Rightarrow> UserBaseDB list) UserControllerBase" where
  "sample_users = db_users (Some (\<lambda>login. None, ValidatePassword)) (\<lambda>password salt. salt @ password) users_context False 7"

definition sample_user_state :: "nat \<Rightarrow> (bool, unit, bool \<Rightarrow> UserBaseDB list) user_state" where
  "sample_user_state k =
     (let s0 = (users_context, \<lambda>h. []);
          s1 = snd (Add sample_users ''u1'' 5 ''s1'' ''alice'' ''alicealice'' [Phone_setter ''123''] s0);
          s2 = snd (Add sample_users ''u2'' 6 ''s2'' ''bob'' ''bobbobbob'' [] s1)
      in if k = 0 then s0 else if k = 1 then s1 else if k = 2 then s2 else snd (SetPhone sample_users ''bob'' ''123'' [True] s2))"

lemma sample_users_table: "users_table sample_users (\<lambda>s. set (s (DB users_context [False]))) (\<lambda>m. set_user (stamped 7 m))"
  unfolding sample_users_def by (rule in_memory_users.users_table_axioms)

lemma sample_users_db: "DB users_context [False] = True"
  by code_simp

lemma sample_user_calls: "(user_call sample_users)\<^sup>*\<^sup>* (sample_user_state 0) (sample_user_state 3)"
proof -
  have 1: "user_call sample_users (sample_user_state 0) (sample_user_state 1)"
    by (rule user_call.add [where newid = "''u1''" and now = 5 and salt = "''s1''" and login = "''alice''" and password = "''alicealice''" and setters = "[Phone_setter ''123'']"])
       (simp_all add: sample_user_state_def Let_def prod_eq_iff plain_setters)
  have 2: "user_call sample_users (sample_user_state 1) (sample_user_state 2)"
    by (rule user_call.add [where newid = "''u2''" and now = 6 and salt = "''s2''" and login = "''bob''" and password = "''bobbobbob''" and setters = "[]"])
       (simp_all add: sample_user_state_def Let_def prod_eq_iff)
  have 3: "user_call sample_users (sample_user_state 2) (sample_user_state 3)"
    by (rule user_call.set_phone [where i = "''bob''" and phone = "''123''" and idIsLogin = "[True]"]) (simp_all add: sample_user_state_def Let_def prod_eq_iff)
  show ?thesis using 1 2 3 by (meson rtranclp.rtrancl_into_rtrancl rtranclp.rtrancl_refl)
qed

theorem user_calls_keep_apart_witness:
  "map LOGIN (snd (sample_user_state 3) True) = [''alice'', ''bob''] \<and> users_apart (set (snd (sample_user_state 3) True))"
proof -
  have "users_apart (set (snd (sample_user_state 0) True))" by (simp add: sample_user_state_def Let_def users_apart_def)
  then have "users_apart (set (snd (sample_user_state 3) True))"
    using user_calls_keep_apart [OF sample_users_table sample_user_calls] unfolding sample_users_db by blast
  moreover have "map LOGIN (snd (sample_user_state 3) True) = [''alice'', ''bob'']" by code_simp
  ultimately show ?thesis by simp
qed

text \<open>\<open>Add\<close> refuses a phone that another user has; the setter of phones does not look for one: both users end with the same phone.\<close>

lemma set_phone_allows_duplicates:
  "map PHONE (snd (sample_user_state 3) True) = [''123'', ''123'']"
  "fst (Add sample_users ''u3'' 8 ''s3'' ''carol'' ''carolcarol'' [Phone_setter ''123''] (sample_user_state 2)) = Inl (Native ''duplicate phone'')"
  by code_simp+

text \<open>With a list of allowed fields \<open>ValidateMap\<close> refuses a map that has an allowed field, and lets one pass that has only others.\<close>

lemma validate_map_refuses_allowed:
  assumes "allowed \<noteq> []"
  shows "set (map fst m) \<inter> set allowed \<noteq> {} \<Longrightarrow> \<exists>e. ValidateMap decode partial m allowed = Some e \<and> Validation_Message e = ''map contains not allowed fields''"
    and "set (map fst m) \<inter> set allowed = {} \<Longrightarrow> ValidateMap decode partial m allowed = ValidateMap decode partial m []"
proof -
  assume "set (map fst m) \<inter> set allowed \<noteq> {}"
  then have "find (\<lambda>key. key \<in> set allowed) (map fst m) \<noteq> None" by (auto simp: find_None_iff)
  then show "\<exists>e. ValidateMap decode partial m allowed = Some e \<and> Validation_Message e = ''map contains not allowed fields''"
    using assms by (auto simp: ValidateMap_def Let_def)
next
  assume "set (map fst m) \<inter> set allowed = {}"
  then have "find (\<lambda>key. key \<in> set allowed) (map fst m) = None" unfolding find_None_iff by blast
  then show "ValidateMap decode partial m allowed = ValidateMap decode partial m []" by (simp add: ValidateMap_def Let_def)
qed

end
