(* ===== verification/UserLogins.thy ===== *)
theory UserLogins
  imports Users AuthLogin
begin

section \<open>Users that log in\<close>

text \<open>
  How \<^verbatim>\<open>pkg/user\<close> and \<^verbatim>\<open>pkg/auth/auth_methods/auth_login_phash\<close> work together: a user that the controller added is found by the finder of users and admitted by the
  login handler in two requests, the first for the salt and the second with the hash of the password.
\<close>

subsection \<open>The finder\<close>

text \<open>What authorization reads of a user of the database.\<close>

definition auth_user :: "UserBaseDB \<Rightarrow> User" where
  "auth_user x = \<lparr>UserId = User_ID x, UserLogin = LOGIN x, UserDisplay = LOGIN x, UserBlocked = BLOCKED x, Phone = Some (PHONE x),
     PasswordOf = Some (PASSWORD_HASH x, PASSWORD_SALT x), HmacSecret = None\<rparr>"

definition AuthUserFinder :: "('s, UserBaseDB) CRUD \<Rightarrow> 's \<Rightarrow> string \<Rightarrow> string + User option" where
  "AuthUserFinder crud d login = (case Users.FindAuthUser crud login d of Inl e \<Rightarrow> Inl e | Inr x \<Rightarrow> Inr (map_option auth_user x))"

lemma auth_user_sel [simp]:
  "UserBlocked (auth_user x) = BLOCKED x" "PasswordOf (auth_user x) = Some (PASSWORD_HASH x, PASSWORD_SALT x)"
  by (simp_all add: auth_user_def)

lemma login_handler_salt:
  assumes "GetAuthParameter LoginProtocol XLoginName [True] ctx = login" "login \<noteq> ''''" "GetAuthParameter LoginProtocol PasswordHashName [] ctx = ''''"
    and "AuthLogin.ValidateLogin l login = None" "Cache_Get (loginCache l) now (delayCacheKey login) (backend ctx) = Miss"
    and "AuthLogin.FindAuthUser l login = Inr (Some (auth_user x))" "\<not> BLOCKED x"
  shows "responseHeaders (snd (LoginHandler_Handle l now f ctx)) = responseHeaders ctx @ [(AuthKey LoginProtocol SaltName [], PASSWORD_SALT x)]"
  using assms by (simp add: LoginHandler_Handle_def Let_def login_user_def refuse_def SetAuthParameter_def)

lemma login_handler_hash:
  assumes "GetAuthParameter LoginProtocol XLoginName [True] ctx = login" "login \<noteq> ''''" "GetAuthParameter LoginProtocol PasswordHashName [] ctx = phash" "phash \<noteq> ''''"
    and "AuthLogin.ValidateLogin l login = None" "Cache_Get (loginCache l) now (delayCacheKey login) (backend ctx) = Miss"
    and "AuthLogin.FindAuthUser l login = Inr (Some (auth_user x))" "\<not> BLOCKED x"
  shows "LoginHandler_Handle l now f ctx =
    (if phash = PASSWORD_HASH x then case FillAuthUser l (ctx\<lparr>authUser := Some (auth_user x)\<rparr>) of (e, ctx') \<Rightarrow> ((True, e), ctx')
     else refuse True ErrorCodeLoginFailed ''invalid password'' (setDelay l now (delayCacheKey login) ctx))"
  using assms by (simp add: LoginHandler_Handle_def Let_def login_user_def CheckPasswordHash_def HashEqual_def)

text \<open>C25: a user that was added with a password, and not as blocked, logs in: the first request, with the login only, is answered with the salt of the user, and a second
  request is admitted as that user if it carries the hash of the password under that salt, and refused and delayed if it carries another. The logins are not throttled and the
  database can be read.\<close>

theorem added_user_logs_in:
  assumes "users_table u users upd" "Add u newid now salt login password setters s = (Inr x, s')" "list_all plain_setter setters" "users_apart (users (snd s))"
    and "password_hash u = PasswordHash mac encode" "\<not> BLOCKED x" "login \<noteq> ''''"
    and "AuthLogin.FindAuthUser l = AuthUserFinder (users_crud u) (snd s')" "Users.FindAuthUser (users_crud u) login (snd s') = Inr r" "AuthLogin.ValidateLogin l login = None"
    and "GetAuthParameter LoginProtocol XLoginName [True] ctx1 = login" "GetAuthParameter LoginProtocol PasswordHashName [] ctx1 = ''''"
    and "Cache_Get (loginCache l) t1 (delayCacheKey login) (backend ctx1) = Miss"
    and "GetAuthParameter LoginProtocol XLoginName [True] ctx2 = login" "GetAuthParameter LoginProtocol PasswordHashName [] ctx2 = phash" "phash \<noteq> ''''"
    and "Cache_Get (loginCache l) t2 (delayCacheKey login) (backend ctx2) = Miss"
  shows "let offered = snd (last (responseHeaders (snd (LoginHandler_Handle l t1 f1 ctx1)))) in
    offered = salt \<and> LoginHandler_Handle l t2 f2 ctx2 =
      (if phash = PasswordHash mac encode password offered then case FillAuthUser l (ctx2\<lparr>authUser := Some (auth_user x)\<rparr>) of (e, ctx') \<Rightarrow> ((True, e), ctx')
       else refuse True ErrorCodeLoginFailed ''invalid password'' (setDelay l t2 (delayCacheKey login) ctx2))"
proof -
  have x: "r = Some x" "PASSWORD_SALT x = salt" "PASSWORD_HASH x = PasswordHash mac encode password salt"
    using users_table.add_found [OF assms(1-4,9)] assms(5) by auto
  have l: "AuthLogin.FindAuthUser l login = Inr (Some (auth_user x))" using assms(8,9) x(1) by (simp add: AuthUserFinder_def)
  have "snd (last (responseHeaders (snd (LoginHandler_Handle l t1 f1 ctx1)))) = salt"
    using login_handler_salt [OF assms(11,7,12,10,13) l assms(6)] x(2) by simp
  then show ?thesis using login_handler_hash [OF assms(14,7,15,16,10,17) l assms(6)] x(3) by (simp add: Let_def)
qed

definition login_users :: "(bool \<Rightarrow> UserBaseDB list) UserControllerBase" where
  "login_users = db_users None (PasswordHash (\<lambda>k b. k @ b) (\<lambda>b. b)) users_context False 7"

definition login_state :: "(bool, unit, bool \<Rightarrow> UserBaseDB list) user_state" where
  "login_state = snd (Add login_users ''u1'' 5 ''salt'' ''alice'' ''secret'' [] (users_context, \<lambda>h. []))"

definition login_handler :: "int ttl_table LoginHandler" where
  "login_handler = example_login\<lparr>AuthLogin.FindAuthUser := AuthUserFinder (users_crud login_users) (snd login_state)\<rparr>"

theorem added_user_logs_in_witness:
  "snd (last (responseHeaders (snd (LoginHandler_Handle login_handler 0 ''f'' (example_login_request ''alice'' '''' []))))) = ''salt'' \<and>
   fst (LoginHandler_Handle login_handler 1 ''f'' (example_login_request ''alice'' ''secretsalt'' [])) = (True, None)"
proof -
  let ?s0 = "(users_context, \<lambda>h. []) :: (bool, unit, bool \<Rightarrow> UserBaseDB list) user_state"
  have t: "users_table login_users (\<lambda>s. set (s (DB users_context [False]))) (\<lambda>m. set_user (stamped 7 m))"
    unfolding login_users_def by (rule in_memory_users.users_table_axioms)
  have "case fst (Add login_users ''u1'' 5 ''salt'' ''alice'' ''secret'' [] ?s0) of Inl e \<Rightarrow> False | Inr x \<Rightarrow> \<not> BLOCKED x" by code_simp
  then obtain x where a: "Add login_users ''u1'' 5 ''salt'' ''alice'' ''secret'' [] ?s0 = (Inr x, login_state)" and b: "\<not> BLOCKED x"
    by (cases "Add login_users ''u1'' 5 ''salt'' ''alice'' ''secret'' [] ?s0") (auto simp: login_state_def split: sum.splits)
  have "case Users.FindAuthUser (users_crud login_users) ''alice'' (snd login_state) of Inl e \<Rightarrow> False | Inr r \<Rightarrow> True" by code_simp
  then obtain r where r: "Users.FindAuthUser (users_crud login_users) ''alice'' (snd login_state) = Inr r" by (auto split: sum.splits)
  have p: "password_hash login_users = PasswordHash (\<lambda>k b. k @ b) (\<lambda>b. b)" by (simp add: login_users_def db_users_def)
  have e: "users_apart (set (snd ?s0 (DB users_context [False])))" by (simp add: users_apart_def)
  have h: "PasswordHash (\<lambda>k b. k @ b) (\<lambda>b. b) ''secret'' ''salt'' = ''secretsalt''"
    by (simp add: PasswordHash_def Hmac_SumStr_def Hmac_Sum_def NewHmac_def)
  show ?thesis
    using added_user_logs_in [where l = login_handler and ?f1.0 = "''f''" and ?f2.0 = "''f''" and ?t1.0 = 0 and ?t2.0 = 1 and phash = "''secretsalt''"
        and ?ctx1.0 = "example_login_request ''alice'' '''' []" and ?ctx2.0 = "example_login_request ''alice'' ''secretsalt'' []",
        OF t a _ e p b _ _ r]
    by (simp add: login_handler_def example_login_miss h Let_def)
qed

end
