(* ===== verification/SmsManagers.thy ===== *)
theory SmsManagers
  imports Pools Crypto "HOL-Library.Sublist"
begin

section \<open>The SMS manager\<close>

text \<open>
  Models \<^verbatim>\<open>pkg/sms/sms_manager.go\<close> and the interface of providers in \<^verbatim>\<open>pkg/sms/sms.go\<close>: the routing of a message to a provider by the prefix of the number, the row that records a
  message, and the sending itself, with the calls of the context. What configuration, providers and destinations were loaded is an argument; a provider is a function
  on the outside world \<open>'w\<close>; the cipher, the random nonce, the clock and the generated identifier with its month are arguments.
\<close>

subsection \<open>Data\<close>

record ProviderResponse =
  ProviderMessageID :: string
  RawContent :: string

record 'w Provider =
  Provider_Name :: string
  Provider_Send :: "string \<Rightarrow> string \<Rightarrow> string list \<Rightarrow> 'w \<Rightarrow> (ProviderResponse option \<times> string option) \<times> 'w"

definition ErrorCodeSmsSendingFailed :: string where "ErrorCodeSmsSendingFailed = ''sms_sending_failed''"

definition SmsErrorDescriptions :: "(string, string) gomap" where
  "SmsErrorDescriptions = [(ErrorCodeSmsSendingFailed, ''Failed to send SMS'')]"

definition ErrorCodeInternalServerError :: string where "ErrorCodeInternalServerError = ''internal_server_error''"

definition StatusSending :: string where "StatusSending = ''sending''"
definition StatusSuccess :: string where "StatusSuccess = ''success''"
definition StatusFail :: string where "StatusFail = ''fail''"

record SmsMessage =
  Sms_ID :: string
  Sms_CREATED_AT :: int
  Sms_UPDATED_AT :: int
  Sms_Month :: int
  Sms_UserId :: string
  Sms_UserLogin :: string
  Sms_UserDisplay :: string
  Sms_Context :: string
  ForeignId :: string
  Sms_Phone :: string
  Sms_Operation :: string
  Sms_Provider :: string
  Status :: string
  Sms_Tenancy :: string
  Message :: string
  RawResponse :: string

record SmsManagerBaseConfig =
  DEFAULT_PROVIDER :: string
  ENCRYPT_MESSAGE_STORE :: bool
  SECRET :: string
  SALT :: string

record SmsDestinationConfig =
  PREFIX :: string
  PROVIDER :: string

record 'w SmsDestination = SmsDestinationConfig +
  provider :: "'w Provider"

record ('w, 'h) SmsManagerBase = SmsManagerBaseConfig +
  destinations :: "'w SmsDestination list"
  cipher :: "aead_cipher option"
  defaultProvider :: "'w Provider option"
  sms_db :: "'h option"

definition NewSmsManager :: "('w, 'h) SmsManagerBase" where
  "NewSmsManager = \<lparr>DEFAULT_PROVIDER = '''', ENCRYPT_MESSAGE_STORE = False, SECRET = '''', SALT = '''', destinations = [], cipher = None, defaultProvider = None, sms_db = None\<rparr>"

subsection \<open>Initialization\<close>

text \<open>A failure is pushed to the stack of fatal errors of the logger.\<close>

type_synonym fatals = "nat \<Rightarrow> fatalError"

definition fatal :: "logger \<Rightarrow> string \<Rightarrow> string option \<Rightarrow> db_Fields list \<Rightarrow> fatals \<Rightarrow> (string + 'a) \<times> fatals" where
  "fatal lg message err fs st = (case PushFatalStack lg message err fs st of (e, st1) \<Rightarrow> (Inl e, st1))"

definition init_cipher :: "logger \<Rightarrow> AEADConfig \<Rightarrow> ('w, 'h) SmsManagerBase \<Rightarrow> fatals \<Rightarrow> (string + ('w, 'h) SmsManagerBase) \<times> fatals" where
  "init_cipher lg acfg s st =
     (if \<not> ENCRYPT_MESSAGE_STORE s then (Inr s, st)
      else if SECRET s = '''' then fatal lg ''encryption secret must not be empty'' None [] st
      else if SALT s = '''' then fatal lg ''encryption salt must not be empty'' None [] st
      else case NewAEAD acfg (SECRET s) (SALT s) of
             Inl e \<Rightarrow> fatal lg ''failed to init cipher for SMS manager'' (Some e) [] st
           | Inr c \<Rightarrow> (Inr (s\<lparr>cipher := Some c\<rparr>), st))"

text \<open>The destinations in the order of the configuration, each with its provider, or the first whose provider is not known.\<close>

fun set_destinations :: "(string, 'w Provider) gomap \<Rightarrow> SmsDestinationConfig list \<Rightarrow> SmsDestinationConfig + 'w SmsDestination list" where
  "set_destinations providers [] = Inr []"
| "set_destinations providers (d # ds) =
     (case map_of providers (PROVIDER d) of
        None \<Rightarrow> Inl d
      | Some p \<Rightarrow> (case set_destinations providers ds of Inl x \<Rightarrow> Inl x | Inr xs \<Rightarrow> Inr (SmsDestinationConfig.extend d \<lparr>provider = p\<rparr> # xs)))"

definition sort_destinations :: "'w SmsDestination list \<Rightarrow> 'w SmsDestination list" where
  "sort_destinations ds = sort_key (\<lambda>d. - int (length (PREFIX d))) ds"

definition init_routes :: "logger \<Rightarrow> (string, 'w Provider) gomap \<Rightarrow> SmsDestinationConfig list \<Rightarrow> ('w, 'h) SmsManagerBase \<Rightarrow> fatals \<Rightarrow> (string + ('w, 'h) SmsManagerBase) \<times> fatals" where
  "init_routes lg providers ds s st =
     (case map_of providers (DEFAULT_PROVIDER s) of
        None \<Rightarrow> fatal lg ''unknown default provider'' None [[(''default_provider'', VString (DEFAULT_PROVIDER s))]] st
      | Some p \<Rightarrow>
          (case set_destinations providers ds of
             Inl d \<Rightarrow> fatal lg ''unknown provider for destination'' None [[(''provider'', VString (PROVIDER d)), (''destination'', VString (PREFIX d))]] st
           | Inr xs \<Rightarrow> (Inr (s\<lparr>defaultProvider := Some p, destinations := sort_destinations xs\<rparr>), st)))"

definition SmsManager_Init ::
    "logger \<Rightarrow> AEADConfig \<Rightarrow> string + SmsManagerBaseConfig \<Rightarrow> string + (string, 'w Provider) gomap \<Rightarrow> string + SmsDestinationConfig list \<Rightarrow>
     ('w, 'h) SmsManagerBase \<Rightarrow> fatals \<Rightarrow> (string + ('w, 'h) SmsManagerBase) \<times> fatals" where
  "SmsManager_Init lg acfg cfg loadedProviders loadedDestinations s st =
     (case cfg of
        Inl e \<Rightarrow> fatal lg ''failed to init SMS manager'' (Some e) [] st
      | Inr base \<Rightarrow>
          (case init_cipher lg acfg (SmsManagerBaseConfig.extend base (SmsManagerBaseConfig.more s)) st of
             (Inl e, st1) \<Rightarrow> (Inl e, st1)
           | (Inr s1, st1) \<Rightarrow>
               (case loadedProviders of
                  Inl e \<Rightarrow> fatal lg ''failed to load SMS providers'' (Some e) [] st1
                | Inr providers \<Rightarrow>
                    (case loadedDestinations of
                       Inl e \<Rightarrow> fatal lg ''failed to load SMS destinations'' (Some e) [] st1
                     | Inr ds \<Rightarrow> init_routes lg providers ds s1 st1))))"

subsection \<open>Sending\<close>

type_synonym ('h, 'o, 'z, 't, 'w) sms_state = "('h, 'o, 'z) ContextBase \<times> ('h \<Rightarrow> 't) \<times> 'w"

text \<open>Who sends: the user, as identifier, login and display, and the tenancy of the context.\<close>

record sms_sender =
  sender_id :: string
  sender_login :: string
  sender_display :: string
  sender_tenancy :: string

definition InitDbService ::
    "('h, 'e) connections \<Rightarrow> PoolBase \<Rightarrow> string \<Rightarrow> ('w, 'h) SmsManagerBase \<Rightarrow> ('h, 'o, 'z) ContextBase \<times> 'e \<Rightarrow> (go_error option \<times> ('w, 'h) SmsManagerBase) \<times> ('h, 'o, 'z) ContextBase \<times> 'e" where
  "InitDbService env poool role s = (\<lambda>(c0, v).
     case TraceInMethod ''SmsManagerBase.InitDbService'' [] c0 of (i, c1) \<Rightarrow>
       (case ConnectDatabaseService env poool role '''' [] c1 v of
          (Inl e, c2, v1) \<Rightarrow> ((Some e, s\<lparr>sms_db := None\<rparr>), (TraceOutMethod (SetError i (Some e) (SetMessage i ''faield to connect to database service in the pool'' c2)), v1))
        | (Inr k, c2, v1) \<Rightarrow> ((None, s\<lparr>sms_db := Some k\<rparr>), (TraceOutMethod c2, v1))))"

definition Sms_Db :: "('w, 'h) SmsManagerBase \<Rightarrow> ('h, 'x) db_context_scheme \<Rightarrow> 'h" where
  "Sms_Db s c = (case sms_db s of Some h \<Rightarrow> h | None \<Rightarrow> DB c [])"

definition provider_for :: "('w, 'h) SmsManagerBase \<Rightarrow> string \<Rightarrow> 'w Provider option" where
  "provider_for s recipient = (case find (\<lambda>d. prefix (PREFIX d) recipient) (destinations s) of None \<Rightarrow> defaultProvider s | Some d \<Rightarrow> Some (provider d))"

definition new_sms :: "string \<Rightarrow> int \<Rightarrow> int \<Rightarrow> sms_sender \<Rightarrow> ('h, 'o, 'z) ContextBase \<Rightarrow> string \<Rightarrow> string \<Rightarrow> SmsMessage" where
  "new_sms newid now month who c recipient pname =
     \<lparr>Sms_ID = newid, Sms_CREATED_AT = now, Sms_UPDATED_AT = now, Sms_Month = month, Sms_UserId = sender_id who, Sms_UserLogin = sender_login who,
      Sms_UserDisplay = sender_display who, Sms_Context = context_id c, ForeignId = '''', Sms_Phone = recipient, Sms_Operation = context_name c,
      Sms_Provider = pname, Status = StatusSending, Sms_Tenancy = sender_tenancy who, Message = '''', RawResponse = ''''\<rparr>"

definition sms_exit :: "nat \<Rightarrow> string option \<Rightarrow> ('h, 'o, 'z) ContextBase \<Rightarrow> ('h, 'o, 'z) ContextBase" where
  "sms_exit i err c =
     TraceOutMethod (case err of
        Some e \<Rightarrow> SetErrorStr i e c
      | None \<Rightarrow> write_log (frame_logger (proxyLogger c) (frames c) i) (LogAt InfoLevel ''sms sent'') [] c)"

definition sms_outcome :: "SmsMessage \<Rightarrow> ProviderResponse option \<Rightarrow> string option \<Rightarrow> SmsMessage" where
  "sms_outcome sms resp err =
     (let sms1 = (case resp of None \<Rightarrow> sms | Some r \<Rightarrow> sms\<lparr>RawResponse := RawContent r, ForeignId := ProviderMessageID r\<rparr>)
      in sms1\<lparr>Status := if err \<noteq> None then StatusFail else StatusSuccess\<rparr>)"

text \<open>The part of \<open>Send\<close> after the row was stored.\<close>

definition send_stored ::
    "('w, 'h) SmsManagerBase \<Rightarrow> ('t, SmsMessage) DBHandlers \<Rightarrow> int \<Rightarrow> 'w Provider \<Rightarrow> nat \<Rightarrow> string \<Rightarrow> string \<Rightarrow> SmsMessage \<Rightarrow>
     ('h, 'o, 'z, 't, 'w) sms_state \<Rightarrow> (string \<times> string option) \<times> ('h, 'o, 'z, 't, 'w) sms_state" where
  "send_stored s h now2 p i message recipient sms = (\<lambda>(c, d, w).
     case Provider_Send p message recipient [Sms_ID sms] w of ((resp, err), w1) \<Rightarrow>
       (let sms1 = sms_outcome sms resp err;
            c1 = (if err \<noteq> None then SetMessage i ''failed to send SMS'' c else c);
            k = Sms_Db s c
        in case db_Update now2 h sms1 [(''status'', VString (Status sms1)), (''raw_response'', VString (RawResponse sms1)), (''foreign_id'', VString (ForeignId sms1))] (d k) of
             (err1, t) \<Rightarrow>
               (let c2 = (case err1 of
                      None \<Rightarrow> c1
                    | Some e1 \<Rightarrow>
                        (let cf = Call_SetLoggerField i ''raw_response'' (VString (RawResponse sms1)) (Call_SetLoggerField i ''status'' (VString (Status sms1)) c1)
                         in write_log (frame_logger (proxyLogger cf) (frames cf) i) (LogError ''failed to update SMS in database'' (Some e1)) [] cf))
                in ((Sms_ID sms, err), (sms_exit i err c2, d(k := t), w1)))))"

text \<open>What is stored of the message; \<open>None\<close> is the panic of a manager without a cipher.\<close>

definition stored_text :: "('w, 'h) SmsManagerBase \<Rightarrow> (bytes \<Rightarrow> string) \<Rightarrow> string + bytes \<Rightarrow> string \<Rightarrow> (string + string) option" where
  "stored_text s encode nonce message =
     (if \<not> ENCRYPT_MESSAGE_STORE s then Some (Inr message)
      else map_option (\<lambda>a. case AEAD_Encrypt a nonce message [] of Inl e \<Rightarrow> Inl e | Inr ct \<Rightarrow> Inr (encode ct)) (cipher s))"

text \<open>A panic, of a manager that was not initialized, is \<open>None\<close>. The error of the encryption is a variable of its own, so the exit of the call sees none.\<close>

definition Send ::
    "('w, 'h) SmsManagerBase \<Rightarrow> ('t, SmsMessage) DBHandlers \<Rightarrow> (bytes \<Rightarrow> string) \<Rightarrow> string + bytes \<Rightarrow> string \<Rightarrow> int \<Rightarrow> int \<Rightarrow> int \<Rightarrow> sms_sender \<Rightarrow> string \<Rightarrow> string \<Rightarrow>
     ('h, 'o, 'z, 't, 'w) sms_state \<Rightarrow> ((string \<times> string option) \<times> ('h, 'o, 'z, 't, 'w) sms_state) option" where
  "Send s h encode nonce newid now month now2 who message recipient = (\<lambda>(c0, d, w).
     case TraceInMethod ''SmsManagerBase.Send'' [[(''recipient'', VString recipient)]] c0 of (i, c1) \<Rightarrow>
       (case provider_for s recipient of
          None \<Rightarrow> None
        | Some p \<Rightarrow>
            (let c2 = Call_SetLoggerField i ''user'' (VString (sender_display who)) (Call_SetLoggerField i ''provider'' (VString (Provider_Name p)) c1);
                 sms = new_sms newid now month who c2 recipient (Provider_Name p);
                 c3 = Call_SetLoggerField i ''sms_id'' (VString (Sms_ID sms)) c2
             in case stored_text s encode nonce message of
                  None \<Rightarrow> None
                | Some (Inl e) \<Rightarrow>
                    Some (('''', Some e), (sms_exit i None (SetGenericErrorCode ErrorCodeInternalServerError [] (SetMessage i ''failed to encrypt message'' c3)), d, w))
                | Some (Inr m) \<Rightarrow>
                    (let sms1 = sms\<lparr>Message := m\<rparr>; k = Sms_Db s c3
                     in case h_Create h sms1 (d k) of
                          (Some e, t) \<Rightarrow> Some (('''', Some e),
                             (sms_exit i (Some e) (SetGenericErrorCode ErrorCodeInternalServerError [] (SetMessage i ''failed to save SMS in database'' c3)), d(k := t), w))
                        | (None, t) \<Rightarrow> Some (send_stored s h now2 p i message recipient sms1 (c3, d(k := t), w))))))"

definition FindSms ::
    "('w, 'h) SmsManagerBase \<Rightarrow> ('t, SmsMessage) DBHandlers \<Rightarrow> string \<Rightarrow> ('h, 'o, 'z, 't, 'w) sms_state \<Rightarrow> (string + SmsMessage) \<times> ('h, 'o, 'z, 't, 'w) sms_state" where
  "FindSms s h smsId = (\<lambda>(c0, d, w).
     case TraceInMethod ''SmsManagerBase.FindSms'' [[(''sms_id'', VString smsId)]] c0 of (i, c1) \<Rightarrow>
       (case h_FindByField h ''id'' (VString smsId) (d (Sms_Db s c1)) of
          Inl e \<Rightarrow> (Inl e, (TraceOutMethod (SetErrorStr i e (SetMessage i ''failed to find SMS in database'' c1)), d, w))
        | Inr None \<Rightarrow> (Inl ''SMS not found'', (TraceOutMethod (SetErrorStr i ''SMS not found'' c1), d, w))
        | Inr (Some msg) \<Rightarrow> (Inr msg, (TraceOutMethod c1, d, w))))"

subsection \<open>Routing\<close>

lemma find_filter: "find P xs = (case filter P xs of [] \<Rightarrow> None | x # ys \<Rightarrow> Some x)"
  by (induction xs) auto

lemma filter_split_first:
  assumes "filter P xs = x # ys" obtains as bs where "xs = as @ x # bs" "\<forall>y \<in> set as. \<not> P y" "filter P bs = ys" "P x"
  using assms by (auto simp: filter_eq_Cons_iff)

text \<open>The first hit in a list that was sorted by a key is the first hit with the least key.\<close>

lemma find_sorted_first:
  assumes "find P (sort_key f xs) = Some x"
  obtains as bs where "xs = as @ x # bs" "P x" "\<forall>y \<in> set as. P y \<longrightarrow> f x < f y" "\<forall>y \<in> set bs. P y \<longrightarrow> f x \<le> f y"
proof -
  let ?ys = "sort_key f (filter P xs)"
  obtain zs where ys: "?ys = x # zs" using assms by (auto simp: find_filter filter_sort split: list.splits)
  have least: "f x \<le> f y" if "y \<in> set xs" "P y" for y
  proof -
    have "y \<in> set ?ys" using that by simp
    moreover have "sorted (map f (x # zs))" using sorted_sort_key [of f "filter P xs"] unfolding ys .
    ultimately show ?thesis unfolding ys by auto
  qed
  have "filter (\<lambda>y. f y = f x) (filter P xs) = filter (\<lambda>y. f y = f x) ?ys" by (rule sort_key_stable [symmetric])
  then have "filter (\<lambda>y. f y = f x) (filter P xs) = x # filter (\<lambda>y. f y = f x) zs" unfolding ys by simp
  then have "filter (\<lambda>y. P y \<and> f y = f x) xs = x # filter (\<lambda>y. f y = f x) zs" by (simp add: conj_commute)
  then obtain as bs where s: "xs = as @ x # bs" "\<forall>y \<in> set as. \<not> (P y \<and> f y = f x)" "P x" by (auto elim: filter_split_first)
  have "\<forall>y \<in> set as. P y \<longrightarrow> f x < f y" using s least by (metis UnI1 order_neq_le_trans set_append)
  moreover have "\<forall>y \<in> set bs. P y \<longrightarrow> f x \<le> f y" using s least by simp
  ultimately show ?thesis using that s by blast
qed

lemma set_destinations_map:
  "set_destinations ps ds = Inr xs \<Longrightarrow> map SmsDestinationConfig.truncate xs = ds \<and> (\<forall>x \<in> set xs. map_of ps (PROVIDER x) = Some (provider x))"
  by (induction ds arbitrary: xs)
    (auto split: option.splits sum.splits simp: SmsDestinationConfig.defs SmsDestination.defs)

lemma init_routes_ok:
  assumes "init_routes lg ps ds s st = (Inr s', st')"
  obtains p xs where "map_of ps (DEFAULT_PROVIDER s) = Some p" "set_destinations ps ds = Inr xs" "s' = s\<lparr>defaultProvider := Some p, destinations := sort_destinations xs\<rparr>"
  using assms by (auto simp: init_routes_def fatal_def split: option.splits sum.splits prod.splits)

lemma init_cipher_ok:
  assumes "init_cipher lg a s st = (Inr s', st')"
  shows "st' = st \<and> (ENCRYPT_MESSAGE_STORE s \<longrightarrow> (\<exists>c. NewAEAD a (SECRET s) (SALT s) = Inr c \<and> s' = s\<lparr>cipher := Some c\<rparr>)) \<and> (\<not> ENCRYPT_MESSAGE_STORE s \<longrightarrow> s' = s)"
  using assms by (auto simp: init_cipher_def fatal_def split: if_splits sum.splits prod.splits)

lemma init_cipher_same: "init_cipher lg a s st = (Inr s', st') \<Longrightarrow> DEFAULT_PROVIDER s' = DEFAULT_PROVIDER s \<and> ENCRYPT_MESSAGE_STORE s' = ENCRYPT_MESSAGE_STORE s"
  by (cases "ENCRYPT_MESSAGE_STORE s") (auto dest!: init_cipher_ok)

lemma Init_ok:
  assumes "SmsManager_Init lg a (Inr base) (Inr ps) (Inr ds) s0 st = (Inr s, st')"
  obtains p xs where "map_of ps (DEFAULT_PROVIDER base) = Some p" "set_destinations ps ds = Inr xs" "defaultProvider s = Some p" "destinations s = sort_destinations xs"
    "ENCRYPT_MESSAGE_STORE s = ENCRYPT_MESSAGE_STORE base" "ENCRYPT_MESSAGE_STORE s \<Longrightarrow> cipher s \<noteq> None"
proof -
  let ?s1 = "SmsManagerBaseConfig.extend base (SmsManagerBaseConfig.more s0) :: ('a, 'b) SmsManagerBase"
  obtain s1 st1 where c: "init_cipher lg a ?s1 st = (Inr s1, st1)" and r: "init_routes lg ps ds s1 st1 = (Inr s, st')"
    using assms by (auto simp: SmsManager_Init_def split: prod.splits sum.splits)
  have s1: "DEFAULT_PROVIDER s1 = DEFAULT_PROVIDER base" "ENCRYPT_MESSAGE_STORE s1 = ENCRYPT_MESSAGE_STORE base"
    using init_cipher_same [OF c] by (simp_all add: SmsManagerBaseConfig.defs)
  have e: "ENCRYPT_MESSAGE_STORE s1 \<Longrightarrow> cipher s1 \<noteq> None" using init_cipher_ok [OF c] s1 by (auto simp: SmsManagerBaseConfig.defs)
  from init_routes_ok [OF r] obtain p xs where "map_of ps (DEFAULT_PROVIDER s1) = Some p" "set_destinations ps ds = Inr xs"
    "s = s1\<lparr>defaultProvider := Some p, destinations := sort_destinations xs\<rparr>" .
  with s1 e that show ?thesis by simp
qed

text \<open>C22: a manager that was initialized sends a message through the provider of the longest prefix of the number among the configured destinations, the first of them if a prefix is
  given twice, and through the default provider if no prefix fits; there is always a provider.\<close>

theorem sms_goes_to_longest_prefix:
  assumes "SmsManager_Init lg a (Inr base) (Inr ps) (Inr ds) s0 st = (Inr s, st')"
  shows "\<exists>p. provider_for s recipient = Some p \<and>
    ((\<forall>d \<in> set ds. \<not> prefix (PREFIX d) recipient) \<and> map_of ps (DEFAULT_PROVIDER base) = Some p \<or>
     (\<exists>before d after. ds = before @ d # after \<and> prefix (PREFIX d) recipient \<and> map_of ps (PROVIDER d) = Some p \<and>
        (\<forall>x \<in> set before. prefix (PREFIX x) recipient \<longrightarrow> length (PREFIX x) < length (PREFIX d)) \<and>
        (\<forall>x \<in> set after. prefix (PREFIX x) recipient \<longrightarrow> length (PREFIX x) \<le> length (PREFIX d))))"
proof -
  obtain p xs where i: "map_of ps (DEFAULT_PROVIDER base) = Some p" "set_destinations ps ds = Inr xs" "defaultProvider s = Some p" "destinations s = sort_destinations xs"
    using Init_ok [OF assms] by metis
  have ds: "ds = map SmsDestinationConfig.truncate xs" and xs: "\<And>x. x \<in> set xs \<Longrightarrow> map_of ps (PROVIDER x) = Some (provider x)"
    using set_destinations_map [OF i(2)] by auto
  have tr: "PREFIX (SmsDestinationConfig.truncate x) = PREFIX x" "PROVIDER (SmsDestinationConfig.truncate x) = PROVIDER x" for x :: "'a SmsDestination"
    by (simp_all add: SmsDestinationConfig.defs)
  show ?thesis
  proof (cases "find (\<lambda>d. prefix (PREFIX d) recipient) (sort_destinations xs)")
    case None
    then have "\<forall>d \<in> set ds. \<not> prefix (PREFIX d) recipient" by (auto simp: find_None_iff sort_destinations_def ds tr)
    then show ?thesis using None i by (simp add: provider_for_def)
  next
    case (Some x)
    then obtain as bs where "xs = as @ x # bs" "prefix (PREFIX x) recipient" "\<forall>y \<in> set as. prefix (PREFIX y) recipient \<longrightarrow> length (PREFIX y) < length (PREFIX x)"
      "\<forall>y \<in> set bs. prefix (PREFIX y) recipient \<longrightarrow> length (PREFIX y) \<le> length (PREFIX x)"
      unfolding sort_destinations_def by (elim find_sorted_first) auto
    moreover have "provider_for s recipient = Some (provider x)" using Some i by (simp add: provider_for_def)
    ultimately show ?thesis using xs [of x] unfolding ds
      by (intro exI [of _ "provider x"] conjI disjI2 exI [of _ "map SmsDestinationConfig.truncate as"] exI [of _ "SmsDestinationConfig.truncate x"]
          exI [of _ "map SmsDestinationConfig.truncate bs"]) (auto simp: tr)
  qed
qed

subsection \<open>Recording\<close>

definition sms_col :: "SmsMessage \<Rightarrow> string \<Rightarrow> db_value option" where
  "sms_col x n =
     (if n = ''id'' then Some (VString (Sms_ID x)) else if n = ''status'' then Some (VString (Status x)) else if n = ''phone'' then Some (VString (Sms_Phone x))
      else if n = ''foreign_id'' then Some (VString (ForeignId x)) else if n = ''provider'' then Some (VString (Sms_Provider x))
      else if n = ''raw_response'' then Some (VString (RawResponse x)) else if n = ''message'' then Some (VString (Message x)) else None)"

text \<open>What an update with the fields of \<open>Send\<close> does to a row.\<close>

definition set_sms :: "db_Fields \<Rightarrow> SmsMessage \<Rightarrow> SmsMessage" where
  "set_sms fs x = x\<lparr>Status := string_field fs ''status'' (Status x), RawResponse := string_field fs ''raw_response'' (RawResponse x),
     ForeignId := string_field fs ''foreign_id'' (ForeignId x), Sms_UPDATED_AT := time_field fs ''updated_at'' (Sms_UPDATED_AT x)\<rparr>"

lemma db_kept [simp]:
  "DB (on_frame i f c) x = DB c x" "DB (write_log l call fs c) x = DB c x" "DB (SetLoggerField n v c) x = DB c x"
  by (simp_all add: DB_def on_frame_def write_log_def SetLoggerField_def split: option.split)

lemma db_traced [simp]: "DB (snd (TraceInMethod n fs c)) x = DB c x"
  by (simp add: TraceInMethod_def traceIn_def Let_def) (simp add: DB_def split: option.split)

lemma Sms_Db_kept [simp]:
  "Sms_Db s (Call_SetLoggerField i n v c) = Sms_Db s c" "Sms_Db s (snd (TraceInMethod n fs c)) = Sms_Db s c"
  by (simp_all add: Sms_Db_def Call_SetLoggerField_def split: option.split)

lemma send_stored_parts:
  assumes "send_stored s h now2 p i message recipient sms (c, d, w) = ((j, e), (c', d', w'))"
  obtains resp f where "Provider_Send p message recipient [Sms_ID sms] w = ((resp, e), w')" "j = Sms_ID sms"
    "db_Update now2 h (sms_outcome sms resp e) [(''status'', VString (Status (sms_outcome sms resp e))), (''raw_response'', VString (RawResponse (sms_outcome sms resp e))),
       (''foreign_id'', VString (ForeignId (sms_outcome sms resp e)))] (d (Sms_Db s c)) = (f, d' (Sms_Db s c))" "\<And>k. k \<noteq> Sms_Db s c \<Longrightarrow> d' k = d k"
  using assms by (auto simp: send_stored_def Let_def split: prod.splits)

lemma sms_outcome_sel [simp]:
  "Sms_ID (sms_outcome sms resp e) = Sms_ID sms" "Status (sms_outcome sms resp e) = (if e = None then StatusSuccess else StatusFail)"
  by (auto simp: sms_outcome_def Let_def split: option.split)

text \<open>A message whose row holds what was sent: to whom, through which provider, and the text or what encrypts to it.\<close>

definition sms_records :: "string \<Rightarrow> string \<Rightarrow> string \<Rightarrow> sms_sender \<Rightarrow> string \<Rightarrow> SmsMessage \<Rightarrow> bool" where
  "sms_records i recipient pname who m x \<longleftrightarrow> Sms_ID x = i \<and> Sms_Phone x = recipient \<and> Sms_Provider x = pname \<and> Sms_UserId x = sender_id who \<and>
     Sms_Tenancy x = sender_tenancy who \<and> Message x = m"

lemma Send_cases:
  assumes "Send s h encode nonce newid now month now2 who message recipient (c, d, w) = Some ((i, e), (c', d', w'))"
  obtains (unsent) e1 where "i = ''''" "e = Some e1" "w' = w" "d' = d \<or> (\<exists>x t. h_Create h x (d (Sms_Db s c)) = (Some e1, t) \<and> d' = d(Sms_Db s c := t))"
  | (sent) p m x t resp f where "provider_for s recipient = Some p" "stored_text s encode nonce message = Some (Inr m)" "i = newid"
    "sms_records newid recipient (Provider_Name p) who m x" "Status x = StatusSending" "h_Create h x (d (Sms_Db s c)) = (None, t)"
    "Provider_Send p message recipient [newid] w = ((resp, e), w')"
    "db_Update now2 h (sms_outcome x resp e) [(''status'', VString (Status (sms_outcome x resp e))), (''raw_response'', VString (RawResponse (sms_outcome x resp e))),
       (''foreign_id'', VString (ForeignId (sms_outcome x resp e)))] t = (f, d' (Sms_Db s c))" "\<And>k. k \<noteq> Sms_Db s c \<Longrightarrow> d' k = d k"
proof -
  let ?c1 = "snd (TraceInMethod ''SmsManagerBase.Send'' [[(''recipient'', VString recipient)]] c)" and ?j = "fst (TraceInMethod ''SmsManagerBase.Send'' [[(''recipient'', VString recipient)]] c)"
  obtain p where p: "provider_for s recipient = Some p" using assms by (auto simp: Send_def split: prod.splits option.splits)
  let ?c2 = "Call_SetLoggerField ?j ''user'' (VString (sender_display who)) (Call_SetLoggerField ?j ''provider'' (VString (Provider_Name p)) ?c1)"
  let ?sms = "new_sms newid now month who ?c2 recipient (Provider_Name p)"
  let ?c3 = "Call_SetLoggerField ?j ''sms_id'' (VString (Sms_ID ?sms)) ?c2"
  have k: "Sms_Db s ?c3 = Sms_Db s c" by simp
  obtain q where q: "stored_text s encode nonce message = Some q" using assms p by (auto simp: Send_def Let_def split: prod.splits option.splits)
  show ?thesis
  proof (cases q)
    case (Inl e1)
    then show ?thesis using assms p q unsent by (auto simp: Send_def Let_def split: prod.splits)
  next
    case (Inr m)
    obtain g t where g: "h_Create h (?sms\<lparr>Message := m\<rparr>) (d (Sms_Db s c)) = (g, t)" by (cases "h_Create h (?sms\<lparr>Message := m\<rparr>) (d (Sms_Db s c))")
    show ?thesis
    proof (cases g)
      case (Some e1)
      then have "i = ''''" "e = Some e1" "w' = w" "d' = d(Sms_Db s c := t)"
        using assms p q Inr g by (auto simp: Send_def Let_def case_prod_beta)
      then show ?thesis using unsent g Some by blast
    next
      case None
      have "send_stored s h now2 p ?j message recipient (?sms\<lparr>Message := m\<rparr>) (?c3, d(Sms_Db s c := t), w) = ((i, e), (c', d', w'))"
        using assms p q Inr g None by (simp add: Send_def Let_def case_prod_beta)
      then show ?thesis
      proof (rule send_stored_parts)
        fix resp f
        assume a: "Provider_Send p message recipient [Sms_ID (?sms\<lparr>Message := m\<rparr>)] w = ((resp, e), w')" "i = Sms_ID (?sms\<lparr>Message := m\<rparr>)"
          "db_Update now2 h (sms_outcome (?sms\<lparr>Message := m\<rparr>) resp e) [(''status'', VString (Status (sms_outcome (?sms\<lparr>Message := m\<rparr>) resp e))),
             (''raw_response'', VString (RawResponse (sms_outcome (?sms\<lparr>Message := m\<rparr>) resp e))), (''foreign_id'', VString (ForeignId (sms_outcome (?sms\<lparr>Message := m\<rparr>) resp e)))]
             ((d(Sms_Db s c := t)) (Sms_Db s ?c3)) = (f, d' (Sms_Db s ?c3))" "\<And>k. k \<noteq> Sms_Db s ?c3 \<Longrightarrow> d' k = (d(Sms_Db s c := t)) k"
        show ?thesis
        proof (rule sent [where p = p and x = "?sms\<lparr>Message := m\<rparr>" and m = m and t = t and resp = resp and f = f])
          show "i = newid" "Provider_Send p message recipient [newid] w = ((resp, e), w')" using a by (simp_all add: new_sms_def)
          show "sms_records newid recipient (Provider_Name p) who m (?sms\<lparr>Message := m\<rparr>)" "Status (?sms\<lparr>Message := m\<rparr>) = StatusSending"
            by (simp_all add: sms_records_def new_sms_def)
          show "h_Create h (?sms\<lparr>Message := m\<rparr>) (d (Sms_Db s c)) = (None, t)" using g None by simp
          show "db_Update now2 h (sms_outcome (?sms\<lparr>Message := m\<rparr>) resp e) [(''status'', VString (Status (sms_outcome (?sms\<lparr>Message := m\<rparr>) resp e))),
             (''raw_response'', VString (RawResponse (sms_outcome (?sms\<lparr>Message := m\<rparr>) resp e))), (''foreign_id'', VString (ForeignId (sms_outcome (?sms\<lparr>Message := m\<rparr>) resp e)))]
             t = (f, d' (Sms_Db s c))" using a(3) unfolding k by simp
          show "d' k = d k" if "k \<noteq> Sms_Db s c" for k using a(4) [of k] that unfolding k by simp
        qed (use p q Inr in auto)
      qed
    qed
  qed
qed

lemma image_if_fresh: "k \<notin> f ` X \<Longrightarrow> f x = k \<Longrightarrow> (\<lambda>y. if f y = k then g y else y) ` insert x X = insert (g x) X"
  by (auto simp: image_iff)

lemma set_sms_records:
  "sms_records i recipient pname who m (set_sms fs x) = sms_records i recipient pname who m x" "Sms_ID (set_sms fs x) = Sms_ID x"
  "map_of fs ''status'' = Some (VString v) \<Longrightarrow> Status (set_sms fs x) = v"
  by (simp_all add: sms_records_def set_sms_def string_field_def)

text \<open>A message is given to a provider only after a row for it was stored, and the row stays: it has the number, the sender, the provider and the text that is to be stored, and its
  status is the outcome the provider reported, or sending if the update of the row failed. If the call fails before that, nothing is sent and no row is left. No other row
  changes.\<close>

theorem sent_sms_is_recorded:
  assumes "db_table h rows Sms_ID sms_col set_sms"
    and "Send s h encode nonce newid now month now2 who message recipient (c, d, w) = Some ((i, e), (c', d', w'))"
  shows "(w' = w \<and> e \<noteq> None \<and> rows (d' (Sms_Db s c)) = rows (d (Sms_Db s c))) \<or>
    (\<exists>p m x resp. provider_for s recipient = Some p \<and> stored_text s encode nonce message = Some (Inr m) \<and> i = newid \<and>
       Provider_Send p message recipient [newid] w = ((resp, e), w') \<and>
       newid \<notin> Sms_ID ` rows (d (Sms_Db s c)) \<and> rows (d' (Sms_Db s c)) = insert x (rows (d (Sms_Db s c))) \<and>
       sms_records newid recipient (Provider_Name p) who m x \<and> Status x \<in> {StatusSending, if e = None then StatusSuccess else StatusFail})"
  using assms(2)
proof (cases rule: Send_cases)
  case (unsent e1)
  then show ?thesis using db_table.create_fails [OF assms(1)] by auto
next
  case (sent p m x t resp f)
  let ?k = "Sms_Db s c" and ?fs = "stamped now2 [(''status'', VString (Status (sms_outcome x resp e))), (''raw_response'', VString (RawResponse (sms_outcome x resp e))),
       (''foreign_id'', VString (ForeignId (sms_outcome x resp e)))]"
  have x: "Sms_ID x = newid" using sent(4) by (simp add: sms_records_def)
  have t: "newid \<notin> Sms_ID ` rows (d ?k)" "rows t = insert x (rows (d ?k))" using db_table.create_law [OF assms(1) sent(6)] x by auto
  have "\<exists>y. rows (d' ?k) = insert y (rows (d ?k)) \<and> sms_records newid recipient (Provider_Name p) who m y \<and> Status y \<in> {StatusSending, if e = None then StatusSuccess else StatusFail}"
  proof (cases f)
    case None
    have "rows (d' ?k) = (\<lambda>y. if Sms_ID y = newid then set_sms ?fs y else y) ` rows t"
      using db_table.update_law [OF assms(1)] sent(8) None x unfolding db_Update_def by simp
    also have "\<dots> = insert (set_sms ?fs x) (rows (d ?k))" unfolding t(2) by (rule image_if_fresh [OF t(1) x])
    finally show ?thesis using sent(4) set_sms_records(3) [of ?fs _ x] by (auto simp: set_sms_records map_of_stamped)
  next
    case (Some e1)
    then have "rows (d' ?k) = rows t" using db_table.update_fails [OF assms(1)] sent(8) unfolding db_Update_def by blast
    then show ?thesis using t sent(4,5) by auto
  qed
  then show ?thesis using sent t by blast
qed

text \<open>What is stored encrypted is read back with the same cipher.\<close>

lemma stored_text_decrypts:
  assumes "stored_text s encode (Inr n) message = Some (Inr m)" "ENCRYPT_MESSAGE_STORE s" "cipher s = Some a" "aead a" "length n = NonceSize a" "\<And>b. decode (encode b) = Inr b"
  shows "\<exists>ct. decode m = Inr ct \<and> AEAD_Decrypt a ct [] = Inr message"
  using assms aead.decrypt_encrypt [OF assms(4,5)] by (auto simp: stored_text_def split: sum.splits)

text \<open>When the encryption fails the call reports an error, but its own frame is left without one and the log says that the message was sent.\<close>

lemma failed_encryption_logged_as_sent:
  assumes "Send s h encode (Inl err) newid now month now2 who message recipient (c, d, w) = Some ((i, e), (c', d', w'))" "ENCRYPT_MESSAGE_STORE s"
  shows "e = Some err \<and> w' = w \<and> (\<exists>j c1. c' = sms_exit j None c1)"
  using assms by (auto simp: Send_def stored_text_def AEAD_Encrypt_def Let_def split: prod.splits option.splits sum.splits)

subsection \<open>A manager with two providers\<close>

definition sample_provider :: "string \<Rightarrow> (string \<times> string) list Provider" where
  "sample_provider n = \<lparr>Provider_Name = n, Provider_Send = \<lambda>message recipient ids w. ((Some \<lparr>ProviderMessageID = ''m1'', RawContent = ''ok''\<rparr>, None), w @ [(n, recipient)])\<rparr>"

definition sample_base :: SmsManagerBaseConfig where
  "sample_base = \<lparr>DEFAULT_PROVIDER = ''a'', ENCRYPT_MESSAGE_STORE = False, SECRET = '''', SALT = ''''\<rparr>"

definition sample_routes :: "SmsDestinationConfig list" where
  "sample_routes = [\<lparr>PREFIX = ''7'', PROVIDER = ''a''\<rparr>, \<lparr>PREFIX = ''79'', PROVIDER = ''b''\<rparr>, \<lparr>PREFIX = ''1'', PROVIDER = ''b''\<rparr>]"

definition sample_providers :: "(string, (string \<times> string) list Provider) gomap" where
  "sample_providers = [(''a'', sample_provider ''a''), (''b'', sample_provider ''b'')]"

definition sample_cfg :: AEADConfig where
  "sample_cfg = \<lparr>MakeAead = \<lambda>k. Inr toy_cipher, DeriveKey = \<lambda>a b n. a, KeySize = 32\<rparr>"

definition sample_manager :: "((string \<times> string) list, bool) SmsManagerBase" where
  "sample_manager = (case SmsManager_Init (Sink 0) sample_cfg (Inr sample_base) (Inr sample_providers) (Inr sample_routes) NewSmsManager (\<lambda>i. LoggerBase_Init) of
     (Inl e, st) \<Rightarrow> NewSmsManager | (Inr s, st) \<Rightarrow> s)"

lemma sample_manager_init:
  "\<exists>st. SmsManager_Init (Sink 0) sample_cfg (Inr sample_base) (Inr sample_providers) (Inr sample_routes) NewSmsManager (\<lambda>i. LoggerBase_Init) = (Inr sample_manager, st)"
proof -
  have "isl (fst (SmsManager_Init (Sink 0) sample_cfg (Inr sample_base) (Inr sample_providers) (Inr sample_routes)
      (NewSmsManager :: ((string \<times> string) list, bool) SmsManagerBase) (\<lambda>i. LoggerBase_Init))) = False" by code_simp
  then show ?thesis unfolding sample_manager_def by (auto simp: isl_def split: prod.splits sum.splits)
qed

lemma sample_manager_parts:
  "provider_for sample_manager ''7901'' = Some (sample_provider ''b'')" "\<not> ENCRYPT_MESSAGE_STORE sample_manager"
  by (simp_all add: sample_manager_def SmsManager_Init_def init_cipher_def init_routes_def sample_base_def sample_providers_def sample_routes_def sort_destinations_def
      provider_for_def SmsManagerBaseConfig.defs SmsDestinationConfig.defs)

theorem sms_goes_to_longest_prefix_witness:
  "map_option Provider_Name (provider_for sample_manager ''7901'') = Some ''b'' \<and> map_option Provider_Name (provider_for sample_manager ''7801'') = Some ''a'' \<and>
   (\<exists>p. provider_for sample_manager ''7901'' = Some p)"
proof -
  obtain st where i: "SmsManager_Init (Sink 0) sample_cfg (Inr sample_base) (Inr sample_providers) (Inr sample_routes) NewSmsManager (\<lambda>i. LoggerBase_Init) = (Inr sample_manager, st)"
    using sample_manager_init by blast
  have "map_option Provider_Name (provider_for sample_manager ''7901'') = Some ''b''" "map_option Provider_Name (provider_for sample_manager ''7801'') = Some ''a''" by code_simp+
  then show ?thesis using sms_goes_to_longest_prefix [OF i, of "''7901''"] by blast
qed

definition sample_sender :: sms_sender where
  "sample_sender = \<lparr>sender_id = ''u1'', sender_login = ''alice'', sender_display = ''alice'', sender_tenancy = ''''\<rparr>"

theorem sent_sms_is_recorded_witness:
  "\<exists>x. snd (snd (snd (the (Send sample_manager (table_handlers Sms_ID sms_col set_sms) id (Inr '''') ''s1'' 1 1 2 sample_sender ''code'' ''7901'' (sample_context, (\<lambda>h. []), []))))) =
     [(''b'', ''7901'')] \<and>
   set (fst (snd (snd (the (Send sample_manager (table_handlers Sms_ID sms_col set_sms) id (Inr '''') ''s1'' 1 1 2 sample_sender ''code'' ''7901'' (sample_context, (\<lambda>h. []), [])))))
     (Sms_Db sample_manager sample_context)) = {x} \<and> Sms_Phone x = ''7901''"
proof -
  let ?h = "table_handlers Sms_ID sms_col set_sms"
  let ?r = "Send sample_manager ?h id (Inr '''') ''s1'' 1 1 2 sample_sender ''code'' ''7901'' (sample_context, (\<lambda>h. []), [])"
  have "case ?r of None \<Rightarrow> False | Some (r, c, d, w) \<Rightarrow> w = [(''b'', ''7901'')]"
    by (simp add: Send_def stored_text_def send_stored_def sample_manager_parts case_prod_beta Let_def sample_provider_def)
  then obtain i e c' d' w' where r: "?r = Some ((i, e), (c', d', w'))" and w: "w' = [(''b'', ''7901'')]" by (cases ?r) auto
  from sent_sms_is_recorded [OF in_memory.db_table_axioms r] w
  obtain x pn m where "set (d' (Sms_Db sample_manager sample_context)) = {x}" "sms_records ''s1'' ''7901'' pn sample_sender m x" by auto
  then show ?thesis using r w by (intro exI [of _ x]) (auto simp: sms_records_def)
qed

end
