(* ===== verification/ApiServers.thy ===== *)
theory ApiServers
  imports OpContexts Tenancies AuthLogin
begin

section \<open>The REST server\<close>

text \<open>
  Models how a server handles a request: \<^verbatim>\<open>pkg/api/api_server\<close> (responses, endpoints, forwarded users), the part of the gate that both servers share, and
  \<^verbatim>\<open>rest_api_gin_server\<close> (\<open>requestHandler\<close>, the closing of a request, the registration of endpoints). A request is the context of authorization with its response;
  the tenancies are the manager of \<open>Tenancies\<close>, authorization is that of \<open>AuthSchemas\<close>, the anti-CSRF handler that of \<open>AuthLogin\<close>. Endpoints are functions on the request.
  The tracing of calls and the log fields are left out, as is the closing of the context, which is in \<open>OpContexts\<close>. A panic, which the recovery of the server turns into the
  status 500, is \<open>None\<close>.
\<close>

subsection \<open>Requests, responses and endpoints\<close>

definition ErrorCodeNotFound :: string where "ErrorCodeNotFound = ''resource_not_found''"
definition ErrorCodeForbidden :: string where "ErrorCodeForbidden = ''forbidden''"
definition ErrorCodeBadRequest :: string where "ErrorCodeBadRequest = ''bad_request''"

record File =
  File_Content :: bytes
  ContentType :: string
  File_Name :: string

record data_source =
  dataLength :: int
  dataContentType :: string
  dataContent :: bytes
  dataContentHeaders :: "(string, string) gomap option"

record 'm Response =
  message :: "'m option"
  payload :: "bytes option"
  redirectResourcePath :: string
  response_file :: "File option"
  dataSource :: "data_source option"
  httpCode :: int

type_synonym ('c, 'm) request = "'c AuthContext \<times> 'm Response"

record ('c, 'm) Endpoint =
  ep_Name :: string
  ServicePathPrototype :: string
  ep_AccessType :: AccessType
  IsInTenancy :: bool
  IsFileUpload :: bool
  TestOnly :: bool
  PreprocessBeforeAuth :: "('c, 'm) request \<Rightarrow> string option \<times> ('c, 'm) request"
  ep_HandleRequest :: "('c, 'm) request \<Rightarrow> string option \<times> ('c, 'm) request"

subsection \<open>The tenancy of a request\<close>

record 'd tenancy_gate =
  DISABLE_MULTITENANCY :: bool
  SHADOW_TENANCY_PATH :: bool
  ALLOW_BLOCKED_TENANCY_PATH :: bool
  AUTH_FROM_TENANCY_DB :: bool
  TENANCY_ALLOWED_IP_LIST :: bool
  TENANCY_ALLOWED_IP_LIST_TAG :: string
  tenancies :: "'d TenancyManager option"
  managerMultitenancy :: bool

definition IsMultitenancy :: "('d, 'x) tenancy_gate_scheme \<Rightarrow> bool" where
  "IsMultitenancy s \<longleftrightarrow> \<not> DISABLE_MULTITENANCY s \<and> tenancies s \<noteq> None \<and> managerMultitenancy s"

definition SetTenancy :: "TenancyBase \<Rightarrow> 'c AuthContext \<Rightarrow> 'c AuthContext" where
  "SetTenancy t ctx = ctx\<lparr>tenancy := Some (tenancy_id t)\<rparr>"

definition FindTenancy :: "('d, 'x) tenancy_gate_scheme \<Rightarrow> 'd TenancyManager \<Rightarrow> string \<Rightarrow> TenancyBase option" where
  "FindTenancy s m path = (if SHADOW_TENANCY_PATH s then TenancyByShadowPath path m else TenancyByPath path m)"

definition path_blocked :: "('d, 'x) tenancy_gate_scheme \<Rightarrow> TenancyBase \<Rightarrow> bool" where
  "path_blocked s t \<longleftrightarrow> \<not> ALLOW_BLOCKED_TENANCY_PATH s \<and> (if SHADOW_TENANCY_PATH s then BLOCK_SHADOW_PATH t else BLOCK_PATH t)"

text \<open>The error, if any, with the tenancy that was found.\<close>

definition check_tenancy ::
    "('d, 'x) tenancy_gate_scheme \<Rightarrow> 'd TenancyManager \<Rightarrow> string \<Rightarrow> 'c AuthContext \<Rightarrow> ((string option \<times> TenancyBase option) \<times> 'c AuthContext) option" where
  "check_tenancy s m path ctx =
     (case FindTenancy s m path of
        None \<Rightarrow> Some ((Some ''tenancy not found'', None), AuthContexts.SetGenericErrorCode ErrorCodeNotFound [] ctx)
      | Some t \<Rightarrow>
          (case TenancyBase_IsActive t of
             None \<Rightarrow> None
           | Some active \<Rightarrow>
               Some (if \<not> active then ((Some ''tenancy is not active'', Some t), AuthContexts.SetGenericErrorCode ErrorCodeNotFound [] ctx)
                     else if path_blocked s t then ((Some ''tenancy path is blocked'', Some t), AuthContexts.SetGenericErrorCode ErrorCodeNotFound [] ctx)
                     else
                       (let ctx1 = (if AUTH_FROM_TENANCY_DB s then SetTenancy t ctx else ctx)
                        in if TENANCY_ALLOWED_IP_LIST s \<and> \<not> HasIpAddressByPath path (clientIp ctx) (TENANCY_ALLOWED_IP_LIST_TAG s) m
                           then ((Some ''IP address is not in whitelist'', Some t), AuthContexts.SetGenericErrorCode ErrorCodeForbidden [] ctx1)
                           else ((None, Some t), ctx1)))))"

definition extract_tenancy ::
    "('d, 'x) tenancy_gate_scheme \<Rightarrow> bool \<Rightarrow> string \<Rightarrow> 'c AuthContext \<Rightarrow> ((string option \<times> TenancyBase option) \<times> 'c AuthContext) option" where
  "extract_tenancy s inTenancy path ctx =
     (case tenancies s of
        Some m \<Rightarrow> if IsMultitenancy s \<and> inTenancy then check_tenancy s m path ctx else Some ((None, None), ctx)
      | None \<Rightarrow> Some ((None, None), ctx))"

subsection \<open>Forwarded users and origin\<close>

definition ForwardUserLogin :: string where "ForwardUserLogin = ''X-Forward-User-Login''"
definition ForwardUserDisplay :: string where "ForwardUserDisplay = ''X-Forward-User-Display''"
definition ForwardUserId :: string where "ForwardUserId = ''X-Forward-User-Id''"
definition ForwardOpSource :: string where "ForwardOpSource = ''X-Forward-Op-Source''"
definition ForwardSessionClient :: string where "ForwardSessionClient = ''X-Forward-Session-Client''"

definition GetRequestHeader :: "string \<Rightarrow> 'c AuthContext \<Rightarrow> string" where
  "GetRequestHeader n ctx = (case map_of (requestHeaders ctx) n of None \<Rightarrow> '''' | Some v \<Rightarrow> v)"

definition forward_user :: "bool \<Rightarrow> 'c AuthContext \<Rightarrow> 'c AuthContext" where
  "forward_user propagateAuthUser ctx =
     (if propagateAuthUser \<and> (case authUser ctx of None \<Rightarrow> True | Some u \<Rightarrow> UserId u = '''') then
        (let userId = GetRequestHeader ForwardUserId ctx; userLogin = GetRequestHeader ForwardUserLogin ctx; userDisplay = GetRequestHeader ForwardUserDisplay ctx;
             ctx1 = (if userId \<noteq> '''' \<or> userLogin \<noteq> '''' \<or> userDisplay \<noteq> '''' then ctx\<lparr>authUser := Some (NewAuthUser userId userLogin userDisplay [])\<rparr> else ctx);
             sessionClient = GetRequestHeader ForwardSessionClient ctx1
         in if sessionClient \<noteq> '''' then ctx1\<lparr>clientId := sessionClient\<rparr> else ctx1)
      else ctx)"

definition forwardedOpSource :: "bool \<Rightarrow> 'c AuthContext \<Rightarrow> string" where
  "forwardedOpSource propagateContextId ctx = (if propagateContextId then GetRequestHeader ForwardOpSource ctx else '''')"

definition request_origin :: "'h App \<Rightarrow> string \<Rightarrow> string \<Rightarrow> string \<Rightarrow> 'c AuthContext \<Rightarrow> OriginHolder" where
  "request_origin app serverName userType opSource ctx =
     (let o0 = NewOrigin app;
          o1 = o0\<lparr>origin_Name := if origin_Name o0 \<noteq> '''' then origin_Name o0 @ ''/'' @ serverName else serverName\<rparr>;
          o2 = (if authUser ctx \<noteq> None then o1\<lparr>origin_User := AuthUserDisplay (authUser ctx)\<rparr> else o1)
      in o2\<lparr>origin_Source := if opSource \<noteq> '''' then opSource else clientIp ctx, origin_SessionClient := clientId ctx, origin_UserType := userType\<rparr>)"

subsection \<open>The REST server\<close>

record ('d, 'c) rest_server = "'d tenancy_gate" +
  PATH_PREFIX :: string
  API_VERSION :: string
  server_name :: string
  OPLOG_USER_TYPE :: string
  DEFAULT_RESPONSE_JSON :: string
  MAX_JSON_REQUEST_SIZE :: int
  csrf :: "AuthCsrf option"
  server_auth :: "'c AuthBase"
  propagateContextId :: bool
  propagateAuthUser :: bool
  server_errors :: ErrorManagerBase
  server_testing :: bool

text \<open>A step of the handler runs only while there is no error; one that fails may set the generic error.\<close>

definition and_then :: "('r \<Rightarrow> string option \<times> 'r) \<Rightarrow> string option \<times> 'r \<Rightarrow> string option \<times> 'r" where
  "and_then f er = (case er of (None, r) \<Rightarrow> f r | (Some e, r) \<Rightarrow> (Some e, r))"

definition with_code :: "string \<Rightarrow> ('c AuthContext \<Rightarrow> string option \<times> 'c AuthContext) \<Rightarrow> 'c AuthContext \<Rightarrow> string option \<times> 'c AuthContext" where
  "with_code code f ctx = (case f ctx of (None, ctx1) \<Rightarrow> (None, ctx1) | (Some e, ctx1) \<Rightarrow> (Some e, AuthContexts.SetGenericErrorCode code [] ctx1))"

definition with_code_request :: "string \<Rightarrow> (('c, 'm) request \<Rightarrow> string option \<times> ('c, 'm) request) \<Rightarrow> ('c, 'm) request \<Rightarrow> string option \<times> ('c, 'm) request" where
  "with_code_request code f r = (case f r of (None, r1) \<Rightarrow> (None, r1) | (Some e, (ctx1, resp1)) \<Rightarrow> (Some e, (AuthContexts.SetGenericErrorCode code [] ctx1, resp1)))"

text \<open>The body is read up to the limit of the server, also after an error.\<close>

definition read_body :: "('d, 'c) rest_server \<Rightarrow> bool \<Rightarrow> bytes option \<Rightarrow> string option \<times> 'c AuthContext \<Rightarrow> string option \<times> 'c AuthContext" where
  "read_body s upload body er =
     (case body of
        None \<Rightarrow> er
      | Some b \<Rightarrow>
          if upload then er
          else if int (length b) > MAX_JSON_REQUEST_SIZE s then
            (Some ''http: request body too large'',
             (AuthContexts.SetGenericErrorCode ErrorCodeBadRequest [] (snd er))\<lparr>requestContent := take (nat (MAX_JSON_REQUEST_SIZE s)) b\<rparr>)
          else (fst er, (snd er)\<lparr>requestContent := b\<rparr>))"

definition process_csrf :: "('d, 'c) rest_server \<Rightarrow> int \<Rightarrow> random \<Rightarrow> 'c AuthContext \<Rightarrow> string option \<times> 'c AuthContext" where
  "process_csrf s now rnd ctx = (case csrf s of None \<Rightarrow> (None, ctx) | Some a \<Rightarrow> (case AuthCsrf_Handle a now rnd ctx of ((found, err), ctx1) \<Rightarrow> (err, ctx1)))"

definition on_context :: "('c AuthContext \<Rightarrow> 'e \<times> 'c AuthContext) \<Rightarrow> ('c, 'm) request \<Rightarrow> 'e \<times> ('c, 'm) request" where
  "on_context f r = (case f (fst r) of (e, ctx) \<Rightarrow> (e, (ctx, snd r)))"

text \<open>What happens before the handler of the endpoint: the error, the tenancy and the request.\<close>

definition rest_admit ::
    "('d, 'c) rest_server \<Rightarrow> ('c, 'm) Endpoint \<Rightarrow> string \<Rightarrow> bytes option \<Rightarrow> int \<Rightarrow> random \<Rightarrow> ('c, 'm) request \<Rightarrow> (string option \<times> TenancyBase option \<times> ('c, 'm) request) option" where
  "rest_admit s ep tenancyInPath body now rnd r =
     (case extract_tenancy s (IsInTenancy ep) tenancyInPath (fst r) of
        None \<Rightarrow> None
      | Some ((err, t), ctx) \<Rightarrow>
          (case read_body s (IsFileUpload ep) body (err, ctx) of (err1, ctx1) \<Rightarrow>
             (case and_then (on_context (with_code ErrorCodeUnauthorized (HandleRequest (server_auth s) (ServicePathPrototype ep) (ep_AccessType ep))))
                     (and_then (with_code_request ErrorCodeBadRequest (PreprocessBeforeAuth ep))
                       (and_then (on_context (process_csrf s now rnd)) (err1, (ctx1, snd r)))) of
                (err2, r2) \<Rightarrow> Some (err2, t, r2))))"

datatype 'm reply =
    Redirect string
  | ReplyString int string
  | ReplyJSON int 'm
  | ReplyData int data_source
  | ReplyFile int File
  | ReplyStatus int
  | ReplyError int string

definition reply_success :: "('d, 'c) rest_server \<Rightarrow> 'm Response \<Rightarrow> 'm reply" where
  "reply_success s r =
     (case payload r of
        Some p \<Rightarrow> ReplyString (httpCode r) p
      | None \<Rightarrow>
          (case message r of
             Some m \<Rightarrow> ReplyJSON (httpCode r) m
           | None \<Rightarrow>
               (case dataSource r of
                  Some d \<Rightarrow> ReplyData (case dataContentHeaders d of None \<Rightarrow> 200 | Some h \<Rightarrow> if map_of h ''Content-Range'' \<noteq> None then 206 else 200) d
                | None \<Rightarrow>
                    (case response_file r of
                       Some f \<Rightarrow> ReplyFile (httpCode r) f
                     | None \<Rightarrow> if DEFAULT_RESPONSE_JSON s \<noteq> '''' then ReplyString (httpCode r) (DEFAULT_RESPONSE_JSON s) else ReplyStatus (httpCode r)))))"

definition MakeResponseError :: "ErrorManagerBase \<Rightarrow> string \<Rightarrow> int \<times> string" where
  "MakeResponseError m code = (ErrorProtocolCode code m, code)"

definition Request_Close :: "('d, 'c) rest_server \<Rightarrow> ('c, 'm) request \<Rightarrow> 'm reply" where
  "Request_Close s r =
     (if redirectResourcePath (snd r) \<noteq> '''' then Redirect (redirectResourcePath (snd r))
      else case AuthContext.genericError (fst r) of
             None \<Rightarrow> reply_success s (snd r)
           | Some code \<Rightarrow> (case MakeResponseError (server_errors s) code of (status, e) \<Rightarrow> ReplyError status e))"

text \<open>The reply with the origin that the operations of the request get.\<close>

definition requestHandler ::
    "('d, 'c) rest_server \<Rightarrow> 'h App \<Rightarrow> ('c, 'm) Endpoint \<Rightarrow> string \<Rightarrow> bytes option \<Rightarrow> int \<Rightarrow> random \<Rightarrow> ('c, 'm) request \<Rightarrow> ('m reply \<times> OriginHolder \<times> ('c, 'm) request) option" where
  "requestHandler s app ep tenancyInPath body now rnd r0 =
     (case rest_admit s ep tenancyInPath body now rnd r0 of
        None \<Rightarrow> None
      | Some (err, t, (ctx, resp)) \<Rightarrow>
          (let ctx1 = forward_user (propagateAuthUser s) ctx;
               orig = request_origin app (server_name s) (OPLOG_USER_TYPE s) (forwardedOpSource (propagateContextId s) (fst r0)) ctx1;
               ctx2 = (case t of Some x \<Rightarrow> if \<not> AUTH_FROM_TENANCY_DB s then SetTenancy x ctx1 else ctx1 | None \<Rightarrow> ctx1)
           in case and_then (with_code_request ErrorCodeInternalServerError (ep_HandleRequest ep)) (err, (ctx2, resp)) of
                (err1, r1) \<Rightarrow> Some (Request_Close s r1, orig, r1)))"

definition crashRecovery :: "('m reply \<times> 'o) option \<Rightarrow> 'm reply \<times> bool" where
  "crashRecovery res = (case res of None \<Rightarrow> (ReplyStatus 500, True) | Some (rep, x) \<Rightarrow> (rep, False))"

subsection \<open>Registration\<close>

text \<open>
  The routes by method and path; \<open>fullPath\<close> is the path of the endpoint, below the resource of the tenancies or not, and \<open>attach\<close> adds its errors to those of the server. An endpoint
  without a method is a panic.
\<close>

definition AddEndpoint ::
    "(bool \<Rightarrow> string) \<Rightarrow> (ErrorManagerBase \<Rightarrow> ErrorManagerBase) \<Rightarrow> ('c, 'm) Endpoint \<Rightarrow> bool list \<Rightarrow> ('d, 'c) rest_server \<times> (string \<times> string \<times> ('c, 'm) Endpoint) list \<Rightarrow>
     (('d, 'c) rest_server \<times> (string \<times> string \<times> ('c, 'm) Endpoint) list) option" where
  "AddEndpoint fullPath attach ep withMultitenancy = (\<lambda>(s, routes).
     if TestOnly ep \<and> \<not> server_testing s then Some (s, routes)
     else
       (let s1 = s\<lparr>server_errors := attach (server_errors s)\<rparr>;
            method = Access2HttpMethod (ep_AccessType ep);
            inTenancy = IsMultitenancy s \<and> OptionalArg False withMultitenancy
        in if method = '''' then None
           else Some (s1, routes @ [(method, PATH_PREFIX s @ ''/'' @ API_VERSION s @ fullPath inTenancy, ep)])))"

text \<open>The level of the record that a served request leaves in the log.\<close>

definition gin_log_level :: "bool \<Rightarrow> int \<Rightarrow> Level" where
  "gin_log_level ginErrors statusCode =
     (if ginErrors then ErrorLevel else if statusCode \<ge> 500 then ErrorLevel else if statusCode \<ge> 400 then WarnLevel else InfoLevel)"

subsection \<open>What the gate lets pass\<close>

lemma and_then_ok: "and_then f er = (None, r') \<longleftrightarrow> (\<exists>r. er = (None, r) \<and> f r = (None, r'))"
  by (auto simp: and_then_def split: prod.splits option.splits)

lemma on_context_ok: "on_context f r = (e, r') \<longleftrightarrow> f (fst r) = (e, fst r') \<and> snd r' = snd r"
  by (cases r') (auto simp: on_context_def split: prod.splits)

lemma with_code_ok: "with_code code f ctx = (None, ctx') \<longleftrightarrow> f ctx = (None, ctx')"
  by (auto simp: with_code_def split: prod.splits option.splits)

lemma with_code_request_ok: "with_code_request code f r = (None, r') \<longleftrightarrow> f r = (None, r')"
  by (auto simp: with_code_request_def split: prod.splits option.splits)

lemma read_body_ok:
  "read_body s upload body er = (None, ctx) \<Longrightarrow> fst er = None \<and> (\<not> upload \<longrightarrow> (\<forall>b. body = Some b \<longrightarrow> int (length b) \<le> MAX_JSON_REQUEST_SIZE s \<and> requestContent ctx = b))"
  by (auto simp: read_body_def split: option.splits if_splits)

definition tenancy_admits :: "('d, 'x) tenancy_gate_scheme \<Rightarrow> string \<Rightarrow> string \<Rightarrow> TenancyBase \<Rightarrow> bool" where
  "tenancy_admits s path ip t \<longleftrightarrow> (\<exists>m. tenancies s = Some m \<and> FindTenancy s m path = Some t \<and> TenancyBase_IsActive t = Some True \<and> \<not> path_blocked s t \<and>
     (TENANCY_ALLOWED_IP_LIST s \<longrightarrow> HasIpAddressByPath path ip (TENANCY_ALLOWED_IP_LIST_TAG s) m))"

lemma check_tenancy_ok:
  "tenancies s = Some m \<Longrightarrow> check_tenancy s m path ctx = Some ((None, t), ctx') \<Longrightarrow>
   \<exists>x. t = Some x \<and> tenancy_admits s path (clientIp ctx) x \<and> ctx' = (if AUTH_FROM_TENANCY_DB s then SetTenancy x ctx else ctx)"
  by (auto simp: check_tenancy_def tenancy_admits_def Let_def split: option.splits if_splits)

lemma extract_tenancy_ok:
  "extract_tenancy s inTenancy path ctx = Some ((None, t), ctx') \<Longrightarrow> IsMultitenancy s \<and> inTenancy \<Longrightarrow>
   \<exists>x. t = Some x \<and> tenancy_admits s path (clientIp ctx) x \<and> ctx' = (if AUTH_FROM_TENANCY_DB s then SetTenancy x ctx else ctx)"
  unfolding extract_tenancy_def by (cases "tenancies s") (simp_all add: IsMultitenancy_def check_tenancy_ok del: split_paired_Ex if_split)

lemma rest_admit_parts:
  assumes "rest_admit s ep path body now rnd r = Some (e, t, r')"
  obtains err ctx err1 ctx1 where "extract_tenancy s (IsInTenancy ep) path (fst r) = Some ((err, t), ctx)" "read_body s (IsFileUpload ep) body (err, ctx) = (err1, ctx1)"
    "and_then (on_context (with_code ErrorCodeUnauthorized (HandleRequest (server_auth s) (ServicePathPrototype ep) (ep_AccessType ep))))
       (and_then (with_code_request ErrorCodeBadRequest (PreprocessBeforeAuth ep)) (and_then (on_context (process_csrf s now rnd)) (err1, (ctx1, snd r)))) = (e, r')"
  using assms by (auto simp: rest_admit_def split: option.splits prod.splits)

text \<open>The context of a request after its tenancy was found and its body was read: what the anti-CSRF handler gets.\<close>

definition received :: "('d, 'c) rest_server \<Rightarrow> bool \<Rightarrow> TenancyBase option \<Rightarrow> bytes option \<Rightarrow> 'c AuthContext \<Rightarrow> 'c AuthContext" where
  "received s upload t body ctx =
     (let ctx1 = (case t of Some x \<Rightarrow> if AUTH_FROM_TENANCY_DB s then SetTenancy x ctx else ctx | None \<Rightarrow> ctx)
      in case body of Some b \<Rightarrow> if upload then ctx1 else ctx1\<lparr>requestContent := b\<rparr> | None \<Rightarrow> ctx1)"

lemma extract_tenancy_context:
  assumes "extract_tenancy s inTenancy path ctx = Some ((None, t), ctx')"
  shows "ctx' = (case t of Some x \<Rightarrow> if AUTH_FROM_TENANCY_DB s then SetTenancy x ctx else ctx | None \<Rightarrow> ctx)"
  using assms by (auto simp: extract_tenancy_def check_tenancy_def Let_def split: option.splits if_splits)

lemma rest_admit_gate:
  assumes "rest_admit s ep path body now rnd r = Some (None, t, r')"
  shows "(IsMultitenancy s \<and> IsInTenancy ep \<longrightarrow> (\<exists>x. t = Some x \<and> tenancy_admits s path (clientIp (fst r)) x)) \<and>
    (\<forall>b. body = Some b \<and> \<not> IsFileUpload ep \<longrightarrow> int (length b) \<le> MAX_JSON_REQUEST_SIZE s) \<and>
    (\<exists>ctx2 r3. process_csrf s now rnd (received s (IsFileUpload ep) t body (fst r)) = (None, ctx2) \<and> PreprocessBeforeAuth ep (ctx2, snd r) = (None, r3) \<and>
       HandleRequest (server_auth s) (ServicePathPrototype ep) (ep_AccessType ep) (fst r3) = (None, fst r') \<and> snd r' = snd r3)"
  using assms
proof (rule rest_admit_parts)
  fix err ctx err1 ctx1
  assume t: "extract_tenancy s (IsInTenancy ep) path (fst r) = Some ((err, t), ctx)" and b: "read_body s (IsFileUpload ep) body (err, ctx) = (err1, ctx1)"
    and p: "and_then (on_context (with_code ErrorCodeUnauthorized (HandleRequest (server_auth s) (ServicePathPrototype ep) (ep_AccessType ep))))
       (and_then (with_code_request ErrorCodeBadRequest (PreprocessBeforeAuth ep)) (and_then (on_context (process_csrf s now rnd)) (err1, (ctx1, snd r)))) = (None, r')"
  from p obtain ctx2 r3 where c: "err1 = None" "process_csrf s now rnd ctx1 = (None, ctx2)" "PreprocessBeforeAuth ep (ctx2, snd r) = (None, r3)"
    "HandleRequest (server_auth s) (ServicePathPrototype ep) (ep_AccessType ep) (fst r3) = (None, fst r')" "snd r' = snd r3"
    by (auto simp: and_then_ok on_context_ok with_code_ok with_code_request_ok)
  have e: "err = None" and l: "\<And>b. body = Some b \<Longrightarrow> \<not> IsFileUpload ep \<Longrightarrow> int (length b) \<le> MAX_JSON_REQUEST_SIZE s"
    using read_body_ok [OF b [unfolded c(1)]] by auto
  have "ctx1 = received s (IsFileUpload ep) t body (fst r)"
    using b [unfolded c(1) e] l unfolding received_def extract_tenancy_context [OF t [unfolded e]] Let_def
    by (auto simp: read_body_def split: option.splits if_splits)
  then show ?thesis using extract_tenancy_ok [OF t [unfolded e]] c l by blast
qed

lemma requestHandler_depends:
  assumes "requestHandler s app ep path body now rnd r \<noteq> requestHandler s app (ep\<lparr>ep_HandleRequest := h\<rparr>) path body now rnd r"
  obtains t r' where "rest_admit s ep path body now rnd r = Some (None, t, r')"
proof -
  have f: "IsInTenancy (ep\<lparr>ep_HandleRequest := h\<rparr>) = IsInTenancy ep" "IsFileUpload (ep\<lparr>ep_HandleRequest := h\<rparr>) = IsFileUpload ep"
    "ServicePathPrototype (ep\<lparr>ep_HandleRequest := h\<rparr>) = ServicePathPrototype ep" "ep_AccessType (ep\<lparr>ep_HandleRequest := h\<rparr>) = ep_AccessType ep"
    "PreprocessBeforeAuth (ep\<lparr>ep_HandleRequest := h\<rparr>) = PreprocessBeforeAuth ep" by simp_all
  have a: "rest_admit s (ep\<lparr>ep_HandleRequest := h\<rparr>) path body now rnd r = rest_admit s ep path body now rnd r"
    unfolding rest_admit_def f by (rule refl)
  show ?thesis
    using assms that by (cases "rest_admit s ep path body now rnd r") (auto simp: requestHandler_def a and_then_def Let_def split: option.splits prod.splits)
qed

text \<open>C19: the handler of an endpoint matters for a request, that is another handler in its place would give another result, only if the request passed the whole gate. If the server has
  tenancies and the endpoint is in one, the tenancy is loaded under the path of the request, active and not blocked, and the address of the client is on its list if the server asks for
  that; a body is within the limit, unless the endpoint takes uploads; then the anti-CSRF handler accepted the request with this tenancy and body, the preprocessing of the endpoint what it
  left, and the authorization for the path and the access of the endpoint what that left.\<close>

theorem admitted_request_passed_gate:
  assumes "requestHandler s app ep path body now rnd r \<noteq> requestHandler s app (ep\<lparr>ep_HandleRequest := h\<rparr>) path body now rnd r"
  shows "\<exists>t ctx2 r3 ctx4. (IsMultitenancy s \<and> IsInTenancy ep \<longrightarrow> (\<exists>x. t = Some x \<and> tenancy_admits s path (clientIp (fst r)) x)) \<and>
    (\<forall>b. body = Some b \<and> \<not> IsFileUpload ep \<longrightarrow> int (length b) \<le> MAX_JSON_REQUEST_SIZE s) \<and>
    process_csrf s now rnd (received s (IsFileUpload ep) t body (fst r)) = (None, ctx2) \<and> PreprocessBeforeAuth ep (ctx2, snd r) = (None, r3) \<and>
    HandleRequest (server_auth s) (ServicePathPrototype ep) (ep_AccessType ep) (fst r3) = (None, ctx4)"
  using assms
proof (rule requestHandler_depends)
  fix t r' assume "rest_admit s ep path body now rnd r = Some (None, t, r')"
  note g = rest_admit_gate [OF this]
  then obtain ctx2 r3 where "process_csrf s now rnd (received s (IsFileUpload ep) t body (fst r)) = (None, ctx2)" "PreprocessBeforeAuth ep (ctx2, snd r) = (None, r3)"
    "HandleRequest (server_auth s) (ServicePathPrototype ep) (ep_AccessType ep) (fst r3) = (None, fst r')" by (elim conjE exE)
  then show ?thesis using g [THEN conjunct1] g [THEN conjunct2, THEN conjunct1] by (intro exI conjI)
qed

lemma code_is_set [simp]: "\<exists>y. AuthContext.genericError (AuthContexts.SetGenericErrorCode code ov ctx) = Some y"
  by (metis AuthContexts.SetGenericErrorCode_set not_None_eq)

lemma csrf_error_is_set: "AuthCsrf_Handle a now rnd ctx = ((found, Some e), ctx') \<Longrightarrow> AuthContext.genericError ctx' \<noteq> None"
  by (auto simp: AuthCsrf_Handle_def csrf_next_def refuse_def split: if_splits option.splits sum.splits prod.splits param_reply.splits)

lemma process_csrf_error: "process_csrf s now rnd ctx = (Some e, ctx') \<Longrightarrow> AuthContext.genericError ctx' \<noteq> None"
  by (auto simp: process_csrf_def split: option.splits prod.splits dest: csrf_error_is_set)

lemma and_then_error: "and_then f er = (Some e, r') \<Longrightarrow> er = (Some e, r') \<or> (\<exists>r. er = (None, r) \<and> f r = (Some e, r'))"
  by (auto simp: and_then_def split: prod.splits option.splits)

lemma with_code_error: "with_code code f ctx = (Some e, ctx') \<Longrightarrow> AuthContext.genericError ctx' \<noteq> None"
  by (auto simp: with_code_def split: prod.splits option.splits)

lemma with_code_request_error: "with_code_request code f r = (Some e, r') \<Longrightarrow> AuthContext.genericError (fst r') \<noteq> None"
  by (auto simp: with_code_request_def split: prod.splits option.splits)

lemma extract_tenancy_error: "extract_tenancy s i path ctx = Some ((Some e, t), ctx') \<Longrightarrow> AuthContext.genericError ctx' \<noteq> None"
  by (auto simp: extract_tenancy_def check_tenancy_def Let_def split: option.splits if_splits)

lemma read_body_error: "read_body s u body (e0, ctx) = (Some e, ctx') \<Longrightarrow> (e0 \<noteq> None \<Longrightarrow> AuthContext.genericError ctx \<noteq> None) \<Longrightarrow> AuthContext.genericError ctx' \<noteq> None"
  by (auto simp: read_body_def split: option.splits if_splits)

lemma refused_has_code:
  assumes "rest_admit s ep path body now rnd r = Some (Some e, t, r')" shows "AuthContext.genericError (fst r') \<noteq> None"
  using assms
proof (rule rest_admit_parts)
  fix err ctx err1 ctx1
  assume t: "extract_tenancy s (IsInTenancy ep) path (fst r) = Some ((err, t), ctx)" and b: "read_body s (IsFileUpload ep) body (err, ctx) = (err1, ctx1)"
    and p: "and_then (on_context (with_code ErrorCodeUnauthorized (HandleRequest (server_auth s) (ServicePathPrototype ep) (ep_AccessType ep))))
       (and_then (with_code_request ErrorCodeBadRequest (PreprocessBeforeAuth ep)) (and_then (on_context (process_csrf s now rnd)) (err1, (ctx1, snd r)))) = (Some e, r')"
  have e1: "AuthContext.genericError ctx1 \<noteq> None" if "err1 = Some x" for x
    using read_body_error [OF b [unfolded that]] extract_tenancy_error t by (cases err) blast+
  from p show ?thesis
    by (auto dest!: and_then_error simp: on_context_ok dest: with_code_error with_code_request_error process_csrf_error e1)
qed

text \<open>C21: a request that the gate refuses is never given to the handler of its endpoint, whatever that is, and unless a redirection was set the reply is an error with the first
  generic code that was set and the status of the error manager for it.\<close>

theorem refused_request_is_not_handled:
  assumes "rest_admit s ep path body now rnd r = Some (Some e, t, (ctx, resp))" and "redirectResourcePath resp = ''''"
  shows "\<exists>code orig r1. AuthContext.genericError ctx = Some code \<and>
    (\<forall>h. requestHandler s app (ep\<lparr>ep_HandleRequest := h\<rparr>) path body now rnd r = Some (ReplyError (ErrorProtocolCode code (server_errors s)) code, orig, r1))"
proof -
  obtain code where c: "AuthContext.genericError ctx = Some code" using refused_has_code [OF assms(1)] by auto
  have a: "rest_admit s (ep\<lparr>ep_HandleRequest := h\<rparr>) path body now rnd r = Some (Some e, t, (ctx, resp))" for h
    using assms(1) by (simp add: rest_admit_def split: option.splits prod.splits)
  have "AuthContext.genericError (forward_user b ctx) = Some code" for b by (simp add: forward_user_def Let_def c)
  then show ?thesis using c assms(2)
    by (simp add: requestHandler_def a and_then_def Let_def Request_Close_def MakeResponseError_def SetTenancy_def split: option.split)
qed

text \<open>With shadow paths the list of addresses is still looked up under the path of the request, which is then a shadow path: without a tenancy that has this as its path no address
  is accepted.\<close>

lemma shadow_path_defeats_address_list:
  assumes "SHADOW_TENANCY_PATH s" "TENANCY_ALLOWED_IP_LIST s" "tenancyIpAddresses m path = None"
  shows "check_tenancy s m path ctx \<noteq> Some ((None, t), ctx')"
  using assms by (auto simp: check_tenancy_def HasIpAddressByPath_def Let_def split: option.splits if_splits)

subsection \<open>A server with one tenancy\<close>

definition sample_tenancy :: TenancyBase where
  "sample_tenancy = \<lparr>Description = '''', PATH = ''acme'', SHADOW_PATH = ''s'', ROLE = ''dev'', CUSTOMER_ID = ''c1'', POOL_ID = ''p1'', DBNAME = '''', DB_ROLE = '''',
     BLOCK_PATH = False, BLOCK_SHADOW_PATH = False, tenancy_id = ''t1'', ACTIVE = True,
     tenancy_Customer = Some \<lparr>customer_id = ''c1'', customer_login = ''acme'', customer_blocked = False\<rparr>,
     tenancy_Pool = Some \<lparr>pool_id = ''p1'', pool_name = ''main'', pool_active = True\<rparr>, tenancy_Db = None, tenancy_Cache = False, tenancy_Dispatcher = False\<rparr>"

definition sample_tenancies :: "unit TenancyManager" where
  "sample_tenancies = \<lparr>tenanciesById = [''t1'' \<mapsto> sample_tenancy], tenanciesByPath = [''acme'' \<mapsto> sample_tenancy], tenanciesByShadowPath = [''s'' \<mapsto> sample_tenancy],
     tenancyIpAddresses = [''acme'' \<mapsto> [''api'' \<mapsto> {''10.0.0.1''}]], open_dbs = [], next_db = 0, metas = (\<lambda>k. []), tenancy_backend = (), published = []\<rparr>"

definition sample_server :: "(unit, unit) rest_server" where
  "sample_server = \<lparr>DISABLE_MULTITENANCY = False, SHADOW_TENANCY_PATH = False, ALLOW_BLOCKED_TENANCY_PATH = False, AUTH_FROM_TENANCY_DB = True, TENANCY_ALLOWED_IP_LIST = True,
     TENANCY_ALLOWED_IP_LIST_TAG = ''api'', tenancies = Some sample_tenancies, managerMultitenancy = True, PATH_PREFIX = ''/api'', API_VERSION = ''1.0'', server_name = ''rest'',
     OPLOG_USER_TYPE = ''user'', DEFAULT_RESPONSE_JSON = '''', MAX_JSON_REQUEST_SIZE = 4, csrf = None,
     server_auth = \<lparr>DEFAULT_SCHEMA = ''noauth'', manager = \<lparr>manager_handlers = [(''noauth'', AuthSchemas.Method ''noauth'' NoAuth_Handle)], manager_schemas = []\<rparr>, endpointsConfig = []\<rparr>,
     propagateContextId = False, propagateAuthUser = False, server_errors = ManagerHttp_Init, server_testing = False\<rparr>"

definition sample_endpoint :: "(unit, string) Endpoint" where
  "sample_endpoint = \<lparr>ep_Name = ''List'', ServicePathPrototype = ''/items'', ep_AccessType = Read, IsInTenancy = True, IsFileUpload = False, TestOnly = False,
     PreprocessBeforeAuth = (\<lambda>r. (None, r)), ep_HandleRequest = (\<lambda>(ctx, resp). (None, (ctx, resp\<lparr>message := Some ''done''\<rparr>)))\<rparr>"

definition sample_request :: "string \<Rightarrow> (unit, string) request" where
  "sample_request ip = ((empty_context ())\<lparr>clientIp := ip\<rparr>,
     \<lparr>message = None, payload = None, redirectResourcePath = '''', response_file = None, dataSource = None, httpCode = 200\<rparr>)"

lemmas sample_gate = rest_admit_def extract_tenancy_def IsMultitenancy_def check_tenancy_def FindTenancy_def path_blocked_def TenancyByPath_def TenancyBase_IsActive_def
  HasIpAddressByPath_def read_body_def process_csrf_def on_context_def with_code_def with_code_request_def and_then_def SetTenancy_def HandleRequest_def AuthManager_Handle_def
  Schema_def Handler_def NoAuth_Handle_def sample_server_def sample_endpoint_def sample_request_def sample_tenancies_def sample_tenancy_def empty_context_def

theorem admitted_request_passed_gate_witness:
  "\<exists>x. tenancy_admits sample_server ''acme'' ''10.0.0.1'' x"
proof -
  let ?f = "\<lambda>ep. requestHandler sample_server sample_app ep ''acme'' (Some ''ab'') 0 (Inr '''', Inr '''') (sample_request ''10.0.0.1'')"
  have "?f sample_endpoint \<noteq> ?f (sample_endpoint\<lparr>ep_HandleRequest := \<lambda>r. (None, r)\<rparr>)"
    by (simp add: requestHandler_def sample_gate forward_user_def Let_def)
  moreover have "IsMultitenancy sample_server \<and> IsInTenancy sample_endpoint" "clientIp (fst (sample_request ''10.0.0.1'')) = ''10.0.0.1''" by (simp_all add: sample_gate)
  ultimately show ?thesis using admitted_request_passed_gate [of sample_server sample_app sample_endpoint] by metis
qed

theorem refused_request_is_not_handled_witness:
  "\<exists>orig r1. requestHandler sample_server sample_app sample_endpoint ''acme'' (Some ''abcdef'') 0 (Inr '''', Inr '''') (sample_request ''10.0.0.1'') =
     Some (ReplyError 400 ''bad_request'', orig, r1)"
proof -
  let ?a = "rest_admit sample_server sample_endpoint ''acme'' (Some ''abcdef'') 0 (Inr '''', Inr '''') (sample_request ''10.0.0.1'')"
  have "case ?a of None \<Rightarrow> False | Some (e, t, ctx, resp) \<Rightarrow> e \<noteq> None \<and> redirectResourcePath resp = '''' \<and> AuthContext.genericError ctx = Some ErrorCodeBadRequest"
    by (simp add: sample_gate AuthContexts.SetGenericErrorCode_def)
  then obtain e t ctx resp where a: "?a = Some (Some e, t, (ctx, resp))" and r: "redirectResourcePath resp = ''''" and c: "AuthContext.genericError ctx = Some ErrorCodeBadRequest"
    by (auto split: option.splits)
  obtain orig r1 where "\<forall>h. requestHandler sample_server sample_app (sample_endpoint\<lparr>ep_HandleRequest := h\<rparr>) ''acme'' (Some ''abcdef'') 0 (Inr '''', Inr '''') (sample_request ''10.0.0.1'') =
      Some (ReplyError (ErrorProtocolCode ErrorCodeBadRequest (server_errors sample_server)) ErrorCodeBadRequest, orig, r1)"
    using refused_request_is_not_handled [OF a r, of sample_app] c by auto
  moreover have "ErrorProtocolCode ErrorCodeBadRequest (server_errors sample_server) = 400" by code_simp
  moreover have "sample_endpoint = sample_endpoint\<lparr>ep_HandleRequest := ep_HandleRequest sample_endpoint\<rparr>" by simp
  ultimately show ?thesis unfolding ErrorCodeBadRequest_def by metis
qed

end
