(* ===== verification/GrpcServers.thy ===== *)
theory GrpcServers
  imports ApiServers Strings "HOL-Library.Sublist"
begin

section \<open>The gRPC server\<close>

text \<open>
  Models \<^verbatim>\<open>pkg/api/api_server/grpc_api_server\<close>: the creation of a request with its tenancy, the codec that authorizes a request while it decodes it, the handlers of unary and
  streaming calls, the response with its headers and status, and the codes. What gRPC itself does (metadata, buffers, sending) is outside: a handler gets the bytes of the message and
  gives a response with a status. Endpoints, authorization and decoding may panic, which the codec recovers from; a panic carries the request as it is then. A status
  is an error unless its code is \<open>OK\<close>.
\<close>

subsection \<open>Codes\<close>

datatype code = OK | Canceled | Unknown | InvalidArgument | DeadlineExceeded | NotFound | AlreadyExists | PermissionDenied | ResourceExhausted | FailedPrecondition | Aborted |
  OutOfRange | Unimplemented | Internal | Unavailable | DataLoss | Unauthenticated

definition code_number :: "code \<Rightarrow> int" where
  "code_number st =
     (case st of OK \<Rightarrow> 0 | Canceled \<Rightarrow> 1 | Unknown \<Rightarrow> 2 | InvalidArgument \<Rightarrow> 3 | DeadlineExceeded \<Rightarrow> 4 | NotFound \<Rightarrow> 5 | AlreadyExists \<Rightarrow> 6 | PermissionDenied \<Rightarrow> 7
      | ResourceExhausted \<Rightarrow> 8 | FailedPrecondition \<Rightarrow> 9 | Aborted \<Rightarrow> 10 | OutOfRange \<Rightarrow> 11 | Unimplemented \<Rightarrow> 12 | Internal \<Rightarrow> 13 | Unavailable \<Rightarrow> 14 | DataLoss \<Rightarrow> 15
      | Unauthenticated \<Rightarrow> 16)"

definition GRPCToGeneric :: "code \<Rightarrow> string" where
  "GRPCToGeneric st =
     (case st of
        OK \<Rightarrow> ''success'' | Aborted \<Rightarrow> ''io_aborted'' | InvalidArgument \<Rightarrow> ''bad_request'' | DeadlineExceeded \<Rightarrow> ''operation_expired'' | Canceled \<Rightarrow> ''io_aborted''
      | Unimplemented \<Rightarrow> ''unimplemented'' | PermissionDenied \<Rightarrow> ''forbidden'' | AlreadyExists \<Rightarrow> ''conflict'' | NotFound \<Rightarrow> ''resource_not_found''
      | Unauthenticated \<Rightarrow> ErrorCodeUnauthorized | ResourceExhausted \<Rightarrow> ''resource_busyr'' | Unavailable \<Rightarrow> ''operation_unsupported'' | _ \<Rightarrow> ''external_service_error'')"

definition HTTPToGRPC :: "int \<Rightarrow> code" where
  "HTTPToGRPC http =
     (if http = 200 then OK else if http = 400 then InvalidArgument else if http = 401 then Unauthenticated else if http = 403 then PermissionDenied
      else if http = 404 then NotFound else if http = 409 then AlreadyExists else if http = 429 then ResourceExhausted else if http = 408 then DeadlineExceeded
      else if http = HttpStatusClientAborted then Aborted else if http = 501 then Unimplemented else if http = 503 then Unavailable
      else if http = 504 then DeadlineExceeded else if http = 500 then Internal else Unknown)"

definition StatusError :: "code \<Rightarrow> bool" where
  "StatusError status \<longleftrightarrow> status = Internal \<or> status = DataLoss \<or> status = Unknown \<or> status = Unavailable \<or> status = DeadlineExceeded"

definition StatusWarn :: "code \<Rightarrow> bool" where
  "StatusWarn status \<longleftrightarrow> status \<noteq> OK"

definition grpc_log_level :: "code \<Rightarrow> Level" where
  "grpc_log_level status = (if StatusError status then ErrorLevel else if StatusWarn status then WarnLevel else InfoLevel)"

subsection \<open>Requests and endpoints\<close>

text \<open>\<open>error_object\<close> is a generic error that was set as an object; one that was set by its code is made by the error manager. \<open>sctx_alive\<close>: the context of the request is not nil.\<close>

record ('c, 'm, 'p) grpc_request =
  g_ctx :: "'c AuthContext"
  g_response :: "'m Response"
  error_object :: "go_error option"
  statusCode :: code
  statusMessage :: string
  opId :: string
  binaryContent :: "bytes option"
  transportMessage :: "'p option"
  sctx_alive :: bool

record ('m, 'p) RequestMessageBase =
  resp_binary :: "bytes option"
  resp_logic :: "'m option"
  resp_transport :: "'p option"

datatype 'r outcome = Returned "string option" 'r | Panicked 'r

record ('c, 'm, 'p) grpc_endpoint =
  g_Name :: string
  g_path :: string
  g_access :: AccessType
  g_inTenancy :: bool
  IsRequestPayloadNeeded :: bool
  IsServerStreaming :: bool
  g_TestOnly :: bool
  Preprocess :: "('c, 'm, 'p) grpc_request \<Rightarrow> ('c, 'm, 'p) grpc_request outcome"
  NewTransportRequest :: "(bytes \<Rightarrow> string + 'p) option"
  g_HandleRequest :: "('c, 'm, 'p) grpc_request \<Rightarrow> ('c, 'm, 'p) grpc_request outcome"
  Postprocess :: "('c, 'm, 'p) grpc_request \<Rightarrow> ('c, 'm, 'p) grpc_request outcome"
  LogicResponseToTransport :: "'m \<Rightarrow> string + 'p"
  GetProtoName :: "'p \<Rightarrow> string"
  attach_errors :: "ErrorManagerBase \<Rightarrow> ErrorManagerBase"

record ('d, 'c) grpc_server = "'d tenancy_gate" +
  g_server_name :: string
  G_OPLOG_USER_TYPE :: string
  STATUS_HEADER :: string
  ID_HEADER :: string
  MESSAGE_TYPE_HEADER :: string
  ERROR_FAMILY_HEADER :: string
  ERROR_DESCRIPTION_HEADER :: string
  ERROR_DETAILS_HEADER :: string
  ERROR_DISPOSITION_HEADER :: string
  ERROR_RETRY_AFTER_HEADER :: string
  GRPC_CODE_HEADER :: string
  RESOURCE_ID_HEADER_PREFIX :: string
  STREAM_HEARTBEAT_PERIOD :: int
  STREAM_HEARTBEAT_HEADER :: string
  g_propagateContextId :: bool
  g_propagateAuthUser :: bool
  g_errors :: ErrorManagerBase
  g_auth :: "string \<Rightarrow> AccessType \<Rightarrow> 'c AuthContext \<Rightarrow> 'c AuthContext outcome"

definition set_code :: "string \<Rightarrow> ('c, 'm, 'p) grpc_request \<Rightarrow> ('c, 'm, 'p) grpc_request" where
  "set_code c r = r\<lparr>g_ctx := AuthContexts.SetGenericErrorCode c [] (g_ctx r)\<rparr>"

definition set_error_object :: "go_error \<Rightarrow> ('c, 'm, 'p) grpc_request \<Rightarrow> ('c, 'm, 'p) grpc_request" where
  "set_error_object e r =
     (if AuthContext.genericError (g_ctx r) = None then (set_code (holder_code e) r)\<lparr>error_object := Some e\<rparr> else r)"

definition GenericError :: "('d, 'c) grpc_server \<Rightarrow> ('c, 'm, 'p) grpc_request \<Rightarrow> go_error option" where
  "GenericError s r =
     map_option (\<lambda>c. case error_object r of Some e \<Rightarrow> e | None \<Rightarrow> MakeGenericError c [] (g_errors s)) (AuthContext.genericError (g_ctx r))"

definition GetTenancyId :: "('c, 'm, 'p) grpc_request \<Rightarrow> string" where
  "GetTenancyId r = ''''"

text \<open>The identifiers of resources in the headers of a request, of which the keys are in lower case.\<close>

definition resource_ids :: "('d, 'c) grpc_server \<Rightarrow> (string \<times> string list) list \<Rightarrow> (string, string) gomap" where
  "resource_ids s md =
     fold (\<lambda>(key, values) m.
         if prefix (map go_lower (RESOURCE_ID_HEADER_PREFIX s)) key then
           (let typ = (if prefix (RESOURCE_ID_HEADER_PREFIX s) key then drop (length (RESOURCE_ID_HEADER_PREFIX s)) key else key)
            in fold (\<lambda>v m. if typ \<noteq> '''' then AList.update typ v m else m) values m)
         else m) md []"

subsection \<open>Creating a request\<close>

definition newRequest ::
    "('d, 'c) grpc_server \<Rightarrow> 'h App \<Rightarrow> ('c, 'm, 'p) grpc_endpoint \<Rightarrow> 'c AuthContext \<Rightarrow> 'm Response \<Rightarrow>
     (string option \<times> OriginHolder \<times> ('c, 'm, 'p) grpc_request) option" where
  "newRequest s app ep ctx0 resp =
     (let r0 = \<lparr>g_ctx = ctx0, g_response = resp, error_object = None, statusCode = OK, statusMessage = '''', opId = GetRequestHeader (ID_HEADER s) ctx0,
                binaryContent = None, transportMessage = None, sctx_alive = True\<rparr>;
          orig = request_origin app (g_server_name s) (G_OPLOG_USER_TYPE s) (forwardedOpSource (g_propagateContextId s) ctx0) ctx0
      in case extract_tenancy s (g_inTenancy ep) (GetTenancyId r0) ctx0 of
           None \<Rightarrow> None
         | Some ((err, t), ctx) \<Rightarrow>
             (let ctx1 = forward_user (g_propagateAuthUser s) ctx;
                  orig1 = (if authUser ctx1 \<noteq> None then orig\<lparr>origin_User := AuthUserDisplay (authUser ctx1)\<rparr> else orig);
                  ctx2 = (case t of Some x \<Rightarrow> if \<not> AUTH_FROM_TENANCY_DB s then SetTenancy x ctx1 else ctx1 | None \<Rightarrow> ctx1)
              in Some (err, orig1, r0\<lparr>g_ctx := ctx2\<rparr>)))"

subsection \<open>Responses\<close>

definition response_message :: "('c, 'm, 'p) grpc_endpoint \<Rightarrow> ('c, 'm, 'p) grpc_request \<Rightarrow> ('m, 'p) RequestMessageBase \<times> ('c, 'm, 'p) grpc_request" where
  "response_message ep r =
     (case payload (g_response r) of
        Some p \<Rightarrow> (\<lparr>resp_binary = Some p, resp_logic = None, resp_transport = None\<rparr>, r)
      | None \<Rightarrow>
          (case message (g_response r) of
             None \<Rightarrow> (\<lparr>resp_binary = None, resp_logic = None, resp_transport = None\<rparr>, r)
           | Some m \<Rightarrow>
               (case LogicResponseToTransport ep m of
                  Inl e \<Rightarrow> (\<lparr>resp_binary = None, resp_logic = Some m, resp_transport = None\<rparr>, set_code ErrorCodeInternalServerError r)
                | Inr p \<Rightarrow> (\<lparr>resp_binary = None, resp_logic = Some m, resp_transport = Some p\<rparr>, r))))"

definition error_headers :: "('d, 'c) grpc_server \<Rightarrow> code \<Rightarrow> go_error \<Rightarrow> (string \<times> string) list" where
  "error_headers s st e =
     [(GRPC_CODE_HEADER s, decimal_int (code_number st))] @
     (if holder_message e \<noteq> '''' then [(ERROR_DESCRIPTION_HEADER s, holder_message e)] else []) @
     (if holder_details e \<noteq> '''' then [(ERROR_DETAILS_HEADER s, holder_details e)] else []) @
     (if holder_family e \<noteq> '''' then [(ERROR_FAMILY_HEADER s, holder_family e)] else []) @
     (if IsStated (holder_disposition e) then
        (ERROR_DISPOSITION_HEADER s, holder_disposition e) #
        (if holder_disposition e = DispositionRetryAfter \<and> holder_retryAfter e > 0 then [(ERROR_RETRY_AFTER_HEADER s, decimal_int (holder_retryAfter e))] else [])
      else [])"

definition type_header :: "('d, 'c) grpc_server \<Rightarrow> ('c, 'm, 'p) grpc_endpoint \<Rightarrow> ('m, 'p) RequestMessageBase \<Rightarrow> (string \<times> string) list" where
  "type_header s ep resp = (case resp_transport resp of None \<Rightarrow> [] | Some p \<Rightarrow> [(MESSAGE_TYPE_HEADER s, GetProtoName ep p)])"

text \<open>The response, the headers and the request with its status. Without a context this panics at its end, where it sets the headers: its callers see to that.\<close>

definition fillResponse ::
    "('d, 'c) grpc_server \<Rightarrow> ('c, 'm, 'p) grpc_endpoint \<Rightarrow> ('c, 'm, 'p) grpc_request \<Rightarrow> (('m, 'p) RequestMessageBase \<times> (string \<times> string) list) \<times> ('c, 'm, 'p) grpc_request" where
  "fillResponse s ep r =
     (case response_message ep r of (resp, r1) \<Rightarrow>
        (let md = (if opId r1 \<noteq> '''' then [(ID_HEADER s, opId r1)] else [])
         in case GenericError s r1 of
              None \<Rightarrow> ((resp, md @ [(STATUS_HEADER s, ''success'')] @ type_header s ep resp), r1)
            | Some e \<Rightarrow>
                (let st = HTTPToGRPC (ErrorProtocolCode (holder_code e) (g_errors s))
                 in ((resp, md @ error_headers s st e @ [(STATUS_HEADER s, holder_code e)] @ type_header s ep resp), r1\<lparr>statusCode := st, statusMessage := holder_message e\<rparr>))))"

definition fillResponseStatus :: "('d, 'c) grpc_server \<Rightarrow> string option \<Rightarrow> ('c, 'm, 'p) grpc_request \<Rightarrow> ('c, 'm, 'p) grpc_request" where
  "fillResponseStatus s err r =
     (if err = None then r
      else
        (let r1 = set_code ''external_service_error'' r
         in case GenericError s r1 of
              None \<Rightarrow> r1
            | Some e \<Rightarrow> r1\<lparr>statusCode := HTTPToGRPC (ErrorProtocolCode (holder_code e) (g_errors s)), statusMessage := holder_message e\<rparr>))"

subsection \<open>The codec\<close>

text \<open>
  The error the codec returns, the response it prepared and the request. Preparing the request for decoding runs the preprocessing of the endpoint and the authorization. After a panic
  the variable that gets the error is not the result of the function, so none is returned.
\<close>

definition codec_failed ::
    "('d, 'c) grpc_server \<Rightarrow> ('c, 'm, 'p) grpc_endpoint \<Rightarrow> string \<Rightarrow> ('c, 'm, 'p) grpc_request \<Rightarrow>
     (string option \<times> (('m, 'p) RequestMessageBase \<times> (string \<times> string) list) option) \<times> ('c, 'm, 'p) grpc_request" where
  "codec_failed s ep e r = (case fillResponse s ep r of (resp, r1) \<Rightarrow> ((Some e, Some resp), r1))"

definition codec_recovered ::
    "('d, 'c) grpc_server \<Rightarrow> ('c, 'm, 'p) grpc_endpoint \<Rightarrow> ('c, 'm, 'p) grpc_request \<Rightarrow>
     (string option \<times> (('m, 'p) RequestMessageBase \<times> (string \<times> string) list) option) \<times> ('c, 'm, 'p) grpc_request" where
  "codec_recovered s ep r = (case fillResponse s ep (set_code ErrorCodeInternalServerError r) of (resp, r1) \<Rightarrow> ((None, Some resp), r1))"

definition decode_message ::
    "('d, 'c) grpc_server \<Rightarrow> ('c, 'm, 'p) grpc_endpoint \<Rightarrow> bytes \<Rightarrow> ('c, 'm, 'p) grpc_request \<Rightarrow>
     (string option \<times> (('m, 'p) RequestMessageBase \<times> (string \<times> string) list) option) \<times> ('c, 'm, 'p) grpc_request" where
  "decode_message s ep data r =
     (case NewTransportRequest ep of
        None \<Rightarrow> ((None, None), r)
      | Some dec \<Rightarrow>
          (case dec data of
             Inl e \<Rightarrow> (let g = NewFromErr (Native e) [ErrorCodeFormat] in codec_failed s ep (Error g) (set_error_object g r))
           | Inr p \<Rightarrow> ((None, None), r\<lparr>transportMessage := Some p\<rparr>)))"

definition run_auth :: "('d, 'c) grpc_server \<Rightarrow> ('c, 'm, 'p) grpc_endpoint \<Rightarrow> ('c, 'm, 'p) grpc_request \<Rightarrow> 'c AuthContext outcome" where
  "run_auth s ep r = (if sctx_alive r then g_auth s (g_path ep) (g_access ep) (g_ctx r) else Panicked (g_ctx r))"

definition Unmarshal ::
    "('d, 'c) grpc_server \<Rightarrow> ('c, 'm, 'p) grpc_endpoint \<Rightarrow> bytes \<Rightarrow> ('c, 'm, 'p) grpc_request \<Rightarrow>
     (string option \<times> (('m, 'p) RequestMessageBase \<times> (string \<times> string) list) option) \<times> ('c, 'm, 'p) grpc_request" where
  "Unmarshal s ep data r =
     (case Preprocess ep (r\<lparr>binaryContent := Some data\<rparr>) of
        Panicked r2 \<Rightarrow> codec_recovered s ep r2
      | Returned (Some e) r2 \<Rightarrow> codec_failed s ep e r2
      | Returned None r2 \<Rightarrow>
          (case run_auth s ep r2 of
             Panicked c \<Rightarrow> codec_recovered s ep (r2\<lparr>g_ctx := c\<rparr>)
           | Returned (Some e) c \<Rightarrow> codec_failed s ep e (set_code ErrorCodeUnauthorized (r2\<lparr>g_ctx := c, binaryContent := None\<rparr>))
           | Returned None c \<Rightarrow>
               decode_message s ep data (r2\<lparr>g_ctx := c, binaryContent := if IsRequestPayloadNeeded ep then Some data else None\<rparr>)))"

subsection \<open>Calls\<close>

text \<open>
  What a call ends with: a response with its headers and status, the internal error of the recovery around the endpoints, which is on unless the server is tested, or a crash, which nothing
  recovers. The recovery is around the endpoint of a unary call and around the whole of a streaming one.
\<close>

datatype ('m, 'p) served =
    Served "('m, 'p) RequestMessageBase option" "(string \<times> string) list" code string
  | Recovered
  | Crashed

definition served_with :: "(('m, 'p) RequestMessageBase \<times> (string \<times> string) list) option \<Rightarrow> ('c, 'm, 'p) grpc_request \<Rightarrow> ('m, 'p) served" where
  "served_with w r = Served (map_option fst w) (case w of None \<Rightarrow> [] | Some x \<Rightarrow> snd x) (statusCode r) (statusMessage r)"

definition code_on_error :: "string option \<Rightarrow> ('c, 'm, 'p) grpc_request \<Rightarrow> ('c, 'm, 'p) grpc_request" where
  "code_on_error err r = (if err \<noteq> None then set_code ErrorCodeInternalServerError r else r)"

definition handleRequest :: "('d, 'c) grpc_server \<Rightarrow> ('c, 'm, 'p) grpc_endpoint \<Rightarrow> ('c, 'm, 'p) grpc_request \<Rightarrow> ('m, 'p) served \<times> ('c, 'm, 'p) grpc_request" where
  "handleRequest s ep r =
     (if \<not> sctx_alive r then (Recovered, r)
      else case g_HandleRequest ep r of
             Panicked r1 \<Rightarrow> (Recovered, r1)
           | Returned e1 r1 \<Rightarrow>
               (case Postprocess ep (code_on_error e1 r1) of
                  Panicked r2 \<Rightarrow> (Recovered, r2)
                | Returned e2 r2 \<Rightarrow> if \<not> sctx_alive r2 then (Recovered, r2) else (case fillResponse s ep (code_on_error e2 r2) of (w, r3) \<Rightarrow> (served_with (Some w) r3, r3))))"

definition handleUnary :: "('d, 'c) grpc_server \<Rightarrow> 'h App \<Rightarrow> ('c, 'm, 'p) grpc_endpoint \<Rightarrow> 'c AuthContext \<Rightarrow> 'm Response \<Rightarrow> bytes \<Rightarrow> ('m, 'p) served" where
  "handleUnary s app ep ctx resp data =
     (case newRequest s app ep ctx resp of
        None \<Rightarrow> Crashed
      | Some (Some e, orig, r) \<Rightarrow> (case fillResponse s ep r of (w, r1) \<Rightarrow> served_with (Some w) r1)
      | Some (None, orig, r) \<Rightarrow>
          (case Unmarshal s ep data r of
             ((err, w), r1) \<Rightarrow>
               if w \<noteq> None \<and> \<not> sctx_alive r1 then Crashed
               else if err \<noteq> None then served_with w r1
               else fst (handleRequest s ep r1)))"

text \<open>The first part of a streaming call: after a refusal the request is closed, which takes its context away, but the call goes on.\<close>

definition stream_start :: "('d, 'c) grpc_server \<Rightarrow> 'h App \<Rightarrow> ('c, 'm, 'p) grpc_endpoint \<Rightarrow> 'c AuthContext \<Rightarrow> 'm Response \<Rightarrow> bytes \<Rightarrow> ('m, 'p) served" where
  "stream_start s app ep ctx resp data =
     (case newRequest s app ep ctx resp of
        None \<Rightarrow> Recovered
      | Some (err, orig, r) \<Rightarrow>
          (let r1 = (if err \<noteq> None then (snd (fillResponse s ep r))\<lparr>sctx_alive := False\<rparr> else r)
           in case Unmarshal s ep data r1 of
                ((err, w), r2) \<Rightarrow>
                  if w \<noteq> None \<and> \<not> sctx_alive r2 then Recovered
                  else (case err of
                          Some e \<Rightarrow> Served None (case w of None \<Rightarrow> [] | Some x \<Rightarrow> snd x) Internal e
                        | None \<Rightarrow> fst (handleRequest s ep r2))))"

definition streamHeartbeatPeriod :: "('d, 'c) grpc_server \<Rightarrow> string \<Rightarrow> int" where
  "streamHeartbeatPeriod s hint =
     (let period = STREAM_HEARTBEAT_PERIOD s
      in if period \<le> 0 then 0
         else if hint = '''' then 0
         else
           (let p = (case ParseInt 64 hint of Inl e \<Rightarrow> period | Inr v \<Rightarrow> if v > 0 \<and> v < period then v else period)
            in if p < 5 then 5 else p))"

text \<open>
  The loop of an open stream: each event ends it with a status or goes on, maybe with a message sent. Events carry the status that sending failed with, if it did. A message that cannot
  be converted ends the stream with the status of the request.
\<close>

datatype 'm stream_event = ClientDone | ServerShutdown | AuthTimerFired | HeartbeatDue "code option" | QueueClosed | QueueMessage 'm "code option"

datatype 'p stream_reply = StreamGoesOn "'p option" | StreamEnds code

definition stream_step ::
    "('d, 'c) grpc_server \<Rightarrow> ('c, 'm, 'p) grpc_endpoint \<Rightarrow> ('c, 'm, 'p) grpc_request \<Rightarrow> code \<Rightarrow> 'm stream_event \<Rightarrow> 'p stream_reply \<times> ('c, 'm, 'p) grpc_request" where
  "stream_step s ep r initial ev =
     (case ev of
        ClientDone \<Rightarrow> (StreamEnds initial, r)
      | ServerShutdown \<Rightarrow> (StreamEnds Aborted, r)
      | AuthTimerFired \<Rightarrow> (StreamEnds Aborted, r)
      | HeartbeatDue sent \<Rightarrow> ((case sent of None \<Rightarrow> StreamGoesOn None | Some st \<Rightarrow> StreamEnds st), r)
      | QueueClosed \<Rightarrow> (StreamEnds OK, r)
      | QueueMessage m sent \<Rightarrow>
          (case LogicResponseToTransport ep m of
             Inl e \<Rightarrow> (case fillResponse s ep (fillResponseStatus s (Some e) r) of (w, r1) \<Rightarrow> (StreamEnds (statusCode r1), r1))
           | Inr p \<Rightarrow> ((case sent of None \<Rightarrow> StreamGoesOn (Some p) | Some st \<Rightarrow> StreamEnds st), r)))"

subsection \<open>Registration\<close>

definition FullMethodName :: "string \<Rightarrow> string \<Rightarrow> ('c, 'm, 'p) grpc_endpoint \<Rightarrow> string" where
  "FullMethodName pkg service ep = ''/'' @ pkg @ ''.'' @ service @ ''/'' @ g_Name ep"

text \<open>The handlers by full name, the unary methods and the streams of a service. The errors of the endpoint become those of the server.\<close>

type_synonym ('c, 'm, 'p) grpc_registry = "(string, ('c, 'm, 'p) grpc_endpoint) gomap \<times> string list \<times> string list"

definition grpc_AddEndpoint ::
    "bool \<Rightarrow> string \<Rightarrow> string \<Rightarrow> ('c, 'm, 'p) grpc_endpoint \<Rightarrow> ('d, 'c) grpc_server \<times> ('c, 'm, 'p) grpc_registry \<Rightarrow> ('d, 'c) grpc_server \<times> ('c, 'm, 'p) grpc_registry" where
  "grpc_AddEndpoint testing pkg service ep = (\<lambda>(s, handlers, methods, streams).
     if g_TestOnly ep \<and> \<not> testing then (s, handlers, methods, streams)
     else (s\<lparr>g_errors := attach_errors ep (g_errors s)\<rparr>, AList.update (FullMethodName pkg service ep) ep handlers,
       (if IsServerStreaming ep then methods else methods @ [g_Name ep]), (if IsServerStreaming ep then streams @ [g_Name ep] else streams)))"

text \<open>What gRPC is given for a service: its name, its methods and its streams.\<close>

definition RegisterService ::
    "bool \<Rightarrow> string \<Rightarrow> string \<Rightarrow> ('c, 'm, 'p) grpc_endpoint list \<Rightarrow> ('d, 'c) grpc_server \<times> (string, ('c, 'm, 'p) grpc_endpoint) gomap \<Rightarrow>
     (string \<times> string list \<times> string list) \<times> ('d, 'c) grpc_server \<times> (string, ('c, 'm, 'p) grpc_endpoint) gomap" where
  "RegisterService testing pkg service eps = (\<lambda>(s, handlers).
     case fold (grpc_AddEndpoint testing pkg service) eps (s, handlers, [], []) of
       (s1, handlers1, methods, streams) \<Rightarrow> ((pkg @ ''.'' @ service, methods, streams), s1, handlers1))"

definition GrpcHandler :: "string \<Rightarrow> string \<Rightarrow> ('c, 'm, 'p) grpc_endpoint \<Rightarrow> (string, ('c, 'm, 'p) grpc_endpoint) gomap \<Rightarrow> ('c, 'm, 'p) grpc_endpoint option" where
  "GrpcHandler pkg service ep handlers = map_of handlers (FullMethodName pkg service ep)"

subsection \<open>What the server guarantees\<close>

lemma other_fields:
  "Preprocess (ep\<lparr>g_HandleRequest := h\<rparr>) = Preprocess ep" "Postprocess (ep\<lparr>g_HandleRequest := h\<rparr>) = Postprocess ep"
  "IsRequestPayloadNeeded (ep\<lparr>g_HandleRequest := h\<rparr>) = IsRequestPayloadNeeded ep" "NewTransportRequest (ep\<lparr>g_HandleRequest := h\<rparr>) = NewTransportRequest ep"
  "LogicResponseToTransport (ep\<lparr>g_HandleRequest := h\<rparr>) = LogicResponseToTransport ep" "g_path (ep\<lparr>g_HandleRequest := h\<rparr>) = g_path ep"
  "GetProtoName (ep\<lparr>g_HandleRequest := h\<rparr>) = GetProtoName ep" "g_access (ep\<lparr>g_HandleRequest := h\<rparr>) = g_access ep" "g_inTenancy (ep\<lparr>g_HandleRequest := h\<rparr>) = g_inTenancy ep"
  by simp_all

lemma response_message_handler: "response_message (ep\<lparr>g_HandleRequest := h\<rparr>) = response_message ep"
  unfolding response_message_def [abs_def] other_fields by (rule refl)

lemma type_header_handler: "type_header s (ep\<lparr>g_HandleRequest := h\<rparr>) = type_header s ep"
  unfolding type_header_def [abs_def] other_fields by (rule refl)

lemma fillResponse_handler: "fillResponse s (ep\<lparr>g_HandleRequest := h\<rparr>) = fillResponse s ep"
  unfolding fillResponse_def [abs_def] response_message_handler type_header_handler by (rule refl)

lemma codec_handler:
  "codec_failed s (ep\<lparr>g_HandleRequest := h\<rparr>) = codec_failed s ep" "codec_recovered s (ep\<lparr>g_HandleRequest := h\<rparr>) = codec_recovered s ep"
  "run_auth s (ep\<lparr>g_HandleRequest := h\<rparr>) = run_auth s ep"
  unfolding codec_failed_def [abs_def] codec_recovered_def [abs_def] run_auth_def [abs_def] fillResponse_handler other_fields by (rule refl)+

lemma decode_message_handler: "decode_message s (ep\<lparr>g_HandleRequest := h\<rparr>) = decode_message s ep"
  unfolding decode_message_def [abs_def] codec_handler other_fields by (rule refl)

lemma Unmarshal_handler: "Unmarshal s (ep\<lparr>g_HandleRequest := h\<rparr>) = Unmarshal s ep"
  unfolding Unmarshal_def [abs_def] codec_handler decode_message_handler other_fields by (rule refl)

lemma newRequest_handler: "newRequest s app (ep\<lparr>g_HandleRequest := h\<rparr>) = newRequest s app ep"
  unfolding newRequest_def [abs_def] other_fields by (rule refl)

text \<open>The message is decoded, and the endpoint runs, only after the authorization, unless something panics.\<close>

definition no_panics :: "('d, 'c) grpc_server \<Rightarrow> ('c, 'm, 'p) grpc_endpoint \<Rightarrow> bool" where
  "no_panics s ep \<longleftrightarrow> (\<forall>r r'. Preprocess ep r \<noteq> Panicked r') \<and> (\<forall>c c'. g_auth s (g_path ep) (g_access ep) c \<noteq> Panicked c') \<and>
     (\<forall>r e r'. Preprocess ep r = Returned e r' \<longrightarrow> sctx_alive r' = sctx_alive r)"

lemma Unmarshal_ok:
  assumes "Unmarshal s ep data r = ((None, w), r')" "no_panics s ep" "sctx_alive r"
  shows "\<exists>r2 c. Preprocess ep (r\<lparr>binaryContent := Some data\<rparr>) = Returned None r2 \<and> g_auth s (g_path ep) (g_access ep) (g_ctx r2) = Returned None c \<and> g_ctx r' = c"
proof (cases "Preprocess ep (r\<lparr>binaryContent := Some data\<rparr>)")
  case (Returned e r2)
  have a: "sctx_alive r2" using Returned assms(2,3) by (simp add: no_panics_def)
  have e: "e = None" using Returned assms(1) by (cases e) (auto simp: Unmarshal_def codec_failed_def split: prod.splits)
  obtain e2 c where g: "g_auth s (g_path ep) (g_access ep) (g_ctx r2) = Returned e2 c"
    using assms(2) unfolding no_panics_def by (metis outcome.exhaust)
  have "e2 = None" using Returned e g a assms(1) by (cases e2) (auto simp: Unmarshal_def run_auth_def codec_failed_def split: prod.splits)
  moreover have "g_ctx r' = c" using Returned e g a \<open>e2 = None\<close> assms(1)
    by (auto simp: Unmarshal_def run_auth_def decode_message_def codec_failed_def Let_def split: option.splits sum.splits prod.splits)
  ultimately show ?thesis using Returned e g by auto
next
  case (Panicked r2)
  then show ?thesis using assms(2) by (simp add: no_panics_def)
qed

lemma newRequest_alive: "newRequest s app ep ctx resp = Some (e, orig, r) \<Longrightarrow> sctx_alive r"
  by (auto simp: newRequest_def Let_def split: option.splits)

lemma fillResponse_alive: "fillResponse s ep r = (w, r') \<Longrightarrow> sctx_alive r' = sctx_alive r"
  by (auto simp: fillResponse_def response_message_def set_code_def Let_def split: prod.splits option.splits sum.splits)

text \<open>A request without a context cannot be authorized, so what is left of a refused stream never gets to its endpoint.\<close>

lemma Unmarshal_dead:
  assumes "no_panics s ep" "\<not> sctx_alive r"
  shows "\<exists>e w r'. Unmarshal s ep data r = ((e, Some w), r') \<and> \<not> sctx_alive r'"
proof (cases "Preprocess ep (r\<lparr>binaryContent := Some data\<rparr>)")
  case (Returned e r2)
  then have d: "\<not> sctx_alive r2" using assms by (simp add: no_panics_def)
  have f: "\<exists>w r'. fillResponse s ep x = (w, r') \<and> \<not> sctx_alive r'" if "\<not> sctx_alive x" for x
    using that fillResponse_alive by (metis surj_pair)
  show ?thesis
  proof (cases e)
    case None
    obtain w r' where "fillResponse s ep (set_code ErrorCodeInternalServerError (r2\<lparr>g_ctx := g_ctx r2\<rparr>)) = (w, r')" "\<not> sctx_alive r'"
      using f [of "set_code ErrorCodeInternalServerError (r2\<lparr>g_ctx := g_ctx r2\<rparr>)"] d by (auto simp: set_code_def)
    then show ?thesis using None Returned d by (simp add: Unmarshal_def run_auth_def codec_recovered_def)
  next
    case (Some x)
    then show ?thesis using Returned f [OF d] by (auto simp: Unmarshal_def codec_failed_def)
  qed
next
  case (Panicked r2)
  then show ?thesis using assms(1) by (simp add: no_panics_def)
qed

lemma handleUnary_depends:
  assumes "handleUnary s app ep ctx resp data \<noteq> handleUnary s app (ep\<lparr>g_HandleRequest := h\<rparr>) ctx resp data"
  obtains orig r w r1 where "newRequest s app ep ctx resp = Some (None, orig, r)" "Unmarshal s ep data r = ((None, w), r1)"
  using assms by (auto simp: handleUnary_def newRequest_handler Unmarshal_handler fillResponse_handler split: option.splits prod.splits if_split_asm)

lemma stream_start_depends:
  assumes "stream_start s app ep ctx resp data \<noteq> stream_start s app (ep\<lparr>g_HandleRequest := h\<rparr>) ctx resp data" "no_panics s ep"
  obtains orig r w r1 where "newRequest s app ep ctx resp = Some (None, orig, r)" "Unmarshal s ep data r = ((None, w), r1)"
proof (cases "newRequest s app ep ctx resp")
  case None
  then show ?thesis using assms(1) by (simp add: stream_start_def newRequest_handler)
next
  case (Some x)
  obtain err orig r where x: "x = (err, orig, r)" by (cases x)
  have "err = None"
  proof (rule ccontr)
    assume e: "err \<noteq> None"
    obtain e2 w r' where u: "Unmarshal s ep data ((snd (fillResponse s ep r))\<lparr>sctx_alive := False\<rparr>) = ((e2, Some w), r')" "\<not> sctx_alive r'"
      using Unmarshal_dead [OF assms(2), of "(snd (fillResponse s ep r))\<lparr>sctx_alive := False\<rparr>" data] by auto
    then show False using assms(1) e by (simp add: stream_start_def newRequest_handler Unmarshal_handler fillResponse_handler Some x Let_def)
  qed
  then show ?thesis
    using assms(1) that Some x
    by (auto simp: stream_start_def newRequest_handler Unmarshal_handler fillResponse_handler Let_def split: prod.splits option.splits if_split_asm)
qed

text \<open>C20: if neither the preprocessing nor the authorization panics, the handler of an endpoint matters for a unary call or the start of a stream, that is another handler in its place would
  give another result, only if the request that was made of the call passed the check of its tenancy, the preprocessing accepted it with the data of the call, and the authorization accepted
  what that left; the context the authorization left is that of the decoded request, which is what the handler gets.\<close>

theorem grpc_handler_is_authorized:
  assumes "no_panics s ep"
    and "handleUnary s app ep ctx resp data \<noteq> handleUnary s app (ep\<lparr>g_HandleRequest := h\<rparr>) ctx resp data \<or>
      stream_start s app ep ctx resp data \<noteq> stream_start s app (ep\<lparr>g_HandleRequest := h\<rparr>) ctx resp data"
  shows "\<exists>orig r r2 c w r1. newRequest s app ep ctx resp = Some (None, orig, r) \<and>
    (IsMultitenancy s \<and> g_inTenancy ep \<longrightarrow> (\<exists>x. tenancy_admits s '''' (clientIp ctx) x)) \<and>
    Preprocess ep (r\<lparr>binaryContent := Some data\<rparr>) = Returned None r2 \<and> g_auth s (g_path ep) (g_access ep) (g_ctx r2) = Returned None c \<and>
    Unmarshal s ep data r = ((None, w), r1) \<and> g_ctx r1 = c"
proof -
  obtain orig r w r1 where n: "newRequest s app ep ctx resp = Some (None, orig, r)" and u: "Unmarshal s ep data r = ((None, w), r1)"
    using assms(2)
  proof
    assume "handleUnary s app ep ctx resp data \<noteq> handleUnary s app (ep\<lparr>g_HandleRequest := h\<rparr>) ctx resp data"
    then show thesis by (rule handleUnary_depends) (rule that)
  next
    assume "stream_start s app ep ctx resp data \<noteq> stream_start s app (ep\<lparr>g_HandleRequest := h\<rparr>) ctx resp data"
    then show thesis by (rule stream_start_depends [OF _ assms(1)]) (rule that)
  qed
  obtain t ctx1 where "extract_tenancy s (g_inTenancy ep) '''' ctx = Some ((None, t), ctx1)"
    using n by (auto simp: newRequest_def Let_def GetTenancyId_def split: option.splits)
  then have "IsMultitenancy s \<and> g_inTenancy ep \<longrightarrow> (\<exists>x. tenancy_admits s '''' (clientIp ctx) x)" using extract_tenancy_ok by blast
  then show ?thesis using n u Unmarshal_ok [OF u assms(1) newRequest_alive [OF n]] by blast
qed

lemma fillResponse_error:
  assumes "fillResponse s ep r = (w, r')" "AuthContext.genericError (g_ctx r) = Some code" "error_object r = None"
  shows "statusCode r' = HTTPToGRPC (ErrorProtocolCode code (g_errors s))"
  using assms by (auto simp: fillResponse_def GenericError_def response_message_def set_code_def MakeGenericError_def Let_def
      split: option.splits sum.splits prod.splits)

lemma HTTPToGRPC_OK: "HTTPToGRPC h = OK \<longleftrightarrow> h = 200"
  by (simp add: HTTPToGRPC_def HttpStatusClientAborted_def)

lemma newRequest_error:
  assumes "newRequest s app ep ctx resp = Some (Some e, orig, r)" shows "AuthContext.genericError (g_ctx r) \<noteq> None"
proof -
  obtain t ctx1 where x: "extract_tenancy s (g_inTenancy ep) '''' ctx = Some ((Some e, t), ctx1)"
    using assms by (auto simp: newRequest_def Let_def GetTenancyId_def split: option.splits)
  have u: "AuthContext.genericError (forward_user b c) = AuthContext.genericError c" for b and c :: "'a AuthContext"
    by (simp add: forward_user_def Let_def)
  have "AuthContext.genericError (g_ctx r) = AuthContext.genericError ctx1"
    using assms x by (cases t) (auto simp: newRequest_def Let_def GetTenancyId_def SetTenancy_def u)
  then show ?thesis using extract_tenancy_error [OF x] by simp
qed

text \<open>A call whose tenancy is refused, or whose authorization fails, ends with a status that is an error, if the error manager has no code with the status 200.\<close>

theorem grpc_refusal_is_an_error:
  assumes "\<And>c. ErrorProtocolCode c (g_errors s) \<noteq> 200" and "newRequest s app ep ctx resp = Some (err, orig, r)"
    and "err \<noteq> None \<or> (\<exists>r2 e c. Preprocess ep (r\<lparr>binaryContent := Some data\<rparr>) = Returned None r2 \<and> sctx_alive r2 \<and> error_object r2 = None \<and>
      g_auth s (g_path ep) (g_access ep) (g_ctx r2) = Returned (Some e) c)"
  shows "\<exists>w md st msg. handleUnary s app ep ctx resp data = Served w md st msg \<and> st \<noteq> OK"
proof (cases err)
  case (Some e)
  have o: "error_object r = None" using assms(2) by (auto simp: newRequest_def Let_def split: option.splits)
  have "AuthContext.genericError (g_ctx r) \<noteq> None" using newRequest_error assms(2) Some by blast
  then obtain code where c: "AuthContext.genericError (g_ctx r) = Some code" by auto
  obtain w r1 where f: "fillResponse s ep r = (w, r1)" by (cases "fillResponse s ep r")
  have "statusCode r1 \<noteq> OK" using fillResponse_error [OF f c o] assms(1) by (simp add: HTTPToGRPC_OK)
  then show ?thesis using assms(2) Some f by (simp add: handleUnary_def served_with_def)
next
  case None
  then obtain r2 e c where p: "Preprocess ep (r\<lparr>binaryContent := Some data\<rparr>) = Returned None r2" "sctx_alive r2" "error_object r2 = None"
    "g_auth s (g_path ep) (g_access ep) (g_ctx r2) = Returned (Some e) c" using assms(3) by auto
  let ?r = "set_code ErrorCodeUnauthorized (r2\<lparr>g_ctx := c, binaryContent := None\<rparr>)"
  have "\<exists>code. AuthContext.genericError (g_ctx ?r) = Some code" by (simp add: set_code_def)
  then obtain code where g: "AuthContext.genericError (g_ctx ?r) = Some code" ..
  obtain w r1 where f: "fillResponse s ep ?r = (w, r1)" by (cases "fillResponse s ep ?r")
  have "error_object ?r = None" using p(3) by (simp add: set_code_def)
  then have "statusCode r1 \<noteq> OK" using fillResponse_error [OF f g] assms(1) by (simp add: HTTPToGRPC_OK)
  moreover have "Unmarshal s ep data r = ((Some e, Some w), r1)" using p f by (simp add: Unmarshal_def run_auth_def codec_failed_def)
  moreover have "sctx_alive r1" using fillResponse_alive [OF f] p(2) by (simp add: set_code_def)
  ultimately show ?thesis using assms(2) None by (simp add: handleUnary_def served_with_def)
qed

text \<open>The heartbeat period is none, or at least five seconds and never over the period of the server, when that is at least five.\<close>

lemma heartbeat_period_bounds:
  "streamHeartbeatPeriod s hint = 0 \<or> 5 \<le> streamHeartbeatPeriod s hint \<and> streamHeartbeatPeriod s hint \<le> max 5 (STREAM_HEARTBEAT_PERIOD s)"
  by (auto simp: streamHeartbeatPeriod_def Let_def split: sum.split)

text \<open>Every endpoint of a registered service is found under its name, unless it is for tests only or a later one of the service has the same name.\<close>

lemma AddEndpoint_handlers:
  "map_of (fst (snd (grpc_AddEndpoint testing pkg service ep st))) =
     (if g_TestOnly ep \<and> \<not> testing then map_of (fst (snd st)) else (map_of (fst (snd st)))(FullMethodName pkg service ep \<mapsto> ep))"
  by (simp add: grpc_AddEndpoint_def update_conv' split: prod.split)

lemma AddEndpoints_other:
  assumes "FullMethodName pkg service ep \<notin> FullMethodName pkg service ` set eps"
  shows "map_of (fst (snd (fold (grpc_AddEndpoint testing pkg service) eps st))) (FullMethodName pkg service ep) = map_of (fst (snd st)) (FullMethodName pkg service ep)"
  using assms by (induction eps arbitrary: st) (auto simp: AddEndpoint_handlers)

lemma registered_endpoint_is_found:
  assumes "eps = xs @ ep # ys" "g_Name ep \<notin> g_Name ` set ys" "\<not> g_TestOnly ep \<or> testing"
  shows "GrpcHandler pkg service ep (snd (snd (RegisterService testing pkg service eps st))) = Some ep"
proof -
  have "FullMethodName pkg service ep \<notin> FullMethodName pkg service ` set ys" using assms(2) by (auto simp: FullMethodName_def)
  then show ?thesis using assms(1,3)
    by (auto simp: RegisterService_def GrpcHandler_def split_beta AddEndpoints_other AddEndpoint_handlers)
qed

text \<open>A panic in the authorization is recovered by the codec, which then reports no error: the endpoint handles a request that nobody authorized.\<close>

lemma panic_in_auth_runs_handler:
  assumes "newRequest s app ep ctx resp = Some (None, orig, r)" "Preprocess ep (r\<lparr>binaryContent := Some data\<rparr>) = Returned None r2"
    and "g_auth s (g_path ep) (g_access ep) (g_ctx r2) = Panicked c" "sctx_alive r2"
  shows "\<exists>r1. handleUnary s app ep ctx resp data = fst (handleRequest s ep r1) \<and> sctx_alive r1"
proof -
  let ?r = "set_code ErrorCodeInternalServerError (r2\<lparr>g_ctx := c\<rparr>)"
  obtain w r1 where f: "fillResponse s ep ?r = (w, r1)" by (cases "fillResponse s ep ?r")
  have "sctx_alive r1" using fillResponse_alive [OF f] assms(4) by (simp add: set_code_def)
  then show ?thesis using assms f by (auto simp: handleUnary_def Unmarshal_def run_auth_def codec_recovered_def intro!: exI [of _ r1])
qed

text \<open>An error of the preprocessing that sets no generic error is reported to the client with the status \<open>OK\<close>.\<close>

lemma failed_preprocessing_is_success:
  assumes "newRequest s app ep ctx resp = Some (None, orig, r)" "Preprocess ep (r\<lparr>binaryContent := Some data\<rparr>) = Returned (Some e) r2"
    and "sctx_alive r2" "AuthContext.genericError (g_ctx r2) = None" "statusCode r2 = OK" "payload (g_response r2) = None" "message (g_response r2) = None"
  shows "\<exists>w md msg. handleUnary s app ep ctx resp data = Served w md OK msg"
  using assms by (simp add: handleUnary_def Unmarshal_def codec_failed_def fillResponse_def response_message_def GenericError_def served_with_def Let_def)

text \<open>A streaming call that is refused is not ended there: the closed request goes on to the endpoint, and the call ends with the internal error of the recovery instead of the reason.\<close>

lemma refused_stream_goes_on:
  assumes "newRequest s app ep ctx resp = Some (Some e, orig, r)" "\<And>r. Preprocess ep r = Returned None r"
  shows "stream_start s app ep ctx resp data = Recovered"
proof -
  let ?r = "(snd (fillResponse s ep r))\<lparr>sctx_alive := False, binaryContent := Some data\<rparr>"
  obtain w r1 where f: "fillResponse s ep (set_code ErrorCodeInternalServerError (?r\<lparr>g_ctx := g_ctx ?r\<rparr>)) = (w, r1)"
    by (cases "fillResponse s ep (set_code ErrorCodeInternalServerError (?r\<lparr>g_ctx := g_ctx ?r\<rparr>))")
  have "\<not> sctx_alive r1" using fillResponse_alive [OF f] by (simp add: set_code_def)
  then show ?thesis using assms f by (simp add: stream_start_def Unmarshal_def run_auth_def codec_recovered_def handleRequest_def)
qed

subsection \<open>A server with one endpoint\<close>

definition sample_grpc_server :: "bool \<Rightarrow> (unit, unit) grpc_server" where
  "sample_grpc_server allow = \<lparr>DISABLE_MULTITENANCY = True, SHADOW_TENANCY_PATH = False, ALLOW_BLOCKED_TENANCY_PATH = False, AUTH_FROM_TENANCY_DB = True,
     TENANCY_ALLOWED_IP_LIST = False, TENANCY_ALLOWED_IP_LIST_TAG = '''', tenancies = None, managerMultitenancy = False, g_server_name = ''grpc'', G_OPLOG_USER_TYPE = ''user'',
     STATUS_HEADER = ''x-status'', ID_HEADER = ''x-id'', MESSAGE_TYPE_HEADER = ''x-type'', ERROR_FAMILY_HEADER = ''x-error-family'', ERROR_DESCRIPTION_HEADER = ''x-error-description'',
     ERROR_DETAILS_HEADER = ''x-error-details'', ERROR_DISPOSITION_HEADER = ''x-error-disposition'', ERROR_RETRY_AFTER_HEADER = ''x-error-retry-after'',
     GRPC_CODE_HEADER = ''x-grpc-code'', RESOURCE_ID_HEADER_PREFIX = ''x-resource-id-'', STREAM_HEARTBEAT_PERIOD = 30, STREAM_HEARTBEAT_HEADER = ''x-heartbeat'',
     g_propagateContextId = False, g_propagateAuthUser = False, g_errors = ManagerHttp_Init,
     g_auth = (\<lambda>path access c. Returned (if allow then None else Some ''refused'') c)\<rparr>"

definition sample_grpc_endpoint :: "(unit, string, string) grpc_endpoint" where
  "sample_grpc_endpoint = \<lparr>g_Name = ''Echo'', g_path = ''/echo'', g_access = Read, g_inTenancy = True, IsRequestPayloadNeeded = True, IsServerStreaming = False, g_TestOnly = False,
     Preprocess = Returned None, NewTransportRequest = Some Inr,
     g_HandleRequest = (\<lambda>r. Returned None (r\<lparr>g_response := (g_response r)\<lparr>message := transportMessage r\<rparr>\<rparr>)),
     Postprocess = Returned None, LogicResponseToTransport = Inr, GetProtoName = (\<lambda>p. ''echo''), attach_errors = id\<rparr>"

definition sample_grpc_response :: "string Response" where
  "sample_grpc_response = \<lparr>message = None, payload = None, redirectResourcePath = '''', response_file = None, dataSource = None, httpCode = 200\<rparr>"

lemmas sample_grpc = sample_grpc_server_def sample_grpc_endpoint_def sample_grpc_response_def newRequest_def extract_tenancy_def IsMultitenancy_def GetTenancyId_def
  handleUnary_def Unmarshal_def run_auth_def decode_message_def handleRequest_def code_on_error_def fillResponse_def response_message_def GenericError_def served_with_def
  forward_user_def GetRequestHeader_def empty_context_def Let_def

lemma http_codes_not_200: "ErrorProtocolCode c ManagerHttp_Init \<noteq> 200"
  by (simp add: ErrorProtocolCode_def http_maps CommonErrorHttpCodes_def)
    (simp add: ManagerHttp_Init_def Manager_AddErrorDispositions_def AddErrorProtocolCodes_def AddErrorDescriptions_def Manager_Init_def)

theorem grpc_handler_is_authorized_witness:
  "\<exists>orig r r2 c. newRequest (sample_grpc_server True) sample_app sample_grpc_endpoint (empty_context ()) sample_grpc_response = Some (None, orig, r) \<and>
     Preprocess sample_grpc_endpoint (r\<lparr>binaryContent := Some ''hi''\<rparr>) = Returned None r2 \<and> g_auth (sample_grpc_server True) ''/echo'' Read (g_ctx r2) = Returned None c"
proof -
  let ?s = "sample_grpc_server True" and ?h = "\<lambda>r. Returned None r"
  have n: "no_panics ?s sample_grpc_endpoint" by (simp add: no_panics_def sample_grpc_server_def sample_grpc_endpoint_def)
  have "handleUnary ?s sample_app sample_grpc_endpoint (empty_context ()) sample_grpc_response ''hi'' \<noteq>
     handleUnary ?s sample_app (sample_grpc_endpoint\<lparr>g_HandleRequest := ?h\<rparr>) (empty_context ()) sample_grpc_response ''hi''"
    by (simp add: sample_grpc)
  moreover have "g_path sample_grpc_endpoint = ''/echo''" "g_access sample_grpc_endpoint = Read" by (simp_all add: sample_grpc_endpoint_def)
  ultimately show ?thesis using grpc_handler_is_authorized [OF n, of sample_app "empty_context ()" sample_grpc_response "''hi''" ?h] by metis
qed

theorem grpc_refusal_is_an_error_witness:
  "\<exists>w md st msg. handleUnary (sample_grpc_server False) sample_app sample_grpc_endpoint (empty_context ()) sample_grpc_response ''hi'' = Served w md st msg \<and> st \<noteq> OK"
proof -
  let ?s = "sample_grpc_server False" and ?c = "empty_context ()"
  have h: "ErrorProtocolCode c (g_errors ?s) \<noteq> 200" for c using http_codes_not_200 by (simp add: sample_grpc_server_def)
  have "case newRequest ?s sample_app sample_grpc_endpoint ?c sample_grpc_response of None \<Rightarrow> False | Some (e, orig, r) \<Rightarrow> error_object r = None \<and> sctx_alive r"
    by (simp add: sample_grpc)
  then obtain e orig r where n: "newRequest ?s sample_app sample_grpc_endpoint ?c sample_grpc_response = Some (e, orig, r)" and r: "error_object r = None" "sctx_alive r"
    by (auto split: option.splits)
  show ?thesis
    by (rule grpc_refusal_is_an_error [OF h n, of "''hi''"]) (use r in \<open>simp add: sample_grpc_server_def sample_grpc_endpoint_def\<close>)
qed

end
