(* ===== verification/DynamicTables.thy ===== *)
theory DynamicTables
  imports DbFilters "HOL-Library.Sublist"
begin

section \<open>Dynamic tables\<close>

text \<open>
  Models \<^verbatim>\<open>pkg/api/api_server/dynamic_table.go\<close> and \<^verbatim>\<open>dynamic_table_gorm/dynamic_table_gorm.go\<close>: the descriptions of the tables that a client shows, derived from the models of the
  database. The columns of a table are pointers, here addresses into the list of all columns, because the copy of a table that a request gets shares them with the stored one. The
  schema of a model is what gorm parses from it, the translator and the getters of enumerations are functions, and \<open>title\<close> is the casing of the text package.
\<close>

subsection \<open>Tables and columns\<close>

record EnumEntry =
  Enum_Value :: string
  Enum_Display :: string

definition EnumMap :: "(string, string) gomap \<Rightarrow> EnumEntry list" where
  "EnumMap enumMap = map (\<lambda>(v, d). \<lparr>Enum_Value = v, Enum_Display = d\<rparr>) enumMap"

definition EnumList :: "string list \<Rightarrow> EnumEntry list" where
  "EnumList enumList = map (\<lambda>v. \<lparr>Enum_Value = v, Enum_Display = v\<rparr>) enumList"

record 'c DynamicTableField =
  Field :: string
  Field_Type :: string
  Field_Index :: bool
  Display :: string
  Enum :: "EnumEntry list"
  Visible :: bool
  Money :: bool
  EnumGetter :: "('c \<Rightarrow> string + EnumEntry list) option"

record DynamicTable =
  Columns :: "nat list"
  DefaultSortColumn :: string
  DefaultSortDirection :: string

record Table = DynamicTable +
  Schema_Table :: string

record table_schema_field = schema_field +
  display_tag :: string
  money_tag :: string
  FieldTypeName :: string
  DataTypeText :: string

record 'c DynamicTableConfig =
  OperationPath :: string
  Model :: "string + (string \<times> table_schema_field list)"
  Displays :: "(string, string) gomap"
  ColumnsOrder :: "string list"
  DefaultSortField :: string
  ConfigSortDirection :: string
  EnumGetters :: "(string, 'c \<Rightarrow> string + EnumEntry list) gomap"
  Enums :: "(string, EnumEntry list) gomap"
  VisibleColumns :: "string list"

record 'c DynamicTablesGorm =
  columns :: "'c DynamicTableField list"
  tables :: "(string, Table) gomap"
  translator :: "('c DynamicTableField \<Rightarrow> string \<Rightarrow> 'c DynamicTableField) option"

definition New :: "('c DynamicTableField \<Rightarrow> string \<Rightarrow> 'c DynamicTableField) list \<Rightarrow> 'c DynamicTablesGorm" where
  "New tr = \<lparr>columns = [], tables = [], translator = (case tr of [] \<Rightarrow> None | t # _ \<Rightarrow> Some t)\<rparr>"

definition SetTranslator :: "('c DynamicTableField \<Rightarrow> string \<Rightarrow> 'c DynamicTableField) option \<Rightarrow> 'c DynamicTablesGorm \<Rightarrow> 'c DynamicTablesGorm" where
  "SetTranslator t d = d\<lparr>translator := t\<rparr>"

definition FindTable :: "string \<Rightarrow> 'c DynamicTablesGorm \<Rightarrow> Table option" where
  "FindTable path d = map_of (tables d) path"

subsection \<open>The table of a request\<close>

definition process_field :: "'c \<Rightarrow> ('c DynamicTableField \<Rightarrow> string \<Rightarrow> 'c DynamicTableField) option \<Rightarrow> string \<Rightarrow> 'c DynamicTableField \<Rightarrow> 'c DynamicTableField" where
  "process_field c tr table f =
     (let f1 = (case tr of None \<Rightarrow> f | Some t \<Rightarrow> t f table)
      in if Enum f1 = [] then
           (case EnumGetter f1 of
              None \<Rightarrow> f1
            | Some g \<Rightarrow> (case g c of Inl e \<Rightarrow> f1 | Inr enum \<Rightarrow> f1\<lparr>Enum := enum\<rparr>))
         else f1)"

definition update_column :: "('c DynamicTableField \<Rightarrow> 'c DynamicTableField) \<Rightarrow> nat \<Rightarrow> 'c DynamicTableField list \<Rightarrow> 'c DynamicTableField list" where
  "update_column f a cs = cs[a := f (cs ! a)]"

definition Table_for :: "'c \<Rightarrow> string \<Rightarrow> 'c DynamicTablesGorm \<Rightarrow> (string + DynamicTable) \<times> 'c DynamicTablesGorm" where
  "Table_for c path d =
     (case FindTable path d of
        None \<Rightarrow> (Inl ''unknown table'', d)
      | Some t \<Rightarrow> (Inr (DynamicTable.truncate t), d\<lparr>columns := fold (update_column (process_field c (translator d) (Schema_Table t))) (Columns t) (columns d)\<rparr>))"

subsection \<open>Adding a table\<close>

function replace_all :: "string \<Rightarrow> string \<Rightarrow> string \<Rightarrow> string" where
  "replace_all old new [] = []"
| "replace_all old new (c # cs) =
     (if old \<noteq> [] \<and> prefix old (c # cs) then new @ replace_all old new (drop (length old) (c # cs)) else c # replace_all old new cs)"
  by pat_completeness auto
termination
  by (relation "measure (\<lambda>(old, new, s). length s)") (auto simp: prefix_def)

definition FieldDisplay :: "(string \<Rightarrow> string) \<Rightarrow> table_schema_field \<Rightarrow> string \<Rightarrow> (string, string) gomap \<Rightarrow> string" where
  "FieldDisplay title field name explicits =
     (case if display_tag field = '''' then map_of explicits name else None of
        Some d \<Rightarrow> d
      | None \<Rightarrow>
          (let display = (if display_tag field = '''' then replace_all ''_'' '' '' (title name) else display_tag field)
           in case map_of explicits display of Some override \<Rightarrow> override | None \<Rightarrow> display))"

definition field_name :: "table_schema_field \<Rightarrow> string" where
  "field_name field = replace_all '',omitempty'' '''' (if json_tag field = '''' then DBName field else json_tag field)"

definition table_field :: "(string \<Rightarrow> string) \<Rightarrow> 'c DynamicTableConfig \<Rightarrow> table_schema_field \<Rightarrow> 'c DynamicTableField" where
  "table_field title table field =
     (let n = field_name field
      in \<lparr>Field = n,
          Field_Type = (if FieldTypeName field = ''utils.Date'' then ''date'' else if FieldTypeName field = ''utils.Month'' then ''month'' else DataTypeText field),
          Field_Index = IsIndexField (schema_field.truncate field),
          Display = FieldDisplay title field n (Displays table),
          Enum = (case map_of (Enums table) n of None \<Rightarrow> [] | Some e \<Rightarrow> e),
          Visible = (VisibleColumns table = [] \<or> n \<in> set (VisibleColumns table)),
          Money = (money_tag field \<noteq> ''''),
          EnumGetter = map_of (EnumGetters table) n\<rparr>)"

text \<open>The columns by name with the default order. A later field with the same name replaces the earlier one.\<close>

definition add_field ::
    "(string \<Rightarrow> string) \<Rightarrow> 'c DynamicTableConfig \<Rightarrow> table_schema_field \<Rightarrow> (string, nat) gomap \<times> string list \<times> 'c DynamicTableField list \<Rightarrow>
     (string, nat) gomap \<times> string list \<times> 'c DynamicTableField list" where
  "add_field title table field = (\<lambda>(by_name, order, cs).
     (let f = table_field title table field in (AList.update (Field f) (length cs) by_name, order @ [Field f], cs @ [f])))"

fun take_ordered :: "string list \<Rightarrow> (string, nat) gomap \<Rightarrow> string + (nat list \<times> (string, nat) gomap)" where
  "take_ordered [] by_name = Inr ([], by_name)"
| "take_ordered (n # ns) by_name =
     (case map_of by_name n of
        None \<Rightarrow> Inl (''unknown field '' @ n @ '' in column order'')
      | Some a \<Rightarrow>
          (case take_ordered ns (AList.delete n by_name) of
             Inl e \<Rightarrow> Inl e
           | Inr (cols, rest) \<Rightarrow> Inr (a # cols, rest)))"

fun take_rest :: "string list \<Rightarrow> (string, nat) gomap \<Rightarrow> nat list" where
  "take_rest [] by_name = []"
| "take_rest (n # ns) by_name =
     (case map_of by_name n of
        None \<Rightarrow> take_rest ns by_name
      | Some a \<Rightarrow> a # take_rest ns (AList.delete n by_name))"

definition AddTable :: "(string \<Rightarrow> string) \<Rightarrow> 'c DynamicTableConfig \<Rightarrow> 'c DynamicTablesGorm \<Rightarrow> string option \<times> 'c DynamicTablesGorm" where
  "AddTable title table d =
     (case Model table of
        Inl e \<Rightarrow> (Some (''invalid model: '' @ e), d)
      | Inr (name, model) \<Rightarrow>
          (case fold (add_field title table) model ([], [], columns d) of (by_name, defaultOrder, cs) \<Rightarrow>
             (case take_ordered (ColumnsOrder table) by_name of
                Inl e \<Rightarrow> (Some e, d)
              | Inr (cols, rest) \<Rightarrow>
                  (None, d\<lparr>columns := cs,
                     tables := AList.update (OperationPath table)
                       \<lparr>Columns = cols @ take_rest defaultOrder rest,
                        DefaultSortColumn = (if DefaultSortField table = '''' then ''created_at'' else DefaultSortField table),
                        DefaultSortDirection = (if ConfigSortDirection table = '''' then SORT_DESC else ConfigSortDirection table),
                        Schema_Table = name\<rparr> (tables d)\<rparr>))))"

subsection \<open>The columns of a table\<close>

text \<open>The names in the order of their first occurrence.\<close>

fun distinct_names :: "string list \<Rightarrow> string list" where
  "distinct_names [] = []"
| "distinct_names (n # ns) = n # filter (\<lambda>m. m \<noteq> n) (distinct_names ns)"

lemma set_distinct_names [simp]: "set (distinct_names ns) = set ns"
  by (induction ns) auto

lemma distinct_distinct_names [simp]: "distinct (distinct_names ns)"
  by (induction ns) auto

text \<open>The address of the last field with a name, above the columns that were there.\<close>

definition last_field :: "nat \<Rightarrow> table_schema_field list \<Rightarrow> string \<Rightarrow> nat option" where
  "last_field k model = fold (\<lambda>(i, f) m. m(field_name f \<mapsto> i)) (enumerate k model) Map.empty"

lemma Field_table_field [simp]: "Field (table_field title table f) = field_name f"
  by (simp add: table_field_def Let_def)

lemma add_field_step:
  "add_field title table f (by_name, order, cs) = (AList.update (field_name f) (length cs) by_name, order @ [field_name f], cs @ [table_field title table f])"
  by (simp add: add_field_def Let_def)

lemma fold_add_field:
  "fold (add_field title table) model (by_name, order, cs) = (by_name', order', cs') \<Longrightarrow>
   order' = order @ map field_name model \<and> cs' = cs @ map (table_field title table) model \<and>
   map_of by_name' = fold (\<lambda>(i, f) m. m(field_name f \<mapsto> i)) (enumerate (length cs) model) (map_of by_name)"
proof (induction model arbitrary: by_name order cs)
  case (Cons f model)
  then have "fold (add_field title table) model (AList.update (field_name f) (length cs) by_name, order @ [field_name f], cs @ [table_field title table f]) = (by_name', order', cs')"
    by (simp add: add_field_step)
  from Cons.IH [OF this] show ?case by (simp add: gomap)
qed simp

lemma fold_updates_dom: "dom (fold (\<lambda>(i, f) m. m(field_name f \<mapsto> i)) (enumerate k model) m) = dom m \<union> field_name ` set model"
  by (induction model arbitrary: k m) auto

lemma fold_updates_at:
  "fold (\<lambda>(i, f) m. m(field_name f \<mapsto> i)) (enumerate k model) m n = Some a \<Longrightarrow>
   m n = Some a \<or> k \<le> a \<and> a < k + length model \<and> field_name (model ! (a - k)) = n"
proof (induction model arbitrary: k m)
  case (Cons f fs)
  have "(m(field_name f \<mapsto> k)) n = Some a \<or> Suc k \<le> a \<and> a < Suc k + length fs \<and> field_name (fs ! (a - Suc k)) = n"
    using Cons.IH [of "Suc k" "m(field_name f \<mapsto> k)"] Cons.prems unfolding enumerate_simps fold_simps prod.case by blast
  then show ?case
  proof
    assume "Suc k \<le> a \<and> a < Suc k + length fs \<and> field_name (fs ! (a - Suc k)) = n"
    moreover from this have "a - k = Suc (a - Suc k)" by arith
    ultimately show ?thesis by auto
  qed (auto split: if_splits)
qed simp

lemma last_field_dom: "dom (last_field k model) = field_name ` set model"
  by (simp add: last_field_def fold_updates_dom)

lemma last_field_at: "last_field k model n = Some a \<Longrightarrow> k \<le> a \<and> a < k + length model \<and> field_name (model ! (a - k)) = n"
  using fold_updates_at [of k model Map.empty n a] by (simp add: last_field_def)

lemma take_ordered_ok:
  "take_ordered ns by_name = Inr (cols, rest) \<Longrightarrow>
   distinct ns \<and> map Some cols = map (map_of by_name) ns \<and> map_of rest = map_of by_name |` (- set ns)"
proof (induction ns arbitrary: by_name cols rest)
  case (Cons n ns)
  then obtain a cols' where a: "map_of by_name n = Some a" "take_ordered ns (AList.delete n by_name) = Inr (cols', rest)" "cols = a # cols'"
    by (auto split: option.splits sum.splits)
  have ih: "distinct ns" "map Some cols' = map ((map_of by_name)(n := None)) ns" "map_of rest = (map_of by_name)(n := None) |` (- set ns)"
    using Cons.IH [OF a(2)] unfolding map_of_delete by blast+
  have n: "n \<notin> set ns"
  proof
    assume "n \<in> set ns"
    then have "((map_of by_name)(n := None)) n \<in> Some ` set cols'" using ih(2) by (metis image_eqI list.set_map)
    then show False by auto
  qed
  then have "map ((map_of by_name)(n := None)) ns = map (map_of by_name) ns" by simp
  moreover have "map_of rest = map_of by_name |` (- set (n # ns))" using ih(3) by (auto simp: restrict_map_def fun_eq_iff)
  ultimately show ?case using a ih n by simp
qed auto

lemma map_Some_mem: assumes "map Some xs = map f ns" "a \<in> set xs" shows "\<exists>n\<in>set ns. f n = Some a"
proof -
  have "Some a \<in> set (map f ns)" using assms by (simp flip: assms(1))
  then show ?thesis by auto
qed

lemma map_Some_dom: assumes "map Some xs = map f ns" shows "set ns \<subseteq> dom f"
proof
  fix n assume "n \<in> set ns"
  then have "f n \<in> set (map f ns)" by simp
  then have "f n \<in> set (map Some xs)" using assms by simp
  then show "n \<in> dom f" by auto
qed

lemma take_ordered_dom: "take_ordered ns by_name = Inr x \<Longrightarrow> distinct ns \<and> set ns \<subseteq> dom (map_of by_name)"
  by (cases x) (use take_ordered_ok map_Some_dom in blast)

lemma take_ordered_total:
  assumes "distinct ns" "set ns \<subseteq> dom (map_of by_name)" shows "\<exists>x. take_ordered ns by_name = Inr x"
  using assms
proof (induction ns arbitrary: by_name)
  case (Cons n ns)
  then obtain a where a: "map_of by_name n = Some a" by auto
  have "set ns \<subseteq> dom (map_of (AList.delete n by_name))" using Cons.prems by (auto simp: gomap)
  then obtain y where y: "take_ordered ns (AList.delete n by_name) = Inr y" using Cons by fastforce
  obtain cols rest where "y = (cols, rest)" by (cases y)
  then show ?case using a y by simp
qed simp

lemma take_rest_ok: "map Some (take_rest ns by_name) = map (map_of by_name) (filter (\<lambda>n. map_of by_name n \<noteq> None) (distinct_names ns))"
proof (induction ns by_name rule: take_rest.induct)
  case (2 n ns by_name)
  show ?case
  proof (cases "map_of by_name n")
    case None
    then have "filter (\<lambda>m. map_of by_name m \<noteq> None) (filter (\<lambda>m. m \<noteq> n) (distinct_names ns)) = filter (\<lambda>m. map_of by_name m \<noteq> None) (distinct_names ns)"
      unfolding filter_filter by (intro filter_cong) auto
    then show ?thesis using None 2(1) by simp
  next
    case (Some a)
    have f: "filter (\<lambda>m. map_of by_name m \<noteq> None) (filter (\<lambda>m. m \<noteq> n) (distinct_names ns)) = filter (\<lambda>m. map_of (AList.delete n by_name) m \<noteq> None) (distinct_names ns)"
      unfolding filter_filter by (intro filter_cong) (auto simp: gomap)
    have "map (map_of (AList.delete n by_name)) (filter (\<lambda>m. map_of (AList.delete n by_name) m \<noteq> None) (distinct_names ns)) =
       map (map_of by_name) (filter (\<lambda>m. map_of (AList.delete n by_name) m \<noteq> None) (distinct_names ns))"
      by (auto simp: gomap)
    then show ?thesis using Some 2(2) [OF Some] f by simp
  qed
qed simp

lemma map_Some_eq: "map Some xs = map f ns \<Longrightarrow> (\<And>n a. n \<in> set ns \<Longrightarrow> f n = Some a \<Longrightarrow> g a = n) \<Longrightarrow> map g xs = ns"
  by (induction ns arbitrary: xs) (auto simp: Cons_eq_map_conv)

lemma AddTable_parts:
  assumes "Model table = Inr (name, model)"
  obtains by_name where "map_of by_name = last_field (length (columns d)) model"
    "AddTable title table d =
      (case take_ordered (ColumnsOrder table) by_name of
         Inl e \<Rightarrow> (Some e, d)
       | Inr (cols, rest) \<Rightarrow>
           (None, d\<lparr>columns := columns d @ map (table_field title table) model,
              tables := AList.update (OperationPath table)
                \<lparr>Columns = cols @ take_rest (map field_name model) rest,
                 DefaultSortColumn = (if DefaultSortField table = '''' then ''created_at'' else DefaultSortField table),
                 DefaultSortDirection = (if ConfigSortDirection table = '''' then SORT_DESC else ConfigSortDirection table),
                 Schema_Table = name\<rparr> (tables d)\<rparr>))"
proof -
  obtain by_name order cs where f: "fold (add_field title table) model ([], [], columns d) = (by_name, order, cs)" by (metis prod_cases3)
  show thesis
    by (rule that [of by_name]) (use fold_add_field [OF f] f assms in \<open>simp_all add: AddTable_def last_field_def\<close>)
qed

lemma added_columns:
  "(case AddTable title table d of (err, d') \<Rightarrow>
     (case Model table of
        Inl e \<Rightarrow> err \<noteq> None \<and> d' = d
      | Inr (name, model) \<Rightarrow>
          if distinct (ColumnsOrder table) \<and> set (ColumnsOrder table) \<subseteq> field_name ` set model then
            err = None \<and> take (length (columns d)) (columns d') = columns d \<and>
            (\<exists>t. FindTable (OperationPath table) d' = Some t \<and>
               map (\<lambda>a. Field (columns d' ! a)) (Columns t) =
                 ColumnsOrder table @ filter (\<lambda>n. n \<notin> set (ColumnsOrder table)) (distinct_names (map field_name model)) \<and>
               (\<forall>a\<in>set (Columns t). length (columns d) \<le> a \<and> a < length (columns d') \<and> columns d' ! a \<in> table_field title table ` set model))
          else err \<noteq> None \<and> d' = d))"
proof (cases "Model table")
  case (Inl e)
  then show ?thesis by (simp add: AddTable_def)
next
  case (Inr nm)
  obtain name model where nm: "nm = (name, model)" by (cases nm)
  let ?l = "last_field (length (columns d)) model" and ?cs = "columns d @ map (table_field title table) model" and ?o = "ColumnsOrder table"
  obtain by_name where b: "map_of by_name = ?l" and A: "AddTable title table d =
      (case take_ordered ?o by_name of
         Inl e \<Rightarrow> (Some e, d)
       | Inr (cols, rest) \<Rightarrow>
           (None, d\<lparr>columns := ?cs,
              tables := AList.update (OperationPath table)
                \<lparr>Columns = cols @ take_rest (map field_name model) rest,
                 DefaultSortColumn = (if DefaultSortField table = '''' then ''created_at'' else DefaultSortField table),
                 DefaultSortDirection = (if ConfigSortDirection table = '''' then SORT_DESC else ConfigSortDirection table),
                 Schema_Table = name\<rparr> (tables d)\<rparr>))"
    using AddTable_parts [of table name model d title] Inr nm by metis
  have at: "Field (?cs ! a) = n" "length (columns d) \<le> a" "a < length ?cs" "?cs ! a \<in> table_field title table ` set model" if "?l n = Some a" for n a
    using last_field_at [OF that] by (auto simp: nth_append)
  show ?thesis
  proof (cases "distinct ?o \<and> set ?o \<subseteq> field_name ` set model")
    case True
    then obtain cols rest where t: "take_ordered ?o by_name = Inr (cols, rest)" using take_ordered_total [of ?o by_name] by (auto simp: b last_field_dom)
    let ?r = "filter (\<lambda>n. n \<notin> set ?o) (distinct_names (map field_name model))"
    have c: "map Some cols = map ?l ?o" and r: "map_of rest = ?l |` (- set ?o)" using take_ordered_ok [OF t] by (simp_all add: b)
    have "filter (\<lambda>n. map_of rest n \<noteq> None) (distinct_names (map field_name model)) = ?r"
      using last_field_dom [of "length (columns d)" model] by (intro filter_cong) (auto simp: r restrict_map_def)
    then have "map Some (take_rest (map field_name model) rest) = map ?l ?r" using take_rest_ok [of "map field_name model" rest] by (simp add: r)
    then have m: "map Some (cols @ take_rest (map field_name model) rest) = map ?l (?o @ ?r)" using c by simp
    have "map (\<lambda>a. Field (?cs ! a)) (cols @ take_rest (map field_name model) rest) = ?o @ ?r" by (rule map_Some_eq [OF m]) (rule at)
    moreover have "length (columns d) \<le> a \<and> a < length ?cs \<and> ?cs ! a \<in> table_field title table ` set model" if "a \<in> set (cols @ take_rest (map field_name model) rest)" for a
      using map_Some_mem [OF m that] at by blast
    ultimately show ?thesis using True by (simp add: A t Inr nm FindTable_def gomap)
  next
    case False
    then have "\<not> (distinct ?o \<and> set ?o \<subseteq> dom (map_of by_name))" by (simp add: b last_field_dom)
    then obtain e where "take_ordered ?o by_name = Inl e" using take_ordered_dom [of ?o by_name] by (cases "take_ordered ?o by_name") auto
    then show ?thesis using False by (auto simp: A Inr nm)
  qed
qed

subsection \<open>Sequences of calls\<close>

text \<open>The columns of a table are stored, and those of different tables are not shared.\<close>

definition tables_apart :: "'c DynamicTablesGorm \<Rightarrow> bool" where
  "tables_apart d \<longleftrightarrow>
     (\<forall>p t. FindTable p d = Some t \<longrightarrow> (\<forall>a\<in>set (Columns t). a < length (columns d))) \<and>
     (\<forall>p q t u. FindTable p d = Some t \<longrightarrow> FindTable q d = Some u \<longrightarrow> p \<noteq> q \<longrightarrow> set (Columns t) \<inter> set (Columns u) = {})"

datatype 'c table_call =
    AddTableCall "'c DynamicTableConfig"
  | TableCall 'c string
  | SetTranslatorCall "('c DynamicTableField \<Rightarrow> string \<Rightarrow> 'c DynamicTableField) option"

definition table_call :: "(string \<Rightarrow> string) \<Rightarrow> 'c table_call \<Rightarrow> 'c DynamicTablesGorm \<Rightarrow> 'c DynamicTablesGorm" where
  "table_call title call d =
     (case call of
        AddTableCall table \<Rightarrow> snd (AddTable title table d)
      | TableCall c path \<Rightarrow> snd (Table_for c path d)
      | SetTranslatorCall t \<Rightarrow> SetTranslator t d)"

lemma update_column_nth [simp]:
  "length (update_column f a cs) = length cs" "a < length cs \<Longrightarrow> update_column f a cs ! a = f (cs ! a)" "a \<noteq> b \<Longrightarrow> update_column f a cs ! b = cs ! b"
  by (simp_all add: update_column_def)

lemma fold_update_length [simp]: "length (fold (update_column f) as cs) = length cs"
  by (induction as arbitrary: cs) simp_all

lemma fold_update_other: "a \<notin> set as \<Longrightarrow> fold (update_column f) as cs ! a = cs ! a"
  by (induction as arbitrary: cs) auto

lemma fold_update_once: "distinct as \<Longrightarrow> a \<in> set as \<Longrightarrow> a < length cs \<Longrightarrow> fold (update_column f) as cs ! a = f (cs ! a)"
proof (induction as arbitrary: cs)
  case (Cons x xs)
  then show ?case by (cases "a = x") (auto simp: fold_update_other)
qed simp

lemma AddTable_cases:
  "snd (AddTable title table d) = d \<or>
   (\<exists>t. snd (AddTable title table d) = d\<lparr>columns := columns (snd (AddTable title table d)), tables := AList.update (OperationPath table) t (tables d)\<rparr> \<and>
      length (columns d) \<le> length (columns (snd (AddTable title table d))) \<and> take (length (columns d)) (columns (snd (AddTable title table d))) = columns d \<and>
      (\<forall>a\<in>set (Columns t). length (columns d) \<le> a \<and> a < length (columns (snd (AddTable title table d)))))"
proof (cases "snd (AddTable title table d) = d")
  case False
  obtain err d' where a: "AddTable title table d = (err, d')" by (cases "AddTable title table d")
  obtain name model where m: "Model table = Inr (name, model)" using False by (cases "Model table") (auto simp: AddTable_def)
  have "take (length (columns d)) (columns d') = columns d \<and> (\<exists>t. FindTable (OperationPath table) d' = Some t \<and> (\<forall>a\<in>set (Columns t). length (columns d) \<le> a \<and> a < length (columns d')))"
    using added_columns [where title = title and table = table and d = d] False a m by (auto split: if_splits)
  then obtain t where t: "take (length (columns d)) (columns d') = columns d" "FindTable (OperationPath table) d' = Some t"
    "\<forall>a\<in>set (Columns t). length (columns d) \<le> a \<and> a < length (columns d')" by auto
  have "\<exists>u. d' = d\<lparr>columns := columns d', tables := AList.update (OperationPath table) u (tables d)\<rparr>"
    using a False by (auto simp: AddTable_def m split: sum.splits prod.splits)
  then obtain u where u: "d' = d\<lparr>columns := columns d', tables := AList.update (OperationPath table) u (tables d)\<rparr>" by auto
  then have "FindTable (OperationPath table) d' = Some u" by (metis DynamicTablesGorm.select_convs(2) DynamicTablesGorm.surjective DynamicTablesGorm.update_convs(2) FindTable_def fun_upd_same map_of_update)
  then have "u = t" using t(2) by simp
  moreover have "length (columns d) \<le> length (columns d')" using t(1) by (metis length_take min.cobounded2 min.commute)
  ultimately show ?thesis using t u a by auto
qed simp

lemma tables_apart_AddTable:
  assumes "tables_apart d" shows "tables_apart (snd (AddTable title table d))"
  using AddTable_cases [of title table d]
proof
  assume "snd (AddTable title table d) = d"
  then show ?thesis using assms by simp
next
  let ?d = "snd (AddTable title table d)"
  assume "\<exists>t. ?d = d\<lparr>columns := columns ?d, tables := AList.update (OperationPath table) t (tables d)\<rparr> \<and>
      length (columns d) \<le> length (columns ?d) \<and> take (length (columns d)) (columns ?d) = columns d \<and>
      (\<forall>a\<in>set (Columns t). length (columns d) \<le> a \<and> a < length (columns ?d))"
  then obtain t where t: "?d = d\<lparr>columns := columns ?d, tables := AList.update (OperationPath table) t (tables d)\<rparr>" "length (columns d) \<le> length (columns ?d)"
    "\<forall>a\<in>set (Columns t). length (columns d) \<le> a \<and> a < length (columns ?d)" by auto
  have f: "FindTable p ?d = (if p = OperationPath table then Some t else FindTable p d)" for p
    by (subst t(1)) (simp add: FindTable_def gomap)
  have old: "a < length (columns d)" if "FindTable p d = Some u" "a \<in> set (Columns u)" for p u a
    using assms that unfolding tables_apart_def by blast
  have "\<forall>a\<in>set (Columns u). a < length (columns ?d)" if "FindTable p ?d = Some u" for p u
    using that t(2,3) old by (fastforce simp: f split: if_splits)
  moreover have "set (Columns u) \<inter> set (Columns v) = {}" if "FindTable p ?d = Some u" "FindTable q ?d = Some v" "p \<noteq> q" for p q u v
  proof -
    have "set (Columns t) \<inter> set (Columns w) = {}" if "FindTable r d = Some w" for r w using t(3) old [OF that] by fastforce
    moreover have "set (Columns u) \<inter> set (Columns v) = {}" if "FindTable p d = Some u" "FindTable q d = Some v"
      using assms that \<open>p \<noteq> q\<close> unfolding tables_apart_def by blast
    ultimately show ?thesis using that by (auto simp: f split: if_splits)
  qed
  ultimately show ?thesis unfolding tables_apart_def by blast
qed

lemma tables_apart_same:
  "tables_apart d \<Longrightarrow> tables d' = tables d \<Longrightarrow> length (columns d') = length (columns d) \<Longrightarrow> tables_apart d'"
  by (simp add: tables_apart_def FindTable_def)

lemma tables_apart_call: "tables_apart d \<Longrightarrow> tables_apart (table_call title call d)"
  by (cases call) (auto simp: table_call_def Table_for_def SetTranslator_def tables_apart_AddTable intro: tables_apart_same split: option.split)

lemma tables_apart_run: "tables_apart d \<Longrightarrow> tables_apart (fold (table_call title) calls d)"
  by (induction calls arbitrary: d) (simp_all add: tables_apart_call)

lemma tables_apart_New: "tables_apart (New tr)"
  by (simp add: tables_apart_def FindTable_def New_def)

text \<open>Whatever calls were made since the tables were created, every column of a table is stored, and a request for one table leaves the columns of every other table as they are.\<close>

theorem tables_stay_apart:
  assumes "d = fold (table_call title) calls (New tr)" and "FindTable q d = Some u" and "p \<noteq> q"
  shows "(\<forall>a\<in>set (Columns u). a < length (columns d)) \<and> map ((!) (columns (snd (Table_for c p d)))) (Columns u) = map ((!) (columns d)) (Columns u)"
proof -
  have a: "tables_apart d" using tables_apart_run [OF tables_apart_New] by (simp add: assms(1))
  then have "set (Columns t) \<inter> set (Columns u) = {}" if "FindTable p d = Some t" for t using that assms(2,3) unfolding tables_apart_def by blast
  then have "map ((!) (columns (snd (Table_for c p d)))) (Columns u) = map ((!) (columns d)) (Columns u)"
    by (auto simp: Table_for_def intro!: fold_update_other split: option.split)
  then show ?thesis using a assms(2) unfolding tables_apart_def by blast
qed

text \<open>The copy of a table that a request gets shares its columns with the stored table: the values of an enumeration that the getter gave to the first request are those of every later request,
  whatever the getter gives to it.\<close>

lemma first_enum_is_kept:
  assumes "FindTable p d = Some t" "distinct (Columns t)" "a \<in> set (Columns t)" "a < length (columns d)" "translator d = None"
    and "Enum (columns d ! a) = []" "EnumGetter (columns d ! a) = Some g" "g c = Inr enum" "enum \<noteq> []"
  shows "Enum (columns (snd (Table_for c' p (snd (Table_for c p d)))) ! a) = enum"
  using assms by (simp add: Table_for_def FindTable_def fold_update_once process_field_def Let_def)

text \<open>For the same reason the text of a column is translated again by every request.\<close>

lemma display_is_translated_again:
  assumes "FindTable p d = Some t" "distinct (Columns t)" "a \<in> set (Columns t)" "a < length (columns d)" "translator d = Some tr"
    and "EnumGetter (columns d ! a) = None" "\<And>f n. EnumGetter (tr f n) = EnumGetter f"
  shows "columns (snd (Table_for c' p (snd (Table_for c p d)))) ! a = tr (tr (columns d ! a) (Schema_Table t)) (Schema_Table t)"
  using assms by (simp add: Table_for_def FindTable_def fold_update_once process_field_def Let_def)

subsection \<open>A model with three fields\<close>

definition sample_field :: "string \<Rightarrow> string \<Rightarrow> string \<Rightarrow> table_schema_field" where
  "sample_field n json t = \<lparr>IgnoreMigration = False, json_tag = json, source_tag = '''', DBName = n, PrimaryKey = (n = ''id''), index_setting = '''', unique_index_setting = '''',
     schema_DataType = TString, schema_validate = '''', OwnerSchema = None, display_tag = '''', money_tag = '''', FieldTypeName = t, DataTypeText = ''string''\<rparr>"

definition sample_config :: "string \<Rightarrow> bool DynamicTableConfig" where
  "sample_config path = \<lparr>OperationPath = path,
     Model = Inr (''items'', [sample_field ''id'' '''' ''string'', sample_field ''day'' ''due_day,omitempty'' ''utils.Date'', sample_field ''kind'' ''kind'' ''string'']),
     Displays = [(''kind'', ''Sort'')], ColumnsOrder = [''kind''], DefaultSortField = '''', ConfigSortDirection = '''',
     EnumGetters = [(''kind'', \<lambda>c. Inr (EnumList [if c then ''a'' else ''b'']))], Enums = [], VisibleColumns = []\<rparr>"

definition sample_tables :: "bool DynamicTablesGorm" where
  "sample_tables = fold (table_call id) [AddTableCall (sample_config ''/items''), AddTableCall (sample_config ''/others'')] (New [])"

text \<open>A table that was added is found under the path of its operation, its columns are those of the configured order and then the other fields of the model, each name once and in the order
  of the model; each column describes a field of the model, and the columns of other tables are as they were. It is refused, and nothing changes, exactly if the model
  is invalid or the configured order names a column twice or an unknown one.\<close>

theorem added_table_lists_fields:
  "(case AddTable title table d of (err, d') \<Rightarrow>
     (case Model table of
        Inl e \<Rightarrow> err \<noteq> None \<and> d' = d
      | Inr (name, model) \<Rightarrow>
          if distinct (ColumnsOrder table) \<and> set (ColumnsOrder table) \<subseteq> field_name ` set model then
            err = None \<and> take (length (columns d)) (columns d') = columns d \<and>
            (\<exists>t. FindTable (OperationPath table) d' = Some t \<and>
               map (\<lambda>a. Field (columns d' ! a)) (Columns t) =
                 ColumnsOrder table @ filter (\<lambda>n. n \<notin> set (ColumnsOrder table)) (distinct_names (map field_name model)) \<and>
               (\<forall>a\<in>set (Columns t). length (columns d) \<le> a \<and> a < length (columns d') \<and> columns d' ! a \<in> table_field title table ` set model))
          else err \<noteq> None \<and> d' = d))"
  by (rule added_columns)

theorem added_table_lists_fields_witness:
  "map_option (\<lambda>t. map (\<lambda>a. Field (columns sample_tables ! a)) (Columns t)) (FindTable ''/others'' sample_tables) = Some [''kind'', ''id'', ''due_day'']"
proof -
  let ?c = "sample_config ''/others''" and ?d = "snd (AddTable id (sample_config ''/items'') (New []))"
  have d: "sample_tables = snd (AddTable id ?c ?d)" by (simp add: sample_tables_def table_call_def)
  let ?m = "[sample_field ''id'' '''' ''string'', sample_field ''day'' ''due_day,omitempty'' ''utils.Date'', sample_field ''kind'' ''kind'' ''string'']"
  have n: "map field_name ?m = [''id'', ''due_day'', ''kind'']" by code_simp
  then obtain m where c: "Model ?c = Inr (''items'', m)" "map field_name m = [''id'', ''due_day'', ''kind'']" "ColumnsOrder ?c = [''kind'']" "OperationPath ?c = ''/others''"
    by (simp add: sample_config_def)
  then have f: "field_name ` set m = {''id'', ''due_day'', ''kind''}" by (metis list.set_map list.simps(15) empty_set)
  have o: "distinct (ColumnsOrder ?c) \<and> set (ColumnsOrder ?c) \<subseteq> field_name ` set m" by (simp add: c f)
  obtain err d' where e: "AddTable id ?c ?d = (err, d')" by (cases "AddTable id ?c ?d")
  obtain t where t: "FindTable (OperationPath ?c) d' = Some t"
    "map (\<lambda>a. Field (columns d' ! a)) (Columns t) = ColumnsOrder ?c @ filter (\<lambda>n. n \<notin> set (ColumnsOrder ?c)) (distinct_names (map field_name m))"
    using added_table_lists_fields [where title = id and table = ?c and d = ?d] unfolding e c(1) prod.case sum.case if_P [OF o] by blast
  have "map (\<lambda>a. Field (columns d' ! a)) (Columns t) = [''kind'', ''id'', ''due_day'']" unfolding t(2) c by simp
  then show ?thesis using d e t(1) by (simp add: c)
qed

theorem tables_stay_apart_witness:
  "\<exists>u. FindTable ''/others'' sample_tables = Some u \<and>
     map ((!) (columns (snd (Table_for True ''/items'' sample_tables)))) (Columns u) = map ((!) (columns sample_tables)) (Columns u)"
proof -
  have "FindTable ''/others'' sample_tables \<noteq> None" by code_simp
  then obtain u where "FindTable ''/others'' sample_tables = Some u" by auto
  then show ?thesis using tables_stay_apart [OF sample_tables_def, of "''/others''" u "''/items''" True] by simp
qed

end
