(* ===== verification/SignedUrls.thy ===== *)
theory SignedUrls
  imports Crypto Tenancies "HOL-Library.List_Lexorder" "HOL-Library.Char_ord"
begin

section \<open>Signed URLs of files\<close>

text \<open>
  Models \<^verbatim>\<open>pkg/filestorage/signed_url.go\<close>, \<^verbatim>\<open>upload_part_helper.go\<close>, \<^verbatim>\<open>url_manager.go\<close> and the values of \<^verbatim>\<open>filestorage.go\<close>: the URLs under which the parts of a file are uploaded and a file is
  fetched, signed for a method, a content length, a path and a lifetime. A URL is in its parsed form: scheme and host, path, and the text of the query, whose escaping is that of
  \<^verbatim>\<open>net/url\<close>. The keyed digest and its text coding are parameters. Times are in seconds.
\<close>

subsection \<open>Queries of URLs\<close>

definition newline :: string where "newline = [CHR 0x0A]"

fun strings_Join :: "string list \<Rightarrow> string \<Rightarrow> string" where
  "strings_Join [] sep = ''''"
| "strings_Join [x] sep = x"
| "strings_Join (x # y # xs) sep = x @ sep @ strings_Join (y # xs) sep"

definition unreserved :: "char \<Rightarrow> bool" where
  "unreserved c \<longleftrightarrow> (let n = of_char c :: nat in 48 \<le> n \<and> n \<le> 57 \<or> 65 \<le> n \<and> n \<le> 90 \<or> 97 \<le> n \<and> n \<le> 122) \<or> c \<in> set ''-_.~''"

definition hex_char :: "nat \<Rightarrow> char" where
  "hex_char d = (if d < 10 then char_of (48 + d) else char_of (55 + d))"

definition unhex :: "char \<Rightarrow> nat option" where
  "unhex c = (let n = of_char c :: nat in
     if 48 \<le> n \<and> n \<le> 57 then Some (n - 48) else if 97 \<le> n \<and> n \<le> 102 then Some (n - 87) else if 65 \<le> n \<and> n \<le> 70 then Some (n - 55) else None)"

definition escaped :: "char \<Rightarrow> string" where
  "escaped c = [CHR ''%'', hex_char (of_char c div 16), hex_char (of_char c mod 16)]"

definition QueryEscape :: "string \<Rightarrow> string" where
  "QueryEscape s = concat (map (\<lambda>c. if unreserved c then [c] else if c = CHR '' '' then ''+'' else escaped c) s)"

definition PathEscape :: "string \<Rightarrow> string" where
  "PathEscape s = concat (map (\<lambda>c. if unreserved c \<or> c \<in> set ''$&+,/:;=@'' then [c] else escaped c) s)"

fun unescape :: "bool \<Rightarrow> string \<Rightarrow> string option" where
  "unescape inQuery [] = Some []"
| "unescape inQuery (c # cs) =
     (if c = CHR ''%'' then
        (case cs of
           a # b # rest \<Rightarrow>
             (case unhex a of
                None \<Rightarrow> None
              | Some x \<Rightarrow> (case unhex b of None \<Rightarrow> None | Some y \<Rightarrow> map_option ((#) (char_of (16 * x + y))) (unescape inQuery rest)))
         | _ \<Rightarrow> None)
      else map_option ((#) (if inQuery \<and> c = CHR ''+'' then CHR '' '' else c)) (unescape inQuery cs))"

type_synonym url_Values = "(string, string list) gomap"

definition Values_Get :: "string \<Rightarrow> url_Values \<Rightarrow> string" where
  "Values_Get k v = (case map_of v k of Some (x # _) \<Rightarrow> x | _ \<Rightarrow> '''')"

definition Values_Set :: "string \<Rightarrow> string \<Rightarrow> url_Values \<Rightarrow> url_Values" where
  "Values_Set k x v = AList.update k [x] v"

definition Values_Add :: "string \<Rightarrow> string \<Rightarrow> url_Values \<Rightarrow> url_Values" where
  "Values_Add k x v = AList.update k ((case map_of v k of None \<Rightarrow> [] | Some xs \<Rightarrow> xs) @ [x]) v"

definition Encode :: "url_Values \<Rightarrow> string" where
  "Encode v = strings_Join (concat (map (\<lambda>(k, xs). map (\<lambda>x. QueryEscape k @ ''='' @ QueryEscape x) xs) (sort_key fst v))) ''&''"

text \<open>Pairs that are not well formed are skipped.\<close>

definition add_pair :: "string \<Rightarrow> url_Values \<Rightarrow> url_Values" where
  "add_pair s v =
     (if s = '''' \<or> CHR '';'' \<in> set s then v
      else case unescape True (takeWhile (\<lambda>c. c \<noteq> CHR ''='') s) of
             None \<Rightarrow> v
           | Some k \<Rightarrow>
               (case unescape True (tl (dropWhile (\<lambda>c. c \<noteq> CHR ''='') s)) of
                  None \<Rightarrow> v
                | Some x \<Rightarrow> Values_Add k x v))"

definition ParseQuery :: "string \<Rightarrow> url_Values" where
  "ParseQuery q = fold add_pair (Split q ''&'') []"

record URL =
  url_base :: string
  url_Path :: string
  RawQuery :: string

definition Query :: "URL \<Rightarrow> url_Values" where
  "Query u = ParseQuery (RawQuery u)"

text \<open>What \<open>strconv.ParseInt\<close> returns beside an error: zero, or the nearest value.\<close>

definition ParseInt_value :: "string \<Rightarrow> int" where
  "ParseInt_value s =
     (case ParseInt 64 s of
        Inr v \<Rightarrow> v
      | Inl e \<Rightarrow> if e = ''value out of range'' then (if hd s = CHR ''-'' then - (2 ^ 63) else 2 ^ 63 - 1) else 0)"

subsection \<open>Signing and checking\<close>

record SignUrlValues =
  SignMethod :: string
  SignContentLength :: string

definition Values :: "SignUrlValues \<Rightarrow> string list" where
  "Values s = (if SignContentLength s = '''' then [SignMethod s] else [SignMethod s, SignContentLength s])"

record SignedUrlConfig =
  SECRET :: string
  EXPIRATION :: "32 word"
  EXPIRY_PARAM :: string
  SIGNATURE_PARAM :: string

record SignedUrlHandlerBase = SignedUrlConfig +
  url_mac :: "bytes \<Rightarrow> bytes \<Rightarrow> bytes"
  url_encode :: "bytes \<Rightarrow> string"
  url_decode :: "string \<Rightarrow> string + bytes"

definition digest_of :: "SignedUrlHandlerBase \<Rightarrow> string list \<Rightarrow> string \<Rightarrow> string \<Rightarrow> Hmac" where
  "digest_of s parameters expiry path = Hmac_Calc [strings_Join parameters newline, newline, expiry, newline, path] (NewHmac (SECRET s))"

definition calcHmac :: "SignedUrlHandlerBase \<Rightarrow> URL \<Rightarrow> string list \<Rightarrow> string" where
  "calcHmac s u parameters = Hmac_SumStr (url_mac s) (url_encode s) (digest_of s parameters (Values_Get (EXPIRY_PARAM s) (Query u)) (url_Path u))"

definition checkHmac :: "SignedUrlHandlerBase \<Rightarrow> URL \<Rightarrow> string list \<Rightarrow> string \<Rightarrow> string \<Rightarrow> string option" where
  "checkHmac s u parameters expiry signature = Hmac_CheckStr (url_mac s) (url_decode s) (digest_of s parameters expiry (url_Path u)) signature"

definition SignUrl :: "SignedUrlHandlerBase \<Rightarrow> int \<Rightarrow> string + URL \<Rightarrow> string list \<Rightarrow> string + URL" where
  "SignUrl s now original parameters =
     (case original of
        Inl e \<Rightarrow> Inl e
      | Inr u \<Rightarrow>
          (let q = Query u;
               q1 = (if EXPIRATION s \<noteq> 0 then Values_Set (EXPIRY_PARAM s) (decimal_int (now + uint (EXPIRATION s))) q else q);
               u1 = u\<lparr>RawQuery := Encode q1\<rparr>;
               q2 = Values_Set (SIGNATURE_PARAM s) (calcHmac s u1 parameters) q1
           in Inr (u1\<lparr>RawQuery := Encode q2\<rparr>)))"

definition CheckUrl :: "SignedUrlHandlerBase \<Rightarrow> int \<Rightarrow> URL \<Rightarrow> string list \<Rightarrow> string option" where
  "CheckUrl s now u parameters =
     (let q = Query u; expiryStr = Values_Get (EXPIRY_PARAM s) q
      in if expiryStr \<noteq> '''' \<and> now > ParseInt_value expiryStr then Some ''expired''
         else checkHmac s u parameters expiryStr (Values_Get (SIGNATURE_PARAM s) q))"

definition CheckUrlString :: "SignedUrlHandlerBase \<Rightarrow> int \<Rightarrow> string + URL \<Rightarrow> string list \<Rightarrow> string option" where
  "CheckUrlString s now signedUrl parameters = (case signedUrl of Inl e \<Rightarrow> Some e | Inr u \<Rightarrow> CheckUrl s now u parameters)"

subsection \<open>Parts of a file\<close>

record FileInfo =
  File_ID :: string
  File_ContentType :: string
  File_Size :: int
  File_FileName :: string
  File_Topic :: string
  File_UploadPartSize :: int

definition FilePartLength :: "int \<Rightarrow> int \<Rightarrow> int list \<Rightarrow> int" where
  "FilePartLength totalSize maxPartSize partIndex =
     (case partIndex of
        [] \<Rightarrow> totalSize
      | index # _ \<Rightarrow>
          (let start = i64 (index * maxPartSize)
           in if start \<ge> totalSize then 0
              else (let remaining = i64 (totalSize - start) in if remaining > maxPartSize then maxPartSize else remaining)))"

definition max_part :: "int \<Rightarrow> FileInfo \<Rightarrow> int" where
  "max_part UPLOAD_PART_LENGTH info = (if File_UploadPartSize info = 0 then UPLOAD_PART_LENGTH else File_UploadPartSize info)"

definition UploadPartLength :: "int \<Rightarrow> FileInfo \<Rightarrow> int list \<Rightarrow> int" where
  "UploadPartLength w info partIndex =
     (if partIndex = [] then File_Size info else FilePartLength (File_Size info) (max_part w info) partIndex)"

definition PartCount :: "int \<Rightarrow> FileInfo \<Rightarrow> int" where
  "PartCount w info =
     (let maxPartSize = max_part w info
      in if File_Size info \<le> 0 \<or> maxPartSize \<le> 0 then 0 else go_quot (i64 (File_Size info + maxPartSize - 1)) maxPartSize)"

subsection \<open>The URL manager\<close>

record UrlManagerBase =
  BASE_UPLOAD_URL :: URL
  BASE_DOWNLOAD_URL :: URL
  UPLOAD_PATH_PREFIX :: string
  DOWNLOAD_PATH_PREFIX :: string
  UPLOAD_METHOD :: string
  DOWNLOAD_METHOD :: string
  ID_PARAMETER :: string
  PART_PARAMETER :: string
  TENANCY_PARAMETER :: string
  TOPIC_PARAMETER :: string
  SHADOW_TENANCY_PATH :: bool
  ENABLE_TOPIC :: bool
  USE_SYSTEM_CA :: bool
  SKIP_HOST_NAME_VERIFICATION :: bool
  helper_part_length :: int
  signedUrlHandler :: SignedUrlHandlerBase
  certificateChain :: string

record UploadUrlInfo =
  Urls :: "URL list"
  TotalUrlCount :: int
  UploadMethod :: string
  FromPartIndex :: int
  Upload_CertificateChain :: string
  MaxPartLength :: int
  Upload_UseSystemCa :: bool
  Upload_SkipHostNameVerification :: bool
  Upload_UrlExpiresAt :: int

record DownloadUrlInfo =
  Url :: URL
  Download_CertificateChain :: string
  Download_UseSystemCa :: bool
  Download_SkipHostNameVerification :: bool
  Download_UrlExpiresAt :: int

text \<open>The components of a rooted path after \<open>path.Clean\<close>.\<close>

definition clean_step :: "string \<Rightarrow> string list \<Rightarrow> string list" where
  "clean_step p acc = (if p = '''' \<or> p = ''.'' then acc else if p = ''..'' then butlast acc else acc @ [p])"

definition clean_parts :: "string list \<Rightarrow> string list" where
  "clean_parts elems = fold clean_step (concat (map (\<lambda>e. Split e ''/'') elems)) []"

definition JoinPath :: "URL \<Rightarrow> string list \<Rightarrow> URL" where
  "JoinPath u elems =
     (let parts = clean_parts (PathEscape (url_Path u) # elems);
          slash = (elems \<noteq> [] \<and> last elems \<noteq> '''' \<and> last (last elems) = CHR ''/'' \<and> parts \<noteq> []);
          p = ''/'' @ strings_Join parts ''/'' @ (if slash then ''/'' else '''')
      in case unescape False p of None \<Rightarrow> u | Some q \<Rightarrow> u\<lparr>url_Path := q\<rparr>)"

definition urlExpiresAt :: "UrlManagerBase \<Rightarrow> int \<Rightarrow> int" where
  "urlExpiresAt u now = (let expiration = EXPIRATION (signedUrlHandler u) in if expiration = 0 then 0 else now + uint expiration)"

definition TenancyPath :: "UrlManagerBase \<Rightarrow> TenancyBase option \<Rightarrow> string" where
  "TenancyPath u t = (case t of None \<Rightarrow> '''' | Some x \<Rightarrow> if SHADOW_TENANCY_PATH u then SHADOW_PATH x else PATH x)"

definition includeTopic :: "UrlManagerBase \<Rightarrow> FileInfo \<Rightarrow> bool" where
  "includeTopic u info \<longleftrightarrow> ENABLE_TOPIC u \<and> File_Topic info \<noteq> ''''"

definition upload_url :: "UrlManagerBase \<Rightarrow> string \<Rightarrow> FileInfo \<Rightarrow> int \<Rightarrow> URL" where
  "upload_url u tenancyPath info i =
     (if tenancyPath = '''' then
        (if \<not> includeTopic u info
         then JoinPath (BASE_UPLOAD_URL u) [UPLOAD_PATH_PREFIX u, ID_PARAMETER u, File_ID info, PART_PARAMETER u, decimal_int i]
         else JoinPath (BASE_UPLOAD_URL u) [UPLOAD_PATH_PREFIX u, TOPIC_PARAMETER u, File_Topic info, ID_PARAMETER u, File_ID info, PART_PARAMETER u, decimal_int i])
      else
        (if \<not> includeTopic u info
         then JoinPath (BASE_UPLOAD_URL u) [TENANCY_PARAMETER u, tenancyPath, UPLOAD_PATH_PREFIX u, ID_PARAMETER u, File_ID info, PART_PARAMETER u, decimal_int i]
         else JoinPath (BASE_UPLOAD_URL u) [TENANCY_PARAMETER u, tenancyPath, UPLOAD_PATH_PREFIX u, TOPIC_PARAMETER u, File_Topic info, ID_PARAMETER u, File_ID info, PART_PARAMETER u,
           decimal_int i]))"

definition download_url :: "UrlManagerBase \<Rightarrow> string \<Rightarrow> FileInfo \<Rightarrow> URL" where
  "download_url u tenancyPath info =
     (if tenancyPath = '''' then
        (if \<not> includeTopic u info then JoinPath (BASE_DOWNLOAD_URL u) [DOWNLOAD_PATH_PREFIX u, ID_PARAMETER u, File_ID info]
         else JoinPath (BASE_DOWNLOAD_URL u) [DOWNLOAD_PATH_PREFIX u, TOPIC_PARAMETER u, File_Topic info, ID_PARAMETER u, File_ID info])
      else
        (if \<not> includeTopic u info then JoinPath (BASE_DOWNLOAD_URL u) [TENANCY_PARAMETER u, tenancyPath, DOWNLOAD_PATH_PREFIX u, ID_PARAMETER u, File_ID info]
         else JoinPath (BASE_DOWNLOAD_URL u) [TENANCY_PARAMETER u, tenancyPath, DOWNLOAD_PATH_PREFIX u, TOPIC_PARAMETER u, File_Topic info, ID_PARAMETER u, File_ID info]))"

definition upload_values :: "UrlManagerBase \<Rightarrow> FileInfo \<Rightarrow> int \<Rightarrow> string list" where
  "upload_values u info i = Values \<lparr>SignMethod = UPLOAD_METHOD u, SignContentLength = decimal_int (UploadPartLength (helper_part_length u) info [i])\<rparr>"

fun sign_parts :: "UrlManagerBase \<Rightarrow> (int \<Rightarrow> int) \<Rightarrow> string \<Rightarrow> FileInfo \<Rightarrow> int list \<Rightarrow> string + URL list" where
  "sign_parts u clock tenancyPath info [] = Inr []"
| "sign_parts u clock tenancyPath info (i # is) =
     (case SignUrl (signedUrlHandler u) (clock i) (Inr (upload_url u tenancyPath info i)) (upload_values u info i) of
        Inl e \<Rightarrow> Inl e
      | Inr x \<Rightarrow> map_sum id ((#) x) (sign_parts u clock tenancyPath info is))"

text \<open>\<open>now\<close> is the clock when the expiry is computed, \<open>clock i\<close> when the URL of the part \<open>i\<close> is signed. The options are the first part and the greatest count.\<close>

definition GetUploadUrls :: "UrlManagerBase \<Rightarrow> int \<Rightarrow> (int \<Rightarrow> int) \<Rightarrow> TenancyBase option \<Rightarrow> FileInfo \<Rightarrow> (int \<times> int) list \<Rightarrow> string + UploadUrlInfo" where
  "GetUploadUrls u now clock t info opts =
     (let (fromPartIndex, maxCount) = OptionalArg (0, 0) opts;
          count = PartCount (helper_part_length u) info;
          toPartIndex = (if maxCount \<noteq> 0 then min (i64 (fromPartIndex + maxCount)) count else count)
      in map_sum id (\<lambda>us. \<lparr>Urls = us, TotalUrlCount = count, UploadMethod = UPLOAD_METHOD u, FromPartIndex = fromPartIndex, Upload_CertificateChain = certificateChain u,
             MaxPartLength = UploadPartLength (helper_part_length u) info [0], Upload_UseSystemCa = USE_SYSTEM_CA u,
             Upload_SkipHostNameVerification = SKIP_HOST_NAME_VERIFICATION u, Upload_UrlExpiresAt = urlExpiresAt u now\<rparr>)
           (sign_parts u clock (TenancyPath u t) info [fromPartIndex..toPartIndex - 1]))"

definition GetDownloadUrl :: "UrlManagerBase \<Rightarrow> int \<Rightarrow> int \<Rightarrow> TenancyBase option \<Rightarrow> FileInfo \<Rightarrow> string + DownloadUrlInfo" where
  "GetDownloadUrl u now clock t info =
     map_sum id (\<lambda>x. \<lparr>Url = x, Download_CertificateChain = certificateChain u, Download_UseSystemCa = USE_SYSTEM_CA u,
         Download_SkipHostNameVerification = SKIP_HOST_NAME_VERIFICATION u, Download_UrlExpiresAt = urlExpiresAt u now\<rparr>)
       (SignUrl (signedUrlHandler u) clock (Inr (download_url u (TenancyPath u t) info)) (Values \<lparr>SignMethod = DOWNLOAD_METHOD u, SignContentLength = ''''\<rparr>))"

subsection \<open>Queries are read back\<close>

lemma unhex_hex: "d < 16 \<Longrightarrow> unhex (hex_char d) = Some d"
  by (auto simp: unhex_def hex_char_def of_char_of Let_def)

lemma hex_char_plain: "d < 16 \<Longrightarrow> unreserved (hex_char d)"
  by (auto simp: unreserved_def hex_char_def of_char_of Let_def)

lemma unreserved_plain: "unreserved c \<Longrightarrow> c \<notin> set ''%+&=; /''"
  by (auto simp: unreserved_def)

lemma half_char: "(of_char c :: nat) div 16 < 16"
  using of_char_less [of c] by (simp add: less_mult_imp_div_less)

lemma unescape_escaped: "unescape q (escaped c @ s) = map_option ((#) c) (unescape q s)"
proof -
  have "16 * (of_char c div 16) + of_char c mod 16 = (of_char c :: nat)" by simp
  then show ?thesis using half_char [of c] by (simp add: escaped_def unhex_hex del: mult_div_mod_eq)
qed

lemma unescape_QueryEscape: "unescape True (QueryEscape s) = Some s"
proof (induction s)
  case (Cons c s)
  have "QueryEscape (c # s) = (if unreserved c then [c] else if c = CHR '' '' then ''+'' else escaped c) @ QueryEscape s" by (simp add: QueryEscape_def)
  then show ?case using Cons unreserved_plain [of c] by (auto simp: unescape_escaped)
qed (simp add: QueryEscape_def)

lemma escaped_plain: "c \<in> set (escaped d) \<Longrightarrow> unreserved c \<or> c = CHR ''%''"
  using half_char [of d] by (auto simp: escaped_def intro: hex_char_plain)

lemma QueryEscape_plain: "c \<in> set (QueryEscape s) \<Longrightarrow> unreserved c \<or> c = CHR ''%'' \<or> c = CHR ''+''"
  by (auto simp: QueryEscape_def dest: escaped_plain split: if_splits)

lemma QueryEscape_no: "c \<in> set ''&=;'' \<Longrightarrow> c \<notin> set (QueryEscape s)"
  using QueryEscape_plain [of c s] unreserved_plain [of c] by auto

lemma add_pair_escaped: "add_pair (QueryEscape k @ ''='' @ QueryEscape x) v = Values_Add k x v"
proof -
  have "\<forall>c\<in>set (QueryEscape k). c \<noteq> CHR ''=''" using QueryEscape_no [of "CHR ''=''" k] by auto
  then have "takeWhile (\<lambda>c. c \<noteq> CHR ''='') (QueryEscape k @ ''='' @ QueryEscape x) = QueryEscape k"
    "dropWhile (\<lambda>c. c \<noteq> CHR ''='') (QueryEscape k @ ''='' @ QueryEscape x) = ''='' @ QueryEscape x" by (simp_all add: takeWhile_append dropWhile_append)
  then show ?thesis using QueryEscape_no [of "CHR '';''"] by (simp add: add_pair_def unescape_QueryEscape)
qed

lemma split_one: "c \<notin> set x \<Longrightarrow> split_on [c] acc x = [rev acc @ x]"
  by (induction x arbitrary: acc) (subst split_on.simps, auto)+

lemma split_next: "c \<notin> set x \<Longrightarrow> split_on [c] acc (x @ c # s) = (rev acc @ x) # split_on [c] [] s"
  by (induction x arbitrary: acc) (subst split_on.simps, auto)+

lemma split_Join: "xs \<noteq> [] \<Longrightarrow> \<forall>x\<in>set xs. c \<notin> set x \<Longrightarrow> split_on [c] [] (strings_Join xs [c]) = xs"
  by (induction xs "[c]" rule: strings_Join.induct) (simp_all add: split_one split_next)

lemma add_pair_empty: "add_pair '''' v = v"
  by (simp add: add_pair_def)

lemma ParseQuery_Join:
  assumes "\<forall>x\<in>set xs. CHR ''&'' \<notin> set x" shows "ParseQuery (strings_Join xs ''&'') = fold add_pair xs []"
proof (cases "xs = []")
  case True
  then show ?thesis by (simp add: ParseQuery_def Split_def split_one add_pair_empty)
next
  case False
  then show ?thesis using split_Join [OF False assms] by (simp add: ParseQuery_def Split_def)
qed

definition values_wf :: "url_Values \<Rightarrow> bool" where
  "values_wf v \<longleftrightarrow> gomap_wf v \<and> (\<forall>k. map_of v k \<noteq> Some [])"

lemma Values_Add_run: "xs \<noteq> [] \<Longrightarrow> map_of (fold (Values_Add k) xs v) = (map_of v)(k \<mapsto> (case map_of v k of None \<Rightarrow> [] | Some ys \<Rightarrow> ys) @ xs)"
proof (induction xs arbitrary: v)
  case (Cons x xs)
  show ?case
  proof (cases "xs = []")
    case False
    then show ?thesis using Cons.IH [OF False, of "Values_Add k x v"] by (auto simp: Values_Add_def map_of_update fun_eq_iff)
  qed (simp add: Values_Add_def gomap)
qed simp

lemma fold_pairs:
  "fold add_pair (concat (map (\<lambda>(k, xs). map (\<lambda>x. QueryEscape k @ ''='' @ QueryEscape x) xs) ps)) v = fold (\<lambda>(k, xs). fold (Values_Add k) xs) ps v"
proof (induction ps arbitrary: v)
  case (Cons p ps)
  obtain k xs where p: "p = (k, xs)" by (cases p)
  have "fold add_pair (map (\<lambda>x. QueryEscape k @ ''='' @ QueryEscape x) xs) v = fold (Values_Add k) xs v"
    by (induction xs arbitrary: v) (use add_pair_escaped in simp_all)
  then show ?case using Cons by (simp add: p)
qed simp

lemma fold_groups:
  "distinct (map fst ps) \<Longrightarrow> \<forall>(k, xs)\<in>set ps. xs \<noteq> [] \<Longrightarrow> \<forall>k\<in>fst ` set ps. map_of v k = None \<Longrightarrow>
   map_of (fold (\<lambda>(k, xs). fold (Values_Add k) xs) ps v) = map_of v ++ map_of ps"
proof (induction ps arbitrary: v)
  case (Cons p ps)
  obtain k xs where p: "p = (k, xs)" by (cases p)
  have m: "map_of (fold (Values_Add k) xs v) = (map_of v)(k \<mapsto> xs)" using Cons.prems Values_Add_run [of xs k v] by (simp add: p)
  then have "\<forall>j\<in>fst ` set ps. map_of (fold (Values_Add k) xs v) j = None" using Cons.prems by (auto simp: p)
  then have "map_of (fold (\<lambda>(k, xs). fold (Values_Add k) xs) ps (fold (Values_Add k) xs v)) = (map_of v)(k \<mapsto> xs) ++ map_of ps"
    using Cons.IH [of "fold (Values_Add k) xs v"] Cons.prems unfolding m by (simp add: fun_upd_def)
  moreover have "map_of ps k = None" using Cons.prems(1) by (simp add: p map_of_eq_None_iff)
  then have "(map_of v)(k \<mapsto> xs) ++ map_of ps = map_of v ++ (map_of ps)(k \<mapsto> xs)"
    by (auto simp: map_add_def fun_eq_iff split: option.split)
  ultimately show ?case by (simp only: p fold_simps prod.case map_of.simps fst_conv snd_conv)
qed simp

lemma query_roundtrip: "values_wf v \<Longrightarrow> map_of (ParseQuery (Encode v)) = map_of v"
proof -
  assume w: "values_wf v"
  let ?s = "sort_key fst v"
  have d: "distinct (map fst ?s)" using w by (simp add: values_wf_def gomap_wf_def distinct_map)
  have "ParseQuery (Encode v) = fold add_pair (concat (map (\<lambda>(k, xs). map (\<lambda>x. QueryEscape k @ ''='' @ QueryEscape x) xs) ?s)) []"
    unfolding Encode_def by (rule ParseQuery_Join) (auto simp: QueryEscape_no)
  then have "map_of (ParseQuery (Encode v)) = map_of (fold (\<lambda>(k, xs). fold (Values_Add k) xs) ?s [])" unfolding fold_pairs by simp
  moreover have "\<forall>(k, xs)\<in>set ?s. xs \<noteq> []" using w by (auto simp: values_wf_def gomap_wf_def)
  ultimately have "map_of (ParseQuery (Encode v)) = map_of ?s" using fold_groups [OF d, of "[]"] by simp
  moreover have "map_of ?s = map_of v" using d w by (intro map_of_eqI) (auto simp: values_wf_def gomap_wf_def dest!: map_of_SomeD intro!: map_of_is_SomeI)
  ultimately show ?thesis by simp
qed

lemma values_wf_Add: "values_wf v \<Longrightarrow> values_wf (Values_Add k x v)"
  by (simp add: values_wf_def Values_Add_def gomap)

lemma values_wf_Set: "values_wf v \<Longrightarrow> values_wf (Values_Set k x v)"
  by (simp add: values_wf_def Values_Set_def gomap)

lemma values_wf_add_pair: "values_wf v \<Longrightarrow> values_wf (add_pair s v)"
  by (auto simp: add_pair_def values_wf_Add split: option.split)

lemma values_wf_ParseQuery: "values_wf (ParseQuery q)"
proof -
  have "values_wf v \<Longrightarrow> values_wf (fold add_pair ss v)" for ss v by (induction ss arbitrary: v) (simp_all add: values_wf_add_pair)
  moreover have "values_wf []" by (simp add: values_wf_def)
  ultimately show ?thesis unfolding ParseQuery_def by blast
qed

lemma Values_Get_Set: "Values_Get k (Values_Set j x v) = (if k = j then x else Values_Get k v)"
  by (simp add: Values_Get_def Values_Set_def gomap)

lemma Get_roundtrip: "values_wf v \<Longrightarrow> Values_Get k (ParseQuery (Encode v)) = Values_Get k v"
  by (simp add: Values_Get_def query_roundtrip)

subsection \<open>What a signature is good for\<close>

lemma ParseInt_value_decimal: "in64 i \<Longrightarrow> ParseInt_value (decimal_int i) = i"
  by (simp add: ParseInt_value_def ParseInt_decimal)

definition expiry_text :: "SignedUrlHandlerBase \<Rightarrow> int \<Rightarrow> URL \<Rightarrow> string" where
  "expiry_text s now u = (if EXPIRATION s \<noteq> 0 then decimal_int (now + uint (EXPIRATION s)) else Values_Get (EXPIRY_PARAM s) (Query u))"

lemma SignUrl_parts:
  assumes "SignUrl s now (Inr u) ps = Inr u'" "EXPIRY_PARAM s \<noteq> SIGNATURE_PARAM s"
  shows "url_Path u' = url_Path u" "url_base u' = url_base u" "Values_Get (EXPIRY_PARAM s) (Query u') = expiry_text s now u"
    "Values_Get (SIGNATURE_PARAM s) (Query u') = Hmac_SumStr (url_mac s) (url_encode s) (digest_of s ps (expiry_text s now u) (url_Path u))"
proof -
  let ?q1 = "if EXPIRATION s \<noteq> 0 then Values_Set (EXPIRY_PARAM s) (decimal_int (now + uint (EXPIRATION s))) (Query u) else Query u"
  let ?u1 = "u\<lparr>RawQuery := Encode ?q1\<rparr>"
  let ?q2 = "Values_Set (SIGNATURE_PARAM s) (calcHmac s ?u1 ps) ?q1"
  have u': "u' = ?u1\<lparr>RawQuery := Encode ?q2\<rparr>" using assms(1) by (simp add: SignUrl_def Let_def)
  have w: "values_wf ?q1" "values_wf ?q2" by (simp_all add: values_wf_Set values_wf_ParseQuery Query_def)
  have e: "Values_Get (EXPIRY_PARAM s) ?q1 = expiry_text s now u" by (simp add: expiry_text_def Values_Get_Set)
  have "Values_Get (EXPIRY_PARAM s) (Query ?u1) = expiry_text s now u" using Get_roundtrip [OF w(1)] e by (simp add: Query_def)
  then have h: "calcHmac s ?u1 ps = Hmac_SumStr (url_mac s) (url_encode s) (digest_of s ps (expiry_text s now u) (url_Path u))" by (simp add: calcHmac_def)
  have g: "Values_Get k (Query u') = Values_Get k ?q2" for k using Get_roundtrip [OF w(2)] u' by (simp add: Query_def)
  show "url_Path u' = url_Path u" "url_base u' = url_base u" by (simp_all add: u')
  show "Values_Get (EXPIRY_PARAM s) (Query u') = expiry_text s now u" unfolding g Values_Get_Set using assms(2) e by simp
  show "Values_Get (SIGNATURE_PARAM s) (Query u') = Hmac_SumStr (url_mac s) (url_encode s) (digest_of s ps (expiry_text s now u) (url_Path u))"
    unfolding g Values_Get_Set using h by simp
qed

lemma signed_url_check:
  assumes "\<And>b. url_decode s (url_encode s b) = Inr b" "EXPIRY_PARAM s \<noteq> SIGNATURE_PARAM s"
    and "SignUrl s now (Inr u) ps = Inr u'" "EXPIRATION s \<noteq> 0 \<or> Values_Get (EXPIRY_PARAM s) (Query u) = ''''" "in64 (now + uint (EXPIRATION s))"
  shows "CheckUrl s t u' ps = (if EXPIRATION s = 0 \<or> t \<le> now + uint (EXPIRATION s) then None else Some ''expired'')"
proof -
  note p = SignUrl_parts [OF assms(3,2)]
  have "ParseInt_value (expiry_text s now u) = now + uint (EXPIRATION s)" if "EXPIRATION s \<noteq> 0" using that assms(5) by (simp add: expiry_text_def ParseInt_value_decimal)
  moreover have "expiry_text s now u = ''''" if "EXPIRATION s = 0" using that assms(4) by (simp add: expiry_text_def)
  moreover have "expiry_text s now u \<noteq> ''''" if "EXPIRATION s \<noteq> 0" using that by (simp add: expiry_text_def)
  moreover have "checkHmac s u' ps (expiry_text s now u) (Values_Get (SIGNATURE_PARAM s) (Query u')) = None"
    unfolding p(4) checkHmac_def p(1) by (rule Hmac_check_sum) (rule assms(1))
  ultimately show ?thesis unfolding CheckUrl_def Let_def p(3) by (cases "EXPIRATION s = 0") simp_all
qed

text \<open>The text that is digested.\<close>

definition signed_text :: "string list \<Rightarrow> string \<Rightarrow> string \<Rightarrow> string" where
  "signed_text ps expiry path = strings_Join ps newline @ newline @ expiry @ newline @ path"

lemma Sum_digest_of: "Hmac_Sum mac (digest_of s ps expiry path) = mac (SECRET s) (signed_text ps expiry path)"
  by (simp add: digest_of_def Hmac_Calc_concat NewHmac_def Hmac_Sum_def signed_text_def)

lemma cut_at: "a @ c # x = b @ c # y \<Longrightarrow> c \<notin> set a \<Longrightarrow> c \<notin> set b \<Longrightarrow> a = b \<and> x = y"
  by (induction a arbitrary: b) (case_tac b; auto)+

lemma signed_text_split:
  assumes "signed_text ps e p = signed_text ps' e' p'" "length ps = length ps'" "\<forall>x\<in>set (ps @ ps'). CHR 0x0A \<notin> set x"
    and "CHR 0x0A \<notin> set e" "CHR 0x0A \<notin> set e'"
  shows "ps = ps' \<and> e = e' \<and> p = p'"
  using assms
proof (induction ps arbitrary: ps')
  case Nil
  then show ?case using cut_at [of e "CHR 0x0A" p e' p'] by (simp add: signed_text_def newline_def)
next
  case (Cons x ps)
  then obtain y ys where ps': "ps' = y # ys" by (cases ps') auto
  have step: "signed_text (z # zs) a b = z @ CHR 0x0A # (if zs = [] then a @ CHR 0x0A # b else signed_text zs a b)" for z zs a b
    by (cases zs) (simp_all add: signed_text_def newline_def)
  have eq: "x @ CHR 0x0A # (if ps = [] then e @ CHR 0x0A # p else signed_text ps e p) = y @ CHR 0x0A # (if ys = [] then e' @ CHR 0x0A # p' else signed_text ys e' p')"
    using Cons.prems(1) unfolding ps' step .
  have n: "CHR 0x0A \<notin> set x" "CHR 0x0A \<notin> set y" using Cons.prems(3) by (simp_all add: ps')
  have xy: "x = y" "(if ps = [] then e @ CHR 0x0A # p else signed_text ps e p) = (if ys = [] then e' @ CHR 0x0A # p' else signed_text ys e' p')"
    by (rule conjunct1 [OF cut_at [OF eq n]], rule conjunct2 [OF cut_at [OF eq n]])
  show ?case
  proof (cases "ps = []")
    case True
    then show ?thesis using xy Cons.prems cut_at [of e "CHR 0x0A" p e' p'] by (simp add: ps')
  next
    case False
    then have "signed_text ps e p = signed_text ys e' p'" using xy(2) Cons.prems(2) by (auto simp: ps')
    then show ?thesis using Cons.IH [of ys] Cons.prems xy(1) by (simp add: ps')
  qed
qed

text \<open>An expiry that is not a number is read as zero, which is over.\<close>

lemma newline_expired: assumes "CHR 0x0A \<in> set e" shows "ParseInt_value e = 0"
proof -
  have no: "parse_digits acc s = None" if "CHR 0x0A \<in> set s" for s acc
    using that
  proof (induction s arbitrary: acc)
    case (Cons c s)
    have "digit_val (CHR 0x0A) = None" by (simp add: digit_val_def)
    then show ?case using Cons by (auto split: option.split)
  qed simp
  obtain c cs where e: "e = c # cs" using assms by (cases e) auto
  have "ParseInt 64 e = Inl ''invalid syntax''"
  proof (cases "c = CHR ''-'' \<or> c = CHR ''+''")
    case True
    then have "CHR 0x0A \<in> set cs" using assms by (auto simp: e)
    then show ?thesis using True no [of cs] by (auto simp: e ParseInt_def Let_def)
  next
    case False
    then show ?thesis using no [of e] assms by (auto simp: e ParseInt_def Let_def)
  qed
  then show ?thesis by (simp add: ParseInt_value_def)
qed

lemma accepted_signature:
  assumes "CheckUrl s t u ps = None" shows "\<exists>b. url_decode s (Values_Get (SIGNATURE_PARAM s) (Query u)) = Inr b \<and>
    b = url_mac s (SECRET s) (signed_text ps (Values_Get (EXPIRY_PARAM s) (Query u)) (url_Path u)) \<and>
    (Values_Get (EXPIRY_PARAM s) (Query u) \<noteq> '''' \<longrightarrow> t \<le> ParseInt_value (Values_Get (EXPIRY_PARAM s) (Query u)))"
  using assms by (auto simp: CheckUrl_def checkHmac_def Hmac_CheckStr_def Sum_digest_of Let_def split: if_splits sum.splits)

lemma JoinPath_query [simp]: "RawQuery (JoinPath u es) = RawQuery u" "url_base (JoinPath u es) = url_base u"
  by (simp_all add: JoinPath_def Let_def split: option.split)

lemma url_query: "Query (upload_url u tp info i) = Query (BASE_UPLOAD_URL u)" "Query (download_url u tp info) = Query (BASE_DOWNLOAD_URL u)"
  by (simp_all add: upload_url_def download_url_def Query_def)

lemma sign_parts_nth:
  "sign_parts u clock tp info is = Inr us \<Longrightarrow> length us = length is \<and>
   (\<forall>k<length us. SignUrl (signedUrlHandler u) (clock (is ! k)) (Inr (upload_url u tp info (is ! k))) (upload_values u info (is ! k)) = Inr (us ! k))"
proof (induction "is" arbitrary: us)
  case (Cons i "is")
  then obtain x vs where v: "SignUrl (signedUrlHandler u) (clock i) (Inr (upload_url u tp info i)) (upload_values u info i) = Inr x"
    "sign_parts u clock tp info is = Inr vs" "us = x # vs" by (auto split: sum.splits)
  show ?case using Cons.IH [OF v(2)] v(1,3) by (auto simp: nth_Cons split: nat.split)
qed simp

lemma decimal_no_newline: "CHR 0x0A \<notin> set (decimal_int i)"
proof
  assume "CHR 0x0A \<in> set (decimal_int i)"
  then have "CHR 0x0A \<in> set (decimal (nat (- i))) \<or> CHR 0x0A \<in> set (decimal (nat i))" by (auto simp: decimal_int_def split: if_splits)
  then have "digit_val (CHR 0x0A) \<noteq> None" using digits_of_decimal by metis
  then show False by (simp add: digit_val_def)
qed

text \<open>Every URL that the manager issues for a part of a file is on the path of the part and is accepted for the method and the length of the part until the expiry the client was told, and
  refused as expired once the lifetime since its signing is over; without a lifetime it is always accepted.\<close>

theorem issued_upload_urls_are_accepted:
  assumes "\<And>b. url_decode (signedUrlHandler u) (url_encode (signedUrlHandler u) b) = Inr b" and "EXPIRY_PARAM (signedUrlHandler u) \<noteq> SIGNATURE_PARAM (signedUrlHandler u)"
    and "Values_Get (EXPIRY_PARAM (signedUrlHandler u)) (Query (BASE_UPLOAD_URL u)) = ''''"
    and "GetUploadUrls u now clock t info opts = Inr r" and "k < length (Urls r)" and "i = FromPartIndex r + int k"
    and "now \<le> clock i" and "in64 (clock i + uint (EXPIRATION (signedUrlHandler u)))"
  shows "url_Path (Urls r ! k) = url_Path (upload_url u (TenancyPath u t) info i) \<and>
    (EXPIRATION (signedUrlHandler u) = 0 \<or> t' \<le> Upload_UrlExpiresAt r \<longrightarrow> CheckUrl (signedUrlHandler u) t' (Urls r ! k) (upload_values u info i) = None) \<and>
    (EXPIRATION (signedUrlHandler u) \<noteq> 0 \<and> clock i + uint (EXPIRATION (signedUrlHandler u)) < t' \<longrightarrow>
       CheckUrl (signedUrlHandler u) t' (Urls r ! k) (upload_values u info i) = Some ''expired'')"
proof -
  let ?s = "signedUrlHandler u" and ?tp = "TenancyPath u t"
  obtain a b where ab: "OptionalArg (0, 0) opts = (a, b)" by fastforce
  obtain us to where us: "sign_parts u clock ?tp info [a..to] = Inr us" and r: "Urls r = us" "FromPartIndex r = a" "Upload_UrlExpiresAt r = urlExpiresAt u now"
    using assms(4) by (auto simp: GetUploadUrls_def ab Let_def)
  have "length us = length [a..to]" "SignUrl ?s (clock ([a..to] ! k)) (Inr (upload_url u ?tp info ([a..to] ! k))) (upload_values u info ([a..to] ! k)) = Inr (us ! k)"
    using sign_parts_nth [OF us] assms(5) r by auto
  moreover from this have "[a..to] ! k = i" using assms(5,6) r by simp
  ultimately have s: "SignUrl ?s (clock i) (Inr (upload_url u ?tp info i)) (upload_values u info i) = Inr (Urls r ! k)" by (simp add: r)
  have c: "CheckUrl ?s t' (Urls r ! k) (upload_values u info i) = (if EXPIRATION ?s = 0 \<or> t' \<le> clock i + uint (EXPIRATION ?s) then None else Some ''expired'')"
    by (rule signed_url_check [OF assms(1,2) s]) (simp_all add: url_query assms(3,8))
  show ?thesis using c SignUrl_parts(1) [OF s assms(2)] assms(7) by (auto simp: r(3) urlExpiresAt_def Let_def)
qed

text \<open>Two texts the digest tells apart: it is not assumed to have no collisions.\<close>

definition no_collision :: "SignedUrlHandlerBase \<Rightarrow> string \<Rightarrow> string \<Rightarrow> bool" where
  "no_collision s a b \<longleftrightarrow> (url_mac s (SECRET s) a = url_mac s (SECRET s) b \<longrightarrow> a = b)"

lemma no_collision_same [simp]: "no_collision s a a"
  by (simp add: no_collision_def)

text \<open>A signature is good for one request only: if it was given to a URL for some values, then a URL that carries it is accepted only for the same values and the same path, with the same expiry
  and before that, unless the texts of the two requests collide under the digest.\<close>

theorem signature_binds_request:
  assumes "SignUrl s now (Inr u) ps = Inr u1" and "CheckUrl s t u2 ps' = None"
    and "Values_Get (SIGNATURE_PARAM s) (Query u2) = Values_Get (SIGNATURE_PARAM s) (Query u1)"
    and "\<And>b. url_decode s (url_encode s b) = Inr b"
    and "no_collision s (signed_text ps (decimal_int (now + uint (EXPIRATION s))) (url_Path u)) (signed_text ps' (Values_Get (EXPIRY_PARAM s) (Query u2)) (url_Path u2))"
    and "EXPIRY_PARAM s \<noteq> SIGNATURE_PARAM s"
    and "EXPIRATION s \<noteq> 0" and "in64 (now + uint (EXPIRATION s))" and "0 < t" and "length ps' = length ps" and "\<forall>p\<in>set (ps @ ps'). CHR 0x0A \<notin> set p"
  shows "ps' = ps \<and> url_Path u2 = url_Path u \<and> Values_Get (EXPIRY_PARAM s) (Query u2) = decimal_int (now + uint (EXPIRATION s)) \<and> t \<le> now + uint (EXPIRATION s)"
proof -
  let ?e = "Values_Get (EXPIRY_PARAM s) (Query u2)"
  have x: "expiry_text s now u = decimal_int (now + uint (EXPIRATION s))" using assms(7) by (simp add: expiry_text_def)
  have v: "url_decode s (Values_Get (SIGNATURE_PARAM s) (Query u2)) = Inr (url_mac s (SECRET s) (signed_text ps' ?e (url_Path u2)))" "?e \<noteq> '''' \<Longrightarrow> t \<le> ParseInt_value ?e"
    using accepted_signature [OF assms(2)] by auto
  have "url_decode s (Values_Get (SIGNATURE_PARAM s) (Query u2)) = Inr (url_mac s (SECRET s) (signed_text ps (expiry_text s now u) (url_Path u)))"
    unfolding assms(3) SignUrl_parts(4) [OF assms(1,6)] Hmac_SumStr_def assms(4) Sum_digest_of ..
  then have "signed_text ps (expiry_text s now u) (url_Path u) = signed_text ps' ?e (url_Path u2)" using v(1) assms(5) x by (simp add: no_collision_def)
  moreover have "CHR 0x0A \<notin> set ?e" using v(2) newline_expired [of ?e] assms(9) by fastforce
  ultimately have b: "ps = ps'" "expiry_text s now u = ?e" "url_Path u = url_Path u2"
    using signed_text_split [of ps "expiry_text s now u" "url_Path u" ps' ?e "url_Path u2"] assms(10,11) by (simp_all add: x decimal_no_newline)
  have "?e = decimal_int (now + uint (EXPIRATION s))" using b(2) x by simp
  then have "t \<le> now + uint (EXPIRATION s)" using v(2) ParseInt_value_decimal [OF assms(8)] by simp
  then show ?thesis using b x by simp
qed

subsection \<open>The lengths of parts\<close>

lemma FilePartLength_plain:
  assumes "0 \<le> i" "0 < m" "0 \<le> len" "len + m < 2 ^ 63" "i * m < len + m"
  shows "FilePartLength len m [i] = max 0 (min m (len - i * m))"
proof -
  have p: "0 \<le> i * m" using assms by simp
  then have "in64 (i * m)" using assms unfolding in64_def by linarith
  moreover have "in64 (len - i * m)" using p assms unfolding in64_def by linarith
  ultimately show ?thesis using assms(2) by (simp add: FilePartLength_def i64_id Let_def)
qed

lemma parts_sum:
  assumes "0 < m" "0 \<le> len" "len + m < 2 ^ 63" "(int n - 1) * m < len \<or> n = 0"
  shows "(\<Sum>i<n. FilePartLength len m [int i]) = min len (int n * m)"
  using assms(4)
proof (induction n)
  case (Suc n)
  then have n: "int n * m < len" by simp
  then have "(int n - 1) * m < len" using assms(1) by (simp add: left_diff_distrib)
  moreover have "FilePartLength len m [int n] = min m (len - int n * m)" using n assms by (subst FilePartLength_plain) auto
  ultimately show ?case using Suc n by (simp add: distrib_right min_def)
qed (use assms in simp)

text \<open>The parts of a file have positive lengths up to the greatest one, together the length of the file, and a part after the last one has the length zero.\<close>

theorem parts_cover_file:
  assumes "0 < File_Size info" and "0 < max_part w info" and "File_Size info + max_part w info < 2 ^ 63"
  shows "(\<Sum>i<nat (PartCount w info). UploadPartLength w info [int i]) = File_Size info \<and>
    (\<forall>i. 0 \<le> i \<and> i < PartCount w info \<longrightarrow> 0 < UploadPartLength w info [i] \<and> UploadPartLength w info [i] \<le> max_part w info) \<and>
    UploadPartLength w info [PartCount w info] = 0"
proof -
  let ?z = "File_Size info" and ?m = "max_part w info"
  let ?n = "(?z + ?m - 1) div ?m"
  have "in64 (?z + ?m - 1)" using assms by (simp add: in64_def)
  then have c: "PartCount w info = ?n" using assms by (simp add: PartCount_def Let_def i64_id go_quot_nonneg)
  have mod: "?n * ?m = ?z + ?m - 1 - (?z + ?m - 1) mod ?m" by (simp add: minus_mod_eq_div_mult)
  have r: "0 \<le> (?z + ?m - 1) mod ?m" "(?z + ?m - 1) mod ?m < ?m" using assms(2) by simp_all
  have n: "?z \<le> ?n * ?m" "?n * ?m < ?z + ?m" using mod r by linarith+
  have p: "0 \<le> ?n" using assms by (simp add: pos_imp_zdiv_nonneg_iff)
  have "(\<Sum>i<nat ?n. FilePartLength ?z ?m [int i]) = min ?z (int (nat ?n) * ?m)"
    using assms n p by (intro parts_sum) (auto simp: left_diff_distrib)
  then have "(\<Sum>i<nat (PartCount w info). UploadPartLength w info [int i]) = ?z" using n p by (simp add: c UploadPartLength_def)
  moreover have "0 < UploadPartLength w info [i] \<and> UploadPartLength w info [i] \<le> ?m" if "0 \<le> i" "i < ?n" for i
  proof -
    have "i + 1 \<le> ?n" using that by simp
    then have "(i + 1) * ?m \<le> ?n * ?m" using assms(2) by (intro mult_right_mono) auto
    then have "i * ?m < ?z" using n by (simp add: distrib_right)
    then show ?thesis using that assms by (subst (1 2) UploadPartLength_def) (auto simp: FilePartLength_plain)
  qed
  moreover have "UploadPartLength w info [?n] = 0" using n p assms by (simp add: UploadPartLength_def FilePartLength_plain)
  ultimately show ?thesis by (simp add: c)
qed

subsection \<open>A manager with one tenancy\<close>

text \<open>A digest of one byte.\<close>

definition sample_mac :: "bytes \<Rightarrow> bytes \<Rightarrow> bytes" where
  "sample_mac k x = [char_of (sum_list (map of_char (k @ x)) mod 256 :: nat)]"

definition sample_handler :: SignedUrlHandlerBase where
  "sample_handler = \<lparr>SECRET = ''k'', EXPIRATION = 3600, EXPIRY_PARAM = ''e'', SIGNATURE_PARAM = ''s'', url_mac = sample_mac, url_encode = id, url_decode = Inr\<rparr>"

definition sample_urls :: UrlManagerBase where
  "sample_urls = \<lparr>BASE_UPLOAD_URL = \<lparr>url_base = ''https://x'', url_Path = '''', RawQuery = ''''\<rparr>, BASE_DOWNLOAD_URL = \<lparr>url_base = ''https://x'', url_Path = '''', RawQuery = ''''\<rparr>,
     UPLOAD_PATH_PREFIX = ''/filedata/upload'', DOWNLOAD_PATH_PREFIX = ''/filedata/fetch'', UPLOAD_METHOD = ''POST'', DOWNLOAD_METHOD = ''GET'', ID_PARAMETER = ''id'',
     PART_PARAMETER = ''part'', TENANCY_PARAMETER = ''tenancy'', TOPIC_PARAMETER = ''topic'', SHADOW_TENANCY_PATH = True, ENABLE_TOPIC = False, USE_SYSTEM_CA = False,
     SKIP_HOST_NAME_VERIFICATION = False, helper_part_length = 4, signedUrlHandler = sample_handler, certificateChain = ''''\<rparr>"

definition sample_info :: FileInfo where
  "sample_info = \<lparr>File_ID = ''f1'', File_ContentType = ''text/plain'', File_Size = 10, File_FileName = ''a.txt'', File_Topic = '''', File_UploadPartSize = 0\<rparr>"

lemmas sample_url_defs = sample_urls_def sample_handler_def sample_info_def

theorem issued_upload_urls_are_accepted_witness:
  "\<exists>r. GetUploadUrls sample_urls 100 (\<lambda>i. 101 + i) None sample_info [] = Inr r \<and> length (Urls r) = 3 \<and>
     CheckUrl sample_handler 3700 (Urls r ! 2) (upload_values sample_urls sample_info 2) = None"
proof -
  have "sign_parts sample_urls (\<lambda>i. 101 + i) '''' sample_info is = Inr (map (\<lambda>i. projr (SignUrl sample_handler (101 + i) (Inr (upload_url sample_urls '''' sample_info i))
     (upload_values sample_urls sample_info i))) is)" for "is" by (induction "is") (simp_all add: SignUrl_def Let_def sample_url_defs)
  then have "\<exists>us. sign_parts sample_urls (\<lambda>i. 101 + i) '''' sample_info [0..2] = Inr us \<and> length us = 3" by simp
  moreover have "PartCount 4 sample_info = 3" "TenancyPath sample_urls None = ''''" by code_simp+
  ultimately obtain r where r: "GetUploadUrls sample_urls 100 (\<lambda>i. 101 + i) None sample_info [] = Inr r" and l: "length (Urls r) = 3" and f: "FromPartIndex r = 0"
    and e: "Upload_UrlExpiresAt r = urlExpiresAt sample_urls 100"
    by (auto simp: GetUploadUrls_def Let_def sample_urls_def)
  have h: "signedUrlHandler sample_urls = sample_handler" by (simp add: sample_urls_def)
  have "Values_Get (EXPIRY_PARAM sample_handler) (Query (BASE_UPLOAD_URL sample_urls)) = ''''" by code_simp
  moreover have "Upload_UrlExpiresAt r = 3700" unfolding e by code_simp
  moreover have "in64 (101 + 2 + uint (EXPIRATION sample_handler))" by code_simp
  ultimately show ?thesis using issued_upload_urls_are_accepted [of sample_urls 100 "\<lambda>i. 101 + i" None sample_info "[]" r 2 2 3700] r l f
    by (simp add: h) (simp add: sample_handler_def)
qed

theorem signature_binds_request_witness:
  "\<exists>u1. SignUrl sample_handler 100 (Inr (download_url sample_urls '''' sample_info)) [''GET''] = Inr u1 \<and> CheckUrl sample_handler 200 u1 [''GET''] = None \<and>
     url_Path u1 = url_Path (download_url sample_urls '''' sample_info)"
proof -
  let ?u = "download_url sample_urls '''' sample_info"
  obtain u1 where s: "SignUrl sample_handler 100 (Inr ?u) [''GET''] = Inr u1" by (simp add: SignUrl_def Let_def)
  have x: "EXPIRY_PARAM sample_handler \<noteq> SIGNATURE_PARAM sample_handler" "EXPIRATION sample_handler \<noteq> 0"
    "\<And>b. url_decode sample_handler (url_encode sample_handler b) = Inr b" by (simp_all add: sample_handler_def)
  have i: "in64 (100 + uint (EXPIRATION sample_handler))" "200 \<le> 100 + uint (EXPIRATION sample_handler)" by code_simp+
  have c: "CheckUrl sample_handler 200 u1 [''GET''] = None" using signed_url_check [OF x(3,1) s _ i(1)] x(2) i(2) by simp
  have n: "no_collision sample_handler (signed_text [''GET''] (decimal_int (100 + uint (EXPIRATION sample_handler))) (url_Path ?u))
      (signed_text [''GET''] (Values_Get (EXPIRY_PARAM sample_handler) (Query u1)) (url_Path u1))"
    using SignUrl_parts [OF s x(1)] x(2) by (simp add: expiry_text_def)
  show ?thesis using s c signature_binds_request [OF s c refl x(3) n x(1,2) i(1)] by simp
qed

theorem parts_cover_file_witness: "(\<Sum>i<nat (PartCount 4 sample_info). UploadPartLength 4 sample_info [int i]) = 10"
  using parts_cover_file [of sample_info 4] by (simp add: sample_info_def max_part_def)

end
