(* ===== verification/FileStorages.thy ===== *)
theory FileStorages
  imports SignedUrls Dates "HOL-Library.Sublist"
begin

section \<open>The storage of files\<close>

text \<open>
  Models \<^verbatim>\<open>pkg/filestorage/filesystem_storage.go\<close> and the ranges of \<^verbatim>\<open>filedata_service/filedata_controller.go\<close>: the parts of a file are uploaded into temporary files, joined into the file
  when the upload is finalized, and fetched by ranges. The file system maps cleaned paths to directories and files; of the calls of \<^verbatim>\<open>os\<close> those errors are modelled that
  come from the files and directories that are there. A reader is the data it gives with the error it ends with, which is \<open>None\<close> at the end of the data, and whether the end is reported together with the last byte, as \<open>io.Reader\<close> allows. Identifiers that are
  generated are arguments.
\<close>

subsection \<open>Paths and files\<close>

text \<open>A cleaned path: whether it is rooted, and its components.\<close>

type_synonym fpath = "bool \<times> string list"

definition path_step :: "bool \<Rightarrow> string \<Rightarrow> string list \<Rightarrow> string list" where
  "path_step rooted p acc =
     (if p = '''' \<or> p = ''.'' then acc
      else if p = ''..'' then (if acc \<noteq> [] \<and> last acc \<noteq> ''..'' then butlast acc else if rooted then acc else acc @ [p])
      else acc @ [p])"

definition path_add :: "fpath \<Rightarrow> string list \<Rightarrow> fpath" where
  "path_add dir elems = (fst dir, fold (path_step (fst dir)) (concat (map (\<lambda>e. Split e ''/'') elems)) (snd dir))"

definition filepath_Join :: "string list \<Rightarrow> fpath" where
  "filepath_Join elems =
     (let es = dropWhile (\<lambda>e. e = '''') elems in path_add (es \<noteq> [] \<and> hd (hd es) = CHR ''/'', []) es)"

definition filepath_Dir :: "fpath \<Rightarrow> fpath" where
  "filepath_Dir p = (fst p, butlast (snd p))"

datatype node = Dir | RegularFile bytes

type_synonym fs = "fpath \<Rightarrow> node option"

definition below :: "fpath \<Rightarrow> fpath \<Rightarrow> bool" where
  "below p q \<longleftrightarrow> fst q = fst p \<and> prefix (snd p) (snd q)"

definition os_MkdirAll :: "fpath \<Rightarrow> fs \<Rightarrow> string + fs" where
  "os_MkdirAll p f =
     (if list_ex (\<lambda>k. case f (fst p, take k (snd p)) of Some (RegularFile b) \<Rightarrow> True | _ \<Rightarrow> False) [0..<Suc (length (snd p))] then Inl ''not a directory''
      else Inr (\<lambda>q. if below q p then Some Dir else f q))"

definition os_Create :: "fpath \<Rightarrow> fs \<Rightarrow> string + fs" where
  "os_Create p f =
     (if f p = Some Dir then Inl ''is a directory''
      else if f (filepath_Dir p) \<noteq> Some Dir then Inl ''no such file or directory''
      else Inr (f(p \<mapsto> RegularFile [])))"

definition os_Rename :: "fpath \<Rightarrow> fpath \<Rightarrow> fs \<Rightarrow> string + fs" where
  "os_Rename p q f =
     (case f p of
        None \<Rightarrow> Inl ''no such file or directory''
      | Some n \<Rightarrow>
          if f q = Some Dir then Inl ''file exists''
          else if f (filepath_Dir q) \<noteq> Some Dir then Inl ''no such file or directory''
          else Inr ((f(p := None))(q \<mapsto> n)))"

definition os_Remove :: "fpath \<Rightarrow> fs \<Rightarrow> fs" where
  "os_Remove p f = f(p := None)"

definition os_RemoveAll :: "fpath \<Rightarrow> fs \<Rightarrow> fs" where
  "os_RemoveAll p f = (\<lambda>q. if below p q then None else f q)"

definition os_ReadFile :: "fpath \<Rightarrow> fs \<Rightarrow> string + bytes" where
  "os_ReadFile p f = (case f p of None \<Rightarrow> Inl ''no such file or directory'' | Some Dir \<Rightarrow> Inl ''is a directory'' | Some (RegularFile b) \<Rightarrow> Inr b)"

subsection \<open>The storage\<close>

record stored_file = FileInfo +
  File_CREATED_AT :: Time

record FilesystemStorage =
  BASE_DIR :: string
  TEMP_DIR :: string
  TENANCY_SUBFOLDER :: string
  TOPIC_SUBFOLDER :: string
  storage_part_length :: int

definition TempPath :: "FilesystemStorage \<Rightarrow> string option \<Rightarrow> stored_file \<Rightarrow> int list \<Rightarrow> fpath" where
  "TempPath f t info partIndex =
     (let d = Date_AsNumber (Date_SetTime (File_CREATED_AT info));
          dir = (case t of
                   Some i \<Rightarrow>
                     if File_Topic info = '''' then filepath_Join [TEMP_DIR f, d, TENANCY_SUBFOLDER f, i]
                     else filepath_Join [TEMP_DIR f, d, TENANCY_SUBFOLDER f, i, TOPIC_SUBFOLDER f, File_Topic info]
                 | None \<Rightarrow>
                     if File_Topic info = '''' then filepath_Join [TEMP_DIR f, d]
                     else filepath_Join [TEMP_DIR f, d, TOPIC_SUBFOLDER f, File_Topic info])
      in case partIndex of
           i # _ \<Rightarrow> path_add dir [d, File_ID info, decimal_int i]
         | [] \<Rightarrow> path_add dir [d, File_ID info])"

definition Path :: "FilesystemStorage \<Rightarrow> string option \<Rightarrow> 'z FileInfo_scheme \<Rightarrow> fpath" where
  "Path f t info =
     (let dir = (case t of
                   Some i \<Rightarrow>
                     if File_Topic info = '''' then filepath_Join [BASE_DIR f, TENANCY_SUBFOLDER f, i]
                     else filepath_Join [BASE_DIR f, TENANCY_SUBFOLDER f, i, TOPIC_SUBFOLDER f, File_Topic info]
                 | None \<Rightarrow>
                     if File_Topic info = '''' then filepath_Join [BASE_DIR f]
                     else filepath_Join [BASE_DIR f, TOPIC_SUBFOLDER f, File_Topic info])
      in path_add dir [File_ID info])"

definition StartUpload :: "FilesystemStorage \<Rightarrow> string option \<Rightarrow> stored_file \<Rightarrow> fs \<Rightarrow> string + fs" where
  "StartUpload f t info fs = os_MkdirAll (TempPath f t info []) fs"

definition tempSiblingPath :: "string \<Rightarrow> fpath \<Rightarrow> fpath" where
  "tempSiblingPath newid p = (fst p, butlast (snd p) @ [''_'' @ (if snd p = [] then '''' else last (snd p)) @ ''_'' @ newid])"

record source_reader =
  read_bytes :: bytes
  read_error :: "string option"
  read_end_with_last :: bool

text \<open>
  The copy of exactly \<open>n\<close> bytes, and the read of one more, which has to end the data: a byte that comes together with the end is let through and dropped. A reader that has
  ended ends again in the same way.
\<close>

definition read_part :: "int \<Rightarrow> source_reader \<Rightarrow> string + bytes" where
  "read_part n r =
     (let k = nat n
      in if length (read_bytes r) < k then Inl (case read_error r of None \<Rightarrow> ''EOF'' | Some e \<Rightarrow> e)
         else if k < length (read_bytes r) \<and> \<not> (length (read_bytes r) = k + 1 \<and> read_end_with_last r) then Inl ''source exceeds part size''
         else case read_error r of Some e \<Rightarrow> Inl e | None \<Rightarrow> Inr (take k (read_bytes r)))"

definition UploadPart :: "FilesystemStorage \<Rightarrow> string \<Rightarrow> string option \<Rightarrow> stored_file \<Rightarrow> source_reader \<Rightarrow> int list \<Rightarrow> fs \<Rightarrow> string option \<times> fs" where
  "UploadPart f newid t info source partIndex fs =
     (let path = TempPath f t info [OptionalArg 0 partIndex]; uploadPath = tempSiblingPath newid path
      in case os_MkdirAll (filepath_Dir path) fs of
           Inl e \<Rightarrow> (Some e, fs)
         | Inr fs1 \<Rightarrow>
             (case os_Create uploadPath fs1 of
                Inl e \<Rightarrow> (Some e, fs1)
              | Inr fs2 \<Rightarrow>
                  (case read_part (UploadPartLength (storage_part_length f) (FileInfo.truncate info) partIndex) source of
                     Inl e \<Rightarrow> (Some e, os_Remove uploadPath fs2)
                   | Inr b \<Rightarrow>
                       (case os_Rename uploadPath path (fs2(uploadPath \<mapsto> RegularFile b)) of
                          Inl e \<Rightarrow> (Some e, os_Remove uploadPath fs2)
                        | Inr fs3 \<Rightarrow> (None, fs3)))))"

fun join_parts :: "(int \<Rightarrow> fpath) \<Rightarrow> fs \<Rightarrow> int list \<Rightarrow> bytes \<Rightarrow> string + bytes" where
  "join_parts part fs [] acc = Inr acc"
| "join_parts part fs (i # is) acc = (case os_ReadFile (part i) fs of Inl e \<Rightarrow> Inl e | Inr b \<Rightarrow> join_parts part fs is (acc @ b))"

definition FinalizeUpload :: "FilesystemStorage \<Rightarrow> string \<Rightarrow> string option \<Rightarrow> stored_file \<Rightarrow> int list \<Rightarrow> fs \<Rightarrow> string option \<times> fs" where
  "FinalizeUpload f newid t info partsCount fs =
     (let targetPath = Path f t info; tmpTargetPath = tempSiblingPath newid targetPath
      in case os_MkdirAll (filepath_Dir targetPath) fs of
           Inl e \<Rightarrow> (Some e, fs)
         | Inr fs1 \<Rightarrow>
             (case os_Create tmpTargetPath fs1 of
                Inl e \<Rightarrow> (Some e, fs1)
              | Inr fs2 \<Rightarrow>
                  (case join_parts (\<lambda>i. TempPath f t info [i]) fs2 [0..OptionalArg 1 partsCount - 1] [] of
                     Inl e \<Rightarrow> (Some e, os_Remove tmpTargetPath fs2)
                   | Inr b \<Rightarrow>
                       (case os_Rename tmpTargetPath targetPath (fs2(tmpTargetPath \<mapsto> RegularFile b)) of
                          Inl e \<Rightarrow> (Some e, os_Remove tmpTargetPath fs2)
                        | Inr fs3 \<Rightarrow> (None, os_RemoveAll (TempPath f t info []) fs3)))))"

text \<open>An open file with the position and the limit of its reader.\<close>

record opened =
  opened_node :: node
  opened_at :: int
  opened_limit :: "int option"

definition Fetch :: "FilesystemStorage \<Rightarrow> string option \<Rightarrow> 'z FileInfo_scheme \<Rightarrow> int list \<Rightarrow> fs \<Rightarrow> string + opened" where
  "Fetch f t info offs fs =
     (case fs (Path f t info) of
        None \<Rightarrow> Inl ''no such file or directory''
      | Some n \<Rightarrow> if OptionalArg 0 offs < 0 then Inl ''invalid argument'' else Inr \<lparr>opened_node = n, opened_at = OptionalArg 0 offs, opened_limit = None\<rparr>)"

definition FetchRange :: "FilesystemStorage \<Rightarrow> string option \<Rightarrow> 'z FileInfo_scheme \<Rightarrow> int \<Rightarrow> int \<Rightarrow> fs \<Rightarrow> string + opened" where
  "FetchRange f t info offs len fs = map_sum id (\<lambda>r. r\<lparr>opened_limit := Some len\<rparr>) (Fetch f t info [offs] fs)"

definition read_opened :: "opened \<Rightarrow> string + bytes" where
  "read_opened r =
     (case opened_node r of
        Dir \<Rightarrow> Inl ''is a directory''
      | RegularFile b \<Rightarrow> Inr ((case opened_limit r of None \<Rightarrow> id | Some n \<Rightarrow> take (nat n)) (drop (nat (opened_at r)) b)))"

definition Exists :: "FilesystemStorage \<Rightarrow> string option \<Rightarrow> 'z FileInfo_scheme \<Rightarrow> fs \<Rightarrow> bool" where
  "Exists f t info fs = (case fs (Path f t info) of None \<Rightarrow> False | Some n \<Rightarrow> n \<noteq> Dir)"

definition storage_Delete :: "FilesystemStorage \<Rightarrow> string \<Rightarrow> fs \<Rightarrow> fs" where
  "storage_Delete f pathPrefix fs = os_RemoveAll (filepath_Join [BASE_DIR f, pathPrefix]) fs"

definition DeleteFile :: "FilesystemStorage \<Rightarrow> string option \<Rightarrow> 'z FileInfo_scheme \<Rightarrow> fs \<Rightarrow> fs" where
  "DeleteFile f t info fs = os_RemoveAll (Path f t info) fs"

definition DeleteTemp :: "FilesystemStorage \<Rightarrow> Date \<Rightarrow> fs \<Rightarrow> fs" where
  "DeleteTemp f toDate fs =
     (let dir = filepath_Join [TEMP_DIR f]; minName = Date_AsNumber toDate
      in (\<lambda>q. if below dir q \<and> q \<noteq> dir \<and> snd q ! length (snd dir) < minName then None else fs q))"

subsection \<open>Ranges\<close>

definition TrimSpace :: "string \<Rightarrow> string" where
  "TrimSpace s = (let sp = (\<lambda>c. c \<in> {CHR '' '', CHR 0x09, CHR 0x0A, CHR 0x0B, CHR 0x0C, CHR 0x0D}) in rev (dropWhile sp (rev (dropWhile sp s))))"

definition check_range :: "int \<Rightarrow> int \<Rightarrow> string + (int \<times> int)" where
  "check_range offs len = (if offs < 0 \<or> len \<le> 0 then Inl ''invalid calculated range'' else Inr (offs, len))"

definition ParseRange :: "string \<Rightarrow> int \<Rightarrow> string + (int \<times> int)" where
  "ParseRange rangeHeader totalSize =
     (if \<not> prefix ''bytes='' rangeHeader then Inl ''invalid range prefix''
      else
        (case Split (drop (length ''bytes='') rangeHeader) ''-'' of
           [a, b] \<Rightarrow>
             (let startStr = TrimSpace a; endStr = TrimSpace b
              in if startStr = '''' \<and> endStr \<noteq> '''' then
                   (let offs = max 0 (i64 (totalSize - ParseInt_value endStr)) in check_range offs (i64 (totalSize - offs)))
                 else if startStr \<noteq> '''' \<and> endStr = '''' then
                   (let offs = ParseInt_value startStr in check_range offs (i64 (totalSize - offs)))
                 else if startStr \<noteq> '''' \<and> endStr \<noteq> '''' then
                   (let offs = ParseInt_value startStr;
                        end0 = ParseInt_value endStr;
                        endByte = (if end0 \<ge> totalSize then i64 (totalSize - 1) else end0)
                    in check_range offs (i64 (endByte - offs + 1)))
                 else Inl ''unsupported range'')
         | _ \<Rightarrow> Inl ''invalid range format''))"

subsection \<open>Parts and the file\<close>

lemma decimal_int_chars: "c \<in> set (decimal_int i) \<Longrightarrow> c = CHR ''-'' \<or> digit_val c \<noteq> None"
  using digits_of_decimal by (auto simp: decimal_int_def split: if_splits)

lemma decimal_int_plain: "CHR ''/'' \<notin> set (decimal_int i)" "decimal_int i \<noteq> ''.''" "decimal_int i \<noteq> ''..''" "decimal_int i \<noteq> CHR ''_'' # s"
  using decimal_int_chars [of "CHR ''/''" i] decimal_int_chars [of "CHR ''.''" i] decimal_int_chars [of "CHR ''_''" i] by (auto simp: digit_val_def)

lemma part_path: "TempPath f t info [i] = (fst (TempPath f t info []), snd (TempPath f t info []) @ [decimal_int i])"
  using decimal_int_plain [of i] by (simp add: TempPath_def Let_def path_add_def Split_def split_one path_step_def)

lemma decimal_int_inj: "in64 i \<Longrightarrow> in64 j \<Longrightarrow> decimal_int i = decimal_int j \<Longrightarrow> i = j"
  by (metis ParseInt_decimal sum.inject(2))

lemma part_inj: "in64 i \<Longrightarrow> in64 j \<Longrightarrow> TempPath f t info [i] = TempPath f t info [j] \<Longrightarrow> i = j"
  using decimal_int_inj [of i j] unfolding part_path by simp

lemma part_dir: "filepath_Dir (TempPath f t info [i]) = TempPath f t info []"
  by (simp add: part_path filepath_Dir_def)

lemma part_not_above: "\<not> below (TempPath f t info [i]) (TempPath f t info [])"
  by (auto simp: part_path below_def prefix_def)

lemma sibling_not_part: "tempSiblingPath n p \<noteq> TempPath f t info [i]"
  using decimal_int_plain(4) [of i, symmetric] by (simp add: tempSiblingPath_def part_path)

lemma sibling_not_above: "\<not> below (tempSiblingPath n p) (filepath_Dir p)"
  by (auto simp: tempSiblingPath_def filepath_Dir_def below_def prefix_def)

lemma MkdirAll_ok: "os_MkdirAll p f = Inr f1 \<Longrightarrow> f1 q = (if below q p then Some Dir else f q) \<and> (below q p \<longrightarrow> (\<forall>b. f q \<noteq> Some (RegularFile b)))"
proof -
  assume m: "os_MkdirAll p f = Inr f1"
  have "f q \<noteq> Some (RegularFile b)" if "below q p" for b
  proof
    assume "f q = Some (RegularFile b)"
    moreover have "q = (fst p, take (length (snd q)) (snd p))" "length (snd q) \<le> length (snd p)" using that by (cases q; auto simp: below_def prefix_def)+
    ultimately have "\<exists>k\<in>set [0..<Suc (length (snd p))]. case f (fst p, take k (snd p)) of Some (RegularFile b) \<Rightarrow> True | _ \<Rightarrow> False"
      by (intro bexI [of _ "length (snd q)"]) (simp_all del: upt_Suc)
    then show False using m unfolding os_MkdirAll_def list_ex_iff by simp
  qed
  then show ?thesis using m by (auto simp: os_MkdirAll_def split: if_splits)
qed

definition whole :: "bytes \<Rightarrow> source_reader" where
  "whole b = \<lparr>read_bytes = b, read_error = None, read_end_with_last = False\<rparr>"

lemma read_part_whole: "read_part n (whole b) = (if length b = nat n then Inr b else Inl (if length b < nat n then ''EOF'' else ''source exceeds part size''))"
  by (auto simp: read_part_def whole_def Let_def)

text \<open>A source with one byte too many is taken without it, when its reader reports the end together with that byte.\<close>

theorem extra_byte_is_dropped:
  "read_part 4 \<lparr>read_bytes = ''abcde'', read_error = None, read_end_with_last = True\<rparr> = Inr ''abcd''"
  "read_part 4 \<lparr>read_bytes = ''abcde'', read_error = None, read_end_with_last = False\<rparr> = Inl ''source exceeds part size''"
  by code_simp+

lemma UploadPart_ok:
  assumes "UploadPart f newid t info (whole b) [i] fs = (None, fs')"
  shows "length b = nat (UploadPartLength (storage_part_length f) (FileInfo.truncate info) [i]) \<and>
    fs' (TempPath f t info [i]) = Some (RegularFile b) \<and> (in64 i \<longrightarrow> in64 j \<longrightarrow> j \<noteq> i \<longrightarrow> fs' (TempPath f t info [j]) = fs (TempPath f t info [j]))"
proof -
  let ?p = "TempPath f t info [i]"
  let ?u = "tempSiblingPath newid ?p"
  obtain fs1 fs2 where m: "os_MkdirAll (TempPath f t info []) fs = Inr fs1" and c: "os_Create ?u fs1 = Inr fs2"
    and l: "length b = nat (UploadPartLength (storage_part_length f) (FileInfo.truncate info) [i])"
    and r: "os_Rename ?u ?p (fs2(?u \<mapsto> RegularFile b)) = Inr fs'"
    using assms by (auto simp: UploadPart_def Let_def part_dir read_part_whole split: sum.splits if_splits)
  have u: "?u \<noteq> TempPath f t info [k]" for k by (rule sibling_not_part)
  have p: "fs' = (fs2(?u := None))(?p \<mapsto> RegularFile b)" using r u by (auto simp: os_Rename_def split: if_splits)
  have "fs2 = fs1(?u \<mapsto> RegularFile [])" using c by (auto simp: os_Create_def split: if_splits)
  moreover have "fs1 (TempPath f t info [j]) = fs (TempPath f t info [j])" using MkdirAll_ok [OF m] part_not_above by simp
  ultimately show ?thesis using l p u [of j] part_inj [of i j f t info] by auto
qed

lemma join_parts_ok:
  "join_parts part fs is acc = Inr b \<Longrightarrow> (\<And>i. i \<in> set is \<Longrightarrow> fs (part i) = Some (RegularFile (g i))) \<Longrightarrow> b = acc @ concat (map g is)"
  by (induction part fs "is" acc rule: join_parts.induct) (auto simp: os_ReadFile_def)

lemma FinalizeUpload_ok:
  assumes "FinalizeUpload f newid t info [n] fs = (None, fs')" "\<And>i. 0 \<le> i \<Longrightarrow> i < n \<Longrightarrow> fs (TempPath f t info [i]) = Some (RegularFile (g i))"
    and "\<not> below (TempPath f t info []) (Path f t info)"
  shows "fs' (Path f t info) = Some (RegularFile (concat (map g [0..n - 1]))) \<and> (\<forall>q. below (TempPath f t info []) q \<longrightarrow> fs' q = None)"
proof -
  let ?p = "Path f t info" and ?T = "TempPath f t info []"
  let ?u = "tempSiblingPath newid ?p"
  obtain fs1 fs2 b fs3 where m: "os_MkdirAll (filepath_Dir ?p) fs = Inr fs1" and c: "os_Create ?u fs1 = Inr fs2"
    and j: "join_parts (\<lambda>i. TempPath f t info [i]) fs2 [0..n - 1] [] = Inr b"
    and r: "os_Rename ?u ?p (fs2(?u \<mapsto> RegularFile b)) = Inr fs3" and fs': "fs' = os_RemoveAll ?T fs3"
    using assms(1) by (auto simp: FinalizeUpload_def Let_def split: sum.splits)
  have f2: "fs2 = fs1(?u \<mapsto> RegularFile [])" using c by (auto simp: os_Create_def split: if_splits)
  have "fs2 (TempPath f t info [i]) = Some (RegularFile (g i))" if "i \<in> set [0..n - 1]" for i
  proof -
    have "fs (TempPath f t info [i]) = Some (RegularFile (g i))" using that assms(2) by simp
    then have "fs1 (TempPath f t info [i]) = Some (RegularFile (g i))" using MkdirAll_ok [OF m, of "TempPath f t info [i]"] by auto
    then show ?thesis using sibling_not_part [of newid ?p f t info i] by (simp add: f2)
  qed
  then have b: "b = concat (map g [0..n - 1])" using join_parts_ok [OF j] by auto
  have "fs3 ?p = Some (RegularFile b)" using r by (auto simp: os_Rename_def split: if_splits)
  then show ?thesis using assms(3) b by (simp add: fs' os_RemoveAll_def)
qed

text \<open>The upload of parts one after the other, each with its generated identifier and its data.\<close>

fun upload_parts :: "FilesystemStorage \<Rightarrow> string option \<Rightarrow> stored_file \<Rightarrow> int \<Rightarrow> (string \<times> bytes) list \<Rightarrow> fs \<Rightarrow> string option \<times> fs" where
  "upload_parts f t info i [] fs = (None, fs)"
| "upload_parts f t info i ((newid, b) # ps) fs =
     (case UploadPart f newid t info (whole b) [i] fs of
        (Some e, fs1) \<Rightarrow> (Some e, fs1)
      | (None, fs1) \<Rightarrow> upload_parts f t info (i + 1) ps fs1)"

lemma upload_parts_ok:
  assumes "upload_parts f t info i ps fs = (None, fs')" "0 \<le> i" "in64 (i + int (length ps))"
  shows "(\<forall>k<length ps. fs' (TempPath f t info [i + int k]) = Some (RegularFile (snd (ps ! k))) \<and>
      length (snd (ps ! k)) = nat (UploadPartLength (storage_part_length f) (FileInfo.truncate info) [i + int k])) \<and>
    (\<forall>j. 0 \<le> j \<longrightarrow> j < i \<longrightarrow> fs' (TempPath f t info [j]) = fs (TempPath f t info [j]))"
  using assms
proof (induction ps arbitrary: i fs)
  case (Cons p ps)
  obtain newid b where p: "p = (newid, b)" by (cases p)
  obtain fs1 where u: "UploadPart f newid t info (whole b) [i] fs = (None, fs1)" and r: "upload_parts f t info (i + 1) ps fs1 = (None, fs')"
    using Cons.prems(1) by (auto simp: p split: prod.splits option.splits)
  have ih: "\<forall>k<length ps. fs' (TempPath f t info [i + 1 + int k]) = Some (RegularFile (snd (ps ! k))) \<and>
      length (snd (ps ! k)) = nat (UploadPartLength (storage_part_length f) (FileInfo.truncate info) [i + 1 + int k])"
    "\<forall>j. 0 \<le> j \<longrightarrow> j < i + 1 \<longrightarrow> fs' (TempPath f t info [j]) = fs1 (TempPath f t info [j])"
    using Cons.IH [OF r] Cons.prems(2,3) by (simp_all add: add.assoc)
  have i: "in64 i" using Cons.prems(2,3) by (simp add: in64_def)
  have one: "length b = nat (UploadPartLength (storage_part_length f) (FileInfo.truncate info) [i])" "fs1 (TempPath f t info [i]) = Some (RegularFile b)"
    "in64 j \<Longrightarrow> j \<noteq> i \<Longrightarrow> fs1 (TempPath f t info [j]) = fs (TempPath f t info [j])" for j
    using UploadPart_ok [OF u] i by auto
  have "fs' (TempPath f t info [i]) = Some (RegularFile b)" using ih(2) one(2) Cons.prems(2) by simp
  then have "\<forall>k<length (p # ps). fs' (TempPath f t info [i + int k]) = Some (RegularFile (snd ((p # ps) ! k))) \<and>
      length (snd ((p # ps) ! k)) = nat (UploadPartLength (storage_part_length f) (FileInfo.truncate info) [i + int k])"
    using ih(1) one(1) by (auto simp: p less_Suc_eq_0_disj algebra_simps)
  moreover have "fs' (TempPath f t info [j]) = fs (TempPath f t info [j])" if "0 \<le> j" "j < i" for j
    using ih(2) one(3) [of j] that i by (simp add: in64_def)
  ultimately show ?case by blast
qed simp

lemma upto_map_int: "[0..int n - 1] = map int [0..<n]"
  by (induction n) (simp_all add: upto_rec2)

lemma concat_parts: "concat (map (\<lambda>i. snd (ps ! nat i)) [0..int (length ps) - 1]) = concat (map snd ps)"
proof -
  have "map (\<lambda>i. snd (ps ! nat i)) [0..int (length ps) - 1] = map (\<lambda>k. snd (ps ! k)) [0..<length ps]" by (simp add: upto_map_int)
  also have "\<dots> = map snd ps" by (rule nth_equalityI) simp_all
  finally show ?thesis by simp
qed

lemma length_concat_sum: "int (length (concat (map snd ps))) = (\<Sum>k<length ps. int (length (snd (ps ! k))))"
  by (induction ps) (simp_all add: sum.lessThan_Suc_shift del: sum.lessThan_Suc)

lemma uploaded_parts:
  assumes "upload_parts f t info 0 ps fs = (None, fs1)" "int (length ps) = PartCount (storage_part_length f) (FileInfo.truncate info)" "0 < File_Size info"
    and "0 < max_part (storage_part_length f) (FileInfo.truncate info)" "File_Size info + max_part (storage_part_length f) (FileInfo.truncate info) < 2 ^ 63"
  shows "0 \<le> i \<Longrightarrow> i < int (length ps) \<Longrightarrow> fs1 (TempPath f t info [i]) = Some (RegularFile (snd (ps ! nat i)))"
    "k < length ps \<Longrightarrow> length (snd (ps ! k)) = nat (UploadPartLength (storage_part_length f) (FileInfo.truncate info) [int k])"
proof -
  let ?w = "storage_part_length f" and ?i = "FileInfo.truncate info"
  have z: "File_Size ?i = File_Size info" by (simp add: FileInfo.defs)
  have "in64 (File_Size info + max_part ?w ?i - 1)" using assms(3-5) unfolding in64_def by linarith
  then have n: "int (length ps) = (File_Size info + max_part ?w ?i - 1) div max_part ?w ?i"
    unfolding assms(2) PartCount_def Let_def z using assms(3,4) by (simp add: i64_id go_quot_nonneg)
  have "max_part ?w ?i * int (length ps) = File_Size info + max_part ?w ?i - 1 - (File_Size info + max_part ?w ?i - 1) mod max_part ?w ?i"
    unfolding n by (rule minus_mod_eq_mult_div [symmetric])
  moreover have "0 \<le> (File_Size info + max_part ?w ?i - 1) mod max_part ?w ?i" using assms(4) by (rule pos_mod_sign)
  ultimately have "max_part ?w ?i * int (length ps) \<le> File_Size info + max_part ?w ?i - 1" by linarith
  moreover have "int (length ps) \<le> max_part ?w ?i * int (length ps)" using assms(4) by (simp add: mult_le_cancel_right1)
  ultimately have "in64 (0 + int (length ps))" using assms(5) unfolding in64_def by linarith
  note u = upload_parts_ok [OF assms(1) order_refl this]
  show "0 \<le> i \<Longrightarrow> i < int (length ps) \<Longrightarrow> fs1 (TempPath f t info [i]) = Some (RegularFile (snd (ps ! nat i)))"
    using u [THEN conjunct1, rule_format, of "nat i"] by simp
  show "k < length ps \<Longrightarrow> length (snd (ps ! k)) = nat (UploadPartLength ?w ?i [int k])" using u by simp
qed

lemma finalized_file_is_fetched:
  assumes "upload_parts f t info 0 ps fs = (None, fs1)" and "FinalizeUpload f newid t info [int (length ps)] fs1 = (None, fs2)"
    and "int (length ps) = PartCount (storage_part_length f) (FileInfo.truncate info)" and "0 < File_Size info" and "0 < max_part (storage_part_length f) (FileInfo.truncate info)"
    and "File_Size info + max_part (storage_part_length f) (FileInfo.truncate info) < 2 ^ 63" and "\<not> below (TempPath f t info []) (Path f t info)"
  shows "Exists f t info fs2 \<and> int (length (concat (map snd ps))) = File_Size info \<and>
    (\<exists>r. Fetch f t info [] fs2 = Inr r \<and> read_opened r = Inr (concat (map snd ps))) \<and>
    (\<forall>offs len. 0 \<le> offs \<longrightarrow> (\<exists>r. FetchRange f t info offs len fs2 = Inr r \<and> read_opened r = Inr (take (nat len) (drop (nat offs) (concat (map snd ps)))))) \<and>
    (\<forall>q. below (TempPath f t info []) q \<longrightarrow> fs2 q = None)"
proof -
  let ?w = "storage_part_length f" and ?i = "FileInfo.truncate info"
  have z: "File_Size ?i = File_Size info" by (simp add: FileInfo.defs)
  note cover = parts_cover_file [of ?i ?w, unfolded z, OF assms(4-6)]
  note u = uploaded_parts [OF assms(1,3-6)]
  have p: "fs2 (Path f t info) = Some (RegularFile (concat (map snd ps)))" "\<forall>q. below (TempPath f t info []) q \<longrightarrow> fs2 q = None"
    using FinalizeUpload_ok [OF assms(2) _ assms(7), of "\<lambda>i. snd (ps ! nat i)"] u(1) by (simp_all add: concat_parts)
  have "0 \<le> UploadPartLength ?w ?i [int k]" if "k < length ps" for k using cover that assms(3) by (metis less_imp_le of_nat_0_le_iff of_nat_less_iff)
  then have "int (length (concat (map snd ps))) = (\<Sum>k<length ps. UploadPartLength ?w ?i [int k])" using u(2) by (simp add: length_concat_sum)
  then have "int (length (concat (map snd ps))) = File_Size info" using cover assms(3) by (metis nat_int)
  then show ?thesis using p by (simp add: Exists_def Fetch_def FetchRange_def read_opened_def)
qed

text \<open>The files and directories that are there do not stand in the way of an upload.\<close>

definition free_for_upload :: "FilesystemStorage \<Rightarrow> string option \<Rightarrow> stored_file \<Rightarrow> fs \<Rightarrow> bool" where
  "free_for_upload f t info fs \<longleftrightarrow>
     (\<forall>q. below q (TempPath f t info []) \<or> below q (filepath_Dir (Path f t info)) \<longrightarrow> (\<forall>b. fs q \<noteq> Some (RegularFile b))) \<and>
     (\<forall>q. below (TempPath f t info []) q \<and> q \<noteq> TempPath f t info [] \<longrightarrow> fs q \<noteq> Some Dir) \<and>
     fs (Path f t info) \<noteq> Some Dir \<and> (\<forall>n. fs (tempSiblingPath n (Path f t info)) \<noteq> Some Dir)"

text \<open>Neither the file nor a scratch file next to it is in the directory of the parts or above it.\<close>

definition stored_apart :: "FilesystemStorage \<Rightarrow> string option \<Rightarrow> stored_file \<Rightarrow> bool" where
  "stored_apart f t info \<longleftrightarrow> snd (Path f t info) \<noteq> [] \<and> \<not> below (TempPath f t info []) (Path f t info) \<and> \<not> below (Path f t info) (TempPath f t info []) \<and>
     (\<forall>n. \<not> below (tempSiblingPath n (Path f t info)) (TempPath f t info []))"

lemma MkdirAll_free: "(\<And>q b. below q p \<Longrightarrow> fs q \<noteq> Some (RegularFile b)) \<Longrightarrow> os_MkdirAll p fs = Inr (\<lambda>q. if below q p then Some Dir else fs q)"
proof -
  assume a: "\<And>q b. below q p \<Longrightarrow> fs q \<noteq> Some (RegularFile b)"
  have "fs (fst p, take k (snd p)) \<noteq> Some (RegularFile b)" for k b by (rule a) (simp add: below_def take_is_prefix)
  then have "\<not> list_ex (\<lambda>k. case fs (fst p, take k (snd p)) of Some (RegularFile b) \<Rightarrow> True | _ \<Rightarrow> False) [0..<Suc (length (snd p))]"
    unfolding list_ex_iff by (fastforce simp del: upt_Suc split: option.splits node.splits)
  then show ?thesis by (simp add: os_MkdirAll_def)
qed

lemma path_below_refl [simp]: "below p p"
  by (simp add: below_def)

lemma sibling_dir: "snd p \<noteq> [] \<Longrightarrow> filepath_Dir (tempSiblingPath n p) = filepath_Dir p"
  by (simp add: filepath_Dir_def tempSiblingPath_def)

lemma below_Dir: "below q p \<Longrightarrow> below q (filepath_Dir p) \<or> q = p"
  by (cases p; cases q) (auto simp: below_def filepath_Dir_def prefix_def, metis butlast_append butlast_snoc rev_exhaust self_append_conv)

lemma UploadPart_free:
  assumes "free_for_upload f t info fs" "length b = nat (UploadPartLength (storage_part_length f) (FileInfo.truncate info) [i])"
    and a: "stored_apart f t info"
  shows "\<exists>fs'. UploadPart f newid t info (whole b) [i] fs = (None, fs') \<and> free_for_upload f t info fs'"
proof -
  let ?T = "TempPath f t info []" and ?p = "TempPath f t info [i]" and ?P = "Path f t info"
  let ?u = "tempSiblingPath newid ?p"
  let ?f1 = "\<lambda>q. if below q ?T then Some Dir else fs q"
  have m: "os_MkdirAll ?T fs = Inr ?f1" by (rule MkdirAll_free) (use assms(1) in \<open>auto simp: free_for_upload_def\<close>)
  have u: "below ?T ?u" "\<not> below ?u ?T" "filepath_Dir ?u = ?T" by (auto simp: tempSiblingPath_def part_path below_def prefix_def filepath_Dir_def)
  have p: "below ?T ?p" "\<not> below ?p ?T" by (auto simp: part_path below_def prefix_def)
  have ne: "?u \<noteq> ?T" "?p \<noteq> ?T" using u(2) p(2) path_below_refl by metis+
  have d: "fs ?u \<noteq> Some Dir" "fs ?p \<noteq> Some Dir" using assms(1) u(1) p(1) ne unfolding free_for_upload_def by blast+
  let ?f2 = "?f1(?u \<mapsto> RegularFile [])"
  let ?f3 = "(?f1(?u := None))(?p \<mapsto> RegularFile b)"
  have c: "os_Create ?u ?f1 = Inr ?f2" using u d by (simp add: os_Create_def)
  have n: "?u \<noteq> ?p" by (rule sibling_not_part)
  have r: "os_Rename ?u ?p (?f2(?u \<mapsto> RegularFile b)) = Inr ?f3" using n p d ne by (auto simp: os_Rename_def part_dir fun_upd_twist)
  have ok: "UploadPart f newid t info (whole b) [i] fs = (None, ?f3)"
    using m c r assms(2) by (simp add: UploadPart_def Let_def part_dir read_part_whole)
  have above: "\<not> below q ?P" "q \<noteq> ?P" "q \<noteq> tempSiblingPath k ?P" if "below ?T q" "q \<noteq> ?T" for q k
  proof -
    show "\<not> below q ?P" "q \<noteq> ?P" using a that by (auto simp: below_def stored_apart_def)
    show "q \<noteq> tempSiblingPath k ?P"
    proof
      assume "q = tempSiblingPath k ?P"
      then have "below ?T (filepath_Dir ?P)" using that below_Dir [of ?T q] sibling_dir [of ?P k] a by (simp add: stored_apart_def)
      then show False using a by (auto simp: below_def filepath_Dir_def stored_apart_def intro: prefix_order.trans prefixeq_butlast)
    qed
  qed
  have "free_for_upload f t info ?f3"
    unfolding free_for_upload_def
  proof (intro conjI allI impI)
    fix q b assume q: "below q ?T \<or> below q (filepath_Dir ?P)"
    then have "q \<noteq> ?p" "q \<noteq> ?u"
      using p u above(1) [OF p(1) ne(2)] above(1) [OF u(1) ne(1)] by (auto simp: below_def filepath_Dir_def intro: prefix_order.trans prefixeq_butlast)
    moreover have "fs q \<noteq> Some (RegularFile b)" using q assms(1) unfolding free_for_upload_def by blast
    ultimately show "?f3 q \<noteq> Some (RegularFile b)" by simp
  next
    fix q assume "below ?T q \<and> q \<noteq> ?T"
    moreover from this have "\<not> below q ?T" by (cases q) (auto simp: below_def prefix_def)
    moreover from calculation have "fs q \<noteq> Some Dir" using assms(1) unfolding free_for_upload_def by blast
    ultimately show "?f3 q \<noteq> Some Dir" by simp
  next
    show "?f3 ?P \<noteq> Some Dir" using assms(1) a above(2) p u ne by (auto simp: free_for_upload_def stored_apart_def)
  next
    fix k
    show "?f3 (tempSiblingPath k ?P) \<noteq> Some Dir" using assms(1) a above(3) p u ne by (auto simp: free_for_upload_def stored_apart_def)
  qed
  then show ?thesis using ok by blast
qed

lemma upload_parts_free:
  assumes "free_for_upload f t info fs" "stored_apart f t info"
    and "\<And>k. k < length ps \<Longrightarrow> length (snd (ps ! k)) = nat (UploadPartLength (storage_part_length f) (FileInfo.truncate info) [i + int k])"
  shows "\<exists>fs'. upload_parts f t info i ps fs = (None, fs') \<and> free_for_upload f t info fs'"
  using assms(1,3)
proof (induction ps arbitrary: i fs)
  case (Cons p ps)
  obtain newid b where p: "p = (newid, b)" by (cases p)
  have "length b = nat (UploadPartLength (storage_part_length f) (FileInfo.truncate info) [i])" using Cons.prems(2) [of 0] by (simp add: p)
  then obtain fs1 where u: "UploadPart f newid t info (whole b) [i] fs = (None, fs1)" "free_for_upload f t info fs1"
    using UploadPart_free [OF Cons.prems(1) _ assms(2)] by blast
  have "length (snd (ps ! k)) = nat (UploadPartLength (storage_part_length f) (FileInfo.truncate info) [i + 1 + int k])" if "k < length ps" for k
    using Cons.prems(2) [of "Suc k"] that by (simp add: add.assoc)
  then show ?case using Cons.IH [OF u(2), of "i + 1"] u(1) by (simp add: p)
qed simp

lemma sibling_differs: "tempSiblingPath n p \<noteq> p"
proof
  assume e: "tempSiblingPath n p = p"
  have "snd p \<noteq> []" using arg_cong [OF e, of "\<lambda>q. length (snd q)"] by (auto simp: tempSiblingPath_def)
  then have "last (snd p) = ''_'' @ last (snd p) @ ''_'' @ n" using arg_cong [OF e, of "\<lambda>q. last (snd q)"] by (simp add: tempSiblingPath_def)
  then have "length (last (snd p)) = length (''_'' @ last (snd p) @ ''_'' @ n)" by (rule arg_cong)
  then show False by simp
qed

lemma join_parts_total:
  "(\<And>i. i \<in> set is \<Longrightarrow> fs (part i) = Some (RegularFile (g i))) \<Longrightarrow> \<exists>b. join_parts part fs is acc = Inr b"
  by (induction part fs "is" acc rule: join_parts.induct) (auto simp: os_ReadFile_def)

lemma FinalizeUpload_free:
  assumes "free_for_upload f t info fs" "stored_apart f t info" "\<And>i. 0 \<le> i \<Longrightarrow> i < n \<Longrightarrow> fs (TempPath f t info [i]) = Some (RegularFile (g i))"
  shows "\<exists>fs'. FinalizeUpload f newid t info [n] fs = (None, fs')"
proof -
  let ?P = "Path f t info"
  let ?u = "tempSiblingPath newid ?P" and ?D = "filepath_Dir ?P"
  let ?f1 = "\<lambda>q. if below q ?D then Some Dir else fs q"
  have m: "os_MkdirAll ?D fs = Inr ?f1" by (rule MkdirAll_free) (use assms(1) in \<open>auto simp: free_for_upload_def\<close>)
  have nonempty: "snd ?P \<noteq> []" using assms(2) by (simp add: stored_apart_def)
  have P: "\<not> below ?P ?D" using nonempty by (cases "snd ?P" rule: rev_cases) (auto simp: below_def filepath_Dir_def prefix_def)
  have u: "\<not> below ?u ?D" "filepath_Dir ?u = ?D" "?u \<noteq> ?P" using sibling_not_above sibling_dir [OF nonempty] sibling_differs by auto
  let ?f2 = "?f1(?u \<mapsto> RegularFile [])"
  have c: "os_Create ?u ?f1 = Inr ?f2" using u assms(1) by (simp add: os_Create_def free_for_upload_def)
  have "?f2 (TempPath f t info [i]) = Some (RegularFile (g i))" if "i \<in> set [0..n - 1]" for i
  proof -
    have "fs (TempPath f t info [i]) = Some (RegularFile (g i))" using that assms(3) by simp
    moreover from this have "\<not> below (TempPath f t info [i]) ?D" using assms(1) unfolding free_for_upload_def by blast
    ultimately show ?thesis using sibling_not_part [of newid ?P f t info i] by auto
  qed
  then obtain b where j: "join_parts (\<lambda>i. TempPath f t info [i]) ?f2 [0..n - 1] [] = Inr b" using join_parts_total [of "[0..n - 1]" ?f2 "\<lambda>i. TempPath f t info [i]"] by blast
  have "\<exists>fs3. os_Rename ?u ?P (?f2(?u \<mapsto> RegularFile b)) = Inr fs3" using u P assms(1) by (auto simp: os_Rename_def free_for_upload_def)
  then show ?thesis using m c j by (auto simp: FinalizeUpload_def Let_def)
qed

text \<open>C24: where no other file or directory stands in the way, the parts of a file are all taken if they have the right lengths, and the upload can be finalized; then the file can be
  fetched and is the concatenation of the parts, and so is every range of it, it has the length that was announced, and the temporary files are gone.\<close>

theorem uploaded_file_is_fetched:
  assumes "free_for_upload f t info fs" and "stored_apart f t info"
    and "int (length ps) = PartCount (storage_part_length f) (FileInfo.truncate info)" and "0 < File_Size info" and "0 < max_part (storage_part_length f) (FileInfo.truncate info)"
    and "File_Size info + max_part (storage_part_length f) (FileInfo.truncate info) < 2 ^ 63"
    and "\<And>k. k < length ps \<Longrightarrow> length (snd (ps ! k)) = nat (UploadPartLength (storage_part_length f) (FileInfo.truncate info) [int k])"
  shows "\<exists>fs1 fs2. upload_parts f t info 0 ps fs = (None, fs1) \<and> FinalizeUpload f newid t info [int (length ps)] fs1 = (None, fs2) \<and>
    Exists f t info fs2 \<and> int (length (concat (map snd ps))) = File_Size info \<and>
    (\<exists>r. Fetch f t info [] fs2 = Inr r \<and> read_opened r = Inr (concat (map snd ps))) \<and>
    (\<forall>offs len. 0 \<le> offs \<longrightarrow> (\<exists>r. FetchRange f t info offs len fs2 = Inr r \<and> read_opened r = Inr (take (nat len) (drop (nat offs) (concat (map snd ps)))))) \<and>
    (\<forall>q. below (TempPath f t info []) q \<longrightarrow> fs2 q = None)"
proof -
  obtain fs1 where u: "upload_parts f t info 0 ps fs = (None, fs1)" "free_for_upload f t info fs1"
    using upload_parts_free [OF assms(1,2), of ps 0] assms(7) by auto
  note parts = uploaded_parts [OF u(1) assms(3-6)]
  obtain fs2 where f: "FinalizeUpload f newid t info [int (length ps)] fs1 = (None, fs2)"
    using FinalizeUpload_free [OF u(2) assms(2), of "int (length ps)" "\<lambda>i. snd (ps ! nat i)" newid] parts by auto
  have "\<not> below (TempPath f t info []) (Path f t info)" using assms(2) by (simp add: stored_apart_def)
  then show ?thesis using finalized_file_is_fetched [OF u(1) f assms(3-6)] u(1) f by blast
qed

lemma split_step: "split_on [c] acc [] = [rev acc]" "split_on [c] acc (d # s) = (if d = c then rev acc # split_on [c] [] s else split_on [c] (d # acc) s)"
  by (subst split_on.simps, simp)+

lemma split_no_sep: "x \<in> set (split_on [c] acc s) \<Longrightarrow> c \<notin> set acc \<Longrightarrow> c \<notin> set x"
  by (induction s arbitrary: acc) (fastforce simp: split_step split: if_splits)+

lemma TrimSpace_subset: "set (TrimSpace s) \<subseteq> set s"
  by (auto simp: TrimSpace_def Let_def dest!: set_dropWhileD)

lemma ParseInt_value_bounds: "in64 (ParseInt_value s)"
  by (auto simp: ParseInt_value_def ParseInt_def in64_def Let_def split: sum.splits option.splits if_splits list.splits)

lemma ParseInt_value_nonneg: "CHR ''-'' \<notin> set s \<Longrightarrow> 0 \<le> ParseInt_value s"
  by (cases s) (auto simp: ParseInt_value_def ParseInt_def Let_def split: sum.splits option.splits if_splits)

text \<open>A range that is accepted lies in the file and is not empty.\<close>

theorem accepted_range_is_in_file:
  assumes "ParseRange h filesize = Inr (offs, len)" and "0 \<le> filesize" and "in64 filesize" shows "0 \<le> offs \<and> 0 < len \<and> offs + len \<le> filesize"
proof -
  obtain a b where s: "Split (drop (length ''bytes='') h) ''-'' = [a, b]" using assms(1) by (auto simp: ParseRange_def split: if_splits list.splits)
  then have "CHR ''-'' \<notin> set b" using split_no_sep [of b "CHR ''-''" "[]" "drop (length ''bytes='') h"] by (simp add: Split_def)
  then have e: "0 \<le> ParseInt_value (TrimSpace b)" using ParseInt_value_nonneg TrimSpace_subset by blast
  let ?x = "ParseInt_value (TrimSpace a)" and ?y = "ParseInt_value (TrimSpace b)"
  have c: "check_range x y = Inr (offs, len) \<longleftrightarrow> offs = x \<and> len = y \<and> 0 \<le> x \<and> 0 < y" for x y by (auto simp: check_range_def)
  have i: "in64 ?x" "in64 ?y" by (rule ParseInt_value_bounds)+
  consider "offs = max 0 (i64 (filesize - ?y))" "len = i64 (filesize - offs)" "0 < len"
    | "offs = ?x" "len = i64 (filesize - offs)" "0 \<le> offs" "0 < len"
    | "offs = ?x" "len = i64 ((if ?y \<ge> filesize then i64 (filesize - 1) else ?y) - offs + 1)" "0 \<le> offs" "0 < len"
    using assms(1) by (auto simp: ParseRange_def s [simplified] c Let_def simp del: max.bounded_iff split: if_splits)
  then show ?thesis
  proof cases
    case 1
    have "in64 (filesize - ?y)" using e i assms by (simp add: in64_def)
    then have "offs = max 0 (filesize - ?y)" using 1 by (simp add: i64_id)
    moreover from this have "in64 (filesize - offs)" using e assms by (auto simp: in64_def max_def)
    ultimately show ?thesis using 1 by (simp add: i64_id)
  next
    case 2
    then have "in64 (filesize - offs)" using assms i by (simp add: in64_def)
    then show ?thesis using 2 by (simp add: i64_id)
  next
    case 3
    have t: "in64 (filesize - 1)" using assms by (simp add: in64_def)
    let ?z = "if ?y \<ge> filesize then filesize - 1 else ?y"
    have "-1 \<le> ?z" "?z < filesize" using e assms by auto
    then have "in64 (?z - offs + 1)" using assms(3) i(1) 3(1,3) unfolding in64_def by linarith
    then have "len = ?z - offs + 1" using 3 t by (simp add: i64_id split: if_splits)
    then show ?thesis using 3 \<open>?z < filesize\<close> by simp
  qed
qed

text \<open>A failed finalization leaves the file as it was.\<close>

lemma failed_finalization_keeps_file:
  assumes "FinalizeUpload f newid t info n fs = (Some e, fs')" "fs (Path f t info) = Some (RegularFile b)"
  shows "fs' (Path f t info) = Some (RegularFile b)"
  using assms sibling_differs [of newid "Path f t info"] MkdirAll_ok [of "filepath_Dir (Path f t info)" fs _ "Path f t info"]
  by (auto simp: FinalizeUpload_def Let_def os_Create_def os_Remove_def split: sum.splits if_splits)

subsection \<open>A file of two parts\<close>

definition sample_storage :: FilesystemStorage where
  "sample_storage = \<lparr>BASE_DIR = ''/d'', TEMP_DIR = ''/t'', TENANCY_SUBFOLDER = ''tenancy'', TOPIC_SUBFOLDER = ''topic'', storage_part_length = 4\<rparr>"

definition sample_file :: stored_file where
  "sample_file = \<lparr>File_ID = ''f1'', File_ContentType = ''text/plain'', File_Size = 6, File_FileName = ''a.txt'', File_Topic = '''', File_UploadPartSize = 0,
     File_CREATED_AT = time_Date 1970 1 1\<rparr>"

definition sample_fs :: fs where
  "sample_fs p = (if p = (True, []) then Some Dir else None)"

lemma sample_paths:
  "TempPath sample_storage (Some ''t1'') sample_file [] = (True, [''t'', ''19700101'', ''tenancy'', ''t1'', ''19700101'', ''f1''])"
  "Path sample_storage (Some ''t1'') sample_file = (True, [''d'', ''tenancy'', ''t1'', ''f1''])"
proof -
  have v: "valid_date 1970 1 1" by code_simp
  then have "valid_civil 1970 1 1" by (simp add: valid_date_def)
  then have "Date_SetTime (File_CREATED_AT sample_file) = 19700101" by (simp add: sample_file_def Date_SetTime_time_Date Date_Set_val [OF v])
  moreover have "padded 8 19700101 = ''19700101''" by (simp add: padded_def zero_padded_def decimal.simps digit_char_def char_of_def bit_0)
  ultimately have d: "Date_AsNumber (Date_SetTime (File_CREATED_AT sample_file)) = ''19700101''" by (simp add: Date_AsNumber_def)
  have "path_add (filepath_Join [''/t'', ''19700101'', ''tenancy'', ''t1'']) [''19700101'', ''f1''] = (True, [''t'', ''19700101'', ''tenancy'', ''t1'', ''19700101'', ''f1''])" by code_simp
  then show "TempPath sample_storage (Some ''t1'') sample_file [] = (True, [''t'', ''19700101'', ''tenancy'', ''t1'', ''19700101'', ''f1''])"
    unfolding TempPath_def d Let_def by (simp add: sample_storage_def sample_file_def)
  show "Path sample_storage (Some ''t1'') sample_file = (True, [''d'', ''tenancy'', ''t1'', ''f1''])" by code_simp
qed

lemma sample_place: "free_for_upload sample_storage (Some ''t1'') sample_file sample_fs" "stored_apart sample_storage (Some ''t1'') sample_file"
  by (auto simp: free_for_upload_def stored_apart_def sample_fs_def sample_paths tempSiblingPath_def below_def prefix_def)

theorem uploaded_file_is_fetched_witness:
  "\<exists>fs1 fs2 r. upload_parts sample_storage (Some ''t1'') sample_file 0 [(''a'', ''abcd''), (''b'', ''ef'')] sample_fs = (None, fs1) \<and>
     FinalizeUpload sample_storage ''c'' (Some ''t1'') sample_file [2] fs1 = (None, fs2) \<and> Fetch sample_storage (Some ''t1'') sample_file [] fs2 = Inr r \<and>
     read_opened r = Inr ''abcdef''"
proof -
  let ?ps = "[(''a'', ''abcd''), (''b'', ''ef'')]" and ?i = "FileInfo.truncate sample_file"
  have c: "int (length ?ps) = PartCount (storage_part_length sample_storage) ?i" "0 < File_Size sample_file" "0 < max_part (storage_part_length sample_storage) ?i"
    "File_Size sample_file + max_part (storage_part_length sample_storage) ?i < 2 ^ 63" by code_simp+
  have "UploadPartLength (storage_part_length sample_storage) ?i [0] = 4" "UploadPartLength (storage_part_length sample_storage) ?i [1] = 2" by code_simp+
  then have "length (snd (?ps ! k)) = nat (UploadPartLength (storage_part_length sample_storage) ?i [int k])" if "k < length ?ps" for k
    using that by (auto simp: less_Suc_eq)
  from uploaded_file_is_fetched [OF sample_place c this, of "''c''"] show ?thesis by fastforce
qed

theorem accepted_range_is_in_file_witness: "ParseRange ''bytes=2-9'' 6 = Inr (2, 4) \<and> (2::int) + 4 \<le> 6"
proof -
  have "Split ''2-9'' ''-'' = [''2'', ''9'']" "TrimSpace ''2'' = ''2''" "TrimSpace ''9'' = ''9''" by code_simp+
  moreover have "ParseInt_value ''2'' = 2" "ParseInt_value ''9'' = 9" by (simp_all add: ParseInt_value_def ParseInt_def digit_val_def)
  ultimately have "ParseRange ''bytes=2-9'' 6 = Inr (2, 4)" by (simp add: ParseRange_def check_range_def i64_id in64_def)
  then show ?thesis using accepted_range_is_in_file [of "''bytes=2-9''" 6 2 4] by (simp add: in64_def)
qed

end
