(* ===== verification/FileControllers.thy ===== *)
theory FileControllers
  imports FileStorages ApiServers
begin

section \<open>The service of files\<close>

text \<open>
  Models \<^verbatim>\<open>pkg/filestorage/filedata_service\<close>: the controller that takes the parts of files and gives files back, after it has checked the signed URL of the request. The registry of files
  is a parameter; the resource identifiers, the URL and the length of a request are arguments. The tenancy is that of the context.
\<close>

subsection \<open>The controller\<close>

definition ErrorCodeExpired :: string where "ErrorCodeExpired = ''operation_expired''"

record 'c FileInfoRegistryBase =
  urlManager :: UrlManagerBase
  find_upload :: "string \<Rightarrow> int \<Rightarrow> string \<Rightarrow> 'c AuthContext \<Rightarrow> (string + stored_file) \<times> 'c AuthContext"
  find_download :: "string \<Rightarrow> string \<Rightarrow> 'c AuthContext \<Rightarrow> (string + stored_file) \<times> 'c AuthContext"

record 'c FileDataControllerBase = "'c FileInfoRegistryBase" +
  filestorageManager :: FilesystemStorage
  controllerUrls :: SignedUrlHandlerBase

definition id_of :: "string \<Rightarrow> (string, string) gomap \<Rightarrow> string" where
  "id_of k ids = (case map_of ids k of None \<Rightarrow> '''' | Some v \<Rightarrow> v)"

definition topic_of :: "'c FileInfoRegistryBase \<Rightarrow> (string, string) gomap \<Rightarrow> string" where
  "topic_of r ids = (if ENABLE_TOPIC (urlManager r) then id_of (TOPIC_PARAMETER (urlManager r)) ids else '''')"

definition FindForUpload :: "'c FileInfoRegistryBase \<Rightarrow> (string, string) gomap \<Rightarrow> 'c AuthContext \<Rightarrow> (string + (stored_file \<times> int)) \<times> 'c AuthContext" where
  "FindForUpload r ids ctx =
     (let i = id_of (ID_PARAMETER (urlManager r)) ids; partStr = id_of (PART_PARAMETER (urlManager r)) ids
      in if i = '''' then (Inl ErrorCodeBadRequest, AuthContexts.SetGenericErrorCode ErrorCodeBadRequest [] ctx)
         else
           (case if partStr = '''' then Inr 0 else ParseInt 64 partStr of
              Inl e \<Rightarrow> (Inl e, AuthContexts.SetGenericErrorCode ErrorCodeBadRequest [] ctx)
            | Inr part \<Rightarrow> (case find_upload r i part (topic_of r ids) ctx of (res, ctx1) \<Rightarrow> (map_sum id (\<lambda>info. (info, part)) res, ctx1))))"

definition FindForDownload :: "'c FileInfoRegistryBase \<Rightarrow> (string, string) gomap \<Rightarrow> 'c AuthContext \<Rightarrow> (string + stored_file) \<times> 'c AuthContext" where
  "FindForDownload r ids ctx =
     (let i = id_of (ID_PARAMETER (urlManager r)) ids
      in if i = '''' then (Inl ErrorCodeBadRequest, AuthContexts.SetGenericErrorCode ErrorCodeBadRequest [] ctx)
         else find_download r i (topic_of r ids) ctx)"

definition checkUrl :: "'c FileDataControllerBase \<Rightarrow> int \<Rightarrow> URL \<Rightarrow> int \<Rightarrow> bool \<Rightarrow> 'c AuthContext \<Rightarrow> string option \<times> 'c AuthContext" where
  "checkUrl f now u contentLength download ctx =
     (let v = \<lparr>SignMethod = requestMethod ctx, SignContentLength = if download then '''' else decimal_int contentLength\<rparr>
      in case CheckUrl (controllerUrls f) now u (Values v) of
           None \<Rightarrow> (None, ctx)
         | Some e \<Rightarrow> (Some e, AuthContexts.SetGenericErrorCode (if e = ''expired'' then ErrorCodeExpired else ErrorCodeBadRequest) [] ctx))"

definition controller_UploadPart ::
    "'c FileDataControllerBase \<Rightarrow> int \<Rightarrow> string \<Rightarrow> URL \<Rightarrow> int \<Rightarrow> (string, string) gomap \<Rightarrow> source_reader \<Rightarrow> ('c, 'm) request \<Rightarrow> fs \<Rightarrow> (string option \<times> ('c, 'm) request) \<times> fs" where
  "controller_UploadPart f now newid u contentLength ids source r fs =
     (case checkUrl f now u contentLength False (fst r) of
        (Some e, ctx) \<Rightarrow> ((Some e, (ctx, snd r)), fs)
      | (None, ctx) \<Rightarrow>
          (case FindForUpload (FileInfoRegistryBase.truncate f) ids ctx of
             (Inl e, ctx1) \<Rightarrow> ((Some e, (ctx1, snd r)), fs)
           | (Inr (info, part), ctx1) \<Rightarrow>
               (case UploadPart (filestorageManager f) newid (tenancy ctx1) info source [part] fs of (err, fs1) \<Rightarrow> ((err, (ctx1, snd r)), fs1))))"

text \<open>The headers of a response, with the name of the file as the code writes it.\<close>

definition fetch_headers :: "stored_file \<Rightarrow> (int \<times> int) option \<Rightarrow> (string, string) gomap" where
  "fetch_headers info rng =
     (case rng of
        None \<Rightarrow> []
      | Some (offs, len) \<Rightarrow> [(''Content-Range'', ''bytes '' @ decimal_int offs @ ''-'' @ decimal_int (i64 (offs + len - 1)) @ ''/'' @ decimal_int (File_Size info))]) @
     [(''Accept-Ranges'', ''bytes''), (''Content-Disposition'', ''attachment; filename='' @ [CHR 0x22] @ File_FileName info)]"

definition not_exist_code :: "string \<Rightarrow> 'c AuthContext \<Rightarrow> 'c AuthContext" where
  "not_exist_code e ctx = (if e = ''no such file or directory'' then AuthContexts.SetGenericErrorCode ErrorCodeNotFound [] ctx else ctx)"

definition controller_Fetch ::
    "'c FileDataControllerBase \<Rightarrow> int \<Rightarrow> URL \<Rightarrow> (string, string) gomap \<Rightarrow> 'c AuthContext \<Rightarrow> fs \<Rightarrow>
     (string + (opened \<times> int \<times> string \<times> (string, string) gomap)) \<times> 'c AuthContext" where
  "controller_Fetch f now u ids ctx0 fs =
     (case checkUrl f now u 0 True ctx0 of
        (Some e, ctx) \<Rightarrow> (Inl e, ctx)
      | (None, ctx) \<Rightarrow>
          (case FindForDownload (FileInfoRegistryBase.truncate f) ids ctx of
             (Inl e, ctx1) \<Rightarrow> (Inl e, ctx1)
           | (Inr info, ctx1) \<Rightarrow>
               (let rangeHeader = GetRequestHeader ''Range'' ctx1
                in if rangeHeader = '''' then
                     (case Fetch (filestorageManager f) (tenancy ctx1) info [] fs of
                        Inl e \<Rightarrow> (Inl e, not_exist_code e ctx1)
                      | Inr src \<Rightarrow> (Inr (src, File_Size info, File_ContentType info, fetch_headers info None), ctx1))
                   else
                     (case ParseRange rangeHeader (File_Size info) of
                        Inl e \<Rightarrow> (Inl e, AuthContexts.SetGenericErrorCode ErrorCodeBadRequest [] ctx1)
                      | Inr (offs, len) \<Rightarrow>
                          (case FetchRange (filestorageManager f) (tenancy ctx1) info offs len fs of
                             Inl e \<Rightarrow> (Inl e, not_exist_code e ctx1)
                           | Inr src \<Rightarrow> (Inr (src, len, File_ContentType info, fetch_headers info (Some (offs, len))), ctx1))))))"

subsection \<open>Requests that are served\<close>

lemma decimal_int_inject: "decimal_int i = decimal_int j \<longleftrightarrow> i = j"
proof
  assume e: "decimal_int i = decimal_int j"
  have "i < 0 \<longleftrightarrow> j < 0" using e decimal_head [of "nat i"] decimal_head [of "nat j"] by (auto simp: decimal_int_def split: if_splits)
  moreover from this have "decimal (nat \<bar>i\<bar>) = decimal (nat \<bar>j\<bar>)" using e by (auto simp: decimal_int_def split: if_splits)
  then have "nat \<bar>i\<bar> = nat \<bar>j\<bar>" by (metis parse_decimal option.inject)
  ultimately show "i = j" by linarith
qed simp

lemma checkUrl_ok: "checkUrl f now u len download ctx = (None, ctx') \<longleftrightarrow>
    ctx' = ctx \<and> CheckUrl (controllerUrls f) now u (Values \<lparr>SignMethod = requestMethod ctx, SignContentLength = if download then '''' else decimal_int len\<rparr>) = None"
  by (auto simp: checkUrl_def Let_def split: option.splits)

lemma changing_upload_was_checked:
  assumes "controller_UploadPart f now newid u len ids source r fs = (res, fs')" "fs' \<noteq> fs"
  shows "CheckUrl (controllerUrls f) now u [requestMethod (fst r), decimal_int len] = None"
proof -
  obtain ctx where "checkUrl f now u len False (fst r) = (None, ctx)"
    using assms by (cases "checkUrl f now u len False (fst r)") (auto simp: controller_UploadPart_def split: option.splits)
  then show ?thesis by (simp add: checkUrl_ok Values_def decimal_int_nonempty)
qed

text \<open>C23: nothing is stored but what was asked for: unless its text and the text that was signed collide under the digest, a request whose URL carries the signature of the URL of a part changes the file system only when its method, its
  length and its path are those of the part, before the URL expires.\<close>

theorem upload_needs_issued_url:
  assumes "SignUrl (controllerUrls f) t0 (Inr (upload_url m tp info i)) (upload_values m info i) = Inr u1"
    and "controller_UploadPart f now newid u len ids source r fs = (res, fs')" and "fs' \<noteq> fs"
    and "Values_Get (SIGNATURE_PARAM (controllerUrls f)) (Query u) = Values_Get (SIGNATURE_PARAM (controllerUrls f)) (Query u1)"
    and "\<And>b. url_decode (controllerUrls f) (url_encode (controllerUrls f) b) = Inr b"
    and "no_collision (controllerUrls f)
      (signed_text (upload_values m info i) (decimal_int (t0 + uint (EXPIRATION (controllerUrls f)))) (url_Path (upload_url m tp info i)))
      (signed_text [requestMethod (fst r), decimal_int len] (Values_Get (EXPIRY_PARAM (controllerUrls f)) (Query u)) (url_Path u))"
    and "EXPIRY_PARAM (controllerUrls f) \<noteq> SIGNATURE_PARAM (controllerUrls f)" and "EXPIRATION (controllerUrls f) \<noteq> 0"
    and "in64 (t0 + uint (EXPIRATION (controllerUrls f)))" and "0 < now" and "CHR 0x0A \<notin> set (requestMethod (fst r))" and "CHR 0x0A \<notin> set (UPLOAD_METHOD m)"
  shows "requestMethod (fst r) = UPLOAD_METHOD m \<and> len = UploadPartLength (helper_part_length m) info [i] \<and> url_Path u = url_Path (upload_url m tp info i) \<and>
    now \<le> t0 + uint (EXPIRATION (controllerUrls f))"
proof -
  have v: "upload_values m info i = [UPLOAD_METHOD m, decimal_int (UploadPartLength (helper_part_length m) info [i])]"
    by (simp add: upload_values_def Values_def decimal_int_nonempty)
  have "[requestMethod (fst r), decimal_int len] = upload_values m info i \<and> url_Path u = url_Path (upload_url m tp info i) \<and> now \<le> t0 + uint (EXPIRATION (controllerUrls f))"
    using signature_binds_request [OF assms(1) changing_upload_was_checked [OF assms(2,3)] assms(4-10)] assms(11,12) by (auto simp: v decimal_no_newline)
  then show ?thesis by (simp add: v decimal_int_inject)
qed

lemma Fetch_opened: "Fetch s t info offs fs = Inr src \<Longrightarrow>
    fs (Path s t info) = Some (opened_node src) \<and> opened_at src = OptionalArg 0 offs \<and> opened_limit src = None \<and> 0 \<le> OptionalArg 0 offs"
  by (auto simp: Fetch_def split: option.splits if_splits)

lemma read_opened_ok: "read_opened src = Inr b \<Longrightarrow>
    \<exists>c. opened_node src = RegularFile c \<and> b = (case opened_limit src of None \<Rightarrow> id | Some n \<Rightarrow> take (nat n)) (drop (nat (opened_at src)) c)"
  by (auto simp: read_opened_def split: node.splits)

lemma controller_Fetch_cases:
  assumes "controller_Fetch f now u ids ctx fs = (Inr (src, len, ct, hs), ctx')"
  obtains info where "CheckUrl (controllerUrls f) now u [requestMethod ctx] = None" "find_download f (id_of (ID_PARAMETER (urlManager f)) ids) (topic_of (FileInfoRegistryBase.truncate f) ids) ctx = (Inr info, ctx')"
    "Fetch (filestorageManager f) (tenancy ctx') info [] fs = Inr src" "len = File_Size info"
  | info offs r where "CheckUrl (controllerUrls f) now u [requestMethod ctx] = None" "find_download f (id_of (ID_PARAMETER (urlManager f)) ids) (topic_of (FileInfoRegistryBase.truncate f) ids) ctx = (Inr info, ctx')"
    "ParseRange (GetRequestHeader ''Range'' ctx') (File_Size info) = Inr (offs, len)" "Fetch (filestorageManager f) (tenancy ctx') info [offs] fs = Inr r" "src = r\<lparr>opened_limit := Some len\<rparr>"
proof -
  obtain c where k: "checkUrl f now u 0 True ctx = (None, c)"
    using assms by (cases "checkUrl f now u 0 True ctx") (auto simp: controller_Fetch_def split: option.splits)
  obtain info c1 where d: "FindForDownload (FileInfoRegistryBase.truncate f) ids c = (Inr info, c1)"
    using assms k by (cases "FindForDownload (FileInfoRegistryBase.truncate f) ids c") (auto simp: controller_Fetch_def split: sum.splits)
  have c: "c = ctx" "CheckUrl (controllerUrls f) now u [requestMethod ctx] = None" using k by (auto simp: checkUrl_ok Values_def)
  have t: "urlManager (FileInfoRegistryBase.truncate f) = urlManager f" "find_download (FileInfoRegistryBase.truncate f) = find_download f" by (simp_all add: FileInfoRegistryBase.defs)
  have d1: "find_download f (id_of (ID_PARAMETER (urlManager f)) ids) (topic_of (FileInfoRegistryBase.truncate f) ids) ctx = (Inr info, c1)"
    using d unfolding FindForDownload_def Let_def t c(1) by (simp split: if_splits)
  have e: "c1 = ctx'" using assms k d by (auto simp: controller_Fetch_def Let_def split: sum.splits if_splits prod.splits)
  show ?thesis
  proof (cases "GetRequestHeader ''Range'' ctx' = ''''")
    case True
    then have "Fetch (filestorageManager f) (tenancy ctx') info [] fs = Inr src" "len = File_Size info"
      using assms k d unfolding e by (auto simp: controller_Fetch_def Let_def split: sum.splits)
    then show ?thesis using that(1) c(2) d1 unfolding e by blast
  next
    case False
    then obtain offs r where "ParseRange (GetRequestHeader ''Range'' ctx') (File_Size info) = Inr (offs, len)" "Fetch (filestorageManager f) (tenancy ctx') info [offs] fs = Inr r" "src = r\<lparr>opened_limit := Some len\<rparr>"
      using assms k d unfolding e by (auto simp: controller_Fetch_def Let_def FetchRange_def map_sum_def split: sum.splits)
    then show ?thesis using that(2) c(2) d1 unfolding e by blast
  qed
qed

text \<open>A file is given only to a request whose URL was signed for its method, and the data of the response has exactly the length the response announces, if stored files have the size of
  their descriptions.\<close>

theorem response_has_announced_length:
  assumes "controller_Fetch f now u ids ctx fs = (Inr (src, len, ct, hs), ctx')"
    and "\<And>i topic c info c' b. find_download f i topic c = (Inr info, c') \<Longrightarrow> fs (Path (filestorageManager f) (tenancy c') info) = Some (RegularFile b) \<Longrightarrow>
      int (length b) = File_Size info \<and> in64 (File_Size info)"
  shows "CheckUrl (controllerUrls f) now u [requestMethod ctx] = None \<and> (\<forall>b. read_opened src = Inr b \<longrightarrow> int (length b) = len)"
  using assms(1)
proof (cases rule: controller_Fetch_cases)
  case (1 info)
  have "int (length b) = len" if "read_opened src = Inr b" for b
    using read_opened_ok [OF that] Fetch_opened [OF 1(3)] assms(2) [OF 1(2)] 1(4) by auto
  then show ?thesis using 1(1) by blast
next
  case (2 info offs r)
  have "int (length b) = len" if b: "read_opened src = Inr b" for b
  proof -
    note o = Fetch_opened [OF 2(4)]
    obtain c where c: "opened_node r = RegularFile c" "b = take (nat len) (drop (nat offs) c)" using read_opened_ok [OF b] o by (auto simp: 2(5))
    then have "int (length c) = File_Size info" "in64 (File_Size info)" using assms(2) [OF 2(2)] o by auto
    then show ?thesis using accepted_range_is_in_file [OF 2(3)] c(2) by auto
  qed
  then show ?thesis using 2(1) by blast
qed

subsection \<open>A controller with one file\<close>

definition sample_controller :: "unit FileDataControllerBase" where
  "sample_controller = \<lparr>urlManager = sample_urls, find_upload = (\<lambda>i part topic c. (Inr sample_file, c)), find_download = (\<lambda>i topic c. (Inr sample_file, c)),
     filestorageManager = sample_storage, controllerUrls = sample_handler\<rparr>"

definition sample_upload :: "(unit, string) request" where
  "sample_upload = ((empty_context ())\<lparr>requestMethod := ''POST'', tenancy := Some ''t1''\<rparr>, snd (sample_request ''10.0.0.1''))"

lemma sample_signing: "\<And>b. url_decode sample_handler (url_encode sample_handler b) = Inr b"
  "EXPIRY_PARAM sample_handler \<noteq> SIGNATURE_PARAM sample_handler" "EXPIRATION sample_handler \<noteq> 0" "in64 (100 + uint (EXPIRATION sample_handler))" "200 \<le> 100 + uint (EXPIRATION sample_handler)"
  by (simp_all add: sample_handler_def in64_def)

lemma sample_check: "SignUrl sample_handler 100 (Inr u) ps = Inr u1 \<Longrightarrow> CheckUrl sample_handler 200 u1 ps = None"
  using signed_url_check [OF sample_signing(1,2) _ _ sample_signing(4), of u ps u1 200] sample_signing(3,5) by simp

lemma sample_part: "\<exists>fs'. UploadPart sample_storage ''a'' (Some ''t1'') sample_file (whole ''abcd'') [0] sample_fs = (None, fs') \<and> fs' \<noteq> sample_fs"
proof -
  have "UploadPartLength (storage_part_length sample_storage) (FileInfo.truncate sample_file) [0] = 4" by code_simp
  then obtain fs' where u: "UploadPart sample_storage ''a'' (Some ''t1'') sample_file (whole ''abcd'') [0] sample_fs = (None, fs')"
    using UploadPart_free [OF sample_place(1) _ sample_place(2), of "''abcd''" 0 "''a''"] by auto
  have "fs' (TempPath sample_storage (Some ''t1'') sample_file [0]) \<noteq> None" using UploadPart_ok [OF u] by simp
  moreover have "sample_fs (TempPath sample_storage (Some ''t1'') sample_file [0]) = None" by (simp add: part_path sample_fs_def)
  ultimately show ?thesis using u by force
qed

theorem upload_needs_issued_url_witness:
  "\<exists>u1 res fs'. SignUrl sample_handler 100 (Inr (upload_url sample_urls '''' (FileInfo.truncate sample_file) 0)) (upload_values sample_urls (FileInfo.truncate sample_file) 0) = Inr u1 \<and>
     controller_UploadPart sample_controller 200 ''a'' u1 4 [(''id'', ''f1''), (''part'', ''0'')] (whole ''abcd'') sample_upload sample_fs = (res, fs') \<and> fs' \<noteq> sample_fs \<and>
     UploadPartLength 4 (FileInfo.truncate sample_file) [0] = 4"
proof -
  let ?i = "FileInfo.truncate sample_file" and ?ids = "[(''id'', ''f1''), (''part'', ''0'')]"
  obtain u1 where s: "SignUrl sample_handler 100 (Inr (upload_url sample_urls '''' ?i 0)) (upload_values sample_urls ?i 0) = Inr u1" by (simp add: SignUrl_def Let_def)
  have v: "upload_values sample_urls ?i 0 = Values \<lparr>SignMethod = requestMethod (fst sample_upload), SignContentLength = decimal_int 4\<rparr>" by code_simp
  have c: "checkUrl sample_controller 200 u1 4 False (fst sample_upload) = (None, fst sample_upload)"
    using sample_check [OF s] by (simp add: checkUrl_ok v sample_controller_def)
  have f: "FindForUpload (FileInfoRegistryBase.truncate sample_controller) ?ids (fst sample_upload) = (Inr (sample_file, 0), fst sample_upload)"
    by (simp add: FindForUpload_def FileInfoRegistryBase.defs sample_controller_def id_of_def sample_urls_def ParseInt_def digit_val_def)
  have t: "tenancy (fst sample_upload) = Some ''t1''" "filestorageManager sample_controller = sample_storage" by (simp_all add: sample_upload_def sample_controller_def)
  obtain fs' where p: "UploadPart sample_storage ''a'' (Some ''t1'') sample_file (whole ''abcd'') [0] sample_fs = (None, fs')" "fs' \<noteq> sample_fs" using sample_part by blast
  have u: "controller_UploadPart sample_controller 200 ''a'' u1 4 ?ids (whole ''abcd'') sample_upload sample_fs = ((None, sample_upload), fs')"
    by (simp add: controller_UploadPart_def c f t p(1))
  have h: "controllerUrls sample_controller = sample_handler" by (simp add: sample_controller_def)
  have "no_collision sample_handler (signed_text (upload_values sample_urls ?i 0) (decimal_int (100 + uint (EXPIRATION sample_handler))) (url_Path (upload_url sample_urls '''' ?i 0)))
      (signed_text [requestMethod (fst sample_upload), decimal_int 4] (Values_Get (EXPIRY_PARAM sample_handler) (Query u1)) (url_Path u1))"
    using SignUrl_parts [OF s sample_signing(2)] sample_signing(3) by (simp add: expiry_text_def v Values_def decimal_int_nonempty)
  from upload_needs_issued_url [of sample_controller, unfolded h, OF s u p(2) refl sample_signing(1) this sample_signing(2-4)]
  have "UploadPartLength (helper_part_length sample_urls) ?i [0] = 4" by (simp add: sample_upload_def sample_urls_def)
  then have "UploadPartLength 4 ?i [0] = 4" by (simp add: sample_urls_def)
  then show ?thesis using s u p(2) by blast
qed

theorem response_has_announced_length_witness:
  "\<exists>u1 src len ct hs ctx'. SignUrl sample_handler 100 (Inr (download_url sample_urls '''' (FileInfo.truncate sample_file))) [''POST''] = Inr u1 \<and>
     controller_Fetch sample_controller 200 u1 [(''id'', ''f1'')] (fst sample_upload) (sample_fs(Path sample_storage (Some ''t1'') sample_file \<mapsto> RegularFile ''abcdef'')) =
       (Inr (src, len, ct, hs), ctx') \<and> read_opened src = Inr ''abcdef'' \<and> len = 6"
proof -
  let ?fs = "sample_fs(Path sample_storage (Some ''t1'') sample_file \<mapsto> RegularFile ''abcdef'')" and ?ids = "[(''id'', ''f1'')]"
  obtain u1 where s: "SignUrl sample_handler 100 (Inr (download_url sample_urls '''' (FileInfo.truncate sample_file))) [''POST''] = Inr u1" by (simp add: SignUrl_def Let_def)
  have c: "checkUrl sample_controller 200 u1 0 True (fst sample_upload) = (None, fst sample_upload)"
    using sample_check [OF s] by (simp add: checkUrl_ok sample_controller_def sample_upload_def Values_def)
  have f: "FindForDownload (FileInfoRegistryBase.truncate sample_controller) ?ids (fst sample_upload) = (Inr sample_file, fst sample_upload)"
    by (simp add: FindForDownload_def FileInfoRegistryBase.defs sample_controller_def id_of_def sample_urls_def)
  have t: "tenancy (fst sample_upload) = Some ''t1''" "GetRequestHeader ''Range'' (fst sample_upload) = ''''" "filestorageManager sample_controller = sample_storage" "File_Size sample_file = 6"
    by (simp_all add: sample_upload_def GetRequestHeader_def empty_context_def sample_controller_def sample_file_def)
  let ?src = "\<lparr>opened_node = RegularFile ''abcdef'', opened_at = 0, opened_limit = None\<rparr>"
  have g: "controller_Fetch sample_controller 200 u1 ?ids (fst sample_upload) ?fs =
      (Inr (?src, 6, File_ContentType sample_file, fetch_headers sample_file None), fst sample_upload)"
    by (simp add: controller_Fetch_def c f t Fetch_def)
  have r: "read_opened ?src = Inr ''abcdef''" by (simp add: read_opened_def)
  have "int (length ''abcdef'') = 6"
    using response_has_announced_length [OF g] r by (auto simp: sample_controller_def t)
  then show ?thesis using s g r by blast
qed

end
