(* ===== verification/Spec2Isabelle.thy ===== *)
theory Spec2Isabelle
  imports SelectorTries ReplacingQueues Feeders Consumers MessageQueues AccessControl Caches Crypto Strings
    AuthContexts AuthSchemas AuthSms AuthLogin AuthTokens GenericErrors Dates Timestamps WorkSchedules WorkPools FanIns
    PathNames ResourceTrees TenancyCalls FilterQueries Crud Loggers OpContexts Pools PoolCalls Users UserLogins SmsManagers ApiServers GrpcServers DynamicTables FileControllers
begin

section \<open>The evgo framework\<close>

text \<open>
  A verification development of \<^verbatim>\<open>evgo\<close>, a Go framework for multi-tenant back ends. A server of the framework receives requests on
  resources, authorizes them by schemas of handlers (tokens, logins, SMS codes, digests), works on databases through filters and CRUD calls, keeps tenancies in
  pools of services, runs scheduled works, and passes events between its parts through message queues. Each theory models one part and
  proves what the rest of the program relies on; this theory imports them all.

  \<^bold>\<open>Messages.\<close> \<open>SelectorTries\<close> models the registries of subscribers by attributes (\<^verbatim>\<open>message_queue/attribute_registry.go\<close>, \<^verbatim>\<open>selector_trie.go\<close>,
  \<^verbatim>\<open>level_trie.go\<close>): registration and removal with pruning are inverse, every run keeps a trie well formed, and the level trie finds exactly the
  registrations that subsume a key. \<open>ReplacingQueues\<close> (\<^verbatim>\<open>random_access_queue.go\<close>, \<^verbatim>\<open>replacing_queue.go\<close>) refines a list of keyed items. \<open>Feeders\<close>, \<open>Consumers\<close> and
  \<open>FanIns\<close> (\<^verbatim>\<open>feeder.go\<close>, \<^verbatim>\<open>consumer.go\<close>, \<^verbatim>\<open>fan_in.go\<close>, \<^verbatim>\<open>feeder_fan_in.go\<close>, \<^verbatim>\<open>subscriber_fun_in.go\<close>) are step relations over Go channels, where a send on a
  closed channel is a panic: in every reachable state the messages of a key keep their order, backlogs are bounded, nothing panics, and closing ends.
  \<open>MessageQueues\<close> (\<^verbatim>\<open>inmem_mq.go\<close>, \<^verbatim>\<open>subscriber.go\<close>, \<^verbatim>\<open>event_dispatcher/event.go\<close>) composes registry and consumers: a message
  is handed to a consumer at most once for each of its matching registrations, and exactly so often with a level trie.

  \<^bold>\<open>Authorization.\<close> \<open>AuthContexts\<close> is the state of a request and its encrypted parameters, \<open>AuthSchemas\<close> the aggregation of handlers
  (\<^verbatim>\<open>auth_schema.go\<close>, \<^verbatim>\<open>auth_manager.go\<close>), \<open>AuthSms\<close>, \<open>AuthLogin\<close> and \<open>AuthTokens\<close> the handlers of \<^verbatim>\<open>auth/auth_methods\<close> with
  sessions. What each of them admits, how it counts tries, throttles and revokes is proved of the whole handler; the contracts of caches and of the session
  table are the locales \<open>cache\<close> and \<open>session_store\<close>. \<open>AccessControl\<close> is the rule search of \<^verbatim>\<open>access_control\<close>, \<open>Caches\<close> the
  in-memory cache and the locks (\<^verbatim>\<open>cache\<close>), \<open>Crypto\<close> the framing of ciphertexts and digests (\<^verbatim>\<open>crypt_utils\<close>).

  \<^bold>\<open>Works.\<close> \<open>WorkSchedules\<close> models acquiring, posting, claiming and running of works (\<^verbatim>\<open>work_schedule/work_schedule.go\<close>), \<open>WorkPools\<close> its goroutines:
  a claim is an exclusive lease, rows follow the result of a run, counters are exact.

  \<^bold>\<open>Resources and names.\<close> \<open>PathNames\<close> (\<^verbatim>\<open>common/withnameandpath.go\<close>) has slices over shared arrays. \<open>Resources\<close> and \<open>ResourceTrees\<close>
  (\<^verbatim>\<open>api/resource.go\<close>, \<^verbatim>\<open>operation.go\<close>, \<^verbatim>\<open>common_operations.go\<close>) have a store of resources that point to each other: in a
  tree built by calls that share no identifier object and skip no rebuild the cached paths are those of the tree, while \<open>CloneChain\<close> does share one and leaves stale paths. Walks over the store carry fuel, the number of resources, and the lemmas prove it is enough in a store
  without cycles.

  \<^bold>\<open>Databases and tenancies.\<close> \<open>DbFilters\<close> and \<open>FilterQueries\<close> (\<^verbatim>\<open>db/filter.go\<close>, \<^verbatim>\<open>db_gorm/filter_parser.go\<close>, \<^verbatim>\<open>model_store.go\<close>, \<^verbatim>\<open>gorm_orm.go\<close>) treat filters, the
  queries that carry them, what of a filter such a query brings to the server, and the rows its conditions select, or that the statement fails. \<open>Crud\<close> (\<^verbatim>\<open>crud/crud.go\<close>, \<^verbatim>\<open>db/db.go\<close>) has the calls on objects: the database a call works on is the
  transaction of the request, an override, the main or the own one, and no write touches another. The handlers of a database are a record of functions; the locale \<open>db_table\<close>
  states what they promise, a sublocale gives the contract \<open>crud_table\<close> of the CRUD over them, and both are interpreted on tables that are lists of rows. \<open>Tenancies\<close>, \<open>TenancyRegistry\<close> and \<open>TenancyCalls\<close> (\<^verbatim>\<open>multitenancy/tenancy_manager\<close>) treat the
  registry of loaded tenancies: through any sequence of calls of the controller, each with the delivery of its notifications, it follows the database and leaks
  no connection, where creations name pool and customer by identifiers and give the paths; a creation by the name of a pool gets past the check of paths. \<open>Pools\<close> and \<open>PoolCalls\<close> (\<^verbatim>\<open>pool/pool_controller.go\<close>, \<^verbatim>\<open>pool_store.go\<close>, \<^verbatim>\<open>db_service.go\<close>) treat pools, services and their bindings over the CRUD: each call is a step of
  the specification \<open>rows_step\<close> of the tables, which keeps names unique and bindings sound; a bound service is what a loaded pool gives for its role, the store holds
  exactly the pools that were read, and connecting to a database service leaks nothing.

  \<^bold>\<open>Users.\<close> \<open>Users\<close> (\<^verbatim>\<open>user\<close>, \<^verbatim>\<open>customer\<close>, \<^verbatim>\<open>validator\<close>) has the controller of users over the CRUD: whatever calls were made, logins and identifiers stay unique. The locale \<open>users_table\<close> is
  what it relies on. \<open>UserLogins\<close> composes it with the login handler: a user that was added logs in with its password and with no other.

  \<^bold>\<open>Servers.\<close> \<open>ApiServers\<close> (\<^verbatim>\<open>api/api_server\<close>, \<^verbatim>\<open>rest_api_gin_server\<close>) composes tenancies, the anti-CSRF handler and authorization to the handling of a REST request: an
  endpoint is reached only through every check, of which the limit of the body does not hold for uploads, and a refused request gets the error of its first generic code. \<open>GrpcServers\<close> (\<^verbatim>\<open>grpc_api_server\<close>) has unary and streaming calls with
  the codec that authorizes while it decodes, where a panic is an outcome of an endpoint, the status and the headers of a response, and the registration. \<open>SmsManagers\<close> (\<^verbatim>\<open>sms\<close>) routes a message by the
  longest prefix of its number and records its sending. \<open>DynamicTables\<close> (\<^verbatim>\<open>dynamic_table_gorm\<close>) lists the fields of a model for a client.

  \<^bold>\<open>Files.\<close> \<open>SignedUrls\<close> (\<^verbatim>\<open>filestorage/signed_url.go\<close>, \<^verbatim>\<open>url_manager.go\<close>, \<^verbatim>\<open>upload_part_helper.go\<close>) signs and checks the URLs of parts of files: what is issued is accepted until it expires,
  and a signature is good for one request only, unless two texts collide under the digest. \<open>FileStorages\<close> (\<^verbatim>\<open>filesystem_storage.go\<close>) keeps files in a file system, a map from paths to directories and files: a file that was uploaded in parts
  and finalized is what is fetched, whole or by ranges. \<open>FileControllers\<close> (\<^verbatim>\<open>filedata_service\<close>) composes both with the request: nothing is stored under a signature but what its URL was issued for, up to such collisions.

  \<^bold>\<open>Contexts of operations.\<close> \<open>Loggers\<close> (\<^verbatim>\<open>logger\<close>) has loggers as trees of proxies, tees and sinks. \<open>OpContexts\<close> (\<^verbatim>\<open>op_context/default_op_context\<close>, \<^verbatim>\<open>oplog\<close>) has the context a request
  carries: the stack of its calls, the frames of which are shared with the snapshot that is taken at the first failure, the generic error and the operation log. Closing a context
  reports the first failure, writes the operation log in order and leaves the context clean. Each failing call of a controller leaves its generic error there.

  \<^bold>\<open>Helpers.\<close> \<open>Prelude\<close> reads Go maps, machine integers and optional arguments, with the collections \<open>gomap\<close> and \<open>goint\<close>. \<open>Strings\<close>, \<open>Dates\<close> and \<open>Timestamps\<close>
  model \<^verbatim>\<open>utils\<close> (masks, conversions, the civil calendar, packing into 64 bits), \<open>GenericErrors\<close> the errors and their manager (\<^verbatim>\<open>generic_error\<close>).

  \<^bold>\<open>Conventions.\<close> Definitions carry the names of the source. A Go error is a value of a sum, a nil pointer \<open>None\<close>, a panic a value of its own; 64-bit
  integers are kept in range by \<open>i64\<close> or are words, where overflow matters. Code outside the repository is a parameter: ttlcache, ciphers and digests, the
  database behind the CRUD calls, gorm's chains of conditions, user managers, SMS providers, runners of works, connections to databases, the registry of files. What the code
  relies on from it is a locale, and every locale is interpreted on the model's definitions or on a table that shows the contract can hold. Random values and the clock are arguments;
  a handler reads the clock once. Sections under a mutex are single steps. Outside \<open>OpContexts\<close> the tracing of calls is left out, and so are log records; the
  models of authorization, works and tenancies leave out operation logs too.

  \<^bold>\<open>Not modelled.\<close> The transport below the servers (gin, gRPC, HTTP, listeners), the clients (\<^verbatim>\<open>api/api_client\<close>), the drivers behind the database layer, Redis, RSA keys and signatures,
  e-mail and SMS providers, configuration, the sink of the log, validation rules and console tools: these are calls of third-party packages, reflection or I/O.
\<close>

end
